(* ===== verification/Prelude.thy ===== *)
theory Prelude
  imports Main "HOL-Library.Word" "HOL-Library.Char_ord" "HOL-Library.List_Lexorder" "HOL-Library.Sublist"
    "HOL-Library.Code_Target_Nat"
begin

text \<open>
  What every component theory shares: Rust's results, fixed-width integers, strings as
  UTF-8 byte lists, ordered maps, the length-prefixed framing under every digest, and the
  contracts (locales) that several components fulfil.
\<close>

section \<open>Results\<close>

text \<open>
  A Rust \<open>Result<T, E>\<close> is the sum \<open>'e + 'a\<close>; \<open>Err\<close> and \<open>Ok\<close> name its two sides.
\<close>

abbreviation Err :: "'e \<Rightarrow> 'e + 'a" where "Err \<equiv> Inl"
abbreviation Ok :: "'a \<Rightarrow> 'e + 'a" where "Ok \<equiv> Inr"

named_theorems model_defs \<open>definitions unfolded by the component proofs\<close>
named_theorems store_simps \<open>laws of the ordered maps\<close>

lemma isl_eq_Err: "isl r \<longleftrightarrow> (\<exists>e. r = Err e)"
  by (cases r) auto

lemma result_bind_Ok: "(case x of Err e \<Rightarrow> Err e | Ok a \<Rightarrow> f a) = Ok b \<longleftrightarrow> (\<exists>a. x = Ok a \<and> f a = Ok b)"
  by (cases x) simp_all

section \<open>Machine integers\<close>

type_synonym u8 = "8 word"
type_synonym u16 = "16 word"
type_synonym u32 = "32 word"
type_synonym u64 = "64 word"

definition sat_sub :: "'a::len word \<Rightarrow> 'a word \<Rightarrow> 'a word" where
  "sat_sub a b = (if a < b then 0 else a - b)"

definition sat_add :: "'a::len word \<Rightarrow> 'a word \<Rightarrow> 'a word" where
  "sat_add a b = (if unat a + unat b < 2 ^ LENGTH('a) then a + b else - 1)"

definition checked_add :: "'a::len word \<Rightarrow> 'a word \<Rightarrow> 'a word option" where
  "checked_add a b = (if unat a + unat b < 2 ^ LENGTH('a) then Some (a + b) else None)"

lemma unat_sat_sub: "unat (sat_sub a b) = unat a - unat b"
  by (simp add: sat_sub_def word_less_nat_alt unat_sub_if')

lemma unat_sat_add: "unat (sat_add (a :: 'a::len word) b) = min (unat a + unat b) (2 ^ LENGTH('a) - 1)"
proof (cases "unat a + unat b < 2 ^ LENGTH('a)")
  case True
  then show ?thesis by (simp add: sat_add_def unat_word_ariths)
next
  case False
  then show ?thesis by (simp add: sat_add_def unsigned_minus_1_eq_mask mask_eq_exp_minus_1)
qed

lemma sat_add_ge: "a \<le> sat_add a (b :: 'a::len word)"
proof -
  have "unat a < 2 ^ LENGTH('a)" by (rule unsigned_less)
  then have "unat a \<le> 2 ^ LENGTH('a) - 1" by linarith
  then show ?thesis by (simp add: word_le_nat_alt unat_sat_add)
qed

lemma checked_add_Some: "checked_add a b = Some c \<Longrightarrow> unat c = unat a + unat b"
  by (auto simp: checked_add_def unat_word_ariths split: if_splits)

section \<open>Strings\<close>

text \<open>
  A Rust \<open>String\<close> or \<open>&str\<close> is its UTF-8 bytes: an Isabelle \<open>string\<close>, whose \<open>char\<close> is
  one byte and whose \<open>length\<close> is Rust's \<open>len()\<close>. ASCII patterns are matched bytewise, which
  is what UTF-8 guarantees; the character classes of \<open>char\<close> are read off the decoded
  code points. The order on strings (\<open>List_Lexorder\<close> over \<open>Char_ord\<close>) is Rust's.
\<close>

definition byte :: "char \<Rightarrow> nat" where
  "byte c = of_char c"

lemma byte_less [simp]: "byte c < 256"
  by (simp add: byte_def nat_of_char_less_256)

lemma byte_eq_iff: "byte a = byte b \<longleftrightarrow> a = b"
  by (simp add: byte_def)

definition starts_with :: "string \<Rightarrow> string \<Rightarrow> bool" where
  "starts_with s p = prefix p s"

definition ends_with :: "string \<Rightarrow> string \<Rightarrow> bool" where
  "ends_with s p = suffix p s"

definition str_contains :: "string \<Rightarrow> string \<Rightarrow> bool" where
  "str_contains s p = sublist p s"

definition strip_prefix :: "string \<Rightarrow> string \<Rightarrow> string option" where
  "strip_prefix s p = (if prefix p s then Some (drop (length p) s) else None)"

definition strip_suffix :: "string \<Rightarrow> string \<Rightarrow> string option" where
  "strip_suffix s p = (if suffix p s then Some (take (length s - length p) s) else None)"

lemma strip_prefix_Some: "strip_prefix s p = Some r \<longleftrightarrow> s = p @ r"
  by (auto simp: strip_prefix_def prefix_def)

lemma strip_prefix_None: "strip_prefix s p = None \<longleftrightarrow> \<not> prefix p s"
  by (simp add: strip_prefix_def)

lemma strip_suffix_Some: "strip_suffix s p = Some r \<longleftrightarrow> s = r @ p"
  by (auto simp: strip_suffix_def suffix_def)

text \<open>\<open>str::split\<close> on one ASCII character, and joining with it.\<close>

fun split_on :: "char \<Rightarrow> string \<Rightarrow> string list" where
  "split_on c [] = [[]]"
| "split_on c (x # xs) =
     (if x = c then [] # split_on c xs
      else (case split_on c xs of [] \<Rightarrow> [[x]] | p # ps \<Rightarrow> (x # p) # ps))"

fun join_with :: "string \<Rightarrow> string list \<Rightarrow> string" where
  "join_with sep [] = []"
| "join_with sep [p] = p"
| "join_with sep (p # q # ps) = p @ sep @ join_with sep (q # ps)"

lemma split_on_nonempty [simp]: "split_on c s \<noteq> []"
  by (induction s) (auto split: list.splits)

lemma join_split: "join_with [c] (split_on c s) = s"
proof (induction s)
  case Nil
  then show ?case by simp
next
  case (Cons x xs)
  obtain p ps where sp: "split_on c xs = p # ps"
    by (cases "split_on c xs") auto
  with Cons show ?case by (cases ps) auto
qed

lemma split_on_inj: "split_on c s = split_on c t \<Longrightarrow> s = t"
  by (metis join_split)

lemma split_on_append: "split_on c (s @ c # t) = split_on c s @ split_on c t"
  by (induction s) (auto split: list.splits)

lemma split_on_no_sep: "c \<notin> set s \<Longrightarrow> split_on c s = [s]"
  by (induction s) auto

lemma split_on_parts: "p \<in> set (split_on c s) \<Longrightarrow> c \<notin> set p"
proof (induction s arbitrary: p)
  case Nil
  then show ?case by simp
next
  case (Cons x xs)
  then show ?case by (cases "split_on c xs") (auto split: if_splits)
qed

lemma set_split_on: "p \<in> set (split_on c s) \<Longrightarrow> set p \<subseteq> set s"
proof (induction s arbitrary: p)
  case Nil
  then show ?case by simp
next
  case (Cons x xs)
  then show ?case by (cases "split_on c xs") (fastforce split: if_splits)+
qed

lemma join_append_split:
  "ps \<noteq> [] \<Longrightarrow> qs \<noteq> [] \<Longrightarrow> join_with sep (ps @ qs) = join_with sep ps @ sep @ join_with sep qs"
proof (induction ps)
  case Nil
  then show ?case by simp
next
  case (Cons p ps)
  then show ?case
    by (cases ps; cases qs) auto
qed

text \<open>
  The segments of one string begin those of another exactly when the strings are equal or
  the second goes on with the separator: what segment-bounded prefix tests rely on.
\<close>

lemma prefix_split_on:
  "prefix (split_on c s) (split_on c t) \<longleftrightarrow> t = s \<or> (\<exists>u. t = s @ c # u)"
proof
  assume "prefix (split_on c s) (split_on c t)"
  then obtain qs where q: "split_on c t = split_on c s @ qs"
    by (auto simp: prefix_def)
  show "t = s \<or> (\<exists>u. t = s @ c # u)"
  proof (cases "qs = []")
    case True
    with q show ?thesis by (auto dest: split_on_inj)
  next
    case False
    then have "t = s @ [c] @ join_with [c] qs"
      using q join_split [of c t] join_split [of c s] join_append_split [of "split_on c s" qs "[c]"]
      by simp
    then show ?thesis by auto
  qed
next
  assume "t = s \<or> (\<exists>u. t = s @ c # u)"
  then show "prefix (split_on c s) (split_on c t)"
    by (auto simp: split_on_append)
qed


text \<open>\<open>str::to_ascii_lowercase\<close> and the ASCII classes of \<open>u8\<close>.\<close>

definition ascii_lower_char :: "char \<Rightarrow> char" where
  "ascii_lower_char c = (if 65 \<le> byte c \<and> byte c \<le> 90 then char_of (byte c + 32) else c)"

definition ascii_lower :: "string \<Rightarrow> string" where
  "ascii_lower s = map ascii_lower_char s"

definition is_digit_byte :: "char \<Rightarrow> bool" where
  "is_digit_byte c \<longleftrightarrow> 48 \<le> byte c \<and> byte c \<le> 57"

definition is_lower_byte :: "char \<Rightarrow> bool" where
  "is_lower_byte c \<longleftrightarrow> 97 \<le> byte c \<and> byte c \<le> 122"

definition is_upper_byte :: "char \<Rightarrow> bool" where
  "is_upper_byte c \<longleftrightarrow> 65 \<le> byte c \<and> byte c \<le> 90"

definition is_alnum_byte :: "char \<Rightarrow> bool" where
  "is_alnum_byte c \<longleftrightarrow> is_digit_byte c \<or> is_lower_byte c \<or> is_upper_byte c"

lemmas byte_class_defs = is_digit_byte_def is_lower_byte_def is_upper_byte_def is_alnum_byte_def

lemma byte_ascii_lower: "byte (ascii_lower_char c) = (if 65 \<le> byte c \<and> byte c \<le> 90 then byte c + 32 else byte c)"
  by (simp add: ascii_lower_char_def) (simp add: byte_def)

lemma ascii_lower_char_idem: "ascii_lower_char (ascii_lower_char c) = ascii_lower_char c"
  by (simp add: byte_eq_iff [symmetric] byte_ascii_lower)

lemma ascii_lower_idem [simp]: "ascii_lower (ascii_lower s) = ascii_lower s"
  by (simp add: ascii_lower_def ascii_lower_char_idem)

text \<open>
  The characters of a UTF-8 string, each as its bytes, and the code point a character
  encodes. The width comes from the first byte; on well-formed UTF-8, which every Rust
  string is, the pieces are exactly its \<open>chars()\<close>.
\<close>

definition utf8_width :: "char \<Rightarrow> nat" where
  "utf8_width c = (if byte c < 128 then 1 else if byte c < 224 then 2 else if byte c < 240 then 3 else 4)"

function utf8_chars :: "string \<Rightarrow> string list" where
  "utf8_chars [] = []"
| "utf8_chars (c # cs) = (c # take (utf8_width c - 1) cs) # utf8_chars (drop (utf8_width c - 1) cs)"
  by pat_completeness auto
termination
  by (relation "measure length") auto

fun code_point :: "string \<Rightarrow> nat" where
  "code_point [a] = byte a"
| "code_point [a, b] = (byte a mod 32) * 64 + byte b mod 64"
| "code_point [a, b, c] = (byte a mod 16) * 4096 + (byte b mod 64) * 64 + byte c mod 64"
| "code_point [a, b, c, d] =
     (byte a mod 8) * 262144 + (byte b mod 64) * 4096 + (byte c mod 64) * 64 + byte d mod 64"
| "code_point _ = 65533"

text \<open>\<open>char::is_whitespace\<close> (Unicode White_Space) and \<open>char::is_control\<close> (category Cc).\<close>

definition is_whitespace :: "string \<Rightarrow> bool" where
  "is_whitespace ch = (let p = code_point ch in
     (9 \<le> p \<and> p \<le> 13) \<or> p = 32 \<or> p = 133 \<or> p = 160 \<or> p = 5760 \<or> (8192 \<le> p \<and> p \<le> 8202)
     \<or> p = 8232 \<or> p = 8233 \<or> p = 8239 \<or> p = 8287 \<or> p = 12288)"

definition is_control :: "string \<Rightarrow> bool" where
  "is_control ch = (let p = code_point ch in p < 32 \<or> (127 \<le> p \<and> p \<le> 159))"

definition str_trim :: "string \<Rightarrow> string" where
  "str_trim s = concat (rev (dropWhile is_whitespace (rev (dropWhile is_whitespace (utf8_chars s)))))"

lemma concat_utf8_chars: "concat (utf8_chars s) = s"
  by (induction s rule: utf8_chars.induct) auto

lemma utf8_chars_ascii:
  "list_all (\<lambda>c. byte c < 128) s \<Longrightarrow> utf8_chars s = map (\<lambda>c. [c]) s"
  by (induction s) (auto simp: utf8_width_def)

text \<open>Trimming a string with no whitespace character at either end changes nothing.\<close>

lemma str_trim_id:
  assumes "utf8_chars s = [] \<or> (\<not> is_whitespace (hd (utf8_chars s)) \<and> \<not> is_whitespace (last (utf8_chars s)))"
  shows "str_trim s = s"
proof (cases "utf8_chars s = []")
  case True
  then show ?thesis using concat_utf8_chars [of s] by (simp add: str_trim_def)
next
  case False
  with assms have d1: "dropWhile is_whitespace (utf8_chars s) = utf8_chars s"
    by (cases "utf8_chars s") auto
  from False assms have d2: "dropWhile is_whitespace (rev (utf8_chars s)) = rev (utf8_chars s)"
    by (cases "utf8_chars s" rule: rev_cases) auto
  show ?thesis by (simp add: str_trim_def d1 d2 concat_utf8_chars)
qed

section \<open>Bytes of numbers, hexadecimal text and digests\<close>

definition be_bytes :: "nat \<Rightarrow> nat \<Rightarrow> string" where
  "be_bytes n x = map (\<lambda>i. char_of (x div 256 ^ (n - 1 - i) mod 256)) [0..<n]"

definition le_bytes :: "nat \<Rightarrow> nat \<Rightarrow> string" where
  "le_bytes n x = map (\<lambda>i. char_of (x div 256 ^ i mod 256)) [0..<n]"

lemma length_be_bytes [simp]: "length (be_bytes n x) = n"
  by (simp add: be_bytes_def)

lemma length_le_bytes [simp]: "length (le_bytes n x) = n"
  by (simp add: le_bytes_def)

lemma be_bytes_Nil [simp]: "be_bytes n x = [] \<longleftrightarrow> n = 0"
  using length_be_bytes [of n x] by (metis length_0_conv)

lemma rev_be_bytes: "rev (be_bytes n x) = le_bytes n x"
  by (rule nth_equalityI) (auto simp: be_bytes_def le_bytes_def rev_nth)

fun le_value :: "string \<Rightarrow> nat" where
  "le_value [] = 0"
| "le_value (c # cs) = byte c + 256 * le_value cs"

lemma le_bytes_Suc: "le_bytes (Suc n) x = char_of (x mod 256) # le_bytes n (x div 256)"
proof -
  have "x div (256 * 256 ^ i) = x div 256 div 256 ^ i" for i :: nat
    by (simp add: div_mult2_eq)
  then show ?thesis
    by (simp add: le_bytes_def upt_conv_Cons map_Suc_upt [symmetric] comp_def del: upt_Suc)
qed

lemma le_value_le_bytes: "le_value (le_bytes n x) = x mod 256 ^ n"
proof (induction n arbitrary: x)
  case 0
  then show ?case by (simp add: le_bytes_def)
next
  case (Suc n)
  have "x mod (256 * 256 ^ n) = x mod 256 + 256 * (x div 256 mod 256 ^ n)"
    by (simp add: mod_mult2_eq)
  then show ?case
    by (simp add: le_bytes_Suc Suc byte_def)
qed

lemma be_bytes_inj: "be_bytes n x = be_bytes n y \<Longrightarrow> x < 256 ^ n \<Longrightarrow> y < 256 ^ n \<Longrightarrow> x = y"
  by (metis le_value_le_bytes mod_less rev_be_bytes)

definition hex_digit_lower :: "nat \<Rightarrow> char" where
  "hex_digit_lower d = char_of (if d < 10 then 48 + d else 87 + d)"

definition hex_digit_upper :: "nat \<Rightarrow> char" where
  "hex_digit_upper d = char_of (if d < 10 then 48 + d else 55 + d)"

definition hex_lower :: "string \<Rightarrow> string" where
  "hex_lower bs = concat (map (\<lambda>b. [hex_digit_lower (byte b div 16), hex_digit_lower (byte b mod 16)]) bs)"

definition hex_upper :: "string \<Rightarrow> string" where
  "hex_upper bs = concat (map (\<lambda>b. [hex_digit_upper (byte b div 16), hex_digit_upper (byte b mod 16)]) bs)"

lemma length_hex_lower [simp]: "length (hex_lower bs) = 2 * length bs"
  by (induction bs) (simp_all add: hex_lower_def)

lemma length_hex_upper [simp]: "length (hex_upper bs) = 2 * length bs"
  by (induction bs) (simp_all add: hex_upper_def)

text \<open>For evaluation: from the last byte, stopping at zero.\<close>

lemma be_bytes_code [code]:
  "be_bytes n x = (if n = 0 then [] else if x = 0 then replicate n (CHR 0x00)
     else be_bytes (n - 1) (x div 256) @ [char_of (x mod 256)])"
proof (cases n)
  case (Suc m)
  have "le_bytes k 0 = replicate k (CHR 0x00)" for k by (induction k) (simp_all add: le_bytes_Suc char_of_def le_bytes_def [of 0])
  then have "be_bytes n 0 = replicate n (CHR 0x00)" by (metis rev_be_bytes rev_replicate rev_rev_ident)
  moreover have "be_bytes n x = be_bytes m (x div 256) @ [char_of (x mod 256)]"
    by (metis Suc le_bytes_Suc rev_be_bytes rev.simps(2) rev_rev_ident)
  ultimately show ?thesis using Suc by auto
qed (simp add: be_bytes_def)

lemma hex_digit_lower_inj: "d < 16 \<Longrightarrow> e < 16 \<Longrightarrow> hex_digit_lower d = hex_digit_lower e \<Longrightarrow> d = e"
  by (auto simp: hex_digit_lower_def byte_eq_iff [symmetric] byte_def split: if_splits)

lemma hex_digit_upper_inj: "d < 16 \<Longrightarrow> e < 16 \<Longrightarrow> hex_digit_upper d = hex_digit_upper e \<Longrightarrow> d = e"
  by (auto simp: hex_digit_upper_def byte_eq_iff [symmetric] byte_def split: if_splits)

lemma nibbles_inj:
  assumes "byte a div 16 = byte b div 16" "byte a mod 16 = byte b mod 16"
  shows "a = b"
  using assms by (metis byte_eq_iff div_mult_mod_eq)

lemma byte_nibbles [simp]: "byte b div 16 < 16" "byte b mod 16 < 16"
  by (simp_all add: less_mult_imp_div_less)

lemma hex_lower_inj: "hex_lower xs = hex_lower ys \<Longrightarrow> xs = ys"
proof (induction xs arbitrary: ys)
  case Nil
  then show ?case by (cases ys) (auto simp: hex_lower_def)
next
  case (Cons x xs)
  then show ?case
    by (cases ys) (auto simp: hex_lower_def dest!: hex_digit_lower_inj [rotated 2] intro: nibbles_inj)
qed

lemma hex_upper_inj: "hex_upper xs = hex_upper ys \<Longrightarrow> xs = ys"
proof (induction xs arbitrary: ys)
  case Nil
  then show ?case by (cases ys) (auto simp: hex_upper_def)
next
  case (Cons x xs)
  then show ?case
    by (cases ys) (auto simp: hex_upper_def dest!: hex_digit_upper_inj [rotated 2] intro: nibbles_inj)
qed


text \<open>Decimal text, and the zero-padded counters of the program's identifiers.\<close>

fun show_dec :: "nat \<Rightarrow> string" where
  "show_dec n = (if n < 10 then [hex_digit_lower n] else show_dec (n div 10) @ [hex_digit_lower (n mod 10)])"

declare show_dec.simps [simp del]

definition pad_zeros :: "nat \<Rightarrow> string \<Rightarrow> string" where
  "pad_zeros k s = replicate (k - length s) (CHR ''0'') @ s"

definition dec_value :: "string \<Rightarrow> nat" where
  "dec_value s = foldl (\<lambda>a c. a * 10 + (byte c - 48)) 0 s"

lemma byte_decimal_digit: "d < 10 \<Longrightarrow> byte (hex_digit_lower d) = 48 + d"
  by (simp add: hex_digit_lower_def byte_def)

lemma dec_value_show: "dec_value (show_dec n) = n"
proof (induction n rule: show_dec.induct)
  case (1 n)
  show ?case
  proof (cases "n < 10")
    case True
    then show ?thesis by (subst show_dec.simps) (simp add: dec_value_def byte_decimal_digit)
  next
    case False
    with 1 have "dec_value (show_dec (n div 10)) = n div 10" by simp
    with False show ?thesis by (subst show_dec.simps) (simp add: dec_value_def byte_decimal_digit)
  qed
qed

lemma dec_value_zeros: "dec_value (replicate k (CHR ''0'') @ s) = dec_value s"
proof -
  have "foldl (\<lambda>a c. a * 10 + (byte c - 48)) 0 (replicate k (CHR ''0'')) = 0"
    by (induction k) (simp_all add: byte_def)
  then show ?thesis by (simp add: dec_value_def)
qed

lemma pad_show_inj: "pad_zeros k (show_dec m) = pad_zeros k (show_dec n) \<Longrightarrow> m = n"
  by (metis dec_value_show dec_value_zeros pad_zeros_def)

text \<open>
  Every digest of the program hashes a list of byte strings, each preceded by its length
  as eight big-endian bytes. The framing is injective, so two different lists of fields
  never give the hash function the same input.
\<close>

definition framed :: "string list \<Rightarrow> string" where
  "framed parts = concat (map (\<lambda>p. be_bytes 8 (length p) @ p) parts)"

definition frameable :: "string list \<Rightarrow> bool" where
  "frameable parts \<longleftrightarrow> list_all (\<lambda>p. length p < 2 ^ 64) parts"

lemma framed_simps [simp]: "framed [] = []" "framed (p # ps) = be_bytes 8 (length p) @ p @ framed ps"
  by (simp_all add: framed_def)

lemma framed_inj: "framed ps = framed qs \<Longrightarrow> frameable ps \<Longrightarrow> frameable qs \<Longrightarrow> ps = qs"
proof (induction ps arbitrary: qs)
  case Nil
  then show ?case by (cases qs) auto
next
  case (Cons p ps)
  from Cons.prems(1) obtain q qs' where q: "qs = q # qs'"
    by (cases qs) auto
  with Cons.prems(1) have e: "be_bytes 8 (length p) = be_bytes 8 (length q) \<and> p @ framed ps = q @ framed qs'"
    by simp
  from Cons.prems(2,3) q have "length p < 256 ^ 8" "length q < 256 ^ 8"
    by (simp_all add: frameable_def)
  with e have "length p = length q" by (blast intro: be_bytes_inj)
  with e have "p = q" "framed ps = framed qs'" by auto
  with Cons.IH Cons.prems(2,3) q show ?case by (simp add: frameable_def)
qed

text \<open>
  The hash function itself is the \<open>sha2\<close> crate's, so it is a parameter \<open>H\<close> of the
  definitions that use it. Where a property needs that two given inputs do not collide,
  the hypothesis \<open>no_collision\<close> says so for these two inputs only.
\<close>

definition no_collision :: "(string \<Rightarrow> string) \<Rightarrow> string \<Rightarrow> string \<Rightarrow> bool" where
  "no_collision H x y \<longleftrightarrow> (H x = H y \<longrightarrow> x = y)"

definition sha256_label :: "(string \<Rightarrow> string) \<Rightarrow> string list \<Rightarrow> string" where
  "sha256_label H parts = ''sha256:'' @ hex_lower (H (framed parts))"

lemma sha256_label_inj:
  assumes "sha256_label H ps = sha256_label H qs" "frameable ps" "frameable qs"
    and "no_collision H (framed ps) (framed qs)"
  shows "ps = qs"
proof -
  from assms(1) have "H (framed ps) = H (framed qs)"
    by (auto simp: sha256_label_def dest: hex_lower_inj)
  with assms(4) have "framed ps = framed qs" by (simp add: no_collision_def)
  with assms(2,3) show ?thesis by (blast intro: framed_inj)
qed

section \<open>Ordered maps\<close>

text \<open>
  The contract of a \<open>BTreeMap\<close>: lookups after an insertion or a removal, and the order
  invariant every operation keeps.
\<close>

locale ordered_map =
  fixes lookup :: "'m \<Rightarrow> 'k::linorder \<Rightarrow> 'v option"
    and insert :: "'k \<Rightarrow> 'v \<Rightarrow> 'm \<Rightarrow> 'm"
    and remove :: "'k \<Rightarrow> 'm \<Rightarrow> 'm"
    and keys :: "'m \<Rightarrow> 'k list"
    and inv :: "'m \<Rightarrow> bool"
  assumes lookup_insert: "lookup (insert k v m) = (lookup m)(k \<mapsto> v)"
    and lookup_remove: "inv m \<Longrightarrow> lookup (remove k m) = (lookup m)(k := None)"
    and inv_insert: "inv m \<Longrightarrow> inv (insert k v m)"
    and inv_remove: "inv m \<Longrightarrow> inv (remove k m)"
    and keys_sorted: "inv m \<Longrightarrow> sorted (keys m) \<and> distinct (keys m)"
    and keys_dom: "set (keys m) = dom (lookup m)"
begin

lemma keys_unique: "inv m \<Longrightarrow> inv n \<Longrightarrow> dom (lookup m) = dom (lookup n) \<Longrightarrow> keys m = keys n"
  using keys_sorted [of m] keys_sorted [of n] keys_dom [of m] keys_dom [of n]
  by (metis sorted_distinct_set_unique)

lemma keys_insert_fresh:
  "inv m \<Longrightarrow> lookup m k = None \<Longrightarrow> length (keys (insert k v m)) = Suc (length (keys m))"
proof -
  assume i: "inv m" and n: "lookup m k = None"
  have "card (set (keys (insert k v m))) = Suc (card (set (keys m)))"
    using n by (simp add: keys_dom lookup_insert) (metis List.finite_set card_insert_disjoint domIff keys_dom)
  then show ?thesis
    using i inv_insert keys_sorted by (metis distinct_card)
qed

lemma insert_keeps_others: "k' \<noteq> k \<Longrightarrow> lookup (insert k v m) k' = lookup m k'"
  by (simp add: lookup_insert)

end

text \<open>\<open>BTreeMap\<close> as a list of pairs in key order; \<open>BTreeSet\<close> is the map to unit or a set.\<close>

type_synonym ('k, 'v) btree = "('k \<times> 'v) list"

definition bt_get :: "('k, 'v) btree \<Rightarrow> 'k \<Rightarrow> 'v option" where
  "bt_get m = map_of m"

fun bt_insert :: "'k::linorder \<Rightarrow> 'v \<Rightarrow> ('k, 'v) btree \<Rightarrow> ('k, 'v) btree" where
  "bt_insert k v [] = [(k, v)]"
| "bt_insert k v ((j, w) # m) =
     (if k = j then (k, v) # m else if k < j then (k, v) # (j, w) # m else (j, w) # bt_insert k v m)"

definition bt_remove :: "'k \<Rightarrow> ('k, 'v) btree \<Rightarrow> ('k, 'v) btree" where
  "bt_remove k m = filter (\<lambda>e. fst e \<noteq> k) m"

definition bt_keys :: "('k, 'v) btree \<Rightarrow> 'k list" where
  "bt_keys m = map fst m"

definition bt_inv :: "('k::linorder, 'v) btree \<Rightarrow> bool" where
  "bt_inv m \<longleftrightarrow> sorted_wrt (<) (map fst m)"

lemma bt_get_empty [simp]: "bt_get [] k = None"
  by (simp add: bt_get_def)

lemma dom_bt_get: "dom (bt_get m) = fst ` set m"
  by (simp add: bt_get_def dom_map_of_conv_image_fst)

lemma bt_get_insert [store_simps]: "bt_get (bt_insert k v m) = (bt_get m)(k \<mapsto> v)"
  unfolding bt_get_def by (induction m) (auto simp: fun_eq_iff)

lemma bt_get_remove [store_simps]: "bt_get (bt_remove k m) = (bt_get m)(k := None)"
  unfolding bt_get_def bt_remove_def by (induction m) (auto simp: fun_eq_iff)

lemma keys_bt_insert: "fst ` set (bt_insert k v m) = insert k (fst ` set m)"
  by (induction k v m rule: bt_insert.induct) (simp_all add: insert_commute)

lemma mem_bt_insert: "e \<in> set (bt_insert k v m) \<Longrightarrow> e = (k, v) \<or> e \<in> set m"
  by (induction k v m rule: bt_insert.induct) (auto split: if_splits)

lemma bt_inv_insert: "bt_inv m \<Longrightarrow> bt_inv (bt_insert k v m)"
  unfolding bt_inv_def
  by (induction k v m rule: bt_insert.induct) (force dest: mem_bt_insert)+

lemma bt_inv_remove: "bt_inv m \<Longrightarrow> bt_inv (bt_remove k m)"
  by (induction m) (auto simp: bt_inv_def bt_remove_def)

lemma bt_inv_empty [simp]: "bt_inv []"
  by (simp add: bt_inv_def)

interpretation bt: ordered_map bt_get bt_insert bt_remove bt_keys bt_inv
proof unfold_locales
  show "bt_inv m \<Longrightarrow> sorted (bt_keys m) \<and> distinct (bt_keys m)" for m :: "('a, 'b) btree"
    by (simp add: bt_inv_def bt_keys_def strict_sorted_iff)
qed (simp_all add: bt_get_insert bt_get_remove bt_inv_insert bt_inv_remove bt_keys_def dom_bt_get)

lemma bt_get_mem: "bt_get m k = Some v \<Longrightarrow> (k, v) \<in> set m"
  by (simp add: bt_get_def map_of_SomeD)

lemma bt_mem_get: "bt_inv m \<Longrightarrow> (k, v) \<in> set m \<Longrightarrow> bt_get m k = Some v"
  by (simp add: bt_get_def bt_inv_def strict_sorted_iff)

section \<open>Contracts of stateful components\<close>

text \<open>
  A component is a state and a total step function over its operations. An invariant kept
  by every step holds after every run; a mark that no step erases (a tombstone, a
  revocation, a consumed grant) stays.
\<close>

locale stepper =
  fixes step :: "'s \<Rightarrow> 'op \<Rightarrow> 's"
    and inv :: "'s \<Rightarrow> bool"
  assumes step_inv: "inv s \<Longrightarrow> inv (step s x)"
begin

lemma run_inv: "inv s \<Longrightarrow> inv (foldl step s xs)"
  by (induction xs arbitrary: s) (auto intro: step_inv)

lemma run_prefix_inv: "inv s \<Longrightarrow> inv (foldl step s (take n xs))"
  by (rule run_inv)

end

locale permanent_marks =
  fixes step :: "'s \<Rightarrow> 'op \<Rightarrow> 's"
    and marked :: "'s \<Rightarrow> 'k \<Rightarrow> bool"
  assumes mark_stays: "marked s k \<Longrightarrow> marked (step s x) k"
begin

lemma run_mark_stays: "marked s k \<Longrightarrow> marked (foldl step s xs) k"
  by (induction xs arbitrary: s) (auto intro: mark_stays)

lemma mark_after_prefix: "marked (foldl step s xs) k \<Longrightarrow> marked (foldl step s (xs @ ys)) k"
  by (simp add: run_mark_stays)

end

end
