(* ===== verification/PolicyVocabulary.thy ===== *)
theory PolicyVocabulary
  imports Prelude
begin

text \<open>
  The closed capability vocabulary and the resource grammar
  (\<open>crates/policy/src/vocabulary.rs\<close>), with the policy errors of \<open>crates/policy/src/lib.rs\<close>:
  the actions and their descriptors, canonical resources, exact and segment-bounded
  selectors, and what it means for a selector to cover a resource or another selector.
\<close>

unbundle bit_operations_syntax

section \<open>Errors and actions\<close>

datatype policy_error =
    UnknownAction
  | InvalidResource
  | ResourceSchemeMismatch
  | InvalidRequest
  | InvalidPolicy
  | Serialization
  | InvalidApproval
  | ApprovalScopeTooBroad
  | VagueApproval
  | ApprovalExpired
  | ApprovalRevoked
  | ApprovalReplayed
  | ApprovalBindingMismatch

datatype action =
    FsRead | FsWrite | FsDelete
  | ProcessSpawn | ProcessSignal
  | NetworkHttp | NetworkRaw | NetworkListen
  | SecretUse | BrowserControl
  | GitCommit | GitPush | GitForce
  | CloudDeploy
  | ExternalRead | ExternalWrite
  | PluginInstall | CapabilityPublish | SelfProposeChange

definition ALL_ACTIONS :: "action list" where
  "ALL_ACTIONS =
    [FsRead, FsWrite, FsDelete, ProcessSpawn, ProcessSignal, NetworkHttp, NetworkRaw, NetworkListen,
     SecretUse, BrowserControl, GitCommit, GitPush, GitForce, CloudDeploy, ExternalRead, ExternalWrite,
     PluginInstall, CapabilityPublish, SelfProposeChange]"

fun action_as_str :: "action \<Rightarrow> string" where
  "action_as_str FsRead = ''fs.read''"
| "action_as_str FsWrite = ''fs.write''"
| "action_as_str FsDelete = ''fs.delete''"
| "action_as_str ProcessSpawn = ''process.spawn''"
| "action_as_str ProcessSignal = ''process.signal''"
| "action_as_str NetworkHttp = ''network.http''"
| "action_as_str NetworkRaw = ''network.raw''"
| "action_as_str NetworkListen = ''network.listen''"
| "action_as_str SecretUse = ''secret.use''"
| "action_as_str BrowserControl = ''browser.control''"
| "action_as_str GitCommit = ''git.commit''"
| "action_as_str GitPush = ''git.push''"
| "action_as_str GitForce = ''git.force''"
| "action_as_str CloudDeploy = ''cloud.deploy''"
| "action_as_str ExternalRead = ''external.read''"
| "action_as_str ExternalWrite = ''external.write''"
| "action_as_str PluginInstall = ''plugin.install''"
| "action_as_str CapabilityPublish = ''capability.publish''"
| "action_as_str SelfProposeChange = ''self.propose-change''"

definition action_from_str :: "string \<Rightarrow> policy_error + action" where
  "action_from_str v =
     (case find (\<lambda>a. action_as_str a = v) ALL_ACTIONS of None \<Rightarrow> Err UnknownAction | Some a \<Rightarrow> Ok a)"

text \<open>The discriminant \<open>self as usize\<close>: the position in the enum declaration.\<close>

fun action_discriminant :: "action \<Rightarrow> nat" where
  "action_discriminant FsRead = 0"
| "action_discriminant FsWrite = 1"
| "action_discriminant FsDelete = 2"
| "action_discriminant ProcessSpawn = 3"
| "action_discriminant ProcessSignal = 4"
| "action_discriminant NetworkHttp = 5"
| "action_discriminant NetworkRaw = 6"
| "action_discriminant NetworkListen = 7"
| "action_discriminant SecretUse = 8"
| "action_discriminant BrowserControl = 9"
| "action_discriminant GitCommit = 10"
| "action_discriminant GitPush = 11"
| "action_discriminant GitForce = 12"
| "action_discriminant CloudDeploy = 13"
| "action_discriminant ExternalRead = 14"
| "action_discriminant ExternalWrite = 15"
| "action_discriminant PluginInstall = 16"
| "action_discriminant CapabilityPublish = 17"
| "action_discriminant SelfProposeChange = 18"

section \<open>Descriptors\<close>

datatype risk_class = LowRisk | ModerateRisk | HighRisk | CriticalRisk

fun risk_as_str :: "risk_class \<Rightarrow> string" where
  "risk_as_str LowRisk = ''low''"
| "risk_as_str ModerateRisk = ''moderate''"
| "risk_as_str HighRisk = ''high''"
| "risk_as_str CriticalRisk = ''critical''"

datatype approval_mode = Never | RiskBased | Always

fun approval_mode_as_str :: "approval_mode \<Rightarrow> string" where
  "approval_mode_as_str Never = ''never''"
| "approval_mode_as_str RiskBased = ''risk_based''"
| "approval_mode_as_str Always = ''always''"

datatype persistence = Allowed | Forbidden

text \<open>\<open>ExecutionRequirements\<close>: a closed flag set in one byte.\<close>

type_synonym execution_requirements = u8

definition SANDBOX :: execution_requirements where "SANDBOX = 1"
definition NETWORK :: execution_requirements where "NETWORK = 2"
definition SECRET :: execution_requirements where "SECRET = 4"
definition SANDBOX_NETWORK :: execution_requirements where "SANDBOX_NETWORK = SANDBOX OR NETWORK"
definition SANDBOX_SECRET :: execution_requirements where "SANDBOX_SECRET = SANDBOX OR SECRET"
definition SANDBOX_SECRET_NETWORK :: execution_requirements where
  "SANDBOX_SECRET_NETWORK = SANDBOX OR SECRET OR NETWORK"

definition requirements_contain :: "execution_requirements \<Rightarrow> execution_requirements \<Rightarrow> bool" where
  "requirements_contain self req \<longleftrightarrow> self AND req = req"

lemmas requirement_flags = SANDBOX_def NETWORK_def SECRET_def SANDBOX_NETWORK_def SANDBOX_SECRET_def
  SANDBOX_SECRET_NETWORK_def requirements_contain_def

record action_descriptor =
  ad_resource_scheme :: string
  ad_risk :: risk_class
  ad_persistence :: persistence
  ad_requirements :: execution_requirements
  ad_approval :: approval_mode

definition descriptor_new ::
  "string \<Rightarrow> risk_class \<Rightarrow> persistence \<Rightarrow> execution_requirements \<Rightarrow> approval_mode \<Rightarrow> action_descriptor" where
  "descriptor_new sch r p req a =
     \<lparr>ad_resource_scheme = sch, ad_risk = r, ad_persistence = p, ad_requirements = req, ad_approval = a\<rparr>"

definition persistable :: "action_descriptor \<Rightarrow> bool" where
  "persistable d = (case ad_persistence d of Allowed \<Rightarrow> True | Forbidden \<Rightarrow> False)"

definition requires_sandbox :: "action_descriptor \<Rightarrow> bool" where
  "requires_sandbox d = requirements_contain (ad_requirements d) SANDBOX"

definition requires_secret :: "action_descriptor \<Rightarrow> bool" where
  "requires_secret d = requirements_contain (ad_requirements d) SECRET"

definition requires_network :: "action_descriptor \<Rightarrow> bool" where
  "requires_network d = requirements_contain (ad_requirements d) NETWORK"

definition ACTION_DESCRIPTORS :: "action_descriptor list" where
  "ACTION_DESCRIPTORS =
    [descriptor_new ''workspace'' LowRisk Allowed SANDBOX RiskBased,
     descriptor_new ''workspace'' ModerateRisk Allowed SANDBOX RiskBased,
     descriptor_new ''workspace'' HighRisk Forbidden SANDBOX Always,
     descriptor_new ''process'' HighRisk Forbidden SANDBOX Always,
     descriptor_new ''process'' HighRisk Forbidden SANDBOX Always,
     descriptor_new ''network'' HighRisk Forbidden SANDBOX_NETWORK Always,
     descriptor_new ''network'' CriticalRisk Forbidden SANDBOX_NETWORK Always,
     descriptor_new ''network'' CriticalRisk Forbidden SANDBOX_NETWORK Always,
     descriptor_new ''secret'' CriticalRisk Forbidden SANDBOX_SECRET Always,
     descriptor_new ''browser'' HighRisk Forbidden SANDBOX_NETWORK Always,
     descriptor_new ''git'' ModerateRisk Allowed SANDBOX RiskBased,
     descriptor_new ''git'' HighRisk Forbidden SANDBOX_SECRET_NETWORK Always,
     descriptor_new ''git'' CriticalRisk Forbidden SANDBOX_SECRET_NETWORK Always,
     descriptor_new ''cloud'' CriticalRisk Forbidden SANDBOX_SECRET_NETWORK Always,
     descriptor_new ''external'' ModerateRisk Allowed NETWORK RiskBased,
     descriptor_new ''external'' HighRisk Forbidden NETWORK Always,
     descriptor_new ''plugin'' CriticalRisk Forbidden SANDBOX_NETWORK Always,
     descriptor_new ''capability'' CriticalRisk Forbidden SANDBOX Always,
     descriptor_new ''self'' CriticalRisk Forbidden SANDBOX Always]"

definition descriptor :: "action \<Rightarrow> action_descriptor" where
  "descriptor a = ACTION_DESCRIPTORS ! action_discriminant a"

lemma length_ACTION_DESCRIPTORS: "length ACTION_DESCRIPTORS = 19"
  by (simp add: ACTION_DESCRIPTORS_def)

lemma action_discriminant_bound: "action_discriminant a < 19"
  by (cases a) simp_all

lemma ALL_ACTIONS_discriminant: "ALL_ACTIONS ! action_discriminant a = a"
  by (cases a) (simp_all add: ALL_ACTIONS_def)

lemma all_actions_complete: "a \<in> set ALL_ACTIONS"
  by (cases a) (simp_all add: ALL_ACTIONS_def)

lemma action_as_str_inj: "action_as_str a = action_as_str b \<Longrightarrow> a = b"
  by (cases a; cases b; simp)

lemma action_from_str_as_str: "action_from_str (action_as_str a) = Ok a"
  by (cases a) (simp_all add: action_from_str_def ALL_ACTIONS_def)

lemma action_from_str_Ok: "action_from_str v = Ok a \<Longrightarrow> action_as_str a = v"
  by (auto simp: action_from_str_def find_Some_iff split: option.splits)

text \<open>The facts the frozen table guarantees, by evaluation over the nineteen actions.\<close>

lemma descriptor_cases:
  "requires_sandbox (descriptor a) \<longleftrightarrow> a \<notin> {ExternalRead, ExternalWrite}"
  "requires_secret (descriptor a) \<longleftrightarrow> a \<in> {SecretUse, GitPush, GitForce, CloudDeploy}"
  "persistable (descriptor a) \<longleftrightarrow> a \<in> {FsRead, FsWrite, GitCommit, ExternalRead}"
  "ad_approval (descriptor a) = Always \<longleftrightarrow> a \<notin> {FsRead, FsWrite, GitCommit, ExternalRead}"
  by (cases a; simp add: descriptor_def ACTION_DESCRIPTORS_def descriptor_new_def requires_sandbox_def
      requires_secret_def persistable_def requirement_flags)+

lemma descriptor_scheme:
  "ad_resource_scheme (descriptor a) =
     (case a of FsRead \<Rightarrow> ''workspace'' | FsWrite \<Rightarrow> ''workspace'' | FsDelete \<Rightarrow> ''workspace''
      | ProcessSpawn \<Rightarrow> ''process'' | ProcessSignal \<Rightarrow> ''process''
      | NetworkHttp \<Rightarrow> ''network'' | NetworkRaw \<Rightarrow> ''network'' | NetworkListen \<Rightarrow> ''network''
      | SecretUse \<Rightarrow> ''secret'' | BrowserControl \<Rightarrow> ''browser''
      | GitCommit \<Rightarrow> ''git'' | GitPush \<Rightarrow> ''git'' | GitForce \<Rightarrow> ''git''
      | CloudDeploy \<Rightarrow> ''cloud'' | ExternalRead \<Rightarrow> ''external'' | ExternalWrite \<Rightarrow> ''external''
      | PluginInstall \<Rightarrow> ''plugin'' | CapabilityPublish \<Rightarrow> ''capability'' | SelfProposeChange \<Rightarrow> ''self'')"
  by (cases a) (simp_all add: descriptor_def ACTION_DESCRIPTORS_def descriptor_new_def)

lemma scheme_no_slash: "CHR ''/'' \<notin> set (ad_resource_scheme (descriptor a))"
  by (cases a) (simp_all add: descriptor_scheme)


section \<open>Resources\<close>

text \<open>
  \<open>Resource\<close> is a newtype over its canonical text. The checks run in the source's order, so
  the error names the first one that fails.
\<close>

type_synonym resource = string

definition bad_segment :: "string \<Rightarrow> bool" where
  "bad_segment part \<longleftrightarrow> part = [] \<or> part = ''.'' \<or> part = ''..''"

definition validate_resource :: "action \<Rightarrow> string \<Rightarrow> policy_error + unit" where
  "validate_resource a v =
     (if length v > 2048
         \<or> list_ex is_control (utf8_chars v)
         \<or> list_ex is_whitespace (utf8_chars v)
         \<or> list_ex (\<lambda>c. c \<in> set [CHR ''?'', CHR ''#'', CHR 0x5C]) v
      then Err InvalidResource
      else (case Option.bind (strip_prefix v (ad_resource_scheme (descriptor a)))
                   (\<lambda>r. strip_prefix r ''://'') of
              None \<Rightarrow> Err ResourceSchemeMismatch
            | Some remainder \<Rightarrow>
                if remainder = []
                   \<or> starts_with remainder ''/''
                   \<or> list_ex bad_segment (split_on (CHR ''/'') remainder)
                   \<or> str_contains (ascii_lower remainder) ''%2e''
                then Err InvalidResource
                else Ok ()))"

definition resource_new :: "action \<Rightarrow> string \<Rightarrow> policy_error + resource" where
  "resource_new a v = (case validate_resource a v of Err e \<Rightarrow> Err e | Ok _ \<Rightarrow> Ok v)"

abbreviation valid_resource :: "action \<Rightarrow> resource \<Rightarrow> bool" where
  "valid_resource a v \<equiv> validate_resource a v = Ok ()"

text \<open>What acceptance means: scheme, separator, and a path with no empty or dot segment.\<close>

lemma valid_resource_shape:
  "valid_resource a v \<Longrightarrow>
     \<exists>path. v = ad_resource_scheme (descriptor a) @ ''://'' @ path \<and> path \<noteq> []
       \<and> (\<forall>seg \<in> set (split_on (CHR ''/'') path). seg \<notin> {[], ''.'', ''..''})
       \<and> \<not> str_contains (ascii_lower path) ''%2e''"
  by (auto simp: validate_resource_def bad_segment_def list_ex_iff strip_prefix_Some bind_eq_Some_conv
      split: if_splits option.splits)

lemma last_split_on: "s \<noteq> [] \<Longrightarrow> last s = c \<Longrightarrow> last (split_on c s) = []"
  using split_on_append [of c "butlast s" "[]"] by (cases s rule: rev_cases) auto

lemma valid_resource_last: "valid_resource a v \<Longrightarrow> v \<noteq> [] \<and> last v \<noteq> CHR ''/''"
proof -
  assume "valid_resource a v"
  then obtain path where v: "v = ad_resource_scheme (descriptor a) @ ''://'' @ path" "path \<noteq> []"
    and seg: "\<forall>seg \<in> set (split_on (CHR ''/'') path). seg \<notin> {[], ''.'', ''..''}"
    using valid_resource_shape by blast
  from seg have "last (split_on (CHR ''/'') path) \<noteq> []"
    using last_in_set [OF split_on_nonempty] by blast
  with v show ?thesis using last_split_on [of path] by auto
qed

section \<open>Selectors\<close>

datatype resource_pattern = Exact resource | Prefix resource

definition pattern_exact :: "action \<Rightarrow> string \<Rightarrow> policy_error + resource_pattern" where
  "pattern_exact a v = map_sum id Exact (resource_new a v)"

definition pattern_prefix :: "action \<Rightarrow> string \<Rightarrow> policy_error + resource_pattern" where
  "pattern_prefix a v = map_sum id Prefix (resource_new a v)"

definition trim_end_slashes :: "string \<Rightarrow> string" where
  "trim_end_slashes s = rev (dropWhile (\<lambda>c. c = CHR ''/'') (rev s))"

fun covers :: "resource_pattern \<Rightarrow> resource \<Rightarrow> bool" where
  "covers (Exact expected) r \<longleftrightarrow> expected = r"
| "covers (Prefix p) r \<longleftrightarrow>
     (let q = trim_end_slashes p
      in r = q \<or> (case strip_prefix r q of None \<Rightarrow> False | Some suf \<Rightarrow> starts_with suf ''/''))"

fun pattern_resource :: "resource_pattern \<Rightarrow> resource" where
  "pattern_resource (Exact r) = r"
| "pattern_resource (Prefix r) = r"

text \<open>\<open>pattern_covers_pattern\<close> of \<open>approval.rs\<close>: a selector no broader than another.\<close>

fun pattern_covers_pattern :: "resource_pattern \<Rightarrow> resource_pattern \<Rightarrow> bool" where
  "pattern_covers_pattern parent (Exact r) = covers parent r"
| "pattern_covers_pattern (Exact _) (Prefix r) = False"
| "pattern_covers_pattern (Prefix p) (Prefix r) = covers (Prefix p) r"

lemma trim_end_slashes_id: "s \<noteq> [] \<Longrightarrow> last s \<noteq> CHR ''/'' \<Longrightarrow> trim_end_slashes s = s"
  by (cases s rule: rev_cases) (auto simp: trim_end_slashes_def)

text \<open>
  Segments: a prefix selector covers a resource exactly when its \<open>/\<close>-separated segments
  begin the resource's. \<open>workspace://a/src\<close> does not cover \<open>workspace://a/src2\<close>.
\<close>

abbreviation segments :: "resource \<Rightarrow> string list" where
  "segments \<equiv> split_on (CHR ''/'')"

lemma covers_Prefix_iff:
  "covers (Prefix p) r \<longleftrightarrow> prefix (segments (trim_end_slashes p)) (segments r)"
  by (auto simp: Let_def prefix_split_on strip_prefix_Some strip_prefix_None starts_with_def
      split: option.splits) (auto simp: prefix_def strip_prefix_def split: if_splits)

lemma trim_end_slashes_append:
  "trim_end_slashes (a @ CHR ''/'' # u) =
     (if set u \<subseteq> {CHR ''/''} then trim_end_slashes a else a @ CHR ''/'' # trim_end_slashes u)"
  unfolding trim_end_slashes_def
  by (induction u rule: rev_induct) (auto simp: dropWhile_append)

lemma covers_trim: "covers (Prefix p) r \<Longrightarrow> covers (Prefix p) (trim_end_slashes r)"
proof -
  assume "covers (Prefix p) r"
  then consider "r = trim_end_slashes p" | u where "r = trim_end_slashes p @ CHR ''/'' # u"
    by (auto simp: covers_Prefix_iff prefix_split_on simp del: covers.simps)
  then show ?thesis
  proof cases
    case 1
    then show ?thesis
      by (auto simp: covers_Prefix_iff trim_end_slashes_def simp del: covers.simps)
  next
    case 2
    then show ?thesis
      by (auto simp: covers_Prefix_iff prefix_split_on trim_end_slashes_append simp del: covers.simps)
        (simp_all add: trim_end_slashes_def)
  qed
qed

lemma covers_trans: "covers (Prefix p) r \<Longrightarrow> covers (Prefix r) s \<Longrightarrow> covers (Prefix p) s"
  using covers_trim [of p r]
  by (auto simp: covers_Prefix_iff simp del: covers.simps intro: prefix_order.trans)

lemma pattern_covers_pattern_sound:
  "pattern_covers_pattern parent child \<Longrightarrow> covers child r \<Longrightarrow> covers parent r"
  by (cases "(parent, child)" rule: pattern_covers_pattern.cases)
    (auto simp del: covers.simps(2) intro: covers_trans)


section \<open>Properties\<close>

text \<open>
  C11: Segment-bounded selectors: for a validated hierarchy root, a prefix selector covers a resource
  exactly when the root's \<open>/\<close>-separated segments begin the resource's, and a selector that
  passes the no-broader test never covers a resource its parent does not.\<close>

theorem prefix_selector_by_segments:
  assumes "valid_resource a root"
  shows "(covers (Prefix root) r \<longleftrightarrow> prefix (segments root) (segments r))
     \<and> (pattern_covers_pattern (Prefix root) child \<longrightarrow> covers child r \<longrightarrow> prefix (segments root) (segments r))"
  using valid_resource_last [OF assms] covers_Prefix_iff [of root r]
    pattern_covers_pattern_sound [of "Prefix root" child r]
  by (simp add: trim_end_slashes_id)

theorem prefix_selector_by_segments_witness:
  "covers (Prefix ''workspace://a/src'') ''workspace://a/src/x'' \<and> \<not> covers (Prefix ''workspace://a/src'') ''workspace://a/src2''"
proof -
  have v: "valid_resource FsRead ''workspace://a/src''" by code_simp
  show ?thesis
    using prefix_selector_by_segments [OF v, of "''workspace://a/src/x''"]
      prefix_selector_by_segments [OF v, of "''workspace://a/src2''"]
    by simp
qed

end
