(* ===== verification/PolicyEngine.thy ===== *)
theory PolicyEngine
  imports PolicyVocabulary
begin

text \<open>
  The policy decision point (\<open>crates/policy/src/lib.rs\<close>): exact capability requests and
  their digest, typed rules in tiered bundles, the validated engine snapshot, its
  rollback-proof update, and \<open>decide\<close>. SHA-256 (\<open>H\<close>) and the JSON encoding of the
  bundles (\<open>enc\<close>) belong to the \<open>sha2\<close> and \<open>serde_json\<close> crates and are parameters.
\<close>

section \<open>Requests\<close>

datatype principal_kind =
    Human | Device | AgentRuntime | Subagent | PluginPrincipal | Workload | ServicePrincipal
  | OrganizationAdmin | SecurityOperator

fun principal_kind_as_str :: "principal_kind \<Rightarrow> string" where
  "principal_kind_as_str Human = ''human''"
| "principal_kind_as_str Device = ''device''"
| "principal_kind_as_str AgentRuntime = ''agent_runtime''"
| "principal_kind_as_str Subagent = ''subagent''"
| "principal_kind_as_str PluginPrincipal = ''plugin''"
| "principal_kind_as_str Workload = ''workload''"
| "principal_kind_as_str ServicePrincipal = ''service''"
| "principal_kind_as_str OrganizationAdmin = ''organization_admin''"
| "principal_kind_as_str SecurityOperator = ''security_operator''"

record principal =
  pr_id :: string
  pr_kind :: principal_kind
  pr_on_behalf_of :: "string option"

text \<open>The data classes, ordered as declared (\<open>derive(PartialOrd)\<close>).\<close>

datatype data_class = Public | Internal | Confidential | Restricted

fun data_class_rank :: "data_class \<Rightarrow> nat" where
  "data_class_rank Public = 0"
| "data_class_rank Internal = 1"
| "data_class_rank Confidential = 2"
| "data_class_rank Restricted = 3"

lemma data_class_rank_inj: "data_class_rank a = data_class_rank b \<Longrightarrow> a = b"
  by (cases a; cases b; simp)

instantiation data_class :: linorder
begin

definition less_eq_data_class :: "data_class \<Rightarrow> data_class \<Rightarrow> bool" where
  "less_eq_data_class a b \<longleftrightarrow> data_class_rank a \<le> data_class_rank b"

definition less_data_class :: "data_class \<Rightarrow> data_class \<Rightarrow> bool" where
  "less_data_class a b \<longleftrightarrow> data_class_rank a < data_class_rank b"

instance
  by standard (auto simp: less_eq_data_class_def less_data_class_def dest: data_class_rank_inj)

end

lemmas data_class_order = less_eq_data_class_def less_data_class_def

record capability_request =
  cr_request_id :: string
  cr_principal :: principal
  cr_workspace_id :: string
  cr_task_id :: string
  cr_action :: action
  cr_resource :: resource
  cr_operation_hash :: string
  cr_credential_ref :: "string option"
  cr_sandboxed :: bool
  cr_data_class :: data_class
  cr_occurred_at_ms :: u64

definition is_hash_byte :: "char \<Rightarrow> bool" where
  "is_hash_byte c \<longleftrightarrow> is_digit_byte c \<or> (97 \<le> byte c \<and> byte c \<le> 102)"

definition valid_hash :: "string \<Rightarrow> bool" where
  "valid_hash v \<longleftrightarrow> length v = 71 \<and> starts_with v ''sha256:'' \<and> list_all is_hash_byte (drop 7 v)"

definition valid_identifier :: "string \<Rightarrow> bool" where
  "valid_identifier v \<longleftrightarrow> v \<noteq> [] \<and> length v \<le> 128
     \<and> list_all (\<lambda>c. is_alnum_byte c \<or> c \<in> set ''_-.'') v"

text \<open>\<open>Option::as_deref().unwrap_or("")\<close>.\<close>

definition or_empty :: "string option \<Rightarrow> string" where
  "or_empty x = (case x of None \<Rightarrow> [] | Some s \<Rightarrow> s)"

definition request_fields :: "capability_request \<Rightarrow> string list" where
  "request_fields r =
     [cr_request_id r, pr_id (cr_principal r), principal_kind_as_str (pr_kind (cr_principal r)),
      or_empty (pr_on_behalf_of (cr_principal r)), cr_workspace_id r, cr_task_id r,
      action_as_str (cr_action r), cr_resource r, cr_operation_hash r, or_empty (cr_credential_ref r),
      [char_of (if cr_sandboxed r then 1 else 0 :: nat)], [char_of (data_class_rank (cr_data_class r))]]"

definition request_digest :: "(string \<Rightarrow> string) \<Rightarrow> capability_request \<Rightarrow> string" where
  "request_digest H r = sha256_label H (request_fields r)"

definition bad_credential_ref :: "string \<Rightarrow> bool" where
  "bad_credential_ref ref \<longleftrightarrow> \<not> starts_with ref ''credential://''
     \<or> length ref \<le> length ''credential://'' \<or> list_ex is_whitespace (utf8_chars ref)"

definition request_validate :: "capability_request \<Rightarrow> policy_error + unit" where
  "request_validate r =
     (if cr_request_id r = [] \<or> pr_id (cr_principal r) = [] \<or> cr_workspace_id r = [] \<or> cr_task_id r = []
         \<or> \<not> valid_identifier (cr_workspace_id r) \<or> \<not> valid_hash (cr_operation_hash r)
         \<or> (case cr_credential_ref r of None \<Rightarrow> False | Some ref \<Rightarrow> bad_credential_ref ref)
      then Err InvalidRequest
      else (case validate_resource (cr_action r) (cr_resource r) of
              Err e \<Rightarrow> Err e
            | Ok _ \<Rightarrow>
                let scheme = ad_resource_scheme (descriptor (cr_action r)) in
                if scheme = ''workspace'' \<or> scheme = ''git''
                then (if \<not> starts_with (cr_resource r) (scheme @ ''://'' @ cr_workspace_id r @ ''/'')
                      then Err InvalidRequest else Ok ())
                else Ok ()))"

definition request_new ::
  "string \<Rightarrow> principal \<Rightarrow> string \<Rightarrow> string \<Rightarrow> action \<Rightarrow> resource \<Rightarrow> string \<Rightarrow> string option \<Rightarrow> bool
   \<Rightarrow> data_class \<Rightarrow> u64 \<Rightarrow> policy_error + capability_request" where
  "request_new rid pr ws task a res oph cred sb dc t =
     (let r = \<lparr>cr_request_id = rid, cr_principal = pr, cr_workspace_id = ws, cr_task_id = task,
               cr_action = a, cr_resource = res, cr_operation_hash = oph, cr_credential_ref = cred,
               cr_sandboxed = sb, cr_data_class = dc, cr_occurred_at_ms = t\<rparr>
      in case request_validate r of Err e \<Rightarrow> Err e | Ok _ \<Rightarrow> Ok r)"

section \<open>Rules and bundles\<close>

datatype policy_tier = PlatformHard | Regulatory | Organization | Workspace | User | TaskGrant

fun policy_tier_rank :: "policy_tier \<Rightarrow> nat" where
  "policy_tier_rank PlatformHard = 0"
| "policy_tier_rank Regulatory = 1"
| "policy_tier_rank Organization = 2"
| "policy_tier_rank Workspace = 3"
| "policy_tier_rank User = 4"
| "policy_tier_rank TaskGrant = 5"

lemma policy_tier_rank_inj: "policy_tier_rank a = policy_tier_rank b \<Longrightarrow> a = b"
  by (cases a; cases b; simp)

instantiation policy_tier :: linorder
begin

definition less_eq_policy_tier :: "policy_tier \<Rightarrow> policy_tier \<Rightarrow> bool" where
  "less_eq_policy_tier a b \<longleftrightarrow> policy_tier_rank a \<le> policy_tier_rank b"

definition less_policy_tier :: "policy_tier \<Rightarrow> policy_tier \<Rightarrow> bool" where
  "less_policy_tier a b \<longleftrightarrow> policy_tier_rank a < policy_tier_rank b"

instance
  by standard (auto simp: less_eq_policy_tier_def less_policy_tier_def dest: policy_tier_rank_inj)

end

datatype rule_effect = Permit | Deny

record policy_condition =
  pc_principal_kinds :: "principal_kind set"
  pc_require_sandbox :: bool
  pc_maximum_data_class :: "data_class option"
  pc_task_id :: "string option"

definition condition_matches :: "policy_condition \<Rightarrow> capability_request \<Rightarrow> bool" where
  "condition_matches c r \<longleftrightarrow>
     (pc_principal_kinds c = {} \<or> pr_kind (cr_principal r) \<in> pc_principal_kinds c)
     \<and> (\<not> pc_require_sandbox c \<or> cr_sandboxed r)
     \<and> (case pc_maximum_data_class c of None \<Rightarrow> True | Some mx \<Rightarrow> cr_data_class r \<le> mx)
     \<and> (case pc_task_id c of None \<Rightarrow> True | Some task \<Rightarrow> cr_task_id r = task)"

record policy_rule =
  ru_rule_id :: string
  ru_effect :: rule_effect
  ru_action :: action
  ru_resource :: resource_pattern
  ru_condition :: policy_condition
  ru_requires_approval :: bool

record policy_bundle =
  pb_tier :: policy_tier
  pb_version :: string
  pb_sequence :: u64
  pb_rules :: "policy_rule list"

definition pattern_matches_action :: "action \<Rightarrow> resource_pattern \<Rightarrow> bool" where
  "pattern_matches_action a pat = (case validate_resource a (pattern_resource pat) of Err _ \<Rightarrow> False | Ok _ \<Rightarrow> True)"

text \<open>The \<open>any\<close> loop of \<open>PolicyBundle::new\<close>, with the identifiers it has inserted so far.\<close>

fun bundle_rules_bad :: "string set \<Rightarrow> policy_rule list \<Rightarrow> bool" where
  "bundle_rules_bad ids [] = False"
| "bundle_rules_bad ids (r # rs) =
     (\<not> valid_identifier (ru_rule_id r) \<or> ru_rule_id r \<in> ids
      \<or> \<not> pattern_matches_action (ru_action r) (ru_resource r)
      \<or> bundle_rules_bad (insert (ru_rule_id r) ids) rs)"

definition bundle_new ::
  "policy_tier \<Rightarrow> string \<Rightarrow> u64 \<Rightarrow> policy_rule list \<Rightarrow> policy_error + policy_bundle" where
  "bundle_new tier version seq rules =
     (if version = [] \<or> seq = 0 \<or> bundle_rules_bad {} rules then Err InvalidPolicy
      else Ok \<lparr>pb_tier = tier, pb_version = version, pb_sequence = seq, pb_rules = rules\<rparr>)"

lemma bundle_rules_good:
  "\<not> bundle_rules_bad ids rs \<Longrightarrow>
     distinct (map ru_rule_id rs) \<and> ids \<inter> ru_rule_id ` set rs = {}
     \<and> (\<forall>r \<in> set rs. valid_resource (ru_action r) (pattern_resource (ru_resource r)))"
proof (induction rs arbitrary: ids)
  case Nil
  then show ?case by simp
next
  case (Cons r rs)
  then show ?case
    by (fastforce simp: pattern_matches_action_def split: sum.splits)
qed

section \<open>Decisions\<close>

datatype decision_outcome = OutcomeAllow | OutcomeDeny | OutcomeRequireApproval

fun outcome_as_str :: "decision_outcome \<Rightarrow> string" where
  "outcome_as_str OutcomeAllow = ''allow''"
| "outcome_as_str OutcomeDeny = ''deny''"
| "outcome_as_str OutcomeRequireApproval = ''require_approval''"

fun outcome_byte :: "decision_outcome \<Rightarrow> nat" where
  "outcome_byte OutcomeAllow = 0"
| "outcome_byte OutcomeDeny = 1"
| "outcome_byte OutcomeRequireApproval = 2"

datatype decision_reason =
    ExplicitDeny | ExplicitPermit | DefaultDeny | ReasonInvalidRequest | PolicyUnavailable
  | SandboxRequired | CredentialReferenceRequired | ApprovalRequired | ApprovalInvalid

fun reason_as_str :: "decision_reason \<Rightarrow> string" where
  "reason_as_str ExplicitDeny = ''explicit_deny''"
| "reason_as_str ExplicitPermit = ''explicit_permit''"
| "reason_as_str DefaultDeny = ''default_deny''"
| "reason_as_str ReasonInvalidRequest = ''invalid_request''"
| "reason_as_str PolicyUnavailable = ''policy_unavailable''"
| "reason_as_str SandboxRequired = ''sandbox_required''"
| "reason_as_str CredentialReferenceRequired = ''credential_reference_required''"
| "reason_as_str ApprovalRequired = ''approval_required''"
| "reason_as_str ApprovalInvalid = ''approval_invalid''"

fun reason_byte :: "decision_reason \<Rightarrow> nat" where
  "reason_byte ExplicitDeny = 0"
| "reason_byte ExplicitPermit = 1"
| "reason_byte DefaultDeny = 2"
| "reason_byte ReasonInvalidRequest = 3"
| "reason_byte PolicyUnavailable = 4"
| "reason_byte SandboxRequired = 5"
| "reason_byte CredentialReferenceRequired = 6"
| "reason_byte ApprovalRequired = 7"
| "reason_byte ApprovalInvalid = 8"

record policy_decision =
  pd_decision_id :: string
  pd_request_digest :: string
  pd_policy_snapshot_id :: string
  pd_outcome :: decision_outcome
  pd_reason :: decision_reason
  pd_matched_rule_ids :: "string list"

record policy_engine =
  pe_bundles :: "policy_bundle list option"
  pe_snapshot_id :: string

text \<open>The nested duplicate checks of \<open>PolicyEngine::new\<close>: \<open>None\<close> on a repeated rule id.\<close>

fun insert_rule_ids :: "string set \<Rightarrow> policy_rule list \<Rightarrow> string set option" where
  "insert_rule_ids ids [] = Some ids"
| "insert_rule_ids ids (r # rs) =
     (if ru_rule_id r \<in> ids then None else insert_rule_ids (insert (ru_rule_id r) ids) rs)"

fun engine_bundles_bad :: "policy_tier set \<Rightarrow> string set \<Rightarrow> policy_bundle list \<Rightarrow> bool" where
  "engine_bundles_bad tiers ids [] = False"
| "engine_bundles_bad tiers ids (b # bs) =
     (pb_tier b \<in> tiers
      \<or> (case insert_rule_ids ids (pb_rules b) of
           None \<Rightarrow> True
         | Some ids' \<Rightarrow> engine_bundles_bad (insert (pb_tier b) tiers) ids' bs))"

definition engine_new ::
  "(string \<Rightarrow> string) \<Rightarrow> (policy_bundle list \<Rightarrow> string option) \<Rightarrow> policy_bundle list \<Rightarrow> policy_error + policy_engine" where
  "engine_new H enc bundles =
     (let bs = sort_key pb_tier bundles in
      if bs = [] \<or> map_option pb_tier (case bs of [] \<Rightarrow> None | b # _ \<Rightarrow> Some b) \<noteq> Some PlatformHard
         \<or> engine_bundles_bad {} {} bs
      then Err InvalidPolicy
      else (case enc bs of
              None \<Rightarrow> Err Serialization
            | Some encoded \<Rightarrow> Ok \<lparr>pe_bundles = Some bs, pe_snapshot_id = sha256_label H [encoded]\<rparr>))"

definition engine_unavailable :: policy_engine where
  "engine_unavailable = \<lparr>pe_bundles = None, pe_snapshot_id = ''unavailable''\<rparr>"

definition update_blocks :: "policy_bundle list \<Rightarrow> policy_bundle \<Rightarrow> bool" where
  "update_blocks next current =
     (case find (\<lambda>b. pb_tier b = pb_tier current) next of
        None \<Rightarrow> True
      | Some candidate \<Rightarrow> pb_sequence candidate < pb_sequence current
          \<or> (pb_sequence candidate = pb_sequence current \<and> candidate \<noteq> current))"

definition engine_update ::
  "(string \<Rightarrow> string) \<Rightarrow> (policy_bundle list \<Rightarrow> string option) \<Rightarrow> policy_engine \<Rightarrow> policy_bundle list
   \<Rightarrow> policy_engine \<times> (policy_error + unit)" where
  "engine_update H enc self bundles =
     (case engine_new H enc bundles of
        Err e \<Rightarrow> (self, Err e)
      | Ok nxt \<Rightarrow>
          (case (pe_bundles self, pe_bundles nxt) of
             (Some current, Some new) \<Rightarrow>
               if list_ex (update_blocks new) current then (self, Err InvalidPolicy) else (nxt, Ok ())
           | _ \<Rightarrow> (self, Err InvalidPolicy)))"

definition make_decision ::
  "(string \<Rightarrow> string) \<Rightarrow> policy_engine \<Rightarrow> capability_request \<Rightarrow> decision_outcome \<Rightarrow> decision_reason
   \<Rightarrow> string list \<Rightarrow> policy_decision" where
  "make_decision H self r outcome reason matched =
     (let digest = request_digest H r in
      \<lparr>pd_decision_id = sha256_label H
         [pe_snapshot_id self, digest, [char_of (outcome_byte outcome)], [char_of (reason_byte reason)],
          join_with [CHR 0x00] matched],
       pd_request_digest = digest,
       pd_policy_snapshot_id = pe_snapshot_id self,
       pd_outcome = outcome,
       pd_reason = reason,
       pd_matched_rule_ids = matched\<rparr>)"

definition rule_applies :: "capability_request \<Rightarrow> policy_rule \<Rightarrow> bool" where
  "rule_applies r ru \<longleftrightarrow> ru_action ru = cr_action r \<and> covers (ru_resource ru) (cr_resource r)
     \<and> condition_matches (ru_condition ru) r"

text \<open>The loop over the rules: denies, permits and the approval flag collected so far.\<close>

fun collect_rules ::
  "capability_request \<Rightarrow> policy_rule list \<Rightarrow> string list \<Rightarrow> string list \<Rightarrow> bool
   \<Rightarrow> string list \<times> string list \<times> bool" where
  "collect_rules r [] denies permits appr = (denies, permits, appr)"
| "collect_rules r (ru # rus) denies permits appr =
     (if rule_applies r ru
      then (case ru_effect ru of
              Deny \<Rightarrow> collect_rules r rus (denies @ [ru_rule_id ru]) permits appr
            | Permit \<Rightarrow> collect_rules r rus denies (permits @ [ru_rule_id ru])
                          (appr \<or> ru_requires_approval ru))
      else collect_rules r rus denies permits appr)"

definition all_rules :: "policy_bundle list \<Rightarrow> policy_rule list" where
  "all_rules bundles = concat (map pb_rules bundles)"

definition decide ::
  "(string \<Rightarrow> string) \<Rightarrow> policy_engine \<Rightarrow> capability_request \<Rightarrow> bool \<Rightarrow> policy_decision" where
  "decide H self r approval_valid =
     (case request_validate r of
        Err _ \<Rightarrow> make_decision H self r OutcomeDeny ReasonInvalidRequest []
      | Ok _ \<Rightarrow>
     (case pe_bundles self of
        None \<Rightarrow> make_decision H self r OutcomeDeny PolicyUnavailable []
      | Some bundles \<Rightarrow>
        if requires_sandbox (descriptor (cr_action r)) \<and> \<not> cr_sandboxed r
        then make_decision H self r OutcomeDeny SandboxRequired []
        else if requires_secret (descriptor (cr_action r)) \<and> cr_credential_ref r = None
        then make_decision H self r OutcomeDeny CredentialReferenceRequired []
        else
          (let (denies, permits, appr) =
                 collect_rules r (all_rules bundles) [] [] (ad_approval (descriptor (cr_action r)) = Always)
           in if denies \<noteq> [] then make_decision H self r OutcomeDeny ExplicitDeny denies
              else if permits = [] then make_decision H self r OutcomeDeny DefaultDeny []
              else if appr \<and> \<not> approval_valid
              then make_decision H self r OutcomeRequireApproval ApprovalRequired permits
              else make_decision H self r OutcomeAllow ExplicitPermit permits)))"

section \<open>What a decision means\<close>

lemma make_decision_simps [simp]:
  "pd_outcome (make_decision H e r oc rs ids) = oc"
  "pd_reason (make_decision H e r oc rs ids) = rs"
  "pd_matched_rule_ids (make_decision H e r oc rs ids) = ids"
  "pd_request_digest (make_decision H e r oc rs ids) = request_digest H r"
  "pd_policy_snapshot_id (make_decision H e r oc rs ids) = pe_snapshot_id e"
  by (simp_all add: make_decision_def Let_def)

text \<open>The rules that apply to a request, by effect: the loop computes exactly these.\<close>

definition applying :: "policy_bundle list \<Rightarrow> capability_request \<Rightarrow> rule_effect \<Rightarrow> policy_rule list" where
  "applying bundles r eff = filter (\<lambda>ru. rule_applies r ru \<and> ru_effect ru = eff) (all_rules bundles)"

definition needs_approval :: "policy_bundle list \<Rightarrow> capability_request \<Rightarrow> bool" where
  "needs_approval bundles r \<longleftrightarrow> ad_approval (descriptor (cr_action r)) = Always
     \<or> list_ex ru_requires_approval (applying bundles r Permit)"

definition boundaries_met :: "capability_request \<Rightarrow> bool" where
  "boundaries_met r \<longleftrightarrow> \<not> (requires_sandbox (descriptor (cr_action r)) \<and> \<not> cr_sandboxed r)
     \<and> \<not> (requires_secret (descriptor (cr_action r)) \<and> cr_credential_ref r = None)"

lemma collect_rules_eq:
  "collect_rules r rus ds ps a =
     (ds @ map ru_rule_id (filter (\<lambda>ru. rule_applies r ru \<and> ru_effect ru = Deny) rus),
      ps @ map ru_rule_id (filter (\<lambda>ru. rule_applies r ru \<and> ru_effect ru = Permit) rus),
      a \<or> list_ex ru_requires_approval (filter (\<lambda>ru. rule_applies r ru \<and> ru_effect ru = Permit) rus))"
  by (induction r rus ds ps a rule: collect_rules.induct) (auto split: rule_effect.splits)

lemma decide_unfold:
  "decide H e r av =
     (if request_validate r \<noteq> Ok () then make_decision H e r OutcomeDeny ReasonInvalidRequest []
      else case pe_bundles e of
        None \<Rightarrow> make_decision H e r OutcomeDeny PolicyUnavailable []
      | Some bs \<Rightarrow>
          if requires_sandbox (descriptor (cr_action r)) \<and> \<not> cr_sandboxed r
          then make_decision H e r OutcomeDeny SandboxRequired []
          else if requires_secret (descriptor (cr_action r)) \<and> cr_credential_ref r = None
          then make_decision H e r OutcomeDeny CredentialReferenceRequired []
          else if applying bs r Deny \<noteq> []
          then make_decision H e r OutcomeDeny ExplicitDeny (map ru_rule_id (applying bs r Deny))
          else if applying bs r Permit = [] then make_decision H e r OutcomeDeny DefaultDeny []
          else if needs_approval bs r \<and> \<not> av
          then make_decision H e r OutcomeRequireApproval ApprovalRequired (map ru_rule_id (applying bs r Permit))
          else make_decision H e r OutcomeAllow ExplicitPermit (map ru_rule_id (applying bs r Permit)))"
  by (cases "request_validate r"; cases "pe_bundles e")
    (simp_all add: decide_def collect_rules_eq applying_def needs_approval_def)

text \<open>
  The declarative reading of an authorisation: a valid request with its boundaries met, an
  available policy in which no deny applies and some permit does, and an approval where the
  vocabulary or a permit asks for one.
\<close>

definition authorised :: "policy_bundle list option \<Rightarrow> capability_request \<Rightarrow> bool \<Rightarrow> bool" where
  "authorised bundles r av \<longleftrightarrow> request_validate r = Ok () \<and> boundaries_met r
     \<and> (\<exists>bs. bundles = Some bs \<and> applying bs r Deny = [] \<and> applying bs r Permit \<noteq> []
           \<and> (av \<or> \<not> needs_approval bs r))"

lemma decide_outcome_Allow: "pd_outcome (decide H e r av) = OutcomeAllow \<longleftrightarrow> authorised (pe_bundles e) r av"
  by (auto simp: decide_unfold authorised_def boundaries_met_def split: option.splits)

lemma decide_outcome_RequireApproval:
  "pd_outcome (decide H e r av) = OutcomeRequireApproval \<longleftrightarrow> \<not> av \<and> authorised (pe_bundles e) r True
     \<and> \<not> authorised (pe_bundles e) r False"
  by (auto simp: decide_unfold authorised_def boundaries_met_def split: option.splits)

lemma authorised_mono: "authorised bs r False \<Longrightarrow> authorised bs r True"
  by (auto simp: authorised_def)

text \<open>Every denial names its cause; only an explicit deny or a permit names rules.\<close>

lemma decide_reason_outcome:
  "pd_outcome (decide H e r av) = OutcomeAllow \<longleftrightarrow> pd_reason (decide H e r av) = ExplicitPermit"
  "pd_outcome (decide H e r av) = OutcomeRequireApproval \<longleftrightarrow> pd_reason (decide H e r av) = ApprovalRequired"
  by (auto simp: decide_unfold split: option.splits)

section \<open>Validated snapshots and updates\<close>

lemma insert_rule_ids_Some:
  "insert_rule_ids ids rs = Some ids' \<longleftrightarrow>
     distinct (map ru_rule_id rs) \<and> ids \<inter> ru_rule_id ` set rs = {} \<and> ids' = ids \<union> ru_rule_id ` set rs"
  by (induction ids rs arbitrary: ids' rule: insert_rule_ids.induct) auto

lemma engine_bundles_good:
  "\<not> engine_bundles_bad ts ids bs \<Longrightarrow>
     distinct (map pb_tier bs) \<and> ts \<inter> pb_tier ` set bs = {}
     \<and> distinct (map ru_rule_id (all_rules bs)) \<and> ids \<inter> ru_rule_id ` set (all_rules bs) = {}"
proof (induction ts ids bs rule: engine_bundles_bad.induct)
  case (1 ts ids)
  then show ?case by (simp add: all_rules_def)
next
  case (2 ts ids b bs)
  from 2(2) obtain ids' where i: "insert_rule_ids ids (pb_rules b) = Some ids'"
    and nb: "\<not> engine_bundles_bad (insert (pb_tier b) ts) ids' bs" and nt: "pb_tier b \<notin> ts"
    by (auto split: option.splits)
  have IH: "distinct (map pb_tier bs)" "insert (pb_tier b) ts \<inter> pb_tier ` set bs = {}"
    "distinct (map ru_rule_id (all_rules bs))" "ids' \<inter> ru_rule_id ` set (all_rules bs) = {}"
    using 2(1) [OF i nb] by simp_all
  from i have f: "distinct (map ru_rule_id (pb_rules b))" "ids \<inter> ru_rule_id ` set (pb_rules b) = {}"
    "ids' = ids \<union> ru_rule_id ` set (pb_rules b)"
    by (simp_all add: insert_rule_ids_Some)
  have a: "all_rules (b # bs) = pb_rules b @ all_rules bs"
    by (simp add: all_rules_def)
  have "ru_rule_id ` set (pb_rules b) \<inter> ru_rule_id ` set (all_rules bs) = {}"
    "ids \<inter> ru_rule_id ` set (all_rules bs) = {}"
    using IH(4) f(3) by auto
  with IH f nt show ?case unfolding a by auto
qed

definition engine_wf :: "policy_engine \<Rightarrow> bool" where
  "engine_wf e \<longleftrightarrow> (case pe_bundles e of None \<Rightarrow> True | Some bs \<Rightarrow>
     bs \<noteq> [] \<and> pb_tier (hd bs) = PlatformHard \<and> sorted (map pb_tier bs) \<and> distinct (map pb_tier bs)
     \<and> distinct (map ru_rule_id (all_rules bs)))"

lemma engine_new_Ok:
  assumes "engine_new H enc bs = Ok e"
  shows "engine_wf e" "pe_bundles e = Some (sort_key pb_tier bs)"
proof -
  from assms show b: "pe_bundles e = Some (sort_key pb_tier bs)"
    by (auto simp: engine_new_def Let_def split: if_splits option.splits)
  from assms have "\<not> engine_bundles_bad {} {} (sort_key pb_tier bs)"
    and h: "sort_key pb_tier bs \<noteq> []" "pb_tier (hd (sort_key pb_tier bs)) = PlatformHard"
    by (auto simp: engine_new_def Let_def split: if_splits option.splits list.splits)
  with b engine_bundles_good show "engine_wf e"
    by (auto simp: engine_wf_def)
qed

lemma engine_update_Ok:
  assumes "engine_update H enc e bs = (e', Ok ())"
  shows "engine_wf e'"
    "\<exists>cur new. pe_bundles e = Some cur \<and> pe_bundles e' = Some new \<and> (\<forall>b \<in> set cur. \<not> update_blocks new b)"
  using assms
  by (auto simp: engine_update_def list_ex_iff dest: engine_new_Ok split: sum.splits option.splits if_splits)

lemma engine_update_Err: "engine_update H enc e bs = (e', Err x) \<Longrightarrow> e' = e"
  by (auto simp: engine_update_def split: sum.splits option.splits if_splits)

lemma not_update_blocks:
  "\<not> update_blocks new b \<Longrightarrow> \<exists>c \<in> set new. pb_tier c = pb_tier b \<and> pb_sequence b \<le> pb_sequence c
     \<and> (pb_sequence c = pb_sequence b \<longrightarrow> c = b)"
  by (auto simp: update_blocks_def find_Some_iff split: option.splits)

text \<open>Updates as the steps of a machine; a refused update leaves the engine as it was.\<close>

definition engine_step ::
  "(string \<Rightarrow> string) \<Rightarrow> (policy_bundle list \<Rightarrow> string option) \<Rightarrow> policy_engine \<Rightarrow> policy_bundle list \<Rightarrow> policy_engine" where
  "engine_step H enc e bs = fst (engine_update H enc e bs)"

text \<open>What an update must leave of a bundle: its tier, at no lower sequence, and unchanged at the same one.\<close>

definition tier_kept :: "policy_engine \<Rightarrow> policy_bundle \<Rightarrow> bool" where
  "tier_kept e b \<longleftrightarrow> (\<exists>bs c. pe_bundles e = Some bs \<and> c \<in> set bs \<and> pb_tier c = pb_tier b
     \<and> pb_sequence b \<le> pb_sequence c \<and> (pb_sequence c = pb_sequence b \<longrightarrow> c = b))"

lemma engine_step_cases:
  "engine_step H enc e bs = e \<or> engine_update H enc e bs = (engine_step H enc e bs, Ok ())"
  by (cases "engine_update H enc e bs"; cases "snd (engine_update H enc e bs)")
    (auto simp: engine_step_def dest: engine_update_Err)

lemma engine_step_tier_kept: "tier_kept e b \<Longrightarrow> tier_kept (engine_step H enc e bs) b"
proof -
  assume m: "tier_kept e b"
  show ?thesis
  proof (cases "engine_step H enc e bs = e")
    case True
    with m show ?thesis by simp
  next
    case False
    with engine_step_cases have u: "engine_update H enc e bs = (engine_step H enc e bs, Ok ())" by metis
    obtain cur new where cn: "pe_bundles e = Some cur" "pe_bundles (engine_step H enc e bs) = Some new"
      "\<forall>b \<in> set cur. \<not> update_blocks new b"
      using engine_update_Ok(2) [OF u] by blast
    from m cn(1) obtain c where c: "c \<in> set cur" "pb_tier c = pb_tier b" "pb_sequence b \<le> pb_sequence c"
      "pb_sequence c = pb_sequence b \<longrightarrow> c = b"
      by (auto simp: tier_kept_def)
    with cn(3) not_update_blocks [of new c] obtain d where
      "d \<in> set new" "pb_tier d = pb_tier c" "pb_sequence c \<le> pb_sequence d" "pb_sequence d = pb_sequence c \<longrightarrow> d = c"
      by blast
    with c cn(2) show ?thesis
      by (fastforce simp: tier_kept_def)
  qed
qed

interpretation engine: stepper "engine_step H enc" engine_wf
  by unfold_locales (metis engine_step_cases engine_update_Ok(1))

interpretation engine_tiers: permanent_marks "engine_step H enc" tier_kept
  by unfold_locales (rule engine_step_tier_kept)

section \<open>Sample values\<close>

definition sample_request :: "action \<Rightarrow> capability_request" where
  "sample_request a = \<lparr>cr_request_id = ''r1'',
     cr_principal = \<lparr>pr_id = ''alice'', pr_kind = Human, pr_on_behalf_of = None\<rparr>,
     cr_workspace_id = ''ws'', cr_task_id = ''t1'', cr_action = a, cr_resource = ''workspace://ws/src/a.rs'',
     cr_operation_hash = ''sha256:'' @ replicate 64 (CHR ''0''), cr_credential_ref = None, cr_sandboxed = True,
     cr_data_class = Internal, cr_occurred_at_ms = 1000\<rparr>"

definition sample_rule :: "string \<Rightarrow> rule_effect \<Rightarrow> action \<Rightarrow> policy_rule" where
  "sample_rule rid eff a = \<lparr>ru_rule_id = rid, ru_effect = eff, ru_action = a,
     ru_resource = Prefix ''workspace://ws/src'',
     ru_condition = \<lparr>pc_principal_kinds = {}, pc_require_sandbox = True,
                     pc_maximum_data_class = Some Confidential, pc_task_id = None\<rparr>,
     ru_requires_approval = False\<rparr>"

definition sample_bundle :: "u64 \<Rightarrow> policy_rule list \<Rightarrow> policy_bundle" where
  "sample_bundle n rules = \<lparr>pb_tier = PlatformHard, pb_version = ''v1'', pb_sequence = n, pb_rules = rules\<rparr>"

definition sample_engine :: "policy_rule list \<Rightarrow> policy_engine" where
  "sample_engine rules = \<lparr>pe_bundles = Some [sample_bundle 1 rules], pe_snapshot_id = ''s1''\<rparr>"

text \<open>The samples evaluated once, so that the witnesses below only rewrite.\<close>

lemma sample_request_valid: "a \<in> {FsRead, FsWrite, FsDelete} \<Longrightarrow> request_validate (sample_request a) = Ok ()"
proof -
  have v: "valid_resource FsRead ''workspace://ws/src/a.rs''" by code_simp
  have h: "valid_hash (''sha256:'' @ replicate 64 (CHR ''0''))" by code_simp
  have i: "valid_identifier ''ws''" by code_simp
  assume a: "a \<in> {FsRead, FsWrite, FsDelete}"
  then have s: "ad_resource_scheme (descriptor a) = ad_resource_scheme (descriptor FsRead)"
    by (auto simp: descriptor_scheme)
  then have "valid_resource a ''workspace://ws/src/a.rs''"
    using v by (simp add: validate_resource_def cong: if_cong)
  with h i a show ?thesis
    by (auto simp: request_validate_def sample_request_def starts_with_def descriptor_scheme Let_def)
qed

lemma sample_rule_applies [simp]: "rule_applies (sample_request a) (sample_rule i eff b) \<longleftrightarrow> a = b"
  by (auto simp: rule_applies_def sample_rule_def sample_request_def condition_matches_def
      data_class_order trim_end_slashes_def strip_prefix_def starts_with_def)

lemma sample_rule_simps [simp]:
  "ru_effect (sample_rule i eff a) = eff" "ru_rule_id (sample_rule i eff a) = i"
  "ru_requires_approval (sample_rule i eff a) = False"
  "cr_action (sample_request a) = a" "cr_sandboxed (sample_request a)"
  "pe_bundles (sample_engine rules) = Some [sample_bundle 1 rules]"
  "all_rules [sample_bundle n rules] = rules"
  by (simp_all add: sample_rule_def sample_request_def sample_engine_def sample_bundle_def all_rules_def)

lemma sample_boundaries [simp]: "a \<in> {FsRead, FsWrite, FsDelete} \<Longrightarrow> boundaries_met (sample_request a)"
  by (auto simp: boundaries_met_def descriptor_cases)

lemmas sample_authorised = authorised_def sample_request_valid applying_def needs_approval_def
  descriptor_cases decide_outcome_Allow decide_outcome_RequireApproval

section \<open>Properties\<close>

text \<open>
  C4: The decision point refines its declarative specification: a request is allowed exactly when
  it is valid, its isolation and credential boundaries are met, the policy is available, no
  deny rule of any tier applies, some permit does, and an approval is present where the
  vocabulary or an applying permit asks for one; approval is required exactly when only the
  approval is missing.\<close>

theorem decide_refines_authorised:
  "(pd_outcome (decide H e r av) = OutcomeAllow \<longleftrightarrow> authorised (pe_bundles e) r av)
   \<and> (pd_outcome (decide H e r av) = OutcomeRequireApproval \<longleftrightarrow>
        \<not> av \<and> authorised (pe_bundles e) r True \<and> \<not> authorised (pe_bundles e) r False)"
  by (simp add: decide_outcome_Allow decide_outcome_RequireApproval)

text \<open>
  Denies are monotone: a policy with the same permits and more denies, in any tiers and any
  order, allows no request the smaller policy did not allow.\<close>

theorem more_denies_allow_less:
  assumes "pe_bundles e = Some bs" and "pe_bundles e' = Some bs'"
    and "\<forall>ru. ru_effect ru = Permit \<longrightarrow> (ru \<in> set (all_rules bs') \<longleftrightarrow> ru \<in> set (all_rules bs))"
    and "\<forall>ru. ru_effect ru = Deny \<longrightarrow> ru \<in> set (all_rules bs) \<longrightarrow> ru \<in> set (all_rules bs')"
    and "pd_outcome (decide H' e' r av) = OutcomeAllow"
  shows "pd_outcome (decide H e r av) = OutcomeAllow"
proof -
  have "set (applying bs' r Permit) = set (applying bs r Permit)"
    using assms(3) by (auto simp: applying_def)
  moreover from this have "needs_approval bs' r = needs_approval bs r"
    by (simp add: needs_approval_def list_ex_iff)
  moreover have "set (applying bs r Deny) \<subseteq> set (applying bs' r Deny)"
    using assms(4) by (auto simp: applying_def)
  ultimately show ?thesis
    using assms(1,2,5) by (auto simp: decide_outcome_Allow authorised_def)
qed

theorem more_denies_allow_less_witness:
  "pd_outcome (decide id (sample_engine [sample_rule ''p'' Permit FsRead]) (sample_request FsRead) False) = OutcomeAllow
   \<and> pd_outcome (decide id (sample_engine [sample_rule ''d'' Deny FsRead, sample_rule ''p'' Permit FsRead])
        (sample_request FsRead) False) \<noteq> OutcomeAllow"
proof
  let ?p = "[sample_rule ''p'' Permit FsRead]"
  let ?dp = "[sample_rule ''d'' Deny FsWrite, sample_rule ''p'' Permit FsRead]"
  have a: "pd_outcome (decide id (sample_engine ?dp) (sample_request FsRead) False) = OutcomeAllow"
    by (simp add: sample_authorised)
  have p: "\<forall>ru. ru_effect ru = Permit \<longrightarrow> (ru \<in> set (all_rules [sample_bundle 1 ?dp]) \<longleftrightarrow> ru \<in> set (all_rules [sample_bundle 1 ?p]))"
    by auto
  have d: "\<forall>ru. ru_effect ru = Deny \<longrightarrow> ru \<in> set (all_rules [sample_bundle 1 ?p]) \<longrightarrow> ru \<in> set (all_rules [sample_bundle 1 ?dp])"
    by auto
  show "pd_outcome (decide id (sample_engine ?p) (sample_request FsRead) False) = OutcomeAllow"
    by (rule more_denies_allow_less [OF _ _ p d a]) simp_all
  show "pd_outcome (decide id (sample_engine [sample_rule ''d'' Deny FsRead, sample_rule ''p'' Permit FsRead])
        (sample_request FsRead) False) \<noteq> OutcomeAllow"
    by (simp add: sample_authorised)
qed

text \<open>
  C10: Updates never roll back: after any sequence of accepted or refused updates every bundle of
  the starting snapshot still has a successor of its tier, at no lower sequence, and
  identical where the sequence is the same.\<close>

theorem updates_never_roll_back:
  assumes "pe_bundles e = Some bs" and "b \<in> set bs"
  shows "\<exists>bs' c. pe_bundles (foldl (engine_step H enc) e updates) = Some bs' \<and> c \<in> set bs'
     \<and> pb_tier c = pb_tier b \<and> pb_sequence b \<le> pb_sequence c \<and> (pb_sequence c = pb_sequence b \<longrightarrow> c = b)"
proof -
  have "tier_kept e b" using assms by (auto simp: tier_kept_def)
  then have "tier_kept (foldl (engine_step H enc) e updates) b"
    by (rule engine_tiers.run_mark_stays)
  then show ?thesis by (simp add: tier_kept_def)
qed

theorem updates_never_roll_back_witness:
  "\<exists>bs' c. pe_bundles (foldl (engine_step id (\<lambda>_. Some ''x'')) (sample_engine [])
        [[sample_bundle 2 []], [sample_bundle 1 []]]) = Some bs' \<and> c \<in> set bs'
     \<and> pb_tier c = PlatformHard \<and> 1 \<le> pb_sequence c \<and> (pb_sequence c = 1 \<longrightarrow> c = sample_bundle 1 [])"
  using updates_never_roll_back [of "sample_engine []" "[sample_bundle 1 []]" "sample_bundle 1 []" id
      "\<lambda>_. Some ''x''" "[[sample_bundle 2 []], [sample_bundle 1 []]]"]
  by (simp add: sample_engine_def) (simp add: sample_bundle_def)

text \<open>
  Workspace confinement: a validated request on a workspace or git resource names a path whose
  first segments are the scheme and its own workspace, and no segment of the path is empty,
  a dot or a parent reference.\<close>

theorem validated_resource_confined:
  assumes "request_validate r = Ok ()"
    and "ad_resource_scheme (descriptor (cr_action r)) \<in> {''workspace'', ''git''}"
  shows "\<exists>path. segments (cr_resource r) =
       [ad_resource_scheme (descriptor (cr_action r)) @ '':'', [], cr_workspace_id r] @ path
     \<and> path \<noteq> [] \<and> (\<forall>seg \<in> set path. seg \<noteq> [] \<and> seg \<noteq> ''.'' \<and> seg \<noteq> ''..'')"
proof -
  let ?sch = "ad_resource_scheme (descriptor (cr_action r))" and ?c = "CHR ''/''"
  from assms have v: "valid_resource (cr_action r) (cr_resource r)"
    and pre: "prefix (?sch @ ''://'' @ cr_workspace_id r @ ''/'') (cr_resource r)"
    and ws: "valid_identifier (cr_workspace_id r)"
    by (auto simp: request_validate_def Let_def starts_with_def split: if_splits sum.splits)
  from pre obtain p where p: "cr_resource r = ?sch @ ''://'' @ cr_workspace_id r @ ''/'' @ p"
    by (auto simp: prefix_def)
  from ws have nc: "?c \<notin> set (cr_workspace_id r)"
    by (auto simp: valid_identifier_def list_all_iff byte_class_defs byte_def)
  from nc have sw: "split_on ?c (cr_workspace_id r @ ?c # p) = cr_workspace_id r # split_on ?c p"
    by (simp add: split_on_append split_on_no_sep)
  have "cr_resource r = (?sch @ '':'') @ ?c # [] @ ?c # (cr_workspace_id r @ ?c # p)"
    using p by simp
  then have seg: "segments (cr_resource r) = [?sch @ '':'', [], cr_workspace_id r] @ split_on ?c p"
    using scheme_no_slash [of "cr_action r"]
    by (simp only: split_on_append) (simp add: split_on_no_sep nc)
  obtain q where q: "cr_resource r = ?sch @ ''://'' @ q"
    "\<forall>seg \<in> set (split_on ?c q). seg \<notin> {[], ''.'', ''..''}"
    using valid_resource_shape [OF v] by blast
  with p have "q = cr_workspace_id r @ ?c # p" by simp
  with q(2) sw have "\<forall>seg \<in> set (split_on ?c p). seg \<noteq> [] \<and> seg \<noteq> ''.'' \<and> seg \<noteq> ''..''" by simp
  with seg show ?thesis by (intro exI [of _ "split_on ?c p"]) simp
qed

theorem validated_resource_confined_witness:
  "\<exists>path. segments (cr_resource (sample_request FsRead)) = [''workspace:'', [], ''ws''] @ path
     \<and> path \<noteq> [] \<and> (\<forall>seg \<in> set path. seg \<noteq> [] \<and> seg \<noteq> ''.'' \<and> seg \<noteq> ''..'')"
proof -
  have v: "request_validate (sample_request FsRead) = Ok ()" by (simp add: sample_request_valid)
  have a: "cr_action (sample_request FsRead) = FsRead" "cr_workspace_id (sample_request FsRead) = ''ws''"
    by (simp_all add: sample_request_def)
  show ?thesis using validated_resource_confined [OF v] by (simp add: a descriptor_scheme)
qed

end
