(* ===== verification/PolicyEnforcer.thy ===== *)
theory PolicyEnforcer
  imports PolicyEngine
begin

text \<open>
  Approvals, the redacted audit record and the policy enforcement point
  (\<open>crates/policy/src/approval.rs\<close>, \<open>audit.rs\<close> and the \<open>PolicyEnforcer\<close> of \<open>lib.rs\<close>).
  The audit sink is a trait: its two operations are arguments of the enforcer and its
  contract is a locale, interpreted on the sinks of the repository. The effect closure is a
  function on an abstract world, so that "the effect did not run" is a statement.
\<close>

section \<open>Approval requests and grants\<close>

datatype approval_scope = Once | Task

definition MAX_APPROVAL_TTL_MS :: u64 where
  "MAX_APPROVAL_TTL_MS = 86400000"

record approval_request =
  aq_approval_request_id :: string
  aq_capability :: capability_request
  aq_requested_scope :: resource_pattern
  aq_reason :: string
  aq_alternatives :: "string list"
  aq_scope :: approval_scope
  aq_expires_at_ms :: u64

text \<open>The Chinese phrase the source refuses, as its UTF-8 bytes.\<close>

definition allow_everything_zh :: string where
  "allow_everything_zh = [CHR 0xE5, CHR 0x85, CHR 0x81, CHR 0xE8, CHR 0xAE, CHR 0xB8,
     CHR 0xE5, CHR 0x85, CHR 0xA8, CHR 0xE9, CHR 0x83, CHR 0xA8]"

definition vague_alternative :: "string \<Rightarrow> bool" where
  "vague_alternative alt =
     (let normalized = ascii_lower alt in
      str_trim alt = [] \<or> str_contains normalized ''allow everything''
      \<or> str_contains normalized allow_everything_zh)"

definition approval_request_new ::
  "string \<Rightarrow> capability_request \<Rightarrow> resource_pattern \<Rightarrow> string \<Rightarrow> string list \<Rightarrow> approval_scope \<Rightarrow> u64
   \<Rightarrow> policy_error + approval_request" where
  "approval_request_new rid cap req_scope reason alternatives scope expires =
     (if rid = [] \<or> reason = [] then Err InvalidApproval
      else if expires \<le> cr_occurred_at_ms cap
           \<or> sat_sub expires (cr_occurred_at_ms cap) > MAX_APPROVAL_TTL_MS
           \<or> \<not> covers req_scope (cr_resource cap)
      then Err InvalidApproval
      else if scope = Task \<and> \<not> persistable (descriptor (cr_action cap)) then Err ApprovalScopeTooBroad
      else if alternatives = [] \<or> list_ex vague_alternative alternatives then Err VagueApproval
      else Ok \<lparr>aq_approval_request_id = rid, aq_capability = cap, aq_requested_scope = req_scope,
               aq_reason = reason, aq_alternatives = alternatives, aq_scope = scope,
               aq_expires_at_ms = expires\<rparr>)"

record approval_grant =
  ag_grant_id :: string
  ag_approval_request_id :: string
  ag_approver_id :: string
  ag_request_digest :: string
  ag_approved_scope :: resource_pattern
  ag_scope :: approval_scope
  ag_expires_at_ms :: u64

definition approve ::
  "(string \<Rightarrow> string) \<Rightarrow> approval_request \<Rightarrow> string \<Rightarrow> string \<Rightarrow> resource_pattern \<Rightarrow> u64
   \<Rightarrow> policy_error + approval_grant" where
  "approve H req gid approver ap_scope expires =
     (if gid = [] \<or> approver = [] \<or> expires > aq_expires_at_ms req
         \<or> expires \<le> cr_occurred_at_ms (aq_capability req)
         \<or> \<not> pattern_covers_pattern (aq_requested_scope req) ap_scope
         \<or> \<not> covers ap_scope (cr_resource (aq_capability req))
      then Err ApprovalScopeTooBroad
      else Ok \<lparr>ag_grant_id = gid, ag_approval_request_id = aq_approval_request_id req,
               ag_approver_id = approver, ag_request_digest = request_digest H (aq_capability req),
               ag_approved_scope = ap_scope, ag_scope = aq_scope req, ag_expires_at_ms = expires\<rparr>)"

section \<open>The ledger\<close>

record approval_ledger =
  al_revoked :: "string set"
  al_consumed :: "string set"

definition ledger_default :: approval_ledger where
  "ledger_default = \<lparr>al_revoked = {}, al_consumed = {}\<rparr>"

definition ledger_revoke :: "approval_ledger \<Rightarrow> string \<Rightarrow> approval_ledger" where
  "ledger_revoke l gid = l\<lparr>al_revoked := insert gid (al_revoked l)\<rparr>"

definition ledger_validate ::
  "(string \<Rightarrow> string) \<Rightarrow> approval_ledger \<Rightarrow> approval_grant \<Rightarrow> capability_request \<Rightarrow> u64 \<Rightarrow> policy_error + unit" where
  "ledger_validate H l g r now =
     (if ag_grant_id g \<in> al_revoked l then Err ApprovalRevoked
      else if now \<ge> ag_expires_at_ms g then Err ApprovalExpired
      else if ag_request_digest g \<noteq> request_digest H r \<or> \<not> covers (ag_approved_scope g) (cr_resource r)
      then Err ApprovalBindingMismatch
      else if ag_scope g = Once \<and> ag_grant_id g \<in> al_consumed l then Err ApprovalReplayed
      else Ok ())"

definition ledger_consume :: "approval_ledger \<Rightarrow> approval_grant \<Rightarrow> approval_ledger" where
  "ledger_consume l g =
     (if ag_scope g = Once then l\<lparr>al_consumed := insert (ag_grant_id g) (al_consumed l)\<rparr> else l)"

definition validate_and_consume ::
  "(string \<Rightarrow> string) \<Rightarrow> approval_ledger \<Rightarrow> approval_grant \<Rightarrow> capability_request \<Rightarrow> u64
   \<Rightarrow> approval_ledger \<times> (policy_error + unit)" where
  "validate_and_consume H l g r now =
     (case ledger_validate H l g r now of
        Err e \<Rightarrow> (l, Err e)
      | Ok _ \<Rightarrow> (ledger_consume l g, Ok ()))"

lemma ledger_validate_Ok:
  "ledger_validate H l g r now = Ok () \<longleftrightarrow>
     ag_grant_id g \<notin> al_revoked l \<and> now < ag_expires_at_ms g \<and> ag_request_digest g = request_digest H r
     \<and> covers (ag_approved_scope g) (cr_resource r) \<and> (ag_scope g = Once \<longrightarrow> ag_grant_id g \<notin> al_consumed l)"
  by (auto simp: ledger_validate_def)

lemma ledger_consume_marks: "al_consumed l \<subseteq> al_consumed (ledger_consume l g)"
  by (auto simp: ledger_consume_def)

section \<open>Audit records and sinks\<close>

datatype enforcement_result = Succeeded | Failed

fun enforcement_result_as_str :: "enforcement_result \<Rightarrow> string" where
  "enforcement_result_as_str Succeeded = ''succeeded''"
| "enforcement_result_as_str Failed = ''failed''"

record decision_audit =
  da_decision_id :: string
  da_workspace_id :: string
  da_action :: string
  da_outcome :: decision_outcome
  da_reason :: decision_reason
  da_principal_hash :: string
  da_resource_hash :: string
  da_context_hash :: string
  da_request_digest :: string
  da_policy_snapshot_id :: string
  da_matched_rule_ids :: "string list"
  da_occurred_at_ms :: u64

definition audit_from_decision ::
  "(string \<Rightarrow> string) \<Rightarrow> policy_decision \<Rightarrow> capability_request \<Rightarrow> decision_audit" where
  "audit_from_decision H d r =
     \<lparr>da_decision_id = pd_decision_id d,
      da_workspace_id = cr_workspace_id r,
      da_action = action_as_str (cr_action r),
      da_outcome = pd_outcome d,
      da_reason = pd_reason d,
      da_principal_hash = sha256_label H
        [pr_id (cr_principal r), principal_kind_as_str (pr_kind (cr_principal r)),
         or_empty (pr_on_behalf_of (cr_principal r))],
      da_resource_hash = sha256_label H [cr_resource r],
      da_context_hash = cr_operation_hash r,
      da_request_digest = pd_request_digest d,
      da_policy_snapshot_id = pd_policy_snapshot_id d,
      da_matched_rule_ids = pd_matched_rule_ids d,
      da_occurred_at_ms = cr_occurred_at_ms r\<rparr>"

type_synonym ('s, 'e) record_decision_op = "'s \<Rightarrow> decision_audit \<Rightarrow> 's \<times> ('e + unit)"
type_synonym ('s, 'e) record_enforcement_op = "'s \<Rightarrow> string \<Rightarrow> u64 \<Rightarrow> enforcement_result \<Rightarrow> 's \<times> ('e + unit)"

text \<open>The in-memory sink of \<open>audit.rs\<close>.\<close>

record memory_audit_sink =
  ms_decisions :: "decision_audit list"
  ms_enforcement :: "(string \<times> u64 \<times> enforcement_result) list"
  ms_unavailable :: bool

definition memory_record_decision :: "(memory_audit_sink, string) record_decision_op" where
  "memory_record_decision s rec =
     (if ms_unavailable s then (s, Err ''audit_unavailable'')
      else (s\<lparr>ms_decisions := ms_decisions s @ [rec]\<rparr>, Ok ()))"

definition memory_record_enforcement :: "(memory_audit_sink, string) record_enforcement_op" where
  "memory_record_enforcement s did t res =
     (if ms_unavailable s then (s, Err ''audit_unavailable'')
      else (s\<lparr>ms_enforcement := ms_enforcement s @ [(did, t, res)]\<rparr>, Ok ()))"

section \<open>The enforcement point\<close>

datatype ('ae, 'ee) enforcement_error =
    DecisionError policy_decision
  | ApprovalError policy_error
  | AuditBefore 'ae
  | EffectError 'ee
  | AuditAfter 'ae

record 's policy_enforcer =
  en_engine :: policy_engine
  en_approvals :: approval_ledger
  en_sink :: 's

definition enforcer_new :: "policy_engine \<Rightarrow> 's \<Rightarrow> 's policy_enforcer" where
  "enforcer_new e s = \<lparr>en_engine = e, en_approvals = ledger_default, en_sink = s\<rparr>"

definition persist ::
  "(string \<Rightarrow> string) \<Rightarrow> ('s, 'ae) record_decision_op \<Rightarrow> 's policy_enforcer \<Rightarrow> policy_decision
   \<Rightarrow> capability_request \<Rightarrow> 's policy_enforcer \<times> ('ae + unit)" where
  "persist H rd en d r =
     (let (s, res) = rd (en_sink en) (audit_from_decision H d r) in (en\<lparr>en_sink := s\<rparr>, res))"

text \<open>The second half of \<open>execute\<close>: persist the decision, consume, run, record the result.\<close>

definition execute_decided ::
  "(string \<Rightarrow> string) \<Rightarrow> ('s, 'ae) record_decision_op \<Rightarrow> ('s, 'ae) record_enforcement_op
   \<Rightarrow> 's policy_enforcer \<Rightarrow> capability_request \<Rightarrow> approval_grant option \<Rightarrow> u64 \<Rightarrow> ('w \<Rightarrow> 'w \<times> ('ee + 'v)) \<Rightarrow> 'w
   \<Rightarrow> bool \<Rightarrow> policy_decision \<Rightarrow> 's policy_enforcer \<times> 'w \<times> (('ae, 'ee) enforcement_error + 'v)" where
  "execute_decided H rd re en r appr now eff w approval_valid d =
     (case persist H rd en d r of
        (en1, Err a) \<Rightarrow> (en1, w, Err (AuditBefore a))
      | (en1, Ok _) \<Rightarrow>
        if pd_outcome d \<noteq> OutcomeAllow then (en1, w, Err (DecisionError d))
        else
          let en2 = (case appr of
                       Some g \<Rightarrow> if approval_valid
                                 then en1\<lparr>en_approvals := ledger_consume (en_approvals en1) g\<rparr> else en1
                     | None \<Rightarrow> en1)
          in (case eff w of
                (w1, Ok v) \<Rightarrow>
                  (case re (en_sink en2) (pd_decision_id d) now Succeeded of
                     (s, Err a) \<Rightarrow> (en2\<lparr>en_sink := s\<rparr>, w1, Err (AuditAfter a))
                   | (s, Ok _) \<Rightarrow> (en2\<lparr>en_sink := s\<rparr>, w1, Ok v))
              | (w1, Err e) \<Rightarrow>
                  (case re (en_sink en2) (pd_decision_id d) now Failed of
                     (s, Err a) \<Rightarrow> (en2\<lparr>en_sink := s\<rparr>, w1, Err (AuditAfter a))
                   | (s, Ok _) \<Rightarrow> (en2\<lparr>en_sink := s\<rparr>, w1, Err (EffectError e)))))"

definition execute ::
  "(string \<Rightarrow> string) \<Rightarrow> ('s, 'ae) record_decision_op \<Rightarrow> ('s, 'ae) record_enforcement_op
   \<Rightarrow> 's policy_enforcer \<Rightarrow> capability_request \<Rightarrow> approval_grant option \<Rightarrow> u64 \<Rightarrow> ('w \<Rightarrow> 'w \<times> ('ee + 'v)) \<Rightarrow> 'w
   \<Rightarrow> 's policy_enforcer \<times> 'w \<times> (('ae, 'ee) enforcement_error + 'v)" where
  "execute H rd re en r appr now eff w =
     (let preliminary = decide H (en_engine en) r False in
      if pd_outcome preliminary = OutcomeRequireApproval
      then (case appr of
              None \<Rightarrow>
                (case persist H rd en preliminary r of
                   (en1, Err a) \<Rightarrow> (en1, w, Err (AuditBefore a))
                 | (en1, Ok _) \<Rightarrow> (en1, w, Err (DecisionError preliminary)))
            | Some g \<Rightarrow>
                (case ledger_validate H (en_approvals en) g r now of
                   Err e \<Rightarrow>
                     (let denied = make_decision H (en_engine en) r OutcomeDeny ApprovalInvalid
                                     (pd_matched_rule_ids preliminary)
                      in case persist H rd en denied r of
                           (en1, Err a) \<Rightarrow> (en1, w, Err (AuditBefore a))
                         | (en1, Ok _) \<Rightarrow> (en1, w, Err (ApprovalError e)))
                 | Ok _ \<Rightarrow>
                     execute_decided H rd re en r appr now eff w True (decide H (en_engine en) r True)))
      else execute_decided H rd re en r appr now eff w False preliminary)"


section \<open>What an execution guarantees\<close>

text \<open>The results an execution can return only after the effect closure ran.\<close>

fun effect_reached :: "('ae, 'ee) enforcement_error + 'v \<Rightarrow> bool" where
  "effect_reached (Ok _) = True"
| "effect_reached (Err (EffectError _)) = True"
| "effect_reached (Err (AuditAfter _)) = True"
| "effect_reached (Err _) = False"

definition approval_granted ::
  "(string \<Rightarrow> string) \<Rightarrow> 's policy_enforcer \<Rightarrow> capability_request \<Rightarrow> approval_grant option \<Rightarrow> u64 \<Rightarrow> bool" where
  "approval_granted H en r appr now \<longleftrightarrow>
     pd_outcome (decide H (en_engine en) r False) = OutcomeRequireApproval
     \<and> (case appr of None \<Rightarrow> False | Some g \<Rightarrow> ledger_validate H (en_approvals en) g r now = Ok ())"

lemma persist_cases:
  "persist H rd en d r = (en1, res) \<longleftrightarrow>
     en1 = en\<lparr>en_sink := fst (rd (en_sink en) (audit_from_decision H d r))\<rparr>
     \<and> res = snd (rd (en_sink en) (audit_from_decision H d r))"
  by (auto simp: persist_def split: prod.splits)

lemma execute_decided_reached:
  assumes "execute_decided H rd re en r appr now eff w av d = (en', w', res)"
  shows "effect_reached res \<longleftrightarrow>
           pd_outcome d = OutcomeAllow \<and> snd (rd (en_sink en) (audit_from_decision H d r)) = Ok ()"
    and "effect_reached res \<Longrightarrow> w' = fst (eff w)"
    and "\<not> effect_reached res \<Longrightarrow> w' = w \<and> en_approvals en' = en_approvals en"
    and "effect_reached res \<Longrightarrow> en_approvals en' =
           (case appr of None \<Rightarrow> en_approvals en
            | Some g \<Rightarrow> if av then ledger_consume (en_approvals en) g else en_approvals en)"
    and "en_engine en' = en_engine en"
  using assms
  by (auto simp: execute_decided_def persist_def Let_def
      split: prod.splits sum.splits if_splits option.splits)

lemma execute_unfold:
  "execute H rd re en r appr now eff w =
     (let p = decide H (en_engine en) r False in
      if pd_outcome p = OutcomeRequireApproval \<and> \<not> approval_granted H en r appr now
      then (let d = (case appr of None \<Rightarrow> p
                     | Some g \<Rightarrow> make_decision H (en_engine en) r OutcomeDeny ApprovalInvalid (pd_matched_rule_ids p));
                (s, ar) = rd (en_sink en) (audit_from_decision H d r)
            in (en\<lparr>en_sink := s\<rparr>, w,
                case ar of
                  Err a \<Rightarrow> Err (AuditBefore a)
                | Ok _ \<Rightarrow> (case appr of None \<Rightarrow> Err (DecisionError p)
                           | Some g \<Rightarrow> (case ledger_validate H (en_approvals en) g r now of
                                          Err e \<Rightarrow> Err (ApprovalError e) | Ok _ \<Rightarrow> Err (DecisionError p)))))
      else execute_decided H rd re en r appr now eff w (approval_granted H en r appr now)
             (decide H (en_engine en) r (approval_granted H en r appr now)))"
  by (auto simp: execute_def persist_def approval_granted_def Let_def split: prod.splits sum.splits option.splits)

lemma execute_reached:
  assumes "execute H rd re en r appr now eff w = (en', w', res)"
  defines "av \<equiv> approval_granted H en r appr now"
  shows "effect_reached res \<longleftrightarrow> authorised (pe_bundles (en_engine en)) r av
           \<and> snd (rd (en_sink en) (audit_from_decision H (decide H (en_engine en) r av) r)) = Ok ()"
    and "w' = (if effect_reached res then fst (eff w) else w)"
    and "en_engine en' = en_engine en"
    and "en_approvals en' =
           (case appr of None \<Rightarrow> en_approvals en
            | Some g \<Rightarrow> if av \<and> effect_reached res then ledger_consume (en_approvals en) g else en_approvals en)"
proof -
  let ?p = "decide H (en_engine en) r False"
  have refused: "\<not> authorised (pe_bundles (en_engine en)) r av \<and> \<not> effect_reached res \<and> w' = w
      \<and> en_engine en' = en_engine en \<and> en_approvals en' = en_approvals en"
    if "pd_outcome ?p = OutcomeRequireApproval \<and> \<not> av"
    using that assms(1) unfolding execute_unfold av_def
    by (auto simp: Let_def decide_outcome_RequireApproval split: prod.splits sum.splits option.splits if_splits)
  have decided: "execute_decided H rd re en r appr now eff w av (decide H (en_engine en) r av) = (en', w', res)"
    if "\<not> (pd_outcome ?p = OutcomeRequireApproval \<and> \<not> av)"
    using that assms(1) unfolding execute_unfold av_def by (auto simp: Let_def split: if_splits)
  show "effect_reached res \<longleftrightarrow> authorised (pe_bundles (en_engine en)) r av
           \<and> snd (rd (en_sink en) (audit_from_decision H (decide H (en_engine en) r av) r)) = Ok ()"
    using refused execute_decided_reached(1) [OF decided] decide_outcome_Allow by metis
  show "w' = (if effect_reached res then fst (eff w) else w)"
    using refused execute_decided_reached(2,3) [OF decided] by metis
  show "en_engine en' = en_engine en"
    using refused execute_decided_reached(5) [OF decided] by blast
  show "en_approvals en' =
           (case appr of None \<Rightarrow> en_approvals en
            | Some g \<Rightarrow> if av \<and> effect_reached res then ledger_consume (en_approvals en) g else en_approvals en)"
    using refused execute_decided_reached(3,4) [OF decided]
    by (cases "pd_outcome ?p = OutcomeRequireApproval \<and> \<not> av"; cases "effect_reached res")
      (simp_all split: option.splits)
qed


section \<open>The sink contract\<close>

text \<open>
  What a \<open>DecisionAuditSink\<close> promises its client: an accepted decision is appended to the
  durable record, a refused one leaves it alone, and results never touch decisions.
\<close>

locale decision_audit_sink =
  fixes rd :: "('s, 'ae) record_decision_op"
    and re :: "('s, 'ae) record_enforcement_op"
    and decisions :: "'s \<Rightarrow> decision_audit list"
  assumes decision_recorded: "rd s rec = (s', Ok ()) \<Longrightarrow> decisions s' = decisions s @ [rec]"
    and decision_refused: "rd s rec = (s', Err e) \<Longrightarrow> decisions s' = decisions s"
    and result_keeps_decisions: "decisions (fst (re s did t res)) = decisions s"
begin

lemma decisions_after: "decisions (fst (rd s rec)) = decisions s @ (if snd (rd s rec) = Ok () then [rec] else [])"
  by (cases "rd s rec"; cases "snd (rd s rec)") (auto dest: decision_recorded decision_refused)

lemma execute_decided_decisions:
  "execute_decided H rd re en r appr now eff w av d = (en', w', res) \<Longrightarrow>
     decisions (en_sink en') = decisions (fst (rd (en_sink en) (audit_from_decision H d r)))"
  by (auto simp: execute_decided_def persist_def Let_def
      split: prod.splits sum.splits if_splits option.splits dest: arg_cong [where f = "\<lambda>x. decisions (fst x)"])
    (metis fst_conv result_keeps_decisions)+

text \<open>Every call persists at most one record; one that reached the effect persisted its permission.\<close>

lemma execute_decisions:
  assumes "execute H rd re en r appr now eff w = (en', w', res)"
  shows "\<exists>recs. decisions (en_sink en') = decisions (en_sink en) @ recs \<and> length recs \<le> 1
     \<and> (effect_reached res \<longrightarrow> recs =
          [audit_from_decision H (decide H (en_engine en) r (approval_granted H en r appr now)) r])"
proof (cases "pd_outcome (decide H (en_engine en) r False) = OutcomeRequireApproval \<and> \<not> approval_granted H en r appr now")
  case True
  then have "\<not> effect_reached res"
    using execute_reached(1) [OF assms] by (simp add: decide_outcome_RequireApproval)
  moreover have "\<exists>d. en_sink en' = fst (rd (en_sink en) (audit_from_decision H d r))"
    using True assms unfolding execute_unfold
    by (auto simp: Let_def split: prod.splits if_splits) (metis fst_conv)+
  ultimately show ?thesis using decisions_after by fastforce
next
  case False
  with assms have "execute_decided H rd re en r appr now eff w (approval_granted H en r appr now)
      (decide H (en_engine en) r (approval_granted H en r appr now)) = (en', w', res)"
    unfolding execute_unfold by (auto simp: Let_def split: if_splits)
  from execute_decided_decisions [OF this] execute_decided_reached(1) [OF this]
  show ?thesis by (auto simp: decisions_after)
qed

end

interpretation memory_sink: decision_audit_sink memory_record_decision memory_record_enforcement ms_decisions
  by unfold_locales
    (auto simp: memory_record_decision_def memory_record_enforcement_def split: if_splits)


section \<open>Runs of the enforcement point\<close>

text \<open>
  What can happen to an enforcer between two executions: further executions, revocations,
  direct consumption through \<open>approvals_mut\<close>, and arbitrary changes of the sink.
\<close>

datatype ('s, 'w, 'ee, 'v) enforcer_op =
    ExecuteOp capability_request "approval_grant option" u64 "'w \<Rightarrow> 'w \<times> ('ee + 'v)"
  | RevokeOp string
  | ConsumeOp approval_grant capability_request u64
  | SinkOp "'s \<Rightarrow> 's"

fun enforcer_step ::
  "(string \<Rightarrow> string) \<Rightarrow> ('s, 'ae) record_decision_op \<Rightarrow> ('s, 'ae) record_enforcement_op
   \<Rightarrow> 's policy_enforcer \<times> 'w \<Rightarrow> ('s, 'w, 'ee, 'v) enforcer_op \<Rightarrow> 's policy_enforcer \<times> 'w" where
  "enforcer_step H rd re (en, w) (ExecuteOp r appr now eff) =
     (let (en', w', res) = execute H rd re en r appr now eff w in (en', w'))"
| "enforcer_step H rd re (en, w) (RevokeOp gid) =
     (en\<lparr>en_approvals := ledger_revoke (en_approvals en) gid\<rparr>, w)"
| "enforcer_step H rd re (en, w) (ConsumeOp g r now) =
     (en\<lparr>en_approvals := fst (validate_and_consume H (en_approvals en) g r now)\<rparr>, w)"
| "enforcer_step H rd re (en, w) (SinkOp f) = (en\<lparr>en_sink := f (en_sink en)\<rparr>, w)"

definition grant_spent :: "'s policy_enforcer \<times> 'w \<Rightarrow> string \<Rightarrow> bool" where
  "grant_spent st gid \<longleftrightarrow> gid \<in> al_consumed (en_approvals (fst st))"

definition grant_revoked :: "'s policy_enforcer \<times> 'w \<Rightarrow> string \<Rightarrow> bool" where
  "grant_revoked st gid \<longleftrightarrow> gid \<in> al_revoked (en_approvals (fst st))"

lemma execute_approvals_grow:
  assumes "execute H rd re en r appr now eff w = (en', w', res)"
  shows "al_consumed (en_approvals en) \<subseteq> al_consumed (en_approvals en')"
    and "al_revoked (en_approvals en) = al_revoked (en_approvals en')"
  unfolding execute_reached(4) [OF assms]
  by (auto simp: ledger_consume_def split: option.splits)

lemma enforcer_step_spent: "grant_spent st gid \<Longrightarrow> grant_spent (enforcer_step H rd re st x) gid"
  by (cases "(H, rd, re, st, x)" rule: enforcer_step.cases)
    (auto simp: grant_spent_def ledger_revoke_def validate_and_consume_def ledger_consume_def
      split: prod.splits sum.splits dest!: execute_approvals_grow(1))

lemma enforcer_step_revoked: "grant_revoked st gid \<Longrightarrow> grant_revoked (enforcer_step H rd re st x) gid"
  by (cases "(H, rd, re, st, x)" rule: enforcer_step.cases)
    (auto simp: grant_revoked_def ledger_revoke_def validate_and_consume_def ledger_consume_def
      split: prod.splits sum.splits dest!: execute_approvals_grow(2))

interpretation spent_grants: permanent_marks "enforcer_step H rd re" grant_spent
  by unfold_locales (rule enforcer_step_spent)

interpretation revoked_grants: permanent_marks "enforcer_step H rd re" grant_revoked
  by unfold_locales (rule enforcer_step_revoked)

lemma unapproved_not_reached:
  assumes "execute H rd re en r appr now eff w = (en', w', res)"
    and "pd_outcome (decide H (en_engine en) r False) = OutcomeRequireApproval"
    and "\<not> approval_granted H en r appr now"
  shows "\<not> effect_reached res \<and> w' = w"
  using execute_reached(1,2) [OF assms(1)] assms(2,3) by (simp add: decide_outcome_RequireApproval)

lemma request_fields_inj:
  assumes "request_fields r = request_fields r'"
  shows "cr_request_id r = cr_request_id r' \<and> pr_id (cr_principal r) = pr_id (cr_principal r')
     \<and> pr_kind (cr_principal r) = pr_kind (cr_principal r') \<and> cr_workspace_id r = cr_workspace_id r'
     \<and> cr_task_id r = cr_task_id r' \<and> cr_action r = cr_action r' \<and> cr_resource r = cr_resource r'
     \<and> cr_operation_hash r = cr_operation_hash r' \<and> cr_sandboxed r = cr_sandboxed r'
     \<and> cr_data_class r = cr_data_class r'
     \<and> or_empty (pr_on_behalf_of (cr_principal r)) = or_empty (pr_on_behalf_of (cr_principal r'))
     \<and> or_empty (cr_credential_ref r) = or_empty (cr_credential_ref r')"
proof -
  have k: "principal_kind_as_str a = principal_kind_as_str b \<Longrightarrow> a = b" for a b
    by (cases a; cases b; simp)
  have s: "char_of (if a then 1 else 0 :: nat) = (char_of (if b then 1 else 0 :: nat) :: char) \<Longrightarrow> a = b" for a b
    by (auto split: if_splits)
  have d: "(char_of (data_class_rank a) :: char) = char_of (data_class_rank b) \<Longrightarrow> a = b" for a b
    by (cases a; cases b; simp)
  from assms show ?thesis
    unfolding request_fields_def using k s d action_as_str_inj by auto
qed


section \<open>Sample values\<close>

definition sample_grant :: "capability_request \<Rightarrow> approval_grant" where
  "sample_grant r = \<lparr>ag_grant_id = ''g1'', ag_approval_request_id = ''a1'', ag_approver_id = ''bob'',
     ag_request_digest = request_digest id r, ag_approved_scope = Exact (cr_resource r), ag_scope = Once,
     ag_expires_at_ms = 2000\<rparr>"

definition sample_enforcer :: "memory_audit_sink policy_enforcer" where
  "sample_enforcer = enforcer_new (sample_engine [sample_rule ''p'' Permit FsDelete])
     \<lparr>ms_decisions = [], ms_enforcement = [], ms_unavailable = False\<rparr>"

definition sample_effect :: "nat \<Rightarrow> nat \<times> (string + unit)" where
  "sample_effect w = (w + 1, Ok ())"

definition sample_execute ::
  "memory_audit_sink policy_enforcer \<Rightarrow> u64 \<Rightarrow> nat
   \<Rightarrow> memory_audit_sink policy_enforcer \<times> nat \<times> ((string, string) enforcement_error + unit)" where
  "sample_execute en now w = execute id memory_record_decision memory_record_enforcement en
     (sample_request FsDelete) (Some (sample_grant (sample_request FsDelete))) now sample_effect w"

lemma sample_execute_unfold:
  "execute id memory_record_decision memory_record_enforcement en (sample_request FsDelete)
      (Some (sample_grant (sample_request FsDelete))) t sample_effect w
    = (fst (sample_execute en t w), fst (snd (sample_execute en t w)), snd (snd (sample_execute en t w)))"
  by (simp add: sample_execute_def)

lemma sample_preliminary:
  "pd_outcome (decide H (en_engine sample_enforcer) (sample_request FsDelete) False) = OutcomeRequireApproval"
  by (simp add: sample_authorised sample_enforcer_def enforcer_new_def)

lemma sample_granted:
  "approval_granted id sample_enforcer (sample_request FsDelete) (Some (sample_grant (sample_request FsDelete))) now
     \<longleftrightarrow> now < 2000"
  by (simp add: approval_granted_def sample_preliminary ledger_validate_Ok)
    (simp add: sample_grant_def sample_enforcer_def enforcer_new_def ledger_default_def sample_request_def)

lemma sample_runs:
  "effect_reached (snd (snd (sample_execute sample_enforcer now w))) \<longleftrightarrow> now < 2000"
  unfolding execute_reached(1) [OF sample_execute_unfold] sample_granted
  by (simp add: sample_authorised sample_enforcer_def enforcer_new_def memory_record_decision_def)

section \<open>Properties\<close>

text \<open>
  C3: Mediation: whatever sink, approval and effect are given, the effect closure runs exactly when
  the request is authorised (with an approval only where the ledger validated the grant) and
  the sink has durably accepted that very decision beforehand; otherwise the world is untouched.\<close>

theorem effect_runs_iff_authorised_and_audited:
  assumes "execute H rd re en r appr now eff w = (en', w', res)"
  shows "(effect_reached res \<longleftrightarrow>
            authorised (pe_bundles (en_engine en)) r (approval_granted H en r appr now)
            \<and> snd (rd (en_sink en) (audit_from_decision H
                  (decide H (en_engine en) r (approval_granted H en r appr now)) r)) = Ok ())
         \<and> w' = (if effect_reached res then fst (eff w) else w)"
  using execute_reached(1,2) [OF assms] by blast

theorem effect_runs_iff_authorised_and_audited_witness:
  "fst (snd (sample_execute sample_enforcer 1500 7)) = 8 \<and> fst (snd (sample_execute sample_enforcer 2000 7)) = 7"
  using effect_runs_iff_authorised_and_audited [OF sample_execute_unfold, of sample_enforcer 1500 7]
    effect_runs_iff_authorised_and_audited [OF sample_execute_unfold, of sample_enforcer 2000 7]
  by (simp only: sample_runs) (simp add: sample_effect_def)

text \<open>
  C8: One-shot grants: once a grant of scope \<open>Once\<close> has carried an execution to its effect, no later
  execution of any request that needs approval can reach its effect with that grant's
  identifier, whatever executions, revocations, direct consumptions or sink changes happen
  in between.\<close>

theorem once_grant_authorises_once:
  assumes "ag_scope g = Once"
    and "pd_outcome (decide H (en_engine en) r False) = OutcomeRequireApproval"
    and "execute H rd re en r (Some g) now eff w = (en1, w1, res1)" and "effect_reached res1"
    and "foldl (enforcer_step H rd re) (en1, w1) xs = (en2, w2)"
    and "ag_scope g2 = Once" and "ag_grant_id g2 = ag_grant_id g"
    and "pd_outcome (decide H (en_engine en2) r2 False) = OutcomeRequireApproval"
    and "execute H rd re en2 r2 (Some g2) now2 eff2 w2 = (en3, w3, res3)"
  shows "\<not> effect_reached res3 \<and> w3 = w2"
proof -
  have "approval_granted H en r (Some g) now"
    using execute_reached(1) [OF assms(3)] assms(2,4) decide_outcome_RequireApproval by metis
  then have "grant_spent (en1, w1) (ag_grant_id g)"
    using execute_reached(4) [OF assms(3)] assms(1,4) by (simp add: grant_spent_def ledger_consume_def)
  then have "grant_spent (foldl (enforcer_step H rd re) (en1, w1) xs) (ag_grant_id g)"
    by (rule spent_grants.run_mark_stays)
  then have "\<not> approval_granted H en2 r2 (Some g2) now2"
    using assms(5,6,7) by (auto simp: grant_spent_def approval_granted_def ledger_validate_Ok)
  then show ?thesis
    by (rule unapproved_not_reached [OF assms(9,8)])
qed

theorem once_grant_authorises_once_witness:
  "\<not> effect_reached (snd (snd (sample_execute (fst (sample_execute sample_enforcer 1500 7)) 1600
       (fst (snd (sample_execute sample_enforcer 1500 7))))))"
proof -
  let ?r = "sample_request FsDelete" and ?en1 = "fst (sample_execute sample_enforcer 1500 7)"
    and ?w1 = "fst (snd (sample_execute sample_enforcer 1500 7))"
  have eng: "en_engine ?en1 = en_engine sample_enforcer"
    by (rule execute_reached(3) [OF sample_execute_unfold])
  have p: "pd_outcome (decide id (en_engine ?en1) ?r False) = OutcomeRequireApproval"
    unfolding eng by (rule sample_preliminary)
  have q: "effect_reached (snd (snd (sample_execute sample_enforcer 1500 7)))"
    by (simp add: sample_runs)
  have o: "ag_scope (sample_grant ?r) = Once" by (simp add: sample_grant_def)
  have f: "foldl (enforcer_step id memory_record_decision memory_record_enforcement) (?en1, ?w1)
      ([] :: (memory_audit_sink, nat, string, unit) enforcer_op list) = (?en1, ?w1)"
    by simp
  show ?thesis
    using once_grant_authorises_once [OF o sample_preliminary sample_execute_unfold q f o refl p sample_execute_unfold]
    by blast
qed

text \<open>
  C9: Approvals bind: a grant made from an approval request carries an execution only of a request
  that agrees with the one the human saw in every field of the digest: request identifier, principal
  (identifier, kind and on whose behalf), workspace, task, action, resource, operation hash,
  credential reference, sandboxing and data class (as far as SHA-256 does not collide on the two
  encodings; the encoding writes an absent on-behalf-of or credential reference as the empty string),
  inside the scope that was asked for, before an expiry at most one day after the request.\<close>

theorem approval_binds_request:
  assumes "approval_request_new rid cap req_scope reason alts scope expires = Ok aq"
    and "approve H aq gid approver ap_scope gexp = Ok g"
    and "ledger_validate H l g r now = Ok ()"
    and "frameable (request_fields cap)" and "frameable (request_fields r)"
    and "no_collision H (framed (request_fields cap)) (framed (request_fields r))"
  shows "cr_request_id r = cr_request_id cap \<and> pr_id (cr_principal r) = pr_id (cr_principal cap)
     \<and> pr_kind (cr_principal r) = pr_kind (cr_principal cap) \<and> cr_workspace_id r = cr_workspace_id cap
     \<and> cr_task_id r = cr_task_id cap \<and> cr_action r = cr_action cap \<and> cr_resource r = cr_resource cap
     \<and> cr_operation_hash r = cr_operation_hash cap \<and> cr_sandboxed r = cr_sandboxed cap
     \<and> cr_data_class r = cr_data_class cap
     \<and> or_empty (pr_on_behalf_of (cr_principal r)) = or_empty (pr_on_behalf_of (cr_principal cap))
     \<and> or_empty (cr_credential_ref r) = or_empty (cr_credential_ref cap)
     \<and> covers req_scope (cr_resource r)
     \<and> unat now < unat (cr_occurred_at_ms cap) + 86400000"
proof -
  from assms(1) have aq: "aq_capability aq = cap" "aq_requested_scope aq = req_scope" "aq_expires_at_ms aq = expires"
    and le: "\<not> sat_sub expires (cr_occurred_at_ms cap) > MAX_APPROVAL_TTL_MS"
    by (auto simp: approval_request_new_def split: if_splits)
  from assms(2) aq have g: "ag_request_digest g = request_digest H cap" "ag_approved_scope g = ap_scope"
    "ag_expires_at_ms g = gexp" "gexp \<le> expires" "pattern_covers_pattern req_scope ap_scope"
    by (auto simp: approve_def not_less split: if_splits)
  from assms(3) g have v: "request_digest H r = request_digest H cap" "covers ap_scope (cr_resource r)" "now < gexp"
    by (auto simp: ledger_validate_Ok)
  from v(1) assms(4-6) have "request_fields cap = request_fields r"
    by (metis request_digest_def sha256_label_inj)
  moreover have "covers req_scope (cr_resource r)"
    using g(5) v(2) by (rule pattern_covers_pattern_sound)
  moreover have "unat now < unat (cr_occurred_at_ms cap) + 86400000"
  proof -
    have "unat expires - unat (cr_occurred_at_ms cap) \<le> 86400000"
      using le by (simp add: word_less_nat_alt MAX_APPROVAL_TTL_MS_def unat_sat_sub)
    moreover have "unat now < unat expires"
      using v(3) g(4) by (simp add: word_less_nat_alt word_le_nat_alt)
    ultimately show ?thesis by linarith
  qed
  ultimately show ?thesis
    using request_fields_inj [of cap r] by simp
qed

theorem approval_binds_request_witness:
  "\<exists>aq g. approval_request_new ''a1'' (sample_request FsDelete) (Prefix ''workspace://ws/src'') ''why'' [''once''] Once 2000 = Ok aq
     \<and> approve id aq ''g1'' ''bob'' (Exact ''workspace://ws/src/a.rs'') 2000 = Ok g
     \<and> ledger_validate id ledger_default g (sample_request FsDelete) 1500 = Ok ()
     \<and> covers (Prefix ''workspace://ws/src'') (cr_resource (sample_request FsDelete))"
proof -
  let ?r = "sample_request FsDelete"
  define aq where "aq = \<lparr>aq_approval_request_id = ''a1'', aq_capability = ?r,
    aq_requested_scope = Prefix ''workspace://ws/src'', aq_reason = ''why'', aq_alternatives = [''once''],
    aq_scope = Once, aq_expires_at_ms = 2000\<rparr>"
  have w: "\<not> vague_alternative ''once''" by code_simp
  have u: "covers (Prefix ''workspace://ws/src'') (cr_resource ?r)" by code_simp
  have a: "approval_request_new ''a1'' ?r (Prefix ''workspace://ws/src'') ''why'' [''once''] Once 2000 = Ok aq"
    using w u by (simp add: aq_def approval_request_new_def sat_sub_def MAX_APPROVAL_TTL_MS_def del: covers.simps)
      (simp add: sample_request_def)
  have r: "cr_resource ?r = ''workspace://ws/src/a.rs''" by (simp add: sample_request_def)
  have b: "approve id aq ''g1'' ''bob'' (Exact ''workspace://ws/src/a.rs'') 2000 = Ok (sample_grant ?r)"
    using u by (simp add: aq_def approve_def sample_grant_def r del: covers.simps(2)) (simp add: sample_request_def)
  have c: "ledger_validate id ledger_default (sample_grant ?r) ?r 1500 = Ok ()"
    by (simp add: ledger_validate_Ok sample_grant_def ledger_default_def)
  have f: "frameable (request_fields ?r)"
    by (simp add: frameable_def request_fields_def sample_request_def or_empty_def)
  have n: "no_collision id (framed (request_fields ?r)) (framed (request_fields ?r))"
    by (simp add: no_collision_def)
  have "covers (Prefix ''workspace://ws/src'') (cr_resource ?r)"
    using approval_binds_request [OF a b c f f n] by blast
  with a b c show ?thesis by blast
qed

text \<open>
  The in-memory sink keeps the audit complete: an execution appends at most one decision record
  and never alters earlier ones, and one that reached its effect appended exactly the
  permission it ran under, with outcome allow and the digest of its request.\<close>

theorem memory_audit_complete:
  assumes "execute H memory_record_decision memory_record_enforcement en r appr now eff w = (en', w', res)"
  shows "\<exists>recs. ms_decisions (en_sink en') = ms_decisions (en_sink en) @ recs \<and> length recs \<le> 1
     \<and> (effect_reached res \<longrightarrow>
          map da_outcome recs = [OutcomeAllow] \<and> map da_request_digest recs = [request_digest H r])"
proof -
  obtain recs where recs: "ms_decisions (en_sink en') = ms_decisions (en_sink en) @ recs" "length recs \<le> 1"
    "effect_reached res \<longrightarrow> recs =
       [audit_from_decision H (decide H (en_engine en) r (approval_granted H en r appr now)) r]"
    using memory_sink.execute_decisions [OF assms] by blast
  have d: "pd_request_digest (decide H e r av) = request_digest H r" for e av
    by (simp add: decide_unfold split: option.splits)
  have "effect_reached res \<longrightarrow>
      pd_outcome (decide H (en_engine en) r (approval_granted H en r appr now)) = OutcomeAllow"
    using execute_reached(1) [OF assms] decide_outcome_Allow by metis
  with recs d show ?thesis by (intro exI [of _ recs]) (simp add: audit_from_decision_def)
qed

theorem memory_audit_complete_witness:
  "\<exists>recs. ms_decisions (en_sink (fst (sample_execute sample_enforcer 1500 7))) = recs
     \<and> map da_outcome recs = [OutcomeAllow]"
  using memory_audit_complete [OF sample_execute_unfold, of sample_enforcer 1500 7]
  by (simp add: sample_runs) (auto simp: sample_enforcer_def enforcer_new_def)

end
