(* ===== verification/EgressAddress.thy ===== *)
theory EgressAddress
  imports Prelude
begin

text \<open>
  Internet addresses as the egress enforcement point reads them
  (\<open>crates/egress/src/lib.rs\<close>): the standard library's address type, predicates, parser and
  printer as far as the crate uses them; the historical IPv4 encodings of
  \<open>parse_ip_literal\<close>; host canonicalisation; and the ranges that are always blocked.
\<close>

unbundle bit_operations_syntax

section \<open>Addresses and their standard predicates\<close>

datatype ip_addr =
    V4 u8 u8 u8 u8
  | V6 u16 u16 u16 u16 u16 u16 u16 u16

fun is_loopback :: "ip_addr \<Rightarrow> bool" where
  "is_loopback (V4 a b c d) \<longleftrightarrow> a = 127"
| "is_loopback (V6 a b c d e f g h) \<longleftrightarrow> [a, b, c, d, e, f, g, h] = [0, 0, 0, 0, 0, 0, 0, 1]"

fun is_unspecified :: "ip_addr \<Rightarrow> bool" where
  "is_unspecified (V4 a b c d) \<longleftrightarrow> [a, b, c, d] = [0, 0, 0, 0]"
| "is_unspecified (V6 a b c d e f g h) \<longleftrightarrow> [a, b, c, d, e, f, g, h] = [0, 0, 0, 0, 0, 0, 0, 0]"

fun is_multicast :: "ip_addr \<Rightarrow> bool" where
  "is_multicast (V4 a b c d) \<longleftrightarrow> 224 \<le> a \<and> a \<le> 239"
| "is_multicast (V6 a b c d e f g h) \<longleftrightarrow> a AND 0xFF00 = 0xFF00"

fun is_private :: "ip_addr \<Rightarrow> bool" where
  "is_private (V4 a b c d) \<longleftrightarrow> a = 10 \<or> (a = 172 \<and> 16 \<le> b \<and> b \<le> 31) \<or> (a = 192 \<and> b = 168)"
| "is_private _ = False"

fun is_link_local :: "ip_addr \<Rightarrow> bool" where
  "is_link_local (V4 a b c d) \<longleftrightarrow> a = 169 \<and> b = 254"
| "is_link_local _ = False"

fun is_broadcast :: "ip_addr \<Rightarrow> bool" where
  "is_broadcast (V4 a b c d) \<longleftrightarrow> [a, b, c, d] = [255, 255, 255, 255]"
| "is_broadcast _ = False"

fun is_documentation :: "ip_addr \<Rightarrow> bool" where
  "is_documentation (V4 a b c d) \<longleftrightarrow>
     [a, b, c] = [192, 0, 2] \<or> [a, b, c] = [198, 51, 100] \<or> [a, b, c] = [203, 0, 113]"
| "is_documentation _ = False"

fun to_ipv4_mapped :: "ip_addr \<Rightarrow> ip_addr option" where
  "to_ipv4_mapped (V6 a b c d e f g h) =
     (if [a, b, c, d, e, f] = [0, 0, 0, 0, 0, 0xFFFF]
      then Some (V4 (ucast (drop_bit 8 g)) (ucast g) (ucast (drop_bit 8 h)) (ucast h)) else None)"
| "to_ipv4_mapped _ = None"

text \<open>\<open>is_blocked_address\<close>.\<close>

fun is_blocked_address :: "ip_addr \<Rightarrow> bool" where
  "is_blocked_address (V4 a b c d) \<longleftrightarrow>
     is_loopback (V4 a b c d) \<or> is_private (V4 a b c d) \<or> is_link_local (V4 a b c d)
     \<or> is_multicast (V4 a b c d) \<or> is_broadcast (V4 a b c d) \<or> is_unspecified (V4 a b c d)
     \<or> is_documentation (V4 a b c d)
     \<or> (a = 100 \<and> b AND 0xC0 = 64)
     \<or> a \<in> {0, 10, 127, 169, 192, 198, 203, 240}"
| "is_blocked_address (V6 a b c d e f g h) \<longleftrightarrow>
     is_loopback (V6 a b c d e f g h) \<or> is_multicast (V6 a b c d e f g h)
     \<or> is_unspecified (V6 a b c d e f g h)
     \<or> a AND 0xFE00 = 0xFC00 \<or> a AND 0xFFC0 = 0xFE80 \<or> a = 0x0064 \<or> a AND 0xFFF8 = 0x20"

section \<open>Numbers\<close>

text \<open>\<open>char::to_digit\<close> for a radix up to 16.\<close>

definition to_digit :: "nat \<Rightarrow> char \<Rightarrow> nat option" where
  "to_digit radix c =
     (let b = byte c;
          d = (if 48 \<le> b \<and> b \<le> 57 then b - 48 else if 97 \<le> b \<and> b \<le> 122 then b - 87
               else if 65 \<le> b \<and> b \<le> 90 then b - 55 else radix)
      in if d < radix then Some d else None)"

fun digits_value :: "nat \<Rightarrow> nat \<Rightarrow> string \<Rightarrow> nat option" where
  "digits_value radix acc [] = Some acc"
| "digits_value radix acc (c # cs) =
     (case to_digit radix c of
        None \<Rightarrow> None
      | Some d \<Rightarrow> if acc * radix + d < 2 ^ 32 then digits_value radix (acc * radix + d) cs else None)"

text \<open>\<open>u32::from_str_radix\<close>: an optional plus sign, at least one digit, no overflow.\<close>

definition u32_from_str_radix :: "nat \<Rightarrow> string \<Rightarrow> nat option" where
  "u32_from_str_radix radix s =
     (case s of
        [] \<Rightarrow> None
      | c # cs \<Rightarrow>
          if c = CHR ''+'' then (if cs = [] then None else digits_value radix 0 cs)
          else digits_value radix 0 s)"

lemma digits_value_bound: "acc < 2 ^ 32 \<Longrightarrow> digits_value radix acc s = Some v \<Longrightarrow> v < 2 ^ 32"
  by (induction radix acc s rule: digits_value.induct) (auto split: option.splits if_splits)

lemma u32_from_str_radix_bound: "u32_from_str_radix radix s = Some v \<Longrightarrow> v < 2 ^ 32"
  using digits_value_bound [of 0 radix]
  by (auto simp: u32_from_str_radix_def simp del: digits_value.simps split: list.splits if_splits)

definition parse_ip_number :: "string \<Rightarrow> nat option" where
  "parse_ip_number part =
     (case (case strip_prefix part ''0x'' of None \<Rightarrow> strip_prefix part ''0X'' | Some h \<Rightarrow> Some h) of
        Some hex \<Rightarrow> u32_from_str_radix 16 hex
      | None \<Rightarrow>
          if length part > 1 \<and> starts_with part ''0'' then u32_from_str_radix 8 (drop 1 part)
          else u32_from_str_radix 10 part)"

lemma parse_ip_number_bound: "parse_ip_number p = Some v \<Longrightarrow> v < 2 ^ 32"
  by (auto simp: parse_ip_number_def dest: u32_from_str_radix_bound split: option.splits if_splits)

section \<open>Historical IPv4 literals\<close>

definition u32_be_octets :: "nat \<Rightarrow> u8 list" where
  "u32_be_octets v = map (\<lambda>i. of_nat (v div 256 ^ (3 - i))) [0..<4]"

text \<open>
  The loop of \<open>parse_ipv4_literal\<close>. With fewer than four parts the last one fills the
  remaining octets with the low bytes of its value.
\<close>

fun ipv4_parts :: "nat \<Rightarrow> nat \<Rightarrow> u8 list \<Rightarrow> string list \<Rightarrow> u8 list option" where
  "ipv4_parts n index octets [] = Some octets"
| "ipv4_parts n index octets (part # parts) =
     (if part = [] then None
      else if index = n - 1 \<and> n < 4
      then (case parse_ip_number part of
              None \<Rightarrow> None
            | Some v \<Rightarrow> Some (take index octets @ drop (n - 1) (u32_be_octets v)))
      else (case parse_ip_number part of
              None \<Rightarrow> None
            | Some v \<Rightarrow> if v < 256 then ipv4_parts n (Suc index) (octets[index := of_nat v]) parts else None))"

definition octets_addr :: "u8 list \<Rightarrow> ip_addr" where
  "octets_addr os = V4 (os ! 0) (os ! 1) (os ! 2) (os ! 3)"

definition parse_ipv4_literal :: "string \<Rightarrow> ip_addr option" where
  "parse_ipv4_literal input =
     (let parts = split_on (CHR ''.'') input in
      if length parts > 4 then None
      else map_option octets_addr (ipv4_parts (length parts) 0 [0, 0, 0, 0] parts))"

section \<open>The standard parser of addresses\<close>

text \<open>
  \<open>core::net::parser\<close>: each reader returns the value and the rest of the input, or fails and
  consumes nothing. A number has at most \<open>mx\<close> digits, and for IPv4 no leading zero.
\<close>

fun span_digits :: "nat \<Rightarrow> string \<Rightarrow> nat list \<times> string" where
  "span_digits radix [] = ([], [])"
| "span_digits radix (c # cs) =
     (case to_digit radix c of
        None \<Rightarrow> ([], c # cs)
      | Some d \<Rightarrow> (let (ds, rest) = span_digits radix cs in (d # ds, rest)))"

definition read_number :: "nat \<Rightarrow> nat \<Rightarrow> bool \<Rightarrow> nat \<Rightarrow> string \<Rightarrow> (nat \<times> string) option" where
  "read_number radix mx allow_zero_prefix bound s =
     (let (ds, rest) = span_digits radix s; v = foldl (\<lambda>a d. a * radix + d) 0 ds in
      if ds = [] \<or> length ds > mx \<or> (\<not> allow_zero_prefix \<and> hd ds = 0 \<and> length ds > 1) \<or> v \<ge> bound
      then None else Some (v, rest))"

definition read_separated :: "char \<Rightarrow> nat \<Rightarrow> (string \<Rightarrow> ('a \<times> string) option) \<Rightarrow> string \<Rightarrow> ('a \<times> string) option" where
  "read_separated sep index inner s =
     (if index > 0 then (case s of c # cs \<Rightarrow> if c = sep then inner cs else None | [] \<Rightarrow> None) else inner s)"

fun read_octets :: "nat \<Rightarrow> nat \<Rightarrow> string \<Rightarrow> (nat list \<times> string) option" where
  "read_octets 0 index s = Some ([], s)"
| "read_octets (Suc k) index s =
     (case read_separated (CHR ''.'') index (read_number 10 3 False 256) s of
        None \<Rightarrow> None
      | Some (v, rest) \<Rightarrow> map_option (\<lambda>(vs, r). (v # vs, r)) (read_octets k (Suc index) rest))"

definition read_ipv4_addr :: "string \<Rightarrow> (nat list \<times> string) option" where
  "read_ipv4_addr s = read_octets 4 0 s"

text \<open>Groups of an IPv6 address, up to a limit, possibly ending in an embedded IPv4 address.\<close>

fun read_groups :: "nat \<Rightarrow> nat \<Rightarrow> nat \<Rightarrow> string \<Rightarrow> nat list \<times> bool \<times> string" where
  "read_groups 0 limit index s = ([], False, s)"
| "read_groups (Suc k) limit index s =
     (case (if index + 1 < limit then read_separated (CHR '':'') index read_ipv4_addr s else None) of
        Some (os, rest) \<Rightarrow> ([os ! 0 * 256 + os ! 1, os ! 2 * 256 + os ! 3], True, rest)
      | None \<Rightarrow>
          (case read_separated (CHR '':'') index (read_number 16 4 True 65536) s of
             None \<Rightarrow> ([], False, s)
           | Some (g, rest) \<Rightarrow> (let (gs, v4, r) = read_groups k limit (Suc index) rest in (g # gs, v4, r))))"

definition read_ipv6_addr :: "string \<Rightarrow> (nat list \<times> string) option" where
  "read_ipv6_addr s =
     (let (head, head_v4, rest) = read_groups 8 8 0 s in
      if length head = 8 then Some (head, rest)
      else if head_v4 then None
      else (case strip_prefix rest ''::'' of
              None \<Rightarrow> None
            | Some rest' \<Rightarrow>
                (let limit = 8 - (length head + 1); (tail, tail_v4, rest'') = read_groups limit limit 0 rest'
                 in Some (head @ replicate (8 - length head - length tail) 0 @ tail, rest''))))"

definition parse_ip_addr :: "string \<Rightarrow> ip_addr option" where
  "parse_ip_addr s =
     (case read_ipv4_addr s of
        Some (os, rest) \<Rightarrow>
          if rest = [] then Some (octets_addr (map of_nat os)) else None
      | None \<Rightarrow>
          (case read_ipv6_addr s of
             Some (gs, rest) \<Rightarrow>
               if rest = []
               then (let w = map of_nat gs in
                     Some (V6 (w ! 0) (w ! 1) (w ! 2) (w ! 3) (w ! 4) (w ! 5) (w ! 6) (w ! 7)))
               else None
           | None \<Rightarrow> None))"

definition parse_ip_literal :: "string \<Rightarrow> ip_addr option" where
  "parse_ip_literal input =
     (let candidate = str_trim input in
      if candidate = [] then None
      else case (if CHR '':'' \<notin> set candidate then parse_ipv4_literal candidate else None) of
        Some a \<Rightarrow> Some a
      | None \<Rightarrow>
          (let bracketed = (case Option.bind (strip_prefix candidate ''['') (\<lambda>inner. strip_suffix inner '']'') of
                              None \<Rightarrow> candidate | Some b \<Rightarrow> b)
           in if CHR ''%'' \<in> set bracketed then None
              else map_option (\<lambda>a. case to_ipv4_mapped a of None \<Rightarrow> a | Some v4 \<Rightarrow> v4) (parse_ip_addr bracketed)))"

section \<open>Hosts\<close>

definition canonical_host :: "string \<Rightarrow> string" where
  "canonical_host host =
     (let trimmed = str_trim host;
          without_scheme = (case strip_prefix trimmed ''https://'' of
                              Some r \<Rightarrow> r
                            | None \<Rightarrow> (case strip_prefix trimmed ''http://'' of Some r \<Rightarrow> r | None \<Rightarrow> trimmed));
          without_userinfo = last (split_on (CHR ''@'') without_scheme);
          without_port = hd (split_on (CHR '':'') without_userinfo);
          lowered = ascii_lower without_port
      in case strip_suffix lowered ''.'' of None \<Rightarrow> lowered | Some r \<Rightarrow> r)"

definition METADATA_HOSTS :: "string list" where
  "METADATA_HOSTS =
    [''metadata.google.internal'', ''metadata'', ''instance-data'', ''169.254.169.254'', ''fd00:ec2::254'',
     ''100.100.100.200'']"

definition is_metadata_host :: "string \<Rightarrow> bool" where
  "is_metadata_host host =
     (let canonical = canonical_host host in
      canonical \<in> set METADATA_HOSTS \<or> ends_with canonical ''.metadata.google.internal'')"

definition domain_matches :: "string \<Rightarrow> string \<Rightarrow> bool \<Rightarrow> bool" where
  "domain_matches host allowed subdomains = (host = allowed \<or> (subdomains \<and> ends_with host (''.'' @ allowed)))"

definition valid_purpose :: "string \<Rightarrow> bool" where
  "valid_purpose p \<longleftrightarrow> p \<noteq> [] \<and> length p \<le> 64
     \<and> list_all (\<lambda>c. is_lower_byte c \<or> is_digit_byte c \<or> c = CHR ''-'') p"

definition valid_host :: "string \<Rightarrow> bool" where
  "valid_host h \<longleftrightarrow> h \<noteq> [] \<and> length h \<le> 253 \<and> \<not> str_contains h ''://'' \<and> CHR ''/'' \<notin> set h
     \<and> CHR 0x5C \<notin> set h \<and> CHR '' '' \<notin> set h \<and> parse_ip_addr h = None"

section \<open>Printing addresses\<close>

fun nat_digits :: "nat \<Rightarrow> nat \<Rightarrow> nat \<Rightarrow> string" where
  "nat_digits 0 radix n = []"
| "nat_digits (Suc fuel) radix n =
     (if n < radix then [hex_digit_lower n] else nat_digits fuel radix (n div radix) @ [hex_digit_lower (n mod radix)])"

text \<open>At most five digits are ever needed (a 16-bit group or an octet).\<close>

definition show_small :: "nat \<Rightarrow> nat \<Rightarrow> string" where
  "show_small radix n = nat_digits 8 radix n"

definition show_ipv4 :: "u8 \<Rightarrow> u8 \<Rightarrow> u8 \<Rightarrow> u8 \<Rightarrow> string" where
  "show_ipv4 a b c d = join_with ''.'' (map (\<lambda>x. show_small 10 (unat x)) [a, b, c, d])"

text \<open>The longest run of zero groups (the first of the longest): its start and length.\<close>

fun zero_runs :: "nat \<Rightarrow> nat \<times> nat \<Rightarrow> nat \<times> nat \<Rightarrow> u16 list \<Rightarrow> nat \<times> nat" where
  "zero_runs i longest current [] = longest"
| "zero_runs i longest (st, ln) (g # gs) =
     (if g = 0
      then (let cur = (if ln = 0 then i else st, ln + 1)
            in zero_runs (Suc i) (if snd cur > snd longest then cur else longest) cur gs)
      else zero_runs (Suc i) longest (0, 0) gs)"

fun show_ip :: "ip_addr \<Rightarrow> string" where
  "show_ip (V4 a b c d) = show_ipv4 a b c d"
| "show_ip (V6 a b c d e f g h) =
     (case to_ipv4_mapped (V6 a b c d e f g h) of
        Some (V4 w x y z) \<Rightarrow> ''::ffff:'' @ show_ipv4 w x y z
      | _ \<Rightarrow>
          (let gs = [a, b, c, d, e, f, g, h]; (st, ln) = zero_runs 0 (0, 0) (0, 0) gs;
               txt = (\<lambda>xs. join_with '':'' (map (\<lambda>x. show_small 16 (unat x)) xs))
           in if ln > 1 then txt (take st gs) @ ''::'' @ txt (drop (st + ln) gs) else txt gs))"

end
