(* ===== verification/Egress.thy ===== *)
theory Egress
  imports PolicyEngine EgressAddress
begin

text \<open>
  The default-deny egress enforcement point (\<open>crates/egress/src/lib.rs\<close>): rules, requests,
  decisions and authorisations, the engine's construction, authorisation, resolution
  pinning, redirects and connection checks. SHA-256 (\<open>H\<close>) and the JSON encoding of the
  rules (\<open>enc\<close>) are parameters.
\<close>

section \<open>Data\<close>

datatype taint_kind = TaintSecret | TaintCredential | TaintPii | TaintUntrustedSource

datatype redirect_policy = RedirectDeny | RedirectSameHost

datatype destination_pattern = Domain string bool | IpLiteral string

record egress_rule =
  eg_purpose :: string
  eg_destinations :: "destination_pattern list"
  eg_schemes :: "string list"
  eg_max_data_class :: data_class
  eg_redirect :: redirect_policy
  eg_allow_ip_literals :: bool

datatype egress_error = EgressInvalidPolicy | EgressInvalidRequest

fun egress_error_str :: "egress_error \<Rightarrow> string" where
  "egress_error_str EgressInvalidPolicy = ''invalid_policy''"
| "egress_error_str EgressInvalidRequest = ''invalid_request''"

record egress_request =
  er_purpose :: string
  er_scheme :: string
  er_host :: string
  er_port :: u16
  er_data_class :: data_class
  er_taints :: "taint_kind list"
  er_credential_ref :: "string option"
  er_payload_len :: u64

datatype egress_reason =
    EgDefaultDeny | SchemeDenied | HostDenied | IpLiteralDenied | PrivateRangeDenied
  | MetadataEndpointDenied | DataClassExceeded | TaintedPayload | RedirectDenied | ResolutionDenied
  | AuthorizationMismatch | EgAllow

fun egress_reason_as_str :: "egress_reason \<Rightarrow> string" where
  "egress_reason_as_str EgDefaultDeny = ''default_deny''"
| "egress_reason_as_str SchemeDenied = ''scheme_denied''"
| "egress_reason_as_str HostDenied = ''host_denied''"
| "egress_reason_as_str IpLiteralDenied = ''ip_literal_denied''"
| "egress_reason_as_str PrivateRangeDenied = ''private_range_denied''"
| "egress_reason_as_str MetadataEndpointDenied = ''metadata_endpoint_denied''"
| "egress_reason_as_str DataClassExceeded = ''data_class_exceeded''"
| "egress_reason_as_str TaintedPayload = ''tainted_payload''"
| "egress_reason_as_str RedirectDenied = ''redirect_denied''"
| "egress_reason_as_str ResolutionDenied = ''resolution_denied''"
| "egress_reason_as_str AuthorizationMismatch = ''authorization_mismatch''"
| "egress_reason_as_str EgAllow = ''allow''"

fun egress_reason_byte :: "egress_reason \<Rightarrow> nat" where
  "egress_reason_byte EgDefaultDeny = 0"
| "egress_reason_byte SchemeDenied = 1"
| "egress_reason_byte HostDenied = 2"
| "egress_reason_byte IpLiteralDenied = 3"
| "egress_reason_byte PrivateRangeDenied = 4"
| "egress_reason_byte MetadataEndpointDenied = 5"
| "egress_reason_byte DataClassExceeded = 6"
| "egress_reason_byte TaintedPayload = 7"
| "egress_reason_byte RedirectDenied = 8"
| "egress_reason_byte ResolutionDenied = 9"
| "egress_reason_byte AuthorizationMismatch = 10"
| "egress_reason_byte EgAllow = 11"

record egress_authorization =
  ea_authorization_id :: string
  ea_purpose :: string
  ea_host :: string
  ea_port :: u16
  ea_allowed_addresses :: "ip_addr list"

record egress_decision =
  ed_decision_id :: string
  ed_reason :: egress_reason
  ed_authorization :: "egress_authorization option"

record egress_engine =
  ee_rules :: "egress_rule list"
  ee_snapshot_id :: string
  ee_sequence :: u64

section \<open>Construction\<close>

definition bad_scheme :: "string \<Rightarrow> bool" where
  "bad_scheme s \<longleftrightarrow> s = [] \<or> \<not> list_all (\<lambda>c. is_lower_byte c \<or> is_digit_byte c) s"

fun bad_destination :: "destination_pattern \<Rightarrow> bool" where
  "bad_destination (Domain host _) \<longleftrightarrow> \<not> valid_host host"
| "bad_destination (IpLiteral address) \<longleftrightarrow> parse_ip_addr address = None"

fun egress_rules_bad :: "string set \<Rightarrow> egress_rule list \<Rightarrow> bool" where
  "egress_rules_bad purposes [] = False"
| "egress_rules_bad purposes (r # rs) =
     (\<not> valid_purpose (eg_purpose r) \<or> eg_purpose r \<in> purposes \<or> eg_destinations r = []
      \<or> eg_schemes r = [] \<or> list_ex bad_scheme (eg_schemes r)
      \<or> list_ex bad_destination (eg_destinations r)
      \<or> egress_rules_bad (insert (eg_purpose r) purposes) rs)"

definition egress_digest :: "(string \<Rightarrow> string) \<Rightarrow> string list \<Rightarrow> string" where
  "egress_digest H parts = ''sha256:'' @ hex_upper (H (concat parts))"

definition egress_engine_new ::
  "(string \<Rightarrow> string) \<Rightarrow> (egress_rule list \<Rightarrow> string option) \<Rightarrow> u64 \<Rightarrow> egress_rule list \<Rightarrow> egress_error + egress_engine" where
  "egress_engine_new H enc seq rules =
     (let rs = sort_key eg_purpose rules in
      if egress_rules_bad {} rs then Err EgressInvalidPolicy
      else (case enc rs of
              None \<Rightarrow> Err EgressInvalidPolicy
            | Some encoded \<Rightarrow>
                Ok \<lparr>ee_rules = rs,
                    ee_snapshot_id = egress_digest H [''saber-egress-v1'' @ [CHR 0x00], le_bytes 8 (unat seq), encoded],
                    ee_sequence = seq\<rparr>))"

section \<open>Decisions\<close>

definition eg_allow :: "(string \<Rightarrow> string) \<Rightarrow> egress_engine \<Rightarrow> egress_request \<Rightarrow> ip_addr list \<Rightarrow> egress_decision" where
  "eg_allow H self r addresses =
     (let host = canonical_host (er_host r);
          aid = egress_digest H
            ([ee_snapshot_id self, er_purpose r, host, le_bytes 2 (unat (er_port r))] @ map show_ip addresses)
      in \<lparr>ed_decision_id = aid, ed_reason = EgAllow,
          ed_authorization = Some \<lparr>ea_authorization_id = aid, ea_purpose = er_purpose r, ea_host = host,
             ea_port = er_port r, ea_allowed_addresses = addresses\<rparr>\<rparr>)"

definition eg_decide ::
  "(string \<Rightarrow> string) \<Rightarrow> egress_engine \<Rightarrow> egress_request \<Rightarrow> egress_reason \<Rightarrow> egress_authorization option \<Rightarrow> egress_decision" where
  "eg_decide H self r reason auth =
     \<lparr>ed_decision_id = egress_digest H
        [ee_snapshot_id self, er_purpose r, er_host r, le_bytes 2 (unat (er_port r)),
         [char_of (egress_reason_byte reason)]],
      ed_reason = reason, ed_authorization = auth\<rparr>"

definition destination_allows_literal :: "egress_rule \<Rightarrow> ip_addr \<Rightarrow> bool" where
  "destination_allows_literal rule literal =
     list_ex (\<lambda>d. case d of
        IpLiteral address \<Rightarrow> (case parse_ip_addr address of None \<Rightarrow> False | Some allowed \<Rightarrow> allowed = literal)
      | Domain _ _ \<Rightarrow> False) (eg_destinations rule)"

definition destination_matches_host :: "egress_rule \<Rightarrow> string \<Rightarrow> bool" where
  "destination_matches_host rule host =
     list_ex (\<lambda>d. case d of Domain allowed subs \<Rightarrow> domain_matches host allowed subs | IpLiteral _ \<Rightarrow> False)
       (eg_destinations rule)"

definition secret_taint :: "taint_kind \<Rightarrow> bool" where
  "secret_taint t = (case t of TaintSecret \<Rightarrow> True | TaintCredential \<Rightarrow> True | _ \<Rightarrow> False)"

definition authorize :: "(string \<Rightarrow> string) \<Rightarrow> egress_engine \<Rightarrow> egress_request \<Rightarrow> egress_decision" where
  "authorize H self r =
     (case find (\<lambda>rule. eg_purpose rule = er_purpose r) (ee_rules self) of
        None \<Rightarrow> eg_decide H self r EgDefaultDeny None
      | Some rule \<Rightarrow>
          if er_scheme r \<notin> set (eg_schemes rule) then eg_decide H self r SchemeDenied None
          else if list_ex secret_taint (er_taints r) then eg_decide H self r TaintedPayload None
          else if er_data_class r > eg_max_data_class rule then eg_decide H self r DataClassExceeded None
          else if is_metadata_host (er_host r) then eg_decide H self r MetadataEndpointDenied None
          else
            (let host = canonical_host (er_host r) in
             case parse_ip_literal host of
               Some literal \<Rightarrow>
                 if \<not> eg_allow_ip_literals rule then eg_decide H self r IpLiteralDenied None
                 else if \<not> destination_allows_literal rule literal then eg_decide H self r HostDenied None
                 else if is_blocked_address literal then eg_decide H self r PrivateRangeDenied None
                 else eg_allow H self r [literal]
             | None \<Rightarrow>
                 if \<not> destination_matches_host rule host then eg_decide H self r HostDenied None
                 else eg_allow H self r []))"

definition validate_resolution ::
  "(string \<Rightarrow> string) \<Rightarrow> egress_engine \<Rightarrow> egress_authorization \<Rightarrow> string \<Rightarrow> ip_addr list
   \<Rightarrow> egress_decision + egress_authorization" where
  "validate_resolution H self auth host addresses =
     (let denied = \<lparr>ed_decision_id = egress_digest H [ee_snapshot_id self, host],
                    ed_reason = ResolutionDenied, ed_authorization = None\<rparr> in
      if ea_host auth \<noteq> canonical_host host \<or> addresses = [] then Err denied
      else if list_ex is_blocked_address addresses then Err denied
      else Ok (auth\<lparr>ea_allowed_addresses := addresses\<rparr>))"

definition authorize_redirect ::
  "(string \<Rightarrow> string) \<Rightarrow> egress_engine \<Rightarrow> egress_authorization \<Rightarrow> egress_request \<Rightarrow> egress_decision" where
  "authorize_redirect H self auth nxt =
     (case find (\<lambda>rule. eg_purpose rule = ea_purpose auth) (ee_rules self) of
        None \<Rightarrow> eg_decide H self nxt RedirectDenied None
      | Some rule \<Rightarrow>
          (let same_host = (canonical_host (er_host nxt) = ea_host auth) in
           case eg_redirect rule of
             RedirectDeny \<Rightarrow> eg_decide H self nxt RedirectDenied None
           | RedirectSameHost \<Rightarrow>
               if \<not> same_host then eg_decide H self nxt RedirectDenied None else authorize H self nxt))"

definition connection_request :: "egress_authorization \<Rightarrow> string \<Rightarrow> u16 \<Rightarrow> egress_request" where
  "connection_request auth host port =
     \<lparr>er_purpose = ea_purpose auth, er_scheme = ''https'', er_host = host, er_port = port,
      er_data_class = Public, er_taints = [], er_credential_ref = None, er_payload_len = 0\<rparr>"

definition verify_connection ::
  "(string \<Rightarrow> string) \<Rightarrow> egress_engine \<Rightarrow> egress_authorization \<Rightarrow> string \<Rightarrow> u16 \<Rightarrow> ip_addr \<Rightarrow> egress_decision" where
  "verify_connection H self auth host port address =
     (let matched = (ea_host auth = canonical_host host \<and> ea_port auth = port
            \<and> (ea_allowed_addresses auth = [] \<or> address \<in> set (ea_allowed_addresses auth)))
      in if \<not> matched \<or> is_blocked_address address
         then eg_decide H self (connection_request auth host port) AuthorizationMismatch None
         else eg_allow H self (connection_request auth host port) [address])"

section \<open>Lemmas\<close>

lemma eg_decision_simps [simp]:
  "ed_reason (eg_allow H e r as) = EgAllow"
  "ed_reason (eg_decide H e r reason au) = reason"
  "ed_authorization (eg_decide H e r reason au) = au"
  "map_option ea_allowed_addresses (ed_authorization (eg_allow H e r as)) = Some as"
  "map_option ea_host (ed_authorization (eg_allow H e r as)) = Some (canonical_host (er_host r))"
  "map_option ea_purpose (ed_authorization (eg_allow H e r as)) = Some (er_purpose r)"
  "map_option ea_port (ed_authorization (eg_allow H e r as)) = Some (er_port r)"
  by (simp_all add: eg_allow_def eg_decide_def Let_def)

text \<open>What a rule lets through, read declaratively; the pinned addresses are the literal, or none.\<close>

definition rule_admits :: "egress_rule \<Rightarrow> egress_request \<Rightarrow> bool" where
  "rule_admits rule r \<longleftrightarrow> eg_purpose rule = er_purpose r \<and> er_scheme r \<in> set (eg_schemes rule)
     \<and> TaintSecret \<notin> set (er_taints r) \<and> TaintCredential \<notin> set (er_taints r)
     \<and> er_data_class r \<le> eg_max_data_class rule \<and> \<not> is_metadata_host (er_host r)"

definition host_admitted :: "egress_rule \<Rightarrow> string \<Rightarrow> ip_addr list \<Rightarrow> bool" where
  "host_admitted rule host pinned \<longleftrightarrow>
     (case parse_ip_literal host of
        Some a \<Rightarrow> eg_allow_ip_literals rule \<and> destination_allows_literal rule a \<and> \<not> is_blocked_address a \<and> pinned = [a]
      | None \<Rightarrow> destination_matches_host rule host \<and> pinned = [])"

lemma secret_taints: "list_ex secret_taint ts \<longleftrightarrow> TaintSecret \<in> set ts \<or> TaintCredential \<in> set ts"
proof (induction ts)
  case (Cons t ts)
  then show ?case by (cases t) (auto simp: secret_taint_def)
qed simp

lemma authorize_Allow:
  "ed_reason (authorize H e r) = EgAllow \<longleftrightarrow>
     (\<exists>rule pinned. find (\<lambda>rule. eg_purpose rule = er_purpose r) (ee_rules e) = Some rule
        \<and> rule_admits rule r \<and> host_admitted rule (canonical_host (er_host r)) pinned)"
proof (cases "find (\<lambda>rule. eg_purpose rule = er_purpose r) (ee_rules e)")
  case None
  then show ?thesis by (simp add: authorize_def)
next
  case (Some rule)
  then have "eg_purpose rule = er_purpose r" by (auto simp: find_Some_iff)
  with Some show ?thesis
    by (cases "parse_ip_literal (canonical_host (er_host r))")
      (simp_all add: authorize_def rule_admits_def host_admitted_def secret_taints Let_def not_less [symmetric])
qed

lemma authorize_authorization:
  assumes "ed_authorization (authorize H e r) = Some auth"
  shows "ed_reason (authorize H e r) = EgAllow" "ea_host auth = canonical_host (er_host r)"
    "ea_purpose auth = er_purpose r" "ea_port auth = er_port r"
    "\<exists>rule \<in> set (ee_rules e). rule_admits rule r \<and> host_admitted rule (ea_host auth) (ea_allowed_addresses auth)"
proof -
  obtain rule where f: "find (\<lambda>rule. eg_purpose rule = er_purpose r) (ee_rules e) = Some rule"
    using assms by (auto simp: authorize_def split: option.splits)
  then have rule: "rule \<in> set (ee_rules e)" "eg_purpose rule = er_purpose r"
    by (auto simp: find_Some_iff)
  obtain pinned where p: "authorize H e r = eg_allow H e r pinned" "host_admitted rule (canonical_host (er_host r)) pinned"
    and a: "rule_admits rule r"
    using assms f rule(2)
    by (auto simp: authorize_def rule_admits_def host_admitted_def secret_taints Let_def not_less
        split: option.splits if_splits)
  from assms p have "auth = the (ed_authorization (eg_allow H e r pinned))" by simp
  with p a rule show "ed_reason (authorize H e r) = EgAllow" "ea_host auth = canonical_host (er_host r)"
    "ea_purpose auth = er_purpose r" "ea_port auth = er_port r"
    "\<exists>rule \<in> set (ee_rules e). rule_admits rule r \<and> host_admitted rule (ea_host auth) (ea_allowed_addresses auth)"
    by (auto simp: eg_allow_def Let_def)
qed

lemma egress_rules_good:
  "\<not> egress_rules_bad ps rs \<Longrightarrow> distinct (map eg_purpose rs) \<and> ps \<inter> eg_purpose ` set rs = {}
     \<and> (\<forall>r \<in> set rs. \<not> list_ex bad_destination (eg_destinations r))"
  by (induction ps rs rule: egress_rules_bad.induct) auto


text \<open>A redirect is followed only to the same host, under a rule that allows it, as a fresh authorisation.\<close>

lemma redirect_stays_on_host:
  "ed_reason (authorize_redirect H e auth nxt) = EgAllow \<Longrightarrow>
     canonical_host (er_host nxt) = ea_host auth \<and> authorize_redirect H e auth nxt = authorize H e nxt"
  by (auto simp: authorize_redirect_def Let_def split: option.splits redirect_policy.splits if_splits)

lemma verify_connection_Allow:
  "ed_reason (verify_connection H e auth host port a) = EgAllow \<longleftrightarrow>
     ea_host auth = canonical_host host \<and> ea_port auth = port
     \<and> (ea_allowed_addresses auth = [] \<or> a \<in> set (ea_allowed_addresses auth)) \<and> \<not> is_blocked_address a"
  by (auto simp: verify_connection_def Let_def)

lemma validate_resolution_Ok:
  "validate_resolution H e auth host addresses = Ok auth2 \<longleftrightarrow>
     ea_host auth = canonical_host host \<and> addresses \<noteq> [] \<and> \<not> list_ex is_blocked_address addresses
     \<and> auth2 = auth\<lparr>ea_allowed_addresses := addresses\<rparr>"
  by (auto simp: validate_resolution_def Let_def)

subsection \<open>Canonical hosts and the literals they can be\<close>

lemma canonical_host_chars: "c \<in> set (canonical_host h) \<Longrightarrow> c \<noteq> CHR '':'' \<and> c \<noteq> CHR ''@'' \<and> \<not> is_upper_byte c"
proof -
  let ?w = "case strip_prefix (str_trim h) ''https://'' of Some r \<Rightarrow> r
      | None \<Rightarrow> (case strip_prefix (str_trim h) ''http://'' of Some r \<Rightarrow> r | None \<Rightarrow> str_trim h)"
  let ?u = "last (split_on (CHR ''@'') ?w)"
  let ?p = "hd (split_on (CHR '':'') ?u)"
  assume "c \<in> set (canonical_host h)"
  moreover have "set (canonical_host h) \<subseteq> set (ascii_lower ?p)"
    by (auto simp: canonical_host_def Let_def strip_suffix_Some split: option.splits)
  ultimately obtain d where d: "d \<in> set ?p" "c = ascii_lower_char d"
    by (auto simp: ascii_lower_def)
  have pm: "?p \<in> set (split_on (CHR '':'') ?u)" by (rule hd_in_set) simp
  from pm d(1) have "d \<noteq> CHR '':''" using split_on_parts by blast
  moreover have "d \<noteq> CHR ''@''"
    using split_on_parts [of ?u "CHR ''@''" ?w] last_in_set [OF split_on_nonempty] set_split_on [OF pm] d(1) by blast
  ultimately show ?thesis
    using d(2) by (auto simp: byte_eq_iff [symmetric] byte_ascii_lower is_upper_byte_def)
      (auto simp: byte_def split: if_splits)
qed

lemma read_number_rest: "read_number radix mx z b s = Some (v, rest) \<Longrightarrow> set rest \<subseteq> set s"
proof -
  have "snd (span_digits radix s) = dropWhile (\<lambda>c. to_digit radix c \<noteq> None) s" for s
    by (induction s) (auto split: option.splits prod.splits)
  then have "set (snd (span_digits radix s)) \<subseteq> set s" for s
    using set_dropWhileD by fastforce
  then show "read_number radix mx z b s = Some (v, rest) \<Longrightarrow> set rest \<subseteq> set s"
    by (force simp: read_number_def Let_def split: prod.splits if_splits)
qed

lemma read_ipv6_needs_colon: "CHR '':'' \<notin> set s \<Longrightarrow> read_ipv6_addr s = None"
proof -
  assume n: "CHR '':'' \<notin> set s"
  have sep: "read_separated (CHR '':'') (Suc i) f t = None" if "CHR '':'' \<notin> set t" for i t
    and f :: "string \<Rightarrow> ('b \<times> string) option"
    using that by (cases t) (auto simp: read_separated_def)
  have more: "read_groups k 8 (Suc i) t = ([], False, t)" if "CHR '':'' \<notin> set t" for k i t
    using that by (cases k) (simp_all add: sep)
  have one: "read_groups (Suc k) 8 0 s = (case read_ipv4_addr s of
      Some (os, rest) \<Rightarrow> ([os ! 0 * 256 + os ! 1, os ! 2 * 256 + os ! 3], True, rest)
    | None \<Rightarrow> (case read_number 16 4 True 65536 s of None \<Rightarrow> ([], False, s) | Some (g, rest) \<Rightarrow> ([g], False, rest)))" for k
  proof (cases "read_number 16 4 True 65536 s")
    case None
    then show ?thesis by (simp add: read_separated_def split: option.splits)
  next
    case (Some gr)
    obtain g rest where gr: "gr = (g, rest)" by (cases gr)
    with Some n read_number_rest have "CHR '':'' \<notin> set rest" by blast
    then have "read_groups k 8 (Suc 0) rest = ([], False, rest)" by (rule more)
    with Some gr show ?thesis by (simp add: read_separated_def split: option.splits)
  qed
  have "CHR '':'' \<in> set t" if "strip_prefix t ''::'' = Some u" for t u
    using that by (auto simp: strip_prefix_Some)
  then show ?thesis
    using n one [of 7] read_number_rest [of 16 4 True 65536 s]
    by (fastforce simp: read_ipv6_addr_def split: option.splits prod.splits)
qed

lemma literal_without_colon:
  assumes "parse_ip_literal s = Some a" "CHR '':'' \<notin> set s"
  shows "\<exists>w x y z. a = V4 w x y z"
proof -
  have t: "set (str_trim s) \<subseteq> set s"
  proof
    fix c assume "c \<in> set (str_trim s)"
    then have "c \<in> set (concat (utf8_chars s))"
      by (auto simp: str_trim_def dest!: set_dropWhileD)
    then show "c \<in> set s" by (simp add: concat_utf8_chars)
  qed
  have p: "parse_ip_addr t = Some b \<Longrightarrow> CHR '':'' \<notin> set t \<Longrightarrow> \<exists>w x y z. b = V4 w x y z" for t b
    by (auto simp: parse_ip_addr_def read_ipv6_needs_colon octets_addr_def split: option.splits if_splits)
  have f: "parse_ipv4_literal t = Some b \<Longrightarrow> \<exists>w x y z. b = V4 w x y z" for t b
    by (auto simp: parse_ipv4_literal_def octets_addr_def Let_def split: if_splits)
  let ?b = "case Option.bind (strip_prefix (str_trim s) ''['') (\<lambda>inner. strip_suffix inner '']'') of
      None \<Rightarrow> str_trim s | Some b \<Rightarrow> b"
  have "set ?b \<subseteq> set (str_trim s)"
    by (auto simp: strip_prefix_Some strip_suffix_Some bind_eq_Some_conv split: option.splits)
  with t assms(2) have "CHR '':'' \<notin> set ?b" "CHR '':'' \<notin> set (str_trim s)" by auto
  with assms(1) p [of ?b] f [of "str_trim s"] show ?thesis
    by (auto simp: parse_ip_literal_def Let_def split: option.splits if_splits)
qed

section \<open>Integer encodings\<close>

definition ipv4_of_value :: "nat \<Rightarrow> ip_addr" where
  "ipv4_of_value v = octets_addr (u32_be_octets v)"

text \<open>The ranges a literal must never reach, as prefixes of 32-bit values.\<close>

definition internal_ipv4 :: "nat \<Rightarrow> bool" where
  "internal_ipv4 v \<longleftrightarrow> v div 2 ^ 24 \<in> {0, 10, 127} \<or> v div 2 ^ 16 = 169 * 256 + 254
     \<or> v div 2 ^ 16 = 192 * 256 + 168 \<or> v div 2 ^ 20 = 172 * 16 + 1 \<or> v div 2 ^ 22 = 100 * 4 + 1
     \<or> v div 2 ^ 28 = 14"

lemma ipv4_of_value_octets:
  "ipv4_of_value v = V4 (of_nat (v div 2 ^ 24)) (of_nat (v div 2 ^ 16)) (of_nat (v div 2 ^ 8)) (of_nat v)"
proof -
  have "u32_be_octets v = [of_nat (v div 2 ^ 24), of_nat (v div 2 ^ 16), of_nat (v div 2 ^ 8), of_nat v]"
    by (simp add: u32_be_octets_def upt_rec)
  then show ?thesis by (simp add: ipv4_of_value_def octets_addr_def)
qed

lemma integer_literal_value:
  assumes "parse_ip_number s = Some v" "CHR ''.'' \<notin> set s" "CHR '':'' \<notin> set s" "str_trim s = s" "s \<noteq> []"
  shows "parse_ip_literal s = Some (ipv4_of_value v)"
proof -
  have "parse_ipv4_literal s = Some (ipv4_of_value v)"
    using assms by (simp add: parse_ipv4_literal_def split_on_no_sep ipv4_of_value_def)
  with assms show ?thesis by (simp add: parse_ip_literal_def)
qed

lemma shared_address_octet: "64 \<le> q \<Longrightarrow> q < 128 \<Longrightarrow> (of_nat q :: u8) AND 0xC0 = 64"
proof -
  assume "64 \<le> q" "q < 128"
  then have "q \<in> set [64..<128]" by (simp only: set_upt atLeastLessThan_iff)
  moreover have "list_all (\<lambda>q. (of_nat q :: u8) AND 0xC0 = 64) [64..<128]" by code_simp
  ultimately show ?thesis unfolding list_all_iff by blast
qed

lemma blocked_octets:
  assumes "p < 256" "q < 256"
    and "p \<in> {0, 10, 127, 169, 192} \<or> (p = 172 \<and> 16 \<le> q \<and> q \<le> 31) \<or> (p = 100 \<and> 64 \<le> q \<and> q < 128)
      \<or> (224 \<le> p \<and> p \<le> 239)"
  shows "is_blocked_address (V4 (of_nat p) (of_nat q) c d)"
proof -
  have p: "224 \<le> p \<and> p \<le> 239 \<Longrightarrow> 224 \<le> (of_nat p :: u8) \<and> (of_nat p :: u8) \<le> 239"
    using assms(1) by (simp add: word_le_nat_alt unat_of_nat)
  have q: "16 \<le> q \<and> q \<le> 31 \<Longrightarrow> 16 \<le> (of_nat q :: u8) \<and> (of_nat q :: u8) \<le> 31"
    using assms(2) by (simp add: word_le_nat_alt unat_of_nat)
  consider "p = 0" | "p = 10" | "p = 127" | "p = 169" | "p = 192" | "p = 172" "16 \<le> q \<and> q \<le> 31"
    | "p = 100" "64 \<le> q" "q < 128" | "224 \<le> p \<and> p \<le> 239"
    using assms(3) by blast
  then show ?thesis
    by cases (simp_all add: p q shared_address_octet)
qed

lemma internal_prefix:
  fixes w :: nat
  assumes "w < 65536" and "w div 256 \<in> {0, 10, 127} \<or> w = 43518 \<or> w = 49320
      \<or> w div 16 = 2753 \<or> w div 64 = 401 \<or> w div 4096 = 14"
  shows "w div 256 \<in> {0, 10, 127, 169, 192} \<or> (w div 256 = 172 \<and> 16 \<le> w mod 256 \<and> w mod 256 \<le> 31)
      \<or> (w div 256 = 100 \<and> 64 \<le> w mod 256 \<and> w mod 256 < 128) \<or> (224 \<le> w div 256 \<and> w div 256 \<le> 239)"
proof -
  consider "w div 256 \<in> {0, 10, 127}" | "w = 43518" | "w = 49320" | "w div 16 = 2753" | "w div 64 = 401" | "w div 4096 = 14"
    using assms(2) by blast
  then show ?thesis
  proof cases
    case 1
    then show ?thesis by blast
  next
    case 4
    then have b: "44048 \<le> w" "w < 44064"
      using div_mult_mod_eq [of w 16] mod_less_divisor [of 16 w] by linarith+
    then have d: "w div 256 = 172" by (intro div_nat_eqI) simp_all
    then have "w mod 256 = w - 44032" by (simp add: minus_div_mult_eq_mod [symmetric])
    with b d have "w div 256 = 172 \<and> 16 \<le> w mod 256 \<and> w mod 256 \<le> 31" by (intro conjI) linarith+
    then show ?thesis by blast
  next
    case 5
    then have b: "25664 \<le> w" "w < 25728"
      using div_mult_mod_eq [of w 64] mod_less_divisor [of 64 w] by linarith+
    then have d: "w div 256 = 100" by (intro div_nat_eqI) simp_all
    then have "w mod 256 = w - 25600" by (simp add: minus_div_mult_eq_mod [symmetric])
    with b d have "w div 256 = 100 \<and> 64 \<le> w mod 256 \<and> w mod 256 < 128" by (intro conjI) linarith+
    then show ?thesis by blast
  next
    case 6
    then have "57344 \<le> w" "w < 61440"
      using div_mult_mod_eq [of w 4096] mod_less_divisor [of 4096 w] by linarith+
    then have "224 \<le> w div 256" "w div 256 < 240"
      by (simp_all add: less_eq_div_iff_mult_less_eq div_less_iff_less_mult)
    then have "224 \<le> w div 256 \<and> w div 256 \<le> 239" by simp
    then show ?thesis by blast
  qed simp_all
qed

lemma internal_ipv4_blocked:
  assumes "v < 2 ^ 32" "internal_ipv4 v"
  shows "is_blocked_address (ipv4_of_value v)"
proof -
  define w where "w = v div 2 ^ 16"
  have d: "v div 2 ^ 24 = w div 256" "v div 2 ^ 20 = w div 16" "v div 2 ^ 22 = w div 64" "v div 2 ^ 28 = w div 4096"
    by (simp_all add: w_def div_mult2_eq [symmetric])
  have w: "w < 65536" using assms(1) by (simp add: w_def less_mult_imp_div_less)
  have "w div 256 \<in> {0, 10, 127} \<or> w = 43518 \<or> w = 49320
      \<or> w div 16 = 2753 \<or> w div 64 = 401 \<or> w div 4096 = 14"
    using assms(2) unfolding internal_ipv4_def d w_def [symmetric] by simp
  then have i: "is_blocked_address (V4 (of_nat (w div 256)) (of_nat (w mod 256)) (of_nat (v div 2 ^ 8)) (of_nat v))"
    using w by (intro blocked_octets internal_prefix) (simp_all add: less_mult_imp_div_less)
  have "(of_nat (w mod 256) :: u8) = of_nat w"
    by (rule word_unat_eq_iff [THEN iffD2]) (simp add: unat_of_nat)
  with i show ?thesis unfolding ipv4_of_value_octets d w_def [symmetric] by simp
qed

text \<open>A string that reads as a number has no whitespace to trim.\<close>

definition number_char :: "char \<Rightarrow> bool" where
  "number_char c \<longleftrightarrow> to_digit 16 c \<noteq> None \<or> c \<in> {CHR ''+'', CHR ''x'', CHR ''X''}"

lemma number_char_plain: "number_char c \<Longrightarrow> byte c < 128 \<and> \<not> is_whitespace [c]"
proof -
  have "list_all (\<lambda>c. number_char c \<longrightarrow> byte c < 128 \<and> \<not> is_whitespace [c]) Enum.enum" by code_simp
  then show "number_char c \<Longrightarrow> ?thesis" unfolding list_all_iff by (simp add: enum_UNIV)
qed

lemma digits_value_chars: "radix \<le> 16 \<Longrightarrow> digits_value radix acc s = Some v \<Longrightarrow> list_all number_char s"
proof (induction radix acc s rule: digits_value.induct)
  case (2 radix acc c cs)
  have "to_digit radix c \<noteq> None \<Longrightarrow> to_digit 16 c \<noteq> None"
    using 2(2) by (auto simp: to_digit_def Let_def split: if_splits)
  with 2 show ?case by (auto simp: number_char_def split: option.splits if_splits)
qed simp

lemma u32_from_str_radix_chars: "radix \<le> 16 \<Longrightarrow> u32_from_str_radix radix s = Some v \<Longrightarrow> list_all number_char s \<and> s \<noteq> []"
  by (auto simp: u32_from_str_radix_def number_char_def simp del: digits_value.simps
      dest: digits_value_chars split: list.splits if_splits)

lemma parse_ip_number_chars: "parse_ip_number s = Some v \<Longrightarrow> list_all number_char s \<and> s \<noteq> []"
proof -
  have zero: "number_char (CHR ''0'')" "number_char (CHR ''x'')" "number_char (CHR ''X'')" by code_simp+
  have lead: "list_all number_char s \<and> s \<noteq> []" if "length s > 1" "starts_with s ''0''" "list_all number_char (drop 1 s)"
    using that zero by (cases s) (auto simp: starts_with_def prefix_def)
  assume p: "parse_ip_number s = Some v"
  show ?thesis
  proof (cases "case strip_prefix s ''0x'' of None \<Rightarrow> strip_prefix s ''0X'' | Some h \<Rightarrow> Some h")
    case None
    with p lead u32_from_str_radix_chars [of 8] u32_from_str_radix_chars [of 10] show ?thesis
      by (auto simp: parse_ip_number_def split: if_splits)
  next
    case (Some hex)
    then have "s = ''0x'' @ hex \<or> s = ''0X'' @ hex"
      by (auto simp: strip_prefix_Some split: option.splits)
    moreover have "list_all number_char hex"
      using p Some u32_from_str_radix_chars [of 16 hex] by (simp add: parse_ip_number_def)
    ultimately show ?thesis using zero by auto
  qed
qed

lemma number_untrimmed: "list_all number_char s \<Longrightarrow> str_trim s = s"
proof (rule str_trim_id)
  assume n: "list_all number_char s"
  then have "list_all (\<lambda>c. byte c < 128) s" "list_all (\<lambda>c. \<not> is_whitespace [c]) s"
    by (auto simp: list_all_iff number_char_plain)
  then show "utf8_chars s = [] \<or> \<not> is_whitespace (hd (utf8_chars s)) \<and> \<not> is_whitespace (last (utf8_chars s))"
    by (cases "s = []") (auto simp: utf8_chars_ascii list_all_iff hd_map last_map)
qed

lemma integer_host_denied:
  assumes "parse_ip_number (canonical_host h) = Some v" "CHR ''.'' \<notin> set (canonical_host h)"
  shows "parse_ip_literal (canonical_host h) = Some (ipv4_of_value v)"
  using assms parse_ip_number_chars [OF assms(1)] canonical_host_chars [of "CHR '':''" h]
  by (intro integer_literal_value number_untrimmed) auto

section \<open>Properties\<close>

definition sample_rules :: "egress_rule list" where
  "sample_rules = [\<lparr>eg_purpose = ''model'', eg_destinations = [Domain ''a.io'' True, IpLiteral ''8.8.8.8''],
     eg_schemes = [''https''], eg_max_data_class = Public, eg_redirect = RedirectSameHost,
     eg_allow_ip_literals = True\<rparr>]"

definition sample_egress :: "egress_engine" where
  "sample_egress = \<lparr>ee_rules = sample_rules, ee_snapshot_id = ''s'', ee_sequence = 1\<rparr>"

definition sample_call :: "string \<Rightarrow> egress_request" where
  "sample_call host = \<lparr>er_purpose = ''model'', er_scheme = ''https'', er_host = host, er_port = 443,
     er_data_class = Public, er_taints = [], er_credential_ref = None, er_payload_len = 0\<rparr>"

lemma sample_authorized:
  "ed_authorization (authorize (\<lambda>_. []) sample_egress (sample_call ''API.a.io.'')) =
     Some \<lparr>ea_authorization_id = ''sha256:'', ea_purpose = ''model'', ea_host = ''api.a.io'', ea_port = 443,
       ea_allowed_addresses = []\<rparr>"
  by code_simp

text \<open>
  C12: the whole path of a connection. When a request was authorised, its resolution
  accepted and the connection then verified, the address connected to is one of the
  resolved ones, none of which is in a blocked range; host and port are those of the
  request; and a rule of the engine for the request's purpose admits the scheme, the data
  class, the taints and the host.
\<close>

theorem connection_confined:
  assumes "ed_authorization (authorize H e r) = Some auth"
    and "validate_resolution H e auth host addresses = Ok pinned"
    and "ed_reason (verify_connection H e pinned host2 port a) = EgAllow"
  shows "a \<in> set addresses \<and> (\<forall>b \<in> set addresses. \<not> is_blocked_address b)
    \<and> canonical_host host2 = canonical_host (er_host r) \<and> canonical_host host = canonical_host (er_host r)
    \<and> port = er_port r
    \<and> (\<exists>rule \<in> set (ee_rules e). rule_admits rule r
         \<and> host_admitted rule (canonical_host (er_host r)) (ea_allowed_addresses auth))"
  using authorize_authorization [OF assms(1)] assms(2,3)
  by (auto simp: validate_resolution_Ok verify_connection_Allow list_ex_iff)

theorem connection_confined_witness:
  "V4 93 184 216 34 \<in> set [V4 93 184 216 34] \<and> canonical_host ''api.a.io'' = canonical_host ''API.a.io.''"
proof -
  let ?auth = "\<lparr>ea_authorization_id = ''sha256:'', ea_purpose = ''model'', ea_host = ''api.a.io'',
    ea_port = (443 :: u16), ea_allowed_addresses = []\<rparr>"
  let ?pinned = "?auth\<lparr>ea_allowed_addresses := [V4 93 184 216 34]\<rparr>"
  have h: "canonical_host ''api.a.io'' = ''api.a.io''" "\<not> is_blocked_address (V4 93 184 216 34)" by code_simp+
  have v: "validate_resolution (\<lambda>_. []) sample_egress ?auth ''api.a.io'' [V4 93 184 216 34] = Ok ?pinned"
    by (simp add: validate_resolution_Ok h del: is_blocked_address.simps)
  have c: "ed_reason (verify_connection (\<lambda>_. []) sample_egress ?pinned ''api.a.io'' 443 (V4 93 184 216 34)) = EgAllow"
    by (simp add: verify_connection_Allow h del: is_blocked_address.simps)
  show ?thesis
    using connection_confined [OF sample_authorized v c] by (simp add: sample_call_def)
qed

text \<open>
  internal addresses stay out of reach in every integer notation. A host that reads as
  one number, decimal, octal or hexadecimal, whose 32-bit value lies in a loopback,
  private, link-local, shared, multicast or zero range is never authorised, whatever the
  rules say; and no literal of any notation that denotes a blocked address is.
\<close>

theorem internal_literals_denied:
  "(parse_ip_number (canonical_host (er_host r)) = Some v \<and> CHR ''.'' \<notin> set (canonical_host (er_host r))
     \<and> internal_ipv4 v \<longrightarrow> ed_reason (authorize H e r) \<noteq> EgAllow)
   \<and> (parse_ip_literal (canonical_host (er_host r)) = Some a \<and> is_blocked_address a
     \<longrightarrow> ed_reason (authorize H e r) \<noteq> EgAllow)"
proof -
  have lit: "ed_reason (authorize H e r) \<noteq> EgAllow"
    if "parse_ip_literal (canonical_host (er_host r)) = Some b" "is_blocked_address b" for b
    using that by (simp add: authorize_Allow host_admitted_def)
  moreover have "is_blocked_address (ipv4_of_value v)"
    if "parse_ip_number (canonical_host (er_host r)) = Some v" "internal_ipv4 v"
    using that parse_ip_number_bound by (intro internal_ipv4_blocked) auto
  ultimately show ?thesis using integer_host_denied by blast
qed

theorem internal_literals_denied_witness:
  "ed_reason (authorize id sample_egress (sample_call ''0x7F000001'')) \<noteq> EgAllow"
proof -
  have "parse_ip_number (canonical_host ''0x7F000001'') = Some 2130706433 \<and> CHR ''.'' \<notin> set (canonical_host ''0x7F000001'')"
    by code_simp
  moreover have "internal_ipv4 2130706433" by (simp add: internal_ipv4_def)
  ultimately show ?thesis
    using internal_literals_denied [where H = id and r = "sample_call ''0x7F000001''" and v = 2130706433] by (simp add: sample_call_def)
qed

text \<open>
  The canonical host never holds a colon, so the literals that reach a rule are IPv4 only;
  the IPv6 entry of the metadata list can never match.
\<close>

lemma ipv6_literal_never_pinned:
  assumes "ed_authorization (authorize H e r) = Some auth" "b \<in> set (ea_allowed_addresses auth)"
  shows "\<exists>w x y z. b = V4 w x y z"
proof -
  from authorize_authorization [OF assms(1)] obtain rule
    where "host_admitted rule (canonical_host (er_host r)) (ea_allowed_addresses auth)" by metis
  with assms(2) literal_without_colon canonical_host_chars [of "CHR '':''"] show ?thesis
    by (fastforce simp: host_admitted_def split: option.splits)
qed

lemma ipv6_metadata_unreachable: "canonical_host h \<noteq> ''fd00:ec2::254''"
proof
  assume "canonical_host h = ''fd00:ec2::254''"
  then have "CHR '':'' \<in> set (canonical_host h)" by simp
  then show False using canonical_host_chars by blast
qed

text \<open>
  Two gaps of the range checks: a resolved IPv4-mapped IPv6 address of the loopback range is
  pinned, because \<open>is_blocked_address\<close> does not unmap it; and an authorisation whose
  resolution was never validated is accepted for any unblocked address.
\<close>

lemma mapped_loopback_is_pinned:
  "validate_resolution H e auth (ea_host auth) [V6 0 0 0 0 0 0xFFFF 0x7F00 1] =
     (if ea_host auth = canonical_host (ea_host auth)
      then Ok (auth\<lparr>ea_allowed_addresses := [V6 0 0 0 0 0 0xFFFF 0x7F00 1]\<rparr>)
      else validate_resolution H e auth (ea_host auth) [])
   \<and> map_option is_loopback (to_ipv4_mapped (V6 0 0 0 0 0 0xFFFF 0x7F00 1)) = Some True"
proof -
  have "\<not> is_blocked_address (V6 0 0 0 0 0 0xFFFF 0x7F00 1)"
    "map_option is_loopback (to_ipv4_mapped (V6 0 0 0 0 0 0xFFFF 0x7F00 1)) = Some True" by code_simp+
  then show ?thesis by (simp add: validate_resolution_def Let_def del: is_blocked_address.simps to_ipv4_mapped.simps)
qed

lemma unresolved_authorization_connects:
  "ea_allowed_addresses auth = [] \<Longrightarrow> \<not> is_blocked_address a \<Longrightarrow> ea_host auth = canonical_host host \<Longrightarrow>
     ed_reason (verify_connection H e auth host (ea_port auth) a) = EgAllow"
  by (simp add: verify_connection_Allow del: is_blocked_address.simps)

end
