(* ===== verification/SandboxPlan.thy ===== *)
theory SandboxPlan
  imports Prelude
begin

text \<open>
  Sandbox plans (\<open>crates/sandbox/src/plan.rs\<close>) and the child environment
  (\<open>environment.rs\<close>): realms and their requirements, mounts, budgets, network posture and
  command, the total validation of a plan, and the construction of the environment a child
  receives. The JSON encoding of a plan (\<open>enc\<close>) and SHA-256 (\<open>H\<close>) are parameters; host
  paths are Unix paths, and \<open>usize\<close> is 64 bits wide.
\<close>

section \<open>Realms\<close>

datatype plan_error =
    UnsupportedVersion | RealmViolation | InvalidMount | MountConflict | InvalidEnvironment
  | InvalidBudget | InvalidCommand | InvalidNetwork

fun plan_error_str :: "plan_error \<Rightarrow> string" where
  "plan_error_str UnsupportedVersion = ''unsupported_version''"
| "plan_error_str RealmViolation = ''realm_violation''"
| "plan_error_str InvalidMount = ''invalid_mount''"
| "plan_error_str MountConflict = ''mount_conflict''"
| "plan_error_str InvalidEnvironment = ''invalid_environment''"
| "plan_error_str InvalidBudget = ''invalid_budget''"
| "plan_error_str InvalidCommand = ''invalid_command''"
| "plan_error_str InvalidNetwork = ''invalid_network''"

datatype realm = S0Pure | S1GuardedRead | S2IsolatedReadOnly | S3IsolatedOverlay | S4EgressMediated

fun realm_rank :: "realm \<Rightarrow> nat" where
  "realm_rank S0Pure = 0"
| "realm_rank S1GuardedRead = 1"
| "realm_rank S2IsolatedReadOnly = 2"
| "realm_rank S3IsolatedOverlay = 3"
| "realm_rank S4EgressMediated = 4"

lemma realm_rank_inj: "realm_rank r = realm_rank s \<Longrightarrow> r = s"
  by (cases r; cases s) simp_all

instantiation realm :: linorder
begin

definition less_eq_realm :: "realm \<Rightarrow> realm \<Rightarrow> bool" where
  "less_eq_realm r s \<longleftrightarrow> realm_rank r \<le> realm_rank s"

definition less_realm :: "realm \<Rightarrow> realm \<Rightarrow> bool" where
  "less_realm r s \<longleftrightarrow> realm_rank r < realm_rank s"

instance
  by standard (auto simp: less_eq_realm_def less_realm_def intro: realm_rank_inj)

end

fun realm_as_str :: "realm \<Rightarrow> string" where
  "realm_as_str S0Pure = ''s0_pure''"
| "realm_as_str S1GuardedRead = ''s1_guarded_read''"
| "realm_as_str S2IsolatedReadOnly = ''s2_isolated_read_only''"
| "realm_as_str S3IsolatedOverlay = ''s3_isolated_overlay''"
| "realm_as_str S4EgressMediated = ''s4_egress_mediated''"

definition realm_ladder :: "string list" where
  "realm_ladder = map realm_as_str
     [S0Pure, S1GuardedRead, S2IsolatedReadOnly, S3IsolatedOverlay, S4EgressMediated]"

datatype fs_requirement = FsNone | GuardedRead | ConfinedReadOnly | ConfinedOverlay
datatype net_requirement = NetNone | NetDenied | NetEgressMediated
datatype exec_requirement = ExecForbidden | InCore | Child

record realm_requirements =
  rr_filesystem :: fs_requirement
  rr_network :: net_requirement
  rr_execution :: exec_requirement

fun requirements :: "realm \<Rightarrow> realm_requirements" where
  "requirements S0Pure = \<lparr>rr_filesystem = FsNone, rr_network = NetNone, rr_execution = InCore\<rparr>"
| "requirements S1GuardedRead = \<lparr>rr_filesystem = GuardedRead, rr_network = NetNone, rr_execution = InCore\<rparr>"
| "requirements S2IsolatedReadOnly =
     \<lparr>rr_filesystem = ConfinedReadOnly, rr_network = NetDenied, rr_execution = Child\<rparr>"
| "requirements S3IsolatedOverlay =
     \<lparr>rr_filesystem = ConfinedOverlay, rr_network = NetDenied, rr_execution = Child\<rparr>"
| "requirements S4EgressMediated =
     \<lparr>rr_filesystem = ConfinedOverlay, rr_network = NetEgressMediated, rr_execution = Child\<rparr>"

section \<open>Plans\<close>

datatype mount_source =
    WorkspaceMount string | OverlayMount string | SystemTools string | Temporary

fun is_overlay :: "mount_source \<Rightarrow> bool" where
  "is_overlay (OverlayMount _) = True"
| "is_overlay _ = False"

fun is_workspace :: "mount_source \<Rightarrow> bool" where
  "is_workspace (WorkspaceMount _) = True"
| "is_workspace _ = False"

definition inherent_writability :: "mount_source \<Rightarrow> bool" where
  "inherent_writability s = (case s of OverlayMount _ \<Rightarrow> True | Temporary \<Rightarrow> True | _ \<Rightarrow> False)"

record mount_spec =
  mo_target :: string
  mo_source :: mount_source
  mo_writable :: bool
  mo_executable :: bool

record env_spec =
  es_allow :: "(string, string) btree"
  es_lease_channels :: "string list"

record budget_spec =
  bu_wall_clock_ms :: u64
  bu_max_output_bytes :: u64
  bu_max_stdin_bytes :: u64

definition default_budget :: budget_spec where
  "default_budget = \<lparr>bu_wall_clock_ms = 30000, bu_max_output_bytes = push_bit 20 1,
     bu_max_stdin_bytes = push_bit 16 1\<rparr>"

datatype network_spec = NetworkDenied | Mediated string

record command_spec =
  co_argv :: "string list"
  co_cwd :: string
  co_stdin :: "string option"

record sandbox_plan =
  sp_version :: u32
  sp_workspace_id :: string
  sp_realm :: realm
  sp_mounts :: "mount_spec list"
  sp_env :: env_spec
  sp_budget :: budget_spec
  sp_network :: network_spec
  sp_command :: "command_spec option"

record validated_plan =
  vp_plan :: sandbox_plan
  vp_digest :: string
  vp_requirements :: realm_requirements

section \<open>Helper predicates\<close>

definition NUL :: char where "NUL = CHR 0x00"

definition valid_mount_target :: "string \<Rightarrow> bool" where
  "valid_mount_target t \<longleftrightarrow> t \<noteq> [] \<and> NUL \<notin> set t \<and> CHR 0x5C \<notin> set t \<and> \<not> starts_with t ''/''
     \<and> \<not> list_ex (\<lambda>s. s = [] \<or> s = ''.'' \<or> s = ''..'') (split_on (CHR ''/'') t)"

definition target_conflict :: "string \<Rightarrow> string \<Rightarrow> bool \<Rightarrow> bool \<Rightarrow> bool" where
  "target_conflict first second first_writable second_writable \<longleftrightarrow>
     first = second \<or> ((starts_with second (first @ ''/'') \<or> starts_with first (second @ ''/''))
        \<and> first_writable \<noteq> second_writable)"

definition is_alpha_byte :: "char \<Rightarrow> bool" where
  "is_alpha_byte c \<longleftrightarrow> is_lower_byte c \<or> is_upper_byte c"

definition valid_env_key :: "string \<Rightarrow> bool" where
  "valid_env_key k \<longleftrightarrow> k \<noteq> [] \<and> length k \<le> 64 \<and> (is_alpha_byte (hd k) \<or> hd k = CHR ''_'')
     \<and> list_all (\<lambda>c. is_alnum_byte c \<or> c = CHR ''_'') k"

definition valid_plan_purpose :: "string \<Rightarrow> bool" where
  "valid_plan_purpose p \<longleftrightarrow> list_all (\<lambda>c. is_lower_byte c \<or> is_digit_byte c \<or> c = CHR ''-'') p"

definition path_within_executable_mount :: "string \<Rightarrow> mount_spec list \<Rightarrow> bool" where
  "path_within_executable_mount realm_path mounts =
     list_ex (\<lambda>m. mo_executable m \<and> starts_with realm_path (''/'' @ mo_target m @ ''/'')) mounts"

definition path_value_confined :: "string \<Rightarrow> mount_spec list \<Rightarrow> bool" where
  "path_value_confined value mounts =
     list_all (\<lambda>e. starts_with e ''/'' \<and> path_within_executable_mount e mounts) (split_on (CHR '':'') value)"

text \<open>
  \<open>Path::is_absolute\<close> and \<open>Path::components\<close> on Unix: the root, then the segments, with
  empty and current-directory segments dropped (a leading one of a relative path kept).
\<close>

datatype path_component = RootDir | CurDir | ParentDir | Normal string

definition segment_component :: "string \<Rightarrow> path_component" where
  "segment_component s = (if s = ''..'' then ParentDir else Normal s)"

definition path_components :: "string \<Rightarrow> path_component list" where
  "path_components p =
     (let segs = split_on (CHR ''/'') p;
          kept = map segment_component (filter (\<lambda>s. s \<noteq> [] \<and> s \<noteq> ''.'') segs)
      in if starts_with p ''/'' then RootDir # kept
         else if hd segs = ''.'' then CurDir # kept else kept)"

definition path_is_absolute :: "string \<Rightarrow> bool" where
  "path_is_absolute p = starts_with p ''/''"

fun source_host_path :: "mount_source \<Rightarrow> string option" where
  "source_host_path (WorkspaceMount h) = Some h"
| "source_host_path (OverlayMount h) = Some h"
| "source_host_path (SystemTools h) = Some h"
| "source_host_path Temporary = None"

section \<open>Environment keys\<close>

definition SENSITIVE_ENV_KEYS :: "string list" where
  "SENSITIVE_ENV_KEYS = [''HOME'', ''USER'', ''LOGNAME'', ''SHELL'', ''SSH_AUTH_SOCK'', ''SSH_AGENT_PID'',
     ''GPG_TTY'', ''GPG_AGENT_INFO'', ''KRB5CCNAME'', ''DBUS_SESSION_BUS_ADDRESS'', ''XDG_RUNTIME_DIR'',
     ''XDG_CONFIG_HOME'', ''CLOUDSDK_CONFIG'', ''AWS_PROFILE'', ''AZURE_CONFIG_DIR'', ''SUDO_ASKPASS'']"

definition SENSITIVE_SUBSTRINGS :: "string list" where
  "SENSITIVE_SUBSTRINGS = [''TOKEN'', ''SECRET'', ''PASSWORD'', ''PASSWD'', ''CREDENTIAL'', ''PRIVATE_KEY'',
     ''ACCESS_KEY'', ''API_KEY'']"

definition is_reserved_env_key :: "string \<Rightarrow> bool" where
  "is_reserved_env_key key \<longleftrightarrow> key \<in> set SENSITIVE_ENV_KEYS"

definition ascii_upper_char :: "char \<Rightarrow> char" where
  "ascii_upper_char c = (if is_lower_byte c then char_of (byte c - 32) else c)"

definition is_sensitive_key :: "string \<Rightarrow> bool" where
  "is_sensitive_key key \<longleftrightarrow> is_reserved_env_key key
     \<or> list_ex (\<lambda>needle. str_contains (map ascii_upper_char key) needle) SENSITIVE_SUBSTRINGS"

section \<open>Validation\<close>

text \<open>The body of the mount loop, with the targets seen and the overlays counted so far.\<close>

definition mount_executable_ok :: "mount_spec \<Rightarrow> bool" where
  "mount_executable_ok m =
     (case mo_source m of
        WorkspaceMount _ \<Rightarrow> True
      | OverlayMount _ \<Rightarrow> \<not> mo_executable m
      | Temporary \<Rightarrow> \<not> mo_executable m
      | SystemTools _ \<Rightarrow> mo_executable m)"

definition host_path_bad :: "mount_source \<Rightarrow> bool" where
  "host_path_bad s =
     (case source_host_path s of
        None \<Rightarrow> False
      | Some h \<Rightarrow> \<not> path_is_absolute h \<or> length (path_components h) < 2)"

fun validate_mount_loop :: "(string \<times> bool) list \<Rightarrow> nat \<Rightarrow> mount_spec list \<Rightarrow> plan_error + nat" where
  "validate_mount_loop seen overlay_count [] = Ok overlay_count"
| "validate_mount_loop seen overlay_count (m # ms) =
     (if \<not> valid_mount_target (mo_target m) then Err InvalidMount
      else if mo_writable m \<noteq> inherent_writability (mo_source m) then Err InvalidMount
      else if \<not> mount_executable_ok m then Err InvalidMount
      else if host_path_bad (mo_source m) then Err InvalidMount
      else if list_ex (\<lambda>(t, w). target_conflict t (mo_target m) w (mo_writable m)) seen then Err MountConflict
      else validate_mount_loop (seen @ [(mo_target m, mo_writable m)])
             (if is_overlay (mo_source m) then overlay_count + 1 else overlay_count) ms)"

definition validate_mounts :: "sandbox_plan \<Rightarrow> realm_requirements \<Rightarrow> plan_error + unit" where
  "validate_mounts self req =
     (case validate_mount_loop [] 0 (sp_mounts self) of
        Err e \<Rightarrow> Err e
      | Ok overlay_count \<Rightarrow>
          (case rr_filesystem req of
             FsNone \<Rightarrow> if sp_mounts self \<noteq> [] then Err RealmViolation else Ok ()
           | GuardedRead \<Rightarrow>
               if list_ex (\<lambda>m. \<not> is_workspace (mo_source m)) (sp_mounts self) then Err RealmViolation else Ok ()
           | ConfinedReadOnly \<Rightarrow> if overlay_count \<noteq> 0 then Err RealmViolation else Ok ()
           | ConfinedOverlay \<Rightarrow> if overlay_count = 0 then Err RealmViolation else Ok ()))"

definition bad_env_entry :: "mount_spec list \<Rightarrow> string \<times> string \<Rightarrow> bool" where
  "bad_env_entry mounts = (\<lambda>(key, value). \<not> valid_env_key key \<or> is_sensitive_key key \<or> NUL \<in> set value
     \<or> (key = ''PATH'' \<and> \<not> path_value_confined value mounts))"

definition bad_channel :: "env_spec \<Rightarrow> string \<Rightarrow> bool" where
  "bad_channel env channel \<longleftrightarrow> \<not> valid_env_key channel \<or> is_reserved_env_key channel
     \<or> bt_get (es_allow env) channel \<noteq> None"

definition validate_environment :: "sandbox_plan \<Rightarrow> plan_error + unit" where
  "validate_environment self =
     (if list_ex (bad_env_entry (sp_mounts self)) (es_allow (sp_env self)) then Err InvalidEnvironment
      else if list_ex (bad_channel (sp_env self)) (es_lease_channels (sp_env self)) then Err InvalidEnvironment
      else Ok ())"

definition validate_budget :: "sandbox_plan \<Rightarrow> plan_error + unit" where
  "validate_budget self =
     (let b = sp_budget self in
      if bu_wall_clock_ms b = 0 \<or> bu_wall_clock_ms b > 3600000 \<or> bu_max_output_bytes b = 0
         \<or> bu_max_output_bytes b > push_bit 20 64 \<or> bu_max_stdin_bytes b > push_bit 20 1
      then Err InvalidBudget else Ok ())"

definition validate_network :: "sandbox_plan \<Rightarrow> realm_requirements \<Rightarrow> plan_error + unit" where
  "validate_network self req =
     (case sp_network self of
        NetworkDenied \<Rightarrow> if rr_network req = NetNone \<or> rr_network req = NetDenied then Ok () else Err InvalidNetwork
      | Mediated purpose \<Rightarrow>
          if rr_network req = NetEgressMediated
          then (if purpose = [] \<or> length purpose > 64 \<or> \<not> valid_plan_purpose purpose then Err InvalidNetwork else Ok ())
          else Err InvalidNetwork)"

definition validate_command :: "sandbox_plan \<Rightarrow> realm_requirements \<Rightarrow> plan_error + unit" where
  "validate_command self req =
     (case sp_command self of
        None \<Rightarrow> if rr_execution req = Child then Err RealmViolation else Ok ()
      | Some command \<Rightarrow>
          if rr_execution req \<noteq> Child then Err RealmViolation
          else if co_argv command = [] \<or> list_ex (\<lambda>a. a = [] \<or> NUL \<in> set a) (co_argv command) then Err InvalidCommand
          else
            (let entry = hd (co_argv command) in
             if \<not> starts_with entry ''/'' \<or> \<not> path_within_executable_mount entry (sp_mounts self)
             then Err InvalidCommand
             else if \<not> starts_with (co_cwd command) ''/'' \<or> str_contains (co_cwd command) ''..''
                  \<or> NUL \<in> set (co_cwd command) then Err InvalidCommand
             else (case co_stdin command of
                     Some stdin \<Rightarrow>
                       if length stdin > unat (bu_max_stdin_bytes (sp_budget self)) then Err InvalidCommand else Ok ()
                   | None \<Rightarrow> Ok ())))"

definition plan_digest :: "(string \<Rightarrow> string) \<Rightarrow> (sandbox_plan \<Rightarrow> string option) \<Rightarrow> sandbox_plan \<Rightarrow> string" where
  "plan_digest H enc self =
     ''sha256:'' @ hex_upper (H (''saber-sandbox-plan-v1'' @ [NUL] @ (case enc self of None \<Rightarrow> [] | Some e \<Rightarrow> e)))"

definition bad_plan_header :: "sandbox_plan \<Rightarrow> bool" where
  "bad_plan_header self \<longleftrightarrow> sp_version self \<noteq> 1 \<or> sp_workspace_id self = [] \<or> length (sp_workspace_id self) > 128
     \<or> \<not> list_all (\<lambda>c. is_alnum_byte c \<or> c = CHR ''_'' \<or> c = CHR ''-'') (sp_workspace_id self)"

definition plan_validate ::
  "(string \<Rightarrow> string) \<Rightarrow> (sandbox_plan \<Rightarrow> string option) \<Rightarrow> sandbox_plan \<Rightarrow> plan_error + validated_plan" where
  "plan_validate H enc self =
     (if bad_plan_header self then Err UnsupportedVersion
      else
        (let req = requirements (sp_realm self) in
         case validate_mounts self req of Err e \<Rightarrow> Err e | Ok _ \<Rightarrow>
         (case validate_environment self of Err e \<Rightarrow> Err e | Ok _ \<Rightarrow>
         (case validate_budget self of Err e \<Rightarrow> Err e | Ok _ \<Rightarrow>
         (case validate_network self req of Err e \<Rightarrow> Err e | Ok _ \<Rightarrow>
         (case validate_command self req of Err e \<Rightarrow> Err e | Ok _ \<Rightarrow>
           Ok \<lparr>vp_plan = self, vp_digest = plan_digest H enc self, vp_requirements = req\<rparr>))))))"

section \<open>The child environment\<close>

datatype environment_error = RejectedKey | RejectedValue

fun environment_error_str :: "environment_error \<Rightarrow> string" where
  "environment_error_str RejectedKey = ''rejected_key''"
| "environment_error_str RejectedValue = ''rejected_value''"

definition path_confined :: "string \<Rightarrow> mount_spec list \<Rightarrow> bool" where
  "path_confined value mounts =
     list_all (\<lambda>e. list_ex (\<lambda>m. mo_executable m \<and> starts_with e (''/'' @ mo_target m @ ''/'')) mounts)
       (split_on (CHR '':'') value)"

definition insert_checked ::
  "(string, string) btree \<Rightarrow> string \<Rightarrow> string \<Rightarrow> mount_spec list \<Rightarrow> bool
   \<Rightarrow> environment_error + (string, string) btree" where
  "insert_checked environment key value mounts lease_channel =
     (let key_rejected = (if lease_channel then is_reserved_env_key key else is_sensitive_key key) in
      if key = [] \<or> CHR ''='' \<in> set key \<or> NUL \<in> set key \<or> key_rejected \<or> NUL \<in> set value then Err RejectedKey
      else if key = ''PATH'' \<and> \<not> path_confined value mounts then Err RejectedValue
      else Ok (bt_insert key value environment))"

fun insert_allowed ::
  "mount_spec list \<Rightarrow> (string \<times> string) list \<Rightarrow> (string, string) btree \<Rightarrow> environment_error + (string, string) btree" where
  "insert_allowed mounts [] environment = Ok environment"
| "insert_allowed mounts ((key, value) # es) environment =
     (case insert_checked environment key value mounts False of
        Err e \<Rightarrow> Err e | Ok environment' \<Rightarrow> insert_allowed mounts es environment')"

fun insert_channels ::
  "mount_spec list \<Rightarrow> (string, string) btree \<Rightarrow> string list \<Rightarrow> (string, string) btree
   \<Rightarrow> environment_error + (string, string) btree" where
  "insert_channels mounts injected [] environment = Ok environment"
| "insert_channels mounts injected (channel # cs) environment =
     (case bt_get injected channel of
        None \<Rightarrow> insert_channels mounts injected cs environment
      | Some material \<Rightarrow>
          (case insert_checked environment channel material mounts True of
             Err e \<Rightarrow> Err e | Ok environment' \<Rightarrow> insert_channels mounts injected cs environment'))"

definition build_environment ::
  "env_spec \<Rightarrow> mount_spec list \<Rightarrow> (string, string) btree \<Rightarrow> environment_error + (string, string) btree" where
  "build_environment spec mounts injected =
     (case insert_allowed mounts (es_allow spec) [] of
        Err e \<Rightarrow> Err e
      | Ok environment \<Rightarrow>
          (case insert_channels mounts injected (es_lease_channels spec) environment of
             Err e \<Rightarrow> Err e
           | Ok environment' \<Rightarrow>
               if list_ex (\<lambda>k. k \<notin> set (es_lease_channels spec)) (bt_keys injected) then Err RejectedKey
               else Ok environment'))"

definition plan_error_is_environment :: "plan_error \<Rightarrow> bool" where
  "plan_error_is_environment e \<longleftrightarrow> e = InvalidEnvironment"

section \<open>Validated plans\<close>

definition mount_good :: "mount_spec \<Rightarrow> bool" where
  "mount_good m \<longleftrightarrow> valid_mount_target (mo_target m) \<and> mo_writable m = inherent_writability (mo_source m)
     \<and> mount_executable_ok m \<and> \<not> host_path_bad (mo_source m)"

abbreviation mounts_conflict :: "mount_spec \<Rightarrow> mount_spec \<Rightarrow> bool" where
  "mounts_conflict a b \<equiv> target_conflict (mo_target a) (mo_target b) (mo_writable a) (mo_writable b)"

lemma validate_mount_loop_Ok:
  "validate_mount_loop seen k ms = Ok n \<longleftrightarrow>
     list_all mount_good ms \<and> sorted_wrt (\<lambda>a b. \<not> mounts_conflict a b) ms
     \<and> (\<forall>(t, w) \<in> set seen. \<forall>m \<in> set ms. \<not> target_conflict t (mo_target m) w (mo_writable m))
     \<and> n = k + length (filter (\<lambda>m. is_overlay (mo_source m)) ms)"
proof (induction seen k ms rule: validate_mount_loop.induct)
  case (1 seen k)
  then show ?case by auto
next
  case (2 seen k m ms)
  show ?case
  proof (cases "mount_good m \<and> \<not> list_ex (\<lambda>(t, w). target_conflict t (mo_target m) w (mo_writable m)) seen")
    case True
    then have h: "valid_mount_target (mo_target m)" "(mo_writable m \<noteq> inherent_writability (mo_source m)) = False"
      "mount_executable_ok m" "\<not> host_path_bad (mo_source m)"
      "\<not> list_ex (\<lambda>(t, w). target_conflict t (mo_target m) w (mo_writable m)) seen"
      using True unfolding mount_good_def by blast+
    then have step: "validate_mount_loop seen k (m # ms) =
        validate_mount_loop (seen @ [(mo_target m, mo_writable m)])
          (if is_overlay (mo_source m) then k + 1 else k) ms"
      by (simp only: validate_mount_loop.simps h simp_thms if_False)
    have ih: "validate_mount_loop (seen @ [(mo_target m, mo_writable m)])
        (if is_overlay (mo_source m) then k + 1 else k) ms = Ok n \<longleftrightarrow>
      list_all mount_good ms \<and> sorted_wrt (\<lambda>a b. \<not> mounts_conflict a b) ms
      \<and> (\<forall>(t, w) \<in> set (seen @ [(mo_target m, mo_writable m)]). \<forall>m \<in> set ms. \<not> target_conflict t (mo_target m) w (mo_writable m))
      \<and> n = (if is_overlay (mo_source m) then k + 1 else k) + length (filter (\<lambda>m. is_overlay (mo_source m)) ms)"
      by (rule 2) (use True [unfolded mount_good_def] in blast)+
    show ?thesis
      unfolding step ih using True by (auto simp: list_ex_iff)
  next
    case False
    then show ?thesis by (auto simp: mount_good_def list_ex_iff)
  qed
qed

lemma plan_validate_Ok:
  "plan_validate H enc p = Ok v \<longleftrightarrow>
     \<not> bad_plan_header p \<and> validate_mounts p (requirements (sp_realm p)) = Ok ()
     \<and> validate_environment p = Ok () \<and> validate_budget p = Ok ()
     \<and> validate_network p (requirements (sp_realm p)) = Ok ()
     \<and> validate_command p (requirements (sp_realm p)) = Ok ()
     \<and> v = \<lparr>vp_plan = p, vp_digest = plan_digest H enc p, vp_requirements = requirements (sp_realm p)\<rparr>"
  by (cases "bad_plan_header p") (auto simp: plan_validate_def Let_def result_bind_Ok)

lemma validated_mounts:
  assumes "plan_validate H enc p = Ok v"
  shows "list_all mount_good (sp_mounts p)" "sorted_wrt (\<lambda>a b. \<not> mounts_conflict a b) (sp_mounts p)"
    "m \<in> set (sp_mounts p) \<Longrightarrow> m' \<in> set (sp_mounts p) \<Longrightarrow> m \<noteq> m' \<Longrightarrow> \<not> mounts_conflict m m'"
proof -
  from assms obtain n where "validate_mount_loop [] 0 (sp_mounts p) = Ok n"
    by (auto simp: plan_validate_Ok validate_mounts_def split: sum.splits)
  then show a: "list_all mount_good (sp_mounts p)" and s: "sorted_wrt (\<lambda>a b. \<not> mounts_conflict a b) (sp_mounts p)"
    by (simp_all add: validate_mount_loop_Ok)
  have sym: "mounts_conflict a b \<longleftrightarrow> mounts_conflict b a" for a b
    by (auto simp: target_conflict_def)
  show "m \<in> set (sp_mounts p) \<Longrightarrow> m' \<in> set (sp_mounts p) \<Longrightarrow> m \<noteq> m' \<Longrightarrow> \<not> mounts_conflict m m'"
    using s by (auto simp: in_set_conv_nth sorted_wrt_iff_nth_less) (metis nat_neq_iff sym)
qed

lemma executable_not_writable: "mount_good m \<Longrightarrow> mo_executable m \<Longrightarrow> \<not> mo_writable m"
  by (auto simp: mount_good_def mount_executable_ok_def inherent_writability_def split: mount_source.splits)

text \<open>Two directory prefixes of one path are nested.\<close>

lemma nested_targets:
  assumes "starts_with e (''/'' @ s @ ''/'')" "starts_with e (''/'' @ t @ ''/'')"
  shows "s = t \<or> starts_with t (s @ ''/'') \<or> starts_with s (t @ ''/'')"
proof -
  from assms have "prefix (s @ ''/'') (t @ ''/'') \<or> prefix (t @ ''/'') (s @ ''/'')"
    unfolding starts_with_def using prefix_same_cases by fastforce
  then show ?thesis
    by (auto simp: starts_with_def)
qed

lemma executable_path_not_writable:
  assumes "plan_validate H enc p = Ok v" "path_within_executable_mount e (sp_mounts p)"
    and "m \<in> set (sp_mounts p)" "mo_writable m"
  shows "\<not> starts_with e (''/'' @ mo_target m @ ''/'')"
proof
  assume w: "starts_with e (''/'' @ mo_target m @ ''/'')"
  obtain x where x: "x \<in> set (sp_mounts p)" "mo_executable x" "starts_with e (''/'' @ mo_target x @ ''/'')"
    using assms(2) by (auto simp: path_within_executable_mount_def list_ex_iff)
  with validated_mounts(1) [OF assms(1)] have nw: "\<not> mo_writable x"
    using executable_not_writable by (auto simp: list_all_iff)
  with assms(4) have "x \<noteq> m" by auto
  then have "\<not> mounts_conflict x m" using validated_mounts(3) [OF assms(1)] x(1) assms(3) by blast
  with nested_targets [OF x(3) w] nw assms(4) show False by (auto simp: target_conflict_def)
qed


lemma executable_entry_absolute: "path_within_executable_mount e ms \<Longrightarrow> starts_with e ''/''"
  by (auto simp: path_within_executable_mount_def list_ex_iff starts_with_def prefix_def)

text \<open>What validation says of the command.\<close>

lemma validated_command:
  assumes "plan_validate H enc p = Ok v" "sp_command p = Some c"
  shows "rr_execution (requirements (sp_realm p)) = Child" "co_argv c \<noteq> []"
    "path_within_executable_mount (hd (co_argv c)) (sp_mounts p)"
    "\<not> str_contains (co_cwd c) ''..''"
  using assms by (auto simp: plan_validate_Ok validate_command_def Let_def split: if_splits option.splits)

section \<open>The environment a child receives\<close>

lemma insert_checked_Ok:
  "insert_checked env key value mounts lease = Ok env' \<longleftrightarrow>
     key \<noteq> [] \<and> CHR ''='' \<notin> set key \<and> NUL \<notin> set key \<and> NUL \<notin> set value
     \<and> \<not> (if lease then is_reserved_env_key key else is_sensitive_key key)
     \<and> (key = ''PATH'' \<longrightarrow> path_confined value mounts) \<and> env' = bt_insert key value env"
  by (auto simp: insert_checked_def Let_def)

definition env_entry_ok :: "mount_spec list \<Rightarrow> bool \<Rightarrow> string \<Rightarrow> string \<Rightarrow> bool" where
  "env_entry_ok mounts lease key value \<longleftrightarrow> key \<noteq> [] \<and> CHR ''='' \<notin> set key \<and> NUL \<notin> set key \<and> NUL \<notin> set value
     \<and> \<not> (if lease then is_reserved_env_key key else is_sensitive_key key)
     \<and> (key = ''PATH'' \<longrightarrow> path_confined value mounts)"

lemma insert_allowed_Ok:
  "insert_allowed mounts es env = Ok env' \<longleftrightarrow>
     (\<forall>(k, v) \<in> set es. env_entry_ok mounts False k v)
     \<and> env' = foldl (\<lambda>m (k, v). bt_insert k v m) env es"
  by (induction mounts es env rule: insert_allowed.induct)
    (auto simp: result_bind_Ok insert_checked_Ok env_entry_ok_def)

lemma insert_channels_Ok:
  "insert_channels mounts injected cs env = Ok env' \<Longrightarrow>
     (\<forall>c \<in> set cs. \<forall>v. bt_get injected c = Some v \<longrightarrow> env_entry_ok mounts True c v)
     \<and> bt_get env' = (\<lambda>k. if k \<in> set cs \<and> bt_get injected k \<noteq> None then bt_get injected k else bt_get env k)"
proof (induction mounts injected cs env rule: insert_channels.induct)
  case (2 mounts injected channel cs environment)
  show ?case
  proof (cases "bt_get injected channel")
    case None
    with 2 show ?thesis by (auto simp: fun_eq_iff)
  next
    case (Some v)
    with 2(3) have c: "env_entry_ok mounts True channel v"
      and r: "insert_channels mounts injected cs (bt_insert channel v environment) = Ok env'"
      by (auto simp: result_bind_Ok insert_checked_Ok env_entry_ok_def)
    have k: "insert_checked environment channel v mounts True = Ok (bt_insert channel v environment)"
      using c by (simp add: insert_checked_Ok env_entry_ok_def)
    from 2(2) [OF Some k r, unfolded store_simps] c Some show ?thesis
      by (auto simp: fun_eq_iff)
  qed
qed simp

lemma insert_channels_total:
  "(\<forall>c \<in> set cs. \<forall>v. bt_get injected c = Some v \<longrightarrow> env_entry_ok mounts True c v) \<Longrightarrow>
     \<exists>env'. insert_channels mounts injected cs env = Ok env'"
proof (induction mounts injected cs env rule: insert_channels.induct)
  case (2 mounts injected channel cs environment)
  show ?case
  proof (cases "bt_get injected channel")
    case None
    with 2 show ?thesis by simp
  next
    case (Some v)
    with 2 have "insert_checked environment channel v mounts True = Ok (bt_insert channel v environment)"
      by (simp add: insert_checked_Ok env_entry_ok_def)
    with Some 2 show ?thesis by simp
  qed
qed simp

lemma foldl_bt_insert:
  "bt_inv es \<Longrightarrow> bt_get (foldl (\<lambda>m (k, v). bt_insert k v m) env es) = bt_get env ++ bt_get es"
proof (induction es arbitrary: env)
  case (Cons e es)
  obtain k v where e: "e = (k, v)" by (cases e)
  with Cons.prems have "bt_inv es" and k: "bt_get es k = None"
    by (auto simp: bt_inv_def bt_get_def map_of_eq_None_iff)
  moreover have "bt_get ((k, v) # es) = (bt_get es)(k \<mapsto> v)" by (simp add: bt_get_def)
  ultimately show ?case
    using Cons.IH [of "bt_insert k v env"] e
    by (auto simp: store_simps map_add_def fun_eq_iff split: option.splits)
qed (simp add: bt_get_def)

text \<open>A validated key never contains the bytes that environment blocks treat specially.\<close>

lemma valid_env_key_plain: "valid_env_key k \<Longrightarrow> k \<noteq> [] \<and> CHR ''='' \<notin> set k \<and> NUL \<notin> set k"
proof -
  have "\<not> (is_alnum_byte (CHR ''='') \<or> CHR ''='' = CHR ''_'')" "\<not> (is_alnum_byte NUL \<or> NUL = CHR ''_'')"
    by (simp_all add: byte_class_defs byte_def NUL_def)
  then show "valid_env_key k \<Longrightarrow> ?thesis" by (auto simp: valid_env_key_def list_all_iff)
qed

lemma validated_environment:
  assumes "plan_validate H enc p = Ok v"
  shows "\<forall>(k, x) \<in> set (es_allow (sp_env p)). env_entry_ok (sp_mounts p) False k x"
    "\<forall>c \<in> set (es_lease_channels (sp_env p)). \<not> bad_channel (sp_env p) c"
proof -
  have ok: "validate_environment p = Ok ()" using assms by (simp add: plan_validate_Ok)
  show "\<forall>(k, x) \<in> set (es_allow (sp_env p)). env_entry_ok (sp_mounts p) False k x"
  proof clarify
    fix k x
    assume "(k, x) \<in> set (es_allow (sp_env p))"
    with ok have "\<not> bad_env_entry (sp_mounts p) (k, x)"
      by (auto simp: validate_environment_def list_ex_iff split: if_splits)
    then show "env_entry_ok (sp_mounts p) False k x"
      using valid_env_key_plain [of k]
      by (auto simp: bad_env_entry_def env_entry_ok_def path_value_confined_def
          path_confined_def path_within_executable_mount_def list_all_iff)
  qed
  show "\<forall>c \<in> set (es_lease_channels (sp_env p)). \<not> bad_channel (sp_env p) c"
    using ok by (auto simp: validate_environment_def list_ex_iff split: if_splits)
qed

lemma sensitive_if_reserved: "is_reserved_env_key k \<Longrightarrow> is_sensitive_key k"
  by (simp add: is_sensitive_key_def)

section \<open>Properties\<close>

text \<open>
  C13: write xor execute. In a validated plan the program that runs lies under an executable
  mount and under no writable one, by its path as written; no mount is both, and every
  \<open>PATH\<close> entry of the plan keeps to the same rule.
\<close>

theorem write_xor_execute:
  assumes "plan_validate H enc p = Ok v" "m \<in> set (sp_mounts p)" "mo_writable m"
  shows "\<not> mo_executable m
    \<and> (case sp_command p of None \<Rightarrow> True | Some c \<Rightarrow>
         path_within_executable_mount (hd (co_argv c)) (sp_mounts p)
         \<and> \<not> starts_with (hd (co_argv c)) (''/'' @ mo_target m @ ''/''))
    \<and> (case bt_get (es_allow (sp_env p)) ''PATH'' of None \<Rightarrow> True | Some path \<Rightarrow>
         list_all (\<lambda>e. \<not> starts_with e (''/'' @ mo_target m @ ''/'')) (split_on (CHR '':'') path))"
proof (intro conjI)
  show "\<not> mo_executable m"
    using assms validated_mounts(1) executable_not_writable by (auto simp: list_all_iff)
  show "case sp_command p of None \<Rightarrow> True | Some c \<Rightarrow>
      path_within_executable_mount (hd (co_argv c)) (sp_mounts p)
      \<and> \<not> starts_with (hd (co_argv c)) (''/'' @ mo_target m @ ''/'')"
    using validated_command(3) [OF assms(1)] executable_path_not_writable [OF assms(1) _ assms(2,3)]
    by (auto split: option.splits)
  show "case bt_get (es_allow (sp_env p)) ''PATH'' of None \<Rightarrow> True | Some path \<Rightarrow>
      list_all (\<lambda>e. \<not> starts_with e (''/'' @ mo_target m @ ''/'')) (split_on (CHR '':'') path)"
  proof (cases "bt_get (es_allow (sp_env p)) ''PATH''")
    case (Some path)
    with validated_environment(1) [OF assms(1)] have "path_confined path (sp_mounts p)"
      by (auto dest!: bt_get_mem simp: env_entry_ok_def)
    then have "list_all (\<lambda>e. path_within_executable_mount e (sp_mounts p)) (split_on (CHR '':'') path)"
      by (simp add: path_confined_def path_within_executable_mount_def)
    with Some executable_path_not_writable [OF assms(1) _ assms(2,3)] show ?thesis
      by (auto simp: list_all_iff)
  qed simp
qed

definition sample_plan :: "string \<Rightarrow> sandbox_plan" where
  "sample_plan program =
     \<lparr>sp_version = 1, sp_workspace_id = ''ws_01'', sp_realm = S3IsolatedOverlay,
      sp_mounts = [\<lparr>mo_target = ''tools'', mo_source = SystemTools ''/usr'', mo_writable = False, mo_executable = True\<rparr>,
                   \<lparr>mo_target = ''scratch'', mo_source = OverlayMount ''/w/o'', mo_writable = True, mo_executable = False\<rparr>],
      sp_env = \<lparr>es_allow = [(''CI'', ''1'')], es_lease_channels = [''DEPLOY_TOKEN'']\<rparr>,
      sp_budget = default_budget, sp_network = NetworkDenied,
      sp_command = Some \<lparr>co_argv = [program], co_cwd = ''/scratch'', co_stdin = None\<rparr>\<rparr>"

lemma sample_plan_mounts: "validate_mounts (sample_plan program) (requirements S3IsolatedOverlay) = Ok ()"
  by code_simp

lemma sample_plan_environment: "validate_environment (sample_plan program) = Ok ()"
  by code_simp

lemma sample_plan_command:
  "validate_command (sample_plan program) (requirements S3IsolatedOverlay) =
     (if program = [] \<or> NUL \<in> set program \<or> \<not> starts_with program ''/tools/'' then Err InvalidCommand else Ok ())"
proof -
  have "\<not> str_contains ''/scratch'' ''..''" by code_simp
  moreover have "starts_with program ''/tools/'' \<Longrightarrow> starts_with program ''/''"
    by (auto simp: starts_with_def prefix_def)
  ultimately show ?thesis
    by (auto simp: sample_plan_def validate_command_def path_within_executable_mount_def starts_with_def NUL_def)
qed

lemma sample_plan_validates:
  assumes "starts_with program ''/tools/''" "NUL \<notin> set program"
  shows "\<exists>v. plan_validate H enc (sample_plan program) = Ok v"
proof -
  have "\<not> bad_plan_header (sample_plan x) \<and> validate_budget (sample_plan x) = Ok ()
      \<and> validate_network (sample_plan x) (requirements S3IsolatedOverlay) = Ok ()" for x
    by (simp add: sample_plan_def bad_plan_header_def validate_budget_def validate_network_def Let_def
        byte_class_defs byte_def default_budget_def)
  moreover have "program \<noteq> []" using assms(1) by (auto simp: starts_with_def)
  moreover have "sp_realm (sample_plan x) = S3IsolatedOverlay" for x by (simp add: sample_plan_def)
  ultimately show ?thesis
    using assms sample_plan_mounts sample_plan_environment sample_plan_command
    by (simp add: plan_validate_Ok del: requirements.simps)
qed

lemma sample_plan_run: "\<exists>v. plan_validate H enc (sample_plan ''/tools/bin/run'') = Ok v"
  by (rule sample_plan_validates) (simp_all add: starts_with_def NUL_def)

theorem write_xor_execute_witness:
  "\<not> mo_executable \<lparr>mo_target = ''scratch'', mo_source = OverlayMount ''/w/o'', mo_writable = True, mo_executable = False\<rparr>"
proof -
  obtain v where "plan_validate H enc (sample_plan ''/tools/bin/run'') = Ok v"
    using sample_plan_run by blast
  from write_xor_execute [OF this] show ?thesis by (simp add: sample_plan_def)
qed

text \<open>
  The program is compared by its path as written: a parent segment leads out of the
  executable mount into the writable one, and validation accepts it.
\<close>

lemma parent_segment_escapes_mount:
  "(\<exists>v. plan_validate H enc (sample_plan ''/tools/../scratch/run'') = Ok v)
   \<and> path_components ''/tools/../scratch/run'' = [RootDir, Normal ''tools'', ParentDir, Normal ''scratch'', Normal ''run'']"
proof
  show "\<exists>v. plan_validate H enc (sample_plan ''/tools/../scratch/run'') = Ok v"
    by (rule sample_plan_validates) (simp_all add: starts_with_def NUL_def)
  show "path_components ''/tools/../scratch/run'' = [RootDir, Normal ''tools'', ParentDir, Normal ''scratch'', Normal ''run'']"
    by code_simp
qed

text \<open>
  the child's environment is exactly what the plan declares. For a validated plan the
  construction succeeds just when the injected secrets have declared channels and their
  values pass the check; the result maps each key to its static entry or to the secret
  injected on its channel, and to nothing else, and no reserved host-identity key occurs.
\<close>

theorem child_environment_exact:
  assumes "plan_validate H enc p = Ok v" "bt_inv (es_allow (sp_env p))"
  shows "((\<exists>env. build_environment (sp_env p) (sp_mounts p) injected = Ok env) \<longleftrightarrow>
       set (bt_keys injected) \<subseteq> set (es_lease_channels (sp_env p))
       \<and> (\<forall>c x. bt_get injected c = Some x \<longrightarrow> NUL \<notin> set x \<and> (c = ''PATH'' \<longrightarrow> path_confined x (sp_mounts p))))
    \<and> (\<forall>env k. build_environment (sp_env p) (sp_mounts p) injected = Ok env \<longrightarrow>
         bt_get env k = (case bt_get injected k of Some x \<Rightarrow> Some x | None \<Rightarrow> bt_get (es_allow (sp_env p)) k)
         \<and> (bt_get env k \<noteq> None \<longrightarrow> \<not> is_reserved_env_key k))"
proof -
  let ?ms = "sp_mounts p" and ?cs = "es_lease_channels (sp_env p)" and ?al = "es_allow (sp_env p)"
  let ?env0 = "foldl (\<lambda>m (k, v). bt_insert k v m) [] ?al"
  have a: "insert_allowed ?ms ?al [] = Ok ?env0"
    using validated_environment(1) [OF assms(1)] by (simp add: insert_allowed_Ok)
  have g: "bt_get ?env0 = bt_get ?al" 
    by (simp add: foldl_bt_insert [OF assms(2)] fun_eq_iff map_add_def split: option.splits)
  have ch: "env_entry_ok ?ms True c x \<longleftrightarrow> NUL \<notin> set x \<and> (c = ''PATH'' \<longrightarrow> path_confined x ?ms)"
    if "c \<in> set ?cs" for c x
    using validated_environment(2) [OF assms(1)] that valid_env_key_plain [of c]
    by (auto simp: env_entry_ok_def bad_channel_def)
  have keys: "set (bt_keys injected) \<subseteq> set ?cs \<longleftrightarrow> (\<forall>c x. bt_get injected c = Some x \<longrightarrow> c \<in> set ?cs)"
    by (auto simp: bt.keys_dom)
  have b: "build_environment (sp_env p) ?ms injected = Ok env \<longleftrightarrow>
      insert_channels ?ms injected ?cs ?env0 = Ok env \<and> set (bt_keys injected) \<subseteq> set ?cs" for env
    by (auto simp: build_environment_def a result_bind_Ok list_ex_iff)
  have reserved: "\<not> is_reserved_env_key k" if "bt_get ?al k \<noteq> None" for k
    using that validated_environment(1) [OF assms(1)] sensitive_if_reserved
    by (auto dest!: bt_get_mem simp: env_entry_ok_def)
  have reserved_ch: "\<not> is_reserved_env_key k" if "k \<in> set ?cs" for k
    using that validated_environment(2) [OF assms(1)] by (auto simp: bad_channel_def)
  have "bt_get env k = (case bt_get injected k of Some x \<Rightarrow> Some x | None \<Rightarrow> bt_get ?al k)
      \<and> (bt_get env k \<noteq> None \<longrightarrow> \<not> is_reserved_env_key k)"
    if "build_environment (sp_env p) ?ms injected = Ok env" for env k
    using insert_channels_Ok [of ?ms injected ?cs ?env0 env] that keys reserved [of k] reserved_ch [of k]
    by (auto simp: b g split: option.splits)
  moreover have "(\<exists>env. build_environment (sp_env p) ?ms injected = Ok env) \<longleftrightarrow>
      set (bt_keys injected) \<subseteq> set ?cs
      \<and> (\<forall>c x. bt_get injected c = Some x \<longrightarrow> NUL \<notin> set x \<and> (c = ''PATH'' \<longrightarrow> path_confined x ?ms))"
  proof
    assume "\<exists>env. build_environment (sp_env p) ?ms injected = Ok env"
    then obtain env where "insert_channels ?ms injected ?cs ?env0 = Ok env" and k: "set (bt_keys injected) \<subseteq> set ?cs"
      unfolding b by blast
    then have "\<forall>c \<in> set ?cs. \<forall>x. bt_get injected c = Some x \<longrightarrow> env_entry_ok ?ms True c x"
      using insert_channels_Ok by blast
    with k ch show "set (bt_keys injected) \<subseteq> set ?cs
      \<and> (\<forall>c x. bt_get injected c = Some x \<longrightarrow> NUL \<notin> set x \<and> (c = ''PATH'' \<longrightarrow> path_confined x ?ms))"
      unfolding keys by blast
  next
    assume k: "set (bt_keys injected) \<subseteq> set ?cs
      \<and> (\<forall>c x. bt_get injected c = Some x \<longrightarrow> NUL \<notin> set x \<and> (c = ''PATH'' \<longrightarrow> path_confined x ?ms))"
    then have "\<forall>c \<in> set ?cs. \<forall>x. bt_get injected c = Some x \<longrightarrow> env_entry_ok ?ms True c x"
      using ch by blast
    then show "\<exists>env. build_environment (sp_env p) ?ms injected = Ok env"
      unfolding b using insert_channels_total k by blast
  qed
  ultimately show ?thesis by blast
qed

theorem child_environment_exact_witness:
  "\<exists>env. build_environment (sp_env (sample_plan ''/tools/bin/run'')) (sp_mounts (sample_plan ''/tools/bin/run''))
     [(''DEPLOY_TOKEN'', ''s3'')] = Ok env"
proof -
  obtain v where v: "plan_validate H enc (sample_plan ''/tools/bin/run'') = Ok v"
    using sample_plan_run by blast
  have "bt_inv (es_allow (sp_env (sample_plan ''/tools/bin/run'')))"
    by (simp add: sample_plan_def bt_inv_def)
  from child_environment_exact [OF v this, of "[(''DEPLOY_TOKEN'', ''s3'')]"] show ?thesis
    by (simp add: sample_plan_def bt_keys_def bt_get_def NUL_def)
qed

text \<open>A validated plan's environment can be built when nothing is injected.\<close>

lemma validated_environment_empty:
  assumes "plan_validate H enc p = Ok v"
  shows "\<exists>env. build_environment (sp_env p) (sp_mounts p) [] = Ok env"
proof -
  let ?env0 = "foldl (\<lambda>m (k, v). bt_insert k v m) [] (es_allow (sp_env p))"
  have a: "insert_allowed (sp_mounts p) (es_allow (sp_env p)) [] = Ok ?env0"
    using validated_environment(1) [OF assms] by (simp add: insert_allowed_Ok)
  have "\<exists>env'. insert_channels (sp_mounts p) [] (es_lease_channels (sp_env p)) ?env0 = Ok env'"
    by (rule insert_channels_total) simp
  with a show ?thesis by (auto simp: build_environment_def bt_keys_def)
qed

text \<open>
  the realm ladder. What a validated plan may hold grows with its realm: mounts, then
  a child, then a writable overlay, then mediated network; the workspace itself is never
  writable.
\<close>

theorem realm_ladder_enforced:
  assumes "plan_validate H enc p = Ok v"
  shows "(sp_realm p = S0Pure \<longrightarrow> sp_mounts p = [])
    \<and> (sp_command p \<noteq> None \<longleftrightarrow> S2IsolatedReadOnly \<le> sp_realm p)
    \<and> ((\<exists>m \<in> set (sp_mounts p). is_overlay (mo_source m)) \<longleftrightarrow> S3IsolatedOverlay \<le> sp_realm p)
    \<and> ((\<exists>purpose. sp_network p = Mediated purpose) \<longleftrightarrow> sp_realm p = S4EgressMediated)
    \<and> (\<forall>m \<in> set (sp_mounts p). is_workspace (mo_source m) \<longrightarrow> \<not> mo_writable m)"
proof -
  obtain n where n: "validate_mount_loop [] 0 (sp_mounts p) = Ok n"
    using assms by (auto simp: plan_validate_Ok validate_mounts_def split: sum.splits)
  then have overlays: "n = 0 \<longleftrightarrow> \<not> (\<exists>m \<in> set (sp_mounts p). is_overlay (mo_source m))"
    by (auto simp: validate_mount_loop_Ok filter_empty_conv)
  have ws: "\<forall>m \<in> set (sp_mounts p). is_workspace (mo_source m) \<longrightarrow> \<not> mo_writable m"
    using validated_mounts(1) [OF assms]
    by (auto simp: list_all_iff mount_good_def inherent_writability_def split: mount_source.splits)
  have gr: "is_workspace s \<Longrightarrow> \<not> is_overlay s" for s by (cases s) simp_all
  have "(sp_command p \<noteq> None \<longleftrightarrow> S2IsolatedReadOnly \<le> sp_realm p)"
    using assms by (cases "sp_realm p")
      (auto simp: plan_validate_Ok validate_command_def less_eq_realm_def split: option.splits)
  moreover have "(\<exists>purpose. sp_network p = Mediated purpose) \<longleftrightarrow> sp_realm p = S4EgressMediated"
    using assms by (cases "sp_realm p"; cases "sp_network p") (auto simp: plan_validate_Ok validate_network_def)
  moreover have "(sp_realm p = S0Pure \<longrightarrow> sp_mounts p = [])
      \<and> ((\<exists>m \<in> set (sp_mounts p). is_overlay (mo_source m)) \<longleftrightarrow> S3IsolatedOverlay \<le> sp_realm p)"
    using assms n overlays gr by (cases "sp_realm p")
      (auto simp: plan_validate_Ok validate_mounts_def less_eq_realm_def list_ex_iff split: if_splits)
  ultimately show ?thesis using ws by blast
qed

theorem realm_ladder_enforced_witness:
  "sp_command (sample_plan ''/tools/bin/run'') \<noteq> None \<longleftrightarrow> S2IsolatedReadOnly \<le> S3IsolatedOverlay"
proof -
  obtain v where v: "plan_validate H enc (sample_plan ''/tools/bin/run'') = Ok v"
    using sample_plan_run by blast
  from realm_ladder_enforced [OF this] show ?thesis by (simp add: sample_plan_def)
qed

end
