(* ===== verification/SandboxBackends.thy ===== *)
theory SandboxBackends
  imports SandboxPlan
begin

text \<open>
  The backend interface (\<open>crates/sandbox/src/spi.rs\<close>), its fail-closed registry
  (\<open>registry.rs\<close>), the guarded in-core backend and the scrubbed child (\<open>process.rs\<close>) and the
  OS-wrapper backend (\<open>platform.rs\<close>). A trait object is a state with a table of operations.
  What the operating system does is a parameter: running a child (\<open>spawn\<close>), resolving a
  host path (\<open>canon\<close>), writing the profile file (\<open>write_profile\<close>), the temporary directory
  and the directory inventory. Counters wrap as in a release build.
\<close>

section \<open>Vocabulary of the interface\<close>

definition SPI_VERSION :: string where "SPI_VERSION = ''1.0.0''"

datatype platform = MacOs | Linux | Windows
datatype fs_confinement = ReadOnlyRootfs | OverlayFs
datatype net_confinement = NetConfDenied | NetConfMediated

record lifecycle_caps =
  lc_deadline_kill :: bool
  lc_output_cap :: bool
  lc_orphan_reap :: bool

record enforced_capabilities =
  ec_filesystem :: "fs_confinement option"
  ec_network :: "net_confinement option"
  ec_environment_scrubbed :: bool
  ec_lifecycle :: lifecycle_caps

definition caps_cover :: "enforced_capabilities \<Rightarrow> realm_requirements \<Rightarrow> bool" where
  "caps_cover self req =
     (let filesystem_ok =
            (case rr_filesystem req of
               FsNone \<Rightarrow> True
             | GuardedRead \<Rightarrow> True
             | ConfinedReadOnly \<Rightarrow> ec_filesystem self = Some ReadOnlyRootfs \<or> ec_filesystem self = Some OverlayFs
             | ConfinedOverlay \<Rightarrow> ec_filesystem self = Some OverlayFs);
          network_ok =
            (case rr_network req of
               NetNone \<Rightarrow> True
             | _ \<Rightarrow> ec_network self = Some NetConfDenied \<or> ec_network self = Some NetConfMediated)
      in filesystem_ok \<and> network_ok \<and> ec_environment_scrubbed self)"

record backend_descriptor =
  bd_backend_id :: string
  bd_platform :: platform
  bd_spi_version :: string
  bd_enforced :: enforced_capabilities
  bd_max_realm :: realm
  bd_isolation_self_tested :: bool
  bd_production :: bool

datatype sandbox_error =
    BackendUnavailable | BackendUnhealthy | UnsupportedPlatform | InvalidHandle | PlanViolation
  | DeadlineExceeded | ExecFailed | KillFailed | SnapshotFailed | DestroyFailed | InvalidPlan

fun sandbox_error_str :: "sandbox_error \<Rightarrow> string" where
  "sandbox_error_str BackendUnavailable = ''backend_unavailable''"
| "sandbox_error_str BackendUnhealthy = ''backend_unhealthy''"
| "sandbox_error_str UnsupportedPlatform = ''unsupported_platform''"
| "sandbox_error_str InvalidHandle = ''invalid_handle''"
| "sandbox_error_str PlanViolation = ''plan_violation''"
| "sandbox_error_str DeadlineExceeded = ''deadline_exceeded''"
| "sandbox_error_str ExecFailed = ''exec_failed''"
| "sandbox_error_str KillFailed = ''kill_failed''"
| "sandbox_error_str SnapshotFailed = ''snapshot_failed''"
| "sandbox_error_str DestroyFailed = ''destroy_failed''"
| "sandbox_error_str InvalidPlan = ''invalid_plan''"

record realm_handle =
  rh_realm_id :: string
  rh_plan_digest :: string

record exec_outcome =
  xo_exit_code :: "int option"
  xo_stdout :: string
  xo_stderr :: string
  xo_duration_ms :: u64
  xo_truncated :: bool
  xo_killed :: bool

record snapshot_record =
  sn_snapshot_id :: string
  sn_realm_id :: string

record destroy_report =
  dr_realm_id :: string
  dr_killed_processes :: u32

record health_report =
  hr_healthy :: bool
  hr_detail :: string

definition healthy_report :: health_report where
  "healthy_report = \<lparr>hr_healthy = True, hr_detail = ''self_test_passed''\<rparr>"

definition unhealthy_report :: "string \<Rightarrow> health_report" where
  "unhealthy_report detail = \<lparr>hr_healthy = False, hr_detail = detail\<rparr>"

text \<open>The trait: each operation returns its result and the backend's next state.\<close>

type_synonym injected = "(string, string) btree"

record 'b backend_ops =
  bo_descriptor :: "'b \<Rightarrow> backend_descriptor"
  bo_health :: "'b \<Rightarrow> health_report \<times> 'b"
  bo_create :: "'b \<Rightarrow> validated_plan \<Rightarrow> (sandbox_error + realm_handle) \<times> 'b"
  bo_mount :: "'b \<Rightarrow> realm_handle \<Rightarrow> mount_spec \<Rightarrow> (sandbox_error + unit) \<times> 'b"
  bo_network :: "'b \<Rightarrow> realm_handle \<Rightarrow> network_spec \<Rightarrow> (sandbox_error + unit) \<times> 'b"
  bo_exec :: "'b \<Rightarrow> realm_handle \<Rightarrow> command_spec \<Rightarrow> injected \<Rightarrow> (sandbox_error + exec_outcome) \<times> 'b"
  bo_kill :: "'b \<Rightarrow> realm_handle \<Rightarrow> (sandbox_error + unit) \<times> 'b"
  bo_snapshot :: "'b \<Rightarrow> realm_handle \<Rightarrow> (sandbox_error + snapshot_record) \<times> 'b"
  bo_destroy :: "'b \<Rightarrow> realm_handle \<Rightarrow> (sandbox_error + destroy_report) \<times> 'b"

section \<open>The registry\<close>

record 'b backend_registry =
  br_backends :: "'b list"
  br_testing :: bool

record backend_selection =
  se_index :: nat
  se_descriptor :: backend_descriptor

definition backend_mut :: "'b backend_registry \<Rightarrow> nat \<Rightarrow> sandbox_error + 'b" where
  "backend_mut self index =
     (if index < length (br_backends self) then Ok (br_backends self ! index) else Err InvalidHandle)"

definition put_backend :: "nat \<Rightarrow> 'b \<Rightarrow> 'b backend_registry \<Rightarrow> 'b backend_registry" where
  "put_backend index b self = self\<lparr>br_backends := (br_backends self)[index := b]\<rparr>"

text \<open>The tests of \<open>select_for\<close> that look at the descriptor only, in order.\<close>

definition admissible :: "bool \<Rightarrow> validated_plan \<Rightarrow> backend_descriptor \<Rightarrow> bool" where
  "admissible testing plan d =
     (if \<not> testing \<and> \<not> bd_production d then False
      else if bd_spi_version d \<noteq> SPI_VERSION then False
      else if sp_realm (vp_plan plan) > bd_max_realm d then False
      else if \<not> bd_isolation_self_tested d \<and> sp_realm (vp_plan plan) > S1GuardedRead then False
      else caps_cover (bd_enforced d) (vp_requirements plan))"

fun select_loop ::
  "'b backend_ops \<Rightarrow> bool \<Rightarrow> validated_plan \<Rightarrow> nat \<Rightarrow> 'b list \<Rightarrow> (sandbox_error + backend_selection) \<times> 'b list" where
  "select_loop ops testing plan index [] = (Err BackendUnavailable, [])"
| "select_loop ops testing plan index (b # bs) =
     (let d = bo_descriptor ops b in
      if \<not> admissible testing plan d
      then (let (r, bs') = select_loop ops testing plan (Suc index) bs in (r, b # bs'))
      else
        (let (h, b') = bo_health ops b in
         if \<not> hr_healthy h
         then (let (r, bs') = select_loop ops testing plan (Suc index) bs in (r, b' # bs'))
         else (Ok \<lparr>se_index = index, se_descriptor = d\<rparr>, b' # bs)))"

definition select_for ::
  "'b backend_ops \<Rightarrow> 'b backend_registry \<Rightarrow> validated_plan
   \<Rightarrow> (sandbox_error + backend_selection) \<times> 'b backend_registry" where
  "select_for ops self plan =
     (let (r, bs) = select_loop ops (br_testing self) plan 0 (br_backends self) in (r, self\<lparr>br_backends := bs\<rparr>))"

section \<open>Realm paths on the host\<close>

definition path_starts_with :: "string \<Rightarrow> string \<Rightarrow> bool" where
  "path_starts_with p base = prefix (path_components base) (path_components p)"

definition path_join :: "string \<Rightarrow> string \<Rightarrow> string" where
  "path_join base p =
     (if starts_with p ''/'' then p
      else if base = [] \<or> ends_with base ''/'' then base @ p else base @ ''/'' @ p)"

definition trim_start_slashes :: "string \<Rightarrow> string" where
  "trim_start_slashes s = dropWhile (\<lambda>c. c = CHR ''/'') s"

fun best_mount :: "string \<Rightarrow> (string \<times> string) option \<Rightarrow> (string \<times> string) list \<Rightarrow> (string \<times> string) option" where
  "best_mount normalized best [] = best"
| "best_mount normalized best ((target, host) # ms) =
     (if (starts_with normalized (target @ ''/'') \<or> normalized = target)
         \<and> (case best of None \<Rightarrow> True | Some (existing, _) \<Rightarrow> length existing < length target)
      then best_mount normalized (Some (target, host)) ms
      else best_mount normalized best ms)"

definition map_realm_path :: "(string, string) btree \<Rightarrow> string \<Rightarrow> sandbox_error + string" where
  "map_realm_path host_mounts realm_path =
     (let normalized = trim_start_slashes realm_path in
      case best_mount normalized None host_mounts of
        None \<Rightarrow> Err PlanViolation
      | Some (target, host) \<Rightarrow>
          (let remainder = trim_start_slashes (case strip_prefix normalized target of None \<Rightarrow> [] | Some r \<Rightarrow> r) in
           if list_ex (\<lambda>s. s = ''..'') (split_on (CHR ''/'') remainder) \<or> NUL \<in> set remainder then Err PlanViolation
           else
             (let path = path_join host remainder in
              if \<not> path_starts_with path host then Err PlanViolation else Ok path)))"

definition host_mounts_of :: "(string \<Rightarrow> string option) \<Rightarrow> string \<Rightarrow> validated_plan \<Rightarrow> (string, string) btree" where
  "host_mounts_of canon temp_dir plan =
     foldl (\<lambda>m spec. bt_insert (mo_target spec)
              (case source_host_path (mo_source spec) of
                 Some h \<Rightarrow> (case canon h of None \<Rightarrow> h | Some c \<Rightarrow> c)
               | None \<Rightarrow> temp_dir) m)
       [] (sp_mounts (vp_plan plan))"

section \<open>The scrubbed child\<close>

text \<open>
  \<open>read_capped\<close> over the chunks a stream delivers before its end: at most \<open>cap\<close> bytes are
  kept, and the flag says that something was left out.
\<close>

fun read_capped :: "nat \<Rightarrow> string list \<Rightarrow> string \<Rightarrow> string \<times> bool" where
  "read_capped cap [] collected = (collected, False)"
| "read_capped cap (chunk # chunks) collected =
     (if length collected + length chunk > cap
      then (collected @ take (cap - length collected) chunk, True)
      else read_capped cap chunks (collected @ chunk))"

record spawn_request =
  sq_argv :: "string list"
  sq_env :: "(string, string) btree"
  sq_cwd :: string
  sq_stdin :: "string option"
  sq_deadline_ms :: u64
  sq_output_cap :: nat

text \<open>What the operating system reports of a child: the chunks of its streams and its end.\<close>

record child_report =
  ch_stdout :: "string list"
  ch_stderr :: "string list"
  ch_exit_code :: "int option"
  ch_duration_ms :: u64
  ch_killed :: bool

definition run_scrubbed_child ::
  "(spawn_request \<Rightarrow> sandbox_error + child_report) \<Rightarrow> string list \<Rightarrow> string \<Rightarrow> env_spec \<Rightarrow> mount_spec list
   \<Rightarrow> budget_spec \<Rightarrow> injected \<Rightarrow> string option \<Rightarrow> string list \<Rightarrow> sandbox_error + exec_outcome" where
  "run_scrubbed_child spawn host_argv host_cwd env mounts budget injected stdin_payload wrapper_argv =
     (case build_environment env mounts injected of
        Err _ \<Rightarrow> Err PlanViolation
      | Ok environment \<Rightarrow>
          (case spawn \<lparr>sq_argv = wrapper_argv @ host_argv, sq_env = environment, sq_cwd = host_cwd,
                      sq_stdin = map_option (take (unat (bu_max_stdin_bytes budget))) stdin_payload,
                      sq_deadline_ms = bu_wall_clock_ms budget,
                      sq_output_cap = unat (bu_max_output_bytes budget)\<rparr> of
             Err e \<Rightarrow> Err e
           | Ok child \<Rightarrow>
               (let (stdout, stdout_truncated) = read_capped (unat (bu_max_output_bytes budget)) (ch_stdout child) [];
                    (stderr, stderr_truncated) = read_capped (unat (bu_max_output_bytes budget)) (ch_stderr child) []
                in Ok \<lparr>xo_exit_code = ch_exit_code child, xo_stdout = stdout, xo_stderr = stderr,
                       xo_duration_ms = ch_duration_ms child,
                       xo_truncated = (stdout_truncated \<or> stderr_truncated), xo_killed = ch_killed child\<rparr>)))"

section \<open>The guarded backend\<close>

record realm_state =
  rs_plan :: validated_plan
  rs_host_mounts :: "(string, string) btree"

record guarded_backend =
  gb_descriptor :: backend_descriptor
  gb_realms :: "(string, realm_state) btree"
  gb_counter :: u64

definition guarded_new :: "platform \<Rightarrow> guarded_backend" where
  "guarded_new platform =
     \<lparr>gb_descriptor =
        \<lparr>bd_backend_id = ''process://guarded-v1'', bd_platform = platform, bd_spi_version = SPI_VERSION,
         bd_enforced = \<lparr>ec_filesystem = None, ec_network = None, ec_environment_scrubbed = True,
           ec_lifecycle = \<lparr>lc_deadline_kill = True, lc_output_cap = True, lc_orphan_reap = False\<rparr>\<rparr>,
         bd_max_realm = S1GuardedRead, bd_isolation_self_tested = True, bd_production = True\<rparr>,
      gb_realms = [], gb_counter = 0\<rparr>"

definition guarded_realm_id :: "u64 \<Rightarrow> string" where
  "guarded_realm_id n = ''guarded-realm-'' @ pad_zeros 8 (show_dec (unat n))"

definition guarded_create ::
  "(string \<Rightarrow> string option) \<Rightarrow> string \<Rightarrow> guarded_backend \<Rightarrow> validated_plan
   \<Rightarrow> (sandbox_error + realm_handle) \<times> guarded_backend" where
  "guarded_create canon temp_dir self plan =
     (if sp_command (vp_plan plan) \<noteq> None then (Err BackendUnavailable, self)
      else
        (let counter = gb_counter self + 1; realm_id = guarded_realm_id counter
         in (Ok \<lparr>rh_realm_id = realm_id, rh_plan_digest = vp_digest plan\<rparr>,
             self\<lparr>gb_counter := counter,
                  gb_realms := bt_insert realm_id
                    \<lparr>rs_plan = plan, rs_host_mounts = host_mounts_of canon temp_dir plan\<rparr> (gb_realms self)\<rparr>)))"

definition guarded_realm :: "guarded_backend \<Rightarrow> realm_handle \<Rightarrow> realm_state option" where
  "guarded_realm self handle =
     (case bt_get (gb_realms self) (rh_realm_id handle) of
        None \<Rightarrow> None
      | Some st \<Rightarrow> if vp_digest (rs_plan st) = rh_plan_digest handle then Some st else None)"

definition guarded_mount :: "guarded_backend \<Rightarrow> realm_handle \<Rightarrow> mount_spec \<Rightarrow> sandbox_error + unit" where
  "guarded_mount self handle mount =
     (case guarded_realm self handle of
        None \<Rightarrow> Err InvalidHandle
      | Some st \<Rightarrow> if mount \<notin> set (sp_mounts (vp_plan (rs_plan st))) then Err PlanViolation else Ok ())"

definition guarded_network :: "guarded_backend \<Rightarrow> realm_handle \<Rightarrow> network_spec \<Rightarrow> sandbox_error + unit" where
  "guarded_network self handle spec =
     (case guarded_realm self handle of
        None \<Rightarrow> Err InvalidHandle
      | Some st \<Rightarrow>
          if sp_network (vp_plan (rs_plan st)) \<noteq> spec then Err PlanViolation
          else (case spec of Mediated _ \<Rightarrow> Err BackendUnavailable | NetworkDenied \<Rightarrow> Ok ()))"

definition guarded_exec ::
  "guarded_backend \<Rightarrow> realm_handle \<Rightarrow> command_spec \<Rightarrow> injected \<Rightarrow> sandbox_error + exec_outcome" where
  "guarded_exec self handle command injected =
     (if guarded_realm self handle = None then Err InvalidHandle else Err BackendUnavailable)"

definition guarded_snapshot ::
  "(string \<Rightarrow> string) \<Rightarrow> (string \<Rightarrow> string) \<Rightarrow> guarded_backend \<Rightarrow> realm_handle \<Rightarrow> sandbox_error + snapshot_record" where
  "guarded_snapshot H inventory self handle =
     (case guarded_realm self handle of
        None \<Rightarrow> Err InvalidHandle
      | Some st \<Rightarrow>
          Ok \<lparr>sn_snapshot_id = ''sha256:'' @ hex_upper (H (rh_realm_id handle @ vp_digest (rs_plan st)
                @ concat (map (\<lambda>(target, host). target @ inventory host) (rs_host_mounts st)))),
              sn_realm_id = rh_realm_id handle\<rparr>)"

definition guarded_destroy ::
  "guarded_backend \<Rightarrow> realm_handle \<Rightarrow> (sandbox_error + destroy_report) \<times> guarded_backend" where
  "guarded_destroy self handle =
     (case bt_get (gb_realms self) (rh_realm_id handle) of
        None \<Rightarrow> (Err InvalidHandle, self)
      | Some _ \<Rightarrow>
          (Ok \<lparr>dr_realm_id = rh_realm_id handle, dr_killed_processes = 0\<rparr>,
           self\<lparr>gb_realms := bt_remove (rh_realm_id handle) (gb_realms self)\<rparr>))"

definition guarded_ops ::
  "(string \<Rightarrow> string) \<Rightarrow> (string \<Rightarrow> string) \<Rightarrow> (string \<Rightarrow> string option) \<Rightarrow> string \<Rightarrow> guarded_backend backend_ops" where
  "guarded_ops H inventory canon temp_dir =
     \<lparr>bo_descriptor = gb_descriptor,
      bo_health = (\<lambda>b. (healthy_report, b)),
      bo_create = guarded_create canon temp_dir,
      bo_mount = (\<lambda>b h m. (guarded_mount b h m, b)),
      bo_network = (\<lambda>b h n. (guarded_network b h n, b)),
      bo_exec = (\<lambda>b h c i. (guarded_exec b h c i, b)),
      bo_kill = (\<lambda>b h. (Ok (), b)),
      bo_snapshot = (\<lambda>b h. (guarded_snapshot H inventory b h, b)),
      bo_destroy = guarded_destroy\<rparr>"

end
