(* ===== verification/SandboxPlatform.thy ===== *)
theory SandboxPlatform
  imports SandboxBackends
begin

text \<open>
  The OS-wrapper backend (\<open>crates/sandbox/src/platform.rs\<close>): bubblewrap and Seatbelt
  argument vectors and profiles, and the realm operations; the contract every backend
  fulfils, as a locale; its two interpretations; and the safety of selection. The live
  probes of the constructor touch the host only: their report is given.
\<close>

section \<open>Wrappers and profiles\<close>

datatype wrapper_kind = DarwinSeatbelt | LinuxBwrap

definition wrapper_descriptor :: "string \<Rightarrow> platform \<Rightarrow> backend_descriptor" where
  "wrapper_descriptor backend_id platform =
     \<lparr>bd_backend_id = backend_id, bd_platform = platform, bd_spi_version = SPI_VERSION,
      bd_enforced = \<lparr>ec_filesystem = Some OverlayFs, ec_network = Some NetConfDenied, ec_environment_scrubbed = True,
        ec_lifecycle = \<lparr>lc_deadline_kill = True, lc_output_cap = True, lc_orphan_reap = True\<rparr>\<rparr>,
      bd_max_realm = S3IsolatedOverlay, bd_isolation_self_tested = True, bd_production = True\<rparr>"

definition SEATBELT_DENIED_ROOTS :: "string list" where
  "SEATBELT_DENIED_ROOTS = [''/Users'', ''/home'', ''/opt'', ''/Volumes'', ''/private'', ''/tmp'', ''/var'']"

definition NL :: string where "NL = [CHR 0x0A]"

definition quoted :: "string \<Rightarrow> string" where
  "quoted s = [CHR 0x22] @ s @ [CHR 0x22]"

definition seatbelt_path :: "(string \<Rightarrow> string option) \<Rightarrow> string \<Rightarrow> string" where
  "seatbelt_path canon host = (case canon host of None \<Rightarrow> host | Some resolved \<Rightarrow> resolved)"

definition seatbelt_preamble :: string where
  "seatbelt_preamble =
     ''(version 1)'' @ NL @ ''(deny default)'' @ NL @ ''(allow file-read*)'' @ NL
     @ ''(allow process-exec (subpath '' @ quoted ''/usr'' @ '') (subpath '' @ quoted ''/bin''
     @ '') (subpath '' @ quoted ''/sbin'' @ ''))'' @ NL
     @ ''(allow sysctl-read)'' @ NL @ ''(allow mach-lookup)'' @ NL @ ''(allow process-fork)'' @ NL
     @ concat (map (\<lambda>root. ''(deny file-read* (subpath '' @ quoted root @ ''))'' @ NL) SEATBELT_DENIED_ROOTS)"

definition seatbelt_allow_read :: "string \<Rightarrow> string" where
  "seatbelt_allow_read p = ''(allow file-read* (subpath '' @ quoted p @ ''))'' @ NL"

definition seatbelt_allow_write :: "string \<Rightarrow> string" where
  "seatbelt_allow_write p = ''(allow file-read* file-write* (subpath '' @ quoted p @ ''))'' @ NL"

fun seatbelt_mount :: "(string \<Rightarrow> string option) \<Rightarrow> mount_source \<Rightarrow> string" where
  "seatbelt_mount canon (WorkspaceMount h) = seatbelt_allow_read (seatbelt_path canon h)"
| "seatbelt_mount canon (SystemTools h) = seatbelt_allow_read (seatbelt_path canon h)"
| "seatbelt_mount canon (OverlayMount h) =
     seatbelt_allow_read (seatbelt_path canon h) @ seatbelt_allow_write (seatbelt_path canon h)"
| "seatbelt_mount canon Temporary = []"

definition seatbelt_profile :: "(string \<Rightarrow> string option) \<Rightarrow> validated_plan \<Rightarrow> string" where
  "seatbelt_profile canon plan =
     seatbelt_preamble @ concat (map (\<lambda>m. seatbelt_mount canon (mo_source m)) (sp_mounts (vp_plan plan)))
     @ ''(deny network*)'' @ NL"

definition seatbelt_probe_profile :: "(string \<Rightarrow> string option) \<Rightarrow> string \<Rightarrow> string" where
  "seatbelt_probe_profile canon overlay =
     seatbelt_preamble @ seatbelt_mount canon (OverlayMount overlay) @ ''(deny network*)'' @ NL"

definition bwrap_wrapper :: "string \<Rightarrow> string list" where
  "bwrap_wrapper overlay =
     [''bwrap'', ''--ro-bind'', ''/usr'', ''/usr'', ''--ro-bind'', ''/bin'', ''/bin'', ''--ro-bind'', ''/lib'', ''/lib'',
      ''--ro-bind'', ''/lib64'', ''/lib64'', ''--proc'', ''/proc'', ''--dev'', ''/dev'', ''--tmpfs'', ''/tmp'',
      ''--bind'', overlay, overlay, ''--unshare-net'', ''--die-with-parent'', ''--new-session'', ''--clearenv'']"

section \<open>The backend\<close>

record wrapper_realm =
  wr_plan :: validated_plan
  wr_profile_path :: "string option"

record wrapper_backend =
  wb_kind :: wrapper_kind
  wb_descriptor :: backend_descriptor
  wb_health_report :: health_report
  wb_realms :: "(string, wrapper_realm) btree"
  wb_counter :: u64

definition wrapper_probe :: "wrapper_kind \<Rightarrow> health_report \<Rightarrow> wrapper_backend" where
  "wrapper_probe kind report =
     \<lparr>wb_kind = kind,
      wb_descriptor = (case kind of
          DarwinSeatbelt \<Rightarrow> wrapper_descriptor ''darwin://seatbelt-v1'' MacOs
        | LinuxBwrap \<Rightarrow> wrapper_descriptor ''linux://bwrap-v1'' Linux),
      wb_health_report = report, wb_realms = [], wb_counter = 0\<rparr>"

definition wrapper_realm_id :: "u64 \<Rightarrow> string" where
  "wrapper_realm_id n = ''oswrapper-realm-'' @ pad_zeros 8 (show_dec (unat n))"

definition replace_separators :: "string \<Rightarrow> string" where
  "replace_separators s = map (\<lambda>c. if c = CHR '':'' \<or> c = CHR ''/'' then CHR ''-'' else c) s"

text \<open>The wrapper arguments, or a failed write of the profile, and the realm afterwards.\<close>

definition build_wrapper_for ::
  "(string \<Rightarrow> string option) \<Rightarrow> string \<Rightarrow> (string \<Rightarrow> string \<Rightarrow> bool) \<Rightarrow> wrapper_kind \<Rightarrow> wrapper_realm
   \<Rightarrow> (sandbox_error + string list) \<times> wrapper_realm" where
  "build_wrapper_for canon temp_dir write_profile kind realm =
     (case kind of
        DarwinSeatbelt \<Rightarrow>
          (let path = path_join temp_dir (''saber-sbx-profile-'' @ replace_separators (vp_digest (wr_plan realm)) @ ''.sb'') in
           if \<not> write_profile path (seatbelt_profile canon (wr_plan realm)) then (Err ExecFailed, realm)
           else
             (let wrapper_path = (case wr_profile_path realm of None \<Rightarrow> path | Some p \<Rightarrow> p) in
              (Ok [''/usr/bin/sandbox-exec'', ''-f'', wrapper_path], realm\<lparr>wr_profile_path := Some wrapper_path\<rparr>)))
      | LinuxBwrap \<Rightarrow>
          (let overlay_host =
             (case find (\<lambda>m. is_overlay (mo_source m)) (sp_mounts (vp_plan (wr_plan realm))) of
                None \<Rightarrow> ''/nonexistent''
              | Some m \<Rightarrow> (case source_host_path (mo_source m) of None \<Rightarrow> ''/nonexistent'' | Some h \<Rightarrow> h))
           in (Ok (bwrap_wrapper overlay_host), realm)))"

definition wrapper_realm_of :: "wrapper_backend \<Rightarrow> realm_handle \<Rightarrow> wrapper_realm option" where
  "wrapper_realm_of self handle =
     (case bt_get (wb_realms self) (rh_realm_id handle) of
        None \<Rightarrow> None
      | Some realm \<Rightarrow> if vp_digest (wr_plan realm) = rh_plan_digest handle then Some realm else None)"

definition wrapper_create ::
  "wrapper_backend \<Rightarrow> validated_plan \<Rightarrow> (sandbox_error + realm_handle) \<times> wrapper_backend" where
  "wrapper_create self plan =
     (if \<not> hr_healthy (wb_health_report self) then (Err BackendUnhealthy, self)
      else if sp_realm (vp_plan plan) > bd_max_realm (wb_descriptor self) then (Err BackendUnavailable, self)
      else
        (let counter = wb_counter self + 1; realm_id = wrapper_realm_id counter
         in (Ok \<lparr>rh_realm_id = realm_id, rh_plan_digest = vp_digest plan\<rparr>,
             self\<lparr>wb_counter := counter,
                  wb_realms := bt_insert realm_id \<lparr>wr_plan = plan, wr_profile_path = None\<rparr> (wb_realms self)\<rparr>)))"

definition wrapper_mount :: "wrapper_backend \<Rightarrow> realm_handle \<Rightarrow> mount_spec \<Rightarrow> sandbox_error + unit" where
  "wrapper_mount self handle mount =
     (case wrapper_realm_of self handle of
        None \<Rightarrow> Err InvalidHandle
      | Some realm \<Rightarrow> if mount \<notin> set (sp_mounts (vp_plan (wr_plan realm))) then Err PlanViolation else Ok ())"

definition wrapper_network :: "wrapper_backend \<Rightarrow> realm_handle \<Rightarrow> network_spec \<Rightarrow> sandbox_error + unit" where
  "wrapper_network self handle spec =
     (case wrapper_realm_of self handle of
        None \<Rightarrow> Err InvalidHandle
      | Some realm \<Rightarrow> if sp_network (vp_plan (wr_plan realm)) \<noteq> spec then Err PlanViolation else Ok ())"

definition wrapper_exec ::
  "(spawn_request \<Rightarrow> sandbox_error + child_report) \<Rightarrow> (string \<Rightarrow> string option) \<Rightarrow> string \<Rightarrow> (string \<Rightarrow> string \<Rightarrow> bool)
   \<Rightarrow> wrapper_backend \<Rightarrow> realm_handle \<Rightarrow> command_spec \<Rightarrow> injected
   \<Rightarrow> (sandbox_error + exec_outcome) \<times> wrapper_backend" where
  "wrapper_exec spawn canon temp_dir write_profile self handle command injected =
     (if \<not> hr_healthy (wb_health_report self) then (Err BackendUnhealthy, self)
      else case wrapper_realm_of self handle of
        None \<Rightarrow> (Err InvalidHandle, self)
      | Some realm \<Rightarrow>
          let plan = vp_plan (wr_plan realm) in
          if sp_command plan \<noteq> Some command then (Err PlanViolation, self)
          else
            (let (built, realm') = build_wrapper_for canon temp_dir write_profile (wb_kind self) realm;
                 self' = self\<lparr>wb_realms := bt_insert (rh_realm_id handle) realm' (wb_realms self)\<rparr> in
             case built of
               Err e \<Rightarrow> (Err e, self')
             | Ok wrapper \<Rightarrow>
                 (let host_mounts = host_mounts_of canon temp_dir (wr_plan realm);
                      target =
                        (case wb_kind self of
                           DarwinSeatbelt \<Rightarrow>
                             (case map_realm_path host_mounts (hd (co_argv command)) of
                                Err e \<Rightarrow> Err e
                              | Ok entry \<Rightarrow>
                                  (case map_realm_path host_mounts (co_cwd command) of
                                     Err e \<Rightarrow> Err e
                                   | Ok cwd \<Rightarrow> Ok ((co_argv command)[0 := entry], cwd)))
                         | LinuxBwrap \<Rightarrow> Ok (co_argv command, ''/''))
                  in case target of
                       Err e \<Rightarrow> (Err e, self')
                     | Ok (child_argv, cwd) \<Rightarrow>
                         (run_scrubbed_child spawn child_argv cwd (sp_env plan) (sp_mounts plan) (sp_budget plan)
                            injected (co_stdin command) wrapper, self'))))"

definition wrapper_snapshot ::
  "(string \<Rightarrow> string) \<Rightarrow> wrapper_backend \<Rightarrow> realm_handle \<Rightarrow> sandbox_error + snapshot_record" where
  "wrapper_snapshot H self handle =
     (case wrapper_realm_of self handle of
        None \<Rightarrow> Err InvalidHandle
      | Some realm \<Rightarrow>
          Ok \<lparr>sn_snapshot_id = ''sha256:'' @ hex_upper (H (rh_realm_id handle @ vp_digest (wr_plan realm))),
              sn_realm_id = rh_realm_id handle\<rparr>)"

definition wrapper_destroy ::
  "wrapper_backend \<Rightarrow> realm_handle \<Rightarrow> (sandbox_error + destroy_report) \<times> wrapper_backend" where
  "wrapper_destroy self handle =
     (case bt_get (wb_realms self) (rh_realm_id handle) of
        None \<Rightarrow> (Err InvalidHandle, self)
      | Some _ \<Rightarrow>
          (Ok \<lparr>dr_realm_id = rh_realm_id handle, dr_killed_processes = 0\<rparr>,
           self\<lparr>wb_realms := bt_remove (rh_realm_id handle) (wb_realms self)\<rparr>))"

definition wrapper_ops ::
  "(string \<Rightarrow> string) \<Rightarrow> (spawn_request \<Rightarrow> sandbox_error + child_report) \<Rightarrow> (string \<Rightarrow> string option) \<Rightarrow> string
   \<Rightarrow> (string \<Rightarrow> string \<Rightarrow> bool) \<Rightarrow> wrapper_backend backend_ops" where
  "wrapper_ops H spawn canon temp_dir write_profile =
     \<lparr>bo_descriptor = wb_descriptor,
      bo_health = (\<lambda>b. (wb_health_report b, b)),
      bo_create = wrapper_create,
      bo_mount = (\<lambda>b h m. (wrapper_mount b h m, b)),
      bo_network = (\<lambda>b h n. (wrapper_network b h n, b)),
      bo_exec = wrapper_exec spawn canon temp_dir write_profile,
      bo_kill = (\<lambda>b h. (Ok (), b)),
      bo_snapshot = (\<lambda>b h. (wrapper_snapshot H b h, b)),
      bo_destroy = wrapper_destroy\<rparr>"

section \<open>Selection\<close>

definition qualifies :: "'b backend_ops \<Rightarrow> bool \<Rightarrow> validated_plan \<Rightarrow> 'b \<Rightarrow> bool" where
  "qualifies ops testing plan b \<longleftrightarrow>
     admissible testing plan (bo_descriptor ops b) \<and> hr_healthy (fst (bo_health ops b))"

lemma select_loop_result:
  "case fst (select_loop ops testing plan i bs) of
     Err e \<Rightarrow> e = BackendUnavailable \<and> (\<forall>b \<in> set bs. \<not> qualifies ops testing plan b)
   | Ok sel \<Rightarrow> (\<exists>n < length bs. se_index sel = i + n \<and> se_descriptor sel = bo_descriptor ops (bs ! n)
       \<and> qualifies ops testing plan (bs ! n) \<and> (\<forall>k < n. \<not> qualifies ops testing plan (bs ! k)))"
proof (induction bs arbitrary: i)
  case (Cons b bs)
  show ?case
  proof (cases "qualifies ops testing plan b")
    case True
    then show ?thesis
      by (auto simp: qualifies_def Let_def split: prod.splits)
  next
    case False
    then have "fst (select_loop ops testing plan i (b # bs)) = fst (select_loop ops testing plan (Suc i) bs)"
      by (auto simp: qualifies_def Let_def split: prod.splits)
    with Cons [where i = "Suc i"] False show ?thesis
      by (fastforce simp: nth_Cons' less_Suc_eq_0_disj split: sum.splits intro: exI [of _ "Suc _"])
  qed
qed simp

lemma select_loop_length: "length (snd (select_loop ops testing plan i bs)) = length bs"
proof (induction bs arbitrary: i)
  case (Cons b bs)
  from Cons [of "Suc i"] show ?case
    by (cases "bo_health ops b"; cases "select_loop ops testing plan (Suc i) bs") (simp add: Let_def)
qed simp

lemma select_loop_range:
  "fst (select_loop ops testing plan i bs) = Ok sel \<Longrightarrow> i \<le> se_index sel \<and> se_index sel < i + length bs"
  using select_loop_result [where ops = ops and testing = testing and plan = plan and i = i and bs = bs] by auto

lemma selection_in_range:
  "select_for ops reg plan = (Ok sel, reg') \<Longrightarrow> se_index sel < length (br_backends reg')"
  using select_loop_range [of ops "br_testing reg" plan 0 "br_backends reg" sel]
    select_loop_length [of ops "br_testing reg" plan 0 "br_backends reg"]
  by (auto simp: select_for_def split: prod.splits)

text \<open>
  selection is fail-closed. The backend chosen is the first whose descriptor is admissible
  for the plan and whose health probe passes; when there is none the answer is
  \<open>BackendUnavailable\<close>.
\<close>

theorem selection_fail_closed:
  "case fst (select_for ops reg plan) of
     Err e \<Rightarrow> e = BackendUnavailable \<and> (\<forall>b \<in> set (br_backends reg). \<not> qualifies ops (br_testing reg) plan b)
   | Ok sel \<Rightarrow> se_index sel < length (br_backends reg)
       \<and> qualifies ops (br_testing reg) plan (br_backends reg ! se_index sel)
       \<and> (\<forall>k < se_index sel. \<not> qualifies ops (br_testing reg) plan (br_backends reg ! k))"
  using select_loop_result [where ops = ops and testing = "br_testing reg" and plan = plan and i = 0 and bs = "br_backends reg"]
  by (auto simp: select_for_def split: prod.splits sum.splits)

section \<open>The host registry\<close>

datatype host_backend = HostGuarded guarded_backend | HostWrapper wrapper_backend

text \<open>Dynamic dispatch over the two implementations.\<close>

definition lift_op :: "('x \<times> guarded_backend) \<Rightarrow> 'x \<times> host_backend" where
  "lift_op r = map_prod id HostGuarded r"

definition lift_wop :: "('x \<times> wrapper_backend) \<Rightarrow> 'x \<times> host_backend" where
  "lift_wop r = map_prod id HostWrapper r"

definition host_ops ::
  "guarded_backend backend_ops \<Rightarrow> wrapper_backend backend_ops \<Rightarrow> host_backend backend_ops" where
  "host_ops g w =
     \<lparr>bo_descriptor = (\<lambda>b. case b of HostGuarded x \<Rightarrow> bo_descriptor g x | HostWrapper x \<Rightarrow> bo_descriptor w x),
      bo_health = (\<lambda>b. case b of HostGuarded x \<Rightarrow> lift_op (bo_health g x) | HostWrapper x \<Rightarrow> lift_wop (bo_health w x)),
      bo_create = (\<lambda>b p. case b of HostGuarded x \<Rightarrow> lift_op (bo_create g x p) | HostWrapper x \<Rightarrow> lift_wop (bo_create w x p)),
      bo_mount = (\<lambda>b h m. case b of HostGuarded x \<Rightarrow> lift_op (bo_mount g x h m) | HostWrapper x \<Rightarrow> lift_wop (bo_mount w x h m)),
      bo_network = (\<lambda>b h n. case b of HostGuarded x \<Rightarrow> lift_op (bo_network g x h n) | HostWrapper x \<Rightarrow> lift_wop (bo_network w x h n)),
      bo_exec = (\<lambda>b h c i. case b of HostGuarded x \<Rightarrow> lift_op (bo_exec g x h c i) | HostWrapper x \<Rightarrow> lift_wop (bo_exec w x h c i)),
      bo_kill = (\<lambda>b h. case b of HostGuarded x \<Rightarrow> lift_op (bo_kill g x h) | HostWrapper x \<Rightarrow> lift_wop (bo_kill w x h)),
      bo_snapshot = (\<lambda>b h. case b of HostGuarded x \<Rightarrow> lift_op (bo_snapshot g x h) | HostWrapper x \<Rightarrow> lift_wop (bo_snapshot w x h)),
      bo_destroy = (\<lambda>b h. case b of HostGuarded x \<Rightarrow> lift_op (bo_destroy g x h) | HostWrapper x \<Rightarrow> lift_wop (bo_destroy w x h))\<rparr>"

definition for_current_platform :: "platform \<Rightarrow> health_report \<Rightarrow> host_backend backend_registry" where
  "for_current_platform platform probe_report =
     \<lparr>br_backends = HostGuarded (guarded_new platform) #
        (case platform of
           MacOs \<Rightarrow> [HostWrapper (wrapper_probe DarwinSeatbelt probe_report)]
         | Linux \<Rightarrow> [HostWrapper (wrapper_probe LinuxBwrap probe_report)]
         | Windows \<Rightarrow> []),
      br_testing = False\<rparr>"

definition with_testing_backends :: "'b list \<Rightarrow> 'b backend_registry" where
  "with_testing_backends backends = \<lparr>br_backends = backends, br_testing = True\<rparr>"

section \<open>The contract of a backend\<close>

text \<open>
  What the broker relies on: a handle names a live realm and its plan; an operation succeeds
  only within that plan and keeps the realms; destruction ends the realm.
\<close>

locale realm_backend =
  fixes ops :: "'b backend_ops"
    and realm_of :: "'b \<Rightarrow> realm_handle \<Rightarrow> validated_plan option"
  assumes create_opens: "bo_create ops b plan = (Ok h, b') \<Longrightarrow> realm_of b' h = Some plan"
    and mount_within: "bo_mount ops b h m = (Ok u, b') \<Longrightarrow>
      \<exists>plan. realm_of b h = Some plan \<and> m \<in> set (sp_mounts (vp_plan plan))"
    and network_within: "bo_network ops b h n = (Ok u, b') \<Longrightarrow>
      \<exists>plan. realm_of b h = Some plan \<and> sp_network (vp_plan plan) = n"
    and exec_within: "bo_exec ops b h c given = (Ok out, b') \<Longrightarrow>
      \<exists>plan env. realm_of b h = Some plan \<and> sp_command (vp_plan plan) = Some c
        \<and> build_environment (sp_env (vp_plan plan)) (sp_mounts (vp_plan plan)) given = Ok env"
    and mount_keeps: "realm_of (snd (bo_mount ops b h m)) h' = realm_of b h'"
    and network_keeps: "realm_of (snd (bo_network ops b h n)) h' = realm_of b h'"
    and exec_keeps: "realm_of (snd (bo_exec ops b h c given)) h' = realm_of b h'"
    and destroy_ends: "realm_of (snd (bo_destroy ops b h)) h = None"
begin

fun mount_all :: "'b \<Rightarrow> realm_handle \<Rightarrow> mount_spec list \<Rightarrow> 'b" where
  "mount_all b h [] = b"
| "mount_all b h (m # ms) = mount_all (snd (bo_mount ops b h m)) h ms"

lemma mount_all_keeps: "realm_of (mount_all b h ms) h' = realm_of b h'"
  by (induction b h ms rule: mount_all.induct) (simp_all add: mount_keeps)

text \<open>A session that executes after creating its realm runs the command of that plan.\<close>

lemma session_runs_its_plan:
  assumes "bo_create ops b plan = (Ok h, b1)"
    and "bo_exec ops (snd (bo_network ops (mount_all b1 h ms) h n)) h c given = (Ok out, b2)"
  shows "sp_command (vp_plan plan) = Some c"
    "\<exists>env. build_environment (sp_env (vp_plan plan)) (sp_mounts (vp_plan plan)) given = Ok env"
proof -
  have "realm_of (snd (bo_network ops (mount_all b1 h ms) h n)) h = Some plan"
    using create_opens [OF assms(1)] by (simp add: network_keeps mount_all_keeps)
  with exec_within [OF assms(2)] show "sp_command (vp_plan plan) = Some c"
    "\<exists>env. build_environment (sp_env (vp_plan plan)) (sp_mounts (vp_plan plan)) given = Ok env" by auto
qed

text \<open>A destroyed realm serves nothing.\<close>

lemma destroyed_realm_refuses:
  assumes "b' = snd (bo_destroy ops b h)"
  shows "\<exists>e. fst (bo_mount ops b' h m) = Err e" "\<exists>e. fst (bo_network ops b' h n) = Err e"
    "\<exists>e. fst (bo_exec ops b' h c given) = Err e"
proof -
  have d: "realm_of b' h = None" using assms destroy_ends by simp
  show "\<exists>e. fst (bo_mount ops b' h m) = Err e"
    using d mount_within [of b' h m] by (cases "bo_mount ops b' h m"; cases "fst (bo_mount ops b' h m)") auto
  show "\<exists>e. fst (bo_network ops b' h n) = Err e"
    using d network_within [of b' h n] by (cases "bo_network ops b' h n"; cases "fst (bo_network ops b' h n)") auto
  show "\<exists>e. fst (bo_exec ops b' h c given) = Err e"
    using d exec_within [of b' h c given] by (cases "bo_exec ops b' h c given"; cases "fst (bo_exec ops b' h c given)") auto
qed

end

definition guarded_plan_of :: "guarded_backend \<Rightarrow> realm_handle \<Rightarrow> validated_plan option" where
  "guarded_plan_of b h = map_option rs_plan (guarded_realm b h)"

definition wrapper_plan_of :: "wrapper_backend \<Rightarrow> realm_handle \<Rightarrow> validated_plan option" where
  "wrapper_plan_of b h = map_option wr_plan (wrapper_realm_of b h)"

lemma build_wrapper_plan: "wr_plan (snd (build_wrapper_for canon tmp wp kind realm)) = wr_plan realm"
  by (auto simp: build_wrapper_for_def Let_def split: wrapper_kind.splits)

lemma wrapper_insert_keeps:
  assumes "wrapper_realm_of b h = Some realm" "wr_plan realm' = wr_plan realm"
  shows "wrapper_plan_of (b\<lparr>wb_realms := bt_insert (rh_realm_id h) realm' (wb_realms b)\<rparr>) h' = wrapper_plan_of b h'"
  using assms by (auto simp: wrapper_plan_of_def wrapper_realm_of_def store_simps split: option.splits if_splits)

lemma wrapper_exec_keeps: "wrapper_plan_of (snd (wrapper_exec spawn canon tmp wp b h c given)) h' = wrapper_plan_of b h'"
proof (cases "wrapper_realm_of b h")
  case None
  then show ?thesis by (simp add: wrapper_exec_def)
next
  case (Some realm)
  obtain built realm' where w: "build_wrapper_for canon tmp wp (wb_kind b) realm = (built, realm')"
    by (cases "build_wrapper_for canon tmp wp (wb_kind b) realm")
  then have "wr_plan realm' = wr_plan realm" using build_wrapper_plan [of canon tmp wp "wb_kind b" realm] by simp
  from wrapper_insert_keeps [OF Some this] have
    "wrapper_plan_of (b\<lparr>wb_realms := bt_insert (rh_realm_id h) realm' (wb_realms b)\<rparr>) h' = wrapper_plan_of b h'" .
  with Some w show ?thesis
    by (simp add: wrapper_exec_def Let_def split: sum.splits prod.splits)
qed

text \<open>What an execution that succeeded did.\<close>

lemma wrapper_exec_Ok:
  assumes "wrapper_exec spawn canon tmp wp b h c given = (Ok out, b')"
  obtains realm env wrapper argv cwd child where
    "wrapper_realm_of b h = Some realm" "sp_command (vp_plan (wr_plan realm)) = Some c"
    "build_environment (sp_env (vp_plan (wr_plan realm))) (sp_mounts (vp_plan (wr_plan realm))) given = Ok env"
    "spawn \<lparr>sq_argv = wrapper @ argv, sq_env = env, sq_cwd = cwd,
       sq_stdin = map_option (take (unat (bu_max_stdin_bytes (sp_budget (vp_plan (wr_plan realm)))))) (co_stdin c),
       sq_deadline_ms = bu_wall_clock_ms (sp_budget (vp_plan (wr_plan realm))),
       sq_output_cap = unat (bu_max_output_bytes (sp_budget (vp_plan (wr_plan realm))))\<rparr> = Ok child"
    "xo_stdout out = fst (read_capped (unat (bu_max_output_bytes (sp_budget (vp_plan (wr_plan realm))))) (ch_stdout child) [])"
    "xo_stderr out = fst (read_capped (unat (bu_max_output_bytes (sp_budget (vp_plan (wr_plan realm))))) (ch_stderr child) [])"
    "fst (build_wrapper_for canon tmp wp (wb_kind b) realm) = Ok wrapper" "xo_exit_code out = ch_exit_code child"
    "wb_kind b = LinuxBwrap \<longrightarrow> argv = co_argv c \<and> cwd = ''/''"
    "wb_kind b = DarwinSeatbelt \<longrightarrow>
      (\<exists>entry. map_realm_path (host_mounts_of canon tmp (wr_plan realm)) (hd (co_argv c)) = Ok entry
         \<and> argv = (co_argv c)[0 := entry] \<and> map_realm_path (host_mounts_of canon tmp (wr_plan realm)) (co_cwd c) = Ok cwd)"
  using assms
  by (auto simp: wrapper_exec_def run_scrubbed_child_def Let_def split: option.splits sum.splits prod.splits if_splits wrapper_kind.splits)



lemma read_capped_complete:
  "length collected \<le> cap \<Longrightarrow>
     snd (read_capped cap chunks collected) \<longleftrightarrow> length collected + length (concat chunks) > cap"
  by (induction cap chunks collected rule: read_capped.induct) auto

interpretation guarded_backend: realm_backend "guarded_ops H inventory canon tmp" guarded_plan_of
  for H inventory canon tmp
proof unfold_locales
  show "bo_create (guarded_ops H inventory canon tmp) b plan = (Ok h, b') \<Longrightarrow> guarded_plan_of b' h = Some plan"
    for b plan h b'
    by (auto simp: guarded_ops_def guarded_create_def guarded_plan_of_def guarded_realm_def Let_def store_simps
        split: if_splits)
qed (auto simp: guarded_ops_def guarded_mount_def guarded_network_def guarded_exec_def guarded_destroy_def
      guarded_plan_of_def guarded_realm_def store_simps split: option.splits if_splits network_spec.splits)

interpretation wrapper_backend: realm_backend "wrapper_ops H spawn canon tmp wp" wrapper_plan_of
  for H spawn canon tmp wp
proof unfold_locales
  show "bo_create (wrapper_ops H spawn canon tmp wp) b plan = (Ok h, b') \<Longrightarrow> wrapper_plan_of b' h = Some plan"
    for b plan h b'
    by (auto simp: wrapper_ops_def wrapper_create_def wrapper_plan_of_def wrapper_realm_of_def Let_def store_simps
        split: if_splits)
  show "bo_exec (wrapper_ops H spawn canon tmp wp) b h c given = (Ok out, b') \<Longrightarrow>
      \<exists>plan env. wrapper_plan_of b h = Some plan \<and> sp_command (vp_plan plan) = Some c
        \<and> build_environment (sp_env (vp_plan plan)) (sp_mounts (vp_plan plan)) given = Ok env"
    for b h c given out b'
    by (auto simp: wrapper_ops_def wrapper_plan_of_def elim: wrapper_exec_Ok)
  show "wrapper_plan_of (snd (bo_exec (wrapper_ops H spawn canon tmp wp) b h c given)) h' = wrapper_plan_of b h'"
    for b h c given h'
    by (simp add: wrapper_ops_def wrapper_exec_keeps)
qed (auto simp: wrapper_ops_def wrapper_mount_def wrapper_network_def wrapper_destroy_def
      wrapper_plan_of_def wrapper_realm_of_def store_simps split: option.splits if_splits)


text \<open>Dispatch keeps the contract, so the host registry's backends fulfil it too.\<close>

fun host_plan_of :: "host_backend \<Rightarrow> realm_handle \<Rightarrow> validated_plan option" where
  "host_plan_of (HostGuarded g) h = guarded_plan_of g h"
| "host_plan_of (HostWrapper w) h = wrapper_plan_of w h"

lemma lift_op_simps [simp]:
  "snd (lift_op r) = HostGuarded (snd r)" "snd (lift_wop w) = HostWrapper (snd w)"
  "fst (lift_op r) = fst r" "fst (lift_wop w) = fst w"
  "lift_op r = (x, b) \<longleftrightarrow> (\<exists>g. r = (x, g) \<and> b = HostGuarded g)"
  "lift_wop w = (y, b) \<longleftrightarrow> (\<exists>v. w = (y, v) \<and> b = HostWrapper v)"
  by (cases r; cases w; auto simp: lift_op_def lift_wop_def)+

definition std_host_ops ::
  "(string \<Rightarrow> string) \<Rightarrow> (string \<Rightarrow> string) \<Rightarrow> (spawn_request \<Rightarrow> sandbox_error + child_report) \<Rightarrow> (string \<Rightarrow> string option)
   \<Rightarrow> string \<Rightarrow> (string \<Rightarrow> string \<Rightarrow> bool) \<Rightarrow> host_backend backend_ops" where
  "std_host_ops H inventory spawn canon tmp wp =
     host_ops (guarded_ops H inventory canon tmp) (wrapper_ops H spawn canon tmp wp)"

interpretation host_backend: realm_backend "std_host_ops H inventory spawn canon tmp wp" host_plan_of
  for H inventory spawn canon tmp wp
proof unfold_locales
  fix b :: host_backend
  show "bo_create (std_host_ops H inventory spawn canon tmp wp) b plan = (Ok h, b') \<Longrightarrow> host_plan_of b' h = Some plan"
    for plan h b'
    by (cases b) (auto simp: std_host_ops_def host_ops_def intro: guarded_backend.create_opens wrapper_backend.create_opens)
  show "bo_mount (std_host_ops H inventory spawn canon tmp wp) b h m = (Ok u, b') \<Longrightarrow>
      \<exists>plan. host_plan_of b h = Some plan \<and> m \<in> set (sp_mounts (vp_plan plan))" for h m u b'
    by (cases b) (auto simp: std_host_ops_def host_ops_def dest!: guarded_backend.mount_within wrapper_backend.mount_within)
  show "bo_network (std_host_ops H inventory spawn canon tmp wp) b h n = (Ok u, b') \<Longrightarrow>
      \<exists>plan. host_plan_of b h = Some plan \<and> sp_network (vp_plan plan) = n" for h n u b'
    by (cases b) (auto simp: std_host_ops_def host_ops_def dest!: guarded_backend.network_within wrapper_backend.network_within)
  show "bo_exec (std_host_ops H inventory spawn canon tmp wp) b h c given = (Ok out, b') \<Longrightarrow>
      \<exists>plan env. host_plan_of b h = Some plan \<and> sp_command (vp_plan plan) = Some c
        \<and> build_environment (sp_env (vp_plan plan)) (sp_mounts (vp_plan plan)) given = Ok env" for h c given out b'
    by (cases b) (auto simp: std_host_ops_def host_ops_def dest!: guarded_backend.exec_within wrapper_backend.exec_within)
qed (auto simp: std_host_ops_def host_ops_def guarded_backend.mount_keeps wrapper_backend.mount_keeps
      guarded_backend.network_keeps wrapper_backend.network_keeps guarded_backend.exec_keeps wrapper_backend.exec_keeps
      guarded_backend.destroy_ends wrapper_backend.destroy_ends split: host_backend.splits)

section \<open>Properties of the host backends\<close>

lemma validated_requirements: "plan_validate H enc p = Ok plan \<Longrightarrow>
    vp_plan plan = p \<and> vp_requirements plan = requirements (sp_realm p)"
  by (simp add: plan_validate_Ok)

lemma guarded_admissible:
  assumes "plan_validate H enc p = Ok plan"
  shows "admissible False plan (gb_descriptor (guarded_new platform)) \<longleftrightarrow> sp_realm p \<le> S1GuardedRead"
  using validated_requirements [OF assms]
  by (cases "sp_realm p") (simp_all add: admissible_def guarded_new_def caps_cover_def less_realm_def less_eq_realm_def)

lemma wrapper_admissible:
  assumes "plan_validate H enc p = Ok plan"
  shows "admissible False plan (wb_descriptor (wrapper_probe kind report)) \<longleftrightarrow> sp_realm p \<le> S3IsolatedOverlay"
  using validated_requirements [OF assms]
  by (cases "sp_realm p"; cases kind)
    (simp_all add: admissible_def wrapper_probe_def wrapper_descriptor_def caps_cover_def less_realm_def less_eq_realm_def)

text \<open>
  C14: no child runs unisolated. In the registry built for a host, a plan that runs a child
  selects the OS wrapper, only when its live probes passed, never on Windows and never for
  the egress-mediated realm; plans without a child select the guarded backend, which
  refuses every execution.
\<close>

theorem children_need_isolation:
  assumes "plan_validate H enc p = Ok plan"
    and "fst (select_for (std_host_ops D inventory spawn canon tmp wp) (for_current_platform platform report) plan) = Ok sel"
  shows "(sp_command p \<noteq> None \<longrightarrow> se_index sel = 1 \<and> hr_healthy report \<and> platform \<noteq> Windows
          \<and> sp_realm p \<le> S3IsolatedOverlay)
    \<and> (sp_command p = None \<longrightarrow> se_index sel = 0)
    \<and> (\<forall>g h c given. \<exists>e. fst (bo_exec (std_host_ops D inventory spawn canon tmp wp) (HostGuarded g) h c given) = Err e)"
proof -
  let ?ops = "std_host_ops D inventory spawn canon tmp wp" and ?reg = "for_current_platform platform report"
  have q0: "qualifies ?ops False plan (HostGuarded (guarded_new platform)) \<longleftrightarrow> sp_realm p \<le> S1GuardedRead"
    using guarded_admissible [OF assms(1)]
    by (simp add: qualifies_def std_host_ops_def host_ops_def guarded_ops_def healthy_report_def)
  have q1: "qualifies ?ops False plan (HostWrapper (wrapper_probe kind report)) \<longleftrightarrow>
      sp_realm p \<le> S3IsolatedOverlay \<and> hr_healthy report" for kind
    using wrapper_admissible [OF assms(1)]
    by (simp add: qualifies_def std_host_ops_def host_ops_def wrapper_ops_def)
      (simp add: wrapper_probe_def)
  have child: "sp_command p \<noteq> None \<longleftrightarrow> \<not> sp_realm p \<le> S1GuardedRead"
    using assms(1) by (cases "sp_realm p")
      (auto simp: plan_validate_Ok validate_command_def less_eq_realm_def split: option.splits)
  have sel: "se_index sel < length (br_backends ?reg)" "qualifies ?ops False plan (br_backends ?reg ! se_index sel)"
    "\<forall>k < se_index sel. \<not> qualifies ?ops False plan (br_backends ?reg ! k)"
    using select_loop_result [where ops = ?ops and testing = False and plan = plan and i = 0 and bs = "br_backends ?reg"] assms(2)
    by (auto simp: select_for_def for_current_platform_def split: prod.splits sum.splits)
  have idx: "se_index sel = 0 \<or> (se_index sel = 1 \<and> platform \<noteq> Windows)"
    using sel(1) by (cases platform) (auto simp: for_current_platform_def)
  have ex: "\<exists>e. fst (bo_exec ?ops (HostGuarded g) h c given) = Err e" for g h c given
    by (simp add: std_host_ops_def host_ops_def guarded_ops_def guarded_exec_def)
  show ?thesis
  proof (cases "sp_realm p \<le> S1GuardedRead")
    case True
    with sel(3) q0 have "se_index sel = 0"
      by (cases "se_index sel") (auto simp: for_current_platform_def)
    with True child ex show ?thesis by blast
  next
    case False
    with sel(2) q0 have "se_index sel \<noteq> 0"
      by (cases "se_index sel") (auto simp: for_current_platform_def)
    with idx have i: "se_index sel = 1" "platform \<noteq> Windows" by auto
    with sel(2) q1 have "sp_realm p \<le> S3IsolatedOverlay \<and> hr_healthy report"
      by (cases platform) (auto simp: for_current_platform_def)
    with i False child ex show ?thesis by blast
  qed
qed

lemma sample_selection:
  assumes v: "plan_validate H enc (sample_plan ''/tools/bin/run'') = Ok v"
  shows "\<exists>sel. fst (select_for (std_host_ops D inventory spawn canon tmp wp) (for_current_platform Linux healthy_report) v) = Ok sel"
proof -
  let ?r = "fst (select_for (std_host_ops D inventory spawn canon tmp wp) (for_current_platform Linux healthy_report) v)"
  have "admissible False v (wb_descriptor (wrapper_probe LinuxBwrap healthy_report))"
    unfolding wrapper_admissible [OF v] by (simp add: sample_plan_def)
  then have "qualifies (std_host_ops D inventory spawn canon tmp wp) False v (HostWrapper (wrapper_probe LinuxBwrap healthy_report))"
    by (simp add: qualifies_def std_host_ops_def host_ops_def wrapper_ops_def)
      (simp add: wrapper_probe_def healthy_report_def)
  then show ?thesis
    using select_loop_result [where ops = "std_host_ops D inventory spawn canon tmp wp" and testing = False and plan = v and i = 0
        and bs = "br_backends (for_current_platform Linux healthy_report)"]
    by (cases ?r) (auto simp: select_for_def for_current_platform_def split: prod.splits sum.splits)
qed

theorem children_need_isolation_witness:
  "\<exists>v sel. plan_validate id (\<lambda>_. Some []) (sample_plan ''/tools/bin/run'') = Ok v
     \<and> fst (select_for (std_host_ops id id (\<lambda>_. Err ExecFailed) Some ''/tmp'' (\<lambda>_ _. True)) (for_current_platform Linux healthy_report) v) = Ok sel
     \<and> se_index sel = 1"
proof -
  obtain v where v: "plan_validate id (\<lambda>_. Some []) (sample_plan ''/tools/bin/run'') = Ok v"
    using sample_plan_run by blast
  obtain sel where sel: "fst (select_for (std_host_ops id id (\<lambda>_. Err ExecFailed) Some ''/tmp'' (\<lambda>_ _. True)) (for_current_platform Linux healthy_report) v) = Ok sel"
    using sample_selection [OF v] by blast
  from children_need_isolation [OF v sel] have "se_index sel = 1" by (simp add: sample_plan_def)
  with v sel show ?thesis by blast
qed

theorem selection_fail_closed_witness:
  "\<exists>v sel. plan_validate id (\<lambda>_. Some []) (sample_plan ''/tools/bin/run'') = Ok v
     \<and> fst (select_for (std_host_ops id id (\<lambda>_. Err ExecFailed) Some ''/tmp'' (\<lambda>_ _. True)) (for_current_platform Linux healthy_report) v) = Ok sel
     \<and> qualifies (std_host_ops id id (\<lambda>_. Err ExecFailed) Some ''/tmp'' (\<lambda>_ _. True)) False v (br_backends (for_current_platform Linux healthy_report) ! se_index sel)"
proof -
  obtain v where v: "plan_validate id (\<lambda>_. Some []) (sample_plan ''/tools/bin/run'') = Ok v"
    using sample_plan_run by blast
  obtain sel where sel: "fst (select_for (std_host_ops id id (\<lambda>_. Err ExecFailed) Some ''/tmp'' (\<lambda>_ _. True)) (for_current_platform Linux healthy_report) v) = Ok sel"
    using sample_selection [OF v] by blast
  have "\<not> br_testing (for_current_platform Linux healthy_report)" by (simp add: for_current_platform_def)
  with selection_fail_closed [where ops = "(std_host_ops id id (\<lambda>_. Err ExecFailed) Some ''/tmp'' (\<lambda>_ _. True))" and reg = "for_current_platform Linux healthy_report" and plan = v] v sel show ?thesis by auto
qed









text \<open>
  On Linux the wrapper depends on the first overlay only: the other mounts a plan declares,
  the executable one included, are not bound into the child's root, while the command keeps
  its realm path.
\<close>

lemma bwrap_ignores_declared_mounts:
  assumes "find (\<lambda>m. is_overlay (mo_source m)) (sp_mounts (vp_plan (wr_plan r1))) =
           find (\<lambda>m. is_overlay (mo_source m)) (sp_mounts (vp_plan (wr_plan r2)))"
  shows "fst (build_wrapper_for canon tmp wp LinuxBwrap r1) = fst (build_wrapper_for canon tmp wp LinuxBwrap r2)"
  using assms by (simp add: build_wrapper_for_def)

text \<open>A mapped path stays under the host directory of a declared mount.\<close>

lemma map_realm_path_confined:
  "map_realm_path host_mounts p = Ok path \<Longrightarrow> \<exists>(target, host) \<in> set host_mounts. path_starts_with path host"
proof -
  have b: "best_mount n best ms = Some e \<Longrightarrow> best = Some e \<or> e \<in> set ms" for n best ms and e :: "string \<times> string"
    by (induction n best ms rule: best_mount.induct) (auto split: if_splits)
  show "map_realm_path host_mounts p = Ok path \<Longrightarrow> ?thesis"
    using b by (fastforce simp: map_realm_path_def Let_def split: option.splits prod.splits if_splits)
qed

end
