(* ===== verification/SecretBroker.thy ===== *)
theory SecretBroker
  imports Prelude
begin

text \<open>
  Secret custody (\<open>crates/secret-broker/src/lib.rs\<close>): registration, single-consumption
  leases, revocation, the expiry sweep and the redaction of captured output. Zeroizing is
  memory hygiene and has no counterpart here; counters and sums wrap as in a release build.
\<close>

section \<open>Data\<close>

definition MAX_LEASE_MS :: u64 where "MAX_LEASE_MS = 900000"

definition REDACTION_MARKER :: string where "REDACTION_MARKER = ''[saber:redacted]''"

datatype broker_error =
    UnknownReference | InvalidReference | ChannelNotAllowed | PurposeMismatch | InvalidLease | LeaseExpired
  | LeaseRevoked | LeaseReplay | DigestMismatch | BrokerUnavailable

fun broker_error_str :: "broker_error \<Rightarrow> string" where
  "broker_error_str UnknownReference = ''unknown_reference''"
| "broker_error_str InvalidReference = ''invalid_reference''"
| "broker_error_str ChannelNotAllowed = ''channel_not_allowed''"
| "broker_error_str PurposeMismatch = ''purpose_mismatch''"
| "broker_error_str InvalidLease = ''invalid_lease''"
| "broker_error_str LeaseExpired = ''expired''"
| "broker_error_str LeaseRevoked = ''revoked''"
| "broker_error_str LeaseReplay = ''replay''"
| "broker_error_str DigestMismatch = ''digest_mismatch''"
| "broker_error_str BrokerUnavailable = ''broker_unavailable''"

datatype channel = EnvVar string | FileTarget string

record secret_record =
  sr_material :: string
  sr_channels :: "channel list"
  sr_purposes :: "string list"
  sr_revoked :: bool

record lease_request =
  lq_credential_ref :: string
  lq_request_digest :: string
  lq_channels :: "channel list"
  lq_purpose :: string
  lq_expires_at_ms :: u64

record secret_lease =
  sl_lease_id :: string
  sl_credential_ref :: string
  sl_request_digest :: string
  sl_channels :: "channel list"
  sl_expires_at_ms :: u64
  sl_consumed :: bool

record lease_material =
  lm_lease_id :: string
  lm_material :: string

record lease_state =
  ls_lease :: secret_lease
  ls_revoked :: bool

record secret_broker =
  sb_records :: "(string, secret_record) btree"
  sb_leases :: "(string, lease_state) btree"
  sb_counter :: u64

definition broker_default :: secret_broker where
  "broker_default = \<lparr>sb_records = [], sb_leases = [], sb_counter = 0\<rparr>"

section \<open>Operations\<close>

definition broker_register ::
  "secret_broker \<Rightarrow> string \<Rightarrow> string \<Rightarrow> channel list \<Rightarrow> string list \<Rightarrow> (broker_error + unit) \<times> secret_broker" where
  "broker_register self credential_ref material channels purposes =
     (if \<not> starts_with credential_ref ''credential://broker/''
         \<or> length credential_ref = length ''credential://broker/''
         \<or> list_ex is_whitespace (utf8_chars credential_ref) then (Err InvalidReference, self)
      else if material = [] \<or> channels = [] \<or> purposes = [] then (Err InvalidLease, self)
      else if bt_get (sb_records self) credential_ref \<noteq> None then (Err InvalidReference, self)
      else (Ok (), self\<lparr>sb_records := bt_insert credential_ref
              \<lparr>sr_material = material, sr_channels = channels, sr_purposes = purposes, sr_revoked = False\<rparr>
              (sb_records self)\<rparr>))"

definition lease_id_of :: "u64 \<Rightarrow> string" where
  "lease_id_of n = ''lease-'' @ pad_zeros 8 (show_dec (unat n))"

definition broker_issue ::
  "secret_broker \<Rightarrow> lease_request \<Rightarrow> u64 \<Rightarrow> (broker_error + secret_lease) \<times> secret_broker" where
  "broker_issue self r now =
     (case bt_get (sb_records self) (lq_credential_ref r) of
        None \<Rightarrow> (Err UnknownReference, self)
      | Some rec \<Rightarrow>
          if sr_revoked rec then (Err LeaseRevoked, self)
          else if \<not> starts_with (lq_request_digest r) ''sha256:'' \<or> length (lq_request_digest r) \<noteq> 71
            then (Err InvalidLease, self)
          else if lq_expires_at_ms r \<le> now \<or> lq_expires_at_ms r > now + MAX_LEASE_MS then (Err InvalidLease, self)
          else if lq_channels r = [] then (Err InvalidLease, self)
          else if list_ex (\<lambda>c. c \<notin> set (sr_channels rec)) (lq_channels r) then (Err ChannelNotAllowed, self)
          else if lq_purpose r \<notin> set (sr_purposes rec) then (Err PurposeMismatch, self)
          else
            (let counter = sb_counter self + 1;
                 lease = \<lparr>sl_lease_id = lease_id_of counter, sl_credential_ref = lq_credential_ref r,
                          sl_request_digest = lq_request_digest r, sl_channels = lq_channels r,
                          sl_expires_at_ms = lq_expires_at_ms r, sl_consumed = False\<rparr>
             in (Ok lease, self\<lparr>sb_counter := counter,
                   sb_leases := bt_insert (sl_lease_id lease) \<lparr>ls_lease = lease, ls_revoked = False\<rparr> (sb_leases self)\<rparr>)))"

definition put_lease :: "secret_broker \<Rightarrow> string \<Rightarrow> lease_state \<Rightarrow> secret_broker" where
  "put_lease self lease_id st = self\<lparr>sb_leases := bt_insert lease_id st (sb_leases self)\<rparr>"

definition broker_consume ::
  "secret_broker \<Rightarrow> string \<Rightarrow> string \<Rightarrow> u64 \<Rightarrow> (broker_error + lease_material) \<times> secret_broker" where
  "broker_consume self lease_id expected_request_digest now =
     (case bt_get (sb_leases self) lease_id of
        None \<Rightarrow> (Err InvalidLease, self)
      | Some st \<Rightarrow>
          if ls_revoked st then (Err LeaseRevoked, self)
          else if sl_expires_at_ms (ls_lease st) \<le> now
            then (Err LeaseExpired, put_lease self lease_id (st\<lparr>ls_revoked := True\<rparr>))
          else if sl_consumed (ls_lease st) then (Err LeaseReplay, self)
          else if sl_request_digest (ls_lease st) \<noteq> expected_request_digest
            then (Err DigestMismatch, put_lease self lease_id (st\<lparr>ls_revoked := True\<rparr>))
          else
            (let self' = put_lease self lease_id (st\<lparr>ls_lease := (ls_lease st)\<lparr>sl_consumed := True\<rparr>\<rparr>) in
             case bt_get (sb_records self') (sl_credential_ref (ls_lease st)) of
               None \<Rightarrow> (Err UnknownReference, self')
             | Some rec \<Rightarrow> (Ok \<lparr>lm_lease_id = lease_id, lm_material = sr_material rec\<rparr>, self')))"

definition broker_revoke :: "secret_broker \<Rightarrow> string \<Rightarrow> (broker_error + unit) \<times> secret_broker" where
  "broker_revoke self lease_id =
     (case bt_get (sb_leases self) lease_id of
        None \<Rightarrow> (Err InvalidLease, self)
      | Some st \<Rightarrow> (Ok (), put_lease self lease_id (st\<lparr>ls_revoked := True\<rparr>)))"

definition revoke_reference :: "secret_broker \<Rightarrow> string \<Rightarrow> secret_broker" where
  "revoke_reference self credential_ref =
     (let leases = map (\<lambda>(i, st).
            (i, if sl_credential_ref (ls_lease st) = credential_ref then st\<lparr>ls_revoked := True\<rparr> else st)) (sb_leases self);
          records = (case bt_get (sb_records self) credential_ref of
                       None \<Rightarrow> sb_records self
                     | Some rec \<Rightarrow> bt_insert credential_ref (rec\<lparr>sr_revoked := True\<rparr>) (sb_records self))
      in self\<lparr>sb_leases := leases, sb_records := records\<rparr>)"

definition sweep_expired :: "u64 \<Rightarrow> lease_state \<Rightarrow> bool" where
  "sweep_expired now st \<longleftrightarrow> sl_expires_at_ms (ls_lease st) \<le> now \<and> \<not> ls_revoked st"

definition broker_sweep :: "secret_broker \<Rightarrow> u64 \<Rightarrow> (broker_error + string list) \<times> secret_broker" where
  "broker_sweep self now =
     (Ok (map fst (filter (\<lambda>(i, st). sweep_expired now st) (sb_leases self))),
      self\<lparr>sb_leases := map (\<lambda>(i, st). (i, if sweep_expired now st then st\<lparr>ls_revoked := True\<rparr> else st)) (sb_leases self)\<rparr>)"

definition reference_available :: "secret_broker \<Rightarrow> string \<Rightarrow> bool" where
  "reference_available self credential_ref =
     (case bt_get (sb_records self) credential_ref of None \<Rightarrow> False | Some rec \<Rightarrow> \<not> sr_revoked rec)"

section \<open>Redaction\<close>

fun window_position :: "string \<Rightarrow> string \<Rightarrow> nat option" where
  "window_position needle [] = None"
| "window_position needle (c # cs) =
     (if length (c # cs) < length needle then None
      else if take (length needle) (c # cs) = needle then Some 0
      else map_option Suc (window_position needle cs))"

definition find_subsequence :: "string \<Rightarrow> string \<Rightarrow> nat option" where
  "find_subsequence haystack needle =
     (if needle = [] \<or> length haystack < length needle then None else window_position needle haystack)"

lemma window_position_Some:
  "window_position n s = Some k \<Longrightarrow>
     k + length n \<le> length s \<and> take (length n) (drop k s) = n \<and> (\<forall>j < k. take (length n) (drop j s) \<noteq> n)"
proof (induction n s arbitrary: k rule: window_position.induct)
  case (2 needle c cs)
  show ?case
  proof (cases "take (length needle) (c # cs) = needle")
    case True
    with 2 show ?thesis by (auto split: if_splits)
  next
    case False
    with 2 show ?thesis by (auto simp: less_Suc_eq_0_disj split: if_splits)
  qed
qed simp

lemma window_position_None: "n \<noteq> [] \<Longrightarrow> window_position n s = None \<Longrightarrow> \<not> sublist n s"
proof (induction n s rule: window_position.induct)
  case (2 needle c cs)
  have "prefix needle (c # cs) \<Longrightarrow> take (length needle) (c # cs) = needle"
    by (auto simp: prefix_def)
  with 2 show ?case
    using sublist_length_le [of needle "c # cs"] by (auto simp: sublist_Cons_right split: if_splits)
qed (simp add: sublist_def)

text \<open>The \<open>while\<close> loop: the output, the offset it has reached, and the replacements made.\<close>

function redact_loop :: "string \<Rightarrow> string \<Rightarrow> nat \<Rightarrow> string \<times> nat" where
  "redact_loop needle output start =
     (case find_subsequence (drop start output) needle of
        None \<Rightarrow> (output, 0)
      | Some found \<Rightarrow>
          (let at = start + found;
               output' = take at output @ REDACTION_MARKER @ drop (at + length needle) output;
               start' = at + length REDACTION_MARKER
           in if start' \<ge> length output' then (output', 1)
              else (let (o', c) = redact_loop needle output' start' in (o', c + 1))))"
  by pat_completeness auto
termination
proof (relation "measure (\<lambda>(needle, buf, start). length buf - start)")
  fix needle buf :: string and start found at buf' start'
  assume f: "find_subsequence (drop start buf) needle = Some found" and a: "at = start + found"
    and o: "buf' = take at buf @ REDACTION_MARKER @ drop (at + length needle) buf"
    and s: "start' = at + length REDACTION_MARKER"
  from f have w: "window_position needle (drop start buf) = Some found" "needle \<noteq> []"
    by (auto simp: find_subsequence_def split: if_splits)
  have "found + length needle \<le> length buf - start" using window_position_Some [OF w(1)] by simp
  moreover have "length needle \<ge> 1" using w(2) by (cases needle) simp_all
  moreover from calculation have "length buf' = length buf - length needle + length REDACTION_MARKER" "start < length buf"
    by (simp_all add: o a)
  ultimately have "length buf' - start' < length buf - start"
    by (simp add: s a)
  then show "((needle, buf', start'), (needle, buf, start))
      \<in> measure (\<lambda>(needle, buf, start). length buf - start)" by simp
qed simp

declare redact_loop.simps [simp del]

fun redact_records :: "secret_record list \<Rightarrow> string \<Rightarrow> string \<times> nat" where
  "redact_records [] output = (output, 0)"
| "redact_records (rec # recs) output =
     (if sr_material rec = [] then redact_records recs output
      else (let (output', c) = redact_loop (sr_material rec) output 0; (output'', d) = redact_records recs output'
            in (output'', c + d)))"

definition redact :: "secret_broker \<Rightarrow> string \<Rightarrow> string \<times> nat" where
  "redact self output = redact_records (map snd (sb_records self)) output"

section \<open>What redaction leaves\<close>

text \<open>The loop on the part of the output it has not passed yet.\<close>

lemma find_subsequence_Some:
  "find_subsequence s n = Some k \<Longrightarrow> k + length n \<le> length s \<and> take (length n) (drop k s) = n
     \<and> (\<forall>j < k. take (length n) (drop j s) \<noteq> n) \<and> n \<noteq> []"
  using window_position_Some [of n s k] by (auto simp: find_subsequence_def split: if_splits)

lemma find_subsequence_None: "n \<noteq> [] \<Longrightarrow> find_subsequence s n = None \<longleftrightarrow> \<not> sublist n s"
proof
  assume "n \<noteq> []" "find_subsequence s n = None"
  then show "\<not> sublist n s"
    using window_position_None [of n s] sublist_length_le [of n s] by (auto simp: find_subsequence_def split: if_splits)
next
  assume "n \<noteq> []" "\<not> sublist n s"
  show "find_subsequence s n = None"
  proof (rule ccontr)
    assume "find_subsequence s n \<noteq> None"
    then obtain k where "take (length n) (drop k s) = n" using find_subsequence_Some by blast
    then have "s = take k s @ n @ drop (length n) (drop k s)" by (metis append_take_drop_id)
    with \<open>\<not> sublist n s\<close> show False by (metis sublist_appendI)
  qed
qed

lemma redact_loop_step:
  assumes "find_subsequence (drop start buf) n = Some k"
  shows "fst (redact_loop n buf start) =
    (if start + k + length REDACTION_MARKER \<ge> length (take (start + k) buf @ REDACTION_MARKER @ drop (start + k + length n) buf)
     then take (start + k) buf @ REDACTION_MARKER @ drop (start + k + length n) buf
     else fst (redact_loop n (take (start + k) buf @ REDACTION_MARKER @ drop (start + k + length n) buf)
                 (start + k + length REDACTION_MARKER)))"
  by (subst redact_loop.simps) (simp only: assms Let_def option.case case_prod_beta fst_conv if_distrib [of fst])

text \<open>No occurrence lies before the first one, even reaching into it.\<close>

lemma before_first_match:
  assumes "find_subsequence s n = Some k"
  shows "\<not> sublist n (take k s)"
proof
  assume "sublist n (take k s)"
  then obtain u v where t: "take k s = u @ n @ v" by (auto simp: sublist_def)
  then have "length u + length n \<le> k" by (metis length_append length_take le_add1 min.cobounded2 add.assoc order.trans)
  moreover have "n \<noteq> []" using find_subsequence_Some [OF assms] by blast
  ultimately have "length u < k" by (cases n) auto
  moreover have "s = u @ n @ v @ drop k s" by (metis append_take_drop_id append_assoc t)
  then have "take (length n) (drop (length u) s) = n" by (metis append_eq_conv_conj)
  ultimately show False using find_subsequence_Some [OF assms] by blast
qed

lemma sublist_separated: "c \<notin> set m \<Longrightarrow> sublist m (u @ c # w) \<Longrightarrow> sublist m u \<or> sublist m w"
proof -
  assume c: "c \<notin> set m" and s: "sublist m (u @ c # w)"
  have w: "prefix p (c # w) \<Longrightarrow> set p \<subseteq> set m \<Longrightarrow> p = []" for p
    using c by (cases p) auto
  from s consider "sublist m u" | "sublist m (c # w)" | a b where "m = a @ b" "suffix a u" "prefix b (c # w)"
    by (auto simp: sublist_append)
  then show ?thesis
  proof cases
    case 2
    then show ?thesis using w [of m] by (auto simp: sublist_Cons_right)
  next
    case 3
    then have "b = []" using w by simp
    with 3 show ?thesis by (auto simp: suffix_imp_sublist)
  qed simp
qed

text \<open>
  A secret is \<open>marker_safe\<close> when an occurrence can neither touch a marker nor lie in one:
  it has no bracket and is no part of the marker's text.
\<close>

definition marker_safe :: "string \<Rightarrow> bool" where
  "marker_safe m \<longleftrightarrow> m \<noteq> [] \<and> CHR ''['' \<notin> set m \<and> CHR '']'' \<notin> set m \<and> \<not> sublist m ''saber:redacted''"

lemma not_across_marker:
  assumes "marker_safe m" "sublist m (u @ REDACTION_MARKER @ v)"
  shows "sublist m u \<or> sublist m v"
proof -
  have "u @ REDACTION_MARKER @ v = u @ CHR ''['' # (''saber:redacted'' @ CHR '']'' # v)"
    by (simp add: REDACTION_MARKER_def)
  with assms have "sublist m u \<or> sublist m (''saber:redacted'' @ CHR '']'' # v)"
    by (metis marker_safe_def sublist_separated)
  with assms(1) show ?thesis by (metis marker_safe_def sublist_separated)
qed

lemma redact_loop_removes:
  assumes "marker_safe m" "start \<le> length buf"
    and "m = n \<or> \<not> sublist m (drop start buf)" "n \<noteq> []"
  shows "take start (fst (redact_loop n buf start)) = take start buf \<and> start \<le> length (fst (redact_loop n buf start))
    \<and> \<not> sublist m (drop start (fst (redact_loop n buf start)))"
  using assms(2,3)
proof (induction n buf start rule: redact_loop.induct)
  case (1 n buf start)
  show ?case
  proof (cases "find_subsequence (drop start buf) n")
    case None
    moreover have "m = n \<Longrightarrow> n \<noteq> []" using assms(1) by (simp add: marker_safe_def)
    ultimately have "\<not> sublist m (drop start buf)" using 1(3) find_subsequence_None [of n "drop start buf"] by blast
    with None 1(2) show ?thesis by (simp add: redact_loop.simps)
  next
    case (Some k)
    define buf' where "buf' = take (start + k) buf @ REDACTION_MARKER @ drop (start + k + length n) buf"
    define start' where "start' = start + k + length REDACTION_MARKER"
    note k = find_subsequence_Some [OF Some]
    have kl: "start + k + length n \<le> length buf" using k 1(2) by auto
    then have tl: "take start' buf' = take (start + k) buf @ REDACTION_MARKER" and st: "take start buf' = take start buf"
      and rest: "drop start' buf' = drop (start + k + length n) buf" and len: "start' \<le> length buf'"
      by (simp_all add: buf'_def start'_def)
    have front: "\<not> sublist m (take k (drop start buf))"
      using 1(3) before_first_match [OF Some] by (metis append_take_drop_id sublist_append_rightI sublist_order.order_trans)
    have later: "m = n \<or> \<not> sublist m (drop start' buf')"
    proof -
      have "sublist (drop (start + k + length n) buf) (drop start buf)"
        by (metis add.assoc drop_drop add.commute sublist_drop)
      then show ?thesis unfolding rest using 1(3) sublist_order.order_trans by blast
    qed
    have goal: "take start res = take start buf \<and> start \<le> length res \<and> \<not> sublist m (drop start res)"
      if r: "take start' res = take start' buf'" "start' \<le> length res" "\<not> sublist m (drop start' res)" for res
    proof -
      have "res = take (start + k) buf @ REDACTION_MARKER @ drop start' res"
        using r(1) tl by (metis append_assoc append_take_drop_id)
      moreover have "take (start + k) buf = take start buf @ take k (drop start buf)" by (simp add: take_add)
      ultimately have eq: "res = take start buf @ (take k (drop start buf) @ REDACTION_MARKER @ drop start' res)" by simp
      have ls: "length (take start buf) = start" using 1(2) by simp
      have "drop start res = take k (drop start buf) @ REDACTION_MARKER @ drop start' res"
        using eq ls by (metis append_eq_conv_conj)
      moreover have "take start res = take start buf" using eq ls by (metis append_eq_conv_conj)
      ultimately show ?thesis
        using not_across_marker [OF assms(1)] front r(2,3) by (auto simp: start'_def)
    qed
    show ?thesis
    proof (cases "start' \<ge> length buf'")
      case True
      then have "fst (redact_loop n buf start) = buf'"
        using redact_loop_step [OF Some, folded buf'_def start'_def] by simp
      moreover have "\<not> sublist m (drop start' buf')"
        using True assms(1) by (simp add: marker_safe_def sublist_def)
      ultimately show ?thesis using goal [of buf'] len by simp
    next
      case False
      then have "fst (redact_loop n buf start) = fst (redact_loop n buf' start')"
        using redact_loop_step [OF Some, folded buf'_def start'_def] by simp
      moreover have "take start' (fst (redact_loop n buf' start')) = take start' buf'
          \<and> start' \<le> length (fst (redact_loop n buf' start')) \<and> \<not> sublist m (drop start' (fst (redact_loop n buf' start')))"
        using False later len 1(1) [OF Some refl buf'_def start'_def False] by simp
      ultimately show ?thesis using goal by simp
    qed
  qed
qed

lemma redact_records_removes:
  "marker_safe m \<Longrightarrow> (\<forall>r \<in> set recs. sr_material r \<noteq> [] \<longrightarrow> marker_safe (sr_material r)) \<Longrightarrow>
   (\<exists>r \<in> set recs. sr_material r = m) \<or> \<not> sublist m out \<Longrightarrow> \<not> sublist m (fst (redact_records recs out))"
proof (induction recs arbitrary: out)
  case (Cons r recs)
  show ?case
  proof (cases "sr_material r = []")
    case True
    with Cons show ?thesis by (auto simp: marker_safe_def)
  next
    case False
    let ?out = "fst (redact_loop (sr_material r) out 0)"
    have "sr_material r = m \<or> \<not> sublist m out \<Longrightarrow> \<not> sublist m ?out"
      using redact_loop_removes [of m 0 out "sr_material r"] Cons.prems(1) False by auto
    then have "(\<exists>r \<in> set recs. sr_material r = m) \<or> \<not> sublist m ?out" using Cons.prems(3) by auto
    with Cons have "\<not> sublist m (fst (redact_records recs ?out))" by simp
    moreover have "fst (redact_records (r # recs) out) = fst (redact_records recs ?out)"
      using False by (simp split: prod.splits)
    ultimately show ?thesis by simp
  qed
qed simp

lemma redact_contains_no_material:
  assumes "\<forall>(ref, rec) \<in> set (sb_records b). marker_safe (sr_material rec)"
    and "(ref, rec) \<in> set (sb_records b)"
  shows "\<not> str_contains (fst (redact b out)) (sr_material rec)"
  unfolding str_contains_def redact_def
  by (rule redact_records_removes) (use assms in force)+

text \<open>
  C17: no registered secret survives redaction. When every registered material is marker-safe,
  the redacted output contains none of them, wherever and however often they stood.
\<close>

theorem redaction_removes_every_secret:
  assumes "\<forall>(ref, rec) \<in> set (sb_records b). marker_safe (sr_material rec)"
    and "(ref, rec) \<in> set (sb_records b)"
  shows "\<not> str_contains (fst (redact b out)) (sr_material rec)"
  using assms by (rule redact_contains_no_material)

definition sample_secrets :: secret_broker where
  "sample_secrets = \<lparr>sb_records = [(''credential://broker/a'',
     \<lparr>sr_material = ''sk-live-1'', sr_channels = [EnvVar ''T''], sr_purposes = [''deploy''], sr_revoked = False\<rparr>)],
     sb_leases = [], sb_counter = 0\<rparr>"

theorem redaction_removes_every_secret_witness:
  "\<not> str_contains (fst (redact sample_secrets ''key sk-live-1 sk-live-1'')) ''sk-live-1''"
proof -
  have "marker_safe ''sk-live-1''"
    by (simp add: marker_safe_def sublist_Cons_right)
  then show ?thesis
    using redaction_removes_every_secret [of sample_secrets "''credential://broker/a''"
        "\<lparr>sr_material = ''sk-live-1'', sr_channels = [EnvVar ''T''], sr_purposes = [''deploy''], sr_revoked = False\<rparr>"]
    by (simp add: sample_secrets_def)
qed

text \<open>
  The condition cannot be dropped: a secret that begins another is replaced first, and the
  rest of the longer one stays in the output.
\<close>

lemma nested_secret_leaks_rest:
  "fst (redact_records
     [\<lparr>sr_material = ''abc'', sr_channels = [EnvVar ''A''], sr_purposes = [''p''], sr_revoked = False\<rparr>,
      \<lparr>sr_material = ''abc-9f3'', sr_channels = [EnvVar ''B''], sr_purposes = [''p''], sr_revoked = False\<rparr>] ''abc-9f3'')
   = ''[saber:redacted]-9f3''"
  by code_simp


section \<open>The life of a lease\<close>

text \<open>The invariant: leases carry identifiers of past counters and the scope of their record.\<close>

definition lease_scoped :: "secret_broker \<Rightarrow> lease_state \<Rightarrow> bool" where
  "lease_scoped b st \<longleftrightarrow>
     (\<exists>rec. bt_get (sb_records b) (sl_credential_ref (ls_lease st)) = Some rec
        \<and> set (sl_channels (ls_lease st)) \<subseteq> set (sr_channels rec) \<and> (sr_revoked rec \<longrightarrow> ls_revoked st))"

definition broker_inv :: "secret_broker \<Rightarrow> bool" where
  "broker_inv b \<longleftrightarrow> bt_inv (sb_records b) \<and> bt_inv (sb_leases b)
     \<and> (\<forall>i st. bt_get (sb_leases b) i = Some st \<longrightarrow> lease_scoped b st
          \<and> (\<exists>n. i = ''lease-'' @ pad_zeros 8 (show_dec n) \<and> n \<le> unat (sb_counter b)))"

datatype broker_op =
    OpRegister string string "channel list" "string list"
  | OpIssue lease_request u64
  | OpConsume string string u64
  | OpRevokeLease string
  | OpRevokeReference string
  | OpSweep u64

fun broker_step :: "secret_broker \<Rightarrow> broker_op \<Rightarrow> secret_broker" where
  "broker_step b (OpRegister r m cs ps) = snd (broker_register b r m cs ps)"
| "broker_step b (OpIssue r now) = snd (broker_issue b r now)"
| "broker_step b (OpConsume i d now) = snd (broker_consume b i d now)"
| "broker_step b (OpRevokeLease i) = snd (broker_revoke b i)"
| "broker_step b (OpRevokeReference r) = revoke_reference b r"
| "broker_step b (OpSweep now) = snd (broker_sweep b now)"

text \<open>Operations that rewrite every lease act pointwise on the map.\<close>

lemma bt_get_map: "bt_get (map (\<lambda>(i, x). (i, f x)) m) i = map_option f (bt_get m i)"
  by (induction m) (auto simp: bt_get_def)

lemma bt_inv_map: "bt_inv (map (\<lambda>(i, x). (i, f x)) m) = bt_inv m"
  by (simp add: bt_inv_def comp_def case_prod_beta)

lemma map_pair_if:
  "map (\<lambda>(i, x). (i, if P x then g x else x)) m = map (\<lambda>(i, x). (i, (\<lambda>x. if P x then g x else x) x)) m"
  by simp

definition used_up :: "secret_broker \<Rightarrow> string \<Rightarrow> bool" where
  "used_up b i \<longleftrightarrow> (\<exists>st. bt_get (sb_leases b) i = Some st \<and> (ls_revoked st \<or> sl_consumed (ls_lease st)))"

lemma used_up_refused: "used_up b i \<Longrightarrow> \<exists>e. fst (broker_consume b i d now) = Err e"
  by (auto simp: used_up_def broker_consume_def)

lemma consume_Ok:
  "broker_consume b i d now = (Ok mat, b') \<longleftrightarrow>
     (\<exists>st rec. bt_get (sb_leases b) i = Some st \<and> \<not> ls_revoked st \<and> now < sl_expires_at_ms (ls_lease st)
        \<and> \<not> sl_consumed (ls_lease st) \<and> sl_request_digest (ls_lease st) = d
        \<and> bt_get (sb_records b) (sl_credential_ref (ls_lease st)) = Some rec
        \<and> mat = \<lparr>lm_lease_id = i, lm_material = sr_material rec\<rparr>
        \<and> b' = put_lease b i (st\<lparr>ls_lease := (ls_lease st)\<lparr>sl_consumed := True\<rparr>\<rparr>))"
  by (auto simp: broker_consume_def put_lease_def Let_def not_le split: option.splits if_splits)

lemma issue_Ok:
  "broker_issue b r now = (Ok lease, b') \<Longrightarrow>
     \<exists>rec. bt_get (sb_records b) (lq_credential_ref r) = Some rec \<and> \<not> sr_revoked rec
       \<and> set (lq_channels r) \<subseteq> set (sr_channels rec) \<and> lq_purpose r \<in> set (sr_purposes rec)
       \<and> now < lq_expires_at_ms r \<and> lq_expires_at_ms r \<le> now + MAX_LEASE_MS
       \<and> lease = \<lparr>sl_lease_id = lease_id_of (sb_counter b + 1), sl_credential_ref = lq_credential_ref r,
            sl_request_digest = lq_request_digest r, sl_channels = lq_channels r,
            sl_expires_at_ms = lq_expires_at_ms r, sl_consumed = False\<rparr>
       \<and> b' = b\<lparr>sb_counter := sb_counter b + 1,
            sb_leases := bt_insert (sl_lease_id lease) \<lparr>ls_lease = lease, ls_revoked = False\<rparr> (sb_leases b)\<rparr>"
  by (auto simp: broker_issue_def Let_def list_ex_iff not_le not_less split: option.splits if_splits)

lemma issue_Err: "fst (broker_issue b r now) = Err e \<Longrightarrow> snd (broker_issue b r now) = b"
  by (auto simp: broker_issue_def Let_def split: option.splits if_splits)

text \<open>An operation keeps a lease that exists, up to its two one-way flags.\<close>

definition lease_evolves :: "lease_state \<Rightarrow> lease_state \<Rightarrow> bool" where
  "lease_evolves st st' \<longleftrightarrow>
     ls_lease st' = (ls_lease st)\<lparr>sl_consumed := sl_consumed (ls_lease st')\<rparr>
     \<and> (sl_consumed (ls_lease st) \<longrightarrow> sl_consumed (ls_lease st')) \<and> (ls_revoked st \<longrightarrow> ls_revoked st')"

lemma lease_evolves_refl [simp]: "lease_evolves st st"
  by (simp add: lease_evolves_def)

lemma lease_evolves_trans: "lease_evolves a b \<Longrightarrow> lease_evolves b c \<Longrightarrow> lease_evolves a c"
  by (cases "ls_lease a"; cases "ls_lease b"; cases "ls_lease c") (auto simp: lease_evolves_def)

lemma fresh_lease_id:
  assumes "broker_inv b" "unat (sb_counter b) + 1 < 2 ^ 64"
  shows "bt_get (sb_leases b) (lease_id_of (sb_counter b + 1)) = None"
proof (rule ccontr)
  assume "bt_get (sb_leases b) (lease_id_of (sb_counter b + 1)) \<noteq> None"
  then obtain n where "lease_id_of (sb_counter b + 1) = ''lease-'' @ pad_zeros 8 (show_dec n)" "n \<le> unat (sb_counter b)"
    using assms(1) by (auto simp: broker_inv_def)
  then have "unat (sb_counter b + 1) = n"
    by (auto simp: lease_id_of_def dest: pad_show_inj)
  moreover have "unat (sb_counter b + 1) = unat (sb_counter b) + 1"
    using assms(2) by (simp add: unat_word_ariths)
  ultimately show False using \<open>n \<le> unat (sb_counter b)\<close> by simp
qed

lemma step_lease_evolves:
  assumes "broker_inv b" "unat (sb_counter b) + 1 < 2 ^ 64" "bt_get (sb_leases b) i = Some st"
  shows "\<exists>st'. bt_get (sb_leases (broker_step b x)) i = Some st' \<and> lease_evolves st st'"
proof (cases x)
  case (OpIssue r now)
  show ?thesis
  proof (cases "broker_issue b r now")
    case (Pair res b')
    show ?thesis
    proof (cases res)
      case (Inl e)
      then show ?thesis using OpIssue Pair issue_Err [of b r now] assms(3) by simp
    next
      case (Inr lease)
      with Pair issue_Ok [of b r now lease b'] fresh_lease_id [OF assms(1,2)] assms(3) OpIssue show ?thesis
        by (auto simp: store_simps)
    qed
  qed
next
  case (OpConsume j d now)
  with assms(3) show ?thesis
    by (auto simp: broker_consume_def put_lease_def Let_def store_simps lease_evolves_def split: option.splits)
next
  case (OpSweep now)
  with assms(3) show ?thesis
    by (auto simp: broker_sweep_def bt_get_map [where f = "\<lambda>st. if sweep_expired now st then st\<lparr>ls_revoked := True\<rparr> else st"]
        lease_evolves_def)
next
  case (OpRevokeReference r)
  with assms(3) show ?thesis
    by (auto simp: revoke_reference_def Let_def
        bt_get_map [where f = "\<lambda>st. if sl_credential_ref (ls_lease st) = r then st\<lparr>ls_revoked := True\<rparr> else st"]
        lease_evolves_def)
qed (use assms(3) in \<open>auto simp: broker_register_def broker_revoke_def put_lease_def store_simps lease_evolves_def
      split: option.splits\<close>)


lemma counter_step:
  "unat (sb_counter b) + 1 < 2 ^ 64 \<Longrightarrow> sb_counter (broker_step b x) = sb_counter b \<or> sb_counter (broker_step b x) = sb_counter b + 1"
  by (cases x) (auto simp: broker_register_def broker_issue_def broker_consume_def broker_revoke_def revoke_reference_def
      broker_sweep_def put_lease_def Let_def split: option.splits)

lemma records_step:
  "bt_get (sb_records b) r = Some rec \<Longrightarrow>
     \<exists>rec'. bt_get (sb_records (broker_step b x)) r = Some rec' \<and> sr_material rec' = sr_material rec
       \<and> sr_channels rec' = sr_channels rec \<and> (sr_revoked rec \<longrightarrow> sr_revoked rec')"
  by (cases x) (auto simp: broker_register_def broker_issue_def broker_consume_def broker_revoke_def revoke_reference_def
      broker_sweep_def put_lease_def Let_def store_simps split: option.splits)

lemma records_step_back:
  "bt_get (sb_records (broker_step b x)) r = Some rec' \<Longrightarrow> sr_revoked rec' \<Longrightarrow>
     (\<exists>rec. bt_get (sb_records b) r = Some rec \<and> sr_revoked rec)
     \<or> x = OpRevokeReference r"
  by (cases x) (auto simp: broker_register_def broker_issue_def broker_consume_def broker_revoke_def revoke_reference_def
      broker_sweep_def put_lease_def Let_def store_simps split: option.splits if_splits)

lemma leases_step_back:
  assumes "bt_get (sb_leases (broker_step b x)) i = Some st'"
  shows "(\<exists>st. bt_get (sb_leases b) i = Some st \<and> sl_credential_ref (ls_lease st') = sl_credential_ref (ls_lease st)
      \<and> sl_channels (ls_lease st') = sl_channels (ls_lease st) \<and> (ls_revoked st \<longrightarrow> ls_revoked st')
      \<and> (x = OpRevokeReference (sl_credential_ref (ls_lease st)) \<longrightarrow> ls_revoked st'))
    \<or> (\<exists>r now lease. x = OpIssue r now \<and> broker_issue b r now = (Ok lease, broker_step b x)
        \<and> i = sl_lease_id lease \<and> st' = \<lparr>ls_lease = lease, ls_revoked = False\<rparr>)"
proof (cases x)
  case (OpIssue r now)
  show ?thesis
  proof (cases "broker_issue b r now")
    case (Pair res b')
    show ?thesis
    proof (cases res)
      case (Inl e)
      then show ?thesis using OpIssue Pair issue_Err [of b r now] assms by auto
    next
      case (Inr lease)
      with Pair issue_Ok [of b r now lease b'] assms OpIssue show ?thesis
        by (auto simp: store_simps split: if_splits)
    qed
  qed
next
  case (OpConsume j d now)
  with assms show ?thesis
    by (auto simp: broker_consume_def put_lease_def Let_def store_simps split: option.splits if_splits)
next
  case (OpSweep now)
  with assms show ?thesis
    by (auto simp: broker_sweep_def bt_get_map [where f = "\<lambda>st. if sweep_expired now st then st\<lparr>ls_revoked := True\<rparr> else st"])
next
  case (OpRevokeReference r)
  with assms show ?thesis
    by (auto simp: revoke_reference_def Let_def
        bt_get_map [where f = "\<lambda>st. if sl_credential_ref (ls_lease st) = r then st\<lparr>ls_revoked := True\<rparr> else st"])
qed (use assms in \<open>auto simp: broker_register_def broker_revoke_def put_lease_def store_simps
      split: option.splits if_splits\<close>)

lemma step_sorted: "bt_inv (sb_records b) \<Longrightarrow> bt_inv (sb_leases b) \<Longrightarrow>
    bt_inv (sb_records (broker_step b x)) \<and> bt_inv (sb_leases (broker_step b x))"
  by (cases x) (auto simp: broker_register_def broker_issue_def broker_consume_def broker_revoke_def revoke_reference_def
      broker_sweep_def put_lease_def Let_def bt_inv_insert
      bt_inv_map [where f = "\<lambda>st. if P st then st\<lparr>ls_revoked := True\<rparr> else st" for P] split: option.splits)

lemma step_inv:
  assumes inv: "broker_inv b" and c: "unat (sb_counter b) + 1 < 2 ^ 64"
  shows "broker_inv (broker_step b x)"
proof -
  let ?b = "broker_step b x"
  have cnt: "unat (sb_counter b) \<le> unat (sb_counter ?b)"
    using counter_step [OF c, of x] c by (auto simp: unat_word_ariths)
  have "lease_scoped ?b st' \<and> (\<exists>n. i = ''lease-'' @ pad_zeros 8 (show_dec n) \<and> n \<le> unat (sb_counter ?b))"
    if l: "bt_get (sb_leases ?b) i = Some st'" for i st'
    using leases_step_back [OF l]
  proof (elim disjE exE conjE)
    fix st
    assume st: "bt_get (sb_leases b) i = Some st" "sl_credential_ref (ls_lease st') = sl_credential_ref (ls_lease st)"
      "sl_channels (ls_lease st') = sl_channels (ls_lease st)" "ls_revoked st \<longrightarrow> ls_revoked st'"
      "x = OpRevokeReference (sl_credential_ref (ls_lease st)) \<longrightarrow> ls_revoked st'"
    from inv st(1) have s: "lease_scoped b st" and n: "\<exists>n. i = ''lease-'' @ pad_zeros 8 (show_dec n) \<and> n \<le> unat (sb_counter b)"
      by (auto simp: broker_inv_def)
    from s obtain rec where rec: "bt_get (sb_records b) (sl_credential_ref (ls_lease st)) = Some rec"
      "set (sl_channels (ls_lease st)) \<subseteq> set (sr_channels rec)" "sr_revoked rec \<longrightarrow> ls_revoked st"
      by (auto simp: lease_scoped_def)
    from records_step [OF rec(1), of x] obtain rec' where
      rec': "bt_get (sb_records ?b) (sl_credential_ref (ls_lease st)) = Some rec'" "sr_channels rec' = sr_channels rec" by auto
    have "sr_revoked rec' \<longrightarrow> ls_revoked st'"
      using records_step_back [OF rec'(1)] rec st by auto
    with rec rec' st have "lease_scoped ?b st'" by (auto simp: lease_scoped_def)
    moreover from n obtain k where "i = ''lease-'' @ pad_zeros 8 (show_dec k)" "k \<le> unat (sb_counter b)" by blast
    ultimately show ?thesis using cnt by (intro conjI exI [of _ k]) simp_all
  next
    fix r now lease
    assume x: "x = OpIssue r now" and iss: "broker_issue b r now = (Ok lease, ?b)" and i: "i = sl_lease_id lease"
      and st': "st' = \<lparr>ls_lease = lease, ls_revoked = False\<rparr>"
    from issue_Ok [OF iss] obtain rec where rec: "bt_get (sb_records b) (lq_credential_ref r) = Some rec"
      "\<not> sr_revoked rec" "set (lq_channels r) \<subseteq> set (sr_channels rec)" "sl_credential_ref lease = lq_credential_ref r"
      "sl_channels lease = lq_channels r" "sl_lease_id lease = lease_id_of (sb_counter b + 1)"
      "sb_counter ?b = sb_counter b + 1" "sb_records ?b = sb_records b"
      by (auto simp: prod_eq_iff)
    then show ?thesis
      unfolding st' i by (auto simp: lease_scoped_def lease_id_of_def)
  qed
  with step_sorted inv show ?thesis by (simp add: broker_inv_def)
qed

lemma run_leases:
  assumes "broker_inv b" "unat (sb_counter b) + length ops < 2 ^ 64"
  shows "broker_inv (foldl broker_step b ops)"
    "bt_get (sb_leases b) i = Some st \<Longrightarrow>
       \<exists>st'. bt_get (sb_leases (foldl broker_step b ops)) i = Some st' \<and> lease_evolves st st'"
  using assms
proof (induction ops arbitrary: b st)
  case (Cons x ops)
  {
    case 1
    have c: "unat (sb_counter b) + 1 < 2 ^ 64" using 1(2) by simp
    with counter_step [OF c, of x] have "unat (sb_counter (broker_step b x)) + length ops < 2 ^ 64"
      using 1(2) by (auto simp: unat_word_ariths)
    with Cons.IH(1) step_inv [OF 1(1) c] show ?case by simp
  next
    case 2
    have c: "unat (sb_counter b) + 1 < 2 ^ 64" using 2(3) by simp
    then have n: "unat (sb_counter (broker_step b x)) + length ops < 2 ^ 64"
      using 2(3) counter_step [OF c, of x] by (auto simp: unat_word_ariths)
    from step_lease_evolves [OF 2(2) c 2(1), of x] obtain st1 where
      st1: "bt_get (sb_leases (broker_step b x)) i = Some st1" "lease_evolves st st1" by blast
    from Cons.IH(2) [OF st1(1) step_inv [OF 2(2) c] n] obtain st2 where
      st2: "bt_get (sb_leases (foldl broker_step (broker_step b x) ops)) i = Some st2" "lease_evolves st1 st2" by blast
    from st1(2) st2(2) have "lease_evolves st st2" by (rule lease_evolves_trans)
    with st2(1) show ?case by simp
  }
qed auto

lemma counter_default [simp]: "sb_counter broker_default = 0"
  by (simp add: broker_default_def)

lemma broker_inv_default [simp]: "broker_inv broker_default"
  by (simp add: broker_inv_def broker_default_def)

section \<open>Properties of leases\<close>

text \<open>
  C16: a lease yields its material at most once. After a consumption that succeeded, no later
  attempt on the same lease succeeds, whatever the broker did in between (registrations,
  issues, consumptions, revocations, sweeps) and whatever digest or time is presented.
\<close>

theorem lease_consumed_once:
  assumes "broker_inv b" "broker_consume b i d now = (Ok mat, b1)"
    and "unat (sb_counter b1) + length ops < 2 ^ 64"
  shows "\<exists>e. fst (broker_consume (foldl broker_step b1 ops) i d' now') = Err e"
proof -
  have b1: "b1 = broker_step b (OpConsume i d now)" using assms(2) by simp
  from assms(2) obtain st where st: "bt_get (sb_leases b) i = Some st"
    "b1 = put_lease b i (st\<lparr>ls_lease := (ls_lease st)\<lparr>sl_consumed := True\<rparr>\<rparr>)"
    by (auto simp: consume_Ok)
  then have c: "sb_counter b1 = sb_counter b"
    and u: "bt_get (sb_leases b1) i = Some (st\<lparr>ls_lease := (ls_lease st)\<lparr>sl_consumed := True\<rparr>\<rparr>)"
    by (simp_all add: put_lease_def store_simps)
  have inv: "broker_inv b1"
  proof (cases "unat (sb_counter b) + 1 < 2 ^ 64")
    case True
    with step_inv [OF assms(1) True, of "OpConsume i d now"] b1 show ?thesis by simp
  next
    case False
    with assms(1) st show ?thesis
      by (auto simp: broker_inv_def put_lease_def bt_inv_insert store_simps lease_scoped_def)
  qed
  from run_leases(2) [OF inv assms(3) u] have "used_up (foldl broker_step b1 ops) i"
    by (auto simp: used_up_def lease_evolves_def)
  then show ?thesis by (rule used_up_refused)
qed

definition sample_lease_request :: lease_request where
  "sample_lease_request = \<lparr>lq_credential_ref = ''credential://broker/a'',
     lq_request_digest = ''sha256:'' @ replicate 64 (CHR ''a''), lq_channels = [EnvVar ''T''],
     lq_purpose = ''deploy'', lq_expires_at_ms = 2000\<rparr>"

definition sample_leased :: secret_broker where
  "sample_leased = snd (broker_issue sample_secrets sample_lease_request 1000)"

lemma sample_secrets_inv: "broker_inv sample_secrets"
  by (simp add: sample_secrets_def broker_inv_def bt_inv_def)

lemma sample_leased_inv: "broker_inv sample_leased"
  unfolding sample_leased_def using step_inv [OF sample_secrets_inv, of "OpIssue sample_lease_request 1000"]
  by (simp add: sample_secrets_def)

lemma sample_consume:
  "\<exists>b1. broker_consume sample_leased (lease_id_of 1) (''sha256:'' @ replicate 64 (CHR ''a'')) 1500 =
     (Ok \<lparr>lm_lease_id = lease_id_of 1, lm_material = ''sk-live-1''\<rparr>, b1) \<and> sb_counter b1 = 1"
  by (simp add: sample_leased_def broker_issue_def sample_secrets_def sample_lease_request_def Let_def bt_get_def
      starts_with_def MAX_LEASE_MS_def broker_consume_def put_lease_def)

theorem lease_consumed_once_witness:
  "\<exists>b1 e. sb_counter b1 = 1 \<and> fst (broker_consume (foldl broker_step b1 [OpSweep 1600]) (lease_id_of 1) ''d'' 1700) = Err e"
proof -
  obtain b1 where b1: "broker_consume sample_leased (lease_id_of 1) (''sha256:'' @ replicate 64 (CHR ''a'')) 1500 =
     (Ok \<lparr>lm_lease_id = lease_id_of 1, lm_material = ''sk-live-1''\<rparr>, b1)" "sb_counter b1 = 1"
    using sample_consume by blast
  have "unat (sb_counter b1) + length [OpSweep 1600] < 2 ^ 64" using b1(2) by simp
  from lease_consumed_once [OF sample_leased_inv b1(1) this, of "''d''" 1700] b1(2) show ?thesis by blast
qed

text \<open>
  material flows only within the scope granted. In every state the broker can reach, a
  consumption that succeeds presents the digest the lease was bound to before its expiry,
  its record and lease are not revoked, every channel of the lease is one the record
  declares, and what it yields is exactly the record's material.
\<close>

theorem consumption_in_scope:
  assumes "b = foldl broker_step broker_default ops" "length ops < 2 ^ 64"
    and "broker_consume b i d now = (Ok mat, b')"
  shows "\<exists>st rec. bt_get (sb_leases b) i = Some st \<and> \<not> ls_revoked st
    \<and> sl_request_digest (ls_lease st) = d \<and> now < sl_expires_at_ms (ls_lease st)
    \<and> bt_get (sb_records b) (sl_credential_ref (ls_lease st)) = Some rec \<and> \<not> sr_revoked rec
    \<and> set (sl_channels (ls_lease st)) \<subseteq> set (sr_channels rec) \<and> lm_material mat = sr_material rec"
proof -
  have "broker_inv b"
    unfolding assms(1) by (rule run_leases(1)) (use assms(2) in simp_all)
  moreover from assms(3) obtain st rec where "bt_get (sb_leases b) i = Some st" "\<not> ls_revoked st"
    "sl_request_digest (ls_lease st) = d" "now < sl_expires_at_ms (ls_lease st)"
    "bt_get (sb_records b) (sl_credential_ref (ls_lease st)) = Some rec" "lm_material mat = sr_material rec"
    by (auto simp: consume_Ok)
  ultimately show ?thesis by (force simp: broker_inv_def lease_scoped_def)
qed

definition sample_broker_ops :: "broker_op list" where
  "sample_broker_ops = [OpRegister ''credential://broker/a'' ''sk-live-1'' [EnvVar ''T''] [''deploy''], OpIssue sample_lease_request 1000]"

lemma sample_broker_run: "foldl broker_step broker_default sample_broker_ops = sample_leased"
proof -
  have "\<not> list_ex is_whitespace (utf8_chars ''credential://broker/a'')" by code_simp
  then have "broker_step broker_default (OpRegister ''credential://broker/a'' ''sk-live-1'' [EnvVar ''T''] [''deploy'']) = sample_secrets"
    by (simp add: broker_register_def broker_default_def sample_secrets_def starts_with_def del: utf8_chars.simps)
  then show ?thesis by (simp add: sample_broker_ops_def sample_leased_def)
qed

theorem consumption_in_scope_witness:
  "\<exists>st. bt_get (sb_leases sample_leased) (lease_id_of 1) = Some st \<and> 1500 < sl_expires_at_ms (ls_lease st)"
proof -
  obtain b1 where b1: "broker_consume sample_leased (lease_id_of 1) (''sha256:'' @ replicate 64 (CHR ''a'')) 1500 =
     (Ok \<lparr>lm_lease_id = lease_id_of 1, lm_material = ''sk-live-1''\<rparr>, b1)"
    using sample_consume by blast
  have "length sample_broker_ops < 2 ^ 64" by (simp add: sample_broker_ops_def)
  from consumption_in_scope [OF sample_broker_run [symmetric] this b1] show ?thesis by blast
qed

end
