(* ===== verification/EffectBroker.thy ===== *)
theory EffectBroker
  imports PolicyEnforcer Egress SandboxPlatform SecretBroker
begin

text \<open>
  The composition point (\<open>crates/effect-broker/src/lib.rs\<close>, with the journal interface of
  \<open>journal.rs\<close>): one isolated effect under plan validation, egress, realm allocation, the
  durable intent, policy enforcement, secret injection, redaction, teardown and the durable
  result. The backends are those of the registry, given by their table of operations; the
  audit sink and the journal are given by theirs; what the closure of the enforcement point
  changes (registry, secrets, captured outcome) is the world it runs on.
\<close>

section \<open>Data\<close>

record isolated_effect =
  ie_request :: capability_request
  ie_plan :: sandbox_plan
  ie_leases :: "lease_request list"
  ie_egress :: "egress_request option"

record effect_outcome =
  eo_stdout :: string
  eo_stderr :: string
  eo_exit_code :: "int option"
  eo_duration_ms :: u64
  eo_truncated :: bool
  eo_killed :: bool
  eo_redactions :: nat
  eo_egress_reason :: "egress_reason option"

datatype closure_error = ClosureSandbox sandbox_error | ClosureSecret broker_error

datatype ('ae, 'je) broker_failure =
    FailPlan plan_error
  | FailSandbox sandbox_error
  | FailEgressDenied egress_decision
  | FailSecret broker_error
  | FailPolicy policy_decision
  | FailApproval policy_error
  | FailJournal 'je
  | FailAuditBefore 'ae
  | FailAuditAfter 'ae
  | FailJournalAfter 'je

record journal_intent =
  ji_event_id :: string
  ji_workspace_id :: string
  ji_intent_id :: string
  ji_effect_kind :: string
  ji_action :: string
  ji_resource :: string
  ji_plan_digest :: string
  ji_egress_purpose :: "string option"
  ji_occurred_at_ms :: u64
  ji_idempotency_key :: string

record journal_result =
  jr_event_id :: string
  jr_workspace_id :: string
  jr_intent_id :: string
  jr_completed :: bool
  jr_detail :: "string option"
  jr_occurred_at_ms :: u64
  jr_idempotency_key :: string

type_synonym ('j, 'je) record_intent_op = "'j \<Rightarrow> journal_intent \<Rightarrow> ('je + unit) \<times> 'j"
type_synonym ('j, 'je) record_result_op = "'j \<Rightarrow> journal_result \<Rightarrow> ('je + unit) \<times> 'j"

record ('s, 'b) effect_broker =
  ef_registry :: "'b backend_registry"
  ef_egress :: egress_engine
  ef_enforcer :: "'s policy_enforcer"
  ef_secrets :: secret_broker

definition effect_broker_new ::
  "policy_engine \<Rightarrow> 's \<Rightarrow> 'b backend_registry \<Rightarrow> secret_broker \<Rightarrow> egress_engine \<Rightarrow> ('s, 'b) effect_broker" where
  "effect_broker_new engine sink registry secrets egress =
     \<lparr>ef_registry = registry, ef_egress = egress, ef_enforcer = enforcer_new engine sink, ef_secrets = secrets\<rparr>"

section \<open>Preparation and egress\<close>

definition prepare ::
  "(string \<Rightarrow> string) \<Rightarrow> (sandbox_plan \<Rightarrow> string option) \<Rightarrow> isolated_effect \<Rightarrow> plan_error + capability_request" where
  "prepare H enc effect =
     (case plan_validate H enc (ie_plan effect) of
        Err e \<Rightarrow> Err e
      | Ok _ \<Rightarrow>
          (let r = ie_request effect in
           case request_new (cr_request_id r) (cr_principal r) (cr_workspace_id r) (cr_task_id r) (cr_action r)
                  (cr_resource r) (cr_operation_hash r) (cr_credential_ref r) True (cr_data_class r) (cr_occurred_at_ms r) of
             Err _ \<Rightarrow> Err RealmViolation
           | Ok prepared \<Rightarrow> Ok prepared))"

definition missing_egress :: egress_request where
  "missing_egress = \<lparr>er_purpose = ''missing'', er_scheme = ''https'', er_host = ''denied.invalid'', er_port = 443,
     er_data_class = Public, er_taints = [], er_credential_ref = None, er_payload_len = 0\<rparr>"

definition mediated_purpose :: "validated_plan \<Rightarrow> string option" where
  "mediated_purpose plan = (case sp_network (vp_plan plan) of Mediated purpose \<Rightarrow> Some purpose | NetworkDenied \<Rightarrow> None)"

definition egress_gate ::
  "(string \<Rightarrow> string) \<Rightarrow> egress_engine \<Rightarrow> isolated_effect \<Rightarrow> validated_plan \<Rightarrow> egress_decision + egress_reason option" where
  "egress_gate H egress effect validated =
     (if requires_network (descriptor (cr_action (ie_request effect)))
      then (case ie_egress effect of
              None \<Rightarrow> Err (authorize H egress missing_egress)
            | Some er \<Rightarrow>
                if (case mediated_purpose validated of None \<Rightarrow> False | Some purpose \<Rightarrow> er_purpose er \<noteq> purpose)
                then Err (authorize H egress missing_egress)
                else
                  (let decision = authorize H egress er in
                   if ed_reason decision \<noteq> EgAllow then Err decision else Ok (Some (ed_reason decision))))
      else if ie_egress effect \<noteq> None
        then Err \<lparr>ed_decision_id = sha256_label H [''egress-not-required''], ed_reason = EgDefaultDeny, ed_authorization = None\<rparr>
      else Ok None)"

section \<open>The closure under enforcement\<close>

fun mount_each ::
  "'b backend_ops \<Rightarrow> realm_handle \<Rightarrow> mount_spec list \<Rightarrow> 'b \<Rightarrow> (sandbox_error + unit) \<times> 'b" where
  "mount_each ops h [] b = (Ok (), b)"
| "mount_each ops h (m # ms) b =
     (case bo_mount ops b h m of
        (Err e, b') \<Rightarrow> (Err e, b')
      | (Ok _, b') \<Rightarrow> mount_each ops h ms b')"

fun inject_channels :: "channel list \<Rightarrow> string \<Rightarrow> injected \<Rightarrow> injected" where
  "inject_channels [] material given = given"
| "inject_channels (EnvVar key # cs) material given = inject_channels cs material (bt_insert key material given)"
| "inject_channels (FileTarget _ # cs) material given = inject_channels cs material given"

fun lease_each ::
  "string \<Rightarrow> u64 \<Rightarrow> lease_request list \<Rightarrow> secret_broker \<Rightarrow> injected \<Rightarrow> (broker_error + injected) \<times> secret_broker" where
  "lease_each digest now [] secrets given = (Ok given, secrets)"
| "lease_each digest now (r # rs) secrets given =
     (case broker_issue secrets r now of
        (Err e, s1) \<Rightarrow> (Err e, s1)
      | (Ok lease, s1) \<Rightarrow>
          (case broker_consume s1 (sl_lease_id lease) digest now of
             (Err e, s2) \<Rightarrow> (Err e, s2)
           | (Ok material, s2) \<Rightarrow>
               lease_each digest now rs s2 (inject_channels (sl_channels lease) (lm_material material) given)))"

definition in_core_outcome :: exec_outcome where
  "in_core_outcome = \<lparr>xo_exit_code = Some 0, xo_stdout = [], xo_stderr = [], xo_duration_ms = 0,
     xo_truncated = False, xo_killed = False\<rparr>"

definition capture_outcome :: "secret_broker \<Rightarrow> egress_reason option \<Rightarrow> exec_outcome \<Rightarrow> effect_outcome" where
  "capture_outcome secrets reason out =
     (let (stdout, n) = redact secrets (xo_stdout out); (stderr, m) = redact secrets (xo_stderr out) in
      \<lparr>eo_stdout = stdout, eo_stderr = stderr, eo_exit_code = xo_exit_code out, eo_duration_ms = xo_duration_ms out,
       eo_truncated = xo_truncated out, eo_killed = xo_killed out, eo_redactions = n + m, eo_egress_reason = reason\<rparr>)"

type_synonym 'b effect_world = "'b backend_registry \<times> secret_broker \<times> effect_outcome option"

text \<open>The steps on the selected backend: its next state, the secrets, the captured outcome, the result.\<close>

definition run_in_realm ::
  "'b backend_ops \<Rightarrow> realm_handle \<Rightarrow> validated_plan \<Rightarrow> lease_request list \<Rightarrow> string \<Rightarrow> u64 \<Rightarrow> egress_reason option
   \<Rightarrow> 'b \<Rightarrow> secret_broker \<Rightarrow> effect_outcome option
   \<Rightarrow> 'b \<times> secret_broker \<times> effect_outcome option \<times> (closure_error + unit)" where
  "run_in_realm ops h validated leases digest now reason b secrets captured =
     (case mount_each ops h (sp_mounts (vp_plan validated)) b of
        (Err e, b1) \<Rightarrow> (b1, secrets, captured, Err (ClosureSandbox e))
      | (Ok _, b1) \<Rightarrow>
        (case bo_network ops b1 h (sp_network (vp_plan validated)) of
           (Err e, b2) \<Rightarrow> (b2, secrets, captured, Err (ClosureSandbox e))
         | (Ok _, b2) \<Rightarrow>
           (case lease_each digest now leases secrets [] of
              (Err e, s1) \<Rightarrow> (b2, s1, captured, Err (ClosureSecret e))
            | (Ok given, s1) \<Rightarrow>
              (case sp_command (vp_plan validated) of
                 None \<Rightarrow> (b2, s1, Some (capture_outcome s1 reason in_core_outcome), Ok ())
               | Some command \<Rightarrow>
                   (case bo_exec ops b2 h command given of
                      (Err e, b3) \<Rightarrow> (b3, s1, captured, Err (ClosureSandbox e))
                    | (Ok out, b3) \<Rightarrow> (b3, s1, Some (capture_outcome s1 reason out), Ok ()))))))"

definition effect_closure ::
  "'b backend_ops \<Rightarrow> nat \<Rightarrow> realm_handle \<Rightarrow> validated_plan \<Rightarrow> lease_request list \<Rightarrow> string \<Rightarrow> u64 \<Rightarrow> egress_reason option
   \<Rightarrow> 'b effect_world \<Rightarrow> 'b effect_world \<times> (closure_error + unit)" where
  "effect_closure ops index h validated leases digest now reason =
     (\<lambda>(registry, secrets, captured).
        case backend_mut registry index of
          Err e \<Rightarrow> ((registry, secrets, captured), Err (ClosureSandbox e))
        | Ok b \<Rightarrow>
            (let (b', secrets', captured', res) =
               run_in_realm ops h validated leases digest now reason b secrets captured
             in ((put_backend index b' registry, secrets', captured'), res)))"

definition destroy_realm :: "'b backend_ops \<Rightarrow> nat \<Rightarrow> realm_handle \<Rightarrow> 'b backend_registry \<Rightarrow> 'b backend_registry" where
  "destroy_realm ops index h registry =
     (case backend_mut registry index of
        Err _ \<Rightarrow> registry
      | Ok b \<Rightarrow> put_backend index (snd (bo_destroy ops b h)) registry)"

section \<open>Execution\<close>

definition intent_of ::
  "(string \<Rightarrow> string) \<Rightarrow> isolated_effect \<Rightarrow> validated_plan \<Rightarrow> capability_request \<Rightarrow> u64 \<Rightarrow> journal_intent" where
  "intent_of H effect validated prepared now =
     (let digest = request_digest H prepared in
      \<lparr>ji_event_id = ''event-'' @ digest, ji_workspace_id = cr_workspace_id prepared, ji_intent_id = ''intent-'' @ digest,
       ji_effect_kind = ''sandbox.exec'', ji_action = action_as_str (cr_action prepared), ji_resource = cr_resource prepared,
       ji_plan_digest = vp_digest validated, ji_egress_purpose = map_option er_purpose (ie_egress effect),
       ji_occurred_at_ms = now, ji_idempotency_key = ''idem-'' @ digest\<rparr>)"

definition result_of :: "(string \<Rightarrow> string) \<Rightarrow> capability_request \<Rightarrow> u64 \<Rightarrow> journal_result" where
  "result_of H prepared now =
     (let digest = request_digest H prepared in
      \<lparr>jr_event_id = ''event-result-'' @ digest, jr_workspace_id = cr_workspace_id prepared,
       jr_intent_id = ''intent-'' @ digest, jr_completed = True, jr_detail = None, jr_occurred_at_ms = now,
       jr_idempotency_key = ''idem-result-'' @ digest\<rparr>)"

definition no_outcome :: effect_outcome where
  "no_outcome = \<lparr>eo_stdout = [], eo_stderr = [], eo_exit_code = None, eo_duration_ms = 0, eo_truncated = False,
     eo_killed = False, eo_redactions = 0, eo_egress_reason = None\<rparr>"

definition conclude ::
  "(string \<Rightarrow> string) \<Rightarrow> ('j, 'je) record_result_op \<Rightarrow> capability_request \<Rightarrow> u64 \<Rightarrow> effect_outcome option
   \<Rightarrow> ('ae, closure_error) enforcement_error + unit \<Rightarrow> 'j \<Rightarrow> (('ae, 'je) broker_failure + effect_outcome) \<times> 'j" where
  "conclude H record_result prepared now captured enforcement journal =
     (case enforcement of
        Ok _ \<Rightarrow>
          (let outcome = (case captured of None \<Rightarrow> no_outcome | Some o1 \<Rightarrow> o1) in
           case record_result journal (result_of H prepared now) of
             (Err e, j) \<Rightarrow> (Err (FailJournalAfter e), j)
           | (Ok _, j) \<Rightarrow> (Ok outcome, j))
      | Err (DecisionError d) \<Rightarrow> (Err (FailPolicy d), journal)
      | Err (ApprovalError e) \<Rightarrow> (Err (FailApproval e), journal)
      | Err (AuditBefore e) \<Rightarrow> (Err (FailAuditBefore e), journal)
      | Err (EffectError (ClosureSandbox e)) \<Rightarrow> (Err (FailSandbox e), journal)
      | Err (EffectError (ClosureSecret e)) \<Rightarrow> (Err (FailSecret e), journal)
      | Err (AuditAfter e) \<Rightarrow> (Err (FailAuditAfter e), journal))"

text \<open>From the allocated realm on.\<close>

definition execute_in_realm ::
  "(string \<Rightarrow> string) \<Rightarrow> (sandbox_plan \<Rightarrow> string option) \<Rightarrow> 'b backend_ops
   \<Rightarrow> ('s, 'ae) record_decision_op \<Rightarrow> ('s, 'ae) record_enforcement_op
   \<Rightarrow> ('j, 'je) record_intent_op \<Rightarrow> ('j, 'je) record_result_op
   \<Rightarrow> ('s, 'b) effect_broker \<Rightarrow> isolated_effect \<Rightarrow> approval_grant option \<Rightarrow> 'j \<Rightarrow> u64
   \<Rightarrow> validated_plan \<Rightarrow> egress_reason option \<Rightarrow> nat \<Rightarrow> realm_handle
   \<Rightarrow> (('ae, 'je) broker_failure + effect_outcome) \<times> ('s, 'b) effect_broker \<times> 'j" where
  "execute_in_realm H enc ops rd re record_intent record_result self effect approval journal now validated reason index h =
     (case prepare H enc effect of
        Err e \<Rightarrow> (Err (FailPlan e), self\<lparr>ef_registry := destroy_realm ops index h (ef_registry self)\<rparr>, journal)
      | Ok prepared \<Rightarrow>
          (case record_intent journal (intent_of H effect validated prepared now) of
             (Err e, j1) \<Rightarrow> (Err (FailJournal e), self\<lparr>ef_registry := destroy_realm ops index h (ef_registry self)\<rparr>, j1)
           | (Ok _, j1) \<Rightarrow>
               (let (enforcer, (registry, secrets, captured), enforcement) =
                      execute H rd re (ef_enforcer self) prepared approval now
                        (effect_closure ops index h validated (ie_leases effect) (request_digest H prepared) now reason)
                        (ef_registry self, ef_secrets self, None);
                    (result, j2) = conclude H record_result prepared now captured enforcement j1
                in (result,
                    self\<lparr>ef_registry := destroy_realm ops index h registry, ef_secrets := secrets, ef_enforcer := enforcer\<rparr>,
                    j2))))"

definition effect_execute ::
  "(string \<Rightarrow> string) \<Rightarrow> (sandbox_plan \<Rightarrow> string option) \<Rightarrow> 'b backend_ops
   \<Rightarrow> ('s, 'ae) record_decision_op \<Rightarrow> ('s, 'ae) record_enforcement_op
   \<Rightarrow> ('j, 'je) record_intent_op \<Rightarrow> ('j, 'je) record_result_op
   \<Rightarrow> ('s, 'b) effect_broker \<Rightarrow> isolated_effect \<Rightarrow> approval_grant option \<Rightarrow> 'j \<Rightarrow> u64
   \<Rightarrow> (('ae, 'je) broker_failure + effect_outcome) \<times> ('s, 'b) effect_broker \<times> 'j" where
  "effect_execute H enc ops rd re record_intent record_result self effect approval journal now =
     (case plan_validate H enc (ie_plan effect) of
        Err e \<Rightarrow> (Err (FailPlan e), self, journal)
      | Ok validated \<Rightarrow>
        (case egress_gate H (ef_egress self) effect validated of
           Err d \<Rightarrow> (Err (FailEgressDenied d), self, journal)
         | Ok reason \<Rightarrow>
           (case select_for ops (ef_registry self) validated of
              (Err e, registry) \<Rightarrow> (Err (FailSandbox e), self\<lparr>ef_registry := registry\<rparr>, journal)
            | (Ok selection, registry) \<Rightarrow>
              (case backend_mut registry (se_index selection) of
                 Err e \<Rightarrow> (Err (FailSandbox e), self\<lparr>ef_registry := registry\<rparr>, journal)
               | Ok b \<Rightarrow>
                 (case bo_create ops b validated of
                    (Err e, b') \<Rightarrow>
                      (Err (FailSandbox e), self\<lparr>ef_registry := put_backend (se_index selection) b' registry\<rparr>, journal)
                  | (Ok h, b') \<Rightarrow>
                      execute_in_realm H enc ops rd re record_intent record_result
                        (self\<lparr>ef_registry := put_backend (se_index selection) b' registry\<rparr>)
                        effect approval journal now validated reason (se_index selection) h)))))"

section \<open>Stages\<close>

text \<open>Either no realm was allocated, and the enforcer and the secrets are untouched, or one was.\<close>

lemma effect_execute_stages:
  assumes "effect_execute H enc ops rd re ri rr self effect approval journal now = (res, self', j')"
  obtains (early) f registry where "res = Err f" "self' = self\<lparr>ef_registry := registry\<rparr>" "j' = journal"
      "registry = ef_registry self
       \<or> (\<exists>validated. registry = snd (select_for ops (ef_registry self) validated))
       \<or> (\<exists>validated i b. backend_mut (snd (select_for ops (ef_registry self) validated)) i = Ok b
            \<and> registry = put_backend i (snd (bo_create ops b validated)) (snd (select_for ops (ef_registry self) validated)))"
      "(\<exists>e. f = FailPlan e) \<or> (\<exists>e. f = FailSandbox e) \<or> (\<exists>d. f = FailEgressDenied d)"
  | (realm) validated reason selection registry b h b' where
      "plan_validate H enc (ie_plan effect) = Ok validated"
      "egress_gate H (ef_egress self) effect validated = Ok reason"
      "select_for ops (ef_registry self) validated = (Ok selection, registry)"
      "backend_mut registry (se_index selection) = Ok b" "bo_create ops b validated = (Ok h, b')"
      "execute_in_realm H enc ops rd re ri rr
         (self\<lparr>ef_registry := put_backend (se_index selection) b' registry\<rparr>)
         effect approval journal now validated reason (se_index selection) h = (res, self', j')"
proof (cases "plan_validate H enc (ie_plan effect)")
  case (Inl e)
  with assms show thesis by (intro early [of "FailPlan e" "ef_registry self"]) (simp_all add: effect_execute_def)
next
  case v: (Inr validated)
  show thesis
  proof (cases "egress_gate H (ef_egress self) effect validated")
    case (Inl d)
    with assms v show thesis
      by (intro early [of "FailEgressDenied d" "ef_registry self"]) (simp_all add: effect_execute_def)
  next
    case g: (Inr reason)
    obtain sel registry where s: "select_for ops (ef_registry self) validated = (sel, registry)" by (cases "select_for ops (ef_registry self) validated")
    show thesis
    proof (cases sel)
      case (Inl e)
      with assms v g s show thesis
        by (intro early [of "FailSandbox e" registry]) (auto simp: effect_execute_def intro!: exI [of _ validated])
    next
      case sel: (Inr selection)
      show thesis
      proof (cases "backend_mut registry (se_index selection)")
        case (Inl e)
        with assms v g s sel show thesis
          by (intro early [of "FailSandbox e" registry]) (auto simp: effect_execute_def intro!: exI [of _ validated])
      next
        case b: (Inr b)
        obtain c b' where c: "bo_create ops b validated = (c, b')" by (cases "bo_create ops b validated")
        show thesis
        proof (cases c)
          case (Inl e)
          have "backend_mut (snd (select_for ops (ef_registry self) validated)) (se_index selection) = Ok b
              \<and> put_backend (se_index selection) b' registry =
                put_backend (se_index selection) (snd (bo_create ops b validated)) (snd (select_for ops (ef_registry self) validated))"
            using s b c by simp
          moreover have "res = Err (FailSandbox e)" "j' = journal"
            "self' = self\<lparr>ef_registry := put_backend (se_index selection) b' registry\<rparr>"
            using Inl assms v g s sel b c by (simp_all add: effect_execute_def)
          ultimately show thesis
            by (intro early [of "FailSandbox e" "put_backend (se_index selection) b' registry"]) blast+
        next
          case (Inr h)
          with assms v g s sel b c show thesis
            by (intro realm [of validated reason selection registry b h b']) (simp_all add: effect_execute_def)
        qed
      qed
    qed
  qed
qed

lemma execute_in_realm_stages:
  assumes "execute_in_realm H enc ops rd re ri rr self effect approval journal now validated reason i h = (res, self', j')"
  obtains (unprepared) e where "prepare H enc effect = Err e" "res = Err (FailPlan e)" "j' = journal"
      "self' = self\<lparr>ef_registry := destroy_realm ops i h (ef_registry self)\<rparr>"
  | (unjournaled) prepared e j1 where "prepare H enc effect = Ok prepared"
      "ri journal (intent_of H effect validated prepared now) = (Err e, j1)" "res = Err (FailJournal e)" "j' = j1"
      "self' = self\<lparr>ef_registry := destroy_realm ops i h (ef_registry self)\<rparr>"
  | (enforced) prepared j1 enforcer registry secrets captured enforcement where "prepare H enc effect = Ok prepared"
      "ri journal (intent_of H effect validated prepared now) = (Ok (), j1)"
      "execute H rd re (ef_enforcer self) prepared approval now
         (effect_closure ops i h validated (ie_leases effect) (request_digest H prepared) now reason)
         (ef_registry self, ef_secrets self, None) = (enforcer, (registry, secrets, captured), enforcement)"
      "conclude H rr prepared now captured enforcement j1 = (res, j')"
      "self' = self\<lparr>ef_registry := destroy_realm ops i h registry, ef_secrets := secrets, ef_enforcer := enforcer\<rparr>"
proof (cases "prepare H enc effect")
  case (Inl e)
  with assms have "res = Err (FailPlan e)" "j' = journal"
    "self' = self\<lparr>ef_registry := destroy_realm ops i h (ef_registry self)\<rparr>"
    by (auto simp: execute_in_realm_def)
  with Inl show thesis by (rule unprepared)
next
  case p: (Inr prepared)
  obtain r j1 where j: "ri journal (intent_of H effect validated prepared now) = (r, j1)"
    by (cases "ri journal (intent_of H effect validated prepared now)")
  show thesis
  proof (cases r)
    case (Inl e)
    with assms p j have "res = Err (FailJournal e)" "j' = j1"
      "self' = self\<lparr>ef_registry := destroy_realm ops i h (ef_registry self)\<rparr>"
      by (auto simp: execute_in_realm_def)
    with p j Inl show thesis by (intro unjournaled) simp_all
  next
    case (Inr u)
    obtain enforcer registry secrets captured enforcement where x: "execute H rd re (ef_enforcer self) prepared approval now
         (effect_closure ops i h validated (ie_leases effect) (request_digest H prepared) now reason)
         (ef_registry self, ef_secrets self, None) = (enforcer, (registry, secrets, captured), enforcement)"
      by (metis prod.exhaust)
    have "conclude H rr prepared now captured enforcement j1 = (res, j')"
      "self' = self\<lparr>ef_registry := destroy_realm ops i h registry, ef_secrets := secrets, ef_enforcer := enforcer\<rparr>"
      using Inr assms p j x by (auto simp: execute_in_realm_def Let_def split: prod.splits)
    with p j x Inr show thesis by (intro enforced) simp_all
  qed
qed

text \<open>What \<open>conclude\<close> makes of the enforcement's result.\<close>

lemma conclude_Ok:
  "conclude H rr prepared now captured enforcement j = (Ok outcome, j') \<longleftrightarrow>
     enforcement = Ok () \<and> rr j (result_of H prepared now) = (Ok (), j')
     \<and> outcome = (case captured of None \<Rightarrow> no_outcome | Some x \<Rightarrow> x)"
  by (auto simp: conclude_def Let_def split: sum.splits prod.splits enforcement_error.splits closure_error.splits)

fun zero_effect :: "('ae, 'je) broker_failure \<Rightarrow> bool" where
  "zero_effect (FailPlan _) = True"
| "zero_effect (FailEgressDenied _) = True"
| "zero_effect (FailPolicy _) = True"
| "zero_effect (FailApproval _) = True"
| "zero_effect (FailJournal _) = True"
| "zero_effect (FailAuditBefore _) = True"
| "zero_effect _ = False"

lemma conclude_refused:
  "conclude H rr prepared now captured enforcement j = (Err f, j') \<Longrightarrow> zero_effect f \<Longrightarrow> \<not> effect_reached enforcement"
  by (auto simp: conclude_def Let_def split: sum.splits prod.splits enforcement_error.splits closure_error.splits)

section \<open>Invariants of the registry\<close>

text \<open>A predicate the listed operations keep on every backend.\<close>

definition all_backends :: "('b \<Rightarrow> bool) \<Rightarrow> 'b backend_registry \<Rightarrow> bool" where
  "all_backends P reg \<longleftrightarrow> (\<forall>b \<in> set (br_backends reg). P b)"

lemma all_backends_put: "all_backends P reg \<Longrightarrow> P b \<Longrightarrow> all_backends P (put_backend i b reg)"
  by (auto simp: all_backends_def put_backend_def dest: set_update_subset_insert [THEN subsetD])

lemma backend_mut_Ok: "backend_mut reg i = Ok b \<longleftrightarrow> i < length (br_backends reg) \<and> b = br_backends reg ! i"
  by (auto simp: backend_mut_def)

lemma all_backends_mut: "all_backends P reg \<Longrightarrow> backend_mut reg i = Ok b \<Longrightarrow> P b"
  by (auto simp: all_backends_def backend_mut_Ok)

lemma all_backends_select:
  assumes "\<forall>b. P b \<longrightarrow> P (snd (bo_health ops b))" "all_backends P reg"
  shows "all_backends P (snd (select_for ops reg plan))"
proof -
  have "\<forall>b \<in> set bs. P b \<Longrightarrow> \<forall>b \<in> set (snd (select_loop ops t plan i bs)). P b" for bs t i
  proof (induction bs arbitrary: i)
    case (Cons b bs)
    obtain r bs' where r: "select_loop ops t plan (Suc i) bs = (r, bs')" by (cases "select_loop ops t plan (Suc i) bs")
    obtain hr b' where hb: "bo_health ops b = (hr, b')" by (cases "bo_health ops b")
    have "\<forall>b \<in> set bs'. P b" using Cons.IH [of "Suc i"] Cons.prems r by simp
    moreover have "P b" "P b'" using Cons.prems assms(1) hb by (simp, metis list.set_intros(1) snd_conv)
    ultimately show ?case using Cons.prems r hb by (simp add: Let_def)
  qed simp
  with assms(2) show ?thesis by (simp add: all_backends_def select_for_def case_prod_beta)
qed

lemma all_backends_destroy:
  assumes "\<forall>b h. P b \<longrightarrow> P (snd (bo_destroy ops b h))" "all_backends P reg"
  shows "all_backends P (destroy_realm ops i h reg)"
  using assms all_backends_mut [OF assms(2)]
  by (auto simp: destroy_realm_def intro: all_backends_put split: sum.splits)

section \<open>Properties\<close>

text \<open>
  C19: refusal means zero effects. When the plan, the egress point, the journal, the policy,
  the approval or the audit refuses, the secrets are untouched and no backend was asked for
  more than its health, a realm and that realm's destruction: whatever these three keep of
  the backends still holds.
\<close>

theorem refusal_has_no_effect:
  assumes "effect_execute H enc ops rd re ri rr self effect approval journal now = (Err f, self', j')" "zero_effect f"
    and "\<forall>b. P b \<longrightarrow> P (snd (bo_health ops b))" "\<forall>b p. P b \<longrightarrow> P (snd (bo_create ops b p))"
    and "\<forall>b h. P b \<longrightarrow> P (snd (bo_destroy ops b h))" "all_backends P (ef_registry self)"
  shows "ef_secrets self' = ef_secrets self \<and> all_backends P (ef_registry self')"
  using assms(1)
proof (cases rule: effect_execute_stages)
  case (early f' registry)
  have sel: "all_backends P (snd (select_for ops (ef_registry self) v))" for v
    by (rule all_backends_select [OF assms(3,6)])
  from early(4) have "all_backends P registry"
  proof (elim disjE exE conjE)
    fix v i b
    assume b: "backend_mut (snd (select_for ops (ef_registry self) v)) i = Ok b"
      and r: "registry = put_backend i (snd (bo_create ops b v)) (snd (select_for ops (ef_registry self) v))"
    have "P (snd (bo_create ops b v))" using assms(4) all_backends_mut [OF sel b] by blast
    then show ?thesis unfolding r by (rule all_backends_put [OF sel])
  qed (simp_all add: sel assms(6))
  with early show ?thesis by simp
next
  case (realm validated reason selection registry b h b')
  have "all_backends P registry" using all_backends_select [OF assms(3,6), of validated] realm(3) by simp
  moreover have "P b'" using assms(4) realm(5) all_backends_mut [OF calculation realm(4)] by (metis snd_conv)
  ultimately have start: "all_backends P (put_backend (se_index selection) b' registry)" by (rule all_backends_put)
  let ?self = "self\<lparr>ef_registry := put_backend (se_index selection) b' registry\<rparr>"
  note d = all_backends_destroy [where P = P and ops = ops, OF assms(5)]
  from realm(6) show ?thesis
  proof (cases rule: execute_in_realm_stages)
    case (enforced prepared j1 enforcer registry' secrets captured enforcement)
    from conclude_refused [OF enforced(4) assms(2)] have "\<not> effect_reached enforcement" .
    with execute_reached(2) [OF enforced(3)] have "registry' = ef_registry ?self" "secrets = ef_secrets self" by simp_all
    with enforced(5) d start show ?thesis by simp
  qed (use d start in simp_all)
qed


text \<open>From the allocated realm on: what a journal, a policy or an audit that refuses leaves.\<close>

lemma effect_execute_in_realm:
  assumes "plan_validate H enc (ie_plan effect) = Ok validated" "egress_gate H (ef_egress self) effect validated = Ok reason"
    "select_for ops (ef_registry self) validated = (Ok selection, registry)"
    "backend_mut registry (se_index selection) = Ok b" "bo_create ops b validated = (Ok h, b')"
  shows "effect_execute H enc ops rd re ri rr self effect approval journal now = execute_in_realm H enc ops rd re ri rr
     (self\<lparr>ef_registry := put_backend (se_index selection) b' registry\<rparr>) effect approval journal now validated reason (se_index selection) h"
  using assms by (simp add: effect_execute_def)

lemma conclude_unreached: "\<not> effect_reached enforcement \<Longrightarrow> \<exists>f. conclude H rr prepared now captured enforcement j = (Err f, j)"
  by (cases enforcement rule: effect_reached.cases) (simp_all add: conclude_def)

lemma in_realm_unjournaled:
  assumes "prepare H enc effect = Ok prepared" "ri journal (intent_of H effect validated prepared now) = (Err e, j)"
  shows "execute_in_realm H enc ops rd re ri rr self effect approval journal now validated reason i h
     = (Err (FailJournal e), self\<lparr>ef_registry := destroy_realm ops i h (ef_registry self)\<rparr>, j)"
  using assms by (simp add: execute_in_realm_def)

lemma in_realm_refused:
  assumes "prepare H enc effect = Ok prepared" "ri journal (intent_of H effect validated prepared now) = (Ok (), j1)"
    "\<not> (authorised (pe_bundles (en_engine (ef_enforcer self))) prepared (approval_granted H (ef_enforcer self) prepared approval now)
       \<and> snd (rd (en_sink (ef_enforcer self)) (audit_from_decision H
           (decide H (en_engine (ef_enforcer self)) prepared (approval_granted H (ef_enforcer self) prepared approval now)) prepared)) = Ok ())"
  shows "\<exists>f enforcer. execute_in_realm H enc ops rd re ri rr self effect approval journal now validated reason i h
     = (Err f, self\<lparr>ef_registry := destroy_realm ops i h (ef_registry self), ef_enforcer := enforcer\<rparr>, j1)"
proof -
  obtain res self' j' where x: "execute_in_realm H enc ops rd re ri rr self effect approval journal now validated reason i h = (res, self', j')"
    by (metis prod.exhaust)
  then show ?thesis
  proof (cases rule: execute_in_realm_stages)
    case (enforced p j2 enforcer registry secrets captured enforcement)
    have same: "p = prepared" "j2 = j1" using enforced(1,2) assms(1,2) by auto
    have n: "\<not> effect_reached enforcement" using execute_reached(1) [OF enforced(3)] assms(3) same by simp
    then have w: "registry = ef_registry self" "secrets = ef_secrets self" using execute_reached(2) [OF enforced(3)] by simp_all
    obtain f where "res = Err f" "j' = j1" using conclude_unreached [OF n] enforced(4) same by (metis prod.inject)
    moreover have "self' = self\<lparr>ef_registry := destroy_realm ops i h (ef_registry self), ef_enforcer := enforcer\<rparr>"
      unfolding enforced(5) w by (cases self) simp
    ultimately show ?thesis using x by blast
  qed (use assms(1,2) in auto)
qed

lemma in_realm_result_unrecorded:
  assumes "execute_in_realm H enc ops rd re ri rr self effect approval journal now validated reason i h = (Ok outcome, self', j')"
    "prepare H enc effect = Ok prepared" "ri journal (intent_of H effect validated prepared now) = (Ok (), j1)"
    "rr' j1 (result_of H prepared now) = (Err e, j2)"
  shows "execute_in_realm H enc ops rd re ri rr' self effect approval journal now validated reason i h = (Err (FailJournalAfter e), self', j2)"
  using assms(1)
proof (cases rule: execute_in_realm_stages)
  case (enforced p j0 enforcer registry secrets captured enforcement)
  then have "p = prepared" "j0 = j1" using assms(2,3) by auto
  with enforced assms(4) show ?thesis by (simp add: execute_in_realm_def conclude_Ok) (simp add: conclude_def)
qed simp_all

text \<open>An enforcement that ends in an outcome: every gate passed, the effect ran once, and its result was recorded.\<close>

lemma enforced_outcome:
  assumes "prepare H enc effect = Ok prepared"
    "execute H rd re (ef_enforcer (self\<lparr>ef_registry := started\<rparr>)) prepared approval now
       (effect_closure ops i h validated (ie_leases effect) (request_digest H prepared) now reason)
       (ef_registry (self\<lparr>ef_registry := started\<rparr>), ef_secrets (self\<lparr>ef_registry := started\<rparr>), None)
     = (enforcer, (registry, secrets, captured), enforcement)"
    "conclude H rr prepared now captured enforcement j1 = (Ok outcome, j')"
    "self' = (self\<lparr>ef_registry := started\<rparr>)\<lparr>ef_registry := destroy_realm ops i h registry, ef_secrets := secrets, ef_enforcer := enforcer\<rparr>"
  shows "cr_sandboxed prepared" "rr j1 (result_of H prepared now) = (Ok (), j')"
    "let av = approval_granted H (ef_enforcer self) prepared approval now in
       authorised (pe_bundles (en_engine (ef_enforcer self))) prepared av
       \<and> snd (rd (en_sink (ef_enforcer self)) (audit_from_decision H
             (decide H (en_engine (ef_enforcer self)) prepared av) prepared)) = Ok ()"
    "\<exists>registry' secrets captured.
       fst (effect_closure ops i h validated (ie_leases effect) (request_digest H prepared) now reason
             (started, ef_secrets self, None)) = (registry', secrets, captured)
       \<and> ef_registry self' = destroy_realm ops i h registry' \<and> ef_secrets self' = secrets
       \<and> outcome = (case captured of None \<Rightarrow> no_outcome | Some x \<Rightarrow> x)"
proof -
  have ok: "enforcement = Ok ()" "rr j1 (result_of H prepared now) = (Ok (), j')"
    "outcome = (case captured of None \<Rightarrow> no_outcome | Some x \<Rightarrow> x)"
    using assms(3) by (simp_all add: conclude_Ok)
  then have r: "effect_reached enforcement" by simp
  show "cr_sandboxed prepared" using assms(1) by (auto simp: prepare_def request_new_def Let_def split: sum.splits)
  show "rr j1 (result_of H prepared now) = (Ok (), j')" by (rule ok(2))
  show "let av = approval_granted H (ef_enforcer self) prepared approval now in
       authorised (pe_bundles (en_engine (ef_enforcer self))) prepared av
       \<and> snd (rd (en_sink (ef_enforcer self)) (audit_from_decision H
             (decide H (en_engine (ef_enforcer self)) prepared av) prepared)) = Ok ()"
    using r execute_reached(1) [OF assms(2)] by (simp add: Let_def)
  have "fst (effect_closure ops i h validated (ie_leases effect) (request_digest H prepared) now reason
          (started, ef_secrets self, None)) = (registry, secrets, captured)"
    using r execute_reached(2) [OF assms(2)] by simp
  then show "\<exists>registry' secrets captured.
       fst (effect_closure ops i h validated (ie_leases effect) (request_digest H prepared) now reason
             (started, ef_secrets self, None)) = (registry', secrets, captured)
       \<and> ef_registry self' = destroy_realm ops i h registry' \<and> ef_secrets self' = secrets
       \<and> outcome = (case captured of None \<Rightarrow> no_outcome | Some x \<Rightarrow> x)"
    using ok(3) assms(4) by (intro exI [of _ registry] exI [of _ secrets] exI [of _ captured]) simp
qed

lemma refused_effect:
  assumes "plan_validate H enc (ie_plan effect) = Ok validated" "egress_gate H (ef_egress self) effect validated = Ok reason"
    "select_for ops (ef_registry self) validated = (Ok selection, registry)"
    "backend_mut registry (se_index selection) = Ok b" "bo_create ops b validated = (Ok h, b')"
    "prepare H enc effect = Ok prepared"
  defines "left \<equiv> destroy_realm ops (se_index selection) h (put_backend (se_index selection) b' registry)"
  shows "ri journal (intent_of H effect validated prepared now) = (Err e, j) \<Longrightarrow>
      effect_execute H enc ops rd re ri rr self effect approval journal now = (Err (FailJournal e), self\<lparr>ef_registry := left\<rparr>, j)"
    and "ri journal (intent_of H effect validated prepared now) = (Ok (), j1) \<Longrightarrow>
      (let av = approval_granted H en prepared approval now in
         \<not> authorised (pe_bundles (en_engine en)) prepared av
         \<or> snd (rd (en_sink en) (audit_from_decision H (decide H (en_engine en) prepared av) prepared)) \<noteq> Ok ()) \<Longrightarrow>
      \<exists>f enforcer. effect_execute H enc ops rd re ri rr (self\<lparr>ef_enforcer := en\<rparr>) effect approval journal now
        = (Err f, self\<lparr>ef_registry := left, ef_enforcer := enforcer\<rparr>, j1)"
proof -
  let ?started = "put_backend (se_index selection) b' registry"
  assume "ri journal (intent_of H effect validated prepared now) = (Err e, j)"
  from in_realm_unjournaled [where ri = ri and journal = journal and self = "self\<lparr>ef_registry := ?started\<rparr>", OF assms(6) this]
  show "effect_execute H enc ops rd re ri rr self effect approval journal now = (Err (FailJournal e), self\<lparr>ef_registry := left\<rparr>, j)"
    unfolding effect_execute_in_realm [OF assms(1-5)] left_def by simp
next
  let ?started = "put_backend (se_index selection) b' registry"
  assume j: "ri journal (intent_of H effect validated prepared now) = (Ok (), j1)"
    and no: "let av = approval_granted H en prepared approval now in
         \<not> authorised (pe_bundles (en_engine en)) prepared av
         \<or> snd (rd (en_sink en) (audit_from_decision H (decide H (en_engine en) prepared av) prepared)) \<noteq> Ok ()"
  have "effect_execute H enc ops rd re ri rr (self\<lparr>ef_enforcer := en\<rparr>) effect approval journal now
      = execute_in_realm H enc ops rd re ri rr (self\<lparr>ef_enforcer := en, ef_registry := ?started\<rparr>) effect approval journal now
          validated reason (se_index selection) h"
    using effect_execute_in_realm [OF assms(1) _ _ assms(4,5), of "self\<lparr>ef_enforcer := en\<rparr>" reason] assms(2,3) by simp
  with in_realm_refused [where ri = ri and journal = journal and rd = rd and re = re and rr = rr and ops = ops and approval = approval
      and reason = reason and i = "se_index selection" and h = h and self = "self\<lparr>ef_enforcer := en, ef_registry := ?started\<rparr>",
      OF assms(6) j] no
  show "\<exists>f enforcer. effect_execute H enc ops rd re ri rr (self\<lparr>ef_enforcer := en\<rparr>) effect approval journal now
        = (Err f, self\<lparr>ef_registry := left, ef_enforcer := enforcer\<rparr>, j1)"
    by (simp add: Let_def left_def)
qed

text \<open>
  C18: success passes every gate, in order. An effect that returns an outcome had a valid plan, passed
  the egress point and got its realm on the selected backend; its intent was recorded before and its result
  after; the request evaluated was the sandboxed form, it was authorised (with a validated grant where
  approval was needed) and its permission was durably audited; the outcome, the registry and the secrets are
  those the effect left, run once in this realm and the realm destroyed. The order is that of the refusals:
  with an egress point that denies, the same call does nothing; with a journal that refuses the intent, it
  creates and destroys the realm and does nothing else; with a policy that does not authorise the request or
  an audit that refuses the decision, it also has the intent in the journal, and neither ran the effect nor
  touched the secrets; and with a journal that refuses the result, the effect has happened as it did here.
\<close>

theorem success_passed_every_gate:
  assumes "effect_execute H enc ops rd re ri rr self effect approval journal now = (Ok outcome, self', j')"
  shows "\<exists>validated prepared reason selection j1 registry b h b'.
      plan_validate H enc (ie_plan effect) = Ok validated \<and> prepare H enc effect = Ok prepared
    \<and> cr_sandboxed prepared
    \<and> egress_gate H (ef_egress self) effect validated = Ok reason
    \<and> select_for ops (ef_registry self) validated = (Ok selection, registry)
    \<and> backend_mut registry (se_index selection) = Ok b \<and> bo_create ops b validated = (Ok h, b')
    \<and> ri journal (intent_of H effect validated prepared now) = (Ok (), j1)
    \<and> (let av = approval_granted H (ef_enforcer self) prepared approval now in
         authorised (pe_bundles (en_engine (ef_enforcer self))) prepared av
         \<and> snd (rd (en_sink (ef_enforcer self)) (audit_from_decision H
               (decide H (en_engine (ef_enforcer self)) prepared av) prepared)) = Ok ())
    \<and> rr j1 (result_of H prepared now) = (Ok (), j')
    \<and> (\<exists>registry' secrets captured.
         fst (effect_closure ops (se_index selection) h validated (ie_leases effect) (request_digest H prepared) now reason
               (put_backend (se_index selection) b' registry, ef_secrets self, None)) = (registry', secrets, captured)
         \<and> ef_registry self' = destroy_realm ops (se_index selection) h registry' \<and> ef_secrets self' = secrets
         \<and> outcome = (case captured of None \<Rightarrow> no_outcome | Some x \<Rightarrow> x))
    \<and> (\<forall>egress d. egress_gate H egress effect validated = Err d \<longrightarrow>
         effect_execute H enc ops rd re ri rr (self\<lparr>ef_egress := egress\<rparr>) effect approval journal now
           = (Err (FailEgressDenied d), self\<lparr>ef_egress := egress\<rparr>, journal))
    \<and> (\<forall>ri' e j. ri' journal (intent_of H effect validated prepared now) = (Err e, j) \<longrightarrow>
         effect_execute H enc ops rd re ri' rr self effect approval journal now
           = (Err (FailJournal e), self\<lparr>ef_registry := destroy_realm ops (se_index selection) h
                (put_backend (se_index selection) b' registry)\<rparr>, j))
    \<and> (\<forall>enforcer rd'. (let av = approval_granted H enforcer prepared approval now in
           \<not> authorised (pe_bundles (en_engine enforcer)) prepared av
           \<or> snd (rd' (en_sink enforcer) (audit_from_decision H (decide H (en_engine enforcer) prepared av) prepared)) \<noteq> Ok ()) \<longrightarrow>
         (\<exists>f enforcer'. effect_execute H enc ops rd' re ri rr (self\<lparr>ef_enforcer := enforcer\<rparr>) effect approval journal now
           = (Err f, self\<lparr>ef_registry := destroy_realm ops (se_index selection) h
                (put_backend (se_index selection) b' registry), ef_enforcer := enforcer'\<rparr>, j1)))
    \<and> (\<forall>rr' e j. rr' j1 (result_of H prepared now) = (Err e, j) \<longrightarrow>
         effect_execute H enc ops rd re ri rr' self effect approval journal now = (Err (FailJournalAfter e), self', j))"
  using assms
proof (cases rule: effect_execute_stages)
  case (realm validated reason selection registry b h b')
  from realm(6) show ?thesis
  proof (cases rule: execute_in_realm_stages)
    case (enforced prepared j1 enforcer registry' secrets captured enforcement)
    note facts = enforced_outcome [OF enforced(1,3-5)]
    note order = refused_effect [OF realm(1-5) enforced(1)]
    have denied: "effect_execute H enc ops rd re ri rr (self\<lparr>ef_egress := egress\<rparr>) effect approval journal now
           = (Err (FailEgressDenied d), self\<lparr>ef_egress := egress\<rparr>, journal)"
      if "egress_gate H egress effect validated = Err d" for egress d
      using realm(1) that by (simp add: effect_execute_def)
    have unrecorded: "effect_execute H enc ops rd re ri rr' self effect approval journal now = (Err (FailJournalAfter e), self', j)"
      if "rr' j1 (result_of H prepared now) = (Err e, j)" for rr' e j
      unfolding effect_execute_in_realm [OF realm(1-5)]
      by (rule in_realm_result_unrecorded [where rr' = rr', OF realm(6) enforced(1,2) that])
    show ?thesis
      apply (rule exI [of _ validated], rule exI [of _ prepared], rule exI [of _ reason], rule exI [of _ selection],
          rule exI [of _ j1], rule exI [of _ registry], rule exI [of _ b], rule exI [of _ h], rule exI [of _ b'])
      apply (intro conjI allI impI)
      by (rule realm(1-5) enforced(1,2) facts | erule denied order(1) order(2) [where ri = ri and journal = journal, OF enforced(2)] unrecorded)+
  qed simp_all
qed simp

text \<open>What the closure captured, when it succeeded.\<close>

lemma run_in_realm_Ok:
  assumes "run_in_realm ops h validated leases digest now reason b secrets captured = (b', secrets', captured', Ok u)"
  shows "\<exists>out. captured' = Some (capture_outcome secrets' reason out)"
  using assms by (auto simp: run_in_realm_def split: prod.splits sum.splits option.splits)

lemma issue_records: "sb_records (snd (broker_issue s r now)) = sb_records s"
  by (auto simp: broker_issue_def Let_def split: option.splits)

lemma consume_records: "sb_records (snd (broker_consume s i d now)) = sb_records s"
  by (auto simp: broker_consume_def put_lease_def Let_def split: option.splits)

lemma lease_each_records: "sb_records (snd (lease_each digest now rs secrets given)) = sb_records secrets"
proof (induction digest now rs secrets given rule: lease_each.induct)
  case (2 digest now r rs secrets given)
  obtain x s1 where i: "broker_issue secrets r now = (x, s1)" by (cases "broker_issue secrets r now")
  then have r1: "sb_records s1 = sb_records secrets" using issue_records [of secrets r now] by simp
  show ?case
  proof (cases x)
    case (Inr lease)
    obtain y s2 where c: "broker_consume s1 (sl_lease_id lease) digest now = (y, s2)"
      by (cases "broker_consume s1 (sl_lease_id lease) digest now")
    then have "sb_records s2 = sb_records secrets" using consume_records [of s1 "sl_lease_id lease" digest now] r1 by simp
    with 2 [OF i [symmetric] Inr] i Inr c show ?thesis by (cases y) simp_all
  qed (simp add: i r1)
qed simp

lemma run_in_realm_records:
  assumes "run_in_realm ops h validated leases digest now reason b secrets captured = (b', secrets', captured', res)"
  shows "sb_records secrets' = sb_records secrets"
proof -
  have "sb_records s1 = sb_records secrets" if "lease_each digest now leases secrets [] = (r, s1)" for r s1
    using lease_each_records [of digest now leases secrets "[]"] that by simp
  then show ?thesis
    using assms by (auto simp: run_in_realm_def split: prod.splits sum.splits option.splits)
qed

text \<open>
  C20: no registered secret leaves with the output. When the registered materials are
  marker-safe, neither stream of a returned outcome contains any of them.
\<close>

theorem outcome_has_no_secret:
  assumes "effect_execute H enc ops rd re ri rr self effect approval journal now = (Ok outcome, self', j')"
    and "\<forall>(ref, rec) \<in> set (sb_records (ef_secrets self)). marker_safe (sr_material rec)"
    and "(ref, rec) \<in> set (sb_records (ef_secrets self))"
  shows "\<not> str_contains (eo_stdout outcome) (sr_material rec) \<and> \<not> str_contains (eo_stderr outcome) (sr_material rec)"
  using assms(1)
proof (cases rule: effect_execute_stages)
  case (realm validated reason selection registry b h b')
  let ?reg = "put_backend (se_index selection) b' registry"
  from realm(6) show ?thesis
  proof (cases rule: execute_in_realm_stages)
    case (enforced prepared j1 enforcer registry' secrets captured enforcement)
    let ?closure = "effect_closure ops (se_index selection) h validated (ie_leases effect) (request_digest H prepared) now reason"
    have en: "enforcement = Ok ()" and oc: "outcome = (case captured of None \<Rightarrow> no_outcome | Some x \<Rightarrow> x)"
      using enforced(4) by (simp_all add: conclude_Ok)
    have ran: "(registry', secrets, captured) = fst (?closure (?reg, ef_secrets self, None))"
      using execute_reached(2) [OF enforced(3)] en by simp
    have bm: "backend_mut ?reg (se_index selection) = Ok b'"
      using realm(4) by (auto simp: backend_mut_Ok put_backend_def)
    obtain b2 s2 c2 r2 where run: "run_in_realm ops h validated (ie_leases effect) (request_digest H prepared) now reason b'
        (ef_secrets self) None = (b2, s2, c2, r2)" by (metis prod.exhaust)
    with ran bm have eq: "secrets = s2" "captured = c2" by (auto simp: effect_closure_def)
    have recs: "sb_records s2 = sb_records (ef_secrets self)" by (rule run_in_realm_records [OF run])
    show ?thesis
    proof (cases captured)
      case None
      then have "eo_stdout outcome = [] \<and> eo_stderr outcome = []" by (simp add: oc no_outcome_def)
      moreover have "sr_material rec \<noteq> []" using assms(2,3) by (auto simp: marker_safe_def)
      ultimately show ?thesis by (simp add: str_contains_def)
    next
      case (Some x)
      then have "\<exists>out. x = capture_outcome s2 reason out"
        using run eq by (auto simp: run_in_realm_def split: prod.splits sum.splits option.splits)
      then obtain out where x: "x = capture_outcome s2 reason out" ..
      have "\<not> str_contains (fst (redact s2 buf)) (sr_material rec)" for buf
        by (rule redact_contains_no_material [where ref = ref]) (use assms(2,3) recs in auto)
      then show ?thesis
        by (simp add: oc Some x capture_outcome_def case_prod_beta)
    qed
  qed simp_all
qed simp


lemma put_keeps_length [simp]: "length (br_backends (put_backend i b reg)) = length (br_backends reg)"
  by (simp add: put_backend_def)

context realm_backend begin

lemma destroy_realm_ends:
  "i < length (br_backends reg) \<Longrightarrow> realm_of (br_backends (destroy_realm ops i h reg) ! i) h = None"
  by (simp add: destroy_realm_def backend_mut_def put_backend_def destroy_ends)

lemma realm_ends_with_call:
  assumes "execute_in_realm H enc ops rd re ri rr self effect approval journal now validated reason i h = (res, self', j')"
    and "i < length (br_backends (ef_registry self))"
  shows "realm_of (br_backends (ef_registry self') ! i) h = None"
  using assms(1)
proof (cases rule: execute_in_realm_stages)
  case (enforced prepared j1 enforcer registry secrets captured enforcement)
  have "length (br_backends (fst (fst (effect_closure ops i h validated (ie_leases effect) (request_digest H prepared) now reason w))))
      = length (br_backends (fst w))" for w
    by (cases w) (auto simp: effect_closure_def split: sum.splits prod.splits)
  with execute_reached(2) [OF enforced(3)] assms(2) have "i < length (br_backends registry)"
    by (metis fst_conv)
  with enforced(5) destroy_realm_ends show ?thesis by simp
qed (use destroy_realm_ends assms(2) in simp_all)

end

text \<open>
  C21: the realm never outlives the call. On the host backends, whatever the result, the
  realm a call allocated is gone when the call returns.
\<close>

theorem realm_never_outlives_call:
  assumes "effect_execute H enc (std_host_ops D inventory spawn canon tmp wp) rd re ri rr self effect approval journal now = (res, self', j')"
    and "plan_validate H enc (ie_plan effect) = Ok validated"
    and "select_for (std_host_ops D inventory spawn canon tmp wp) (ef_registry self) validated = (Ok selection, registry)"
    and "bo_create (std_host_ops D inventory spawn canon tmp wp) (br_backends registry ! se_index selection) validated = (Ok h, b')"
    and "egress_gate H (ef_egress self) effect validated = Ok reason"
  shows "host_plan_of (br_backends (ef_registry self') ! se_index selection) h = None"
proof -
  have len: "se_index selection < length (br_backends registry)"
    using selection_in_range [OF assms(3)] .
  then have "backend_mut registry (se_index selection) = Ok (br_backends registry ! se_index selection)"
    by (simp add: backend_mut_def)
  with assms have "execute_in_realm H enc (std_host_ops D inventory spawn canon tmp wp) rd re ri rr
      (self\<lparr>ef_registry := put_backend (se_index selection) b' registry\<rparr>)
      effect approval journal now validated reason (se_index selection) h = (res, self', j')"
    by (simp add: effect_execute_def)
  then show ?thesis
    by (rule host_backend.realm_ends_with_call) (simp add: len)
qed

section \<open>A sample run\<close>

definition read_plan :: sandbox_plan where
  "read_plan = \<lparr>sp_version = 1, sp_workspace_id = ''ws'', sp_realm = S1GuardedRead, sp_mounts = [],
     sp_env = \<lparr>es_allow = [], es_lease_channels = []\<rparr>, sp_budget = default_budget, sp_network = NetworkDenied,
     sp_command = None\<rparr>"

definition read_effect :: isolated_effect where
  "read_effect = \<lparr>ie_request = sample_request FsRead, ie_plan = read_plan, ie_leases = [], ie_egress = None\<rparr>"

definition read_broker :: "policy_rule list \<Rightarrow> (memory_audit_sink, host_backend) effect_broker" where
  "read_broker rules = effect_broker_new (sample_engine rules)
     \<lparr>ms_decisions = [], ms_enforcement = [], ms_unavailable = False\<rparr>
     (for_current_platform Linux healthy_report) sample_secrets sample_egress"

definition list_journal :: "(string list, string) record_intent_op" where
  "list_journal j i = (Ok (), j @ [ji_intent_id i])"

definition list_results :: "(string list, string) record_result_op" where
  "list_results j i = (Ok (), j @ [jr_intent_id i])"

definition read_ops :: "host_backend backend_ops" where
  "read_ops = std_host_ops id id (\<lambda>_. Err ExecFailed) Some ''/tmp'' (\<lambda>_ _. True)"

definition run_read ::
  "policy_rule list \<Rightarrow> ((string, string) broker_failure + effect_outcome) \<times> (memory_audit_sink, host_backend) effect_broker \<times> string list" where
  "run_read rules = effect_execute id (\<lambda>_. Some []) read_ops memory_record_decision memory_record_enforcement
     list_journal list_results (read_broker rules) read_effect None [] 1500"

lemma run_read_unfold:
  "effect_execute id (\<lambda>_. Some []) (std_host_ops id id (\<lambda>_. Err ExecFailed) Some ''/tmp'' (\<lambda>_ _. True))
     memory_record_decision memory_record_enforcement list_journal list_results (read_broker rules) read_effect None [] 1500
   = (fst (run_read rules), fst (snd (run_read rules)), snd (snd (run_read rules)))"
  by (simp add: run_read_def read_ops_def)

definition read_validated :: validated_plan where
  "read_validated = \<lparr>vp_plan = read_plan, vp_digest = plan_digest id (\<lambda>_. Some []) read_plan,
     vp_requirements = requirements S1GuardedRead\<rparr>"

lemma read_plan_validates: "plan_validate id (\<lambda>_. Some []) read_plan = Ok read_validated"
  by (simp add: plan_validate_Ok read_validated_def read_plan_def bad_plan_header_def validate_mounts_def
      validate_environment_def validate_budget_def validate_network_def validate_command_def Let_def
      byte_class_defs byte_def default_budget_def)

lemma read_prepared: "prepare id (\<lambda>_. Some []) read_effect = Ok (sample_request FsRead)"
proof -
  have "request_new (cr_request_id r) (cr_principal r) (cr_workspace_id r) (cr_task_id r) (cr_action r)
      (cr_resource r) (cr_operation_hash r) (cr_credential_ref r) True (cr_data_class r) (cr_occurred_at_ms r) =
    Ok (sample_request FsRead)" if "r = sample_request FsRead" for r
    using sample_request_valid [of FsRead] unfolding that
    by (simp add: request_new_def sample_request_def)
  then show ?thesis
    by (simp add: prepare_def read_effect_def read_plan_validates Let_def)
qed

lemma read_gate: "egress_gate id egress read_effect read_validated = Ok None"
proof -
  have "\<not> requires_network (descriptor FsRead)" by code_simp
  then show ?thesis by (simp add: egress_gate_def read_effect_def)
qed

definition read_handle :: realm_handle where
  "read_handle = \<lparr>rh_realm_id = guarded_realm_id 1, rh_plan_digest = vp_digest read_validated\<rparr>"

definition read_guarded :: guarded_backend where
  "read_guarded = (guarded_new Linux)\<lparr>gb_counter := 1,
     gb_realms := [(guarded_realm_id 1, \<lparr>rs_plan = read_validated, rs_host_mounts = []\<rparr>)]\<rparr>"

lemma read_selected:
  "select_for read_ops (for_current_platform Linux healthy_report) read_validated =
     (Ok \<lparr>se_index = 0, se_descriptor = gb_descriptor (guarded_new Linux)\<rparr>, for_current_platform Linux healthy_report)"
  by (simp add: select_for_def for_current_platform_def read_ops_def std_host_ops_def host_ops_def guarded_ops_def
      Let_def guarded_admissible [OF read_plan_validates] healthy_report_def lift_op_def)
    (simp add: read_plan_def)

lemma read_created: "bo_create read_ops (HostGuarded (guarded_new Linux)) read_validated = (Ok read_handle, HostGuarded read_guarded)"
  by (simp add: read_ops_def std_host_ops_def host_ops_def guarded_ops_def guarded_create_def lift_op_def read_guarded_def
      read_handle_def read_validated_def read_plan_def guarded_new_def host_mounts_of_def Let_def)

lemma read_closure:
  "effect_closure read_ops 0 read_handle read_validated [] digest now reason (put_backend 0 (HostGuarded read_guarded) (for_current_platform Linux healthy_report), secrets, None)
   = ((put_backend 0 (HostGuarded read_guarded) (for_current_platform Linux healthy_report), secrets, Some (capture_outcome secrets reason in_core_outcome)), Ok ())"
proof -
  have "bo_network read_ops (HostGuarded read_guarded) read_handle NetworkDenied = (Ok (), HostGuarded read_guarded)"
    by (simp add: read_ops_def std_host_ops_def host_ops_def guarded_ops_def guarded_network_def guarded_realm_def
        read_handle_def read_guarded_def bt_get_def lift_op_def read_validated_def read_plan_def)
  then show ?thesis
    by (simp add: effect_closure_def backend_mut_def put_backend_def for_current_platform_def run_in_realm_def
        read_validated_def read_plan_def)
qed

lemma read_enforced:
  "snd (execute id memory_record_decision memory_record_enforcement (ef_enforcer (read_broker [sample_rule ''p'' Permit FsRead]))
      (sample_request FsRead) None now
      (effect_closure read_ops 0 read_handle read_validated [] digest now reason)
      (put_backend 0 (HostGuarded read_guarded) (for_current_platform Linux healthy_report), sample_secrets, None))
   = ((put_backend 0 (HostGuarded read_guarded) (for_current_platform Linux healthy_report), sample_secrets,
       Some (capture_outcome sample_secrets reason in_core_outcome)), Ok ())"
proof -
  have o: "pd_outcome (decide id (sample_engine [sample_rule ''p'' Permit FsRead]) (sample_request FsRead) False) = OutcomeAllow"
    by (simp add: sample_authorised)
  show ?thesis
    by (simp add: execute_def execute_decided_def persist_def memory_record_decision_def memory_record_enforcement_def
        read_broker_def effect_broker_new_def enforcer_new_def o read_closure Let_def)
qed

lemma run_read_Ok:
  "fst (run_read [sample_rule ''p'' Permit FsRead]) = Ok (capture_outcome sample_secrets None in_core_outcome)"
proof -
  let ?rules = "[sample_rule ''p'' Permit FsRead]"
  let ?digest = "request_digest id (sample_request FsRead)"
  obtain en w r where x: "execute id memory_record_decision memory_record_enforcement (ef_enforcer (read_broker ?rules))
      (sample_request FsRead) None 1500
      (effect_closure read_ops 0 read_handle read_validated [] ?digest 1500 None)
      (put_backend 0 (HostGuarded read_guarded) (for_current_platform Linux healthy_report), sample_secrets, None) = (en, w, r)"
    by (metis prod.exhaust)
  with read_enforced [of 1500 ?digest None] have "w = (put_backend 0 (HostGuarded read_guarded) (for_current_platform Linux healthy_report), sample_secrets,
       Some (capture_outcome sample_secrets None in_core_outcome))" "r = Ok ()"
    by simp_all
  moreover have "ie_plan read_effect = read_plan" "ie_leases read_effect = []"
    "ef_registry (read_broker ?rules) = for_current_platform Linux healthy_report" "ef_secrets (read_broker ?rules) = sample_secrets"
    by (simp_all add: read_effect_def read_broker_def effect_broker_new_def)
  moreover have "backend_mut (for_current_platform Linux healthy_report) 0 = Ok (HostGuarded (guarded_new Linux))"
    by (simp add: backend_mut_def for_current_platform_def)
  ultimately show ?thesis
    using x
    by (simp add: run_read_def effect_execute_def read_plan_validates read_gate read_selected read_created
        execute_in_realm_def read_prepared list_journal_def list_results_def conclude_def)
qed

theorem success_passed_every_gate_witness:
  "(\<exists>j1. list_journal [] (intent_of id read_effect read_validated (sample_request FsRead) 1500) = (Ok (), j1)
      \<and> authorised (Some [sample_bundle 1 [sample_rule ''p'' Permit FsRead]]) (sample_request FsRead)
         (approval_granted id (ef_enforcer (read_broker [sample_rule ''p'' Permit FsRead])) (sample_request FsRead) None 1500))
   \<and> fst (effect_execute id (\<lambda>_. Some []) (std_host_ops id id (\<lambda>_. Err ExecFailed) Some ''/tmp'' (\<lambda>_ _. True))
       memory_record_decision memory_record_enforcement (\<lambda>j i. (Err ''full'', j)) list_results
       (read_broker [sample_rule ''p'' Permit FsRead]) read_effect None [] 1500) = Err (FailJournal ''full'')"
proof -
  have p: "plan_validate id (\<lambda>_. Some []) (ie_plan read_effect) = Ok read_validated"
    by (simp add: read_effect_def read_plan_validates)
  have e: "pe_bundles (en_engine (ef_enforcer (read_broker rules))) = Some [sample_bundle 1 rules]" for rules
    by (simp add: read_broker_def effect_broker_new_def enforcer_new_def)
  from success_passed_every_gate [OF run_read_unfold [of "[sample_rule ''p'' Permit FsRead]", unfolded run_read_Ok]]
  show ?thesis
    unfolding p read_prepared e Let_def by (elim exE conjE) (auto simp del: split_paired_All)
qed

theorem outcome_has_no_secret_witness:
  "\<not> str_contains (eo_stdout (capture_outcome sample_secrets None in_core_outcome)) ''sk-live-1''"
proof -
  have m: "marker_safe ''sk-live-1''"
    by (simp add: marker_safe_def sublist_Cons_right)
  have s: "\<forall>(ref, rec) \<in> set (sb_records (ef_secrets (read_broker rules))). marker_safe (sr_material rec)"
    "(''credential://broker/a'', \<lparr>sr_material = ''sk-live-1'', sr_channels = [EnvVar ''T''], sr_purposes = [''deploy''], sr_revoked = False\<rparr>)
       \<in> set (sb_records (ef_secrets (read_broker rules)))" for rules
    using m by (simp_all add: read_broker_def effect_broker_new_def sample_secrets_def)
  from outcome_has_no_secret [OF run_read_unfold [of "[sample_rule ''p'' Permit FsRead]", unfolded run_read_Ok] s]
  show ?thesis by simp
qed

theorem realm_never_outlives_call_witness:
  "host_plan_of (br_backends (ef_registry (fst (snd (run_read [])))) ! 0) read_handle = None"
proof -
  have r: "ef_registry (read_broker []) = for_current_platform Linux healthy_report"
    by (simp add: read_broker_def effect_broker_new_def)
  have p: "plan_validate id (\<lambda>_. Some []) (ie_plan read_effect) = Ok read_validated"
    by (simp add: read_effect_def read_plan_validates)
  have c: "bo_create (std_host_ops id id (\<lambda>_. Err ExecFailed) Some ''/tmp'' (\<lambda>_ _. True))
      (br_backends (for_current_platform Linux healthy_report) ! se_index \<lparr>se_index = 0, se_descriptor = gb_descriptor (guarded_new Linux)\<rparr>)
      read_validated = (Ok read_handle, HostGuarded read_guarded)"
    using read_created by (simp add: read_ops_def for_current_platform_def)
  have s: "select_for (std_host_ops id id (\<lambda>_. Err ExecFailed) Some ''/tmp'' (\<lambda>_ _. True)) (ef_registry (read_broker [])) read_validated =
      (Ok \<lparr>se_index = 0, se_descriptor = gb_descriptor (guarded_new Linux)\<rparr>, for_current_platform Linux healthy_report)"
    using read_selected by (simp add: r read_ops_def)
  from realm_never_outlives_call [OF run_read_unfold [of "[]"] p s c read_gate]
  show ?thesis by simp
qed

lemma run_read_refused: "\<exists>d. fst (run_read []) = Err (FailPolicy d)"
proof -
  let ?digest = "request_digest id (sample_request FsRead)"
  let ?reg = "put_backend 0 (HostGuarded read_guarded) (for_current_platform Linux healthy_report)"
  let ?d = "decide id (sample_engine []) (sample_request FsRead) False"
  have o: "pd_outcome ?d \<noteq> OutcomeAllow" "pd_outcome ?d \<noteq> OutcomeRequireApproval"
    by (simp_all add: sample_authorised)
  have "snd (execute id memory_record_decision memory_record_enforcement (ef_enforcer (read_broker []))
      (sample_request FsRead) None 1500
      (effect_closure read_ops 0 read_handle read_validated [] ?digest 1500 None) (?reg, sample_secrets, None)) =
    ((?reg, sample_secrets, None), Err (DecisionError ?d))"
    using o by (simp add: execute_def execute_decided_def persist_def memory_record_decision_def
        read_broker_def effect_broker_new_def enforcer_new_def Let_def)
  then obtain en where "execute id memory_record_decision memory_record_enforcement (ef_enforcer (read_broker []))
      (sample_request FsRead) None 1500
      (effect_closure read_ops 0 read_handle read_validated [] ?digest 1500 None) (?reg, sample_secrets, None) =
    (en, (?reg, sample_secrets, None), Err (DecisionError ?d))"
    by (metis prod.collapse)
  moreover have "ie_plan read_effect = read_plan" "ie_leases read_effect = []"
    "ef_registry (read_broker []) = for_current_platform Linux healthy_report" "ef_secrets (read_broker []) = sample_secrets"
    by (simp_all add: read_effect_def read_broker_def effect_broker_new_def)
  moreover have "backend_mut (for_current_platform Linux healthy_report) 0 = Ok (HostGuarded (guarded_new Linux))"
    by (simp add: backend_mut_def for_current_platform_def)
  ultimately show ?thesis
    by (simp add: run_read_def effect_execute_def read_plan_validates read_gate read_selected read_created
        execute_in_realm_def read_prepared list_journal_def conclude_def)
qed

theorem refusal_has_no_effect_witness:
  "ef_secrets (fst (snd (run_read []))) = sample_secrets
   \<and> all_backends (\<lambda>b. bd_production (bo_descriptor read_ops b)) (ef_registry (fst (snd (run_read []))))"
proof -
  let ?P = "\<lambda>b. bd_production (bo_descriptor read_ops b)"
  obtain d where d: "fst (run_read []) = Err (FailPolicy d)" using run_read_refused by blast
  note ops = read_ops_def std_host_ops_def host_ops_def guarded_ops_def wrapper_ops_def lift_op_def lift_wop_def
  have k: "\<forall>b. ?P b \<longrightarrow> ?P (snd (bo_health read_ops b))" "\<forall>b p. ?P b \<longrightarrow> ?P (snd (bo_create read_ops b p))"
    "\<forall>b h. ?P b \<longrightarrow> ?P (snd (bo_destroy read_ops b h))"
    by (auto simp: ops guarded_create_def wrapper_create_def guarded_destroy_def wrapper_destroy_def Let_def
        split: host_backend.splits option.splits)
  have i: "all_backends ?P (ef_registry (read_broker []))"
    by (simp add: ops all_backends_def read_broker_def effect_broker_new_def for_current_platform_def guarded_new_def
        wrapper_probe_def wrapper_descriptor_def)
  have "zero_effect (FailPolicy d)" by simp
  from refusal_has_no_effect [OF run_read_unfold [of "[]", unfolded d, folded read_ops_def] this k i]
  show ?thesis by (simp add: read_broker_def effect_broker_new_def)
qed

end
