(* ===== verification/Json.thy ===== *)
theory Json
  imports Prelude
begin

text \<open>
  JSON values (\<open>serde_json::Value\<close>) as the components build and read them. Printing and
  parsing are the library's and parameters of the model: a printer and a parser that satisfy
  \<open>json_codec\<close>, the round trip of every value whose objects have their keys in order, which
  is the form the \<open>json!\<close> literals and a parsed \<open>Value\<close> have (\<open>serde_json\<close>'s map is a
  \<open>BTreeMap\<close>). \<open>sample_json\<close> is a codec with this law, for concrete inputs.
\<close>

datatype json =
    JNull
  | JBool bool
  | JNum int
  | JStr string
  | JArr "json list"
  | JObj "(string \<times> json) list"

fun json_get :: "json \<Rightarrow> string \<Rightarrow> json option" where
  "json_get (JObj fs) k = map_of fs k"
| "json_get _ _ = None"

fun json_str :: "json \<Rightarrow> string option" where
  "json_str (JStr s) = Some s"
| "json_str _ = None"

lemma json_str_Some: "json_str v = Some s \<longleftrightarrow> v = JStr s"
  by (cases v) auto

fun json_arr :: "json \<Rightarrow> json list option" where
  "json_arr (JArr vs) = Some vs"
| "json_arr _ = None"

fun json_canonical :: "json \<Rightarrow> bool" where
  "json_canonical (JArr vs) \<longleftrightarrow> (\<forall>v \<in> set vs. json_canonical v)"
| "json_canonical (JObj fs) \<longleftrightarrow> sorted_wrt (<) (map fst fs) \<and> (\<forall>f \<in> set fs. json_canonical (snd f))"
| "json_canonical _ \<longleftrightarrow> True"

definition json_codec :: "(json \<Rightarrow> string) \<Rightarrow> (string \<Rightarrow> json option) \<Rightarrow> bool" where
  "json_codec print parse \<longleftrightarrow> (\<forall>v. json_canonical v \<longrightarrow> parse (print v) = Some v)"

lemma json_codecD: "json_codec print parse \<Longrightarrow> json_canonical v \<Longrightarrow> parse (print v) = Some v"
  by (simp add: json_codec_def)

lemma json_print_inj:
  "json_codec print parse \<Longrightarrow> json_canonical v \<Longrightarrow> json_canonical w \<Longrightarrow> print v = print w \<Longrightarrow> v = w"
  by (metis json_codecD option.inject)

section \<open>A codec\<close>

text \<open>A prefix code: every value starts with its kind, sequences end with a full stop.\<close>

fun tag_str :: "string \<Rightarrow> string" where
  "tag_str [] = ''.''"
| "tag_str (c # s) = CHR ''c'' # c # tag_str s"

fun untag_str :: "string \<Rightarrow> (string \<times> string) option" where
  "untag_str [] = None"
| "untag_str [x] = (if x = CHR ''.'' then Some ([], []) else None)"
| "untag_str (x # c # r) =
     (if x = CHR ''.'' then Some ([], c # r)
      else (case untag_str r of None \<Rightarrow> None | Some (s, r') \<Rightarrow> Some (c # s, r')))"

lemma untag_tag [simp]: "untag_str (tag_str s @ r) = Some (s, r)"
  by (induction s) (cases r, auto)

fun sample_json_print :: "json \<Rightarrow> string" where
  "sample_json_print JNull = ''n''"
| "sample_json_print (JBool b) = (if b then ''t'' else ''f'')"
| "sample_json_print (JNum i) = (if 0 \<le> i then ''p'' else ''m'') @ tag_str (replicate (nat \<bar>i\<bar>) (CHR ''1''))"
| "sample_json_print (JStr s) = CHR ''s'' # tag_str s"
| "sample_json_print (JArr vs) = CHR ''a'' # concat (map (\<lambda>v. CHR '','' # sample_json_print v) vs) @ ''.''"
| "sample_json_print (JObj fs) =
     CHR ''o'' # concat (map (\<lambda>f. CHR '','' # tag_str (fst f) @ sample_json_print (snd f)) fs) @ ''.''"

text \<open>The parsers take fuel: the length of the input is enough.\<close>

fun parse_value :: "nat \<Rightarrow> string \<Rightarrow> (json \<times> string) option"
  and parse_items :: "nat \<Rightarrow> string \<Rightarrow> (json list \<times> string) option"
  and parse_fields :: "nat \<Rightarrow> string \<Rightarrow> ((string \<times> json) list \<times> string) option" where
  "parse_value 0 s = None"
| "parse_value (Suc n) s =
     (case s of
        [] \<Rightarrow> None
      | k # r \<Rightarrow>
          if k = CHR ''n'' then Some (JNull, r)
          else if k = CHR ''t'' then Some (JBool True, r)
          else if k = CHR ''f'' then Some (JBool False, r)
          else if k = CHR ''p'' then map_option (\<lambda>(t, r'). (JNum (int (length t)), r')) (untag_str r)
          else if k = CHR ''m'' then map_option (\<lambda>(t, r'). (JNum (- int (length t)), r')) (untag_str r)
          else if k = CHR ''s'' then map_option (\<lambda>(t, r'). (JStr t, r')) (untag_str r)
          else if k = CHR ''a'' then map_option (\<lambda>(vs, r'). (JArr vs, r')) (parse_items n r)
          else if k = CHR ''o'' then map_option (\<lambda>(fs, r'). (JObj fs, r')) (parse_fields n r)
          else None)"
| "parse_items 0 s = None"
| "parse_items (Suc n) s =
     (case s of
        [] \<Rightarrow> None
      | k # r \<Rightarrow>
          if k = CHR ''.'' then Some ([], r)
          else (case parse_value n r of
                  None \<Rightarrow> None
                | Some (v, r') \<Rightarrow> map_option (\<lambda>(vs, r''). (v # vs, r'')) (parse_items n r')))"
| "parse_fields 0 s = None"
| "parse_fields (Suc n) s =
     (case s of
        [] \<Rightarrow> None
      | k # r \<Rightarrow>
          if k = CHR ''.'' then Some ([], r)
          else (case untag_str r of
                  None \<Rightarrow> None
                | Some (key, r1) \<Rightarrow>
                    (case parse_value n r1 of
                       None \<Rightarrow> None
                     | Some (v, r') \<Rightarrow> map_option (\<lambda>(fs, r''). ((key, v) # fs, r'')) (parse_fields n r'))))"

definition sample_json_parse :: "string \<Rightarrow> json option" where
  "sample_json_parse s =
     (case parse_value (length s) s of Some (v, r) \<Rightarrow> (if r = [] then Some v else None) | None \<Rightarrow> None)"

lemma parse_items_print:
  assumes "\<And>v n r. v \<in> set vs \<Longrightarrow> length (sample_json_print v) \<le> n \<Longrightarrow> parse_value n (sample_json_print v @ r) = Some (v, r)"
    and "length (concat (map (\<lambda>v. CHR '','' # sample_json_print v) vs)) < n"
  shows "parse_items n (concat (map (\<lambda>v. CHR '','' # sample_json_print v) vs) @ CHR ''.'' # r) = Some (vs, r)"
  using assms
proof (induction vs arbitrary: n)
  case Nil
  then show ?case by (cases n) simp_all
next
  case (Cons v vs)
  then obtain m where n: "n = Suc m" by (cases n) simp_all
  with Cons show ?case by (simp add: Cons.prems(1))
qed

lemma parse_fields_print:
  assumes "\<And>f n r. f \<in> set fs \<Longrightarrow> length (sample_json_print (snd f)) \<le> n \<Longrightarrow>
      parse_value n (sample_json_print (snd f) @ r) = Some (snd f, r)"
    and "length (concat (map (\<lambda>f. CHR '','' # tag_str (fst f) @ sample_json_print (snd f)) fs)) < n"
  shows "parse_fields n (concat (map (\<lambda>f. CHR '','' # tag_str (fst f) @ sample_json_print (snd f)) fs) @ CHR ''.'' # r) = Some (fs, r)"
  using assms
proof (induction fs arbitrary: n)
  case Nil
  then show ?case by (cases n) simp_all
next
  case (Cons f fs)
  then obtain m where n: "n = Suc m" by (cases n) simp_all
  with Cons show ?case by (simp add: Cons.prems(1))
qed

lemma parse_value_print:
  "length (sample_json_print v) \<le> n \<Longrightarrow> parse_value n (sample_json_print v @ r) = Some (v, r)"
proof (induction v arbitrary: n r)
  case (JNum i)
  then show ?case by (cases n; cases "0 \<le> i"; auto)
next
  case (JStr s)
  then show ?case by (cases n; auto)
next
  case (JBool b)
  then show ?case by (cases n; cases b; auto)
next
  case JNull
  then show ?case by (cases n; auto)
next
  case (JArr vs)
  then obtain m where n: "n = Suc m" by (cases n) simp_all
  with JArr parse_items_print [of vs m r] show ?case by simp
next
  case (JObj fs)
  then obtain m where n: "n = Suc m" by (cases n) simp_all
  have "parse_value k (sample_json_print (snd f) @ q) = Some (snd f, q)"
    if "f \<in> set fs" "length (sample_json_print (snd f)) \<le> k" for f k q
    using JObj.IH [OF that(1), of "snd f"] that(2) by (cases f) auto
  with JObj.prems n parse_fields_print [of fs m r] show ?case by simp
qed

lemma sample_json_codec: "json_codec sample_json_print sample_json_parse"
  using parse_value_print [of _ _ "[]"] by (simp add: json_codec_def sample_json_parse_def)

end
