(* ===== verification/EventLog.thy ===== *)
theory EventLog
  imports Json PolicyEnforcer
begin

text \<open>
  The append-only event log (\<open>crates/event-store/src/lib.rs\<close>): the rows of the \<open>events\<close>
  table, the hash chain over them, appending, and the replay of run events into the run
  projection. The hash function and the JSON library are parameters, gathered in
  \<open>store_env\<close>; the database is its tables, a violated constraint is \<open>DatabaseError\<close>. An \<open>i64\<close>
  time column holds the bits of the \<open>u64\<close> it was converted from; sequence numbers are
  unbounded here.
\<close>

section \<open>Parameters and errors\<close>

record store_env =
  env_hash :: "string \<Rightarrow> string"
  env_print :: "json \<Rightarrow> string"
  env_parse :: "string \<Rightarrow> json option"
  env_audit_json :: "decision_audit \<Rightarrow> string"

datatype store_error =
    DatabaseError | JsonError | IoError | KeyCustodyError | CipherUnavailable | WalUnavailable
  | IntegrityCheckFailed | UnsupportedSchema | WorkspaceMismatch | CryptographyError | BlobCorrupt
  | OutboxStateConflict | ProjectionMismatch | InvalidTransition | AcceptanceEvidenceRequired
  | IdempotencyConflict | HashChainBroken | InvalidPersistedState | PolicyAuditConflict

fun store_error_str :: "store_error \<Rightarrow> string" where
  "store_error_str DatabaseError = ''database_error''"
| "store_error_str JsonError = ''json_error''"
| "store_error_str IoError = ''io_error''"
| "store_error_str KeyCustodyError = ''key_custody_error''"
| "store_error_str CipherUnavailable = ''cipher_unavailable''"
| "store_error_str WalUnavailable = ''wal_unavailable''"
| "store_error_str IntegrityCheckFailed = ''integrity_check_failed''"
| "store_error_str UnsupportedSchema = ''unsupported_schema''"
| "store_error_str WorkspaceMismatch = ''workspace_mismatch''"
| "store_error_str CryptographyError = ''cryptography_error''"
| "store_error_str BlobCorrupt = ''blob_corrupt''"
| "store_error_str OutboxStateConflict = ''outbox_state_conflict''"
| "store_error_str ProjectionMismatch = ''projection_mismatch''"
| "store_error_str InvalidTransition = ''invalid_transition''"
| "store_error_str AcceptanceEvidenceRequired = ''acceptance_evidence_required''"
| "store_error_str IdempotencyConflict = ''idempotency_conflict''"
| "store_error_str HashChainBroken = ''hash_chain_broken''"
| "store_error_str InvalidPersistedState = ''invalid_persisted_state''"
| "store_error_str PolicyAuditConflict = ''policy_audit_conflict''"

section \<open>Events and their chain\<close>

record event_row =
  ev_sequence :: int
  ev_event_id :: string
  ev_workspace_id :: string
  ev_event_type :: string
  ev_occurred_at_ms :: u64
  ev_payload_json :: string
  ev_previous_hash :: string
  ev_event_hash :: string

definition zero_hash :: string where
  "zero_hash = replicate 32 (CHR 0x00)"

lemma zero_hash_Cons: "zero_hash = CHR 0x00 # replicate 31 (CHR 0x00)"
  by (simp add: zero_hash_def numeral_eq_Suc)

definition store_digest :: "(string \<Rightarrow> string) \<Rightarrow> string list \<Rightarrow> string" where
  "store_digest H parts = H (framed parts)"

definition event_parts :: "string \<Rightarrow> string \<Rightarrow> string \<Rightarrow> string \<Rightarrow> u64 \<Rightarrow> string \<Rightarrow> string list" where
  "event_parts previous event_id workspace_id event_type occurred_at_ms payload_json =
     [previous, event_id, workspace_id, event_type, be_bytes 8 (unat occurred_at_ms), payload_json]"

definition event_digest ::
  "(string \<Rightarrow> string) \<Rightarrow> string \<Rightarrow> string \<Rightarrow> string \<Rightarrow> string \<Rightarrow> u64 \<Rightarrow> string \<Rightarrow> string" where
  "event_digest H previous event_id workspace_id event_type occurred_at_ms payload_json =
     store_digest H (event_parts previous event_id workspace_id event_type occurred_at_ms payload_json)"

fun check_chain :: "(string \<Rightarrow> string) \<Rightarrow> string \<Rightarrow> event_row list \<Rightarrow> store_error + unit" where
  "check_chain H previous [] = Ok ()"
| "check_chain H previous (row # rows) =
     (if ev_previous_hash row \<noteq> previous then Err HashChainBroken
      else if ev_event_hash row \<noteq> event_digest H previous (ev_event_id row) (ev_workspace_id row) (ev_event_type row)
                (ev_occurred_at_ms row) (ev_payload_json row) then Err HashChainBroken
      else check_chain H (ev_event_hash row) rows)"

definition verify_hash_chain :: "(string \<Rightarrow> string) \<Rightarrow> event_row list \<Rightarrow> store_error + unit" where
  "verify_hash_chain H events = check_chain H zero_hash events"

text \<open>\<open>i64::try_from\<close> on a \<open>u64\<close>.\<close>

definition fits_i64 :: "u64 \<Rightarrow> bool" where
  "fits_i64 x \<longleftrightarrow> unat x < 2 ^ 63"

definition last_hash :: "event_row list \<Rightarrow> string" where
  "last_hash events = (if events = [] then zero_hash else ev_event_hash (last events))"

definition next_sequence :: "event_row list \<Rightarrow> int" where
  "next_sequence events = (if events = [] then 1 else ev_sequence (last events) + 1)"

text \<open>The insertion, with the uniqueness and length constraints of the table.\<close>

definition insert_event :: "event_row list \<Rightarrow> event_row \<Rightarrow> store_error + event_row list" where
  "insert_event events row =
     (if ev_event_id row \<in> ev_event_id ` set events \<or> ev_event_hash row \<in> ev_event_hash ` set events
         \<or> length (ev_previous_hash row) \<noteq> 32 \<or> length (ev_event_hash row) \<noteq> 32
      then Err DatabaseError else Ok (events @ [row]))"

definition append_event ::
  "store_env \<Rightarrow> event_row list \<Rightarrow> string \<Rightarrow> string \<Rightarrow> string \<Rightarrow> u64 \<Rightarrow> json
   \<Rightarrow> store_error + (event_row list \<times> int)" where
  "append_event E events event_id workspace_id event_type occurred_at_ms payload =
     (let payload_json = env_print E payload; previous = last_hash events in
      if \<not> fits_i64 occurred_at_ms then Err InvalidTransition
      else
        (let sequence = next_sequence events;
             row = \<lparr>ev_sequence = sequence, ev_event_id = event_id, ev_workspace_id = workspace_id,
                    ev_event_type = event_type, ev_occurred_at_ms = occurred_at_ms, ev_payload_json = payload_json,
                    ev_previous_hash = previous,
                    ev_event_hash = event_digest (env_hash E) previous event_id workspace_id event_type occurred_at_ms payload_json\<rparr>
         in case insert_event events row of
              Err e \<Rightarrow> Err e
            | Ok events' \<Rightarrow> Ok (events', sequence)))"

section \<open>Run states\<close>

datatype run_state = Queued | Running | Blocked | RunSucceeded | RunFailed | RunCancelled

fun state_name :: "run_state \<Rightarrow> string" where
  "state_name Queued = ''queued''"
| "state_name Running = ''running''"
| "state_name Blocked = ''blocked''"
| "state_name RunSucceeded = ''succeeded''"
| "state_name RunFailed = ''failed''"
| "state_name RunCancelled = ''cancelled''"

definition parse_state :: "string \<Rightarrow> store_error + run_state" where
  "parse_state value =
     (if value = ''queued'' then Ok Queued
      else if value = ''running'' then Ok Running
      else if value = ''blocked'' then Ok Blocked
      else if value = ''succeeded'' then Ok RunSucceeded
      else if value = ''failed'' then Ok RunFailed
      else if value = ''cancelled'' then Ok RunCancelled
      else Err InvalidPersistedState)"

fun valid_transition :: "run_state \<Rightarrow> run_state \<Rightarrow> bool" where
  "valid_transition Queued target \<longleftrightarrow> target \<in> {Running, RunCancelled}"
| "valid_transition Running target \<longleftrightarrow> target \<in> {Blocked, RunSucceeded, RunFailed, RunCancelled}"
| "valid_transition Blocked target \<longleftrightarrow> target \<in> {Running, RunFailed, RunCancelled}"
| "valid_transition _ _ \<longleftrightarrow> False"

section \<open>Replaying run events\<close>

record run_projection =
  rp_task_id :: string
  rp_state :: string
  rp_evidence_json :: string
  rp_updated_sequence :: int

definition required_string :: "json \<Rightarrow> string \<Rightarrow> store_error + string" where
  "required_string payload field =
     (case Option.bind (json_get payload field) json_str of
        None \<Rightarrow> Err ProjectionMismatch
      | Some s \<Rightarrow> if s = [] then Err ProjectionMismatch else Ok s)"

fun required_items :: "json list \<Rightarrow> store_error + string list" where
  "required_items [] = Ok []"
| "required_items (v # vs) =
     (case json_str v of
        None \<Rightarrow> Err ProjectionMismatch
      | Some s \<Rightarrow>
          if s = [] then Err ProjectionMismatch
          else (case required_items vs of Err e \<Rightarrow> Err e | Ok ss \<Rightarrow> Ok (s # ss)))"

definition required_string_array :: "json \<Rightarrow> string \<Rightarrow> store_error + string list" where
  "required_string_array payload field =
     (case Option.bind (json_get payload field) json_arr of
        None \<Rightarrow> Err ProjectionMismatch
      | Some vs \<Rightarrow> required_items vs)"

type_synonym runs_table = "(string, run_projection) btree"

definition evidence_json :: "store_env \<Rightarrow> string list \<Rightarrow> string" where
  "evidence_json E evidence = env_print E (JArr (map JStr evidence))"

definition replay_queued :: "json \<Rightarrow> int \<Rightarrow> runs_table \<Rightarrow> store_error + runs_table" where
  "replay_queued payload sequence runs =
     (case required_string payload ''run_id'' of Err e \<Rightarrow> Err e | Ok run_id \<Rightarrow>
      case required_string payload ''task_id'' of Err e \<Rightarrow> Err e | Ok task_id \<Rightarrow>
      case required_string payload ''state'' of Err e \<Rightarrow> Err e | Ok state \<Rightarrow>
      if state \<noteq> ''queued'' \<or> bt_get runs run_id \<noteq> None then Err ProjectionMismatch
      else Ok (bt_insert run_id \<lparr>rp_task_id = task_id, rp_state = ''queued'', rp_evidence_json = ''[]'',
                                rp_updated_sequence = sequence\<rparr> runs))"

definition replay_state_changed :: "store_env \<Rightarrow> json \<Rightarrow> int \<Rightarrow> runs_table \<Rightarrow> store_error + runs_table" where
  "replay_state_changed E payload sequence runs =
     (case required_string payload ''run_id'' of Err e \<Rightarrow> Err e | Ok run_id \<Rightarrow>
      case required_string payload ''from'' of Err e \<Rightarrow> Err e | Ok source \<Rightarrow>
      case required_string payload ''to'' of Err e \<Rightarrow> Err e | Ok target \<Rightarrow>
      case required_string_array payload ''acceptance_evidence'' of Err e \<Rightarrow> Err e | Ok evidence \<Rightarrow>
      case bt_get runs run_id of None \<Rightarrow> Err ProjectionMismatch | Some projection \<Rightarrow>
      case parse_state (rp_state projection) of Err e \<Rightarrow> Err e | Ok current \<Rightarrow>
      case parse_state target of Err e \<Rightarrow> Err e | Ok target_state \<Rightarrow>
      if rp_state projection \<noteq> source \<or> \<not> valid_transition current target_state
         \<or> target_state = RunSucceeded \<and> evidence = []
      then Err ProjectionMismatch
      else Ok (bt_insert run_id (projection\<lparr>rp_state := target, rp_evidence_json := evidence_json E evidence,
                                            rp_updated_sequence := sequence\<rparr>) runs))"

definition replay_event :: "store_env \<Rightarrow> string \<Rightarrow> event_row \<Rightarrow> runs_table \<Rightarrow> store_error + runs_table" where
  "replay_event E workspace_id row runs =
     (if ev_workspace_id row \<noteq> workspace_id then Err ProjectionMismatch
      else case env_parse E (ev_payload_json row) of
        None \<Rightarrow> Err JsonError
      | Some payload \<Rightarrow>
          if ev_event_type row = ''run.queued'' then replay_queued payload (ev_sequence row) runs
          else if ev_event_type row = ''run.state_changed'' then replay_state_changed E payload (ev_sequence row) runs
          else Ok runs)"

fun replay_rows :: "store_env \<Rightarrow> string \<Rightarrow> event_row list \<Rightarrow> runs_table \<times> int \<Rightarrow> store_error + (runs_table \<times> int)" where
  "replay_rows E workspace_id [] acc = Ok acc"
| "replay_rows E workspace_id (row # rows) (runs, last_seen) =
     (case replay_event E workspace_id row runs of
        Err e \<Rightarrow> Err e
      | Ok runs' \<Rightarrow> replay_rows E workspace_id rows (runs', ev_sequence row))"

definition replayed_runs :: "store_env \<Rightarrow> string \<Rightarrow> event_row list \<Rightarrow> store_error + (runs_table \<times> int)" where
  "replayed_runs E workspace_id events = replay_rows E workspace_id events ([], 0)"

section \<open>Appending keeps the chain\<close>

lemma append_event_Ok:
  "append_event E events event_id ws ty at payload = Ok (events', sequence) \<longleftrightarrow>
     (\<exists>row. events' = events @ [row] \<and> fits_i64 at \<and> sequence = next_sequence events
        \<and> row = \<lparr>ev_sequence = next_sequence events, ev_event_id = event_id, ev_workspace_id = ws, ev_event_type = ty,
                 ev_occurred_at_ms = at, ev_payload_json = env_print E payload, ev_previous_hash = last_hash events,
                 ev_event_hash = event_digest (env_hash E) (last_hash events) event_id ws ty at (env_print E payload)\<rparr>
        \<and> event_id \<notin> ev_event_id ` set events \<and> ev_event_hash row \<notin> ev_event_hash ` set events
        \<and> length (last_hash events) = 32 \<and> length (ev_event_hash row) = 32)"
  by (auto simp: append_event_def insert_event_def Let_def split: sum.splits if_splits)

lemma check_chain_append:
  "check_chain H previous (xs @ ys) =
     (case check_chain H previous xs of
        Err e \<Rightarrow> Err e
      | Ok _ \<Rightarrow> check_chain H (if xs = [] then previous else ev_event_hash (last xs)) ys)"
  by (induction xs arbitrary: previous) (auto split: sum.splits)

lemma verify_append:
  "verify_hash_chain H events = Ok () \<Longrightarrow>
   verify_hash_chain H (events @ [row]) = Ok () \<longleftrightarrow>
     ev_previous_hash row = last_hash events
     \<and> ev_event_hash row = event_digest H (last_hash events) (ev_event_id row) (ev_workspace_id row)
         (ev_event_type row) (ev_occurred_at_ms row) (ev_payload_json row)"
  by (auto simp: verify_hash_chain_def check_chain_append last_hash_def)

lemma append_keeps_chain:
  "append_event E events event_id ws ty at payload = Ok (events', sequence) \<Longrightarrow>
   verify_hash_chain (env_hash E) events = Ok () \<Longrightarrow> verify_hash_chain (env_hash E) events' = Ok ()"
  by (auto simp: append_event_Ok verify_append)

text \<open>A chain that verifies may be cut at any row and still verifies: it fixes no length.\<close>

lemma verify_prefix: "verify_hash_chain H (xs @ ys) = Ok () \<Longrightarrow> verify_hash_chain H xs = Ok ()"
  by (auto simp: verify_hash_chain_def check_chain_append split: sum.splits)

section \<open>Tamper evidence\<close>

definition chained_fields :: "event_row \<Rightarrow> string list" where
  "chained_fields row =
     event_parts (ev_previous_hash row) (ev_event_id row) (ev_workspace_id row) (ev_event_type row)
       (ev_occurred_at_ms row) (ev_payload_json row)"

lemma verify_snoc:
  "verify_hash_chain H (xs @ [row]) = Ok () \<longleftrightarrow>
     verify_hash_chain H xs = Ok () \<and> ev_previous_hash row = last_hash xs \<and> ev_event_hash row = H (framed (chained_fields row))"
  by (cases "verify_hash_chain H xs")
    (auto simp: verify_append chained_fields_def event_digest_def store_digest_def dest: verify_prefix)

definition chain_comparable :: "(string \<Rightarrow> string) \<Rightarrow> event_row list \<Rightarrow> event_row list \<Rightarrow> bool" where
  "chain_comparable H xs ys \<longleftrightarrow>
     (\<forall>x \<in> set xs. \<forall>y \<in> set ys. no_collision H (framed (chained_fields x)) (framed (chained_fields y)))
     \<and> (\<forall>x \<in> set xs \<union> set ys. frameable (chained_fields x) \<and> H (framed (chained_fields x)) \<noteq> zero_hash)"

lemma same_tail_same_log:
  assumes "verify_hash_chain H xs = Ok ()" "verify_hash_chain H ys = Ok ()"
    and "last_hash xs = last_hash ys" "chain_comparable H xs ys"
  shows "map chained_fields xs = map chained_fields ys"
  using assms
proof (induction xs arbitrary: ys rule: rev_induct)
  case Nil
  then show ?case
    by (cases ys rule: rev_cases) (auto simp: last_hash_def chain_comparable_def verify_snoc)
next
  case (snoc x xs)
  show ?case
  proof (cases ys rule: rev_cases)
    case Nil
    with snoc.prems show ?thesis by (auto simp: last_hash_def chain_comparable_def verify_snoc)
  next
    case (snoc zs z)
    have x: "ev_event_hash x = H (framed (chained_fields x))" "ev_previous_hash x = last_hash xs" "verify_hash_chain H xs = Ok ()"
      using snoc.prems(1) by (simp_all add: verify_snoc)
    have z: "ev_event_hash z = H (framed (chained_fields z))" "ev_previous_hash z = last_hash zs" "verify_hash_chain H zs = Ok ()"
      using snoc.prems(2) by (simp_all add: verify_snoc snoc)
    have "framed (chained_fields x) = framed (chained_fields z)"
      using snoc.prems(3,4) x z by (simp add: snoc last_hash_def chain_comparable_def no_collision_def)
    then have eq: "chained_fields x = chained_fields z"
      using snoc.prems(4) by (auto simp: chain_comparable_def snoc intro: framed_inj)
    then have "last_hash xs = last_hash zs" using x z by (simp add: chained_fields_def event_parts_def)
    moreover have "chain_comparable H xs zs" using snoc.prems(4) by (simp add: chain_comparable_def snoc)
    ultimately show ?thesis using snoc.IH [OF x(3) z(3)] eq by (simp add: snoc)
  qed
qed

text \<open>
  C22: the chain is tamper evident. Two logs that both verify and end in the same hash have the
  same rows, field for field: identifiers, workspace, type, time and payload. No row can be
  changed, removed, inserted or reordered under an unchanged tail, unless SHA-256 collides on two
  of their rows or hashes one to the genesis value.
\<close>

theorem tamper_evident:
  assumes "verify_hash_chain H xs = Ok ()" "verify_hash_chain H ys = Ok ()"
    and "last_hash xs = last_hash ys" "chain_comparable H xs ys"
  shows "length xs = length ys
    \<and> (\<forall>i < length xs. ev_event_id (xs ! i) = ev_event_id (ys ! i) \<and> ev_workspace_id (xs ! i) = ev_workspace_id (ys ! i)
        \<and> ev_event_type (xs ! i) = ev_event_type (ys ! i) \<and> ev_occurred_at_ms (xs ! i) = ev_occurred_at_ms (ys ! i)
        \<and> ev_payload_json (xs ! i) = ev_payload_json (ys ! i))"
proof -
  from same_tail_same_log [OF assms] have eq: "map chained_fields xs = map chained_fields ys" .
  then have len: "length xs = length ys" by (metis length_map)
  have "unat a < 2 ^ LENGTH(64)" for a :: u64 by (rule unsigned_less)
  then have time: "be_bytes 8 (unat (a :: u64)) = be_bytes 8 (unat b) \<Longrightarrow> a = b" for a b
    using be_bytes_inj [of 8 "unat a" "unat b"] by (simp add: word_unat_eq_iff)
  have "chained_fields (xs ! i) = chained_fields (ys ! i)" if "i < length xs" for i
    using eq that len by (metis nth_map)
  with len time show ?thesis by (auto simp: chained_fields_def event_parts_def)
qed

section \<open>Run states and replay\<close>

lemma parse_state_Ok: "parse_state v = Ok s \<longleftrightarrow> v = state_name s"
  by (cases s) (auto simp: parse_state_def)

lemma parse_state_name [simp]: "parse_state (state_name s) = Ok s"
  by (simp add: parse_state_Ok)

lemma state_name_nonempty [simp]: "state_name s \<noteq> []"
  by (cases s) simp_all

lemma state_name_inj: "state_name s = state_name t \<longleftrightarrow> s = t"
  by (metis parse_state_name sum.inject(2))

lemma replay_rows_append:
  "replay_rows E ws (xs @ ys) acc = (case replay_rows E ws xs acc of Err e \<Rightarrow> Err e | Ok acc' \<Rightarrow> replay_rows E ws ys acc')"
proof (induction xs arbitrary: acc)
  case (Cons x xs)
  then show ?case by (cases acc) (auto split: sum.splits)
qed simp

lemma replayed_runs_snoc:
  "replayed_runs E ws (xs @ [row]) =
     (case replayed_runs E ws xs of
        Err e \<Rightarrow> Err e
      | Ok (runs, _) \<Rightarrow> (case replay_event E ws row runs of Err e \<Rightarrow> Err e | Ok runs' \<Rightarrow> Ok (runs', ev_sequence row)))"
  by (auto simp: replayed_runs_def replay_rows_append split: sum.splits prod.splits)

lemma required_string_Ok: "required_string payload field = Ok s \<longleftrightarrow> json_get payload field = Some (JStr s) \<and> s \<noteq> []"
  by (auto simp: required_string_def bind_eq_Some_conv json_str_Some split: option.splits if_splits)

lemma required_items_strings: "[] \<notin> set ss \<Longrightarrow> required_items (map JStr ss) = Ok ss"
  by (induction ss) auto

text \<open>A run as its events tell it: every step legal, success only with evidence.\<close>

lemma replay_event_runs:
  "replay_event E ws row runs = Ok runs' \<Longrightarrow> bt_inv runs \<Longrightarrow> bt_inv runs'"
  by (auto simp: replay_event_def replay_queued_def replay_state_changed_def result_bind_Ok bt_inv_insert
      split: option.splits if_splits)

lemma replayed_runs_inv: "replayed_runs E ws xs = Ok (runs, n) \<Longrightarrow> bt_inv runs"
proof (induction xs arbitrary: runs n rule: rev_induct)
  case Nil
  then show ?case by (simp add: replayed_runs_def)
next
  case (snoc x xs)
  then show ?case by (auto simp: replayed_runs_snoc dest: replay_event_runs split: sum.splits prod.splits)
qed

section \<open>A sample log\<close>

text \<open>A hash for concrete logs: the last eight bytes of the frame, padded to 32.\<close>

definition sample_hash :: "string \<Rightarrow> string" where
  "sample_hash s = take 8 (rev s @ ''########'') @ replicate 24 (CHR ''#'')"

definition sample_env :: store_env where
  "sample_env = \<lparr>env_hash = sample_hash, env_print = sample_json_print, env_parse = sample_json_parse,
     env_audit_json = (\<lambda>a. da_decision_id a)\<rparr>"

definition sample_row :: "int \<Rightarrow> event_row" where
  "sample_row n = \<lparr>ev_sequence = n, ev_event_id = ''e1'', ev_workspace_id = ''ws'', ev_event_type = ''run.queued'',
     ev_occurred_at_ms = 7, ev_payload_json = ''{}'', ev_previous_hash = zero_hash,
     ev_event_hash = event_digest sample_hash zero_hash ''e1'' ''ws'' ''run.queued'' 7 ''{}''\<rparr>"

theorem tamper_evident_witness:
  "ev_payload_json (sample_row 1) = ev_payload_json (sample_row 2)"
proof -
  have v: "verify_hash_chain sample_hash [sample_row n] = Ok ()" for n
    by (simp add: verify_hash_chain_def sample_row_def)
  have f: "frameable (chained_fields (sample_row n))" for n
    by (simp add: frameable_def chained_fields_def event_parts_def sample_row_def zero_hash_def)
  have z: "sample_hash (framed (chained_fields (sample_row n))) \<noteq> zero_hash" for n
    by (simp add: chained_fields_def event_parts_def sample_row_def sample_hash_def) (simp add: zero_hash_Cons)
  have same: "chained_fields (sample_row 1) = chained_fields (sample_row 2)"
    by (simp add: chained_fields_def sample_row_def)
  have c: "chain_comparable sample_hash [sample_row 1] [sample_row 2]"
    using f z same by (auto simp: chain_comparable_def no_collision_def)
  have "last_hash [sample_row 1] = last_hash [sample_row 2]" by (simp add: last_hash_def sample_row_def)
  from tamper_evident [OF v v this c] show ?thesis by simp
qed

end
