(* ===== verification/EventStore.thy ===== *)
theory EventStore
  imports EventLog
begin

text \<open>
  The store over the log (\<open>crates/event-store/src/lib.rs\<close>): its tables, every mutation as one
  transaction (event, projection row and idempotency key together, or nothing), the queries,
  verification, rebuilding and recovery, and the policy audit sink. A table with a text primary
  key is an ordered map, the outbox keeps its row order; a constraint the schema declares is
  checked where a statement could violate it. Opening, migrating and keying the database is the
  engine's work and not modelled; the result of its page check is an argument of \<open>recover\<close>.
\<close>

section \<open>Tables\<close>

datatype outbox_state = ObPending | ObCompleted | ObAbandoned

record outbox_row =
  ob_intent_id :: string
  ob_event_id :: string
  ob_effect_kind :: string
  ob_payload_json :: string
  ob_state :: outbox_state
  ob_result_event_id :: "string option"
  ob_result_json :: "string option"
  ob_attempt_count :: nat

record artifact_row =
  ar_run_id :: string
  ar_media_type :: string
  ar_content_hash :: string
  ar_created_sequence :: int
  ar_classification :: string

record blob_row =
  bl_encrypted_path :: string
  bl_byte_length :: u64
  bl_created_sequence :: int
  bl_media_type :: string
  bl_classification :: string
  bl_key_epoch :: nat
  bl_ciphertext_hash :: string

record decision_row =
  dr_workspace_id :: string
  dr_action :: string
  dr_outcome :: string
  dr_reason :: string
  dr_request_digest :: string
  dr_policy_snapshot_id :: string
  dr_audit_json :: string
  dr_occurred_at_ms :: u64
  dr_enforcement_result :: "enforcement_result option"
  dr_enforced_at_ms :: "u64 option"

record event_store =
  es_workspace_id :: string
  es_events :: "event_row list"
  es_runs :: runs_table
  es_checkpoint :: "int option"
  es_outbox :: "outbox_row list"
  es_idempotency :: "(string, string \<times> string) btree"
  es_artifacts :: "(string, artifact_row) btree"
  es_blobs :: "(string, blob_row) btree"
  es_decisions :: "(string, decision_row) btree"

definition fresh_store :: "string \<Rightarrow> event_store" where
  "fresh_store workspace_id = \<lparr>es_workspace_id = workspace_id, es_events = [], es_runs = [], es_checkpoint = None,
     es_outbox = [], es_idempotency = [], es_artifacts = [], es_blobs = [], es_decisions = []\<rparr>"

datatype commit_outcome = Committed string | Replayed string

section \<open>Commands\<close>

record run_transition =
  rt_event_id :: string
  rt_workspace_id :: string
  rt_run_id :: string
  rt_target :: run_state
  rt_acceptance_evidence :: "string list"
  rt_occurred_at_ms :: u64
  rt_idempotency_key :: string

record artifact_commit =
  ac_event_id :: string
  ac_workspace_id :: string
  ac_artifact_id :: string
  ac_run_id :: string
  ac_media_type :: string
  ac_classification :: string
  ac_occurred_at_ms :: u64
  ac_idempotency_key :: string

record blob_metadata =
  bm_content_hash :: string
  bm_ciphertext_hash :: string
  bm_relative_path :: string
  bm_byte_length :: u64

record effect_intent =
  ei_event_id :: string
  ei_workspace_id :: string
  ei_intent_id :: string
  ei_effect_kind :: string
  ei_payload :: json
  ei_occurred_at_ms :: u64
  ei_idempotency_key :: string

datatype effect_disposition = DispCompleted | DispAbandoned

record effect_result =
  eb_event_id :: string
  eb_workspace_id :: string
  eb_intent_id :: string
  eb_result :: json
  eb_disposition :: effect_disposition
  eb_occurred_at_ms :: u64
  eb_idempotency_key :: string

record pending_effect =
  pe_intent_id :: string
  pe_effect_kind :: string
  pe_payload :: json
  pe_attempt_count :: nat

record recovery_report =
  rr_projection_repaired :: bool
  rr_pending_effects :: "pending_effect list"

section \<open>Transactions\<close>

text \<open>A transaction that is not committed leaves every table as it was.\<close>

definition in_transaction ::
  "event_store \<Rightarrow> store_error + ('a \<times> event_store) \<Rightarrow> (store_error + 'a) \<times> event_store" where
  "in_transaction s outcome = (case outcome of Err e \<Rightarrow> (Err e, s) | Ok (a, s') \<Rightarrow> (Ok a, s'))"

definition replay_lookup :: "event_store \<Rightarrow> string \<Rightarrow> string \<Rightarrow> store_error + commit_outcome option" where
  "replay_lookup s key request_hash =
     (case bt_get (es_idempotency s) key of
        Some (hash, event_id) \<Rightarrow> if hash = request_hash then Ok (Some (Replayed event_id)) else Err IdempotencyConflict
      | None \<Rightarrow> Ok None)"

definition record_idempotency :: "event_store \<Rightarrow> string \<Rightarrow> string \<Rightarrow> string \<Rightarrow> store_error + event_store" where
  "record_idempotency s key request_hash event_id =
     (if bt_get (es_idempotency s) key \<noteq> None \<or> length request_hash \<noteq> 32 \<or> event_id \<notin> ev_event_id ` set (es_events s)
      then Err DatabaseError
      else Ok (s\<lparr>es_idempotency := bt_insert key (request_hash, event_id) (es_idempotency s)\<rparr>))"

text \<open>What every idempotent mutation has in common: look the key up, run the body, record the key.\<close>

definition idempotent_tx ::
  "event_store \<Rightarrow> string \<Rightarrow> string \<Rightarrow> string \<Rightarrow> (event_store \<Rightarrow> store_error + event_store)
   \<Rightarrow> (store_error + commit_outcome) \<times> event_store" where
  "idempotent_tx s key request_hash event_id body =
     in_transaction s
       (case replay_lookup s key request_hash of
          Err e \<Rightarrow> Err e
        | Ok (Some outcome) \<Rightarrow> Ok (outcome, s)
        | Ok None \<Rightarrow>
            (case body s of
               Err e \<Rightarrow> Err e
             | Ok s1 \<Rightarrow>
                 (case record_idempotency s1 key request_hash event_id of
                    Err e \<Rightarrow> Err e
                  | Ok s2 \<Rightarrow> Ok (Committed event_id, s2))))"

definition append_to ::
  "store_env \<Rightarrow> event_store \<Rightarrow> string \<Rightarrow> string \<Rightarrow> string \<Rightarrow> u64 \<Rightarrow> json \<Rightarrow> store_error + (event_store \<times> int)" where
  "append_to E s event_id workspace_id event_type occurred_at_ms payload =
     (case append_event E (es_events s) event_id workspace_id event_type occurred_at_ms payload of
        Err e \<Rightarrow> Err e
      | Ok (events, sequence) \<Rightarrow> Ok (s\<lparr>es_events := events\<rparr>, sequence))"

definition update_run_checkpoint :: "event_store \<Rightarrow> int \<Rightarrow> event_store" where
  "update_run_checkpoint s sequence = s\<lparr>es_checkpoint := Some sequence\<rparr>"

section \<open>Run mutations\<close>

definition create_run_body ::
  "store_env \<Rightarrow> string \<Rightarrow> string \<Rightarrow> string \<Rightarrow> string \<Rightarrow> u64 \<Rightarrow> event_store \<Rightarrow> store_error + event_store" where
  "create_run_body E event_id workspace_id run_id task_id occurred_at_ms s =
     (case append_to E s event_id workspace_id ''run.queued'' occurred_at_ms
             (JObj [(''run_id'', JStr run_id), (''state'', JStr ''queued''), (''task_id'', JStr task_id)]) of
        Err e \<Rightarrow> Err e
      | Ok (s1, sequence) \<Rightarrow>
          if bt_get (es_runs s1) run_id \<noteq> None then Err DatabaseError
          else Ok (update_run_checkpoint
                 (s1\<lparr>es_runs := bt_insert run_id \<lparr>rp_task_id = task_id, rp_state = ''queued'', rp_evidence_json = ''[]'',
                                  rp_updated_sequence = sequence\<rparr> (es_runs s1)\<rparr>) sequence))"

definition create_run ::
  "store_env \<Rightarrow> event_store \<Rightarrow> string \<Rightarrow> string \<Rightarrow> string \<Rightarrow> string \<Rightarrow> u64 \<Rightarrow> string
   \<Rightarrow> (store_error + commit_outcome) \<times> event_store" where
  "create_run E s event_id workspace_id run_id task_id occurred_at_ms idempotency_key =
     (if workspace_id \<noteq> es_workspace_id s then (Err WorkspaceMismatch, s)
      else idempotent_tx s idempotency_key (store_digest (env_hash E) [''create'', run_id, task_id]) event_id
             (create_run_body E event_id workspace_id run_id task_id occurred_at_ms))"

definition transition_body :: "store_env \<Rightarrow> run_transition \<Rightarrow> event_store \<Rightarrow> store_error + event_store" where
  "transition_body E c s =
     (case bt_get (es_runs s) (rt_run_id c) of None \<Rightarrow> Err DatabaseError | Some projection \<Rightarrow>
      case parse_state (rp_state projection) of Err e \<Rightarrow> Err e | Ok current \<Rightarrow>
      if \<not> valid_transition current (rt_target c) then Err InvalidTransition
      else if rt_target c = RunSucceeded \<and> rt_acceptance_evidence c = [] then Err AcceptanceEvidenceRequired
      else case append_to E s (rt_event_id c) (rt_workspace_id c) ''run.state_changed'' (rt_occurred_at_ms c)
             (JObj [(''acceptance_evidence'', JArr (map JStr (rt_acceptance_evidence c))),
                    (''from'', JStr (rp_state projection)), (''run_id'', JStr (rt_run_id c)),
                    (''to'', JStr (state_name (rt_target c)))]) of
        Err e \<Rightarrow> Err e
      | Ok (s1, sequence) \<Rightarrow>
          Ok (update_run_checkpoint
            (s1\<lparr>es_runs := bt_insert (rt_run_id c)
                 (projection\<lparr>rp_state := state_name (rt_target c),
                             rp_evidence_json := evidence_json E (rt_acceptance_evidence c),
                             rp_updated_sequence := sequence\<rparr>) (es_runs s1)\<rparr>) sequence))"

definition transition_run :: "store_env \<Rightarrow> event_store \<Rightarrow> run_transition \<Rightarrow> (store_error + commit_outcome) \<times> event_store" where
  "transition_run E s c =
     (if rt_workspace_id c \<noteq> es_workspace_id s then (Err WorkspaceMismatch, s)
      else idempotent_tx s (rt_idempotency_key c)
             (store_digest (env_hash E) [''transition'', rt_run_id c, state_name (rt_target c),
                evidence_json E (rt_acceptance_evidence c)])
             (rt_event_id c) (transition_body E c))"

section \<open>Artifacts\<close>

definition insert_artifact_fact ::
  "store_env \<Rightarrow> artifact_commit \<Rightarrow> blob_metadata \<Rightarrow> event_store \<Rightarrow> store_error + event_store" where
  "insert_artifact_fact E c blob s =
     (case append_to E s (ac_event_id c) (ac_workspace_id c) ''artifact.committed'' (ac_occurred_at_ms c)
             (JObj [(''artifact_id'', JStr (ac_artifact_id c)), (''byte_length'', JNum (uint (bm_byte_length blob))),
                    (''classification'', JStr (ac_classification c)), (''content_hash'', JStr (bm_content_hash blob)),
                    (''media_type'', JStr (ac_media_type c)), (''run_id'', JStr (ac_run_id c))]) of
        Err e \<Rightarrow> Err e
      | Ok (s1, sequence) \<Rightarrow>
          if \<not> fits_i64 (bm_byte_length blob) then Err BlobCorrupt
          else
            (let row = \<lparr>bl_encrypted_path = bm_relative_path blob, bl_byte_length = bm_byte_length blob,
                        bl_created_sequence = sequence, bl_media_type = ac_media_type c,
                        bl_classification = ac_classification c, bl_key_epoch = 1,
                        bl_ciphertext_hash = bm_ciphertext_hash blob\<rparr>;
                 persisted = (case bt_get (es_blobs s1) (bm_content_hash blob) of None \<Rightarrow> row | Some r \<Rightarrow> r);
                 s2 = s1\<lparr>es_blobs := bt_insert (bm_content_hash blob) persisted (es_blobs s1)\<rparr>
             in if (bl_encrypted_path persisted, bl_byte_length persisted, bl_media_type persisted,
                    bl_classification persisted, bl_ciphertext_hash persisted)
                   \<noteq> (bm_relative_path blob, bm_byte_length blob, ac_media_type c, ac_classification c, bm_ciphertext_hash blob)
                then Err BlobCorrupt
                else if bt_get (es_artifacts s2) (ac_artifact_id c) \<noteq> None \<or> bt_get (es_runs s2) (ac_run_id c) = None
                then Err DatabaseError
                else Ok (s2\<lparr>es_artifacts := bt_insert (ac_artifact_id c)
                       \<lparr>ar_run_id = ac_run_id c, ar_media_type = ac_media_type c, ar_content_hash = bm_content_hash blob,
                        ar_created_sequence = sequence, ar_classification = ac_classification c\<rparr> (es_artifacts s2)\<rparr>)))"

text \<open>\<open>commit_artifact\<close> with the blob already written: the guards and the transaction.\<close>

definition commit_artifact_fact ::
  "store_env \<Rightarrow> event_store \<Rightarrow> artifact_commit \<Rightarrow> blob_metadata \<Rightarrow> (store_error + commit_outcome) \<times> event_store" where
  "commit_artifact_fact E s c blob =
     (if ac_workspace_id c \<noteq> es_workspace_id s then (Err WorkspaceMismatch, s)
      else if ac_media_type c = [] \<or> ac_classification c = [] then (Err BlobCorrupt, s)
      else idempotent_tx s (ac_idempotency_key c)
       (store_digest (env_hash E) [''artifact'', ac_artifact_id c, ac_run_id c, ac_media_type c, ac_classification c,
          bm_content_hash blob])
       (ac_event_id c) (insert_artifact_fact E c blob))"

section \<open>Effects\<close>

definition effect_intent_body :: "store_env \<Rightarrow> effect_intent \<Rightarrow> event_store \<Rightarrow> store_error + event_store" where
  "effect_intent_body E c s =
     (case append_to E s (ei_event_id c) (ei_workspace_id c) ''tool.intent_recorded'' (ei_occurred_at_ms c)
             (JObj [(''effect_kind'', JStr (ei_effect_kind c)), (''intent_id'', JStr (ei_intent_id c)),
                    (''payload'', ei_payload c)]) of
        Err e \<Rightarrow> Err e
      | Ok (s1, sequence) \<Rightarrow>
          if ei_intent_id c \<in> ob_intent_id ` set (es_outbox s1) then Err DatabaseError
          else Ok (s1\<lparr>es_outbox := es_outbox s1 @
                 [\<lparr>ob_intent_id = ei_intent_id c, ob_event_id = ei_event_id c, ob_effect_kind = ei_effect_kind c,
                   ob_payload_json = env_print E (ei_payload c), ob_state = ObPending, ob_result_event_id = None,
                   ob_result_json = None, ob_attempt_count = 0\<rparr>]\<rparr>))"

definition record_effect_intent :: "store_env \<Rightarrow> event_store \<Rightarrow> effect_intent \<Rightarrow> (store_error + commit_outcome) \<times> event_store" where
  "record_effect_intent E s c =
     (if ei_workspace_id c \<noteq> es_workspace_id s then (Err WorkspaceMismatch, s)
      else idempotent_tx s (ei_idempotency_key c)
             (store_digest (env_hash E) [''effect-intent'', ei_intent_id c, ei_effect_kind c, env_print E (ei_payload c)])
             (ei_event_id c) (effect_intent_body E c))"

fun disposition_state :: "effect_disposition \<Rightarrow> outbox_state" where
  "disposition_state DispCompleted = ObCompleted"
| "disposition_state DispAbandoned = ObAbandoned"

fun disposition_name :: "effect_disposition \<Rightarrow> string" where
  "disposition_name DispCompleted = ''completed''"
| "disposition_name DispAbandoned = ''abandoned''"

definition resolves :: "string \<Rightarrow> outbox_row \<Rightarrow> bool" where
  "resolves intent_id row \<longleftrightarrow> ob_intent_id row = intent_id \<and> ob_state row = ObPending"

definition effect_result_body :: "store_env \<Rightarrow> effect_result \<Rightarrow> event_store \<Rightarrow> store_error + event_store" where
  "effect_result_body E c s =
     (case append_to E s (eb_event_id c) (eb_workspace_id c) ''tool.result_recorded'' (eb_occurred_at_ms c)
             (JObj [(''disposition'', JStr (disposition_name (eb_disposition c))), (''intent_id'', JStr (eb_intent_id c)),
                    (''result'', eb_result c)]) of
        Err e \<Rightarrow> Err e
      | Ok (s1, sequence) \<Rightarrow>
          if length (filter (resolves (eb_intent_id c)) (es_outbox s1)) \<noteq> 1 then Err OutboxStateConflict
          else Ok (s1\<lparr>es_outbox := map (\<lambda>row. if resolves (eb_intent_id c) row
                 then row\<lparr>ob_state := disposition_state (eb_disposition c), ob_result_event_id := Some (eb_event_id c),
                          ob_result_json := Some (env_print E (eb_result c))\<rparr> else row) (es_outbox s1)\<rparr>))"

definition record_effect_result :: "store_env \<Rightarrow> event_store \<Rightarrow> effect_result \<Rightarrow> (store_error + commit_outcome) \<times> event_store" where
  "record_effect_result E s c =
     (if eb_workspace_id c \<noteq> es_workspace_id s then (Err WorkspaceMismatch, s)
      else idempotent_tx s (eb_idempotency_key c)
             (store_digest (env_hash E) [''effect-result'', eb_intent_id c, disposition_name (eb_disposition c),
                env_print E (eb_result c)])
             (eb_event_id c) (effect_result_body E c))"

fun parse_pending :: "store_env \<Rightarrow> outbox_row list \<Rightarrow> store_error + pending_effect list" where
  "parse_pending E [] = Ok []"
| "parse_pending E (row # rows) =
     (case env_parse E (ob_payload_json row) of
        None \<Rightarrow> Err JsonError
      | Some payload \<Rightarrow>
          (case parse_pending E rows of
             Err e \<Rightarrow> Err e
           | Ok effects \<Rightarrow> Ok (\<lparr>pe_intent_id = ob_intent_id row, pe_effect_kind = ob_effect_kind row,
                              pe_payload = payload, pe_attempt_count = ob_attempt_count row\<rparr> # effects)))"

definition pending_effects :: "store_env \<Rightarrow> event_store \<Rightarrow> store_error + pending_effect list" where
  "pending_effects E s = parse_pending E (filter (\<lambda>row. ob_state row = ObPending) (es_outbox s))"

section \<open>Core events and handshakes\<close>

definition append_core_event ::
  "store_env \<Rightarrow> event_store \<Rightarrow> string \<Rightarrow> string \<Rightarrow> string \<Rightarrow> u64 \<Rightarrow> json \<Rightarrow> string
   \<Rightarrow> (store_error + commit_outcome) \<times> event_store" where
  "append_core_event E s event_id workspace_id event_type occurred_at_ms payload idempotency_key =
     (if workspace_id \<noteq> es_workspace_id s then (Err WorkspaceMismatch, s)
      else idempotent_tx s idempotency_key
             (store_digest (env_hash E) [''core-event'', event_type, env_print E payload]) event_id
             (\<lambda>s. case append_to E s event_id workspace_id event_type occurred_at_ms payload of
                     Err e \<Rightarrow> Err e | Ok (s1, _) \<Rightarrow> Ok s1))"

definition record_handshake_failure ::
  "store_env \<Rightarrow> event_store \<Rightarrow> string \<Rightarrow> string \<Rightarrow> string \<Rightarrow> u64 \<Rightarrow> (store_error + unit) \<times> event_store" where
  "record_handshake_failure E s workspace_id reason actor_id now_unix_ms =
     (if workspace_id \<noteq> es_workspace_id s then (Err WorkspaceMismatch, s)
      else
        (let suffix = hex_lower (store_digest (env_hash E)
               [''handshake-rejected'', workspace_id, reason, actor_id, le_bytes 8 (unat now_unix_ms)])
         in in_transaction s
              (case append_to E s (''handshake_rejected_'' @ suffix @ ''_'' @ reason) workspace_id
                      ''supervision.handshake_rejected'' now_unix_ms
                      (JObj [(''actor_id'', JStr actor_id), (''reason'', JStr reason), (''transport'', JStr ''supervision'')]) of
                 Err e \<Rightarrow> Err e
               | Ok (s1, _) \<Rightarrow> Ok ((), s1))))"

section \<open>Queries, verification and recovery\<close>

definition run_state :: "event_store \<Rightarrow> string \<Rightarrow> store_error + run_state option" where
  "run_state s run_id =
     (case bt_get (es_runs s) run_id of
        None \<Rightarrow> Ok None
      | Some projection \<Rightarrow> (case parse_state (rp_state projection) of Err e \<Rightarrow> Err e | Ok st \<Rightarrow> Ok (Some st)))"

definition verify_run_projection :: "store_env \<Rightarrow> event_store \<Rightarrow> store_error + unit" where
  "verify_run_projection E s =
     (case replayed_runs E (es_workspace_id s) (es_events s) of
        Err e \<Rightarrow> Err e
      | Ok (expected, _) \<Rightarrow> if expected = es_runs s then Ok () else Err ProjectionMismatch)"

text \<open>Deleting a run that an artifact references violates the foreign key.\<close>

definition rebuild_run_projection :: "store_env \<Rightarrow> event_store \<Rightarrow> (store_error + unit) \<times> event_store" where
  "rebuild_run_projection E s =
     (case verify_hash_chain (env_hash E) (es_events s) of Err e \<Rightarrow> (Err e, s) | Ok _ \<Rightarrow>
      case replayed_runs E (es_workspace_id s) (es_events s) of
        Err e \<Rightarrow> (Err e, s)
      | Ok (expected, last_seen) \<Rightarrow>
          in_transaction s
            (if \<exists>a \<in> set (es_artifacts s). ar_run_id (snd a) \<notin> fst ` set expected \<and> ar_run_id (snd a) \<in> fst ` set (es_runs s)
             then Err DatabaseError
             else
               (let kept = filter (\<lambda>r. fst r \<in> fst ` set expected) (es_runs s);
                    runs = foldl (\<lambda>m r. bt_insert (fst r) (snd r) m) kept expected
                in Ok ((), update_run_checkpoint (s\<lparr>es_runs := runs\<rparr>) last_seen))))"

definition recover :: "store_env \<Rightarrow> bool \<Rightarrow> event_store \<Rightarrow> (store_error + recovery_report) \<times> event_store" where
  "recover E intact s =
     (if \<not> intact then (Err IntegrityCheckFailed, s)
      else case verify_hash_chain (env_hash E) (es_events s) of Err e \<Rightarrow> (Err e, s) | Ok _ \<Rightarrow>
        (let finish = (\<lambda>repaired s1.
               (case pending_effects E s1 of
                  Err e \<Rightarrow> (Err e, s1)
                | Ok effects \<Rightarrow> (Ok \<lparr>rr_projection_repaired = repaired, rr_pending_effects = effects\<rparr>, s1)))
         in case verify_run_projection E s of
              Ok _ \<Rightarrow> finish False s
            | Err e \<Rightarrow>
                if e \<noteq> ProjectionMismatch then (Err e, s)
                else (case rebuild_run_projection E s of
                        (Err e', s1) \<Rightarrow> (Err e', s1)
                      | (Ok _, s1) \<Rightarrow>
                          (case verify_run_projection E s1 of Err e' \<Rightarrow> (Err e', s1) | Ok _ \<Rightarrow> finish True s1))))"

record replayed_event =
  rv_sequence :: int
  rv_event_id :: string
  rv_event_type :: string
  rv_occurred_at_ms :: u64
  rv_payload_json :: string

definition replay_events :: "event_store \<Rightarrow> int \<Rightarrow> int \<Rightarrow> replayed_event list \<times> int" where
  "replay_events s after_sequence limit =
     (let capped = max 1 (min limit 500);
          rows = take (nat capped) (filter (\<lambda>row. after_sequence < ev_sequence row) (es_events s))
      in (map (\<lambda>row. \<lparr>rv_sequence = ev_sequence row, rv_event_id = ev_event_id row, rv_event_type = ev_event_type row,
                      rv_occurred_at_ms = ev_occurred_at_ms row, rv_payload_json = ev_payload_json row\<rparr>) rows,
          if rows = [] then after_sequence else ev_sequence (last rows)))"

definition event_count :: "event_store \<Rightarrow> nat" where
  "event_count s = length (es_events s)"

definition run_count :: "event_store \<Rightarrow> nat" where
  "run_count s = length (es_runs s)"

section \<open>The policy audit sink\<close>

text \<open>The serialised record: a JSON object, its keys in order.\<close>

definition audit_value :: "decision_audit \<Rightarrow> json" where
  "audit_value a = JObj
     [(''action'', JStr (da_action a)), (''context_hash'', JStr (da_context_hash a)),
      (''decision_id'', JStr (da_decision_id a)), (''matched_rule_ids'', JArr (map JStr (da_matched_rule_ids a))),
      (''occurred_at_ms'', JNum (uint (da_occurred_at_ms a))), (''outcome'', JStr (outcome_as_str (da_outcome a))),
      (''policy_snapshot_id'', JStr (da_policy_snapshot_id a)), (''principal_hash'', JStr (da_principal_hash a)),
      (''reason'', JStr (reason_as_str (da_reason a))), (''request_digest'', JStr (da_request_digest a)),
      (''resource_hash'', JStr (da_resource_hash a)), (''workspace_id'', JStr (da_workspace_id a))]"

definition persist_policy_decision :: "store_env \<Rightarrow> event_store \<Rightarrow> decision_audit \<Rightarrow> (store_error + unit) \<times> event_store" where
  "persist_policy_decision E s a =
     (if da_workspace_id a \<noteq> es_workspace_id s then (Err WorkspaceMismatch, s)
      else in_transaction s
        (case bt_get (es_decisions s) (da_decision_id a) of
           Some row \<Rightarrow> if dr_audit_json row = env_audit_json E a then Ok ((), s) else Err PolicyAuditConflict
         | None \<Rightarrow>
             (case append_to E s (da_decision_id a) (da_workspace_id a) ''policy.decision_recorded''
                     (da_occurred_at_ms a) (audit_value a) of
                Err e \<Rightarrow> Err e
              | Ok (s1, _) \<Rightarrow>
                  if \<not> fits_i64 (da_occurred_at_ms a) then Err InvalidPersistedState
                  else Ok ((), s1\<lparr>es_decisions := bt_insert (da_decision_id a)
                         \<lparr>dr_workspace_id = da_workspace_id a, dr_action = da_action a,
                          dr_outcome = outcome_as_str (da_outcome a), dr_reason = reason_as_str (da_reason a),
                          dr_request_digest = da_request_digest a, dr_policy_snapshot_id = da_policy_snapshot_id a,
                          dr_audit_json = env_audit_json E a, dr_occurred_at_ms = da_occurred_at_ms a,
                          dr_enforcement_result = None, dr_enforced_at_ms = None\<rparr> (es_decisions s1)\<rparr>))))"

definition persist_policy_enforcement ::
  "store_env \<Rightarrow> event_store \<Rightarrow> string \<Rightarrow> u64 \<Rightarrow> enforcement_result \<Rightarrow> (store_error + unit) \<times> event_store" where
  "persist_policy_enforcement E s decision_id occurred_at_ms result =
     in_transaction s
       (case bt_get (es_decisions s) decision_id of
          None \<Rightarrow> Err PolicyAuditConflict
        | Some row \<Rightarrow>
            if \<not> fits_i64 occurred_at_ms then Err InvalidPersistedState
            else if occurred_at_ms < dr_occurred_at_ms row then Err PolicyAuditConflict
            else (case dr_enforcement_result row of
              Some existing \<Rightarrow>
                if existing = result \<and> dr_enforced_at_ms row = Some occurred_at_ms then Ok ((), s) else Err PolicyAuditConflict
            | None \<Rightarrow>
                (case append_to E s
                        (sha256_label (env_hash E) [''policy.enforcement_recorded'', decision_id,
                           enforcement_result_as_str result, be_bytes 8 (unat occurred_at_ms)])
                        (dr_workspace_id row) ''policy.enforcement_recorded'' occurred_at_ms
                        (JObj [(''decision_id'', JStr decision_id), (''result'', JStr (enforcement_result_as_str result))]) of
                   Err e \<Rightarrow> Err e
                 | Ok (s1, _) \<Rightarrow>
                     Ok ((), s1\<lparr>es_decisions := bt_insert decision_id
                        (row\<lparr>dr_enforcement_result := Some result, dr_enforced_at_ms := Some occurred_at_ms\<rparr>)
                        (es_decisions s1)\<rparr>))))"

definition store_record_decision :: "store_env \<Rightarrow> (event_store, store_error) record_decision_op" where
  "store_record_decision E s a = (let (r, s') = persist_policy_decision E s a in (s', r))"

definition store_record_enforcement :: "store_env \<Rightarrow> (event_store, store_error) record_enforcement_op" where
  "store_record_enforcement E s decision_id at result =
     (let (r, s') = persist_policy_enforcement E s decision_id at result in (s', r))"

section \<open>Sequences of operations\<close>

datatype store_op =
    CreateRun string string string string u64 string
  | TransitionRun run_transition
  | CommitArtifact artifact_commit blob_metadata
  | RecordIntent effect_intent
  | RecordResult effect_result
  | AppendCore string string string u64 json string
  | HandshakeFailure string string string u64
  | PersistDecision decision_audit
  | PersistEnforcement string u64 enforcement_result
  | RebuildRuns
  | Recover bool

fun store_step :: "store_env \<Rightarrow> event_store \<Rightarrow> store_op \<Rightarrow> event_store" where
  "store_step E s (CreateRun ev ws run task at key) = snd (create_run E s ev ws run task at key)"
| "store_step E s (TransitionRun c) = snd (transition_run E s c)"
| "store_step E s (CommitArtifact c blob) = snd (commit_artifact_fact E s c blob)"
| "store_step E s (RecordIntent c) = snd (record_effect_intent E s c)"
| "store_step E s (RecordResult c) = snd (record_effect_result E s c)"
| "store_step E s (AppendCore ev ws ty at payload key) = snd (append_core_event E s ev ws ty at payload key)"
| "store_step E s (HandshakeFailure ws reason actor now) = snd (record_handshake_failure E s ws reason actor now)"
| "store_step E s (PersistDecision a) = snd (persist_policy_decision E s a)"
| "store_step E s (PersistEnforcement d at r) = snd (persist_policy_enforcement E s d at r)"
| "store_step E s RebuildRuns = snd (rebuild_run_projection E s)"
| "store_step E s (Recover intact) = snd (recover E intact s)"

section \<open>What a transaction does\<close>

lemma in_transaction_cases:
  "in_transaction s outcome = (r, s') \<Longrightarrow>
     s' = s \<and> (\<exists>e. outcome = Err e \<and> r = Err e) \<or> (\<exists>a. outcome = Ok (a, s') \<and> r = Ok a)"
  by (auto simp: in_transaction_def split: sum.splits)

lemma idempotent_tx_cases:
  assumes "idempotent_tx s key h ev body = (r, s')"
  obtains (same) "s' = s" "\<forall>e. r \<noteq> Ok (Committed e)"
  | (committed) s1 where "bt_get (es_idempotency s) key = None" "body s = Ok s1"
      "record_idempotency s1 key h ev = Ok s'" "r = Ok (Committed ev)"
proof -
  have "s' = s \<and> (\<forall>e. r \<noteq> Ok (Committed e))
    \<or> (\<exists>s1. bt_get (es_idempotency s) key = None \<and> body s = Ok s1 \<and> record_idempotency s1 key h ev = Ok s' \<and> r = Ok (Committed ev))"
    using assms by (auto simp: idempotent_tx_def in_transaction_def replay_lookup_def split: sum.splits option.splits if_splits)
  then show thesis using that by blast
qed

lemma append_to_Ok:
  "append_to E s ev ws ty at payload = Ok (s1, sequence) \<longleftrightarrow>
     (\<exists>row. s1 = s\<lparr>es_events := es_events s @ [row]\<rparr>
        \<and> append_event E (es_events s) ev ws ty at payload = Ok (es_events s @ [row], sequence))"
proof -
  have "\<exists>row. evs = es_events s @ [row]"
    if "append_event E (es_events s) ev ws ty at payload = Ok (evs, n)" for evs n
    using that by (auto simp: append_event_Ok)
  then show ?thesis by (auto simp: append_to_def split: sum.splits)
qed

lemma append_to_tables:
  "append_to E s ev ws ty at payload = Ok (s1, sequence) \<Longrightarrow>
     es_runs s1 = es_runs s \<and> es_artifacts s1 = es_artifacts s \<and> es_outbox s1 = es_outbox s
     \<and> es_idempotency s1 = es_idempotency s \<and> es_decisions s1 = es_decisions s
     \<and> es_blobs s1 = es_blobs s \<and> es_workspace_id s1 = es_workspace_id s"
  by (auto simp: append_to_Ok)

text \<open>The rows a store may gain: each a well-chained row of its own workspace.\<close>

definition log_ok :: "store_env \<Rightarrow> event_store \<Rightarrow> bool" where
  "log_ok E s \<longleftrightarrow> verify_hash_chain (env_hash E) (es_events s) = Ok ()
     \<and> ev_workspace_id ` set (es_events s) \<subseteq> {es_workspace_id s}
     \<and> map ev_sequence (es_events s) = map (\<lambda>i. int i + 1) [0..<length (es_events s)]
     \<and> dr_workspace_id ` snd ` set (es_decisions s) \<subseteq> {es_workspace_id s}"

text \<open>A step keeps the workspace and grows the log at its end.\<close>

definition grows :: "event_store \<Rightarrow> event_store \<Rightarrow> bool" where
  "grows s s' \<longleftrightarrow> es_workspace_id s' = es_workspace_id s \<and> prefix (es_events s) (es_events s')"

lemma grows_refl [simp]: "grows s s"
  by (simp add: grows_def)

lemma grows_trans: "grows s t \<Longrightarrow> grows t u \<Longrightarrow> grows s u"
  by (auto simp: grows_def)

lemma sequence_snoc:
  assumes "map ev_sequence events = map (\<lambda>i. int i + 1) [0..<length events]"
  shows "next_sequence events = int (length events) + 1"
proof (cases events rule: rev_cases)
  case (snoc xs x)
  then have "last (map ev_sequence events) = last (map (\<lambda>i. int i + 1) [0..<length events])"
    using assms by simp
  with snoc show ?thesis by (simp add: next_sequence_def)
qed (simp add: next_sequence_def)

lemma append_to_log_ok:
  assumes "append_to E s ev ws ty at payload = Ok (s1, sequence)" "log_ok E s" "ws = es_workspace_id s"
  shows "log_ok E s1" "grows s s1"
proof -
  from assms(1) obtain row where s1: "s1 = s\<lparr>es_events := es_events s @ [row]\<rparr>"
    and a: "append_event E (es_events s) ev ws ty at payload = Ok (es_events s @ [row], sequence)"
    by (auto simp: append_to_Ok)
  have "ev_sequence row = int (length (es_events s)) + 1" "ev_workspace_id row = ws"
    using a sequence_snoc [of "es_events s"] assms(2) by (auto simp: append_event_Ok log_ok_def)
  then show "log_ok E s1"
    using assms(2,3) append_keeps_chain [OF a] by (simp add: s1 log_ok_def)
  show "grows s s1" by (simp add: s1 grows_def)
qed

text \<open>What the other tables hold does not matter to the log.\<close>

lemma log_ok_tables [simp]:
  "log_ok E (s\<lparr>es_runs := x\<rparr>) = log_ok E s" "log_ok E (s\<lparr>es_checkpoint := c\<rparr>) = log_ok E s"
  "log_ok E (s\<lparr>es_outbox := os\<rparr>) = log_ok E s" "log_ok E (s\<lparr>es_idempotency := k\<rparr>) = log_ok E s"
  "log_ok E (s\<lparr>es_artifacts := a\<rparr>) = log_ok E s" "log_ok E (s\<lparr>es_blobs := b\<rparr>) = log_ok E s"
  "grows s (t\<lparr>es_runs := x\<rparr>) = grows s t" "grows s (t\<lparr>es_checkpoint := c\<rparr>) = grows s t"
  "grows s (t\<lparr>es_outbox := os\<rparr>) = grows s t" "grows s (t\<lparr>es_idempotency := k\<rparr>) = grows s t"
  "grows s (t\<lparr>es_artifacts := a\<rparr>) = grows s t" "grows s (t\<lparr>es_blobs := b\<rparr>) = grows s t"
  "grows s (t\<lparr>es_decisions := d\<rparr>) = grows s t"
  by (simp_all add: log_ok_def grows_def)

text \<open>A body keeps the log when each state it returns does.\<close>

definition keeps_log :: "store_env \<Rightarrow> string \<Rightarrow> (event_store \<Rightarrow> store_error + event_store) \<Rightarrow> bool" where
  "keeps_log E ws body \<longleftrightarrow>
     (\<forall>s s1. log_ok E s \<longrightarrow> es_workspace_id s = ws \<longrightarrow> body s = Ok s1 \<longrightarrow> log_ok E s1 \<and> grows s s1)"

lemma idempotent_tx_keeps_log:
  assumes "keeps_log E (es_workspace_id s) body" "log_ok E s"
  shows "log_ok E (snd (idempotent_tx s key h ev body))" "grows s (snd (idempotent_tx s key h ev body))"
proof -
  obtain r s' where tx: "idempotent_tx s key h ev body = (r, s')" by (cases "idempotent_tx s key h ev body")
  from tx have "log_ok E s' \<and> grows s s'"
  proof (cases rule: idempotent_tx_cases)
    case (committed s1)
    then have "log_ok E s1 \<and> grows s s1" using assms by (simp add: keeps_log_def)
    with committed(3) show ?thesis by (auto simp: record_idempotency_def split: if_splits)
  qed (simp add: assms)
  with tx show "log_ok E (snd (idempotent_tx s key h ev body))" "grows s (snd (idempotent_tx s key h ev body))"
    by simp_all
qed

lemma bodies_keep_log:
  "keeps_log E ws (create_run_body E ev ws run task at)"
  "rt_workspace_id t = ws \<Longrightarrow> keeps_log E ws (transition_body E t)"
  "ac_workspace_id a = ws \<Longrightarrow> keeps_log E ws (insert_artifact_fact E a blob)"
  "ei_workspace_id i = ws \<Longrightarrow> keeps_log E ws (effect_intent_body E i)"
  "eb_workspace_id r = ws \<Longrightarrow> keeps_log E ws (effect_result_body E r)"
  "keeps_log E ws (\<lambda>s. case append_to E s ev ws ty at payload of Err e \<Rightarrow> Err e | Ok (s1, _) \<Rightarrow> Ok s1)"
       apply (auto simp: keeps_log_def create_run_body_def update_run_checkpoint_def dest: append_to_log_ok
         split: sum.splits prod.splits if_splits)[1]
      apply (auto simp: keeps_log_def transition_body_def update_run_checkpoint_def dest: append_to_log_ok
         split: sum.splits prod.splits if_splits option.splits)[1]
     apply (auto simp: keeps_log_def insert_artifact_fact_def Let_def dest: append_to_log_ok
         split: sum.splits prod.splits if_splits)[1]
    apply (auto simp: keeps_log_def effect_intent_body_def dest: append_to_log_ok
         split: sum.splits prod.splits if_splits)[1]
   apply (auto simp: keeps_log_def effect_result_body_def dest: append_to_log_ok
         split: sum.splits prod.splits if_splits)[1]
  apply (auto simp: keeps_log_def dest: append_to_log_ok split: sum.splits prod.splits)[1]
  done

lemma decision_log_ok: "log_ok E s \<Longrightarrow> dr_workspace_id row = es_workspace_id s \<Longrightarrow>
    log_ok E (s\<lparr>es_decisions := bt_insert d row (es_decisions s)\<rparr>)"
  by (fastforce simp: log_ok_def dest!: mem_bt_insert)

lemma policy_keeps_log:
  assumes "log_ok E s"
  shows "log_ok E (snd (persist_policy_decision E s a)) \<and> grows s (snd (persist_policy_decision E s a))"
    and "log_ok E (snd (persist_policy_enforcement E s d at r)) \<and> grows s (snd (persist_policy_enforcement E s d at r))"
proof -
  show "log_ok E (snd (persist_policy_decision E s a)) \<and> grows s (snd (persist_policy_decision E s a))"
    using assms
    by (auto simp: persist_policy_decision_def in_transaction_def dest: append_to_log_ok
        intro!: decision_log_ok split: sum.splits prod.splits option.splits if_splits)
      (auto simp: append_to_Ok)
  have "dr_workspace_id row = es_workspace_id s" if "bt_get (es_decisions s) d = Some row" for row
    using assms bt_get_mem [OF that] by (force simp: log_ok_def)
  then show "log_ok E (snd (persist_policy_enforcement E s d at r)) \<and> grows s (snd (persist_policy_enforcement E s d at r))"
    using assms
    by (auto simp: persist_policy_enforcement_def in_transaction_def dest: append_to_log_ok
        intro!: decision_log_ok split: sum.splits prod.splits option.splits if_splits)
      (auto simp: append_to_Ok)
qed

lemma rebuild_keeps_log:
  "log_ok E s \<Longrightarrow> log_ok E (snd (rebuild_run_projection E s)) \<and> grows s (snd (rebuild_run_projection E s))"
  by (auto simp: rebuild_run_projection_def in_transaction_def update_run_checkpoint_def Let_def
      split: sum.splits prod.splits)

lemma recover_state: "snd (recover E intact s) = s \<or> snd (recover E intact s) = snd (rebuild_run_projection E s)"
  by (auto simp: recover_def Let_def split: sum.splits prod.splits)

lemma step_keeps_log: "log_ok E s \<Longrightarrow> log_ok E (store_step E s x) \<and> grows s (store_step E s x)"
proof (induction E s x rule: store_step.induct)
  case (11 E s intact)
  then show ?case using recover_state [of E intact s] rebuild_keeps_log [of E s] by (metis grows_refl store_step.simps(11))
qed (auto simp: create_run_def transition_run_def commit_artifact_fact_def record_effect_intent_def record_effect_result_def
    append_core_event_def record_handshake_failure_def in_transaction_def Let_def policy_keeps_log rebuild_keeps_log
    intro!: idempotent_tx_keeps_log bodies_keep_log dest: append_to_log_ok split: sum.splits prod.splits)

interpretation log: stepper "store_step E" "log_ok E"
  by unfold_locales (simp add: step_keeps_log)

lemma run_grows: "log_ok E s \<Longrightarrow> grows s (foldl (store_step E) s ops)"
proof (induction ops arbitrary: s)
  case (Cons x ops)
  then show ?case using step_keeps_log [of E s x] grows_trans by auto
qed simp

lemma fresh_log_ok [simp]: "log_ok E (fresh_store ws)"
  by (simp add: log_ok_def fresh_store_def verify_hash_chain_def)

section \<open>Property: the log\<close>

text \<open>
  C23: the log is append-only, chained and confined to its workspace. Whatever operations run
  on a store from its creation, accepted or refused, the chain verifies, the rows carry the
  store's workspace and consecutive sequence numbers from 1, and later operations only add rows
  at the end.
\<close>

theorem log_append_only_and_chained:
  "let s = foldl (store_step E) (fresh_store ws) ops; s' = foldl (store_step E) s later in
   verify_hash_chain (env_hash E) (es_events s') = Ok ()
   \<and> prefix (es_events s) (es_events s')
   \<and> ev_workspace_id ` set (es_events s') \<subseteq> {ws}
   \<and> map ev_sequence (es_events s') = map (\<lambda>i. int i + 1) [0..<event_count s']"
proof -
  let ?s = "foldl (store_step E) (fresh_store ws) ops" and ?f = "fresh_store ws"
  have s: "log_ok E ?s" by (rule log.run_inv) simp
  then have "log_ok E (foldl (store_step E) ?s later)" by (rule log.run_inv)
  moreover have "grows ?s (foldl (store_step E) ?s later)" using s by (rule run_grows)
  moreover have "es_workspace_id ?f = ws" by (simp add: fresh_store_def)
  then have "es_workspace_id ?s = ws" using run_grows [of E ?f ops] by (simp add: grows_def)
  ultimately show ?thesis by (simp add: log_ok_def grows_def event_count_def Let_def)
qed

section \<open>A sample store\<close>

text \<open>A run that succeeds, and an effect that is recorded and then completed.\<close>

definition sample_transition :: "string \<Rightarrow> run_state \<Rightarrow> string list \<Rightarrow> run_transition" where
  "sample_transition ev target evidence = \<lparr>rt_event_id = ev, rt_workspace_id = ''ws'', rt_run_id = ''r1'', rt_target = target,
     rt_acceptance_evidence = evidence, rt_occurred_at_ms = 2, rt_idempotency_key = ev\<rparr>"

definition sample_intent :: effect_intent where
  "sample_intent = \<lparr>ei_event_id = ''e4'', ei_workspace_id = ''ws'', ei_intent_id = ''i1'', ei_effect_kind = ''sandbox.exec'',
     ei_payload = JNull, ei_occurred_at_ms = 4, ei_idempotency_key = ''k4''\<rparr>"

definition sample_result :: "string \<Rightarrow> effect_disposition \<Rightarrow> effect_result" where
  "sample_result key disposition = \<lparr>eb_event_id = ''e5'', eb_workspace_id = ''ws'', eb_intent_id = ''i1'', eb_result = JBool True,
     eb_disposition = disposition, eb_occurred_at_ms = 5, eb_idempotency_key = key\<rparr>"

definition sample_ops :: "store_op list" where
  "sample_ops = [CreateRun ''e1'' ''ws'' ''r1'' ''t1'' 1 ''k1'', TransitionRun (sample_transition ''e2'' Running []),
     TransitionRun (sample_transition ''e3'' RunSucceeded [''a1'']), RecordIntent sample_intent]"

abbreviation sample_store :: event_store where
  "sample_store \<equiv> foldl (store_step sample_env) (fresh_store ''ws'') sample_ops"

lemma sample_env_codec: "json_codec (env_print sample_env) (env_parse sample_env)"
  by (simp add: sample_env_def sample_json_codec)

lemma sample_ops_results:
  "run_state sample_store ''r1'' = Ok (Some RunSucceeded)"
  "fst (record_effect_result sample_env sample_store (sample_result ''k5'' DispCompleted)) = Ok (Committed ''e5'')"
  "fst (create_run sample_env (fresh_store ''ws'') ''e1'' ''ws'' ''r1'' ''t1'' 1 ''k1'') = Ok (Committed ''e1'')"
  "fst (record_effect_intent sample_env (fresh_store ''ws'') sample_intent) = Ok (Committed ''e4'')"
  by code_simp+

end
