(* ===== verification/StoreEffects.thy ===== *)
theory StoreEffects
  imports EventStore
begin

text \<open>
  What the event store promises about repeated and external effects: every idempotency key is
  spent once, every effect intent is resolved at most once.
\<close>

section \<open>Property: idempotency\<close>

lemma bodies_keep_keys:
  "create_run_body E ev ws run task at s = Ok s1 \<Longrightarrow> es_idempotency s1 = es_idempotency s"
  "transition_body E c s = Ok s1 \<Longrightarrow> es_idempotency s1 = es_idempotency s"
  "insert_artifact_fact E a blob s = Ok s1 \<Longrightarrow> es_idempotency s1 = es_idempotency s"
  "effect_intent_body E i s = Ok s1 \<Longrightarrow> es_idempotency s1 = es_idempotency s"
  "effect_result_body E r s = Ok s1 \<Longrightarrow> es_idempotency s1 = es_idempotency s"
  "(case append_to E s ev ws ty at payload of Err e \<Rightarrow> Err e | Ok (s1, _) \<Rightarrow> Ok s1) = Ok s1 \<Longrightarrow> es_idempotency s1 = es_idempotency s"
  by (auto simp: create_run_body_def transition_body_def insert_artifact_fact_def effect_intent_body_def effect_result_body_def
      update_run_checkpoint_def Let_def dest!: append_to_tables split: sum.splits prod.splits if_splits option.splits)

definition key_used :: "event_store \<Rightarrow> string \<times> string \<times> string \<Rightarrow> bool" where
  "key_used s k \<longleftrightarrow> bt_get (es_idempotency s) (fst k) = Some (snd k)"

lemma idempotent_tx_keeps_keys:
  assumes "key_used s k" "\<And>s1. body s = Ok s1 \<Longrightarrow> es_idempotency s1 = es_idempotency s"
  shows "key_used (snd (idempotent_tx s key h ev body)) k"
proof -
  obtain r s' where tx: "idempotent_tx s key h ev body = (r, s')" by (cases "idempotent_tx s key h ev body")
  from tx have "key_used s' k"
  proof (cases rule: idempotent_tx_cases)
    case (committed s1)
    with assms(2) have "es_idempotency s' = bt_insert key (h, ev) (es_idempotency s)"
      by (auto simp: record_idempotency_def split: if_splits)
    with assms(1) committed(1) show ?thesis by (auto simp: key_used_def store_simps)
  qed (simp add: assms(1))
  with tx show ?thesis by simp
qed

lemma other_steps_keep_keys:
  "es_idempotency (snd (record_handshake_failure E s ws reason actor now)) = es_idempotency s"
  "es_idempotency (snd (persist_policy_decision E s a)) = es_idempotency s"
  "es_idempotency (snd (persist_policy_enforcement E s d at r)) = es_idempotency s"
  "es_idempotency (snd (rebuild_run_projection E s)) = es_idempotency s"
  "es_idempotency (snd (recover E intact s)) = es_idempotency s"
proof -
  show "es_idempotency (snd (persist_policy_decision E s a)) = es_idempotency s"
    by (auto simp: persist_policy_decision_def in_transaction_def dest!: append_to_tables
        split: sum.splits prod.splits option.splits if_splits)
  show "es_idempotency (snd (persist_policy_enforcement E s d at r)) = es_idempotency s"
    by (auto simp: persist_policy_enforcement_def in_transaction_def dest!: append_to_tables
        split: sum.splits prod.splits option.splits if_splits)
  show "es_idempotency (snd (record_handshake_failure E s ws reason actor now)) = es_idempotency s"
    by (auto simp: record_handshake_failure_def in_transaction_def Let_def dest!: append_to_tables split: sum.splits prod.splits)
  show r: "es_idempotency (snd (rebuild_run_projection E s)) = es_idempotency s"
    by (auto simp: rebuild_run_projection_def in_transaction_def update_run_checkpoint_def Let_def split: sum.splits)
  show "es_idempotency (snd (recover E intact s)) = es_idempotency s"
    using recover_state [of E intact s] r by (elim disjE) simp_all
qed

lemma step_keeps_keys: "key_used s k \<Longrightarrow> key_used (store_step E s x) k"
proof (cases x)
  case (CreateRun ev ws run task at key)
  then show "key_used s k \<Longrightarrow> ?thesis" by (simp add: create_run_def idempotent_tx_keeps_keys bodies_keep_keys)
next
  case (TransitionRun c)
  then show "key_used s k \<Longrightarrow> ?thesis" by (simp add: transition_run_def idempotent_tx_keeps_keys bodies_keep_keys)
next
  case (CommitArtifact c blob)
  then show "key_used s k \<Longrightarrow> ?thesis" by (simp add: commit_artifact_fact_def idempotent_tx_keeps_keys bodies_keep_keys)
next
  case (RecordIntent c)
  then show "key_used s k \<Longrightarrow> ?thesis" by (simp add: record_effect_intent_def idempotent_tx_keeps_keys bodies_keep_keys)
next
  case (RecordResult c)
  then show "key_used s k \<Longrightarrow> ?thesis" by (simp add: record_effect_result_def idempotent_tx_keeps_keys bodies_keep_keys)
next
  case (AppendCore ev ws ty at payload key)
  then show "key_used s k \<Longrightarrow> ?thesis"
    using idempotent_tx_keeps_keys [OF _ bodies_keep_keys(6)] by (simp add: append_core_event_def)
qed (simp_all add: key_used_def other_steps_keep_keys)

interpretation used_keys: permanent_marks "store_step E" key_used
  by unfold_locales (rule step_keeps_keys)

lemma step_keeps_workspace: "es_workspace_id (foldl (store_step E) s ops) = es_workspace_id s" if "log_ok E s"
  using run_grows [OF that] by (simp add: grows_def)
lemma idempotent_tx_committed:
  "idempotent_tx s key h ev body = (Ok (Committed e), s1) \<Longrightarrow> e = ev \<and> key_used s1 (key, h, ev)"
  by (erule idempotent_tx_cases) (auto simp: record_idempotency_def key_used_def store_simps split: if_splits)

lemma idempotent_tx_replayed: "key_used t (key, h, ev) \<Longrightarrow> idempotent_tx t key h ev' body = (Ok (Replayed ev), t)"
  by (simp add: key_used_def idempotent_tx_def replay_lookup_def in_transaction_def)

lemma idempotent_tx_conflict: "key_used t (key, h, ev) \<Longrightarrow> h' \<noteq> h \<Longrightarrow> idempotent_tx t key h' ev' body = (Err IdempotencyConflict, t)"
  by (simp add: key_used_def idempotent_tx_def replay_lookup_def in_transaction_def)

lemma committed_then_replayed:
  assumes "log_ok E s" "idempotent_tx s key h ev body = (Ok (Committed e), s1)"
    and "s1 = store_step E s x" "t = foldl (store_step E) s1 later"
  shows "e = ev" "es_workspace_id t = es_workspace_id s" "key_used t (key, h, ev)"
proof -
  have "es_workspace_id s1 = es_workspace_id s" "log_ok E s1"
    using step_keeps_log [OF assms(1), of x] by (simp_all add: assms(3) grows_def)
  then show "es_workspace_id t = es_workspace_id s" using step_keeps_workspace by (simp add: assms(4))
  from idempotent_tx_committed [OF assms(2)] show "e = ev" "key_used t (key, h, ev)"
    by (simp_all add: assms(4) used_keys.run_mark_stays)
qed

lemma guarded_tx_committed:
  assumes "log_ok E s"
    and "(if w \<noteq> es_workspace_id s then (Err WorkspaceMismatch, s) else idempotent_tx s key h ev body) = (Ok (Committed e), s1)"
    and "s1 = store_step E s x" "t = foldl (store_step E) s1 later"
  shows "(if w \<noteq> es_workspace_id t then (Err WorkspaceMismatch, t) else idempotent_tx t key h ev' body') = (Ok (Replayed e), t)"
    and "w = es_workspace_id t" "key_used t (key, h, e)"
proof -
  from assms(2) have w: "w = es_workspace_id s" and tx: "idempotent_tx s key h ev body = (Ok (Committed e), s1)"
    by (auto split: if_splits)
  note k = committed_then_replayed [OF assms(1) tx assms(3,4)]
  from k w show "w = es_workspace_id t" "key_used t (key, h, e)" by simp_all
  then show "(if w \<noteq> es_workspace_id t then (Err WorkspaceMismatch, t) else idempotent_tx t key h ev' body') = (Ok (Replayed e), t)"
    by (simp add: idempotent_tx_replayed)
qed

lemma create_run_committed:
  assumes "log_ok E s" "create_run E s ev w run task at key = (Ok (Committed e), s1)" "t = foldl (store_step E) s1 later"
  shows "create_run E t ev w run task at' key = (Ok (Replayed e), t)"
proof -
  have "s1 = store_step E s (CreateRun ev w run task at key)" using assms(2) by simp
  from guarded_tx_committed(1) [OF assms(1) assms(2) [unfolded create_run_def] this assms(3)] show ?thesis unfolding create_run_def .
qed

lemma transition_run_committed:
  assumes "log_ok E s" "transition_run E s c = (Ok (Committed e), s1)" "t = foldl (store_step E) s1 later"
  shows "transition_run E t c = (Ok (Replayed e), t)"
proof -
  have "s1 = store_step E s (TransitionRun c)" using assms(2) by simp
  from guarded_tx_committed(1) [OF assms(1) assms(2) [unfolded transition_run_def] this assms(3)] show ?thesis unfolding transition_run_def .
qed

lemma effect_result_committed:
  assumes "log_ok E s" "record_effect_result E s c = (Ok (Committed e), s1)" "t = foldl (store_step E) s1 later"
  shows "record_effect_result E t c = (Ok (Replayed e), t)"
proof -
  have "s1 = store_step E s (RecordResult c)" using assms(2) by simp
  from guarded_tx_committed(1) [OF assms(1) assms(2) [unfolded record_effect_result_def] this assms(3)] show ?thesis unfolding record_effect_result_def .
qed

lemma core_event_committed:
  assumes "log_ok E s" "append_core_event E s ev w ty at payload key = (Ok (Committed e), s1)" "t = foldl (store_step E) s1 later"
  shows "append_core_event E t ev w ty at' payload key = (Ok (Replayed e), t)"
proof -
  have "s1 = store_step E s (AppendCore ev w ty at payload key)" using assms(2) by simp
  from guarded_tx_committed(1) [OF assms(1) assms(2) [unfolded append_core_event_def] this assms(3)] show ?thesis unfolding append_core_event_def .
qed

lemma effect_intent_committed:
  assumes "log_ok E s" "record_effect_intent E s c = (Ok (Committed e), s1)" "t = foldl (store_step E) s1 later"
  shows "record_effect_intent E t c = (Ok (Replayed e), t)" "ei_workspace_id c = es_workspace_id t"
    "key_used t (ei_idempotency_key c,
        store_digest (env_hash E) [''effect-intent'', ei_intent_id c, ei_effect_kind c, env_print E (ei_payload c)], e)"
proof -
  have "s1 = store_step E s (RecordIntent c)" using assms(2) by simp
  note k = guarded_tx_committed [OF assms(1) assms(2) [unfolded record_effect_intent_def] this assms(3)]
  from k(1) show "record_effect_intent E t c = (Ok (Replayed e), t)" unfolding record_effect_intent_def .
  from k(2,3) show "ei_workspace_id c = es_workspace_id t" "key_used t (ei_idempotency_key c,
        store_digest (env_hash E) [''effect-intent'', ei_intent_id c, ei_effect_kind c, env_print E (ei_payload c)], e)" .
qed

text \<open>
  C26: every mutation takes effect once. When a command was committed, the same command under the
  same idempotency key, whenever and however often it comes again, is answered as a replay of the
  first event and changes nothing; and another effect intent under the key (one whose request
  hash differs) is refused.
\<close>

theorem committed_once:
  assumes "s = foldl (store_step E) (fresh_store ws) earlier" "t = foldl (store_step E) s1 later"
  shows "(create_run E s ev w run task at key = (Ok (Committed e), s1)
            \<longrightarrow> create_run E t ev w run task at' key = (Ok (Replayed e), t))
    \<and> (transition_run E s c = (Ok (Committed e), s1) \<longrightarrow> transition_run E t c = (Ok (Replayed e), t))
    \<and> (append_core_event E s ev w ty at payload key = (Ok (Committed e), s1)
            \<longrightarrow> append_core_event E t ev w ty at' payload key = (Ok (Replayed e), t))
    \<and> (record_effect_result E s r = (Ok (Committed e), s1) \<longrightarrow> record_effect_result E t r = (Ok (Replayed e), t))
    \<and> (record_effect_intent E s i = (Ok (Committed e), s1) \<longrightarrow> record_effect_intent E t i = (Ok (Replayed e), t)
         \<and> (ei_idempotency_key i' = ei_idempotency_key i \<and> ei_workspace_id i' = ei_workspace_id i
            \<and> store_digest (env_hash E) [''effect-intent'', ei_intent_id i', ei_effect_kind i', env_print E (ei_payload i')]
              \<noteq> store_digest (env_hash E) [''effect-intent'', ei_intent_id i, ei_effect_kind i, env_print E (ei_payload i)]
            \<longrightarrow> record_effect_intent E t i' = (Err IdempotencyConflict, t)))"
proof -
  have s: "log_ok E s" unfolding assms(1) by (rule log.run_inv) simp
  have "record_effect_intent E t i' = (Err IdempotencyConflict, t)"
    if "record_effect_intent E s i = (Ok (Committed e), s1)" "ei_idempotency_key i' = ei_idempotency_key i"
      "ei_workspace_id i' = ei_workspace_id i"
      "store_digest (env_hash E) [''effect-intent'', ei_intent_id i', ei_effect_kind i', env_print E (ei_payload i')]
       \<noteq> store_digest (env_hash E) [''effect-intent'', ei_intent_id i, ei_effect_kind i, env_print E (ei_payload i)]"
    using effect_intent_committed(2,3) [OF s that(1) assms(2)] that(2-4)
    by (simp add: record_effect_intent_def idempotent_tx_conflict)
  moreover have "create_run E t ev w run task at' key = (Ok (Replayed e), t)"
    if "create_run E s ev w run task at key = (Ok (Committed e), s1)" by (rule create_run_committed [OF s that assms(2)])
  moreover have "transition_run E t c = (Ok (Replayed e), t)"
    if "transition_run E s c = (Ok (Committed e), s1)" by (rule transition_run_committed [OF s that assms(2)])
  moreover have "append_core_event E t ev w ty at' payload key = (Ok (Replayed e), t)"
    if "append_core_event E s ev w ty at payload key = (Ok (Committed e), s1)" by (rule core_event_committed [OF s that assms(2)])
  moreover have "record_effect_result E t r = (Ok (Replayed e), t)"
    if "record_effect_result E s r = (Ok (Committed e), s1)" by (rule effect_result_committed [OF s that assms(2)])
  moreover have "record_effect_intent E t i = (Ok (Replayed e), t)"
    if "record_effect_intent E s i = (Ok (Committed e), s1)" by (rule effect_intent_committed(1) [OF s that assms(2)])
  ultimately show ?thesis by (intro conjI impI) simp_all
qed

theorem committed_once_witness:
  "fst (create_run sample_env (foldl (store_step sample_env) (fresh_store ''ws'') sample_ops) ''e1'' ''ws'' ''r1'' ''t1'' 9 ''k1'')
     = Ok (Replayed ''e1'')"
proof -
  let ?s1 = "store_step sample_env (fresh_store ''ws'') (CreateRun ''e1'' ''ws'' ''r1'' ''t1'' 1 ''k1'')"
  have c: "create_run sample_env (fresh_store ''ws'') ''e1'' ''ws'' ''r1'' ''t1'' 1 ''k1'' = (Ok (Committed ''e1''), ?s1)"
    using sample_ops_results(3) by (simp add: prod_eq_iff)
  have e: "fresh_store ''ws'' = foldl (store_step sample_env) (fresh_store ''ws'') []" by simp
  have l: "sample_store = foldl (store_step sample_env) ?s1 (tl sample_ops)" by (simp add: sample_ops_def)
  from committed_once [OF e l] c show ?thesis by (metis fst_conv)
qed

section \<open>Property: effects resolve once\<close>

text \<open>How a step may change the outbox: not, one new pending row, or settling one pending intent.\<close>

definition outbox_change :: "outbox_row list \<Rightarrow> outbox_row list \<Rightarrow> bool" where
  "outbox_change old new \<longleftrightarrow> new = old
     \<or> (\<exists>row. new = old @ [row] \<and> ob_intent_id row \<notin> ob_intent_id ` set old)
     \<or> (\<exists>i f. new = map (\<lambda>row. if resolves i row then f row else row) old
          \<and> (\<forall>row. ob_intent_id (f row) = ob_intent_id row \<and> ob_state (f row) \<noteq> ObPending))"

lemma bodies_change_outbox:
  "create_run_body E ev ws run task at s = Ok s1 \<Longrightarrow> es_outbox s1 = es_outbox s"
  "transition_body E c s = Ok s1 \<Longrightarrow> es_outbox s1 = es_outbox s"
  "insert_artifact_fact E a blob s = Ok s1 \<Longrightarrow> es_outbox s1 = es_outbox s"
  "(case append_to E s ev ws ty at payload of Err e \<Rightarrow> Err e | Ok (s1, _) \<Rightarrow> Ok s1) = Ok s1 \<Longrightarrow> es_outbox s1 = es_outbox s"
  "effect_intent_body E i s = Ok s1 \<Longrightarrow> outbox_change (es_outbox s) (es_outbox s1)"
  by (auto simp: create_run_body_def transition_body_def insert_artifact_fact_def effect_intent_body_def outbox_change_def
      update_run_checkpoint_def Let_def dest!: append_to_tables split: sum.splits prod.splits if_splits option.splits)

lemma effect_result_outbox: "effect_result_body E r s = Ok s1 \<Longrightarrow> outbox_change (es_outbox s) (es_outbox s1)"
  unfolding outbox_change_def
  by (rule disjI2, rule disjI2, rule exI [where x = "eb_intent_id r"],
      rule exI [where x = "\<lambda>row. row\<lparr>ob_state := disposition_state (eb_disposition r), ob_result_event_id := Some (eb_event_id r),
        ob_result_json := Some (env_print E (eb_result r))\<rparr>"], cases "eb_disposition r")
    (auto simp: effect_result_body_def dest!: append_to_tables split: sum.splits prod.splits if_splits)

lemma outbox_change_refl [simp]: "outbox_change b b"
  by (simp add: outbox_change_def)

lemma idempotent_tx_outbox:
  assumes "\<And>s1. body s = Ok s1 \<Longrightarrow> outbox_change (es_outbox s) (es_outbox s1)"
  shows "outbox_change (es_outbox s) (es_outbox (snd (idempotent_tx s key h ev body)))"
proof -
  obtain r s' where tx: "idempotent_tx s key h ev body = (r, s')" by (cases "idempotent_tx s key h ev body")
  from tx have "outbox_change (es_outbox s) (es_outbox s')"
    by (cases rule: idempotent_tx_cases) (auto simp: record_idempotency_def dest!: assms split: if_splits)
  with tx show ?thesis by simp
qed

lemma other_steps_outbox:
  "es_outbox (snd (record_handshake_failure E s ws reason actor now)) = es_outbox s"
  "es_outbox (snd (persist_policy_decision E s a)) = es_outbox s"
  "es_outbox (snd (persist_policy_enforcement E s d at r)) = es_outbox s"
  "es_outbox (snd (rebuild_run_projection E s)) = es_outbox s"
  "es_outbox (snd (recover E intact s)) = es_outbox s"
proof -
  show "es_outbox (snd (persist_policy_decision E s a)) = es_outbox s"
    by (auto simp: persist_policy_decision_def in_transaction_def dest!: append_to_tables
        split: sum.splits prod.splits option.splits if_splits)
  show "es_outbox (snd (persist_policy_enforcement E s d at r)) = es_outbox s"
    by (auto simp: persist_policy_enforcement_def in_transaction_def dest!: append_to_tables
        split: sum.splits prod.splits option.splits if_splits)
  show "es_outbox (snd (record_handshake_failure E s ws reason actor now)) = es_outbox s"
    by (auto simp: record_handshake_failure_def in_transaction_def Let_def dest!: append_to_tables split: sum.splits prod.splits)
  show r: "es_outbox (snd (rebuild_run_projection E s)) = es_outbox s"
    by (auto simp: rebuild_run_projection_def in_transaction_def update_run_checkpoint_def Let_def split: sum.splits)
  show "es_outbox (snd (recover E intact s)) = es_outbox s"
    using recover_state [of E intact s] r by (elim disjE) simp_all
qed

lemma step_outbox: "outbox_change (es_outbox s) (es_outbox (store_step E s x))"
  by (cases x)
    (simp_all add: create_run_def transition_run_def commit_artifact_fact_def record_effect_intent_def record_effect_result_def
      append_core_event_def idempotent_tx_outbox bodies_change_outbox effect_result_outbox other_steps_outbox)

text \<open>Intent identifiers are unique, and a settled intent stays settled.\<close>

definition outbox_unique :: "event_store \<Rightarrow> bool" where
  "outbox_unique s \<longleftrightarrow> distinct (map ob_intent_id (es_outbox s))"

definition settled :: "event_store \<Rightarrow> string \<Rightarrow> bool" where
  "settled s i \<longleftrightarrow> outbox_unique s \<and> (\<exists>row \<in> set (es_outbox s). ob_intent_id row = i \<and> ob_state row \<noteq> ObPending)"

lemma outbox_change_ids:
  "outbox_change old new \<Longrightarrow> distinct (map ob_intent_id old) \<Longrightarrow> distinct (map ob_intent_id new)"
proof -
  have "map ob_intent_id (map (\<lambda>row. if resolves i row then f row else row) old) = map ob_intent_id old"
    if "\<forall>row. ob_intent_id (f row) = ob_intent_id row" for i f
    using that by simp
  then show "outbox_change old new \<Longrightarrow> distinct (map ob_intent_id old) \<Longrightarrow> distinct (map ob_intent_id new)"
    unfolding outbox_change_def by (elim disjE exE conjE) (simp_all del: map_map)
qed

lemma outbox_change_settled:
  "outbox_change old new \<Longrightarrow> row \<in> set old \<Longrightarrow> ob_state row \<noteq> ObPending \<Longrightarrow> row \<in> set new"
  by (fastforce simp: outbox_change_def resolves_def)

interpretation outbox: stepper "store_step E" outbox_unique
  using outbox_change_ids step_outbox by unfold_locales (fastforce simp: outbox_unique_def)

interpretation settled_effects: permanent_marks "store_step E" settled
proof unfold_locales
  fix s i x
  assume "settled s i"
  with outbox_change_ids [OF step_outbox [of s E x]] outbox_change_settled [OF step_outbox [of s E x]]
  show "settled (store_step E s x) i" by (auto simp: settled_def outbox_unique_def)
qed

lemma settled_not_resolved:
  assumes "settled s i" "eb_intent_id c = i"
  shows "effect_result_body E c s \<noteq> Ok s1"
proof -
  have "\<not> resolves i row" if "row \<in> set (es_outbox s)" for row
    using assms(1) that by (auto simp: settled_def outbox_unique_def resolves_def distinct_map inj_on_def)
  then have "filter (resolves i) (es_outbox s) = []" by (simp add: filter_empty_conv)
  with assms(2) show ?thesis
    by (auto simp: effect_result_body_def dest!: append_to_tables split: sum.splits prod.splits)
qed

text \<open>
  C27: an external effect is resolved at most once. When a result (completed or abandoned) was
  committed for an intent, no other result for that intent is ever committed, whatever its
  idempotency key, and the intent is never pending again.
\<close>

theorem effect_resolved_once:
  assumes "s = foldl (store_step E) (fresh_store ws) earlier"
    and "record_effect_result E s c = (Ok (Committed e), s1)" "eb_intent_id c' = eb_intent_id c"
  shows "fst (record_effect_result E (foldl (store_step E) s1 later) c') \<noteq> Ok (Committed e')
    \<and> eb_intent_id c \<notin> ob_intent_id ` {row \<in> set (es_outbox (foldl (store_step E) s1 later)). ob_state row = ObPending}"
proof -
  let ?t = "foldl (store_step E) s1 later"
  have u: "outbox_unique s" unfolding assms(1) by (rule outbox.run_inv) (simp add: outbox_unique_def fresh_store_def)
  have "settled s1 (eb_intent_id c)"
  proof -
    have "idempotent_tx s (eb_idempotency_key c) (store_digest (env_hash E) [''effect-result'', eb_intent_id c,
        disposition_name (eb_disposition c), env_print E (eb_result c)]) (eb_event_id c) (effect_result_body E c) = (Ok (Committed e), s1)"
      using assms(2) by (auto simp: record_effect_result_def split: if_splits)
    then obtain s2 where b: "effect_result_body E c s = Ok s2" and s1: "es_outbox s1 = es_outbox s2"
      by (cases rule: idempotent_tx_cases) (auto simp: record_idempotency_def split: if_splits)
    have "\<exists>row \<in> set (es_outbox s2). ob_intent_id row = eb_intent_id c \<and> ob_state row \<noteq> ObPending"
    proof -
      from b have one: "length (filter (resolves (eb_intent_id c)) (es_outbox s)) = 1"
        and s2: "es_outbox s2 = map (\<lambda>row. if resolves (eb_intent_id c) row
                 then row\<lparr>ob_state := disposition_state (eb_disposition c), ob_result_event_id := Some (eb_event_id c),
                          ob_result_json := Some (env_print E (eb_result c))\<rparr> else row) (es_outbox s)"
        by (auto simp: effect_result_body_def dest!: append_to_tables split: sum.splits prod.splits if_splits)
      then obtain row where row: "row \<in> set (es_outbox s)" "resolves (eb_intent_id c) row"
        by (metis (mono_tags) filter_False length_0_conv zero_neq_one)
      let ?new = "row\<lparr>ob_state := disposition_state (eb_disposition c), ob_result_event_id := Some (eb_event_id c),
                          ob_result_json := Some (env_print E (eb_result c))\<rparr>"
      have "?new \<in> set (es_outbox s2)" using row by (auto simp: s2 intro!: image_eqI [where x = row])
      moreover have "ob_intent_id ?new = eb_intent_id c \<and> ob_state ?new \<noteq> ObPending"
        using row(2) by (cases "eb_disposition c") (simp_all add: resolves_def)
      ultimately show ?thesis by blast
    qed
    moreover have "outbox_unique s1"
      using outbox_change_ids [OF effect_result_outbox [OF b]] u by (simp add: outbox_unique_def s1)
    ultimately show ?thesis by (simp add: settled_def s1)
  qed
  then have st: "settled ?t (eb_intent_id c)" by (rule settled_effects.run_mark_stays)
  have "r \<noteq> Ok (Committed e')" if "idempotent_tx ?t key h ev (effect_result_body E c') = (r, t')" for key h ev r t'
    using that by (cases rule: idempotent_tx_cases) (use settled_not_resolved [OF st assms(3)] in auto)
  then have "fst (record_effect_result E ?t c') \<noteq> Ok (Committed e')"
    by (auto simp: record_effect_result_def prod_eq_iff)
  moreover have "eb_intent_id c \<notin> ob_intent_id ` {row \<in> set (es_outbox ?t). ob_state row = ObPending}"
    using st by (auto simp: settled_def outbox_unique_def distinct_map inj_on_def)
  ultimately show ?thesis by simp
qed

theorem effect_resolved_once_witness:
  "\<forall>e. fst (record_effect_result sample_env (snd (record_effect_result sample_env sample_store (sample_result ''k5'' DispCompleted)))
      (sample_result ''k6'' DispAbandoned)) \<noteq> Ok (Committed e)"
proof -
  let ?s1 = "snd (record_effect_result sample_env sample_store (sample_result ''k5'' DispCompleted))"
  have "record_effect_result sample_env sample_store (sample_result ''k5'' DispCompleted) = (Ok (Committed ''e5''), ?s1)"
    using sample_ops_results(2) by (simp add: prod_eq_iff)
  from effect_resolved_once [OF refl this, where later = "[]" and c' = "sample_result ''k6'' DispAbandoned"]
  show ?thesis by (simp add: sample_result_def)
qed

end
