(* ===== verification/HostFiles.thy ===== *)
theory HostFiles
  imports SandboxPlan
begin

text \<open>
  What the governed runs use of the host: a file tree with directories, files and symbolic links,
  and the operations of \<open>std::fs\<close> and \<open>std::path\<close> on it (Unix). A path is resolved by the
  kernel's walk, which follows at most 40 links; a missing entry, a wrong kind of entry or a link
  loop is an error, other device errors are not modelled. On it, the lexical confinement of the run
  engine (\<open>crates/saber-core/src/run_engine.rs\<close>, \<open>worktree_path\<close>) and the path guard of the
  sandbox (\<open>crates/sandbox/src/path.rs\<close>).
\<close>

section \<open>The file tree\<close>

datatype fs_node = FsDir | FsFile string | FsLink "path_component list"

type_synonym fs = "(string list, fs_node) btree"

definition fs_get :: "fs \<Rightarrow> string list \<Rightarrow> fs_node option" where
  "fs_get fs p = (if p = [] then Some FsDir else bt_get fs p)"

fun fs_walk :: "nat \<Rightarrow> fs \<Rightarrow> string list \<Rightarrow> path_component list \<Rightarrow> string list option" where
  "fs_walk k fs cur [] = Some cur"
| "fs_walk k fs cur (RootDir # rest) = fs_walk k fs [] rest"
| "fs_walk k fs cur (CurDir # rest) = fs_walk k fs cur rest"
| "fs_walk k fs cur (ParentDir # rest) = fs_walk k fs (butlast cur) rest"
| "fs_walk k fs cur (Normal n # rest) =
     (case fs_get fs (cur @ [n]) of
        None \<Rightarrow> None
      | Some FsDir \<Rightarrow> fs_walk k fs (cur @ [n]) rest
      | Some (FsFile _) \<Rightarrow> if rest = [] then Some (cur @ [n]) else None
      | Some (FsLink target) \<Rightarrow> (case k of 0 \<Rightarrow> None | Suc j \<Rightarrow> fs_walk j fs cur (target @ rest)))"

definition MAX_LINKS :: nat where
  "MAX_LINKS = 40"

text \<open>\<open>canonicalize\<close>, with relative paths taken from the working directory \<open>cwd\<close>.\<close>

definition fs_canonicalize :: "fs \<Rightarrow> string list \<Rightarrow> path_component list \<Rightarrow> string list option" where
  "fs_canonicalize fs cwd p = fs_walk MAX_LINKS fs cwd p"

definition absolute_path :: "string list \<Rightarrow> path_component list" where
  "absolute_path names = RootDir # map Normal names"

definition fs_read :: "fs \<Rightarrow> path_component list \<Rightarrow> string option" where
  "fs_read fs p =
     (case fs_walk MAX_LINKS fs [] p of
        None \<Rightarrow> None
      | Some q \<Rightarrow> (case fs_get fs q of Some (FsFile b) \<Rightarrow> Some b | _ \<Rightarrow> None))"

text \<open>The entry that opening a path for writing (with \<open>create\<close>) would write.\<close>

fun fs_open :: "nat \<Rightarrow> fs \<Rightarrow> string list \<Rightarrow> path_component list \<Rightarrow> string list option" where
  "fs_open k fs cur p =
     (if p = [] then None
      else (case last p of
        Normal n \<Rightarrow>
          (case fs_walk MAX_LINKS fs cur (butlast p) of
             None \<Rightarrow> None
           | Some d \<Rightarrow>
               if fs_get fs d \<noteq> Some FsDir then None
               else (case fs_get fs (d @ [n]) of
                       None \<Rightarrow> Some (d @ [n])
                     | Some (FsFile _) \<Rightarrow> Some (d @ [n])
                     | Some FsDir \<Rightarrow> None
                     | Some (FsLink target) \<Rightarrow> (case k of 0 \<Rightarrow> None | Suc j \<Rightarrow> fs_open j fs d target)))
      | _ \<Rightarrow> None))"

declare fs_open.simps [simp del]

definition fs_write :: "fs \<Rightarrow> path_component list \<Rightarrow> string \<Rightarrow> fs option" where
  "fs_write fs p bytes = map_option (\<lambda>q. bt_insert q (FsFile bytes) fs) (fs_open MAX_LINKS fs [] p)"

text \<open>\<open>create_dir_all\<close>: what it created before an error stays.\<close>

fun fs_mkdirs :: "fs \<Rightarrow> string list \<Rightarrow> path_component list \<Rightarrow> bool \<times> fs" where
  "fs_mkdirs fs cur [] = (True, fs)"
| "fs_mkdirs fs cur (RootDir # rest) = fs_mkdirs fs [] rest"
| "fs_mkdirs fs cur (CurDir # rest) = fs_mkdirs fs cur rest"
| "fs_mkdirs fs cur (ParentDir # rest) = fs_mkdirs fs (butlast cur) rest"
| "fs_mkdirs fs cur (Normal n # rest) =
     (case fs_get fs (cur @ [n]) of
        None \<Rightarrow> fs_mkdirs (bt_insert (cur @ [n]) FsDir fs) (cur @ [n]) rest
      | Some FsDir \<Rightarrow> fs_mkdirs fs (cur @ [n]) rest
      | Some (FsFile _) \<Rightarrow> (False, fs)
      | Some (FsLink target) \<Rightarrow>
          (case fs_walk MAX_LINKS fs cur target of
             None \<Rightarrow> (False, fs)
           | Some d \<Rightarrow> if fs_get fs d = Some FsDir then fs_mkdirs fs d rest else (False, fs)))"

text \<open>The parent directory of a file that is about to be written.\<close>

definition make_parent :: "fs \<Rightarrow> path_component list \<Rightarrow> bool \<times> fs" where
  "make_parent fs target = (if length target \<le> 1 then (True, fs) else fs_mkdirs fs [] (butlast target))"

definition fs_is_dir :: "fs \<Rightarrow> path_component list \<Rightarrow> bool" where
  "fs_is_dir fs p \<longleftrightarrow> (case fs_walk MAX_LINKS fs [] p of None \<Rightarrow> False | Some q \<Rightarrow> fs_get fs q = Some FsDir)"

definition fs_children :: "fs \<Rightarrow> string list \<Rightarrow> string list" where
  "fs_children fs d = map (last \<circ> fst) (filter (\<lambda>e. fst e \<noteq> [] \<and> butlast (fst e) = d) fs)"

definition fs_remove :: "fs \<Rightarrow> path_component list \<Rightarrow> fs option" where
  "fs_remove fs p =
     (if p = [] then None
      else (case last p of
        Normal n \<Rightarrow>
          (case fs_walk MAX_LINKS fs [] (butlast p) of
             None \<Rightarrow> None
           | Some d \<Rightarrow> (case fs_get fs (d @ [n]) of None \<Rightarrow> None | Some FsDir \<Rightarrow> None | Some _ \<Rightarrow> Some (bt_remove (d @ [n]) fs)))
      | _ \<Rightarrow> None))"

text \<open>The longest path of the tree bounds how deep a walk without links goes.\<close>

definition tree_height :: "fs \<Rightarrow> nat" where
  "tree_height fs = foldr (\<lambda>e. max (length (fst e))) fs 0"

lemma tree_height_le: "e \<in> set fs \<Longrightarrow> length (fst e) \<le> tree_height fs"
  by (induction fs) (auto simp: tree_height_def)

lemma fs_get_height: "fs_get fs p = Some v \<Longrightarrow> length p \<le> tree_height fs"
  using tree_height_le [of "(p, v)" fs] by (auto simp: fs_get_def dest: bt_get_mem split: if_splits)

text \<open>\<open>String::from_utf8\<close>: which byte strings are text (RFC 3629).\<close>

definition utf8_cont :: "char \<Rightarrow> bool" where
  "utf8_cont c \<longleftrightarrow> 128 \<le> byte c \<and> byte c \<le> 191"

fun utf8_valid :: "string \<Rightarrow> bool" where
  "utf8_valid [] = True"
| "utf8_valid (a # r) =
     (if byte a < 128 then utf8_valid r
      else if 194 \<le> byte a \<and> byte a \<le> 223 then (case r of b # r1 \<Rightarrow> utf8_cont b \<and> utf8_valid r1 | _ \<Rightarrow> False)
      else if 224 \<le> byte a \<and> byte a \<le> 239 then
        (case r of b # c # r2 \<Rightarrow> utf8_cont b \<and> utf8_cont c \<and> (byte a = 224 \<longrightarrow> 160 \<le> byte b)
            \<and> (byte a = 237 \<longrightarrow> byte b \<le> 159) \<and> utf8_valid r2 | _ \<Rightarrow> False)
      else if 240 \<le> byte a \<and> byte a \<le> 244 then
        (case r of b # c # d # r3 \<Rightarrow> utf8_cont b \<and> utf8_cont c \<and> utf8_cont d \<and> (byte a = 240 \<longrightarrow> 144 \<le> byte b)
            \<and> (byte a = 244 \<longrightarrow> byte b \<le> 143) \<and> utf8_valid r3 | _ \<Rightarrow> False)
      else False)"

text \<open>\<open>String::from_utf8_lossy\<close>: each maximal part of an invalid sequence becomes U+FFFD.\<close>

definition REPLACEMENT :: string where
  "REPLACEMENT = [CHR 0xEF, CHR 0xBF, CHR 0xBD]"

definition utf8_second :: "char \<Rightarrow> char \<Rightarrow> bool" where
  "utf8_second a b \<longleftrightarrow> utf8_cont b \<and> (byte a = 224 \<longrightarrow> 160 \<le> byte b) \<and> (byte a = 237 \<longrightarrow> byte b \<le> 159)
     \<and> (byte a = 240 \<longrightarrow> 144 \<le> byte b) \<and> (byte a = 244 \<longrightarrow> byte b \<le> 143)"

definition utf8_tail_len :: "char \<Rightarrow> nat" where
  "utf8_tail_len a =
     (if 194 \<le> byte a \<and> byte a \<le> 223 then 1 else if 224 \<le> byte a \<and> byte a \<le> 239 then 2
      else if 240 \<le> byte a \<and> byte a \<le> 244 then 3 else 0)"

text \<open>How many bytes after the lead still belong to the sequence, at most the expected number.\<close>

definition utf8_good_tail :: "char \<Rightarrow> string \<Rightarrow> nat" where
  "utf8_good_tail a r =
     (case r of
        b # r1 \<Rightarrow> if utf8_tail_len a > 0 \<and> utf8_second a b
                   then Suc (length (takeWhile utf8_cont (take (utf8_tail_len a - 1) r1))) else 0
      | [] \<Rightarrow> 0)"

function utf8_lossy :: "string \<Rightarrow> string" where
  "utf8_lossy [] = []"
| "utf8_lossy (a # r) =
     (if byte a < 128 then a # utf8_lossy r
      else (let n = utf8_good_tail a r in
            (if utf8_tail_len a > 0 \<and> n = utf8_tail_len a then a # take n r else REPLACEMENT) @ utf8_lossy (drop n r)))"
  by pat_completeness auto
termination by (relation "measure length") auto

declare utf8_lossy.simps(2) [simp del]

text \<open>Valid text is unchanged.\<close>

lemma utf8_valid_split:
  assumes "utf8_valid (a # r)"
  obtains "byte a < 128" "utf8_valid r"
  | t r1 where "r = t @ r1" "utf8_valid r1" "\<not> byte a < 128" "utf8_tail_len a > 0" "length t = utf8_tail_len a" "utf8_good_tail a r = length t"
proof (cases "byte a < 128")
  case False
  show thesis
  proof (cases "byte a \<le> 223")
    case True
    then obtain b r1 where "r = b # r1" "utf8_cont b" "utf8_valid r1" "194 \<le> byte a"
      using assms False by (cases r) (simp_all split: if_splits)
    with True False show thesis
      by (intro that(2) [of "[b]" r1]) (simp_all add: utf8_tail_len_def utf8_good_tail_def utf8_second_def)
  next
    case wide: False
    show thesis
    proof (cases "byte a \<le> 239")
      case True
      then obtain b c r1 where "r = b # c # r1" "utf8_second a b" "utf8_cont c" "utf8_valid r1"
        using assms False wide by (cases r; cases "tl r") (simp_all add: utf8_second_def)
      with True False wide show thesis
        by (intro that(2) [of "[b, c]" r1]) (simp_all add: utf8_tail_len_def utf8_good_tail_def)
    next
      case wider: False
      then obtain b c d r1 where "r = b # c # d # r1" "utf8_second a b" "utf8_cont c" "utf8_cont d" "utf8_valid r1" "byte a \<le> 244"
        using assms False wide by (cases r; cases "tl r"; cases "tl (tl r)") (simp_all add: utf8_second_def split: if_splits)
      with wider False wide show thesis
        by (intro that(2) [of "[b, c, d]" r1]) (simp_all add: utf8_tail_len_def utf8_good_tail_def)
    qed
  qed
qed (use assms that(1) in simp)

lemma utf8_lossy_valid: "utf8_valid s \<Longrightarrow> utf8_lossy s = s"
proof (induction s rule: length_induct)
  case (1 s)
  show ?case
  proof (cases s)
    case (Cons a r)
    with 1(2) have "utf8_valid (a # r)" by simp
    then show ?thesis
    proof (cases rule: utf8_valid_split)
      case 1
      with "1.IH" Cons show ?thesis by (simp add: utf8_lossy.simps(2))
    next
      case (2 t r1)
      with "1.IH" Cons have "utf8_lossy r1 = r1" by simp
      with 2 Cons show ?thesis by (simp add: utf8_lossy.simps(2) Let_def)
    qed
  qed simp
qed

section \<open>Lexical confinement\<close>

text \<open>\<open>PathBuf\<close>: pushing a component and popping the last one.\<close>

definition path_pop :: "path_component list \<Rightarrow> path_component list" where
  "path_pop acc = (if acc = [] \<or> last acc = RootDir then acc else butlast acc)"

definition path_push :: "path_component list \<Rightarrow> path_component \<Rightarrow> path_component list" where
  "path_push acc c = (if c = RootDir then [RootDir] else acc @ [c])"

fun fold_component :: "path_component list \<Rightarrow> path_component \<Rightarrow> path_component list" where
  "fold_component acc ParentDir = path_pop acc"
| "fold_component acc CurDir = acc"
| "fold_component acc c = path_push acc c"

definition path_join :: "path_component list \<Rightarrow> string \<Rightarrow> path_component list" where
  "path_join base relative =
     (if path_is_absolute relative then path_components relative
      else base @ filter (\<lambda>c. c \<noteq> CurDir) (path_components relative))"

definition worktree_path :: "fs \<Rightarrow> string list \<Rightarrow> string \<Rightarrow> string \<Rightarrow> string \<Rightarrow> string + path_component list" where
  "worktree_path fs cwd io worktree relative =
     (if worktree = [] \<or> relative = [] then Err ''missing_worktree_or_path''
      else (case fs_canonicalize fs cwd (path_components worktree) of
        None \<Rightarrow> Err (''worktree_unavailable:'' @ io)
      | Some root \<Rightarrow>
          (let normalized = foldl fold_component [] (path_join (absolute_path root) relative) in
           if \<not> prefix (absolute_path root) normalized then Err ''path_outside_worktree'' else Ok normalized)))"

lemma path_components_plain: "RootDir \<in> set (path_components p) \<Longrightarrow> path_is_absolute p"
  by (auto simp: path_components_def path_is_absolute_def segment_component_def Let_def split: if_splits)

text \<open>The normal form: a rooted path without parent steps.\<close>

definition normal_path :: "path_component list \<Rightarrow> bool" where
  "normal_path p \<longleftrightarrow> (\<exists>names. p = absolute_path names)"

lemma fold_component_normal:
  "normal_path acc \<Longrightarrow> normal_path (foldl fold_component acc cs)"
proof (induction cs arbitrary: acc)
  case (Cons c cs)
  then obtain names where acc: "acc = absolute_path names" by (auto simp: normal_path_def)
  have "normal_path (fold_component acc c)"
  proof (cases c)
    case ParentDir
    then show ?thesis unfolding acc normal_path_def
      by (cases names rule: rev_cases) (auto simp: absolute_path_def path_pop_def intro: exI [of _ "[]"])
  next
    case (Normal n)
    then have "fold_component acc c = absolute_path (names @ [n])" by (simp add: acc absolute_path_def path_push_def)
    then show ?thesis by (auto simp: normal_path_def)
  next
    case RootDir
    then have "fold_component acc c = absolute_path []" by (simp add: absolute_path_def path_push_def)
    then show ?thesis by (auto simp: normal_path_def)
  qed (simp add: Cons.prems)
  then show ?case by (simp add: Cons.IH)
qed simp

text \<open>
  The path the run engine uses lies under the canonical worktree and has no parent step: the check
  is sound on names. It is only about names: a link below the worktree leads out of it.
\<close>

lemma worktree_path_confined:
  assumes "worktree_path fs cwd io worktree relative = Ok p"
  shows "\<exists>root names. fs_canonicalize fs cwd (path_components worktree) = Some root \<and> p = absolute_path (root @ names)"
proof -
  obtain root where root: "fs_canonicalize fs cwd (path_components worktree) = Some root"
      "p = foldl fold_component [] (path_join (absolute_path root) relative)" "prefix (absolute_path root) p"
    using assms by (auto simp: worktree_path_def Let_def split: if_splits option.splits)
  have "\<exists>cs. path_join (absolute_path root) relative = RootDir # cs"
    by (auto simp: path_join_def absolute_path_def path_is_absolute_def path_components_def Let_def)
  then obtain cs where "path_join (absolute_path root) relative = RootDir # cs" ..
  with root(2) have "p = foldl fold_component (absolute_path []) cs"
    by (simp add: path_push_def absolute_path_def)
  then have "normal_path p" using fold_component_normal [of "absolute_path []" cs] by (auto simp: normal_path_def)
  then obtain names where "p = absolute_path names" by (auto simp: normal_path_def)
  moreover from this root(3) have "prefix root names"
    by (auto simp: absolute_path_def prefix_def map_eq_append_conv inj_map_eq_map inj_on_def)
  ultimately show ?thesis using root(1) by (auto elim: prefixE)
qed

definition sample_linked_tree :: fs where
  "sample_linked_tree = foldl (\<lambda>m e. bt_insert (fst e) (snd e) m) []
    [([''wt''], FsDir), ([''etc''], FsDir), ([''etc'', ''hosts''], FsFile ''x''),
     ([''wt'', ''out''], FsLink [RootDir, Normal ''etc''])]"

lemma link_leaves_worktree:
  "(case worktree_path sample_linked_tree [] ''io'' ''/wt'' ''out/hosts'' of
      Err _ \<Rightarrow> None | Ok p \<Rightarrow> fs_open MAX_LINKS sample_linked_tree [] p) = Some [''etc'', ''hosts'']"
  by code_simp

end
