(* ===== verification/FakeBackend.thy ===== *)
theory FakeBackend
  imports SandboxPlatform HostFiles
begin

text \<open>
  The scripted in-memory backend (\<open>crates/sandbox/src/fake.rs\<close>). Its simulated writes and its hook
  change the host's files, so the file tree is part of its state; the shared operation sink is the
  list its config carries.
\<close>

datatype recorded_op =
    RecCreated string string
  | RecMounted string string
  | RecNetworkApplied string bool
  | RecExecuted string "string list" "string list"
  | RecKilled string
  | RecSnapshotted string
  | RecDestroyed string

record fake_config =
  fc_fail_create :: "sandbox_error option"
  fc_fail_exec :: "sandbox_error option"
  fc_unhealthy_detail :: "string option"
  fc_exec_results :: "exec_outcome list"
  fc_ops_sink :: "recorded_op list option"
  fc_simulate_writes :: "(string \<times> string) list"
  fc_exec_hook :: "(fs \<Rightarrow> fs) option"

definition fake_config_default :: fake_config where
  "fake_config_default = \<lparr>fc_fail_create = None, fc_fail_exec = None, fc_unhealthy_detail = None, fc_exec_results = [],
     fc_ops_sink = None, fc_simulate_writes = [], fc_exec_hook = None\<rparr>"

record fake_backend =
  fb_descriptor :: backend_descriptor
  fb_config :: fake_config
  fb_realms :: "(string, validated_plan) btree"
  fb_destroyed :: "string list"
  fb_operations :: "recorded_op list"
  fb_counter :: u64
  fb_files :: fs

definition fake_descriptor :: "platform \<Rightarrow> backend_descriptor" where
  "fake_descriptor platform =
     \<lparr>bd_backend_id = ''fake://deterministic'', bd_platform = platform, bd_spi_version = SPI_VERSION,
      bd_enforced = \<lparr>ec_filesystem = Some OverlayFs, ec_network = Some NetConfMediated, ec_environment_scrubbed = True,
        ec_lifecycle = \<lparr>lc_deadline_kill = True, lc_output_cap = True, lc_orphan_reap = True\<rparr>\<rparr>,
      bd_max_realm = S4EgressMediated, bd_isolation_self_tested = True, bd_production = False\<rparr>"

definition fake_new :: "platform \<Rightarrow> fake_config \<Rightarrow> fs \<Rightarrow> fake_backend" where
  "fake_new platform config files = \<lparr>fb_descriptor = fake_descriptor platform, fb_config = config, fb_realms = [],
     fb_destroyed = [], fb_operations = [], fb_counter = 0, fb_files = files\<rparr>"

fun is_executed :: "recorded_op \<Rightarrow> bool" where
  "is_executed (RecExecuted _ _ _) = True"
| "is_executed _ = False"

definition executed_any :: "fake_backend \<Rightarrow> bool" where
  "executed_any self \<longleftrightarrow> list_ex is_executed (fb_operations self)"

definition fake_next_id :: "string \<Rightarrow> fake_backend \<Rightarrow> string \<times> fake_backend" where
  "fake_next_id kind self =
     (let counter = fb_counter self + 1
      in (kind @ ''-'' @ pad_zeros 8 (show_dec (unat counter)), self\<lparr>fb_counter := counter\<rparr>))"

definition fake_record :: "recorded_op \<Rightarrow> fake_backend \<Rightarrow> fake_backend" where
  "fake_record op self = self\<lparr>fb_operations := fb_operations self @ [op],
     fb_config := (fb_config self)\<lparr>fc_ops_sink := map_option (\<lambda>sink. sink @ [op]) (fc_ops_sink (fb_config self))\<rparr>\<rparr>"

definition fake_health :: "fake_backend \<Rightarrow> health_report" where
  "fake_health self =
     (case fc_unhealthy_detail (fb_config self) of Some detail \<Rightarrow> unhealthy_report detail | None \<Rightarrow> healthy_report)"

definition fake_create :: "fake_backend \<Rightarrow> validated_plan \<Rightarrow> (sandbox_error + realm_handle) \<times> fake_backend" where
  "fake_create self plan =
     (case fc_fail_create (fb_config self) of
        Some e \<Rightarrow> (Err e, self)
      | None \<Rightarrow>
          (let (realm_id, self1) = fake_next_id ''realm'' self
           in (Ok \<lparr>rh_realm_id = realm_id, rh_plan_digest = vp_digest plan\<rparr>,
               fake_record (RecCreated realm_id (vp_digest plan)) (self1\<lparr>fb_realms := bt_insert realm_id plan (fb_realms self1)\<rparr>))))"

definition fake_plan_of :: "fake_backend \<Rightarrow> realm_handle \<Rightarrow> validated_plan option" where
  "fake_plan_of self handle =
     (case bt_get (fb_realms self) (rh_realm_id handle) of
        None \<Rightarrow> None
      | Some plan \<Rightarrow> if vp_digest plan = rh_plan_digest handle then Some plan else None)"

definition fake_mount :: "fake_backend \<Rightarrow> realm_handle \<Rightarrow> mount_spec \<Rightarrow> (sandbox_error + unit) \<times> fake_backend" where
  "fake_mount self handle mount =
     (case fake_plan_of self handle of
        None \<Rightarrow> (Err InvalidHandle, self)
      | Some plan \<Rightarrow>
          if mount \<notin> set (sp_mounts (vp_plan plan)) then (Err PlanViolation, self)
          else (Ok (), fake_record (RecMounted (rh_realm_id handle) (mo_target mount)) self))"

definition fake_network :: "fake_backend \<Rightarrow> realm_handle \<Rightarrow> network_spec \<Rightarrow> (sandbox_error + unit) \<times> fake_backend" where
  "fake_network self handle spec =
     (case fake_plan_of self handle of
        None \<Rightarrow> (Err InvalidHandle, self)
      | Some plan \<Rightarrow>
          if sp_network (vp_plan plan) \<noteq> spec then (Err PlanViolation, self)
          else (Ok (), fake_record (RecNetworkApplied (rh_realm_id handle) (spec \<noteq> NetworkDenied)) self))"

text \<open>The simulated writes of \<open>exec\<close>: a parent that cannot be made is ignored, a write that fails ends them.\<close>

fun simulate_writes :: "(string \<times> string) list \<Rightarrow> fs \<Rightarrow> (sandbox_error + unit) \<times> fs" where
  "simulate_writes [] fs = (Ok (), fs)"
| "simulate_writes ((target, content) # rest) fs =
     (let fs1 = snd (make_parent fs (path_components target)) in
      case fs_write fs1 (path_components target) content of
        None \<Rightarrow> (Err ExecFailed, fs1)
      | Some fs2 \<Rightarrow> simulate_writes rest fs2)"

definition default_outcome :: exec_outcome where
  "default_outcome = \<lparr>xo_exit_code = Some 0, xo_stdout = [], xo_stderr = [], xo_duration_ms = 0, xo_truncated = False,
     xo_killed = False\<rparr>"

definition fake_pop_result :: "fake_backend \<Rightarrow> exec_outcome \<times> fake_backend" where
  "fake_pop_result self =
     (case fc_exec_results (fb_config self) of
        [] \<Rightarrow> (default_outcome, self)
      | out # rest \<Rightarrow> (out, self\<lparr>fb_config := (fb_config self)\<lparr>fc_exec_results := rest\<rparr>\<rparr>))"

definition fake_exec ::
  "fake_backend \<Rightarrow> realm_handle \<Rightarrow> command_spec \<Rightarrow> injected \<Rightarrow> (sandbox_error + exec_outcome) \<times> fake_backend" where
  "fake_exec self handle command given =
     (case fake_plan_of self handle of
        None \<Rightarrow> (Err InvalidHandle, self)
      | Some plan \<Rightarrow>
          if sp_command (vp_plan plan) \<noteq> Some command then (Err PlanViolation, self)
          else (case build_environment (sp_env (vp_plan plan)) (sp_mounts (vp_plan plan)) given of
             Err _ \<Rightarrow> (Err PlanViolation, self)
           | Ok environment \<Rightarrow>
               (case fc_fail_exec (fb_config self) of
                  Some e \<Rightarrow> (Err e, self)
                | None \<Rightarrow>
                    (case simulate_writes (fc_simulate_writes (fb_config self)) (fb_files self) of
                       (Err e, fs1) \<Rightarrow> (Err e, self\<lparr>fb_files := fs1\<rparr>)
                     | (Ok _, fs1) \<Rightarrow>
                         (let hooked = (case fc_exec_hook (fb_config self) of None \<Rightarrow> fs1 | Some hook \<Rightarrow> hook fs1);
                              (outcome, self1) = fake_pop_result (self\<lparr>fb_files := hooked\<rparr>)
                          in (Ok outcome, fake_record (RecExecuted (rh_realm_id handle) (co_argv command) (bt_keys environment)) self1))))))"

definition fake_kill :: "fake_backend \<Rightarrow> realm_handle \<Rightarrow> (sandbox_error + unit) \<times> fake_backend" where
  "fake_kill self handle =
     (case fake_plan_of self handle of
        None \<Rightarrow> (Err InvalidHandle, self)
      | Some _ \<Rightarrow> (Ok (), fake_record (RecKilled (rh_realm_id handle)) self))"

definition fake_snapshot ::
  "(string \<Rightarrow> string) \<Rightarrow> fake_backend \<Rightarrow> realm_handle \<Rightarrow> (sandbox_error + snapshot_record) \<times> fake_backend" where
  "fake_snapshot H self handle =
     (case fake_plan_of self handle of
        None \<Rightarrow> (Err InvalidHandle, self)
      | Some plan \<Rightarrow>
          (Ok \<lparr>sn_snapshot_id = ''sha256:'' @ hex_upper (H (rh_realm_id handle @ vp_digest plan)), sn_realm_id = rh_realm_id handle\<rparr>,
           fake_record (RecSnapshotted (rh_realm_id handle)) self))"

definition fake_destroy :: "fake_backend \<Rightarrow> realm_handle \<Rightarrow> (sandbox_error + destroy_report) \<times> fake_backend" where
  "fake_destroy self handle =
     (if bt_get (fb_realms self) (rh_realm_id handle) = None then (Err InvalidHandle, self)
      else (Ok \<lparr>dr_realm_id = rh_realm_id handle, dr_killed_processes = 0\<rparr>,
            fake_record (RecDestroyed (rh_realm_id handle))
              (self\<lparr>fb_realms := bt_remove (rh_realm_id handle) (fb_realms self),
                    fb_destroyed := fb_destroyed self @ [rh_realm_id handle]\<rparr>)))"

definition fake_ops :: "(string \<Rightarrow> string) \<Rightarrow> fake_backend backend_ops" where
  "fake_ops H =
     \<lparr>bo_descriptor = fb_descriptor, bo_health = (\<lambda>b. (fake_health b, b)), bo_create = fake_create, bo_mount = fake_mount,
      bo_network = fake_network, bo_exec = fake_exec, bo_kill = fake_kill, bo_snapshot = fake_snapshot H, bo_destroy = fake_destroy\<rparr>"

section \<open>The backend contract\<close>

lemma fake_record_realms [simp]: "fb_realms (fake_record op b) = fb_realms b"
  by (simp add: fake_record_def)

lemma fake_record_plan [simp]: "fake_plan_of (fake_record op b) h = fake_plan_of b h"
  by (simp add: fake_plan_of_def)

lemma fake_pop_realms: "fake_pop_result b = (out, b') \<Longrightarrow> fb_realms b' = fb_realms b"
  by (auto simp: fake_pop_result_def split: list.splits)

lemma fake_plan_realms: "fb_realms b = fb_realms b' \<Longrightarrow> fake_plan_of b h = fake_plan_of b' h"
  by (simp add: fake_plan_of_def)

lemma fake_exec_realms: "fb_realms (snd (fake_exec b h c given)) = fb_realms b"
  by (auto simp: fake_exec_def Let_def dest: fake_pop_realms split: option.splits sum.splits prod.splits)

lemma fake_create_opens:
  assumes "fake_create b plan = (Ok h, b')"
  shows "fake_plan_of b' h = Some plan"
proof -
  obtain realm_id b1 where id: "fake_next_id ''realm'' b = (realm_id, b1)" by force
  have "h = \<lparr>rh_realm_id = realm_id, rh_plan_digest = vp_digest plan\<rparr>"
    and "b' = fake_record (RecCreated realm_id (vp_digest plan)) (b1\<lparr>fb_realms := bt_insert realm_id plan (fb_realms b1)\<rparr>)"
    using assms by (simp_all add: fake_create_def id split: option.splits)
  then show ?thesis by (simp add: fake_plan_of_def bt_get_insert)
qed

interpretation fake: realm_backend "fake_ops H" fake_plan_of for H
proof unfold_locales
  fix b :: fake_backend
  show "bo_create (fake_ops H) b plan = (Ok h, b') \<Longrightarrow> fake_plan_of b' h = Some plan" for plan h b'
    by (simp add: fake_ops_def) (rule fake_create_opens)
  show "bo_mount (fake_ops H) b h m = (Ok u, b') \<Longrightarrow> \<exists>plan. fake_plan_of b h = Some plan \<and> m \<in> set (sp_mounts (vp_plan plan))" for h m u b'
    by (auto simp: fake_ops_def fake_mount_def split: option.splits if_splits)
  show "bo_network (fake_ops H) b h n = (Ok u, b') \<Longrightarrow> \<exists>plan. fake_plan_of b h = Some plan \<and> sp_network (vp_plan plan) = n" for h n u b'
    by (auto simp: fake_ops_def fake_network_def split: option.splits if_splits)
  show "bo_exec (fake_ops H) b h c given = (Ok out, b') \<Longrightarrow> \<exists>plan env. fake_plan_of b h = Some plan \<and> sp_command (vp_plan plan) = Some c
      \<and> build_environment (sp_env (vp_plan plan)) (sp_mounts (vp_plan plan)) given = Ok env" for h c given out b'
    by (auto simp: fake_ops_def fake_exec_def split: option.splits if_splits sum.splits)
  show "fake_plan_of (snd (bo_mount (fake_ops H) b h m)) h' = fake_plan_of b h'" for h m h'
    by (auto simp: fake_ops_def fake_mount_def split: option.splits)
  show "fake_plan_of (snd (bo_network (fake_ops H) b h n)) h' = fake_plan_of b h'" for h n h'
    by (auto simp: fake_ops_def fake_network_def split: option.splits)
  show "fake_plan_of (snd (bo_exec (fake_ops H) b h c given)) h' = fake_plan_of b h'" for h c given h'
    by (rule fake_plan_realms) (simp add: fake_ops_def fake_exec_realms)
qed (auto simp: fake_ops_def fake_destroy_def fake_plan_of_def bt_get_remove split: option.splits)

text \<open>Never selected in production: only a registry built for testing admits it.\<close>

lemma fake_never_in_production:
  assumes "\<forall>b \<in> set bs. fb_descriptor b = fake_descriptor platform"
  shows "fst (select_loop (fake_ops H) False plan i bs) = Err BackendUnavailable"
  using assms
proof (induction bs arbitrary: i)
  case (Cons b bs)
  obtain r bs' where r: "select_loop (fake_ops H) False plan (Suc i) bs = (r, bs')" by force
  with Cons.IH [of "Suc i"] Cons.prems have "r = Err BackendUnavailable" by simp
  with r Cons.prems show ?case by (simp add: fake_ops_def admissible_def fake_descriptor_def Let_def)
qed simp

text \<open>A failing creation never reaches execution.\<close>

lemma fake_create_failing: "fc_fail_create (fb_config b) = Some e \<Longrightarrow> fake_create b plan = (Err e, b)"
  by (simp add: fake_create_def)

end
