(* ===== verification/AuditedRun.thy ===== *)
theory AuditedRun
  imports EffectBroker StoreEffects FakeBackend
begin

text \<open>
  One audited command (\<open>crates/saber-core/src/lib.rs\<close>): the run is created in the encrypted store,
  the policy decides, the operator's one-shot grant is presented, and only then the command runs in a
  sandbox realm between its durable intent and its durable result. The audit sink and the effect share
  one store, so the enforcement point is written here over a state both of them change. The host is the
  file tree (it holds the key file), the database file of the store directory with the key its pages
  are encrypted under, and the registry of backends. Clock, random source and JSON are parameters.
\<close>

section \<open>Data\<close>

record command_env =
  ce_store :: store_env
  ce_bundles :: "policy_bundle list \<Rightarrow> string option"
  ce_plan :: "sandbox_plan \<Rightarrow> string option"
  ce_cwd :: "string list"
  ce_clock :: u64
  ce_random :: "string option"

record 'b core_host =
  ch_files :: fs
  ch_database :: "(string \<times> event_store) option"
  ch_registry :: "'b backend_registry"

datatype run_error = InvalidProgram string | RunStore store_error | RunPolicy string

datatype run_outcome =
    RunExecuted "int option" string string u64
  | RunDenied string string
  | RunEffectFailed string

record run_report =
  rp_run_id :: string
  rp_outcome :: run_outcome
  rp_decision_id :: string
  rp_hash_chain_verified :: bool
  rp_events :: nat
  rp_store_path :: string

record run_options =
  ro_workspace_id :: string
  ro_task_id :: string
  ro_program :: string
  ro_arguments :: "string list"
  ro_allowed_programs :: "string list"
  ro_approved :: bool
  ro_now_ms :: "u64 option"
  ro_stdin :: "string option"

definition run_options_default :: run_options where
  "run_options_default = \<lparr>ro_workspace_id = ''ws_local'', ro_task_id = ''task_local'', ro_program = [], ro_arguments = [],
     ro_allowed_programs = [], ro_approved = False, ro_now_ms = None, ro_stdin = None\<rparr>"

definition EXIT_DENIED :: int where "EXIT_DENIED = 2"
definition EXIT_EFFECT_FAILED :: int where "EXIT_EFFECT_FAILED = 3"

definition exit_code :: "run_report \<Rightarrow> int" where
  "exit_code self =
     (case rp_outcome self of
        RunExecuted (Some code) _ _ _ \<Rightarrow> code
      | RunExecuted None _ _ _ \<Rightarrow> 1
      | RunDenied _ _ \<Rightarrow> EXIT_DENIED
      | RunEffectFailed _ \<Rightarrow> EXIT_EFFECT_FAILED)"

fun policy_error_str :: "policy_error \<Rightarrow> string" where
  "policy_error_str UnknownAction = ''unknown_action''"
| "policy_error_str InvalidResource = ''invalid_resource''"
| "policy_error_str ResourceSchemeMismatch = ''resource_scheme_mismatch''"
| "policy_error_str InvalidRequest = ''invalid_request''"
| "policy_error_str InvalidPolicy = ''invalid_policy''"
| "policy_error_str Serialization = ''serialization_error''"
| "policy_error_str InvalidApproval = ''invalid_approval''"
| "policy_error_str ApprovalScopeTooBroad = ''approval_scope_too_broad''"
| "policy_error_str VagueApproval = ''vague_approval''"
| "policy_error_str ApprovalExpired = ''approval_expired''"
| "policy_error_str ApprovalRevoked = ''approval_revoked''"
| "policy_error_str ApprovalReplayed = ''approval_replayed''"
| "policy_error_str ApprovalBindingMismatch = ''approval_binding_mismatch''"

fun run_error_str :: "run_error \<Rightarrow> string" where
  "run_error_str (InvalidProgram detail) = ''invalid_program: '' @ detail"
| "run_error_str (RunStore e) = ''store: '' @ store_error_str e"
| "run_error_str (RunPolicy detail) = ''policy: '' @ detail"

definition of_policy :: "policy_error + 'a \<Rightarrow> run_error + 'a" where
  "of_policy r = map_sum (\<lambda>e. RunPolicy (policy_error_str e)) id r"

definition from_sandbox :: "sandbox_error \<Rightarrow> run_error" where
  "from_sandbox e = RunPolicy (''sandbox: '' @ sandbox_error_str e)"

definition unix_ms :: "command_env \<Rightarrow> u64 option \<Rightarrow> u64" where
  "unix_ms V override_ms = (case override_ms of Some now \<Rightarrow> now | None \<Rightarrow> ce_clock V)"

section \<open>The key file and the store\<close>

definition key_path :: "command_env \<Rightarrow> string \<Rightarrow> path_component list" where
  "key_path V store_dir = HostFiles.path_join (HostFiles.path_join (absolute_path (ce_cwd V)) store_dir) ''key-v1''"

definition load_or_create_key :: "command_env \<Rightarrow> string \<Rightarrow> fs \<Rightarrow> (store_error + string) \<times> fs" where
  "load_or_create_key V store_dir files =
     (let create =
        (case ce_random V of
           None \<Rightarrow> (Err KeyCustodyError, files)
         | Some key \<Rightarrow>
             (case fs_write files (key_path V store_dir) key of
                None \<Rightarrow> (Err KeyCustodyError, files)
              | Some files' \<Rightarrow> (Ok key, files')))
      in case fs_read files (key_path V store_dir) of
           Some bytes \<Rightarrow> if length bytes = 32 then (Ok bytes, files) else create
         | None \<Rightarrow> create)"

text \<open>
  Opening: a missing database is created under the key, an existing one opens only under the key of its
  pages, and its chain has to verify. The workspace is that of the caller.
\<close>

definition open_database ::
  "store_env \<Rightarrow> string \<Rightarrow> string \<Rightarrow> (string \<times> event_store) option \<Rightarrow> store_error + event_store" where
  "open_database E workspace_id key database =
     (case database of
        None \<Rightarrow> Ok (fresh_store workspace_id)
      | Some (file_key, s) \<Rightarrow>
          if key \<noteq> file_key then Err DatabaseError
          else (case verify_hash_chain (env_hash E) (es_events s) of
             Err e \<Rightarrow> Err e
           | Ok _ \<Rightarrow> Ok (s\<lparr>es_workspace_id := workspace_id\<rparr>)))"

definition numbered :: "string \<Rightarrow> nat \<Rightarrow> string" where
  "numbered name sequence = name @ show_dec sequence"

definition run_name :: "nat \<Rightarrow> string" where
  "run_name sequence = ''run_'' @ pad_zeros 4 (show_dec sequence)"

text \<open>\<open>open_run_store\<close>: the key, the store and the number of the run; the host keeps what was written.\<close>

definition open_run_store ::
  "command_env \<Rightarrow> string \<Rightarrow> run_options \<Rightarrow> u64 \<Rightarrow> 'b core_host
   \<Rightarrow> (run_error + (string \<times> event_store \<times> string \<times> nat)) \<times> 'b core_host" where
  "open_run_store V store_dir options now host =
     (case fs_mkdirs (ch_files host) [] (HostFiles.path_join (absolute_path (ce_cwd V)) store_dir) of
        (False, files) \<Rightarrow> (Err (RunStore KeyCustodyError), host\<lparr>ch_files := files\<rparr>)
      | (True, files) \<Rightarrow>
        (case load_or_create_key V store_dir files of
           (Err e, files1) \<Rightarrow> (Err (RunStore e), host\<lparr>ch_files := files1\<rparr>)
         | (Ok key, files1) \<Rightarrow>
           (let host1 = host\<lparr>ch_files := files1\<rparr> in
            case open_database (ce_store V) (ro_workspace_id options) key (ch_database host) of
              Err e \<Rightarrow> (Err (RunStore e), host1)
            | Ok s \<Rightarrow>
              (let sequence = run_count s + 1; run_id = run_name sequence in
               case create_run (ce_store V) s (numbered ''event_run_'' sequence) (ro_workspace_id options) run_id
                      (ro_task_id options) now (numbered ''run-idem-'' sequence) of
                 (Err e, s1) \<Rightarrow> (Err (RunStore e), host1\<lparr>ch_database := Some (key, s1)\<rparr>)
               | (Ok _, s1) \<Rightarrow> (Ok (key, s1, run_id, sequence), host1\<lparr>ch_database := Some (key, s1)\<rparr>)))))"

section \<open>Program, policy and grant\<close>

definition program_location :: "command_env \<Rightarrow> fs \<Rightarrow> run_options \<Rightarrow> run_error + (string list \<times> string)" where
  "program_location V files options =
     (let invalid = Err (InvalidProgram (utf8_lossy (ro_program options))) in
      if ro_program options = [] then invalid
      else case fs_canonicalize files (ce_cwd V) (path_components (ro_program options)) of
        None \<Rightarrow> invalid
      | Some canonical \<Rightarrow>
          if canonical = [] \<or> \<not> utf8_valid (last canonical) then invalid
          else Ok (butlast canonical, last canonical))"

definition process_resource :: "string \<Rightarrow> string" where
  "process_resource program = ''process://'' @ program"

definition sandbox_condition :: policy_condition where
  "sandbox_condition = \<lparr>pc_principal_kinds = {}, pc_require_sandbox = True, pc_maximum_data_class = None, pc_task_id = None\<rparr>"

fun operator_rules :: "string list \<Rightarrow> run_error + policy_rule list" where
  "operator_rules [] = Ok []"
| "operator_rules (program # programs) =
     (case of_policy (pattern_exact ProcessSpawn (process_resource program)) of
        Err e \<Rightarrow> Err e
      | Ok selector \<Rightarrow>
          (case operator_rules programs of
             Err e \<Rightarrow> Err e
           | Ok rules \<Rightarrow> Ok (\<lparr>ru_rule_id = ''operator-permit-process-'' @ program, ru_effect = Permit, ru_action = ProcessSpawn,
               ru_resource = selector, ru_condition = sandbox_condition, ru_requires_approval = False\<rparr> # rules)))"

definition operator_bundle :: "string list \<Rightarrow> run_error + policy_bundle" where
  "operator_bundle allowed_programs =
     (case operator_rules allowed_programs of
        Err e \<Rightarrow> Err e
      | Ok rules \<Rightarrow> of_policy (bundle_new User ''operator-cli'' 1 rules))"

definition run_engine ::
  "command_env \<Rightarrow> string list \<Rightarrow> run_error + policy_engine" where
  "run_engine V allowed_programs =
     (case of_policy (bundle_new PlatformHard ''platform-v1'' 1 []) of
        Err e \<Rightarrow> Err e
      | Ok platform \<Rightarrow>
          (case operator_bundle allowed_programs of
             Err e \<Rightarrow> Err e
           | Ok operator \<Rightarrow> of_policy (engine_new (env_hash (ce_store V)) (ce_bundles V) [platform, operator])))"

definition run_request ::
  "command_env \<Rightarrow> run_options \<Rightarrow> string \<Rightarrow> string \<Rightarrow> u64 \<Rightarrow> run_error + capability_request" where
  "run_request V options program_name run_id now =
     (case of_policy (resource_new ProcessSpawn (process_resource program_name)) of
        Err e \<Rightarrow> Err e
      | Ok res \<Rightarrow>
          of_policy (request_new (''req-'' @ run_id)
            \<lparr>pr_id = ''saber-core'', pr_kind = AgentRuntime, pr_on_behalf_of = Some ''operator''\<rparr>
            (ro_workspace_id options) (ro_task_id options) ProcessSpawn res
            (sha256_label (env_hash (ce_store V)) (program_name # ro_arguments options)) None True Internal now))"

definition operator_grant ::
  "command_env \<Rightarrow> run_options \<Rightarrow> capability_request \<Rightarrow> string \<Rightarrow> string \<Rightarrow> u64 \<Rightarrow> run_error + approval_grant option" where
  "operator_grant V options request program_name run_id now =
     (if \<not> ro_approved options then Ok None
      else case of_policy (pattern_exact ProcessSpawn (process_resource program_name)) of
        Err e \<Rightarrow> Err e
      | Ok selector \<Rightarrow>
          (case of_policy (approval_request_new (''approval-'' @ run_id) request selector
                  ''operator approved this exact sandboxed command'' [''run a narrower command''] Once (now + 300000)) of
             Err e \<Rightarrow> Err e
           | Ok approval \<Rightarrow>
               (case of_policy (approve (env_hash (ce_store V)) approval (''grant-'' @ run_id) ''operator'' selector (now + 300000)) of
                  Err e \<Rightarrow> Err e
                | Ok grant \<Rightarrow> Ok (Some grant))))"

section \<open>The sandboxed effect\<close>

text \<open>\<open>Path::parent\<close> on the text: trailing separators and dots dropped, then the last component.\<close>

fun trim_rev :: "string \<Rightarrow> string" where
  "trim_rev [] = []"
| "trim_rev (c # cs) =
     (if c = CHR ''/'' \<and> cs \<noteq> [] then trim_rev cs
      else if c = CHR ''.'' \<and> cs \<noteq> [] \<and> hd cs = CHR ''/'' then trim_rev cs
      else c # cs)"

definition path_parent :: "string \<Rightarrow> string option" where
  "path_parent p =
     (let r = trim_rev (rev p) in
      if r = [] \<or> r = ''/'' then None else Some (rev (trim_rev (dropWhile (\<lambda>c. c \<noteq> CHR ''/'') r))))"

definition build_plan :: "run_options \<Rightarrow> string \<Rightarrow> string \<Rightarrow> sandbox_plan" where
  "build_plan options program_dir entry =
     \<lparr>sp_version = 1, sp_workspace_id = ro_workspace_id options, sp_realm = S2IsolatedReadOnly,
      sp_mounts = [\<lparr>mo_target = ''tools'', mo_source = SystemTools program_dir, mo_writable = False, mo_executable = True\<rparr>],
      sp_env = \<lparr>es_allow = [], es_lease_channels = []\<rparr>, sp_budget = default_budget, sp_network = NetworkDenied,
      sp_command = Some \<lparr>co_argv = (''/tools/'' @ entry) # ro_arguments options, co_cwd = ''/tools'',
                        co_stdin = ro_stdin options\<rparr>\<rparr>"

definition exec_in_backend ::
  "'b backend_ops \<Rightarrow> validated_plan \<Rightarrow> 'b \<Rightarrow> (sandbox_error + exec_outcome) \<times> 'b" where
  "exec_in_backend ops validated b =
     (case bo_create ops b validated of
        (Err e, b1) \<Rightarrow> (Err e, b1)
      | (Ok h, b1) \<Rightarrow>
        (case mount_each ops h (sp_mounts (vp_plan validated)) b1 of
           (Err e, b2) \<Rightarrow> (Err e, b2)
         | (Ok _, b2) \<Rightarrow>
           (case bo_network ops b2 h (sp_network (vp_plan validated)) of
              (Err e, b3) \<Rightarrow> (Err e, b3)
            | (Ok _, b3) \<Rightarrow>
              (case sp_command (vp_plan validated) of
                 None \<Rightarrow> (Err PlanViolation, b3)
               | Some command \<Rightarrow>
                   (let (outcome, b4) = bo_exec ops b3 h command []; (destroyed, b5) = bo_destroy ops b4 h in
                    (case outcome of
                       Err e \<Rightarrow> (Err e, b5)
                     | Ok out \<Rightarrow> (case destroyed of Err e \<Rightarrow> (Err e, b5) | Ok _ \<Rightarrow> (Ok out, b5))))))))"

definition exec_in_registry ::
  "command_env \<Rightarrow> 'b backend_ops \<Rightarrow> sandbox_plan \<Rightarrow> 'b backend_registry \<Rightarrow> (sandbox_error + exec_outcome) \<times> 'b backend_registry" where
  "exec_in_registry V ops plan registry =
     (case plan_validate (env_hash (ce_store V)) (ce_plan V) plan of
        Err _ \<Rightarrow> (Err PlanViolation, registry)
      | Ok validated \<Rightarrow>
        (case select_for ops registry validated of
           (Err e, registry1) \<Rightarrow> (Err e, registry1)
         | (Ok selection, registry1) \<Rightarrow>
           (case backend_mut registry1 (se_index selection) of
              Err e \<Rightarrow> (Err e, registry1)
            | Ok b \<Rightarrow>
                (let (outcome, b') = exec_in_backend ops validated b
                 in (outcome, put_backend (se_index selection) b' registry1)))))"

definition run_intent :: "run_options \<Rightarrow> string \<Rightarrow> u64 \<Rightarrow> nat \<Rightarrow> effect_intent" where
  "run_intent options program now sequence =
     \<lparr>ei_event_id = numbered ''event_intent_'' sequence, ei_workspace_id = ro_workspace_id options,
      ei_intent_id = numbered ''intent_'' sequence, ei_effect_kind = ''process.spawn'',
      ei_payload = JObj [(''arguments'', JArr (map JStr (ro_arguments options))), (''program'', JStr program)],
      ei_occurred_at_ms = now, ei_idempotency_key = numbered ''intent-idem-'' sequence\<rparr>"

definition run_result :: "run_options \<Rightarrow> exec_outcome \<Rightarrow> u64 \<Rightarrow> nat \<Rightarrow> effect_result" where
  "run_result options out now sequence =
     \<lparr>eb_event_id = numbered ''event_result_'' sequence, eb_workspace_id = ro_workspace_id options,
      eb_intent_id = numbered ''intent_'' sequence,
      eb_result = JObj [(''duration_ms'', JNum (uint (xo_duration_ms out))),
         (''exit_code'', case xo_exit_code out of None \<Rightarrow> JNull | Some code \<Rightarrow> JNum code),
         (''stderr_bytes'', JNum (int (length (xo_stderr out)))), (''stdout_bytes'', JNum (int (length (xo_stdout out))))],
      eb_disposition = DispCompleted, eb_occurred_at_ms = now, eb_idempotency_key = numbered ''result-idem-'' sequence\<rparr>"

definition sandboxed_effect ::
  "command_env \<Rightarrow> 'b backend_ops \<Rightarrow> run_options \<Rightarrow> string \<Rightarrow> u64 \<Rightarrow> nat \<Rightarrow> event_store \<times> 'b backend_registry
   \<Rightarrow> (event_store \<times> 'b backend_registry) \<times> (run_error + exec_outcome)" where
  "sandboxed_effect V ops options program now sequence =
     (let program_dir = (case path_parent (ro_program options) of None \<Rightarrow> [] | Some d \<Rightarrow> d);
          plan = build_plan options program_dir program
      in (\<lambda>(s, registry).
         case record_effect_intent (ce_store V) s (run_intent options program now sequence) of
           (Err e, s1) \<Rightarrow> ((s1, registry), Err (RunStore e))
         | (Ok _, s1) \<Rightarrow>
           (case exec_in_registry V ops plan registry of
              (Err e, registry1) \<Rightarrow> ((s1, registry1), Err (from_sandbox e))
            | (Ok out, registry1) \<Rightarrow>
              (case record_effect_result (ce_store V) s1 (run_result options out now sequence) of
                 (Err e, s2) \<Rightarrow> ((s2, registry1), Err (RunStore e))
               | (Ok _, s2) \<Rightarrow> ((s2, registry1), Ok out)))))"

section \<open>Enforcement over a shared store\<close>

text \<open>\<open>PolicyEnforcer::execute\<close> when the effect changes the state the sink writes to.\<close>

definition shared_decided ::
  "(string \<Rightarrow> string) \<Rightarrow> ('s, 'ae) record_decision_op \<Rightarrow> ('s, 'ae) record_enforcement_op
   \<Rightarrow> 's policy_enforcer \<Rightarrow> capability_request \<Rightarrow> approval_grant option \<Rightarrow> u64
   \<Rightarrow> ('s \<times> 'w \<Rightarrow> ('s \<times> 'w) \<times> ('ee + 'v)) \<Rightarrow> 'w \<Rightarrow> bool \<Rightarrow> policy_decision
   \<Rightarrow> 's policy_enforcer \<times> 'w \<times> (('ae, 'ee) enforcement_error + 'v)" where
  "shared_decided H rd re en r appr now eff w approval_valid d =
     (case persist H rd en d r of
        (en1, Err a) \<Rightarrow> (en1, w, Err (AuditBefore a))
      | (en1, Ok _) \<Rightarrow>
        if pd_outcome d \<noteq> OutcomeAllow then (en1, w, Err (DecisionError d))
        else
          let en2 = (case appr of
                       Some g \<Rightarrow> if approval_valid
                                 then en1\<lparr>en_approvals := ledger_consume (en_approvals en1) g\<rparr> else en1
                     | None \<Rightarrow> en1)
          in (case eff (en_sink en2, w) of
                ((s1, w1), Ok v) \<Rightarrow>
                  (case re s1 (pd_decision_id d) now Succeeded of
                     (s, Err a) \<Rightarrow> (en2\<lparr>en_sink := s\<rparr>, w1, Err (AuditAfter a))
                   | (s, Ok _) \<Rightarrow> (en2\<lparr>en_sink := s\<rparr>, w1, Ok v))
              | ((s1, w1), Err e) \<Rightarrow>
                  (case re s1 (pd_decision_id d) now Failed of
                     (s, Err a) \<Rightarrow> (en2\<lparr>en_sink := s\<rparr>, w1, Err (AuditAfter a))
                   | (s, Ok _) \<Rightarrow> (en2\<lparr>en_sink := s\<rparr>, w1, Err (EffectError e)))))"

definition shared_execute ::
  "(string \<Rightarrow> string) \<Rightarrow> ('s, 'ae) record_decision_op \<Rightarrow> ('s, 'ae) record_enforcement_op
   \<Rightarrow> 's policy_enforcer \<Rightarrow> capability_request \<Rightarrow> approval_grant option \<Rightarrow> u64
   \<Rightarrow> ('s \<times> 'w \<Rightarrow> ('s \<times> 'w) \<times> ('ee + 'v)) \<Rightarrow> 'w
   \<Rightarrow> 's policy_enforcer \<times> 'w \<times> (('ae, 'ee) enforcement_error + 'v)" where
  "shared_execute H rd re en r appr now eff w =
     (let preliminary = decide H (en_engine en) r False in
      if pd_outcome preliminary = OutcomeRequireApproval
      then (case appr of
              None \<Rightarrow>
                (case persist H rd en preliminary r of
                   (en1, Err a) \<Rightarrow> (en1, w, Err (AuditBefore a))
                 | (en1, Ok _) \<Rightarrow> (en1, w, Err (DecisionError preliminary)))
            | Some g \<Rightarrow>
                (case ledger_validate H (en_approvals en) g r now of
                   Err e \<Rightarrow>
                     (let denied = make_decision H (en_engine en) r OutcomeDeny ApprovalInvalid
                                     (pd_matched_rule_ids preliminary)
                      in case persist H rd en denied r of
                           (en1, Err a) \<Rightarrow> (en1, w, Err (AuditBefore a))
                         | (en1, Ok _) \<Rightarrow> (en1, w, Err (ApprovalError e)))
                 | Ok _ \<Rightarrow>
                     shared_decided H rd re en r appr now eff w True (decide H (en_engine en) r True)))
      else shared_decided H rd re en r appr now eff w False preliminary)"

text \<open>With an effect that leaves the sink alone this is \<open>execute\<close>.\<close>

lemma shared_execute_agrees:
  "shared_execute H rd re en r appr now (\<lambda>(s, w). ((s, fst (eff w)), snd (eff w))) w = execute H rd re en r appr now eff w"
  by (auto simp: shared_execute_def execute_def shared_decided_def execute_decided_def Let_def
      split: prod.splits sum.splits option.splits)

section \<open>A run\<close>

definition denial_of :: "policy_decision \<Rightarrow> run_outcome" where
  "denial_of decision =
     RunDenied (if pd_outcome decision = OutcomeRequireApproval then ''require_approval'' else ''deny'')
       (reason_as_str (pd_reason decision))"

definition conclude_enforcement ::
  "(store_error, run_error) enforcement_error + exec_outcome \<Rightarrow> run_error + (run_outcome \<times> string)" where
  "conclude_enforcement enforcement =
     (case enforcement of
        Ok out \<Rightarrow> Ok (RunExecuted (xo_exit_code out) (xo_stdout out) (xo_stderr out) (xo_duration_ms out), [])
      | Err (DecisionError decision) \<Rightarrow> Ok (denial_of decision, pd_decision_id decision)
      | Err (ApprovalError _) \<Rightarrow> Ok (RunDenied ''deny'' ''approval_invalid'', [])
      | Err (AuditBefore e) \<Rightarrow> Err (RunStore e)
      | Err (AuditAfter e) \<Rightarrow> Err (RunStore e)
      | Err (EffectError e) \<Rightarrow> Ok (RunEffectFailed (run_error_str e), []))"

definition run_in_store ::
  "command_env \<Rightarrow> 'b backend_ops \<Rightarrow> string \<Rightarrow> run_options \<Rightarrow> string \<Rightarrow> u64 \<Rightarrow> string \<Rightarrow> event_store \<Rightarrow> string \<Rightarrow> nat
   \<Rightarrow> 'b core_host \<Rightarrow> (run_error + run_report) \<times> 'b core_host" where
  "run_in_store V ops store_dir options program_name now key s run_id sequence host =
     (case run_request V options program_name run_id now of Err e \<Rightarrow> (Err e, host) | Ok request \<Rightarrow>
      case run_engine V (ro_allowed_programs options) of Err e \<Rightarrow> (Err e, host) | Ok engine \<Rightarrow>
      case operator_grant V options request program_name run_id now of Err e \<Rightarrow> (Err e, host) | Ok grant \<Rightarrow>
        (let E = ce_store V;
             (en, registry, enforcement) =
               shared_execute (env_hash E) (store_record_decision E) (store_record_enforcement E)
                 (enforcer_new engine s) request grant now
                 (sandboxed_effect V ops options program_name now sequence) (ch_registry host);
             s' = en_sink en;
             host' = host\<lparr>ch_database := Some (key, s'), ch_registry := registry\<rparr>
         in case conclude_enforcement enforcement of
              Err e \<Rightarrow> (Err e, host')
            | Ok (outcome, decision_id) \<Rightarrow>
                (Ok \<lparr>rp_run_id = run_id, rp_outcome = outcome, rp_decision_id = decision_id,
                     rp_hash_chain_verified = (verify_hash_chain (env_hash E) (es_events s') = Ok ()),
                     rp_events = event_count s', rp_store_path = SandboxBackends.path_join store_dir ''facts.db''\<rparr>, host')))"

definition execute_run ::
  "command_env \<Rightarrow> 'b backend_ops \<Rightarrow> string \<Rightarrow> run_options \<Rightarrow> 'b core_host \<Rightarrow> (run_error + run_report) \<times> 'b core_host" where
  "execute_run V ops store_dir options host =
     (case program_location V (ch_files host) options of
        Err e \<Rightarrow> (Err e, host)
      | Ok (_, entry) \<Rightarrow>
        (let now = unix_ms V (ro_now_ms options) in
         case open_run_store V store_dir options now host of
           (Err e, host1) \<Rightarrow> (Err e, host1)
         | (Ok (key, s, run_id, sequence), host1) \<Rightarrow>
             run_in_store V ops store_dir options entry now key s run_id sequence host1))"

section \<open>What enforcement over a shared store does\<close>

lemma shared_decided_cases:
  assumes "shared_decided H rd re en r appr now eff w av d = (en', w', res)"
  obtains (unrecorded) a where "w' = w" "en_sink en' = fst (rd (en_sink en) (audit_from_decision H d r))" "res = Err (AuditBefore a)"
  | (refused) "w' = w" "en_sink en' = fst (rd (en_sink en) (audit_from_decision H d r))" "res = Err (DecisionError d)"
      "pd_outcome d \<noteq> OutcomeAllow"
  | (performed) s1 s2 out audited where "pd_outcome d = OutcomeAllow"
      "rd (en_sink en) (audit_from_decision H d r) = (s1, Ok ())" "eff (s1, w) = ((s2, w'), out)"
      "re s2 (pd_decision_id d) now (if isl out then Failed else Succeeded) = (en_sink en', audited)"
      "res = (case audited of Err a \<Rightarrow> Err (AuditAfter a)
              | Ok _ \<Rightarrow> (case out of Err e \<Rightarrow> Err (EffectError e) | Ok v \<Rightarrow> Ok v))"
proof -
  obtain s1 ar where rd: "rd (en_sink en) (audit_from_decision H d r) = (s1, ar)"
    by (cases "rd (en_sink en) (audit_from_decision H d r)")
  show thesis
  proof (cases ar)
    case (Inl a)
    with assms rd show thesis by (intro unrecorded [of a]) (auto simp: shared_decided_def persist_def)
  next
    case (Inr u)
    show thesis
    proof (cases "pd_outcome d = OutcomeAllow")
      case False
      with assms rd Inr show thesis by (intro refused) (auto simp: shared_decided_def persist_def)
    next
      case True
      obtain s2 w2 out where eff: "eff (s1, w) = ((s2, w2), out)" by (metis surj_pair)
      obtain s3 audited where re: "re s2 (pd_decision_id d) now (if isl out then Failed else Succeeded) = (s3, audited)"
        by (metis surj_pair)
      from assms rd Inr True eff re show thesis
        by (intro performed [of s1 s2 out audited])
          (auto simp: shared_decided_def persist_def Let_def split: sum.splits option.splits if_splits)
    qed
  qed
qed

text \<open>
  An execution either leaves the world alone and has written at most a refusal to the sink, or it ran
  an authorised effect between its decision and its enforcement record.
\<close>

lemma shared_execute_cases:
  assumes "shared_execute H rd re en r appr now eff w = (en', w', res)"
  obtains (kept) d a where "w' = w" "en_sink en' = fst (rd (en_sink en) (audit_from_decision H d r))"
      "res = Err (AuditBefore a) \<or> res = Err (DecisionError d) \<and> pd_outcome d \<noteq> OutcomeAllow \<or> (\<exists>e. res = Err (ApprovalError e))"
  | (ran) s1 s2 out audited d where "authorised (pe_bundles (en_engine en)) r (approval_granted H en r appr now)"
      "d = decide H (en_engine en) r (approval_granted H en r appr now)" "pd_outcome d = OutcomeAllow"
      "rd (en_sink en) (audit_from_decision H d r) = (s1, Ok ())" "eff (s1, w) = ((s2, w'), out)"
      "re s2 (pd_decision_id d) now (if isl out then Failed else Succeeded) = (en_sink en', audited)"
      "res = (case audited of Err a \<Rightarrow> Err (AuditAfter a)
              | Ok _ \<Rightarrow> (case out of Err e \<Rightarrow> Err (EffectError e) | Ok v \<Rightarrow> Ok v))"
proof -
  let ?p = "decide H (en_engine en) r False" and ?av = "approval_granted H en r appr now"
  have decided: thesis if "shared_decided H rd re en r appr now eff w ?av (decide H (en_engine en) r ?av) = (en', w', res)"
    using that
  proof (cases rule: shared_decided_cases)
    case (unrecorded a)
    then show thesis by (intro kept) auto
  next
    case refused
    then show thesis by (intro kept [where a = undefined]) auto
  next
    case (performed s1 s2 out audited)
    then show thesis by (intro ran) (simp_all add: decide_outcome_Allow)
  qed
  show thesis
  proof (cases "pd_outcome ?p = OutcomeRequireApproval")
    case False
    with assms have "shared_decided H rd re en r appr now eff w ?av (decide H (en_engine en) r ?av) = (en', w', res)"
      by (simp add: shared_execute_def approval_granted_def Let_def)
    then show thesis by (rule decided)
  next
    case True
    show thesis
    proof (cases appr)
      case None
      obtain s1 ar where rd: "rd (en_sink en) (audit_from_decision H ?p r) = (s1, ar)" by (metis surj_pair)
      from assms True None rd show thesis
        by (intro kept [of ?p "projl ar"]) (auto simp: shared_execute_def persist_def Let_def split: sum.splits)
    next
      case (Some g)
      show thesis
      proof (cases "ledger_validate H (en_approvals en) g r now")
        case (Inl e)
        let ?d = "make_decision H (en_engine en) r OutcomeDeny ApprovalInvalid (pd_matched_rule_ids ?p)"
        obtain s1 ar where rd: "rd (en_sink en) (audit_from_decision H ?d r) = (s1, ar)" by (metis surj_pair)
        from assms True Some Inl rd show thesis
          by (intro kept [of ?d "projl ar"]) (auto simp: shared_execute_def persist_def Let_def split: sum.splits)
      next
        case (Inr u)
        with assms True Some have "shared_decided H rd re en r appr now eff w ?av (decide H (en_engine en) r ?av) = (en', w', res)"
          by (simp add: shared_execute_def approval_granted_def Let_def)
        then show thesis by (rule decided)
      qed
    qed
  qed
qed

lemma approved_execution:
  assumes "pd_outcome (decide H (en_engine en) r False) = OutcomeRequireApproval" "ledger_validate H (en_approvals en) g r now = Ok ()"
    "pd_outcome (decide H (en_engine en) r True) = OutcomeAllow"
    "rd (en_sink en) (audit_from_decision H (decide H (en_engine en) r True) r) = (s1, Ok ())"
    "eff (s1, w) = ((s2, w'), Ok v)" "re s2 (pd_decision_id (decide H (en_engine en) r True)) now Succeeded = (s3, Ok ())"
  shows "\<exists>en'. shared_execute H rd re en r (Some g) now eff w = (en', w', Ok v)"
  using assms by (simp add: shared_execute_def shared_decided_def persist_def Let_def)

section \<open>Default deny\<close>

lemma of_policy_Ok [simp]: "of_policy r = Ok x \<longleftrightarrow> r = Ok x"
  by (cases r) (simp_all add: of_policy_def)

lemma operator_rules_names:
  assumes "operator_rules programs = Ok rules" "ru \<in> set rules"
  obtains program where "program \<in> set programs" "ru_resource ru = Exact (process_resource program)"
proof -
  have "\<exists>program \<in> set programs. ru_resource ru = Exact (process_resource program)"
    using assms
    by (induction programs arbitrary: rules)
      (auto simp: of_policy_def pattern_exact_def resource_new_def split: sum.splits)
  then show thesis using that by blast
qed

lemma run_engine_bundles:
  assumes "run_engine V programs = Ok engine" "pe_bundles engine = Some bs" "ru \<in> set (all_rules bs)"
  obtains rules where "operator_rules programs = Ok rules" "ru \<in> set rules"
proof -
  obtain platform operator rules where p: "bundle_new PlatformHard ''platform-v1'' 1 [] = Ok platform"
    and o: "bundle_new User ''operator-cli'' 1 rules = Ok operator" and r: "operator_rules programs = Ok rules"
    and e: "engine_new (env_hash (ce_store V)) (ce_bundles V) [platform, operator] = Ok engine"
    using assms(1) by (auto simp: run_engine_def operator_bundle_def split: sum.splits)
  from engine_new_Ok(2) [OF e] assms(2) have "set bs = {platform, operator}" by (simp del: sort_key_simps)
  moreover have "pb_rules platform = []" "pb_rules operator = rules"
    using p o by (auto simp: bundle_new_def split: if_splits)
  ultimately have "set (all_rules bs) = set rules" by (auto simp: all_rules_def)
  with assms(3) have "ru \<in> set rules" by simp
  with r show thesis by (rule that)
qed

lemma run_request_fields:
  assumes "run_request V options program run_id now = Ok r"
  shows "cr_action r = ProcessSpawn" "cr_resource r = process_resource program"
    "cr_workspace_id r = ro_workspace_id options" "cr_occurred_at_ms r = now" "cr_request_id r = ''req-'' @ run_id"
  using assms
  by (auto simp: run_request_def of_policy_def request_new_def resource_new_def Let_def split: sum.splits)

lemma operator_grant_given: "operator_grant V options r program run_id now = Ok (Some g) \<Longrightarrow> ro_approved options"
  by (auto simp: operator_grant_def split: if_splits)

text \<open>What the operator must have given: the program among the allowed ones, and the approval.\<close>

definition permitted :: "run_options \<Rightarrow> string \<Rightarrow> bool" where
  "permitted options entry \<longleftrightarrow> ro_approved options \<and> entry \<in> set (ro_allowed_programs options)"

lemma authorised_permitted:
  assumes "run_request V options program run_id now = Ok r" "run_engine V (ro_allowed_programs options) = Ok engine"
    "operator_grant V options r program run_id now = Ok appr"
    "authorised (pe_bundles engine) r (approval_granted H en r appr t)"
  shows "permitted options program"
proof -
  from assms(4) obtain bs ru where bs: "pe_bundles engine = Some bs" and ru: "ru \<in> set (applying bs r Permit)"
    and av: "approval_granted H en r appr t \<or> \<not> needs_approval bs r"
    unfolding authorised_def by (metis hd_in_set)
  from ru have all: "ru \<in> set (all_rules bs)" and covers: "covers (ru_resource ru) (process_resource program)"
    using run_request_fields(2) [OF assms(1)] by (auto simp: applying_def rule_applies_def)
  obtain rules where "operator_rules (ro_allowed_programs options) = Ok rules" "ru \<in> set rules"
    using run_engine_bundles [OF assms(2) bs all] .
  then obtain allowed where "allowed \<in> set (ro_allowed_programs options)" "ru_resource ru = Exact (process_resource allowed)"
    by (rule operator_rules_names)
  with covers have "program \<in> set (ro_allowed_programs options)" by (simp add: process_resource_def)
  moreover have "needs_approval bs r"
    unfolding needs_approval_def descriptor_cases(4) using run_request_fields(1) [OF assms(1)] by simp
  with av have "appr \<noteq> None" by (auto simp: approval_granted_def split: option.splits)
  with assms(3) have "ro_approved options" by (auto dest: operator_grant_given)
  ultimately show ?thesis by (simp add: permitted_def)
qed

text \<open>The outcomes a run can report without having touched the registry.\<close>

fun is_denied :: "run_outcome \<Rightarrow> bool" where
  "is_denied (RunDenied _ _) = True"
| "is_denied _ = False"

lemma run_in_store_cases:
  assumes "run_in_store V ops store_dir options program now key s run_id sequence host = (res, host')"
  obtains (stopped) e where "host' = host" "res = Err e"
  | (enforced) r engine appr en registry enforcement where
      "run_request V options program run_id now = Ok r" "run_engine V (ro_allowed_programs options) = Ok engine"
      "operator_grant V options r program run_id now = Ok appr"
      "shared_execute (env_hash (ce_store V)) (store_record_decision (ce_store V)) (store_record_enforcement (ce_store V))
         (enforcer_new engine s) r appr now (sandboxed_effect V ops options program now sequence) (ch_registry host)
       = (en, registry, enforcement)"
      "host' = host\<lparr>ch_database := Some (key, en_sink en), ch_registry := registry\<rparr>"
      "\<And>e. conclude_enforcement enforcement = Err e \<Longrightarrow> res = Err e"
      "\<And>outcome decision_id. conclude_enforcement enforcement = Ok (outcome, decision_id) \<Longrightarrow>
         \<exists>report. res = Ok report \<and> rp_run_id report = run_id \<and> rp_outcome report = outcome
           \<and> (rp_hash_chain_verified report \<longleftrightarrow> verify_hash_chain (env_hash (ce_store V)) (es_events (en_sink en)) = Ok ())
           \<and> rp_events report = event_count (en_sink en)"
proof -
  show thesis
  proof (cases "run_request V options program run_id now")
    case (Inl e)
    with assms show thesis by (intro stopped [of e]) (simp_all add: run_in_store_def)
  next
    case r: (Inr r)
    show thesis
    proof (cases "run_engine V (ro_allowed_programs options)")
      case (Inl e)
      with assms r show thesis by (intro stopped [of e]) (simp_all add: run_in_store_def)
    next
      case engine: (Inr engine)
      show thesis
      proof (cases "operator_grant V options r program run_id now")
        case (Inl e)
        with assms r engine show thesis by (intro stopped [of e]) (simp_all add: run_in_store_def)
      next
        case grant: (Inr appr)
        obtain en registry enforcement where ex: "shared_execute (env_hash (ce_store V)) (store_record_decision (ce_store V))
           (store_record_enforcement (ce_store V)) (enforcer_new engine s) r appr now
           (sandboxed_effect V ops options program now sequence) (ch_registry host) = (en, registry, enforcement)"
          by (metis surj_pair)
        from assms show thesis
          by (intro enforced [OF r engine grant ex])
            (auto simp: run_in_store_def r engine grant ex Let_def split: sum.splits)
      qed
    qed
  qed
qed

lemma open_run_store_registry: "open_run_store V store_dir options now host = (res, host') \<Longrightarrow> ch_registry host' = ch_registry host"
  by (auto simp: open_run_store_def Let_def split: prod.splits sum.splits bool.splits)

lemma run_registry_untouched:
  assumes "program_location V (ch_files host) options = Ok (dir, entry)" "\<not> permitted options entry"
    "execute_run V ops store_dir options host = (res, host')"
  shows "ch_registry host' = ch_registry host \<and> (\<forall>report. res = Ok report \<longrightarrow> is_denied (rp_outcome report))"
proof -
  let ?now = "unix_ms V (ro_now_ms options)"
  obtain opened host1 where o: "open_run_store V store_dir options ?now host = (opened, host1)" by (metis surj_pair)
  have reg: "ch_registry host1 = ch_registry host" by (rule open_run_store_registry [OF o])
  show ?thesis
  proof (cases opened)
    case (Inl e)
    with assms(1,3) o reg show ?thesis by (auto simp: execute_run_def)
  next
    case (Inr a)
    obtain key s run_id sequence where a: "a = (key, s, run_id, sequence)" by (metis surj_pair)
    from assms(1,3) o Inr a have
      "run_in_store V ops store_dir options entry ?now key s run_id sequence host1 = (res, host')"
      by (simp add: execute_run_def)
    then show ?thesis
    proof (cases rule: run_in_store_cases)
      case stopped
      with reg show ?thesis by simp
    next
      case (enforced r engine appr en registry enforcement)
      from enforced(4) show ?thesis
      proof (cases rule: shared_execute_cases)
        case (kept d b)
        then have "registry = ch_registry host" using reg by simp
        moreover have "\<forall>outcome i. conclude_enforcement enforcement = Ok (outcome, i) \<longrightarrow> is_denied outcome"
          using kept(3) by (auto simp: conclude_enforcement_def denial_of_def)
        ultimately show ?thesis using enforced(5-7) by (cases "conclude_enforcement enforcement") fastforce+
      next
        case (ran s1 s2 out audited d)
        with authorised_permitted [OF enforced(1-3)] have "permitted options entry" by (simp add: enforcer_new_def)
        with assms(2) show ?thesis by simp
      qed
    qed
  qed
qed

text \<open>
  C1: default deny, with the operator in the loop. Unless the operator approved this run and named
  its program among the allowed ones, no backend of the registry is touched, and a run that reports an
  outcome at all reports a denial.
\<close>

theorem run_needs_permit_and_approval:
  assumes "program_location V (ch_files host) options = Ok (dir, entry)" "\<not> permitted options entry"
    "execute_run V ops store_dir options host = (res, host')"
  shows "ch_registry host' = ch_registry host \<and> (\<forall>report. res = Ok report \<longrightarrow> is_denied (rp_outcome report))"
  by (rule run_registry_untouched [OF assms])

section \<open>What a run writes\<close>

text \<open>
  The database a run finds: made by runs of this workspace, so its log is well formed and every
  idempotency key carries the number of a run that exists.
\<close>

definition run_keys :: "nat \<Rightarrow> string set" where
  "run_keys n = {numbered ''run-idem-'' n, numbered ''intent-idem-'' n, numbered ''result-idem-'' n}"

definition keys_numbered :: "event_store \<Rightarrow> bool" where
  "keys_numbered s \<longleftrightarrow> fst ` set (es_idempotency s) \<subseteq> (\<Union>n \<in> {..run_count s}. run_keys n)"

definition store_ok :: "store_env \<Rightarrow> string \<Rightarrow> event_store \<Rightarrow> bool" where
  "store_ok E ws s \<longleftrightarrow> log_ok E s \<and> es_workspace_id s = ws \<and> keys_numbered s"

definition host_ok :: "store_env \<Rightarrow> string \<Rightarrow> 'b core_host \<Rightarrow> bool" where
  "host_ok E ws host \<longleftrightarrow> (case ch_database host of None \<Rightarrow> True | Some (_, s) \<Rightarrow> store_ok E ws s)"

lemma numbered_inj: "numbered name m = numbered name n \<longleftrightarrow> m = n"
  by (auto simp: numbered_def dest: arg_cong [where f = dec_value] simp: dec_value_show)

lemma run_keys_disjoint: "m \<noteq> n \<Longrightarrow> k \<in> run_keys m \<Longrightarrow> k \<notin> run_keys n"
  by (auto simp: run_keys_def numbered_inj) (auto simp: numbered_def)

lemma fresh_run_key:
  assumes "keys_numbered s" "run_count s < n" "k \<in> run_keys n"
  shows "bt_get (es_idempotency s) k = None"
proof -
  have "k \<notin> run_keys m" if "m \<le> run_count s" for m
    using run_keys_disjoint [of n m k] assms that by auto
  with assms(1) have "k \<notin> fst ` set (es_idempotency s)" by (auto simp: keys_numbered_def)
  then show ?thesis by (simp add: bt_get_def map_of_eq_None_iff)
qed

text \<open>A mutation under an unused key either fails or is committed.\<close>

lemma fresh_tx:
  assumes "idempotent_tx s key h ev body = (Ok c, s')" "bt_get (es_idempotency s) key = None"
  obtains s1 where "body s = Ok s1" "s' = s1\<lparr>es_idempotency := bt_insert key (h, ev) (es_idempotency s1)\<rparr>"
  using assms
  by (auto simp: idempotent_tx_def in_transaction_def replay_lookup_def record_idempotency_def
      split: sum.splits option.splits if_splits)

lemma length_insert_fresh: "bt_get m k = None \<Longrightarrow> length (bt_insert k v m) = Suc (length m)"
  by (induction k v m rule: bt_insert.induct) (auto simp: bt_get_def split: if_splits)

lemma created_run:
  assumes "create_run E s ev ws run task at key = (Ok c, s')" "bt_get (es_idempotency s) key = None"
  obtains row p x where "es_events s' = es_events s @ [row]" "ev_event_type row = ''run.queued''"
    "es_runs s' = bt_insert run p (es_runs s)" "rp_state p = ''queued''" "rp_task_id p = task"
    "bt_get (es_runs s) run = None" "es_idempotency s' = bt_insert key x (es_idempotency s)"
    "es_outbox s' = es_outbox s" "es_decisions s' = es_decisions s" "es_workspace_id s' = es_workspace_id s"
proof -
  from assms(1) have tx: "idempotent_tx s key (store_digest (env_hash E) [''create'', run, task]) ev
       (create_run_body E ev ws run task at) = (Ok c, s')"
    by (simp add: create_run_def split: if_splits)
  obtain s1 where s1: "create_run_body E ev ws run task at s = Ok s1"
    and s': "s' = s1\<lparr>es_idempotency := bt_insert key (store_digest (env_hash E) [''create'', run, task], ev) (es_idempotency s1)\<rparr>"
    using fresh_tx [OF tx assms(2)] .
  from s1 s' show thesis
    by (auto simp: create_run_body_def update_run_checkpoint_def append_to_Ok append_event_Ok
        split: sum.splits prod.splits if_splits intro!: that)
qed

lemma recorded_intent:
  assumes "record_effect_intent E s c = (Ok o', s')" "bt_get (es_idempotency s) (ei_idempotency_key c) = None"
  obtains row out x where "es_events s' = es_events s @ [row]" "ev_event_type row = ''tool.intent_recorded''"
    "es_runs s' = es_runs s" "es_idempotency s' = bt_insert (ei_idempotency_key c) x (es_idempotency s)"
    "es_outbox s' = es_outbox s @ [out]" "ob_intent_id out = ei_intent_id c" "ob_state out = ObPending"
    "ob_payload_json out = env_print E (ei_payload c)" "ob_effect_kind out = ei_effect_kind c"
    "es_decisions s' = es_decisions s" "es_workspace_id s' = es_workspace_id s"
proof -
  let ?h = "store_digest (env_hash E) [''effect-intent'', ei_intent_id c, ei_effect_kind c, env_print E (ei_payload c)]"
  from assms(1) have tx: "idempotent_tx s (ei_idempotency_key c) ?h (ei_event_id c) (effect_intent_body E c) = (Ok o', s')"
    by (simp add: record_effect_intent_def split: if_splits)
  obtain s1 where s1: "effect_intent_body E c s = Ok s1"
    and s': "s' = s1\<lparr>es_idempotency := bt_insert (ei_idempotency_key c) (?h, ei_event_id c) (es_idempotency s1)\<rparr>"
    using fresh_tx [OF tx assms(2)] .
  from s1 s' show thesis
    by (auto simp: effect_intent_body_def append_to_Ok append_event_Ok
        split: sum.splits prod.splits if_splits intro!: that)
qed

lemma recorded_result:
  assumes "record_effect_result E s c = (Ok o', s')" "bt_get (es_idempotency s) (eb_idempotency_key c) = None"
  obtains row x where "es_events s' = es_events s @ [row]" "ev_event_type row = ''tool.result_recorded''"
    "es_runs s' = es_runs s" "es_idempotency s' = bt_insert (eb_idempotency_key c) x (es_idempotency s)"
    "es_outbox s' = map (\<lambda>row. if resolves (eb_intent_id c) row
                 then row\<lparr>ob_state := disposition_state (eb_disposition c), ob_result_event_id := Some (eb_event_id c),
                          ob_result_json := Some (env_print E (eb_result c))\<rparr> else row) (es_outbox s)"
    "es_decisions s' = es_decisions s" "es_workspace_id s' = es_workspace_id s"
proof -
  let ?h = "store_digest (env_hash E) [''effect-result'', eb_intent_id c, disposition_name (eb_disposition c), env_print E (eb_result c)]"
  from assms(1) have tx: "idempotent_tx s (eb_idempotency_key c) ?h (eb_event_id c) (effect_result_body E c) = (Ok o', s')"
    by (simp add: record_effect_result_def split: if_splits)
  obtain s1 where s1: "effect_result_body E c s = Ok s1"
    and s': "s' = s1\<lparr>es_idempotency := bt_insert (eb_idempotency_key c) (?h, eb_event_id c) (es_idempotency s1)\<rparr>"
    using fresh_tx [OF tx assms(2)] .
  from s1 s' show thesis
    by (auto simp: effect_result_body_def append_to_Ok append_event_Ok
        split: sum.splits prod.splits if_splits intro!: that)
qed

text \<open>The sink adds at most one row, of its own kind, and touches only the table of decisions.\<close>

definition audit_change :: "event_store \<Rightarrow> event_store \<Rightarrow> string \<Rightarrow> bool" where
  "audit_change s s' kind \<longleftrightarrow> es_runs s' = es_runs s \<and> es_idempotency s' = es_idempotency s \<and> es_outbox s' = es_outbox s
     \<and> es_workspace_id s' = es_workspace_id s
     \<and> (\<exists>rows. es_events s' = es_events s @ rows \<and> ev_event_type ` set rows \<subseteq> {kind} \<and> length rows \<le> 1)"

lemma audit_change_refl: "audit_change s s kind"
  by (simp add: audit_change_def)

lemma decision_change: "audit_change s (fst (store_record_decision E s a)) ''policy.decision_recorded''"
  by (auto simp: audit_change_def store_record_decision_def persist_policy_decision_def in_transaction_def append_to_Ok
      append_event_Ok split: sum.splits prod.splits option.splits if_splits)

lemma enforcement_change: "audit_change s (fst (store_record_enforcement E s d at r)) ''policy.enforcement_recorded''"
  by (auto simp: audit_change_def store_record_enforcement_def persist_policy_enforcement_def in_transaction_def append_to_Ok
      append_event_Ok split: sum.splits prod.splits option.splits if_splits)

lemma decision_row:
  assumes "store_record_decision E s a = (s', Ok ())"
  obtains row where "bt_get (es_decisions s') (da_decision_id a) = Some row" "dr_audit_json row = env_audit_json E a"
proof -
  have "\<exists>row. bt_get (es_decisions s') (da_decision_id a) = Some row \<and> dr_audit_json row = env_audit_json E a"
    using assms
    by (auto simp: store_record_decision_def persist_policy_decision_def in_transaction_def bt_get_insert
        split: sum.splits prod.splits option.splits if_splits)
  then show thesis using that by blast
qed

lemma enforcement_row:
  assumes "store_record_enforcement E s d at r = (s', Ok ())" "bt_get (es_decisions s) d = Some row"
  shows "\<exists>row'. bt_get (es_decisions s') d = Some row' \<and> dr_audit_json row' = dr_audit_json row \<and> dr_enforcement_result row' = Some r"
  using assms
  by (auto simp: store_record_enforcement_def persist_policy_enforcement_def in_transaction_def append_to_Ok bt_get_insert
      split: sum.splits prod.splits option.splits if_splits)

text \<open>The effect: nothing but its intent and its result is written, and an effect that succeeds wrote both.\<close>

definition effect_change :: "nat \<Rightarrow> event_store \<Rightarrow> event_store \<Rightarrow> bool" where
  "effect_change n s s' \<longleftrightarrow> es_runs s' = es_runs s \<and> es_workspace_id s' = es_workspace_id s
     \<and> fst ` set (es_idempotency s') \<subseteq> fst ` set (es_idempotency s) \<union> run_keys n"

lemma keys_bt_insert_subset: "fst ` set (bt_insert k v m) \<subseteq> insert k (fst ` set m)"
  by (induction k v m rule: bt_insert.induct) auto

lemma record_idempotency_change:
  assumes "record_idempotency s key h ev = Ok s'"
  shows "es_runs s' = es_runs s \<and> es_workspace_id s' = es_workspace_id s
     \<and> fst ` set (es_idempotency s') \<subseteq> insert key (fst ` set (es_idempotency s))"
proof -
  from assms have "s' = s\<lparr>es_idempotency := bt_insert key (h, ev) (es_idempotency s)\<rparr>"
    by (simp add: record_idempotency_def split: if_splits)
  then show ?thesis using keys_bt_insert_subset by simp
qed

lemma idempotent_tx_effect_change:
  assumes "\<And>s1. body s = Ok s1 \<Longrightarrow> es_runs s1 = es_runs s \<and> es_workspace_id s1 = es_workspace_id s \<and> es_idempotency s1 = es_idempotency s"
    "key \<in> run_keys n"
  shows "effect_change n s (snd (idempotent_tx s key h ev body))"
proof -
  obtain r s' where tx: "idempotent_tx s key h ev body = (r, s')" by (metis surj_pair)
  then have "effect_change n s s'"
  proof (cases rule: idempotent_tx_cases)
    case (committed s1)
    show ?thesis
      using assms(1) [OF committed(2)] assms(2) record_idempotency_change [OF committed(3)]
      by (auto simp: effect_change_def)
  qed (simp add: effect_change_def)
  with tx show ?thesis by simp
qed

lemma intent_effect_change: "effect_change n s (snd (record_effect_intent E s (run_intent options program now n)))"
proof -
  have "es_runs s1 = es_runs s \<and> es_workspace_id s1 = es_workspace_id s \<and> es_idempotency s1 = es_idempotency s"
    if "effect_intent_body E c s = Ok s1" for c s1
    using that by (auto simp: effect_intent_body_def append_to_Ok split: sum.splits prod.splits if_splits)
  from idempotent_tx_effect_change [of "effect_intent_body E c" for c, OF this]
  show ?thesis by (simp add: record_effect_intent_def run_intent_def run_keys_def) (simp add: effect_change_def)?
qed

lemma result_effect_change: "effect_change n s (snd (record_effect_result E s (run_result options out now n)))"
proof -
  have "es_runs s1 = es_runs s \<and> es_workspace_id s1 = es_workspace_id s \<and> es_idempotency s1 = es_idempotency s"
    if "effect_result_body E c s = Ok s1" for c s1
    using that by (auto simp: effect_result_body_def append_to_Ok split: sum.splits prod.splits if_splits)
  from idempotent_tx_effect_change [of "effect_result_body E c" for c, OF this]
  show ?thesis by (simp add: record_effect_result_def run_result_def run_keys_def) (simp add: effect_change_def)?
qed

lemma effect_change_trans: "effect_change n s t \<Longrightarrow> effect_change n t u \<Longrightarrow> effect_change n s u"
proof -
  have trans: "A \<subseteq> B \<union> K \<Longrightarrow> C \<subseteq> A \<union> K \<Longrightarrow> C \<subseteq> B \<union> K" for A B C K :: "string set" by blast
  assume "effect_change n s t" "effect_change n t u"
  then show ?thesis by (simp add: effect_change_def trans [of "fst ` set (es_idempotency t)"])
qed

lemma audit_effect_change: "audit_change s s' kind \<Longrightarrow> effect_change n s s'"
  by (simp add: audit_change_def effect_change_def)

lemma sandboxed_effect_change:
  assumes "sandboxed_effect V ops options program now n (s, registry) = ((s', registry'), res)"
  shows "effect_change n s s'"
  using assms intent_effect_change [of n s "ce_store V" options program now] result_effect_change
  by (auto simp: sandboxed_effect_def Let_def split: sum.splits prod.splits)
    (metis effect_change_trans snd_conv)+

lemma sandboxed_effect_log:
  assumes "sandboxed_effect V ops options program now n (s, registry) = ((s', registry'), res)" "log_ok (ce_store V) s"
  shows "log_ok (ce_store V) s'"
proof -
  let ?E = "ce_store V"
  have i: "log_ok ?E (snd (record_effect_intent ?E s (run_intent options program now n)))"
    using step_keeps_log [OF assms(2), of "RecordIntent (run_intent options program now n)"] by simp
  have "log_ok ?E (snd (record_effect_result ?E t (run_result options out now n)))" if "log_ok ?E t" for t out
    using step_keeps_log [OF that, of "RecordResult (run_result options out now n)"] by simp
  then show ?thesis
    using assms i by (auto simp: sandboxed_effect_def Let_def split: sum.splits prod.splits) (metis snd_conv)+
qed

lemma sink_log:
  assumes "log_ok E s"
  shows "log_ok E (fst (store_record_decision E s a))" "log_ok E (fst (store_record_enforcement E s d at r))"
  using step_keeps_log [OF assms, of "PersistDecision a"] step_keeps_log [OF assms, of "PersistEnforcement d at r"]
  by (auto simp: store_record_decision_def store_record_enforcement_def split: prod.splits)

lemma sink_effect_change:
  "effect_change n s (fst (store_record_decision E s a))" "effect_change n s (fst (store_record_enforcement E s d at r))"
  by (rule audit_effect_change [OF decision_change]) (rule audit_effect_change [OF enforcement_change])

lemma shared_execute_store:
  assumes "shared_execute (env_hash (ce_store V)) (store_record_decision (ce_store V)) (store_record_enforcement (ce_store V))
       en r appr now (sandboxed_effect V ops options program now n) registry = (en', registry', res)"
    "log_ok (ce_store V) (en_sink en)"
  shows "log_ok (ce_store V) (en_sink en') \<and> effect_change n (en_sink en) (en_sink en')"
  using assms(1)
proof (cases rule: shared_execute_cases)
  case kept
  then show ?thesis using sink_log(1) [OF assms(2)] sink_effect_change(1) by simp
next
  case (ran s1 s2 out audited d)
  have 1: "log_ok (ce_store V) s1 \<and> effect_change n (en_sink en) s1"
    using ran(4) sink_log(1) [OF assms(2)] sink_effect_change(1) by (metis fst_conv)
  then have 2: "log_ok (ce_store V) s2 \<and> effect_change n s1 s2"
    using sandboxed_effect_log [OF ran(5)] sandboxed_effect_change [OF ran(5)] by simp
  then have "log_ok (ce_store V) (en_sink en') \<and> effect_change n s2 (en_sink en')"
    using ran(6) sink_log(2) sink_effect_change(2) by (metis fst_conv)
  with 1 2 show ?thesis using effect_change_trans by blast
qed

lemma open_run_store_cases:
  assumes "open_run_store V store_dir options now host = (res, host')"
  obtains (refused) e where "res = Err e" "ch_database host' = ch_database host"
  | (opened) key s0 c s1 where "open_database (ce_store V) (ro_workspace_id options) key (ch_database host) = Ok s0"
      "create_run (ce_store V) s0 (numbered ''event_run_'' (run_count s0 + 1)) (ro_workspace_id options)
         (run_name (run_count s0 + 1)) (ro_task_id options) now (numbered ''run-idem-'' (run_count s0 + 1)) = (c, s1)"
      "ch_database host' = Some (key, s1)"
      "res = (case c of Err e \<Rightarrow> Err (RunStore e) | Ok _ \<Rightarrow> Ok (key, s1, run_name (run_count s0 + 1), run_count s0 + 1))"
proof -
  obtain made files where m: "fs_mkdirs (ch_files host) [] (HostFiles.path_join (absolute_path (ce_cwd V)) store_dir) = (made, files)"
    by (metis surj_pair)
  obtain k files1 where k: "load_or_create_key V store_dir files = (k, files1)" by (metis surj_pair)
  show thesis
  proof (cases "made \<and> \<not> isl k \<and> \<not> isl (open_database (ce_store V) (ro_workspace_id options) (projr k) (ch_database host))")
    case False
    with assms m k show thesis
      by (intro refused [of "projl res"]) (auto simp: open_run_store_def Let_def split: bool.splits sum.splits)
  next
    case True
    then obtain key s0 where key: "k = Ok key"
      and s0: "open_database (ce_store V) (ro_workspace_id options) key (ch_database host) = Ok s0"
      by (cases k; cases "open_database (ce_store V) (ro_workspace_id options) (projr k) (ch_database host)") simp_all
    obtain c s1 where c: "create_run (ce_store V) s0 (numbered ''event_run_'' (run_count s0 + 1)) (ro_workspace_id options)
         (run_name (run_count s0 + 1)) (ro_task_id options) now (numbered ''run-idem-'' (run_count s0 + 1)) = (c, s1)"
      by (metis surj_pair)
    from assms m k True key s0 c show thesis
      by (intro opened [OF s0 c]) (auto simp: open_run_store_def Let_def split: sum.splits)
  qed
qed

text \<open>Opening finds a good store again, and creating the run takes the next number.\<close>

lemma open_run_store_ok:
  assumes "open_run_store V store_dir options now host = (res, host')" "host_ok (ce_store V) (ro_workspace_id options) host"
  shows "host_ok (ce_store V) (ro_workspace_id options) host'"
    and "res = Ok (key, s, run_id, n) \<Longrightarrow> store_ok (ce_store V) (ro_workspace_id options) s \<and> run_count s = n
      \<and> run_id = run_name n
      \<and> (\<exists>s0 c. (ch_database host = None \<and> s0 = fresh_store (ro_workspace_id options) \<or> ch_database host = Some (key, s0))
           \<and> store_ok (ce_store V) (ro_workspace_id options) s0 \<and> n = run_count s0 + 1
           \<and> create_run (ce_store V) s0 (numbered ''event_run_'' n) (ro_workspace_id options) run_id (ro_task_id options) now
               (numbered ''run-idem-'' n) = (Ok c, s))"
proof -
  let ?E = "ce_store V" and ?ws = "ro_workspace_id options"
  have found: "store_ok ?E ?ws s0 \<and> (ch_database host = None \<and> s0 = fresh_store ?ws \<or> ch_database host = Some (k, s0))"
    if o: "open_database ?E ?ws k (ch_database host) = Ok s0" for k s0
  proof (cases "ch_database host")
    case None
    with o have "s0 = fresh_store ?ws" by (simp add: open_database_def)
    with None show ?thesis using fresh_log_ok [of ?E ?ws] by (simp add: store_ok_def keys_numbered_def fresh_store_def)
  next
    case (Some d)
    obtain k' s1 where d: "d = (k', s1)" by (cases d)
    have ok: "store_ok ?E ?ws s1" using assms(2) Some d by (simp add: host_ok_def)
    then have "s1\<lparr>es_workspace_id := ?ws\<rparr> = s1" by (auto simp: store_ok_def)
    with o Some d have "k = k' \<and> s0 = s1" by (auto simp: open_database_def split: sum.splits if_splits)
    with ok Some d show ?thesis by simp
  qed
  have made: "store_ok ?E ?ws s1 \<and> (\<forall>x. c = Ok x \<longrightarrow> run_count s1 = run_count s0 + 1)"
    if so: "store_ok ?E ?ws s0" and cr: "create_run ?E s0 (numbered ''event_run_'' (run_count s0 + 1)) ?ws run task now
          (numbered ''run-idem-'' (run_count s0 + 1)) = (c, s1)" for s0 s1 c run task
  proof -
    have log: "log_ok ?E s1" "es_workspace_id s1 = ?ws"
      using step_keeps_log [of ?E s0 "CreateRun (numbered ''event_run_'' (run_count s0 + 1)) ?ws run task now
          (numbered ''run-idem-'' (run_count s0 + 1))"] so cr
      by (auto simp: store_ok_def grows_def)
    show ?thesis
    proof (cases c)
      case (Inl e)
      then have "s1 = s0" using cr
        by (auto simp: create_run_def idempotent_tx_def in_transaction_def split: if_splits sum.splits option.splits)
      with so Inl show ?thesis by simp
    next
      case (Inr x)
      have fresh: "bt_get (es_idempotency s0) (numbered ''run-idem-'' (run_count s0 + 1)) = None"
        by (rule fresh_run_key [of _ "run_count s0 + 1"]) (use so in \<open>simp_all add: store_ok_def run_keys_def\<close>)
      from created_run [OF cr [unfolded Inr] fresh] obtain p y where runs: "es_runs s1 = bt_insert run p (es_runs s0)"
        "bt_get (es_runs s0) run = None"
        and keys: "es_idempotency s1 = bt_insert (numbered ''run-idem-'' (run_count s0 + 1)) y (es_idempotency s0)" .
      have count: "run_count s1 = run_count s0 + 1" using runs by (simp add: run_count_def length_insert_fresh)
      have "fst ` set (es_idempotency s1) \<subseteq> insert (numbered ''run-idem-'' (run_count s0 + 1)) (fst ` set (es_idempotency s0))"
        unfolding keys by (rule keys_bt_insert_subset)
      also have "\<dots> \<subseteq> (\<Union>n \<in> {..run_count s1}. run_keys n)"
        using so count by (fastforce simp: store_ok_def keys_numbered_def run_keys_def)
      finally show ?thesis using log count Inr by (simp add: store_ok_def keys_numbered_def)
    qed
  qed
  have "host_ok ?E ?ws host' \<and> (res = Ok (key, s, run_id, n) \<longrightarrow> store_ok ?E ?ws s \<and> run_count s = n \<and> run_id = run_name n
      \<and> (\<exists>s0 c. (ch_database host = None \<and> s0 = fresh_store ?ws \<or> ch_database host = Some (key, s0)) \<and> store_ok ?E ?ws s0 \<and> n = run_count s0 + 1
           \<and> create_run ?E s0 (numbered ''event_run_'' n) ?ws run_id (ro_task_id options) now
               (numbered ''run-idem-'' n) = (Ok c, s)))"
    using assms(1)
  proof (cases rule: open_run_store_cases)
    case refused
    then show ?thesis using assms(2) by (simp add: host_ok_def)
  next
    case (opened k s0 c s1)
    have ok: "store_ok ?E ?ws s1" using made [OF _ opened(2)] found [OF opened(1)] by blast
    have "store_ok ?E ?ws s1 \<and> run_count s1 = run_count s0 + 1" if "c = Ok x" for x
      using made [OF _ opened(2)] found [OF opened(1)] that by blast
    then show ?thesis
      using opened(2-4) ok found [OF opened(1)] by (cases c) (auto simp: host_ok_def)
  qed
  then show "host_ok ?E ?ws host'"
    and "res = Ok (key, s, run_id, n) \<Longrightarrow> store_ok ?E ?ws s \<and> run_count s = n \<and> run_id = run_name n
      \<and> (\<exists>s0 c. (ch_database host = None \<and> s0 = fresh_store ?ws \<or> ch_database host = Some (key, s0)) \<and> store_ok ?E ?ws s0 \<and> n = run_count s0 + 1
           \<and> create_run ?E s0 (numbered ''event_run_'' n) ?ws run_id (ro_task_id options) now
               (numbered ''run-idem-'' n) = (Ok c, s))"
    by blast+
qed

lemma effect_change_ok:
  assumes "store_ok E ws s" "log_ok E s'" "effect_change (run_count s) s s'"
  shows "store_ok E ws s'"
proof -
  have "run_count s' = run_count s" using assms(3) by (simp add: effect_change_def run_count_def)
  moreover have "fst ` set (es_idempotency s') \<subseteq> (\<Union>n \<in> {..run_count s}. run_keys n)"
  proof (rule subset_trans)
    show "fst ` set (es_idempotency s') \<subseteq> fst ` set (es_idempotency s) \<union> run_keys (run_count s)"
      using assms(3) by (simp add: effect_change_def)
    show "fst ` set (es_idempotency s) \<union> run_keys (run_count s) \<subseteq> (\<Union>n \<in> {..run_count s}. run_keys n)"
      using assms(1) by (simp add: store_ok_def keys_numbered_def UN_upper)
  qed
  ultimately show ?thesis using assms by (simp add: effect_change_def store_ok_def keys_numbered_def)
qed

lemma execute_run_cases:
  assumes "execute_run V ops store_dir options host = (res, host')"
  obtains (stopped) e where "res = Err e" "host' = host"
  | (unopened) dir entry e where "program_location V (ch_files host) options = Ok (dir, entry)"
      "open_run_store V store_dir options (unix_ms V (ro_now_ms options)) host = (Err e, host')" "res = Err e"
  | (opened) dir entry key s run_id n host1 where "program_location V (ch_files host) options = Ok (dir, entry)"
      "open_run_store V store_dir options (unix_ms V (ro_now_ms options)) host = (Ok (key, s, run_id, n), host1)"
      "run_in_store V ops store_dir options entry (unix_ms V (ro_now_ms options)) key s run_id n host1 = (res, host')"
proof (cases "program_location V (ch_files host) options")
  case (Inl e)
  with assms show thesis by (intro stopped [of e]) (simp_all add: execute_run_def)
next
  case (Inr at)
  obtain dir entry where at: "program_location V (ch_files host) options = Ok (dir, entry)" using Inr by (cases at) simp
  obtain made host1 where o: "open_run_store V store_dir options (unix_ms V (ro_now_ms options)) host = (made, host1)"
    by (metis surj_pair)
  show thesis
  proof (cases made)
    case (Inl e)
    with assms at o show thesis by (intro unopened [of dir entry e]) (simp_all add: execute_run_def)
  next
    case (Inr a)
    obtain key s run_id n where "a = (key, s, run_id, n)" by (metis surj_pair)
    with assms at o Inr show thesis by (intro opened [of dir entry key s run_id n host1]) (simp_all add: execute_run_def)
  qed
qed

lemma run_in_store_ok:
  assumes "run_in_store V ops store_dir options entry now key s run_id (run_count s) host = (res, host')"
    "store_ok (ce_store V) ws s" "host_ok (ce_store V) ws host"
  shows "host_ok (ce_store V) ws host'"
    and "res = Ok report \<Longrightarrow> rp_hash_chain_verified report"
proof -
  have "host_ok (ce_store V) ws host' \<and> (res = Ok report \<longrightarrow> rp_hash_chain_verified report)"
    using assms(1)
  proof (cases rule: run_in_store_cases)
    case stopped
    with assms(3) show ?thesis by simp
  next
    case (enforced r engine appr en registry enforcement)
    have log: "log_ok (ce_store V) s" using assms(2) by (simp add: store_ok_def)
    have ok: "store_ok (ce_store V) ws (en_sink en)"
      using shared_execute_store [OF enforced(4)] log effect_change_ok [OF assms(2)] by (simp add: enforcer_new_def)
    then have "verify_hash_chain (env_hash (ce_store V)) (es_events (en_sink en)) = Ok ()" by (simp add: store_ok_def log_ok_def)
    moreover have "host_ok (ce_store V) ws host'" using ok by (simp add: enforced(5) host_ok_def)
    moreover have "res = Ok report \<longrightarrow> rp_hash_chain_verified report"
    proof (cases "conclude_enforcement enforcement")
      case (Inl e)
      then show ?thesis using enforced(6) by simp
    next
      case (Inr p)
      with enforced(7) [of "fst p" "snd p"] calculation(1) show ?thesis by auto
    qed
    ultimately show ?thesis by simp
  qed
  then show "host_ok (ce_store V) ws host'" "res = Ok report \<Longrightarrow> rp_hash_chain_verified report" by simp_all
qed

lemma execute_run_ok:
  assumes "execute_run V ops store_dir options host = (res, host')" "host_ok (ce_store V) (ro_workspace_id options) host"
  shows "host_ok (ce_store V) (ro_workspace_id options) host'"
    and "res = Ok report \<Longrightarrow> rp_hash_chain_verified report"
proof -
  have "host_ok (ce_store V) (ro_workspace_id options) host' \<and> (res = Ok report \<longrightarrow> rp_hash_chain_verified report)"
    using assms(1)
  proof (cases rule: execute_run_cases)
    case stopped
    with assms(2) show ?thesis by simp
  next
    case unopened
    with open_run_store_ok(1) [OF unopened(2) assms(2)] show ?thesis by simp
  next
    case (opened dir entry key s run_id n host1)
    from open_run_store_ok [OF opened(2) assms(2)]
    have h1: "host_ok (ce_store V) (ro_workspace_id options) host1" and s: "store_ok (ce_store V) (ro_workspace_id options) s" "run_count s = n"
      by simp_all
    from run_in_store_ok [OF opened(3) [folded s(2)] s(1) h1] show ?thesis by blast
  qed
  then show "host_ok (ce_store V) (ro_workspace_id options) host'" "res = Ok report \<Longrightarrow> rp_hash_chain_verified report" by simp_all
qed

text \<open>A history of runs of one workspace, each with its own clock, random source and options.\<close>

definition run_step :: "'b backend_ops \<Rightarrow> string \<Rightarrow> 'b core_host \<Rightarrow> command_env \<times> run_options \<Rightarrow> 'b core_host" where
  "run_step ops store_dir host run = snd (execute_run (fst run) ops store_dir (snd run) host)"

lemma history_ok:
  assumes "\<forall>run \<in> set earlier. ce_store (fst run) = E \<and> ro_workspace_id (snd run) = ws" "host_ok E ws host"
  shows "host_ok E ws (foldl (run_step ops store_dir) host earlier)"
  using assms
proof (induction earlier arbitrary: host)
  case (Cons run earlier)
  then have "ce_store (fst run) = E" "ro_workspace_id (snd run) = ws" by simp_all
  with Cons.prems(2) execute_run_ok(1) [of "fst run" ops store_dir "snd run" host]
  have "host_ok E ws (run_step ops store_dir host run)"
    unfolding run_step_def by (metis prod.collapse)
  with Cons show ?case by simp
qed simp

section \<open>An executed run\<close>

lemma sandboxed_effect_Ok:
  assumes "sandboxed_effect V ops options program now n (s, registry) = ((s', registry'), Ok out)"
  obtains o1 s1 o2 where "record_effect_intent (ce_store V) s (run_intent options program now n) = (Ok o1, s1)"
    "record_effect_result (ce_store V) s1 (run_result options out now n) = (Ok o2, s')"
  using assms by (auto simp: sandboxed_effect_def Let_def split: sum.splits prod.splits)

lemma conclude_executed:
  assumes "conclude_enforcement enforcement = Ok (RunExecuted code stdout stderr duration, i)"
  obtains out where "enforcement = Ok out" "code = xo_exit_code out"
  using assms by (auto simp: conclude_enforcement_def denial_of_def split: sum.splits enforcement_error.splits)

lemma keys_numbered_le: "keys_numbered s \<Longrightarrow> fst ` set (es_idempotency s') \<subseteq> fst ` set (es_idempotency s) \<union> {k}
    \<Longrightarrow> run_count s < n \<Longrightarrow> k' \<in> run_keys n \<Longrightarrow> k' \<noteq> k \<Longrightarrow> bt_get (es_idempotency s') k' = None"
proof -
  assume a: "keys_numbered s" "fst ` set (es_idempotency s') \<subseteq> fst ` set (es_idempotency s) \<union> {k}" "run_count s < n"
    "k' \<in> run_keys n" "k' \<noteq> k"
  have "bt_get (es_idempotency s) k' = None" by (rule fresh_run_key [OF a(1) a(3) a(4)])
  then have "k' \<notin> fst ` set (es_idempotency s)" by (simp add: bt_get_def map_of_eq_None_iff)
  with a(2,5) have "k' \<notin> fst ` set (es_idempotency s')" by blast
  then show "bt_get (es_idempotency s') k' = None" by (simp add: bt_get_def map_of_eq_None_iff)
qed

definition event_types :: "event_store \<Rightarrow> string list" where
  "event_types s = map ev_event_type (es_events s)"

definition host_event_types :: "'b core_host \<Rightarrow> string list" where
  "host_event_types host = (case ch_database host of None \<Rightarrow> [] | Some (_, s) \<Rightarrow> event_types s)"

definition host_decisions :: "'b core_host \<Rightarrow> (string, decision_row) btree" where
  "host_decisions host = (case ch_database host of None \<Rightarrow> [] | Some (_, s) \<Rightarrow> es_decisions s)"

definition at_most_one :: "string \<Rightarrow> string list \<Rightarrow> bool" where
  "at_most_one kind types \<longleftrightarrow> types = [] \<or> types = [kind]"

lemma audit_change_types:
  assumes "audit_change s s' kind"
  obtains types where "event_types s' = event_types s @ types" "at_most_one kind types"
proof -
  from assms obtain rows where rows: "es_events s' = es_events s @ rows" "ev_event_type ` set rows \<subseteq> {kind}" "length rows \<le> 1"
    by (auto simp: audit_change_def)
  then have "at_most_one kind (map ev_event_type rows)" by (cases rows) (auto simp: at_most_one_def)
  with rows(1) show thesis by (intro that) (simp_all add: event_types_def)
qed

text \<open>
  A decision whose identifier is not on record yet appends exactly its event and a row without an
  enforcement, and the enforcement of such a row appends exactly its own; a decision on record already
  must be the same one, and appends nothing.
\<close>

lemma decision_recorded_new:
  assumes "store_record_decision E s a = (s', Ok ())" "bt_get (es_decisions s) (da_decision_id a) = None"
  shows "event_types s' = event_types s @ [''policy.decision_recorded'']"
    "\<exists>row. bt_get (es_decisions s') (da_decision_id a) = Some row \<and> dr_enforcement_result row = None"
  using assms
  by (auto simp: store_record_decision_def persist_policy_decision_def in_transaction_def append_to_Ok append_event_Ok
      event_types_def bt_get_insert split: sum.splits prod.splits if_splits)

lemma decision_recorded_again:
  assumes "store_record_decision E s a = (s', Ok ())" "bt_get (es_decisions s) (da_decision_id a) = Some row"
  shows "s' = s" "dr_audit_json row = env_audit_json E a"
  using assms
  by (auto simp: store_record_decision_def persist_policy_decision_def in_transaction_def split: if_splits)

lemma enforcement_recorded_new:
  assumes "store_record_enforcement E s d at r = (s', Ok ())" "bt_get (es_decisions s) d = Some row" "dr_enforcement_result row = None"
  shows "event_types s' = event_types s @ [''policy.enforcement_recorded'']"
  using assms
  by (auto simp: store_record_enforcement_def persist_policy_enforcement_def in_transaction_def append_to_Ok append_event_Ok
      event_types_def split: sum.splits prod.splits if_splits)

text \<open>The effect's own record: the intent is pending, the result completes it, nothing lies between.\<close>

lemma effect_recorded:
  assumes "sandboxed_effect V ops options program now n (s, registry) = ((s', registry'), Ok out)"
    "bt_get (es_idempotency s) (numbered ''intent-idem-'' n) = None" "bt_get (es_idempotency s) (numbered ''result-idem-'' n) = None"
  obtains row where "event_types s' = event_types s @ [''tool.intent_recorded'', ''tool.result_recorded'']"
    "row \<in> set (es_outbox s')" "ob_intent_id row = numbered ''intent_'' n" "ob_state row = ObCompleted"
    "ob_payload_json row = env_print (ce_store V) (ei_payload (run_intent options program now n))"
    "es_decisions s' = es_decisions s" "es_runs s' = es_runs s"
    "ob_result_json row = Some (env_print (ce_store V) (eb_result (run_result options out now n)))"
proof -
  let ?c = "run_intent options program now n"
  obtain o1 s1 o2 where i: "record_effect_intent (ce_store V) s ?c = (Ok o1, s1)"
    and r: "record_effect_result (ce_store V) s1 (run_result options out now n) = (Ok o2, s')"
    using sandboxed_effect_Ok [OF assms(1)] .
  have key: "bt_get (es_idempotency s) (ei_idempotency_key ?c) = None" using assms(2) by (simp add: run_intent_def)
  obtain r1 pending x where 1: "es_events s1 = es_events s @ [r1]" "ev_event_type r1 = ''tool.intent_recorded''"
      "es_runs s1 = es_runs s" "es_idempotency s1 = bt_insert (ei_idempotency_key ?c) x (es_idempotency s)"
      "es_outbox s1 = es_outbox s @ [pending]" "ob_intent_id pending = ei_intent_id ?c" "ob_state pending = ObPending"
      "ob_payload_json pending = env_print (ce_store V) (ei_payload ?c)" "es_decisions s1 = es_decisions s"
    by (rule recorded_intent [OF i key])
  have "bt_get (es_idempotency s1) (eb_idempotency_key (run_result options out now n)) = None"
    using assms(3) by (simp add: 1(4) bt_get_insert run_intent_def run_result_def) (simp add: numbered_def)
  from recorded_result [OF r this] obtain r2 where 2: "es_events s' = es_events s1 @ [r2]"
      "ev_event_type r2 = ''tool.result_recorded''" "es_runs s' = es_runs s1" "es_decisions s' = es_decisions s1"
      and box: "es_outbox s' = map (\<lambda>row. if resolves (eb_intent_id (run_result options out now n)) row
           then row\<lparr>ob_state := disposition_state (eb_disposition (run_result options out now n)),
                    ob_result_event_id := Some (eb_event_id (run_result options out now n)),
                    ob_result_json := Some (env_print (ce_store V) (eb_result (run_result options out now n)))\<rparr> else row) (es_outbox s1)" .
  let ?row = "pending\<lparr>ob_state := ObCompleted, ob_result_event_id := Some (eb_event_id (run_result options out now n)),
      ob_result_json := Some (env_print (ce_store V) (eb_result (run_result options out now n)))\<rparr>"
  have "resolves (eb_intent_id (run_result options out now n)) pending"
    using 1(6,7) by (simp add: resolves_def run_intent_def run_result_def)
  then have "?row \<in> set (es_outbox s')" unfolding box 1(5) by (simp add: run_result_def)
  then show thesis
    using 1 2 by (intro that [of ?row]) (simp_all add: event_types_def run_intent_def)
qed

text \<open>What an execution leaves in the store: its decision, its effect, its enforcement, in this order.\<close>

lemma execution_recorded:
  assumes "shared_execute (env_hash E) (store_record_decision E) (store_record_enforcement E) en r appr now
       (sandboxed_effect V ops options program now n) registry = (en', registry', Ok out)" "E = ce_store V"
    "bt_get (es_idempotency (en_sink en)) (numbered ''intent-idem-'' n) = None"
    "bt_get (es_idempotency (en_sink en)) (numbered ''result-idem-'' n) = None"
  shows "\<exists>decision enforcement d row box.
       event_types (en_sink en') = event_types (en_sink en) @ decision @ [''tool.intent_recorded'', ''tool.result_recorded''] @ enforcement
     \<and> (case bt_get (es_decisions (en_sink en)) (pd_decision_id d) of
          None \<Rightarrow> decision = [''policy.decision_recorded''] \<and> enforcement = [''policy.enforcement_recorded'']
        | Some earlier \<Rightarrow> decision = [] \<and> at_most_one ''policy.enforcement_recorded'' enforcement
            \<and> dr_audit_json earlier = env_audit_json E (audit_from_decision (env_hash E) d r))
     \<and> pd_outcome d = OutcomeAllow \<and> pd_request_digest d = request_digest (env_hash E) r \<and> es_runs (en_sink en') = es_runs (en_sink en)
     \<and> bt_get (es_decisions (en_sink en')) (pd_decision_id d) = Some row \<and> dr_enforcement_result row = Some Succeeded
     \<and> dr_audit_json row = env_audit_json E (audit_from_decision (env_hash E) d r)
     \<and> box \<in> set (es_outbox (en_sink en')) \<and> ob_intent_id box = numbered ''intent_'' n \<and> ob_state box = ObCompleted
     \<and> ob_payload_json box = env_print E (ei_payload (run_intent options program now n))
     \<and> ob_result_json box = Some (env_print E (eb_result (run_result options out now n)))"
  using assms(1)
proof (cases rule: shared_execute_cases)
  case (ran s1 s2 res audited d)
  let ?a = "audit_from_decision (env_hash E) d r"
  have audited: "audited = Ok ()" "res = Ok out" using ran(7) by (cases audited; cases res; simp)+
  have 1: "audit_change (en_sink en) s1 ''policy.decision_recorded''" using decision_change [of "en_sink en" E ?a] ran(4) by simp
  have 3: "audit_change s2 (en_sink en') ''policy.enforcement_recorded''"
    using enforcement_change [of s2 E "pd_decision_id d" now] ran(6) audited by (metis fst_conv)
  have "es_idempotency s1 = es_idempotency (en_sink en)" using 1 by (simp add: audit_change_def)
  with assms(3,4) have keys: "bt_get (es_idempotency s1) (numbered ''intent-idem-'' n) = None"
      "bt_get (es_idempotency s1) (numbered ''result-idem-'' n) = None" by simp_all
  obtain box where 2: "event_types s2 = event_types s1 @ [''tool.intent_recorded'', ''tool.result_recorded'']"
    "box \<in> set (es_outbox s2)" "ob_intent_id box = numbered ''intent_'' n" "ob_state box = ObCompleted"
    "ob_payload_json box = env_print E (ei_payload (run_intent options program now n))"
    "es_decisions s2 = es_decisions s1" "es_runs s2 = es_runs s1"
    "ob_result_json box = Some (env_print E (eb_result (run_result options out now n)))"
    using effect_recorded [OF ran(5) [unfolded audited(2)] keys] assms(2) by metis
  obtain row where row: "bt_get (es_decisions s1) (da_decision_id ?a) = Some row" "dr_audit_json row = env_audit_json E ?a"
    using decision_row [OF ran(4)] .
  have "store_record_enforcement E s2 (pd_decision_id d) now Succeeded = (en_sink en', Ok ())"
    using ran(6) audited by simp
  from enforcement_row [OF this, of row] row 2(6) obtain row' where row': "bt_get (es_decisions (en_sink en')) (pd_decision_id d) = Some row'"
    "dr_audit_json row' = env_audit_json E ?a" "dr_enforcement_result row' = Some Succeeded"
    by (auto simp: audit_from_decision_def)
  have id: "da_decision_id ?a = pd_decision_id d" by (simp add: audit_from_decision_def)
  obtain t3 where t3: "event_types (en_sink en') = event_types s2 @ t3" "at_most_one ''policy.enforcement_recorded'' t3"
    using audit_change_types [OF 3] .
  have enforced: "store_record_enforcement E s2 (pd_decision_id d) now Succeeded = (en_sink en', Ok ())"
    using ran(6) audited by simp
  have "\<exists>t1. event_types s1 = event_types (en_sink en) @ t1 \<and> (case bt_get (es_decisions (en_sink en)) (pd_decision_id d) of
          None \<Rightarrow> t1 = [''policy.decision_recorded''] \<and> t3 = [''policy.enforcement_recorded'']
        | Some earlier \<Rightarrow> t1 = [] \<and> at_most_one ''policy.enforcement_recorded'' t3 \<and> dr_audit_json earlier = env_audit_json E ?a)"
  proof (cases "bt_get (es_decisions (en_sink en)) (pd_decision_id d)")
    case None
    note new = decision_recorded_new [OF ran(4)]
    obtain fresh where fresh: "bt_get (es_decisions s1) (pd_decision_id d) = Some fresh" "dr_enforcement_result fresh = None"
      using new(2) None id by auto
    have "event_types (en_sink en') = event_types s2 @ [''policy.enforcement_recorded'']"
      by (rule enforcement_recorded_new [OF enforced _ fresh(2)]) (simp add: 2(6) fresh(1))
    with t3(1) new(1) None id show ?thesis by simp
  next
    case (Some earlier)
    with decision_recorded_again [OF ran(4)] id t3(2) show ?thesis by simp
  qed
  then obtain t1 where t1: "event_types s1 = event_types (en_sink en) @ t1" and
    trail: "case bt_get (es_decisions (en_sink en)) (pd_decision_id d) of
          None \<Rightarrow> t1 = [''policy.decision_recorded''] \<and> t3 = [''policy.enforcement_recorded'']
        | Some earlier \<Rightarrow> t1 = [] \<and> at_most_one ''policy.enforcement_recorded'' t3 \<and> dr_audit_json earlier = env_audit_json E ?a" by blast
  have digest: "pd_request_digest d = request_digest (env_hash E) r"
    unfolding ran(2) by (simp add: decide_unfold split: option.splits)
  have "event_types (en_sink en') = event_types (en_sink en) @ t1 @ [''tool.intent_recorded'', ''tool.result_recorded''] @ t3"
    using t1 t3 2(1) by simp
  moreover have "box \<in> set (es_outbox (en_sink en'))" "es_runs (en_sink en') = es_runs (en_sink en)"
    using 1 2 3 by (simp_all add: audit_change_def)
  ultimately show ?thesis using trail digest row' 2(3-5,8) ran(3) by blast
qed simp_all

text \<open>A report of an executed child comes from an execution of the enforcement point that succeeded.\<close>

lemma executed_enforcement:
  assumes "run_in_store V ops store_dir options entry now key s run_id n host = (Ok report, host')"
    "rp_outcome report = RunExecuted code stdout stderr duration"
  obtains r engine appr en registry out where
    "run_request V options entry run_id now = Ok r" "run_engine V (ro_allowed_programs options) = Ok engine"
    "operator_grant V options r entry run_id now = Ok appr"
    "shared_execute (env_hash (ce_store V)) (store_record_decision (ce_store V)) (store_record_enforcement (ce_store V))
         (enforcer_new engine s) r appr now (sandboxed_effect V ops options entry now n) (ch_registry host)
       = (en, registry, Ok out)"
    "ch_database host' = Some (key, en_sink en)" "rp_run_id report = run_id" "rp_events report = event_count (en_sink en)"
    "RunExecuted code stdout stderr duration = RunExecuted (xo_exit_code out) (xo_stdout out) (xo_stderr out) (xo_duration_ms out)"
  using assms(1)
proof (cases rule: run_in_store_cases)
  case (enforced r engine appr en registry enforcement)
  show thesis
  proof (cases "conclude_enforcement enforcement")
    case (Inl e)
    with enforced(6) show thesis by simp
  next
    case (Inr p)
    with enforced(7) [of "fst p" "snd p"] have p: "fst p = rp_outcome report" "rp_run_id report = run_id"
      "rp_events report = event_count (en_sink en)" by auto
    with Inr assms(2) have c: "conclude_enforcement enforcement = Ok (RunExecuted code stdout stderr duration, snd p)"
      by (metis prod.collapse)
    then obtain out where out: "enforcement = Ok out" using conclude_executed by blast
    with c have "RunExecuted code stdout stderr duration = RunExecuted (xo_exit_code out) (xo_stdout out) (xo_stderr out) (xo_duration_ms out)"
      by (simp add: conclude_enforcement_def)
    with enforced(1-5) out p show thesis by (intro that [of r engine appr en registry out]) simp_all
  qed
qed simp

text \<open>The store of a run when its command starts: the run is queued, its keys are unused, and nothing else was added.\<close>

lemma opened_run_recorded:
  assumes "open_run_store V store_dir options now host = (Ok (key, s, run_id, n), host1)"
    "host_ok (ce_store V) (ro_workspace_id options) host"
  shows "run_id = run_name n" "bt_get (es_idempotency s) (numbered ''intent-idem-'' n) = None"
    "bt_get (es_idempotency s) (numbered ''result-idem-'' n) = None"
    "event_types s = host_event_types host @ [''run.queued'']" "host_decisions host = es_decisions s"
    "run_state s (run_name n) = Ok (Some Queued)"
proof -
  let ?E = "ce_store V" and ?ws = "ro_workspace_id options"
  obtain s0 c where s0: "ch_database host = None \<and> s0 = fresh_store ?ws \<or> ch_database host = Some (key, s0)" "store_ok ?E ?ws s0" "n = run_count s0 + 1"
    "run_id = run_name n" and created: "create_run ?E s0 (numbered ''event_run_'' n) ?ws run_id (ro_task_id options) now
       (numbered ''run-idem-'' n) = (Ok c, s)"
    using open_run_store_ok(2) [OF assms refl] by blast
  have unused: "bt_get (es_idempotency s0) k = None" if "k \<in> run_keys n" for k
    using fresh_run_key [of s0 n k] s0(2,3) that by (simp add: store_ok_def)
  obtain row p x where run: "es_events s = es_events s0 @ [row]" "ev_event_type row = ''run.queued''"
    "es_runs s = bt_insert run_id p (es_runs s0)" "rp_state p = ''queued''"
    "es_idempotency s = bt_insert (numbered ''run-idem-'' n) x (es_idempotency s0)" "es_decisions s = es_decisions s0"
    by (rule created_run [OF created unused]) (simp_all add: run_keys_def)
  show "run_id = run_name n" by (rule s0(4))
  show "host_decisions host = es_decisions s" using s0(1) run(6) by (auto simp: host_decisions_def fresh_store_def)
  show "bt_get (es_idempotency s) (numbered ''intent-idem-'' n) = None"
    "bt_get (es_idempotency s) (numbered ''result-idem-'' n) = None"
    using unused by (simp_all add: run(5) bt_get_insert run_keys_def) (simp_all add: numbered_def)
  show "event_types s = host_event_types host @ [''run.queued'']"
    using s0(1) run(1,2) by (auto simp: event_types_def host_event_types_def fresh_store_def)
  show "run_state s (run_name n) = Ok (Some Queued)"
    using run(3,4) s0(4) parse_state_name [of Queued] by (simp add: run_state_def bt_get_insert)
qed

lemma executed_permitted:
  assumes "run_request V options program run_id now = Ok r" "run_engine V (ro_allowed_programs options) = Ok engine"
    "operator_grant V options r program run_id now = Ok appr"
    "shared_execute H rd re (enforcer_new engine s) r appr now eff w = (en, w', Ok out)"
  shows "permitted options program"
  using assms(4)
proof (cases rule: shared_execute_cases)
  case (ran s1 s2 res audited d)
  with authorised_permitted [OF assms(1-3)] show ?thesis by (simp add: enforcer_new_def)
qed simp_all

text \<open>
  C2: an executed run is fully recorded. After any history of runs of the workspace (accepted, denied,
  failed, with any options), a run that reports an executed child was permitted and approved, and the
  store gained, in this order and nothing else: the run, its allowing decision, the pending intent with
  program and arguments, the result that completed it (made of the outcome that is reported), and the
  enforcement. The one exception to this is a
  decision whose identifier was on record before the run: then its row had the same audit record, the
  decision is not appended again and the enforcement at most once. The identifier is a hash that covers the
  digest of the request, which names this run, so this takes a collision; on a new store it is excluded.
  The chain verifies. The run itself stays queued: no part of the code moves it on.
\<close>

theorem executed_run_is_recorded:
  assumes "\<forall>run \<in> set earlier. ce_store (fst run) = ce_store V \<and> ro_workspace_id (snd run) = ro_workspace_id options"
    "ch_database start = None" "host = foldl (run_step ops store_dir) start earlier"
    "execute_run V ops store_dir options host = (Ok report, host')"
    "rp_outcome report = RunExecuted code stdout stderr duration"
  shows "\<exists>dir entry key s n decision enforcement d row out r xo.
       program_location V (ch_files host) options = Ok (dir, entry) \<and> permitted options entry
     \<and> ch_database host' = Some (key, s) \<and> rp_run_id report = run_name n \<and> rp_events report = event_count s
     \<and> rp_hash_chain_verified report
     \<and> event_types s = host_event_types host @ [''run.queued''] @ decision
          @ [''tool.intent_recorded'', ''tool.result_recorded''] @ enforcement
     \<and> (case bt_get (host_decisions host) (pd_decision_id d) of
          None \<Rightarrow> decision = [''policy.decision_recorded''] \<and> enforcement = [''policy.enforcement_recorded'']
        | Some earlier \<Rightarrow> decision = [] \<and> at_most_one ''policy.enforcement_recorded'' enforcement
            \<and> dr_audit_json earlier = env_audit_json (ce_store V) (audit_from_decision (env_hash (ce_store V)) d r))
     \<and> pd_request_digest d = request_digest (env_hash (ce_store V)) r \<and> cr_request_id r = ''req-'' @ run_name n
     \<and> pd_outcome d = OutcomeAllow \<and> bt_get (es_decisions s) (pd_decision_id d) = Some row
     \<and> dr_audit_json row = env_audit_json (ce_store V) (audit_from_decision (env_hash (ce_store V)) d r)
     \<and> cr_resource r = process_resource entry \<and> dr_enforcement_result row = Some Succeeded
     \<and> out \<in> set (es_outbox s) \<and> ob_intent_id out = numbered ''intent_'' n \<and> ob_state out = ObCompleted
     \<and> ob_payload_json out = env_print (ce_store V)
          (JObj [(''arguments'', JArr (map JStr (ro_arguments options))), (''program'', JStr entry)])
     \<and> xo_exit_code xo = code \<and> xo_stdout xo = stdout \<and> xo_stderr xo = stderr \<and> xo_duration_ms xo = duration
     \<and> ob_result_json out = Some (env_print (ce_store V)
          (eb_result (run_result options xo (unix_ms V (ro_now_ms options)) n)))
     \<and> run_state s (run_name n) = Ok (Some Queued)"
proof -
  let ?E = "ce_store V" and ?ws = "ro_workspace_id options" and ?now = "unix_ms V (ro_now_ms options)"
  have ok: "host_ok ?E ?ws host"
    unfolding assms(3) by (rule history_ok [OF assms(1)]) (simp add: host_ok_def assms(2))
  note verified = execute_run_ok(2) [OF assms(4) ok, of report, simplified]
  from assms(4) show ?thesis
  proof (cases rule: execute_run_cases)
    case (opened dir entry key s run_id n host1)
    have run_id: "run_id = run_name n" and keys: "bt_get (es_idempotency s) (numbered ''intent-idem-'' n) = None"
      "bt_get (es_idempotency s) (numbered ''result-idem-'' n) = None"
      and types: "event_types s = host_event_types host @ [''run.queued'']" and decisions: "host_decisions host = es_decisions s"
      and queued: "run_state s (run_name n) = Ok (Some Queued)"
      using opened_run_recorded [OF opened(2) ok] by auto
    obtain r engine appr en registry out where ex: "run_request V options entry run_id ?now = Ok r"
      "run_engine V (ro_allowed_programs options) = Ok engine" "operator_grant V options r entry run_id ?now = Ok appr"
      "shared_execute (env_hash ?E) (store_record_decision ?E) (store_record_enforcement ?E)
         (enforcer_new engine s) r appr ?now (sandboxed_effect V ops options entry ?now n) (ch_registry host1)
       = (en, registry, Ok out)"
      "ch_database host' = Some (key, en_sink en)" "rp_run_id report = run_id" "rp_events report = event_count (en_sink en)"
      "RunExecuted code stdout stderr duration = RunExecuted (xo_exit_code out) (xo_stdout out) (xo_stderr out) (xo_duration_ms out)"
      using executed_enforcement [OF opened(3) assms(5)] .
    have "permitted options entry" by (rule executed_permitted [OF ex(1-4)])
    moreover from execution_recorded [OF ex(4) refl] keys obtain decision enforcement d row' box where
      "event_types (en_sink en) = event_types s @ decision @ [''tool.intent_recorded'', ''tool.result_recorded''] @ enforcement"
      "case bt_get (es_decisions s) (pd_decision_id d) of
          None \<Rightarrow> decision = [''policy.decision_recorded''] \<and> enforcement = [''policy.enforcement_recorded'']
        | Some earlier \<Rightarrow> decision = [] \<and> at_most_one ''policy.enforcement_recorded'' enforcement
            \<and> dr_audit_json earlier = env_audit_json ?E (audit_from_decision (env_hash ?E) d r)"
      "pd_request_digest d = request_digest (env_hash ?E) r"
      "pd_outcome d = OutcomeAllow" "es_runs (en_sink en) = es_runs s"
      "bt_get (es_decisions (en_sink en)) (pd_decision_id d) = Some row'" "dr_enforcement_result row' = Some Succeeded"
      "dr_audit_json row' = env_audit_json ?E (audit_from_decision (env_hash ?E) d r)"
      "box \<in> set (es_outbox (en_sink en))" "ob_intent_id box = numbered ''intent_'' n" "ob_state box = ObCompleted"
      "ob_payload_json box = env_print ?E (ei_payload (run_intent options entry ?now n))"
      "ob_result_json box = Some (env_print ?E (eb_result (run_result options out ?now n)))"
      by (auto simp: enforcer_new_def)
    moreover from this(5) have "run_state (en_sink en) (run_name n) = Ok (Some Queued)"
      using queued by (simp add: run_state_def)
    ultimately show ?thesis
      using opened(1) ex(5-8) types run_id run_request_fields(2,5) [OF ex(1)] verified decisions
      by (intro exI [of _ dir] exI [of _ entry] exI [of _ key] exI [of _ "en_sink en"] exI [of _ n] exI [of _ decision]
          exI [of _ enforcement] exI [of _ d] exI [of _ row'] exI [of _ box] exI [of _ r] exI [of _ out]) (simp add: run_intent_def)
  qed simp_all
qed

lemma run_in_store_executes:
  assumes "run_request V options entry run_id now = Ok r" "run_engine V (ro_allowed_programs options) = Ok engine"
    "operator_grant V options r entry run_id now = Ok appr" "ce_store V = E" "env_hash E = H"
    "shared_execute H (store_record_decision E) (store_record_enforcement E) (enforcer_new engine s) r appr now
       (sandboxed_effect V ops options entry now n) (ch_registry host) = (en, registry, Ok out)"
  shows "\<exists>report host'. run_in_store V ops store_dir options entry now key s run_id n host = (Ok report, host')
     \<and> rp_outcome report = RunExecuted (xo_exit_code out) (xo_stdout out) (xo_stderr out) (xo_duration_ms out)"
  using assms by (simp add: run_in_store_def conclude_enforcement_def Let_def)

lemma execute_run_opened:
  assumes "program_location V (ch_files host) options = Ok (dir, entry)" "unix_ms V (ro_now_ms options) = now"
    "open_run_store V store_dir options now host = (Ok (key, s, run_id, n), host1)"
  shows "execute_run V ops store_dir options host = run_in_store V ops store_dir options entry now key s run_id n host1"
  using assms by (simp add: execute_run_def)

section \<open>A concrete run\<close>

definition sample_cmd_env :: command_env where
  "sample_cmd_env = \<lparr>ce_store = sample_env, ce_bundles = (\<lambda>_. Some []), ce_plan = (\<lambda>_. Some []), ce_cwd = [], ce_clock = 1,
     ce_random = Some (replicate 32 (CHR ''k''))\<rparr>"

definition sample_command :: run_options where
  "sample_command = \<lparr>ro_workspace_id = ''ws'', ro_task_id = ''t1'', ro_program = ''/bin/git'', ro_arguments = [''status''],
     ro_allowed_programs = [''git''], ro_approved = True, ro_now_ms = None, ro_stdin = None\<rparr>"

definition sample_core :: "fake_backend core_host" where
  "sample_core = \<lparr>ch_files = [([''bin''], FsDir), ([''bin'', ''git''], FsFile [])], ch_database = None,
     ch_registry = \<lparr>br_backends = [fake_new Linux fake_config_default []], br_testing = True\<rparr>\<rparr>"

abbreviation sample_ask :: capability_request where
  "sample_ask \<equiv> projr (run_request sample_cmd_env sample_command ''git'' ''run_0001'' 1)"

abbreviation sample_pdp :: policy_engine where
  "sample_pdp \<equiv> projr (run_engine sample_cmd_env [''git''])"

abbreviation sample_given :: approval_grant where
  "sample_given \<equiv> the (projr (operator_grant sample_cmd_env sample_command sample_ask ''git'' ''run_0001'' 1))"

abbreviation sample_allow :: policy_decision where
  "sample_allow \<equiv> decide sample_hash sample_pdp sample_ask True"

abbreviation sample_queued :: event_store where
  "sample_queued \<equiv> snd (create_run sample_env (fresh_store ''ws'') ''event_run_1'' ''ws'' ''run_0001'' ''t1'' 1 ''run-idem-1'')"

abbreviation sample_decided :: event_store where
  "sample_decided \<equiv> fst (store_record_decision sample_env sample_queued (audit_from_decision sample_hash sample_allow sample_ask))"

abbreviation sample_intended :: event_store where
  "sample_intended \<equiv> snd (record_effect_intent sample_env sample_decided (run_intent sample_command ''git'' 1 1))"

abbreviation sample_finished :: event_store where
  "sample_finished \<equiv> snd (record_effect_result sample_env sample_intended (run_result sample_command default_outcome 1 1))"

lemma sample_located: "program_location sample_cmd_env (ch_files sample_core) sample_command = Ok ([''bin''], ''git'')"
  by code_simp

lemma sample_opened:
  "\<exists>key host1. open_run_store sample_cmd_env ''/s'' sample_command 1 sample_core = (Ok (key, sample_queued, ''run_0001'', 1), host1)
     \<and> ch_registry host1 = ch_registry sample_core"
proof -
  have made: "fst (fs_mkdirs (ch_files sample_core) [] (HostFiles.path_join (absolute_path []) ''/s'')) = True" by code_simp
  have key: "\<not> isl (fst (load_or_create_key sample_cmd_env ''/s''
      (snd (fs_mkdirs (ch_files sample_core) [] (HostFiles.path_join (absolute_path []) ''/s'')))))" by code_simp
  have run: "fst (create_run sample_env (fresh_store ''ws'') ''event_run_1'' ''ws'' ''run_0001'' ''t1'' 1 ''run-idem-1'') = Ok (Committed ''event_run_1'')"
    by code_simp
  have names: "run_name 1 = ''run_0001''" "numbered ''event_run_'' 1 = ''event_run_1''" "numbered ''run-idem-'' 1 = ''run-idem-1''" by code_simp+
  obtain files where files: "fs_mkdirs (ch_files sample_core) [] (HostFiles.path_join (absolute_path []) ''/s'') = (True, files)"
    using made by (metis prod.collapse)
  obtain k files1 where k: "load_or_create_key sample_cmd_env ''/s'' files = (Ok k, files1)"
    using key files by (cases "load_or_create_key sample_cmd_env ''/s'' files"; cases "fst (load_or_create_key sample_cmd_env ''/s'' files)") auto
  have cwd: "ce_cwd sample_cmd_env = []" "ce_store sample_cmd_env = sample_env" "ro_workspace_id sample_command = ''ws''"
    "ro_task_id sample_command = ''t1''" "ch_database sample_core = None"
    by (simp_all add: sample_cmd_env_def sample_command_def sample_core_def)
  have o: "open_database sample_env ''ws'' k None = Ok (fresh_store ''ws'')" by (simp add: open_database_def)
  have count: "run_count (fresh_store ''ws'') + 1 = 1" by (simp add: run_count_def fresh_store_def)
  obtain s1 where s1: "create_run sample_env (fresh_store ''ws'') ''event_run_1'' ''ws'' ''run_0001'' ''t1'' 1 ''run-idem-1'' = (Ok (Committed ''event_run_1''), s1)"
    using run by (metis prod.collapse)
  have "open_run_store sample_cmd_env ''/s'' sample_command 1 sample_core
     = (Ok (k, s1, ''run_0001'', 1), sample_core\<lparr>ch_files := files1, ch_database := Some (k, s1)\<rparr>)"
    by (simp only: open_run_store_def cwd files k o count names s1 Let_def prod.case sum.case bool.case core_host.simps)
  with s1 show ?thesis by simp
qed

text \<open>The request, the policy and the grant of the run, evaluated once for all that is asked of them.\<close>

lemma sample_judged:
  "(let ask = run_request sample_cmd_env sample_command ''git'' ''run_0001'' 1; pdp = run_engine sample_cmd_env [''git''];
        given = operator_grant sample_cmd_env sample_command (projr ask) ''git'' ''run_0001'' 1
    in \<not> isl ask \<and> \<not> isl pdp \<and> \<not> isl given \<and> projr given \<noteq> None
       \<and> pd_outcome (decide sample_hash (projr pdp) (projr ask) False) = OutcomeRequireApproval
       \<and> ledger_validate sample_hash ledger_default (the (projr given)) (projr ask) 1 = Ok ()
       \<and> pd_outcome (decide sample_hash (projr pdp) (projr ask) True) = OutcomeAllow)"
  by code_simp

text \<open>The writes of the run, each on the store the one before it left.\<close>

lemma sample_written:
  "(let ask = projr (run_request sample_cmd_env sample_command ''git'' ''run_0001'' 1);
        allow = decide sample_hash (projr (run_engine sample_cmd_env [''git''])) ask True;
        queued = snd (create_run sample_env (fresh_store ''ws'') ''event_run_1'' ''ws'' ''run_0001'' ''t1'' 1 ''run-idem-1'');
        decided = store_record_decision sample_env queued (audit_from_decision sample_hash allow ask);
        intended = record_effect_intent sample_env (fst decided) (run_intent sample_command ''git'' 1 1);
        finished = record_effect_result sample_env (snd intended) (run_result sample_command default_outcome 1 1)
    in snd decided = Ok () \<and> \<not> isl (fst intended) \<and> \<not> isl (fst finished)
       \<and> snd (store_record_enforcement sample_env (snd finished) (pd_decision_id allow) 1 Succeeded) = Ok ())"
  by code_simp

lemmas sample_judgments = sample_judged [unfolded Let_def]
lemmas sample_writes = sample_written [unfolded Let_def]

lemma sample_effect:
  "\<exists>registry. sandboxed_effect sample_cmd_env (fake_ops sample_hash) sample_command ''git'' 1 1 (sample_decided, ch_registry sample_core)
     = ((sample_finished, registry), Ok default_outcome)"
proof -
  have intent: "\<not> isl (fst (record_effect_intent sample_env sample_decided (run_intent sample_command ''git'' 1 1)))"
    using sample_writes by blast
  have result: "\<not> isl (fst (record_effect_result sample_env sample_intended (run_result sample_command default_outcome 1 1)))"
    using sample_writes by blast
  have exec: "fst (exec_in_registry sample_cmd_env (fake_ops sample_hash) (build_plan sample_command ''/bin'' ''git'') (ch_registry sample_core))
      = Ok default_outcome" by code_simp
  have "path_parent ''/bin/git'' = Some ''/bin''" by code_simp
  then have dir: "path_parent (ro_program sample_command) = Some ''/bin''" by (simp add: sample_command_def)
  have env: "ce_store sample_cmd_env = sample_env" by (simp add: sample_cmd_env_def)
  obtain o1 s1 where i: "record_effect_intent sample_env sample_decided (run_intent sample_command ''git'' 1 1) = (Ok o1, s1)"
    using intent by (metis prod.collapse sum.collapse(2))
  with result obtain o2 s2 where r: "record_effect_result sample_env s1 (run_result sample_command default_outcome 1 1) = (Ok o2, s2)"
    by (metis prod.collapse snd_conv sum.collapse(2))
  obtain registry where x: "exec_in_registry sample_cmd_env (fake_ops sample_hash) (build_plan sample_command ''/bin'' ''git'') (ch_registry sample_core)
      = (Ok default_outcome, registry)" using exec by (metis prod.collapse)
  have "sandboxed_effect sample_cmd_env (fake_ops sample_hash) sample_command ''git'' 1 1 (sample_decided, ch_registry sample_core)
     = ((s2, registry), Ok default_outcome)"
    by (simp only: sandboxed_effect_def dir env i r x Let_def prod.case sum.case option.case)
  with i r show ?thesis by (metis snd_conv)
qed

lemma sample_enforced:
  "\<exists>en registry. shared_execute sample_hash (store_record_decision sample_env) (store_record_enforcement sample_env)
       (enforcer_new sample_pdp sample_queued) sample_ask (Some sample_given) 1
       (sandboxed_effect sample_cmd_env (fake_ops sample_hash) sample_command ''git'' 1 1) (ch_registry sample_core)
     = (en, registry, Ok default_outcome)"
proof -
  have asks: "pd_outcome (decide sample_hash sample_pdp sample_ask False) = OutcomeRequireApproval" using sample_judgments by blast
  have grant: "ledger_validate sample_hash ledger_default sample_given sample_ask 1 = Ok ()" using sample_judgments by blast
  have allow: "pd_outcome sample_allow = OutcomeAllow" using sample_judgments by blast
  have decided: "snd (store_record_decision sample_env sample_queued (audit_from_decision sample_hash sample_allow sample_ask)) = Ok ()"
    using sample_writes by blast
  have enforced: "snd (store_record_enforcement sample_env sample_finished (pd_decision_id sample_allow) 1 Succeeded) = Ok ()"
    using sample_writes by blast
  obtain registry where effect: "sandboxed_effect sample_cmd_env (fake_ops sample_hash) sample_command ''git'' 1 1
      (sample_decided, ch_registry sample_core) = ((sample_finished, registry), Ok default_outcome)"
    using sample_effect by blast
  obtain s1 where s1: "store_record_decision sample_env sample_queued (audit_from_decision sample_hash sample_allow sample_ask) = (s1, Ok ())"
    using decided by (metis prod.collapse)
  obtain s3 where s3: "store_record_enforcement sample_env sample_finished (pd_decision_id sample_allow) 1 Succeeded = (s3, Ok ())"
    using enforced by (metis prod.collapse)
  from effect s1 have effect': "sandboxed_effect sample_cmd_env (fake_ops sample_hash) sample_command ''git'' 1 1
      (s1, ch_registry sample_core) = ((sample_finished, registry), Ok default_outcome)" by (metis fst_conv)
  let ?en = "enforcer_new sample_pdp sample_queued"
  have parts: "en_engine ?en = sample_pdp" "en_sink ?en = sample_queued" "en_approvals ?en = ledger_default"
    by (simp_all only: enforcer_new_def policy_enforcer.simps)
  show ?thesis
    using approved_execution [of sample_hash ?en sample_ask sample_given 1 "store_record_decision sample_env" s1
        "sandboxed_effect sample_cmd_env (fake_ops sample_hash) sample_command ''git'' 1 1" "ch_registry sample_core" sample_finished
        registry default_outcome "store_record_enforcement sample_env" s3, unfolded parts, OF asks grant allow s1 effect' s3]
    by blast
qed

lemma sample_executes:
  "\<exists>report host'. execute_run sample_cmd_env (fake_ops sample_hash) ''/s'' sample_command sample_core = (Ok report, host')
     \<and> rp_outcome report = RunExecuted (Some 0) [] [] 0"
proof -
  have now: "unix_ms sample_cmd_env (ro_now_ms sample_command) = 1" by (simp add: unix_ms_def sample_command_def sample_cmd_env_def)
  have env: "env_hash (ce_store sample_cmd_env) = sample_hash" "ce_store sample_cmd_env = sample_env"
    by (simp_all add: sample_cmd_env_def sample_env_def)
  obtain key host1 where o: "open_run_store sample_cmd_env ''/s'' sample_command 1 sample_core = (Ok (key, sample_queued, ''run_0001'', 1), host1)"
    "ch_registry host1 = ch_registry sample_core" using sample_opened by blast
  obtain en registry where e: "shared_execute sample_hash (store_record_decision sample_env) (store_record_enforcement sample_env)
       (enforcer_new sample_pdp sample_queued) sample_ask (Some sample_given) 1
       (sandboxed_effect sample_cmd_env (fake_ops sample_hash) sample_command ''git'' 1 1) (ch_registry host1)
     = (en, registry, Ok default_outcome)" using sample_enforced o(2) by metis
  have "\<not> isl (run_request sample_cmd_env sample_command ''git'' ''run_0001'' 1)" "\<not> isl (run_engine sample_cmd_env [''git''])"
    "\<not> isl (operator_grant sample_cmd_env sample_command sample_ask ''git'' ''run_0001'' 1)"
    "projr (operator_grant sample_cmd_env sample_command sample_ask ''git'' ''run_0001'' 1) \<noteq> None" using sample_judgments by blast+
  then have r: "run_request sample_cmd_env sample_command ''git'' ''run_0001'' 1 = Ok sample_ask"
    "run_engine sample_cmd_env [''git''] = Ok sample_pdp"
    "operator_grant sample_cmd_env sample_command sample_ask ''git'' ''run_0001'' 1 = Ok (Some sample_given)" by simp_all
  have allowed: "ro_allowed_programs sample_command = [''git'']" by (simp add: sample_command_def)
  have out: "RunExecuted (xo_exit_code default_outcome) (xo_stdout default_outcome) (xo_stderr default_outcome) (xo_duration_ms default_outcome)
      = RunExecuted (Some 0) [] [] 0" by (simp add: default_outcome_def)
  have engine: "run_engine sample_cmd_env (ro_allowed_programs sample_command) = Ok sample_pdp" unfolding allowed by (rule r(2))
  have hash: "env_hash sample_env = sample_hash" by (simp only: sample_env_def store_env.simps)
  show ?thesis
    unfolding execute_run_opened [OF sample_located now o(1)]
    by (rule run_in_store_executes [OF r(1) engine r(3) env(2) hash e, unfolded out])
qed

theorem run_needs_permit_and_approval_witness:
  "ch_registry (snd (execute_run sample_cmd_env (fake_ops sample_hash) ''/s'' (sample_command\<lparr>ro_approved := False\<rparr>) sample_core)) = ch_registry sample_core"
proof -
  have "program_location sample_cmd_env (ch_files sample_core) (sample_command\<lparr>ro_approved := False\<rparr>) = Ok ([''bin''], ''git'')"
    unfolding sample_located [symmetric] by (simp add: program_location_def Let_def cong: option.case_cong if_cong)
  moreover have "\<not> permitted (sample_command\<lparr>ro_approved := False\<rparr>) ''git''" by (simp add: permitted_def)
  ultimately show ?thesis
    using run_needs_permit_and_approval [OF _ _ surjective_pairing] by blast
qed

theorem executed_run_is_recorded_witness:
  "\<exists>key s. ch_database (snd (execute_run sample_cmd_env (fake_ops sample_hash) ''/s'' sample_command sample_core)) = Some (key, s)
     \<and> event_types s = [''run.queued'', ''policy.decision_recorded'', ''tool.intent_recorded'', ''tool.result_recorded'',
          ''policy.enforcement_recorded'']"
proof -
  obtain report host' where x: "execute_run sample_cmd_env (fake_ops sample_hash) ''/s'' sample_command sample_core = (Ok report, host')"
    "rp_outcome report = RunExecuted (Some 0) [] [] 0" using sample_executes by blast
  have none: "ch_database sample_core = None" by (simp add: sample_core_def)
  from executed_run_is_recorded [of "[]" sample_cmd_env sample_command sample_core sample_core "fake_ops sample_hash" "''/s''", OF _ none _ x]
  show ?thesis by (auto simp: x(1) host_event_types_def host_decisions_def none bt_get_def)
qed

section \<open>What a run does not promise\<close>

text \<open>
  The request names the program by its base name only, and neither its directory nor the payload on
  standard input is part of the operation hash: the same permit and the same approval carry a
  program of the same name from any directory and any input.
\<close>

lemma request_ignores_directory_and_stdin:
  "run_request V (options\<lparr>ro_program := p, ro_stdin := i\<rparr>) entry run_id now = run_request V options entry run_id now"
  "operator_grant V (options\<lparr>ro_program := p, ro_stdin := i\<rparr>) r entry run_id now = operator_grant V options r entry run_id now"
  by (simp_all add: run_request_def operator_grant_def cong: sum.case_cong)

lemma same_name_other_directory:
  assumes "files = [([''bin''], FsDir), ([''bin'', ''git''], FsFile []), ([''tmp''], FsDir), ([''tmp'', ''git''], FsFile [])]"
  shows "program_location V files (options\<lparr>ro_program := ''/bin/git''\<rparr>) = Ok ([''bin''], ''git'')"
    "program_location V files (options\<lparr>ro_program := ''/tmp/git''\<rparr>) = Ok ([''tmp''], ''git'')"
proof -
  have "fs_canonicalize files cwd (path_components ''/bin/git'') = Some [''bin'', ''git'']"
    "fs_canonicalize files cwd (path_components ''/tmp/git'') = Some [''tmp'', ''git'']" for cwd
    unfolding assms by code_simp+
  moreover have "utf8_valid ''git''" by code_simp
  ultimately show "program_location V files (options\<lparr>ro_program := ''/bin/git''\<rparr>) = Ok ([''bin''], ''git'')"
    "program_location V files (options\<lparr>ro_program := ''/tmp/git''\<rparr>) = Ok ([''tmp''], ''git'')"
    by (simp_all add: program_location_def)
qed

text \<open>
  The decision is about the resolved name, the plan mounts the directory of the name as given: through
  a link the executed path \<open>/tools/<resolved name>\<close> need not exist in the mounted directory.
\<close>

lemma linked_program_is_not_mounted:
  assumes "files = [([''bin''], FsDir), ([''bin'', ''python''], FsLink [RootDir, Normal ''lib'', Normal ''python3'']),
     ([''lib''], FsDir), ([''lib'', ''python3''], FsFile [])]"
    "ro_program options = ''/bin/python''"
  shows "program_location V files options = Ok ([''lib''], ''python3'') \<and> path_parent (ro_program options) = Some ''/bin''
    \<and> fs_get files [''bin'', ''python3''] = None"
proof -
  have "fs_canonicalize files cwd (path_components ''/bin/python'') = Some [''lib'', ''python3'']" for cwd
    unfolding assms by code_simp
  moreover have "utf8_valid ''python3''" "path_parent ''/bin/python'' = Some ''/bin''" "fs_get files [''bin'', ''python3''] = None"
    unfolding assms by code_simp+
  ultimately show ?thesis by (simp add: program_location_def assms(2))
qed

text \<open>A mount or network step that fails returns before the realm is destroyed.\<close>

lemma failed_mount_keeps_realm:
  assumes "bo_create ops b validated = (Ok h, b1)" "mount_each ops h (sp_mounts (vp_plan validated)) b1 = (Err e, b2)"
  shows "exec_in_backend ops validated b = (Err e, b2)"
  using assms by (simp add: exec_in_backend_def)

text \<open>A key file that cannot be read, or is not 32 bytes long, is overwritten with a new key.\<close>

lemma unreadable_key_is_replaced:
  assumes "fs_read files (key_path V store_dir) = Some damaged" "length damaged \<noteq> 32" "ce_random V = Some key"
    "fs_write files (key_path V store_dir) key = Some files'" "key \<noteq> file_key"
  shows "load_or_create_key V store_dir files = (Ok key, files')"
    "open_database E ws key (Some (file_key, s)) = Err DatabaseError"
  using assms by (simp_all add: load_or_create_key_def open_database_def)

end
