(* ===== verification/ControlProtocol.thy ===== *)
theory ControlProtocol
  imports Json
begin

text \<open>
  The local control protocol (\<open>crates/core-protocol/src/lib.rs\<close> with the request types of
  \<open>generated.rs\<close>): decoding and validation of a bounded frame, the idempotency ledger, and the local
  endpoint of a workspace. Parsing JSON text is a parameter; reading a value into the closed request
  types is written out, as the derived deserialisation does it (from an object or from an array, a unit
  variant from its name or from an object with that single key).
\<close>

section \<open>Vocabulary\<close>

definition PROTOCOL_VERSION :: string where "PROTOCOL_VERSION = ''1.0.0''"
definition PREVIOUS_PROTOCOL_VERSION :: string where "PREVIOUS_PROTOCOL_VERSION = ''0.1.0''"
definition MAX_FRAME_BYTES :: nat where "MAX_FRAME_BYTES = 1024 * 1024"

definition is_compatible :: "string \<Rightarrow> bool" where
  "is_compatible peer_version \<longleftrightarrow> peer_version = PROTOCOL_VERSION \<or> peer_version = PREVIOUS_PROTOCOL_VERSION"

datatype protocol_error =
    FrameTooLarge | InvalidJson | PeInvalidRequest | InvalidJsonRpcVersion | IncompatibleProtocol | UnknownMethod
  | DeadlineElapsed | IdempotencyRequired | PeIdempotencyConflict | InvalidWorkspaceId | Unauthorized

fun protocol_error_code :: "protocol_error \<Rightarrow> string" where
  "protocol_error_code FrameTooLarge = ''frame_too_large''"
| "protocol_error_code InvalidJson = ''invalid_json''"
| "protocol_error_code PeInvalidRequest = ''invalid_request''"
| "protocol_error_code InvalidJsonRpcVersion = ''invalid_jsonrpc_version''"
| "protocol_error_code IncompatibleProtocol = ''incompatible_protocol''"
| "protocol_error_code UnknownMethod = ''unknown_method''"
| "protocol_error_code DeadlineElapsed = ''deadline_exceeded''"
| "protocol_error_code IdempotencyRequired = ''idempotency_required''"
| "protocol_error_code PeIdempotencyConflict = ''idempotency_conflict''"
| "protocol_error_code InvalidWorkspaceId = ''invalid_workspace_id''"
| "protocol_error_code Unauthorized = ''unauthorized''"

datatype control_method =
    CmApprovalResolve | CmChangesetApply | CmChangesetCommit | CmChangesetPrepare | CmChangesetRollback
  | CmCoreHealth | CmCoreInitialize | CmEventsSubscribe | CmGoalCreate | CmPlanFreeze | CmRunCancel | CmRunFork
  | CmRunPause | CmRunResume | CmRunRetry | CmRunStart | CmRunSteer | CmTaskDelegate | CmWorktreeCreate | CmWorktreeIntegrate

definition all_methods :: "control_method list" where
  "all_methods = [CmApprovalResolve, CmChangesetApply, CmChangesetCommit, CmChangesetPrepare, CmChangesetRollback,
     CmCoreHealth, CmCoreInitialize, CmEventsSubscribe, CmGoalCreate, CmPlanFreeze, CmRunCancel, CmRunFork,
     CmRunPause, CmRunResume, CmRunRetry, CmRunStart, CmRunSteer, CmTaskDelegate, CmWorktreeCreate, CmWorktreeIntegrate]"

fun method_name :: "control_method \<Rightarrow> string" where
  "method_name CmApprovalResolve = ''approval.resolve''"
| "method_name CmChangesetApply = ''changeset.apply''"
| "method_name CmChangesetCommit = ''changeset.commit''"
| "method_name CmChangesetPrepare = ''changeset.prepare''"
| "method_name CmChangesetRollback = ''changeset.rollback''"
| "method_name CmCoreHealth = ''core.health''"
| "method_name CmCoreInitialize = ''core.initialize''"
| "method_name CmEventsSubscribe = ''events.subscribe''"
| "method_name CmGoalCreate = ''goal.create''"
| "method_name CmPlanFreeze = ''plan.freeze''"
| "method_name CmRunCancel = ''run.cancel''"
| "method_name CmRunFork = ''run.fork''"
| "method_name CmRunPause = ''run.pause''"
| "method_name CmRunResume = ''run.resume''"
| "method_name CmRunRetry = ''run.retry''"
| "method_name CmRunStart = ''run.start''"
| "method_name CmRunSteer = ''run.steer''"
| "method_name CmTaskDelegate = ''task.delegate''"
| "method_name CmWorktreeCreate = ''worktree.create''"
| "method_name CmWorktreeIntegrate = ''worktree.integrate''"

definition method_from_str :: "string \<Rightarrow> control_method option" where
  "method_from_str s = find (\<lambda>m. method_name m = s) all_methods"

record request_context =
  rc_request_id :: string
  rc_actor_id :: string
  rc_workspace_id :: string
  rc_causation_id :: "string option"
  rc_deadline_unix_ms :: u64
  rc_idempotency_key :: "string option"

record control_request =
  cq_jsonrpc :: string
  cq_protocol_version :: string
  cq_method :: control_method
  cq_context :: request_context
  cq_params :: json

definition is_mutation :: "control_method \<Rightarrow> bool" where
  "is_mutation method \<longleftrightarrow> method \<notin> {CmEventsSubscribe, CmCoreInitialize, CmCoreHealth}"

section \<open>Reading a request\<close>

fun read_opt_string :: "json \<Rightarrow> string option option" where
  "read_opt_string JNull = Some None"
| "read_opt_string (JStr s) = Some (Some s)"
| "read_opt_string _ = None"

fun read_u64 :: "json \<Rightarrow> u64 option" where
  "read_u64 (JNum i) = (if 0 \<le> i \<and> i < 2 ^ 64 then Some (word_of_int i) else None)"
| "read_u64 _ = None"

fun read_method :: "json \<Rightarrow> control_method option" where
  "read_method (JStr s) = method_from_str s"
| "read_method (JObj [(s, JNull)]) = method_from_str s"
| "read_method _ = None"

definition build_context ::
  "json option \<Rightarrow> json option \<Rightarrow> json option \<Rightarrow> json option \<Rightarrow> json option \<Rightarrow> json option \<Rightarrow> request_context option" where
  "build_context request_id actor_id workspace_id causation_id deadline idempotency_key =
     (case (Option.bind request_id json_str, Option.bind actor_id json_str, Option.bind workspace_id json_str,
            (case causation_id of None \<Rightarrow> Some None | Some v \<Rightarrow> read_opt_string v), Option.bind deadline read_u64,
            (case idempotency_key of None \<Rightarrow> Some None | Some v \<Rightarrow> read_opt_string v)) of
        (Some r, Some a, Some w, Some c, Some d, Some k) \<Rightarrow>
          Some \<lparr>rc_request_id = r, rc_actor_id = a, rc_workspace_id = w, rc_causation_id = c, rc_deadline_unix_ms = d,
                rc_idempotency_key = k\<rparr>
      | _ \<Rightarrow> None)"

definition only_fields :: "(string \<times> json) list \<Rightarrow> string list \<Rightarrow> bool" where
  "only_fields fs known \<longleftrightarrow> list_all (\<lambda>f. fst f \<in> set known) fs"

fun read_context :: "json \<Rightarrow> request_context option" where
  "read_context (JObj fs) =
     (if only_fields fs [''request_id'', ''actor_id'', ''workspace_id'', ''causation_id'', ''deadline_unix_ms'', ''idempotency_key'']
      then build_context (map_of fs ''request_id'') (map_of fs ''actor_id'') (map_of fs ''workspace_id'')
             (map_of fs ''causation_id'') (map_of fs ''deadline_unix_ms'') (map_of fs ''idempotency_key'')
      else None)"
| "read_context (JArr [r, a, w, c, d]) = build_context (Some r) (Some a) (Some w) (Some c) (Some d) None"
| "read_context (JArr [r, a, w, c, d, k]) = build_context (Some r) (Some a) (Some w) (Some c) (Some d) (Some k)"
| "read_context _ = None"

definition build_request ::
  "json option \<Rightarrow> json option \<Rightarrow> json option \<Rightarrow> json option \<Rightarrow> json option \<Rightarrow> control_request option" where
  "build_request jsonrpc version method context params =
     (case (Option.bind jsonrpc json_str, Option.bind version json_str, Option.bind method read_method,
            Option.bind context read_context, params) of
        (Some j, Some v, Some m, Some c, Some p) \<Rightarrow>
          Some \<lparr>cq_jsonrpc = j, cq_protocol_version = v, cq_method = m, cq_context = c, cq_params = p\<rparr>
      | _ \<Rightarrow> None)"

fun read_request :: "json \<Rightarrow> control_request option" where
  "read_request (JObj fs) =
     (if only_fields fs [''jsonrpc'', ''protocol_version'', ''method'', ''context'', ''params'']
      then build_request (map_of fs ''jsonrpc'') (map_of fs ''protocol_version'') (map_of fs ''method'')
             (map_of fs ''context'') (map_of fs ''params'')
      else None)"
| "read_request (JArr [j, v, m, c, p]) = build_request (Some j) (Some v) (Some m) (Some c) (Some p)"
| "read_request _ = None"

definition decode_request :: "(string \<Rightarrow> json option) \<Rightarrow> string \<Rightarrow> u64 \<Rightarrow> protocol_error + control_request" where
  "decode_request parse frame now =
     (if MAX_FRAME_BYTES < length frame then Err FrameTooLarge
      else case parse frame of None \<Rightarrow> Err InvalidJson | Some raw \<Rightarrow>
        (if (case Option.bind (json_get raw ''method'') json_str of None \<Rightarrow> False | Some m \<Rightarrow> method_from_str m = None)
         then Err UnknownMethod
         else case read_request raw of None \<Rightarrow> Err PeInvalidRequest | Some request \<Rightarrow>
           if cq_jsonrpc request \<noteq> ''2.0'' then Err InvalidJsonRpcVersion
           else if \<not> is_compatible (cq_protocol_version request) then Err IncompatibleProtocol
           else if rc_deadline_unix_ms (cq_context request) < now then Err DeadlineElapsed
           else if is_mutation (cq_method request)
                   \<and> (case rc_idempotency_key (cq_context request) of None \<Rightarrow> True | Some key \<Rightarrow> key = [])
             then Err IdempotencyRequired
           else Ok request))"

section \<open>The ledger and the endpoint\<close>

datatype idempotency_outcome = LedgerAccepted | LedgerReplayed

type_synonym idempotency_ledger = "(string, string) btree"

text \<open>\<open>encode\<close> is the JSON text of the request, if it can be written.\<close>

definition ledger_register ::
  "(control_request \<Rightarrow> string option) \<Rightarrow> idempotency_ledger \<Rightarrow> control_request
   \<Rightarrow> (protocol_error + idempotency_outcome) \<times> idempotency_ledger" where
  "ledger_register encode self request =
     (case rc_idempotency_key (cq_context request) of
        None \<Rightarrow> (Err IdempotencyRequired, self)
      | Some key \<Rightarrow>
          if key = [] then (Err IdempotencyRequired, self)
          else (case encode request of
             None \<Rightarrow> (Err PeInvalidRequest, self)
           | Some canonical \<Rightarrow>
               (case bt_get self key of
                  Some previous \<Rightarrow> if previous = canonical then (Ok LedgerReplayed, self) else (Err PeIdempotencyConflict, self)
                | None \<Rightarrow> (Ok LedgerAccepted, bt_insert key canonical self))))"

datatype desktop_platform = UnixSocket | WindowsPipe

definition endpoint_char :: "char \<Rightarrow> bool" where
  "endpoint_char c \<longleftrightarrow> (48 \<le> byte c \<and> byte c \<le> 57) \<or> (65 \<le> byte c \<and> byte c \<le> 90) \<or> (97 \<le> byte c \<and> byte c \<le> 122)
     \<or> c = CHR ''_'' \<or> c = CHR ''-''"

definition transport_address :: "desktop_platform \<Rightarrow> string \<Rightarrow> protocol_error + string" where
  "transport_address platform workspace_id =
     (if workspace_id = [] \<or> \<not> list_all endpoint_char workspace_id then Err InvalidWorkspaceId
      else Ok (case platform of
                 UnixSocket \<Rightarrow> ''/tmp/saber-'' @ workspace_id @ ''.sock''
               | WindowsPipe \<Rightarrow> [CHR 0x5C, CHR 0x5C, CHR ''.'', CHR 0x5C] @ ''pipe'' @ [CHR 0x5C] @ ''saber-'' @ workspace_id))"

section \<open>What decoding guarantees\<close>

lemma method_names_distinct: "distinct (map method_name all_methods)"
  by code_simp

lemma all_methods_complete: "m \<in> set all_methods"
  by (cases m) (simp_all add: all_methods_def)

lemma method_name_inj: "method_name m = method_name n \<Longrightarrow> m = n"
  using method_names_distinct all_methods_complete by (auto simp: distinct_map inj_on_def)

lemma method_from_name [simp]: "method_from_str (method_name m) = Some m"
proof -
  have "find (\<lambda>n. method_name n = method_name m) all_methods \<noteq> None"
    using all_methods_complete by (auto simp: find_None_iff)
  then show ?thesis
    unfolding method_from_str_def by (auto dest!: method_name_inj simp: find_Some_iff)
qed

lemma method_from_str_Some: "method_from_str s = Some m \<longleftrightarrow> s = method_name m"
proof
  assume "method_from_str s = Some m"
  then have "find (\<lambda>n. method_name n = s) all_methods = Some m" by (simp only: method_from_str_def)
  then show "s = method_name m" by (auto simp: find_Some_iff)
qed simp

text \<open>An accepted request is current, of a known protocol and, when it mutates, carries a key.\<close>

lemma decode_request_Ok:
  assumes "decode_request parse frame now = Ok request"
  shows "length frame \<le> MAX_FRAME_BYTES" "cq_jsonrpc request = ''2.0''" "is_compatible (cq_protocol_version request)"
    "now \<le> rc_deadline_unix_ms (cq_context request)"
    "is_mutation (cq_method request) \<Longrightarrow> \<exists>key. rc_idempotency_key (cq_context request) = Some key \<and> key \<noteq> []"
    "\<exists>raw. parse frame = Some raw \<and> read_request raw = Some request"
  using assms by (auto simp: decode_request_def split: if_splits option.splits)

text \<open>Registering is deterministic: a key stands for one request for ever.\<close>

lemma register_then:
  assumes "ledger_register encode self request = (Ok outcome, self')"
  shows "ledger_register encode self' request = (Ok LedgerReplayed, self')"
    and "rc_idempotency_key (cq_context other) = rc_idempotency_key (cq_context request) \<Longrightarrow> encode other = Some text' \<Longrightarrow>
      encode request \<noteq> Some text' \<Longrightarrow> ledger_register encode self' other = (Err PeIdempotencyConflict, self')"
  using assms by (auto simp: ledger_register_def bt_get_insert split: option.splits if_splits)

text \<open>The endpoint names one workspace, and the workspace adds no path segment to it.\<close>

lemma transport_address_inj:
  "transport_address p ws = Ok a \<Longrightarrow> transport_address p ws' = Ok a \<Longrightarrow> ws = ws'"
  by (cases p) (auto simp: transport_address_def split: if_splits)

lemma transport_address_flat: "transport_address UnixSocket ws = Ok a \<Longrightarrow> CHR ''/'' \<notin> set ws \<and> CHR ''.'' \<notin> set ws"
  by (auto simp: transport_address_def list_all_iff endpoint_char_def byte_def split: if_splits)

text \<open>
  The closed envelope is not only an object: the same request is accepted as an array of its fields,
  and the check that answers \<open>unknown_method\<close> is then skipped.
\<close>

lemma request_as_array:
  "read_request (JArr [j, v, m, c, p])
     = read_request (JObj [(''jsonrpc'', j), (''protocol_version'', v), (''method'', m), (''context'', c), (''params'', p)])"
  by (simp add: only_fields_def)

end
