(* ===== verification/CommandLine.thy ===== *)
theory CommandLine
  imports AuditedRun ControlProtocol
begin

text \<open>
  The command line of the core (\<open>crates/saber-core/src/main.rs\<close>): reading the arguments of a run,
  the report line and the exit status of the process.
\<close>

record cli =
  cl_store :: string
  cl_workspace :: string
  cl_task :: string
  cl_allow :: "string list"
  cl_approve :: bool
  cl_stdin :: "string option"
  cl_argv :: "string list"

definition cli_default :: cli where
  "cli_default = \<lparr>cl_store = [], cl_workspace = ''ws_local'', cl_task = ''task_local'', cl_allow = [], cl_approve = False,
     cl_stdin = None, cl_argv = []\<rparr>"

fun flag_value :: "string list \<Rightarrow> string \<Rightarrow> string option" where
  "flag_value (a # b # rest) flag = (if a = flag then Some b else flag_value (b # rest) flag)"
| "flag_value _ flag = None"

fun parse_flags :: "string list \<Rightarrow> cli \<Rightarrow> string + cli" where
  "parse_flags [] c = Ok c"
| "parse_flags (arg # rest) c =
     (if arg = ''--store'' then
        (case rest of [] \<Rightarrow> Err ''--store requires a directory'' | v # rest' \<Rightarrow> parse_flags rest' (c\<lparr>cl_store := v\<rparr>))
      else if arg = ''--workspace'' then
        (case rest of [] \<Rightarrow> Err ''--workspace requires an identifier'' | v # rest' \<Rightarrow> parse_flags rest' (c\<lparr>cl_workspace := v\<rparr>))
      else if arg = ''--task'' then
        (case rest of [] \<Rightarrow> Err ''--task requires an identifier'' | v # rest' \<Rightarrow> parse_flags rest' (c\<lparr>cl_task := v\<rparr>))
      else if arg = ''--allow'' then
        (case rest of [] \<Rightarrow> Err ''--allow requires a program name''
         | v # rest' \<Rightarrow> parse_flags rest' (c\<lparr>cl_allow := cl_allow c @ [v]\<rparr>))
      else if arg = ''--approve'' then parse_flags rest (c\<lparr>cl_approve := True\<rparr>)
      else if arg = ''--stdin'' then
        (case rest of [] \<Rightarrow> Err ''--stdin requires a payload'' | v # rest' \<Rightarrow> parse_flags rest' (c\<lparr>cl_stdin := Some v\<rparr>))
      else if arg = ''--'' then Ok (c\<lparr>cl_argv := rest\<rparr>)
      else Err (''unknown argument: '' @ arg))"

definition parse_cli :: "string list \<Rightarrow> string + cli" where
  "parse_cli args =
     (case parse_flags args cli_default of
        Err e \<Rightarrow> Err e
      | Ok c \<Rightarrow>
          if cl_store c = [] then Err ''--store <dir> is required''
          else if cl_argv c = [] then Err ''a program is required after --''
          else Ok c)"

definition options_of :: "cli \<Rightarrow> run_options" where
  "options_of c = \<lparr>ro_workspace_id = cl_workspace c, ro_task_id = cl_task c, ro_program = hd (cl_argv c),
     ro_arguments = tl (cl_argv c), ro_allowed_programs = cl_allow c, ro_approved = cl_approve c, ro_now_ms = None,
     ro_stdin = cl_stdin c\<rparr>"

definition show_int :: "int \<Rightarrow> string" where
  "show_int i = (if i < 0 then ''-'' else []) @ show_dec (nat \<bar>i\<bar>)"

definition render_report :: "run_report \<Rightarrow> string" where
  "render_report report =
     ''run '' @ rp_run_id report @ '' '' @
     (case rp_outcome report of
        RunExecuted code _ _ _ \<Rightarrow> ''executed exit='' @ (case code of None \<Rightarrow> ''none'' | Some c \<Rightarrow> show_int c)
      | RunDenied out reason \<Rightarrow> ''denied ('' @ out @ ''/'' @ reason @ '')''
      | RunEffectFailed reason \<Rightarrow> ''effect failed ('' @ reason @ '')'')
     @ '': events='' @ show_dec (rp_events report) @ '' hash_chain_verified='' @ (if rp_hash_chain_verified report then ''true'' else ''false'')"

definition process_status :: "run_report \<Rightarrow> nat" where
  "process_status report = (let code = \<bar>exit_code report\<bar> in if code < 256 then nat code else 1)"

definition printed_lines :: "run_report \<Rightarrow> string list" where
  "printed_lines report =
     [render_report report, ''store '' @ rp_store_path report] @
     (case rp_outcome report of RunExecuted _ stdout _ _ \<Rightarrow> if stdout = [] then [] else [stdout] | _ \<Rightarrow> [])"

text \<open>\<open>run\<close>: the lines printed and the status of the process, or the message for the error stream.\<close>

definition run_command ::
  "command_env \<Rightarrow> 'b backend_ops \<Rightarrow> string list \<Rightarrow> 'b core_host \<Rightarrow> (string + (string list \<times> nat)) \<times> 'b core_host" where
  "run_command V ops args host =
     (case parse_cli args of
        Err message \<Rightarrow> (Err message, host)
      | Ok c \<Rightarrow>
          (case execute_run V ops (cl_store c) (options_of c) host of
             (Err e, host') \<Rightarrow> (Err (run_error_str e), host')
           | (Ok report, host') \<Rightarrow> (Ok (printed_lines report, process_status report), host')))"

text \<open>\<open>main\<close>: which command the arguments ask for.\<close>

datatype command = RunWith "string list" | ServeStore string string | Banner | BannerAndUsage | Rejected string

definition EXIT_USAGE :: nat where "EXIT_USAGE = 64"

fun main_command :: "string list \<Rightarrow> command" where
  "main_command [] = BannerAndUsage"
| "main_command (name # args) =
     (if name = ''run'' then RunWith args
      else if name = ''serve'' then
        (case flag_value args ''--store'' of
           None \<Rightarrow> Rejected ''--store <dir> is required''
         | Some store \<Rightarrow> ServeStore store (case flag_value args ''--workspace'' of None \<Rightarrow> ''ws_local'' | Some w \<Rightarrow> w))
      else if name = ''banner'' then Banner
      else Rejected (''unknown command '' @ name))"

section \<open>The arguments of a run\<close>

text \<open>The arguments that spell a configuration, and that reading them gives it back.\<close>

definition cli_args :: "cli \<Rightarrow> string list" where
  "cli_args c = [''--store'', cl_store c, ''--workspace'', cl_workspace c, ''--task'', cl_task c]
     @ concat (map (\<lambda>p. [''--allow'', p]) (cl_allow c)) @ (if cl_approve c then [''--approve''] else [])
     @ (case cl_stdin c of None \<Rightarrow> [] | Some payload \<Rightarrow> [''--stdin'', payload]) @ ''--'' # cl_argv c"

lemma parse_allowed:
  "parse_flags (concat (map (\<lambda>p. [''--allow'', p]) ps) @ rest) c = parse_flags rest (c\<lparr>cl_allow := cl_allow c @ ps\<rparr>)"
  by (induction ps arbitrary: c) simp_all

lemma parse_cli_args:
  assumes "cl_store c \<noteq> []" "cl_argv c \<noteq> []"
  shows "parse_cli (cli_args c) = Ok c"
proof -
  have "parse_flags (cli_args c) cli_default = Ok c"
    by (cases c; cases "cl_stdin c"; cases "cl_approve c") (simp_all add: cli_args_def cli_default_def parse_allowed)
  then show ?thesis using assms by (simp add: parse_cli_def)
qed

text \<open>A process asked for a run without approval and permit never reaches a backend.\<close>

lemma unapproved_command_is_inert:
  assumes "parse_cli args = Ok c" "program_location V (ch_files host) (options_of c) = Ok (dir, entry)"
    "\<not> cl_approve c \<or> entry \<notin> set (cl_allow c)"
  shows "ch_registry (snd (run_command V ops args host)) = ch_registry host"
proof -
  have "\<not> permitted (options_of c) entry" using assms(3) by (auto simp: permitted_def options_of_def)
  from run_registry_untouched [OF assms(2) this] show ?thesis
    using assms(1) by (auto simp: run_command_def split: prod.splits sum.splits)
qed

text \<open>The status of the child and that of a refusal share their numbers.\<close>

lemma refusal_status_is_ambiguous:
  "rp_outcome r = RunDenied out reason \<Longrightarrow> rp_outcome r' = RunExecuted (Some 2) stdout stderr d \<Longrightarrow> process_status r = process_status r'"
  by (simp add: process_status_def exit_code_def EXIT_DENIED_def)

text \<open>A flag of \<open>serve\<close> is found anywhere, also as the value of another flag.\<close>

lemma flag_value_shadowed:
  "main_command [''serve'', ''--workspace'', ''--store'', ''--store'', ''d''] = ServeStore ''--store'' ''--store''"
  by simp

end
