(* ===== verification/RunEngine.thy ===== *)
theory RunEngine
  imports HostFiles EventStore "HOL-Library.Product_Lexorder"
begin

text \<open>
  The governed run engine (\<open>crates/saber-core/src/run_engine.rs\<close>): goals, frozen plans, runs,
  approvals and their effects, every mutation an event of the store. Errors are the strings the
  code returns. Processes, the working directory, the texts of operating-system errors, the clock
  and the baseline snapshot (\<open>change_set.rs\<close>, theory \<open>ChangeSet\<close>) are fields of \<open>run_env\<close>; files
  are the tree of \<open>HostFiles\<close>. A JSON number is an integer. Times are \<open>u64\<close>, read as \<open>i64\<close> where
  the code casts.
\<close>

record run_env =
  re_store :: store_env
  re_cwd :: "string list"
  re_io :: string
  re_elapsed :: "fs \<Rightarrow> json \<Rightarrow> int"
  re_spawn :: "fs \<Rightarrow> string \<Rightarrow> string list \<Rightarrow> string list \<Rightarrow> (string \<times> int option) option \<times> fs"
  re_git :: "fs \<Rightarrow> string list \<Rightarrow> string list \<Rightarrow> (int option \<times> string \<times> string) option \<times> fs"
  re_store_dir :: "path_component list"
  re_snapshot :: "fs \<Rightarrow> path_component list \<Rightarrow> string \<Rightarrow> string \<Rightarrow> (string + json) \<times> fs"

section \<open>Reading parameters\<close>

fun json_i64 :: "json \<Rightarrow> int option" where
  "json_i64 (JNum i) = (if - (2 ^ 63) \<le> i \<and> i < 2 ^ 63 then Some i else None)"
| "json_i64 _ = None"

definition get_str :: "json \<Rightarrow> string \<Rightarrow> string option" where
  "get_str v k = Option.bind (json_get v k) json_str"

definition get_i64 :: "json \<Rightarrow> string \<Rightarrow> int option" where
  "get_i64 v k = Option.bind (json_get v k) json_i64"

definition get_arr :: "json \<Rightarrow> string \<Rightarrow> json list option" where
  "get_arr v k = Option.bind (json_get v k) json_arr"

definition or_else :: "'a option \<Rightarrow> 'a \<Rightarrow> 'a" where
  "or_else x d = (case x of None \<Rightarrow> d | Some a \<Rightarrow> a)"

lemma or_else_simps [simp]: "or_else None d = d" "or_else (Some a) d = a"
  by (simp_all add: or_else_def)

definition require :: "json \<Rightarrow> string \<Rightarrow> string + string" where
  "require params key =
     (case get_str params key of
        Some value \<Rightarrow> if value \<noteq> [] then Ok value else Err (''missing_param:'' @ key)
      | None \<Rightarrow> Err (''missing_param:'' @ key))"

definition json_strings :: "json list \<Rightarrow> string list" where
  "json_strings vs = List.map_filter json_str vs"

section \<open>Names\<close>

definition hex_digest :: "(string \<Rightarrow> string) \<Rightarrow> string list \<Rightarrow> string" where
  "hex_digest H parts = hex_lower (H (framed parts))"

definition short_tag :: "(string \<Rightarrow> string) \<Rightarrow> string \<Rightarrow> string" where
  "short_tag H seed = take 12 (hex_digest H [seed])"

definition APPROVAL_TTL_MS :: u64 where
  "APPROVAL_TTL_MS = 300000"

definition FIXTURE_MODEL_ROUTE :: string where
  "FIXTURE_MODEL_ROUTE = ''fixture-deterministic''"

definition show_ms :: "u64 \<Rightarrow> string" where
  "show_ms t = show_dec (unat t)"

definition show_int :: "int \<Rightarrow> string" where
  "show_int i = (if i < 0 then ''-'' @ show_dec (nat (- i)) else show_dec (nat i))"

datatype effect_class = EffectAllowed | EffectNeedsApproval | EffectDenied

definition classify_effect :: "string \<Rightarrow> effect_class" where
  "classify_effect kind =
     (if kind = ''file.read'' then EffectAllowed
      else if kind \<in> {''file.edit'', ''command.run'', ''command.test''} then EffectNeedsApproval
      else EffectDenied)"

section \<open>The index\<close>

record run_record =
  rc_workspace :: string
  rc_goal_id :: string
  rc_plan_version :: int
  rc_state :: string
  rc_remaining_steps :: "json list"
  rc_pending_approval :: "json option"
  rc_resolved_approvals :: "string list"
  rc_worktree :: string

definition default_run :: run_record where
  "default_run = \<lparr>rc_workspace = [], rc_goal_id = [], rc_plan_version = 0, rc_state = [], rc_remaining_steps = [],
     rc_pending_approval = None, rc_resolved_approvals = [], rc_worktree = []\<rparr>"

record run_engine =
  eg_workspace_hint :: "string option"
  eg_event_counter :: u64
  eg_goals :: "string \<rightharpoonup> json"
  eg_plans :: "(string \<times> int, json) btree"
  eg_bindings :: "string \<rightharpoonup> json"
  eg_runs :: "string \<rightharpoonup> run_record"

definition engine_default :: run_engine where
  "engine_default = \<lparr>eg_workspace_hint = None, eg_event_counter = 0, eg_goals = Map.empty, eg_plans = [],
     eg_bindings = Map.empty, eg_runs = Map.empty\<rparr>"

definition step_id_of :: "json \<Rightarrow> string" where
  "step_id_of step = or_else (get_str step ''step_id'') []"

definition drop_step :: "string \<Rightarrow> json list \<Rightarrow> json list" where
  "drop_step step_id steps = filter (\<lambda>step. get_str step ''step_id'' \<noteq> Some step_id) steps"

definition update_run :: "string \<Rightarrow> (run_record \<Rightarrow> run_record) \<Rightarrow> run_engine \<Rightarrow> run_engine" where
  "update_run run_id f eng =
     (case eg_runs eng run_id of None \<Rightarrow> eng | Some r \<Rightarrow> eng\<lparr>eg_runs := (eg_runs eng)(run_id \<mapsto> f r)\<rparr>)"

section \<open>Applying events\<close>

definition apply_binding :: "json \<Rightarrow> run_engine \<Rightarrow> run_engine" where
  "apply_binding payload eng =
     (case get_str payload ''run_id'' of
        None \<Rightarrow> eng
      | Some run_id \<Rightarrow>
          (let goal_id = or_else (get_str payload ''goal_id'') [];
               version = or_else (get_i64 payload ''plan_version'') 0;
               steps = (case bt_get (eg_plans eng) (goal_id, version) of None \<Rightarrow> [] | Some plan \<Rightarrow> or_else (get_arr plan ''steps'') []);
               entry = or_else (eg_runs eng run_id) default_run
           in eng\<lparr>eg_runs := (eg_runs eng)(run_id \<mapsto>
                    entry\<lparr>rc_workspace := or_else (eg_workspace_hint eng) [], rc_goal_id := goal_id,
                          rc_plan_version := version, rc_remaining_steps := steps,
                          rc_worktree := or_else (get_str payload ''worktree'') (rc_worktree entry),
                          rc_state := ''queued''\<rparr>),
                  eg_bindings := (eg_bindings eng)(run_id \<mapsto> payload)\<rparr>))"

definition set_state :: "string \<Rightarrow> run_record \<Rightarrow> run_record" where
  "set_state state r =
     r\<lparr>rc_state := state, rc_pending_approval := (if state = ''running'' then None else rc_pending_approval r)\<rparr>"

definition apply_payload :: "string \<Rightarrow> json \<Rightarrow> run_engine \<Rightarrow> run_engine" where
  "apply_payload event_type payload eng =
     (let run_id = or_else (get_str payload ''run_id'') [] in
      if event_type = ''goal.created'' then
        (case get_str payload ''goal_id'' of None \<Rightarrow> eng | Some goal_id \<Rightarrow> eng\<lparr>eg_goals := (eg_goals eng)(goal_id \<mapsto> payload)\<rparr>)
      else if event_type = ''plan.frozen'' then
        (case get_str payload ''goal_id'' of
           None \<Rightarrow> eng
         | Some goal_id \<Rightarrow>
             eng\<lparr>eg_plans := bt_insert (goal_id, or_else (get_i64 payload ''version'') 0) payload (eg_plans eng)\<rparr>)
      else if event_type = ''run.binding_recorded'' then apply_binding payload eng
      else if event_type = ''run.state_changed'' then
        (case get_str payload ''run_id'' of
           None \<Rightarrow> eng
         | Some r \<Rightarrow> update_run r (\<lambda>run. set_state (or_else (get_str payload ''to'') (rc_state run)) run) eng)
      else if event_type = ''run.waiting_approval'' then
        update_run run_id (\<lambda>run. run\<lparr>rc_pending_approval := json_get payload ''card''\<rparr>) eng
      else if event_type = ''run.approval_resolved'' then
        update_run run_id
          (\<lambda>run. run\<lparr>rc_resolved_approvals := rc_resolved_approvals run @ [or_else (get_str payload ''approval_id'') []],
                     rc_pending_approval := None\<rparr>) eng
      else if event_type \<in> {''run.effect_completed'', ''run.effect_denied'', ''run.effect_denied_by_policy''} then
        update_run run_id
          (\<lambda>run. run\<lparr>rc_remaining_steps := drop_step (or_else (get_str payload ''step_id'') []) (rc_remaining_steps run)\<rparr>) eng
      else eng)"

definition apply_event :: "run_env \<Rightarrow> string \<Rightarrow> string \<Rightarrow> run_engine \<Rightarrow> run_engine" where
  "apply_event V event_type payload_json eng =
     (case env_parse (re_store V) payload_json of None \<Rightarrow> eng | Some payload \<Rightarrow> apply_payload event_type payload eng)"

text \<open>The replay loop of \<open>rebuild\<close>, in pages of 500 events; the fuel is the number of events.\<close>

fun rebuild_from :: "run_env \<Rightarrow> event_store \<Rightarrow> nat \<Rightarrow> int \<Rightarrow> run_engine \<Rightarrow> run_engine" where
  "rebuild_from V s 0 cursor eng = eng"
| "rebuild_from V s (Suc n) cursor eng =
     (if cursor < int (event_count s)
      then (case replay_events s cursor 500 of
              (events, nxt) \<Rightarrow>
                if nxt \<le> cursor then eng
                else rebuild_from V s n nxt (foldl (\<lambda>e ev. apply_event V (rv_event_type ev) (rv_payload_json ev) e) eng events))
      else eng)"

definition rebuild :: "run_env \<Rightarrow> event_store \<Rightarrow> run_engine" where
  "rebuild V s = rebuild_from V s (event_count s) 0 engine_default"

definition note_workspace :: "string \<Rightarrow> run_engine \<Rightarrow> run_engine" where
  "note_workspace workspace eng = eng\<lparr>eg_workspace_hint := Some workspace\<rparr>"

section \<open>Effects\<close>

text \<open>The display form of a path under the root.\<close>

definition path_string :: "string list \<Rightarrow> string" where
  "path_string names = (if names = [] then ''/'' else concat (map (\<lambda>n. ''/'' @ n) names))"

definition execute_allowed_effect :: "run_env \<Rightarrow> string \<Rightarrow> json \<Rightarrow> fs \<Rightarrow> string + json" where
  "execute_allowed_effect V worktree effect fs =
     (if or_else (get_str effect ''kind'') [] \<noteq> ''file.read'' then Err ''unsupported_unapproved_effect''
      else (case get_str effect ''path'' of None \<Rightarrow> Err ''missing_path'' | Some relative \<Rightarrow>
        (case worktree_path fs (re_cwd V) (re_io V) worktree relative of Err e \<Rightarrow> Err e | Ok path \<Rightarrow>
        (case fs_read fs path of
           None \<Rightarrow> Err (''read_failed:'' @ re_io V)
         | Some bytes \<Rightarrow>
             Ok (JObj [(''digest'', JStr (hex_digest (env_hash (re_store V)) [bytes])), (''duration_ms'', JNum 0),
                       (''resource'', JStr relative), (''size'', JNum (int (length bytes)))])))))"

definition edit_file :: "run_env \<Rightarrow> string \<Rightarrow> json \<Rightarrow> fs \<Rightarrow> (string + json) \<times> fs" where
  "edit_file V worktree effect fs =
     (case get_str effect ''path'' of None \<Rightarrow> (Err ''missing_path'', fs) | Some relative \<Rightarrow>
     (case get_str effect ''text'' of None \<Rightarrow> (Err ''missing_text'', fs) | Some content \<Rightarrow>
     (case worktree_path fs (re_cwd V) (re_io V) worktree relative of Err e \<Rightarrow> (Err e, fs) | Ok path \<Rightarrow>
     (case (if length path \<le> 1 then (True, fs) else fs_mkdirs fs [] (butlast path)) of
        (False, fs1) \<Rightarrow> (Err (''mkdir_failed:'' @ re_io V), fs1)
      | (True, fs1) \<Rightarrow>
          (case fs_write fs1 path content of
             None \<Rightarrow> (Err (''write_failed:'' @ re_io V), fs1)
           | Some fs2 \<Rightarrow>
               (Ok (JObj [(''digest'', JStr (hex_digest (env_hash (re_store V)) [content])),
                          (''duration_ms'', JNum (re_elapsed V fs effect)), (''resource'', JStr relative)]), fs2))))))"

definition run_command :: "run_env \<Rightarrow> string \<Rightarrow> json \<Rightarrow> fs \<Rightarrow> (string + json) \<times> fs" where
  "run_command V worktree effect fs =
     (case map_option json_strings (get_arr effect ''argv'') of None \<Rightarrow> (Err ''missing_argv'', fs) | Some argv \<Rightarrow>
      if length argv < 2 then (Err ''argv_requires_script_path'', fs)
      else if argv ! 0 \<noteq> ''node'' \<and> argv ! 0 \<noteq> ''node.exe'' then (Err ''program_not_permitted'', fs)
      else (case fs_canonicalize fs (re_cwd V) (path_components worktree) of
        None \<Rightarrow> (Err (''worktree_unavailable:'' @ re_io V), fs)
      | Some root \<Rightarrow>
      (case fs_canonicalize fs [] (path_join (absolute_path root) (argv ! 1)) of
        None \<Rightarrow> (Err (''script_unavailable:'' @ re_io V), fs)
      | Some script \<Rightarrow>
          if \<not> prefix root script then (Err ''script_outside_worktree'', fs)
          else (case re_spawn V fs (argv ! 0) (path_string script # drop 2 argv) root of
            (None, fs1) \<Rightarrow> (Err (''spawn_failed:'' @ re_io V), fs1)
          | (Some (stdout, code), fs1) \<Rightarrow>
              (let exit = or_else code (- 1) in
               (Ok (JObj [(''digest'', JStr (hex_digest (env_hash (re_store V)) [stdout, le_bytes 4 (nat (exit mod 2 ^ 32))])),
                          (''duration_ms'', JNum (re_elapsed V fs effect)), (''exit_code'', JNum exit),
                          (''resource'', JStr (path_string script)),
                          (''stdout_head'', JStr (concat (take 2000 (utf8_chars stdout))))]), fs1))))))"

definition execute_command_effect :: "run_env \<Rightarrow> string \<Rightarrow> json \<Rightarrow> fs \<Rightarrow> (string + json) \<times> fs" where
  "execute_command_effect V worktree effect fs =
     (let kind = or_else (get_str effect ''kind'') [] in
      if kind = ''file.edit'' then edit_file V worktree effect fs
      else if kind \<in> {''command.run'', ''command.test''} then run_command V worktree effect fs
      else (Err ''unsupported_effect'', fs))"

definition show_bool :: "bool \<Rightarrow> string" where
  "show_bool b = (if b then ''true'' else ''false'')"

definition file_contains :: "run_env \<Rightarrow> string \<Rightarrow> json \<Rightarrow> fs \<Rightarrow> bool \<times> string" where
  "file_contains V worktree check fs =
     (let path = or_else (get_str check ''path'') []; needle = or_else (get_str check ''needle'') [] in
      case worktree_path fs (re_cwd V) (re_io V) worktree path of
        Err e \<Rightarrow> (False, ''check_failed:'' @ e)
      | Ok p \<Rightarrow>
          (case fs_read fs p of
             None \<Rightarrow> (False, ''check_failed:'' @ re_io V)
           | Some bytes \<Rightarrow>
               if \<not> utf8_valid bytes then (False, ''check_failed:'' @ re_io V)
               else (let passed = str_contains bytes needle in (passed, ''file_contains:'' @ path @ '':'' @ show_bool passed))))"

definition verify_acceptance :: "run_env \<Rightarrow> string \<Rightarrow> string \<Rightarrow> json \<Rightarrow> fs \<Rightarrow> (bool \<times> string) \<times> fs" where
  "verify_acceptance V worktree kind check fs =
     (if kind = ''file_contains'' then (file_contains V worktree check fs, fs)
      else if kind = ''command_succeeds'' then
        (case execute_command_effect V worktree
                (JObj [(''argv'', or_else (json_get check ''argv'') (JArr [])), (''kind'', JStr ''command.run'')]) fs of
           (Ok outcome, fs1) \<Rightarrow>
             (let exit = or_else (get_i64 outcome ''exit_code'') (- 1) in ((exit = 0, ''exit_code:'' @ show_int exit), fs1))
         | (Err e, fs1) \<Rightarrow> ((False, ''check_failed:'' @ e), fs1))
      else ((False, ''unknown_check_kind''), fs))"

section \<open>Steps over store, index and files\<close>

record sys =
  sy_store :: event_store
  sy_engine :: run_engine
  sy_fs :: fs

datatype engine_error = EngineError string | NoReturn

type_synonym 'a step = "sys \<Rightarrow> (engine_error + 'a) \<times> sys"

definition ret :: "'a \<Rightarrow> 'a step" where
  "ret a s = (Ok a, s)"

definition fail :: "string \<Rightarrow> 'a step" where
  "fail message s = (Err (EngineError message), s)"

definition then_do :: "'a step \<Rightarrow> ('a \<Rightarrow> 'b step) \<Rightarrow> 'b step" where
  "then_do m f s = (case m s of (Err e, s') \<Rightarrow> (Err e, s') | (Ok a, s') \<Rightarrow> f a s')"

definition of_result :: "string + 'a \<Rightarrow> 'a step" where
  "of_result r = (case r of Err e \<Rightarrow> fail e | Ok a \<Rightarrow> ret a)"

definition of_option :: "string \<Rightarrow> 'a option \<Rightarrow> 'a step" where
  "of_option message x = (case x of None \<Rightarrow> fail message | Some a \<Rightarrow> ret a)"

definition get_sys :: "sys step" where
  "get_sys s = (Ok s, s)"

definition on_engine :: "(run_engine \<Rightarrow> run_engine) \<Rightarrow> unit step" where
  "on_engine f s = (Ok (), s\<lparr>sy_engine := f (sy_engine s)\<rparr>)"

definition on_files :: "(fs \<Rightarrow> (string + 'a) \<times> fs) \<Rightarrow> 'a step" where
  "on_files f s =
     (case f (sy_fs s) of
        (Err e, fs) \<Rightarrow> (Err (EngineError e), s\<lparr>sy_fs := fs\<rparr>)
      | (Ok a, fs) \<Rightarrow> (Ok a, s\<lparr>sy_fs := fs\<rparr>))"

definition on_store :: "(store_error \<Rightarrow> string) \<Rightarrow> (event_store \<Rightarrow> (store_error + 'a) \<times> event_store) \<Rightarrow> 'a step" where
  "on_store show f s =
     (case f (sy_store s) of
        (Err e, st) \<Rightarrow> (Err (EngineError (show e)), s\<lparr>sy_store := st\<rparr>)
      | (Ok a, st) \<Rightarrow> (Ok a, s\<lparr>sy_store := st\<rparr>))"

text \<open>The record of a run; \<open>unknown_run\<close> when there is none.\<close>

definition get_run :: "string \<Rightarrow> run_record step" where
  "get_run run_id = then_do get_sys (\<lambda>s. of_option ''unknown_run'' (eg_runs (sy_engine s) run_id))"

text \<open>What a sequence of steps does.\<close>

lemma then_simps:
  "then_do (ret a) f s = f a s" "then_do (fail m) f s = (Err (EngineError m), s)" "then_do get_sys g s = g s s"
  by (simp_all add: then_do_def ret_def fail_def get_sys_def)

lemma then_Ok: "then_do m f s = (Ok v, s') \<longleftrightarrow> (\<exists>a t. m s = (Ok a, t) \<and> f a t = (Ok v, s'))"
  by (auto simp: then_do_def split: prod.splits sum.splits)

lemma then_get_run: "eg_runs (sy_engine s) i = Some r \<Longrightarrow> then_do (get_run i) f s = f r s"
  by (simp add: get_run_def then_do_def get_sys_def of_option_def ret_def)

lemma then_result: "then_do (of_result x) f s = (case x of Err e \<Rightarrow> (Err (EngineError e), s) | Ok v \<Rightarrow> f v s)"
  by (cases x) (simp_all add: then_do_def of_result_def ret_def fail_def)

lemma step_Ok:
  "of_result x s = (Ok a, t) \<longleftrightarrow> x = Ok a \<and> t = s"
  "get_sys s = (Ok s', t) \<longleftrightarrow> s' = s \<and> t = s"
  "ret b s = (Ok a, t) \<longleftrightarrow> a = b \<and> t = s"
  "fail m s = (Ok a, t) \<longleftrightarrow> False"
  "on_files f s = (Ok a, t) \<longleftrightarrow> (\<exists>fs. f (sy_fs s) = (Ok a, fs) \<and> t = s\<lparr>sy_fs := fs\<rparr>)"
  by (auto simp: of_result_def get_sys_def ret_def fail_def on_files_def split: sum.splits prod.splits)

section \<open>Events and transitions\<close>

definition dotted_to_underscore :: "string \<Rightarrow> string" where
  "dotted_to_underscore t = map (\<lambda>c. if c = CHR ''.'' then CHR ''_'' else c) t"

definition core_event :: "run_env \<Rightarrow> string \<Rightarrow> string \<Rightarrow> string \<Rightarrow> u64 \<Rightarrow> json \<Rightarrow> string \<Rightarrow> commit_outcome step" where
  "core_event V event_id workspace event_type now payload key =
     on_store store_error_str (\<lambda>st. append_core_event (re_store V) st event_id workspace event_type now payload key)"

definition append_run_event :: "run_env \<Rightarrow> string \<Rightarrow> string \<Rightarrow> u64 \<Rightarrow> json \<Rightarrow> string \<Rightarrow> unit step" where
  "append_run_event V workspace event_type now payload key =
     then_do (on_engine (\<lambda>eng. eng\<lparr>eg_event_counter := eg_event_counter eng + 1\<rparr>)) (\<lambda>_.
     then_do get_sys (\<lambda>s.
     then_do (core_event V (dotted_to_underscore event_type @ ''_'' @ show_ms now @ ''_'' @ show_dec (unat (eg_event_counter (sy_engine s))))
                workspace event_type now payload key) (\<lambda>_.
     on_engine (apply_event V event_type (env_print (re_store V) payload)))))"

definition transition :: "run_env \<Rightarrow> string \<Rightarrow> run_state \<Rightarrow> string list \<Rightarrow> u64 \<Rightarrow> string \<Rightarrow> unit step" where
  "transition V run_id target evidence now key =
     then_do get_sys (\<lambda>s.
     (let workspace = (case eg_runs (sy_engine s) run_id of None \<Rightarrow> [] | Some r \<Rightarrow> rc_workspace r);
          command = \<lparr>rt_event_id = ''rt_'' @ run_id @ ''_'' @ short_tag (env_hash (re_store V)) key,
                     rt_workspace_id = workspace, rt_run_id = run_id, rt_target = target,
                     rt_acceptance_evidence = evidence, rt_occurred_at_ms = now, rt_idempotency_key = key\<rparr>
      in then_do (on_store store_error_str (\<lambda>st. transition_run (re_store V) st command)) (\<lambda>_.
         on_engine (update_run run_id (set_state (state_name target))))))"

definition record_effect :: "run_env \<Rightarrow> string \<Rightarrow> string \<Rightarrow> json \<Rightarrow> json \<Rightarrow> u64 \<Rightarrow> unit step" where
  "record_effect V workspace run_id step outcome now =
     (let step_id = step_id_of step;
          kind = or_else (Option.bind (json_get step ''effect'') (\<lambda>e. get_str e ''kind'')) [];
          resource = or_else (json_get outcome ''resource'') (JStr []);
          intent_id = ''intent-'' @ run_id @ ''-'' @ step_id;
          duration = or_else (get_i64 outcome ''duration_ms'') 0
      in then_do (on_store store_error_str (\<lambda>st. record_effect_intent (re_store V) st
             \<lparr>ei_event_id = ''intent_'' @ run_id @ ''_'' @ step_id @ ''_'' @ show_ms now, ei_workspace_id = workspace,
              ei_intent_id = intent_id, ei_effect_kind = kind,
              ei_payload = JObj [(''kind'', JStr kind), (''run_id'', JStr run_id), (''step_id'', JStr step_id)],
              ei_occurred_at_ms = now, ei_idempotency_key = run_id @ ''-intent-'' @ step_id @ ''-'' @ show_ms now\<rparr>)) (\<lambda>_.
         then_do (on_store store_error_str (\<lambda>st. record_effect_result (re_store V) st
             \<lparr>eb_event_id = ''result_'' @ step_id @ ''_'' @ show_ms now, eb_workspace_id = workspace, eb_intent_id = intent_id,
              eb_result = JObj [(''duration_ms'', JNum duration), (''evidence_id'', JStr intent_id), (''realm'', JStr ''local''),
                                (''resource'', resource), (''result'', outcome)],
              eb_disposition = DispCompleted, eb_occurred_at_ms = now,
              eb_idempotency_key = run_id @ ''-result-'' @ step_id @ ''-'' @ show_ms now\<rparr>)) (\<lambda>_.
         append_run_event V workspace ''run.effect_completed'' now
           (JObj [(''kind'', JStr kind), (''run_id'', JStr run_id), (''step_id'', JStr step_id),
                  (''summary'', JObj [(''duration_ms'', JNum duration), (''evidence_id'', JStr intent_id), (''realm'', JStr ''local''),
                                      (''resource'', resource),
                                      (''result_digest'', or_else (json_get outcome ''digest'') (JStr []))])])
           (run_id @ ''-completed-'' @ step_id @ ''-'' @ show_ms now))))"

definition remove_step :: "string \<Rightarrow> string \<Rightarrow> unit step" where
  "remove_step run_id step_id =
     on_engine (update_run run_id (\<lambda>r. r\<lparr>rc_remaining_steps := drop_step step_id (rc_remaining_steps r)\<rparr>))"

section \<open>Executing a plan\<close>

definition effect_digest :: "run_env \<Rightarrow> string \<Rightarrow> json \<Rightarrow> string" where
  "effect_digest V kind effect =
     hex_digest (env_hash (re_store V)) [env_print (re_store V) (JObj [(''effect'', effect), (''kind'', JStr kind)])]"

definition build_card :: "run_env \<Rightarrow> string \<Rightarrow> run_record \<Rightarrow> string \<Rightarrow> string \<Rightarrow> json \<Rightarrow> u64 \<Rightarrow> json" where
  "build_card V run_id r step_id kind effect now =
     (let argv = json_strings (or_else (get_arr effect ''argv'') []);
          resource = (if kind = ''file.edit'' then or_else (get_str effect ''path'') [] else join_with '' '' argv)
      in JObj [(''action'', JStr kind), (''alternatives'', JArr [JStr ''deny'', JStr ''edit-manually'']),
               (''approval_id'', JStr (''appr-'' @ step_id @ ''-'' @ show_ms now)), (''argv'', JArr (map JStr argv)),
               (''boundary'', JStr (''worktree:'' @ rc_worktree r)), (''digest'', JStr (effect_digest V kind effect)),
               (''expires_at_ms'', JNum (sint (now + APPROVAL_TTL_MS))), (''network'', JStr ''none''),
               (''plan_version'', JNum (rc_plan_version r)), (''reason'', JStr (or_else (get_str effect ''reason'') ''plan step'')),
               (''resource'', JStr resource), (''run_id'', JStr run_id), (''scope'', JStr ''one-shot''),
               (''secret_refs'', JArr []), (''step_id'', JStr step_id)])"

text \<open>The loop over the acceptance checks: the evidence and whether all passed.\<close>

fun check_each :: "run_env \<Rightarrow> string \<Rightarrow> string \<Rightarrow> string \<Rightarrow> u64 \<Rightarrow> json list \<Rightarrow> string list \<Rightarrow> bool \<Rightarrow> (string list \<times> bool) step" where
  "check_each V workspace run_id worktree now [] evidence all_passed = ret (evidence, all_passed)"
| "check_each V workspace run_id worktree now (check # checks) evidence all_passed =
     (let check_id = or_else (get_str check ''check_id'') []; kind = or_else (get_str check ''kind'') [] in
      then_do (on_files (\<lambda>fs. case verify_acceptance V worktree kind check fs of (r, fs1) \<Rightarrow> (Ok r, fs1))) (\<lambda>(passed, detail).
      then_do (append_run_event V workspace ''run.acceptance_checked'' now
                 (JObj [(''check_id'', JStr check_id), (''detail'', JStr detail), (''passed'', JBool passed), (''run_id'', JStr run_id)])
                 (run_id @ ''-check-'' @ check_id @ ''-'' @ show_ms now)) (\<lambda>_.
      check_each V workspace run_id worktree now checks
        (if passed then evidence @ [''evidence:'' @ check_id] else evidence) (all_passed \<and> passed))))"

text \<open>The verdict and the terminal transition.\<close>

definition conclude_run :: "run_env \<Rightarrow> string \<Rightarrow> string \<Rightarrow> u64 \<Rightarrow> string list \<Rightarrow> bool \<Rightarrow> json step" where
  "conclude_run V workspace run_id now evidence all_passed =
     (let verdict = (if all_passed then ''complete'' else ''revise'');
          target = (if all_passed then RunSucceeded else RunFailed) in
      then_do (append_run_event V workspace ''run.verdict'' now
                 (JObj [(''evaluator'', JStr ''independent-verifier''), (''run_id'', JStr run_id), (''verdict'', JStr verdict)])
                 (run_id @ ''-verdict-'' @ show_ms now)) (\<lambda>_.
      then_do (transition V run_id target evidence now (run_id @ ''-terminal-'' @ show_ms now)) (\<lambda>_.
      ret (JObj [(''evidence'', JArr (map JStr evidence)), (''run_id'', JStr run_id),
                 (''state'', JStr (if all_passed then ''succeeded'' else ''failed'')), (''verdict'', JStr verdict)]))))"

definition checks_of :: "json \<Rightarrow> json list" where
  "checks_of goal = or_else (get_arr goal ''acceptance'') []"

definition finish_run :: "run_env \<Rightarrow> string \<Rightarrow> string \<Rightarrow> u64 \<Rightarrow> json step" where
  "finish_run V workspace run_id now =
     then_do (get_run run_id) (\<lambda>r.
     then_do get_sys (\<lambda>s.
     then_do (check_each V workspace run_id (rc_worktree r) now
                (checks_of (or_else (eg_goals (sy_engine s) (rc_goal_id r)) (JObj []))) [] True)
       (\<lambda>(evidence, all_passed). conclude_run V workspace run_id now evidence all_passed)))"

text \<open>The loop of \<open>execute_pending\<close>; the fuel bounds its turns, and running out is \<open>NoReturn\<close>.\<close>

fun execute_turns :: "run_env \<Rightarrow> nat \<Rightarrow> string \<Rightarrow> string \<Rightarrow> u64 \<Rightarrow> json step" where
  "execute_turns V 0 workspace run_id now = (\<lambda>s. (Err NoReturn, s))"
| "execute_turns V (Suc n) workspace run_id now =
     then_do (get_run run_id) (\<lambda>r.
     if rc_state r \<noteq> ''running'' then ret (JObj [(''run_id'', JStr run_id), (''state'', JStr (rc_state r))])
     else (case rc_remaining_steps r of
       [] \<Rightarrow> finish_run V workspace run_id now
     | step # _ \<Rightarrow>
         (let step_id = step_id_of step; effect = or_else (json_get step ''effect'') (JObj []);
              kind = or_else (get_str effect ''kind'') [] in
          case classify_effect kind of
            EffectDenied \<Rightarrow>
              then_do (append_run_event V workspace ''run.effect_denied_by_policy'' now
                (JObj [(''kind'', JStr kind), (''reason'', JStr ''network_egress_denied''), (''run_id'', JStr run_id), (''step_id'', JStr step_id)])
                (run_id @ ''-'' @ step_id @ ''-denied-'' @ show_ms now)) (\<lambda>_.
              then_do (remove_step run_id step_id) (\<lambda>_. execute_turns V n workspace run_id now))
          | EffectAllowed \<Rightarrow>
              then_do get_sys (\<lambda>s.
              then_do (of_result (execute_allowed_effect V (rc_worktree r) effect (sy_fs s))) (\<lambda>outcome.
              then_do (record_effect V workspace run_id step outcome now) (\<lambda>_.
              then_do (remove_step run_id step_id) (\<lambda>_. execute_turns V n workspace run_id now))))
          | EffectNeedsApproval \<Rightarrow>
              (let crd = build_card V run_id r step_id kind effect now in
               then_do (transition V run_id Blocked [] now (run_id @ ''-'' @ step_id @ ''-block-'' @ show_ms now)) (\<lambda>_.
               then_do (append_run_event V workspace ''run.waiting_approval'' now
                 (JObj [(''card'', crd), (''run_id'', JStr run_id)]) (run_id @ ''-'' @ step_id @ ''-wait-'' @ show_ms now)) (\<lambda>_.
               ret (JObj [(''card'', crd), (''run_id'', JStr run_id), (''state'', JStr ''waiting_approval'')])))))))"

text \<open>Every turn that goes on drops the first step, so one turn more than there are steps is enough.\<close>

definition execute_pending :: "run_env \<Rightarrow> string \<Rightarrow> string \<Rightarrow> u64 \<Rightarrow> json step" where
  "execute_pending V workspace run_id now s =
     execute_turns V (Suc (case eg_runs (sy_engine s) run_id of None \<Rightarrow> 0 | Some r \<Rightarrow> length (rc_remaining_steps r)))
       workspace run_id now s"

definition execute_step :: "run_env \<Rightarrow> string \<Rightarrow> string \<Rightarrow> u64 \<Rightarrow> json step" where
  "execute_step V workspace run_id now =
     then_do (get_run run_id) (\<lambda>r.
     (case rc_remaining_steps r of
        [] \<Rightarrow> finish_run V workspace run_id now
      | step # _ \<Rightarrow>
          (let effect = or_else (json_get step ''effect'') (JObj []) in
           then_do (on_files (execute_command_effect V (rc_worktree r) effect)) (\<lambda>outcome.
           then_do (record_effect V workspace run_id step outcome now) (\<lambda>_.
           then_do (remove_step run_id (step_id_of step)) (\<lambda>_. execute_pending V workspace run_id now))))))"

section \<open>Handlers\<close>

fun require_each :: "string list \<Rightarrow> json list \<Rightarrow> string + unit" where
  "require_each keys [] = Ok ()"
| "require_each keys (v # vs) =
     (case filter (\<lambda>k. isl (require v k)) keys of
        k # _ \<Rightarrow> Err (''missing_param:'' @ k)
      | [] \<Rightarrow> require_each keys vs)"

definition nonempty_arr :: "json \<Rightarrow> string \<Rightarrow> string + json list" where
  "nonempty_arr params key =
     (case get_arr params key of
        Some vs \<Rightarrow> if vs \<noteq> [] then Ok vs else Err (''missing_param:'' @ key)
      | None \<Rightarrow> Err (''missing_param:'' @ key))"

definition create_goal :: "run_env \<Rightarrow> string \<Rightarrow> json \<Rightarrow> u64 \<Rightarrow> json step" where
  "create_goal V workspace params now =
     then_do (on_engine (note_workspace workspace)) (\<lambda>_.
     then_do (of_result (require params ''objective'')) (\<lambda>objective.
     then_do (of_result (nonempty_arr params ''acceptance'')) (\<lambda>acceptance.
     then_do (of_result (require_each [''check_id'', ''kind''] acceptance)) (\<lambda>_.
     (let goal_id = ''goal-'' @ show_ms now @ ''-'' @ short_tag (env_hash (re_store V)) objective;
          payload = JObj [(''acceptance'', JArr acceptance), (''budget'', or_else (json_get params ''budget'') (JObj [])),
            (''constraints'', or_else (json_get params ''constraints'') (JArr [])),
            (''deadline_ms'', JNum (or_else (get_i64 params ''deadline_ms'') 0)),
            (''evidence_requirements'', or_else (json_get params ''evidence_requirements'') (JArr [])),
            (''goal_id'', JStr goal_id), (''objective'', JStr objective),
            (''owner'', JStr (or_else (get_str params ''owner'') ''user''))]
      in then_do (of_result (require params ''idempotency_key'')) (\<lambda>key.
         then_do (core_event V (''goal_'' @ goal_id) workspace ''goal.created'' now payload key) (\<lambda>outcome.
         then_do (on_engine (\<lambda>eng. case outcome of
                    Committed _ \<Rightarrow> eng\<lparr>eg_goals := (eg_goals eng)(goal_id \<mapsto> payload)\<rparr> | Replayed _ \<Rightarrow> eng)) (\<lambda>_.
         ret (JObj [(''goal_id'', JStr goal_id)])))))))))"

text \<open>A step needs an identifier and an effect with a kind.\<close>

fun require_steps :: "json list \<Rightarrow> string + unit" where
  "require_steps [] = Ok ()"
| "require_steps (step # steps) =
     (case require step ''step_id'' of Err e \<Rightarrow> Err e | Ok _ \<Rightarrow>
      case json_get step ''effect'' of None \<Rightarrow> Err ''missing_param:effect'' | Some effect \<Rightarrow>
      case require effect ''kind'' of Err e \<Rightarrow> Err e | Ok _ \<Rightarrow> require_steps steps)"

definition plan_versions :: "run_engine \<Rightarrow> string \<Rightarrow> nat" where
  "plan_versions eng goal_id = length (filter (\<lambda>k. fst k = goal_id) (bt_keys (eg_plans eng)))"

definition freeze_plan :: "run_env \<Rightarrow> string \<Rightarrow> json \<Rightarrow> u64 \<Rightarrow> json step" where
  "freeze_plan V workspace params now =
     then_do (on_engine (note_workspace workspace)) (\<lambda>_.
     then_do (of_result (require params ''goal_id'')) (\<lambda>goal_id.
     then_do get_sys (\<lambda>s.
     if eg_goals (sy_engine s) goal_id = None then fail ''unknown_goal''
     else
     then_do (of_result (nonempty_arr params ''steps'')) (\<lambda>steps.
     then_do (of_result (require_steps steps)) (\<lambda>_.
     then_do (of_result (require params ''worktree'')) (\<lambda>worktree.
     (let version = int (plan_versions (sy_engine s) goal_id) + 1;
          payload = JObj [(''diff'', or_else (json_get params ''diff'') (JObj [])), (''goal_id'', JStr goal_id),
            (''parent_version'', (case get_i64 params ''parent_version'' of None \<Rightarrow> JNull | Some v \<Rightarrow> JNum v)),
            (''steps'', JArr steps), (''version'', JNum version), (''worktree'', JStr worktree)]
      in then_do (of_result (require params ''idempotency_key'')) (\<lambda>key.
         then_do (core_event V (''plan_'' @ goal_id @ ''_v'' @ show_int version @ ''_'' @ show_ms now) workspace
                    ''plan.frozen'' now payload key) (\<lambda>_.
         then_do (on_engine (\<lambda>eng. eng\<lparr>eg_plans := bt_insert (goal_id, version) payload (eg_plans eng)\<rparr>)) (\<lambda>_.
         ret (JObj [(''goal_id'', JStr goal_id), (''version'', JNum version)])))))))))))"

definition policy_snapshot :: "run_env \<Rightarrow> string" where
  "policy_snapshot V = hex_digest (env_hash (re_store V)) [''s30-policy-v1'']"

definition run_id_for :: "run_env \<Rightarrow> string \<Rightarrow> u64 \<Rightarrow> string" where
  "run_id_for V goal_id now = ''run-'' @ show_ms now @ ''-'' @ short_tag (env_hash (re_store V)) goal_id"

definition bind_run :: "run_env \<Rightarrow> string \<Rightarrow> json \<Rightarrow> u64 \<Rightarrow> string \<Rightarrow> int \<Rightarrow> json \<Rightarrow> string \<Rightarrow> string step" where
  "bind_run V workspace params now goal_id version plan key =
     (let run_id = run_id_for V goal_id now; worktree = or_else (get_str plan ''worktree'') [];
          parent = get_str params ''parent_run_id'';
          binding = JObj [(''bound_at_ms'', JNum (uint now)), (''goal_id'', JStr goal_id),
            (''model_route'', JStr (or_else (get_str params ''model_route'') FIXTURE_MODEL_ROUTE)),
            (''parent_run_id'', (case parent of None \<Rightarrow> JNull | Some p \<Rightarrow> JStr p)), (''plan_version'', JNum version),
            (''policy_snapshot'', JStr (policy_snapshot V)), (''realm'', JStr (or_else (get_str params ''realm'') ''local'')),
            (''run_id'', JStr run_id), (''worktree'', JStr worktree)]
      in then_do (on_store store_error_str (\<lambda>st. create_run (re_store V) st (''runq_'' @ run_id) workspace run_id goal_id now key)) (\<lambda>_.
         then_do (core_event V (''runbound_'' @ run_id) workspace ''run.binding_recorded'' now binding (key @ ''-binding'')) (\<lambda>_.
         then_do (on_engine (apply_event V ''run.binding_recorded'' (env_print (re_store V) binding))) (\<lambda>_.
         then_do (on_files (\<lambda>fs. re_snapshot V fs (re_store_dir V) run_id worktree)) (\<lambda>baseline.
         then_do (core_event V (''baseline_'' @ run_id) workspace ''run.baseline_snapshot'' now baseline (key @ ''-baseline'')) (\<lambda>_.
         (case parent of
            None \<Rightarrow> ret run_id
          | Some p \<Rightarrow>
              then_do (core_event V (''fork_'' @ run_id) workspace ''run.forked'' now
                (JObj [(''parent_run_id'', JStr p), (''run_id'', JStr run_id)]) (key @ ''-fork'')) (\<lambda>_. ret run_id))))))))"

definition start_run :: "run_env \<Rightarrow> string \<Rightarrow> json \<Rightarrow> u64 \<Rightarrow> json step" where
  "start_run V workspace params now =
     then_do (on_engine (note_workspace workspace)) (\<lambda>_.
     then_do (of_result (require params ''goal_id'')) (\<lambda>goal_id.
     then_do (of_option ''missing_param:plan_version'' (get_i64 params ''plan_version'')) (\<lambda>version.
     then_do get_sys (\<lambda>s.
     then_do (of_option ''plan_not_frozen'' (bt_get (eg_plans (sy_engine s)) (goal_id, version))) (\<lambda>plan.
     then_do (of_result (require params ''idempotency_key'')) (\<lambda>key.
     then_do (bind_run V workspace params now goal_id version plan key) (\<lambda>run_id.
     then_do (transition V run_id Running [] now (key @ ''-go'')) (\<lambda>_.
     execute_pending V workspace run_id now))))))))"

definition pause_run :: "run_env \<Rightarrow> string \<Rightarrow> json \<Rightarrow> u64 \<Rightarrow> json step" where
  "pause_run V workspace params now =
     then_do (of_result (require params ''run_id'')) (\<lambda>run_id.
     then_do (get_run run_id) (\<lambda>r.
     (let boundary = (case rc_remaining_steps r of [] \<Rightarrow> ''end'' | step # _ \<Rightarrow> or_else (get_str step ''step_id'') ''end'') in
      if rc_state r \<in> {''blocked'', ''queued''} then
        then_do (append_run_event V workspace ''run.paused'' now
          (JObj [(''boundary_step'', JStr boundary), (''run_id'', JStr run_id)]) (run_id @ ''-pause-'' @ show_ms now)) (\<lambda>_.
        ret (JObj [(''paused_at'', JStr boundary), (''run_id'', JStr run_id)]))
      else fail ''pause_requires_safe_boundary'')))"

definition resume_run :: "run_env \<Rightarrow> string \<Rightarrow> json \<Rightarrow> u64 \<Rightarrow> json step" where
  "resume_run V workspace params now =
     then_do (of_result (require params ''run_id'')) (\<lambda>run_id.
     then_do (of_result (require params ''idempotency_key'')) (\<lambda>key.
     then_do (get_run run_id) (\<lambda>r.
     if rc_state r \<noteq> ''blocked'' then fail ''not_resumable''
     else
     then_do get_sys (\<lambda>s.
     if or_else (Option.bind (eg_bindings (sy_engine s) run_id) (\<lambda>b. get_str b ''policy_snapshot'')) [] \<noteq> policy_snapshot V
     then fail ''resume_revalidation_failed''
     else
     then_do (append_run_event V workspace ''run.resume_revalidated'' now
       (JObj [(''policy_snapshot'', JStr (policy_snapshot V)), (''run_id'', JStr run_id)])
       (run_id @ ''-resume-valid-'' @ show_ms now)) (\<lambda>_.
     then_do (transition V run_id Running [] now (key @ ''-resume'')) (\<lambda>_.
     execute_pending V workspace run_id now))))))"

definition terminal_name :: "string \<Rightarrow> bool" where
  "terminal_name state \<longleftrightarrow> state \<in> {''succeeded'', ''failed'', ''cancelled''}"

definition cancel_run :: "run_env \<Rightarrow> string \<Rightarrow> json \<Rightarrow> u64 \<Rightarrow> json step" where
  "cancel_run V workspace params now =
     then_do (of_result (require params ''run_id'')) (\<lambda>run_id.
     then_do (of_result (require params ''idempotency_key'')) (\<lambda>key.
     then_do (get_run run_id) (\<lambda>r.
     if terminal_name (rc_state r) then fail ''run_already_terminal''
     else
     (let compensated = (case Option.bind (rc_pending_approval r) (\<lambda>crd. json_get crd ''approval_id'') of None \<Rightarrow> [] | Some i \<Rightarrow> [i]) in
      then_do (append_run_event V workspace ''run.cancel_propagated'' now
        (JObj [(''compensated'', JArr compensated), (''realm'', JStr ''local''), (''run_id'', JStr run_id)])
        (run_id @ ''-cancel-prop-'' @ show_ms now)) (\<lambda>_.
      then_do (transition V run_id RunCancelled [] now (key @ ''-cancel'')) (\<lambda>_.
      ret (JObj [(''run_id'', JStr run_id), (''state'', JStr ''cancelled'')])))))))"

definition fork_run :: "run_env \<Rightarrow> string \<Rightarrow> json \<Rightarrow> u64 \<Rightarrow> json step" where
  "fork_run V workspace params now =
     then_do (of_result (require params ''run_id'')) (\<lambda>parent.
     then_do get_sys (\<lambda>s.
     then_do (of_option ''unknown_run'' (eg_bindings (sy_engine s) parent)) (\<lambda>binding.
     then_do (of_result (require params ''idempotency_key'')) (\<lambda>key.
     start_run V workspace
       (JObj [(''goal_id'', JStr (or_else (get_str binding ''goal_id'') [])), (''idempotency_key'', JStr key),
              (''model_route'', or_else (json_get binding ''model_route'') JNull), (''parent_run_id'', JStr parent),
              (''plan_version'', JNum (or_else (get_i64 binding ''plan_version'') 0)),
              (''realm'', or_else (json_get binding ''realm'') JNull)]) now))))"

definition steer_run :: "run_env \<Rightarrow> string \<Rightarrow> json \<Rightarrow> u64 \<Rightarrow> json step" where
  "steer_run V workspace params now =
     then_do (of_result (require params ''run_id'')) (\<lambda>run_id.
     then_do (of_result (require params ''text'')) (\<lambda>instruction.
     then_do (get_run run_id) (\<lambda>r.
     (let boundary = (if rc_state r = ''blocked'' then ''now'' else ''after_current_effect'') in
      then_do (append_run_event V workspace ''run.steered'' now
        (JObj [(''boundary'', JStr boundary), (''run_id'', JStr run_id), (''text'', JStr instruction)])
        (run_id @ ''-steer-'' @ short_tag (env_hash (re_store V)) instruction @ ''-'' @ show_ms now)) (\<lambda>_.
      ret (JObj [(''boundary'', JStr boundary), (''run_id'', JStr run_id)]))))))"

section \<open>Approvals\<close>

definition validate_approval :: "run_record \<Rightarrow> string \<Rightarrow> u64 \<Rightarrow> string + json" where
  "validate_approval r approval_id now =
     (case rc_pending_approval r of None \<Rightarrow> Err ''no_pending_approval'' | Some crd \<Rightarrow>
      if get_str crd ''approval_id'' \<noteq> Some approval_id then Err ''approval_unknown_for_run''
      else if approval_id \<in> set (rc_resolved_approvals r) then Err ''approval_already_resolved''
      else if or_else (get_i64 crd ''expires_at_ms'') 0 \<le> sint now then Err ''approval_expired''
      else if rc_plan_version r \<noteq> or_else (get_i64 crd ''plan_version'') (- 1) then Err ''approval_plan_changed''
      else Ok crd)"

definition scope_narrowed :: "json \<Rightarrow> json \<Rightarrow> string + unit" where
  "scope_narrowed crd scope =
     (let approved = json_strings (or_else (get_arr crd ''argv'') []);
          narrowed = json_strings (or_else (json_arr scope) [])
      in if narrowed \<noteq> approved \<and> \<not> prefix narrowed approved then Err ''approval_scope_broadened'' else Ok ())"

text \<open>The checks before the resolution is recorded; the result is the card and the run as they were.\<close>

definition admit_resolution :: "run_env \<Rightarrow> json \<Rightarrow> u64 \<Rightarrow> string \<Rightarrow> string \<Rightarrow> (run_record \<times> json) step" where
  "admit_resolution V params now run_id approval_id =
     then_do (get_run run_id) (\<lambda>r.
     then_do (of_result (validate_approval r approval_id now)) (\<lambda>crd.
     if (case get_str params ''digest'' of None \<Rightarrow> False | Some presented \<Rightarrow> presented \<noteq> or_else (get_str crd ''digest'') [])
     then fail ''approval_digest_mismatch''
     else
     then_do (case Option.bind (json_get params ''scope'') (\<lambda>s. json_get s ''argv'') of
                None \<Rightarrow> ret () | Some scope \<Rightarrow> of_result (scope_narrowed crd scope)) (\<lambda>_.
     ret (r, crd))))"

definition deny_approval :: "run_env \<Rightarrow> string \<Rightarrow> u64 \<Rightarrow> string \<Rightarrow> string \<Rightarrow> run_record \<Rightarrow> json \<Rightarrow> json step" where
  "deny_approval V workspace now run_id approval_id r crd =
     (let step_id = or_else (get_str crd ''step_id'') [] in
      then_do (append_run_event V workspace ''run.effect_denied'' now
        (JObj [(''approval_id'', JStr approval_id), (''run_id'', JStr run_id), (''step_id'', JStr step_id)])
        (approval_id @ ''-deny-'' @ show_ms now)) (\<lambda>_.
      then_do (remove_step run_id step_id) (\<lambda>_.
      then_do (if rc_state r = ''blocked''
               then transition V run_id Running [] now (approval_id @ ''-deny-continue-'' @ show_ms now) else ret ()) (\<lambda>_.
      execute_pending V workspace run_id now))))"

definition approve_step :: "run_env \<Rightarrow> string \<Rightarrow> u64 \<Rightarrow> string \<Rightarrow> string \<Rightarrow> run_record \<Rightarrow> json \<Rightarrow> json step" where
  "approve_step V workspace now run_id approval_id r crd =
     (let approved = or_else (get_str crd ''step_id'') [];
          nxt = (case rc_remaining_steps r of [] \<Rightarrow> [] | step # _ \<Rightarrow> step_id_of step)
      in if approved \<noteq> nxt then fail ''approval_resource_changed''
         else then_do (transition V run_id Running [] now (approval_id @ ''-continue-'' @ show_ms now)) (\<lambda>_.
              execute_step V workspace run_id now))"

definition resolve_approval :: "run_env \<Rightarrow> string \<Rightarrow> json \<Rightarrow> u64 \<Rightarrow> json step" where
  "resolve_approval V workspace params now =
     then_do (of_result (require params ''run_id'')) (\<lambda>run_id.
     then_do (of_result (require params ''approval_id'')) (\<lambda>approval_id.
     then_do (of_result (require params ''decision'')) (\<lambda>decision.
     then_do (admit_resolution V params now run_id approval_id) (\<lambda>(r, crd).
     then_do (append_run_event V workspace ''run.approval_resolved'' now
       (JObj [(''approval_id'', JStr approval_id), (''decision'', JStr decision),
              (''digest'', JStr (or_else (get_str crd ''digest'') [])), (''run_id'', JStr run_id)])
       (approval_id @ ''-resolved-'' @ show_ms now)) (\<lambda>_.
     if decision = ''deny'' then deny_approval V workspace now run_id approval_id r crd
     else if decision \<noteq> ''approve'' then fail ''invalid_decision''
     else approve_step V workspace now run_id approval_id r crd)))))"

section \<open>Dispatch\<close>

datatype run_method = GoalCreate | PlanFreeze | RunStart | RunPause | RunResume | RunCancel | RunSteer | RunFork | RunRetry | ApprovalResolve

text \<open>The run methods of \<open>dispatch_run_method\<close>.\<close>

fun dispatch_run :: "run_env \<Rightarrow> string \<Rightarrow> run_method \<Rightarrow> json \<Rightarrow> u64 \<Rightarrow> json step" where
  "dispatch_run V workspace GoalCreate params now = create_goal V workspace params now"
| "dispatch_run V workspace PlanFreeze params now = freeze_plan V workspace params now"
| "dispatch_run V workspace RunStart params now = start_run V workspace params now"
| "dispatch_run V workspace RunPause params now = pause_run V workspace params now"
| "dispatch_run V workspace RunResume params now = resume_run V workspace params now"
| "dispatch_run V workspace RunCancel params now = cancel_run V workspace params now"
| "dispatch_run V workspace RunSteer params now = steer_run V workspace params now"
| "dispatch_run V workspace RunFork params now = fork_run V workspace params now"
| "dispatch_run V workspace RunRetry params now = fork_run V workspace params now"
| "dispatch_run V workspace ApprovalResolve params now = resolve_approval V workspace params now"

section \<open>A sample environment\<close>

definition sample_run_hash :: "string \<Rightarrow> string" where
  "sample_run_hash s = char_of (length s mod 256) # take 31 (rev s @ replicate 31 (CHR ''#''))"

definition sample_run_env :: run_env where
  "sample_run_env = \<lparr>re_store = sample_env\<lparr>env_hash := sample_run_hash\<rparr>, re_cwd = [], re_io = ''io'', re_elapsed = (\<lambda>fs effect. 0),
     re_spawn = (\<lambda>fs program args cwd. (Some (''out'', Some 0), fs)),
     re_git = (\<lambda>fs args cwd. (Some (Some 0, [], []), fs)), re_store_dir = [RootDir],
     re_snapshot = (\<lambda>fs store run_id worktree. (Ok (JObj []), fs))\<rparr>"

end
