(* ===== verification/ChangeSet.thy ===== *)
theory ChangeSet
  imports RunEngine
begin

text \<open>
  Change sets (\<open>crates/saber-core/src/change_set.rs\<close>): the inventory of a worktree, the baseline
  snapshot taken when a run starts, the diff against it, stale-apply protection, rollback with its
  proof, and the recorded commit. The order of directory entries, which the system leaves open, is
  that of the tree; names are UTF-8. Git is \<open>re_git\<close>.
\<close>

definition IGNORED_PATHS :: "string list" where
  "IGNORED_PATHS = [''.git'', ''node_modules'', ''.saber-snapshots'']"

definition GENERATED_HINTS :: "string list" where
  "GENERATED_HINTS = [''dist/'', ''build/'', ''generated/'', ''.min.'']"

section \<open>Inventory\<close>

type_synonym manifest = "(string, json) btree"

definition inventory_entry :: "run_env \<Rightarrow> string \<Rightarrow> json" where
  "inventory_entry V bytes = JObj [(''sha256'', JStr (hex_digest (env_hash (re_store V)) [bytes])), (''size'', JNum (int (length bytes)))]"

text \<open>The entries below a directory, given by its path from the worktree: directories to walk and files to hash.\<close>

definition child_names :: "fs \<Rightarrow> string list \<Rightarrow> string list option" where
  "child_names fs dir =
     (if fs_is_dir fs (absolute_path dir) then map_option (fs_children fs) (fs_walk MAX_LINKS fs [] (absolute_path dir)) else None)"

fun inventory_entries ::
  "run_env \<Rightarrow> fs \<Rightarrow> string list \<Rightarrow> string list \<Rightarrow> string list \<Rightarrow> string list list \<Rightarrow> manifest \<Rightarrow> string + string list list \<times> manifest" where
  "inventory_entries V fs root dir [] subdirs m = Ok (subdirs, m)"
| "inventory_entries V fs root dir (name # names) subdirs m =
     (let path = dir @ [name] in
      if fs_is_dir fs (absolute_path (root @ path))
      then inventory_entries V fs root dir names (if name \<in> set IGNORED_PATHS then subdirs else subdirs @ [path]) m
      else (case fs_read fs (absolute_path (root @ path)) of
              None \<Rightarrow> Err (''read_failed:'' @ re_io V)
            | Some bytes \<Rightarrow>
                inventory_entries V fs root dir names subdirs (bt_insert (join_with ''/'' path) (inventory_entry V bytes) m)))"

text \<open>
  The loop with its stack, as a recursion over the directories on it: the last one pushed is walked
  first. The fuel bounds the depth; \<open>None\<close> is running out of it.
\<close>

fun inventory_dirs :: "run_env \<Rightarrow> fs \<Rightarrow> string list \<Rightarrow> nat \<Rightarrow> string list list \<Rightarrow> manifest \<Rightarrow> (string + manifest) option" where
  "inventory_dirs V fs root n [] m = Some (Ok m)"
| "inventory_dirs V fs root 0 (dir # dirs) m = None"
| "inventory_dirs V fs root (Suc n) (dir # dirs) m =
     (case child_names fs (root @ dir) of
        None \<Rightarrow> Some (Err (''walk_failed:'' @ re_io V))
      | Some names \<Rightarrow>
          (case inventory_entries V fs root dir names [] m of
             Err e \<Rightarrow> Some (Err e)
           | Ok (subdirs, m1) \<Rightarrow>
               (case inventory_dirs V fs root n (rev subdirs) m1 of
                  None \<Rightarrow> None
                | Some (Err e) \<Rightarrow> Some (Err e)
                | Some (Ok m2) \<Rightarrow> inventory_dirs V fs root (Suc n) dirs m2)))"

text \<open>A path of more components than this cannot be walked: each follows a link or goes deeper in the tree.\<close>

definition depth_fuel :: "fs \<Rightarrow> nat" where
  "depth_fuel fs = Suc (tree_height fs + MAX_LINKS * Suc (tree_height fs))"

definition inventory :: "run_env \<Rightarrow> fs \<Rightarrow> string list \<Rightarrow> string + manifest" where
  "inventory V fs root = (case inventory_dirs V fs root (Suc (depth_fuel fs)) [[]] [] of Some r \<Rightarrow> r | None \<Rightarrow> Err ''unreachable'')"

definition tree_digest :: "run_env \<Rightarrow> manifest \<Rightarrow> string" where
  "tree_digest V m = hex_digest (env_hash (re_store V)) [env_print (re_store V) (JObj m)]"

subsection \<open>The walk ends\<close>

lemma fs_walk_length:
  "fs_walk k fs cur (pre @ map Normal names) = Some q \<Longrightarrow> length cur \<le> tree_height fs \<Longrightarrow>
     length names \<le> tree_height fs + k * Suc (tree_height fs)
     \<and> (pre = [] \<longrightarrow> length names + length cur \<le> tree_height fs + k * Suc (tree_height fs))"
proof (induction k fs cur "pre @ map Normal names" arbitrary: pre names rule: fs_walk.induct)
  case (2 k fs cur rest)
  then obtain pre' where "pre = RootDir # pre'" by (cases pre) (auto simp: Cons_eq_map_conv)
  with 2 show ?case by force
next
  case (3 k fs cur rest)
  then obtain pre' where "pre = CurDir # pre'" by (cases pre) (auto simp: Cons_eq_map_conv)
  with 3 show ?case by force
next
  case (4 k fs cur rest)
  then obtain pre' where "pre = ParentDir # pre'" by (cases pre) (auto simp: Cons_eq_map_conv)
  with 4 show ?case by force
next
  case (5 k fs cur n rest)
  have walk: "fs_walk k fs cur (Normal n # rest) = Some q" using 5(3,4) by simp
  then obtain v where v: "fs_get fs (cur @ [n]) = Some v" by (auto split: option.splits)
  then have cur: "Suc (length cur) \<le> tree_height fs" using fs_get_height by force
  have "\<exists>pre' names'. rest = pre' @ map Normal names' \<and> length names \<le> Suc (length names')
      \<and> (pre \<noteq> [] \<longrightarrow> names' = names) \<and> (pre = [] \<longrightarrow> pre' = [])"
    using 5(3) by (cases pre) (auto simp: Cons_eq_map_conv intro: exI [of _ "[]"])
  then obtain pre' names' where rest: "rest = pre' @ map Normal names'" "length names \<le> Suc (length names')"
      "pre \<noteq> [] \<Longrightarrow> names' = names" "pre = [] \<Longrightarrow> pre' = []" by blast
  show ?case
  proof (cases v)
    case FsDir
    with walk v have "fs_walk k fs (cur @ [n]) rest = Some q" by simp
    with 5(1) [OF v FsDir rest(1)] rest cur show ?thesis by (cases "pre = []") force+
  next
    case (FsFile b)
    with walk v have "rest = []" by (simp split: if_splits)
    with rest cur show ?thesis by (cases "pre = []") auto
  next
    case (FsLink target)
    then obtain j where k: "k = Suc j" "fs_walk j fs cur (target @ rest) = Some q" using walk v by (cases k) auto
    with 5(2) [OF v FsLink k(1), of "target @ pre'" names'] rest(1) 5(5) have "length names' \<le> tree_height fs + j * Suc (tree_height fs)" by simp
    with rest cur k(1) show ?thesis by (cases "pre = []") auto
  qed
qed simp

lemma is_dir_length: "fs_is_dir fs (absolute_path p) \<Longrightarrow> length p < depth_fuel fs"
  using fs_walk_length [of MAX_LINKS fs "[]" "[]" p]
  by (auto simp: fs_is_dir_def absolute_path_def depth_fuel_def less_Suc_eq_le split: option.splits)

lemma inventory_entries_subdirs:
  "inventory_entries V fs root dir names subdirs m = Ok (subdirs', m') \<Longrightarrow> sub \<in> set subdirs' \<Longrightarrow>
     sub \<in> set subdirs \<or> length sub = Suc (length dir) \<and> fs_is_dir fs (absolute_path (root @ sub))"
proof (induction names arbitrary: subdirs m)
  case (Cons name names)
  then show ?case by (force simp: Let_def split: if_splits option.splits)
qed simp

lemma inventory_dirs_return:
  assumes "\<And>dir. dir \<in> set dirs \<Longrightarrow> fs_is_dir fs (absolute_path (root @ dir)) \<and> depth_fuel fs \<le> length dir + n"
  shows "inventory_dirs V fs root n dirs m \<noteq> None"
  using assms
proof (induction V fs root n dirs m rule: inventory_dirs.induct)
  case (2 V fs root dir dirs m)
  with is_dir_length [of fs "root @ dir"] show ?case by force
next
  case (3 V fs root n dir dirs m)
  show ?case
  proof (cases "child_names fs (root @ dir)")
    case (Some names)
    show ?thesis
    proof (cases "inventory_entries V fs root dir names [] m")
      case (Inr r)
      obtain subdirs m1 where r: "r = (subdirs, m1)" by force
      have "inventory_dirs V fs root n (rev subdirs) m1 \<noteq> None"
        using 3(1) [OF Some Inr r [symmetric]] inventory_entries_subdirs [of V fs root dir names "[]" m subdirs m1] Inr r 3(3) by force
      then show ?thesis
        using Some Inr r 3(2) [OF Some Inr r [symmetric]] 3(3) by (auto split: option.splits sum.splits)
    qed (use Some in simp)
  qed simp
qed simp

text \<open>The fuel is enough: walking a worktree always returns.\<close>

lemma inventory_returns: "inventory_dirs V fs root (Suc (depth_fuel fs)) [[]] [] \<noteq> None"
proof (cases "child_names fs root")
  case (Some names)
  show ?thesis
  proof (cases "inventory_entries V fs root [] names [] []")
    case (Inr r)
    obtain subdirs m1 where r: "r = (subdirs, m1)" by force
    have "inventory_dirs V fs root (depth_fuel fs) (rev subdirs) m1 \<noteq> None"
      by (rule inventory_dirs_return) (use inventory_entries_subdirs [of V fs root "[]" names "[]" "[]" subdirs m1] Inr r in force)
    then show ?thesis using Some Inr r by (auto split: option.splits sum.splits)
  qed (use Some in simp)
qed simp

section \<open>Classification\<close>

definition looks_binary :: "string \<Rightarrow> bool" where
  "looks_binary bytes \<longleftrightarrow> CHR 0x00 \<in> set (take 1024 bytes)"

definition classify :: "string \<Rightarrow> string \<Rightarrow> bool \<Rightarrow> string" where
  "classify relative bytes untracked =
     join_with ''+'' ([if untracked then ''untracked'' else ''tracked'']
       @ (if looks_binary bytes then [''binary''] else [])
       @ (if \<exists>hint \<in> set GENERATED_HINTS. str_contains relative hint then [''generated''] else []))"

section \<open>Baseline\<close>

definition fs_copy :: "fs \<Rightarrow> path_component list \<Rightarrow> path_component list \<Rightarrow> fs option" where
  "fs_copy fs source target = (case fs_read fs source of None \<Rightarrow> None | Some bytes \<Rightarrow> fs_write fs target bytes)"

text \<open>Copying files between two directories, the parents of each target created; the message prefixes are the caller's.\<close>

fun copy_files ::
  "run_env \<Rightarrow> string \<Rightarrow> string \<Rightarrow> path_component list \<Rightarrow> path_component list \<Rightarrow> string list \<Rightarrow> fs \<Rightarrow> (string + unit) \<times> fs" where
  "copy_files V mkdir_failed copy_failed from_dir to_dir [] fs = (Ok (), fs)"
| "copy_files V mkdir_failed copy_failed from_dir to_dir (relative # rest) fs =
     (case make_parent fs (path_join to_dir relative) of
        (False, fs1) \<Rightarrow> (Err (mkdir_failed @ re_io V), fs1)
      | (True, fs1) \<Rightarrow>
          (case fs_copy fs1 (path_join from_dir relative) (path_join to_dir relative) of
             None \<Rightarrow> (Err (copy_failed @ re_io V), fs1)
           | Some fs2 \<Rightarrow> copy_files V mkdir_failed copy_failed from_dir to_dir rest fs2))"

definition snapshot_dir :: "path_component list \<Rightarrow> string \<Rightarrow> path_component list" where
  "snapshot_dir store_dir run_id = path_join (path_join store_dir ''snapshots'') run_id"

definition snapshot_baseline :: "run_env \<Rightarrow> fs \<Rightarrow> path_component list \<Rightarrow> string \<Rightarrow> string \<Rightarrow> (string + json) \<times> fs" where
  "snapshot_baseline V fs store_dir run_id worktree =
     (case fs_canonicalize fs (re_cwd V) (path_components worktree) of
        None \<Rightarrow> (Err (''worktree_unavailable:'' @ re_io V), fs)
      | Some root \<Rightarrow>
          (case inventory V fs root of
             Err e \<Rightarrow> (Err e, fs)
           | Ok m \<Rightarrow>
               (case copy_files V ''snapshot_mkdir_failed:'' ''snapshot_copy_failed:'' (absolute_path root)
                       (snapshot_dir store_dir run_id) (bt_keys m) fs of
                  (Err e, fs1) \<Rightarrow> (Err e, fs1)
                | (Ok _, fs1) \<Rightarrow>
                    (Ok (JObj [(''file_count'', JNum (int (length m))), (''manifest'', JObj m), (''run_id'', JStr run_id),
                               (''tree_digest'', JStr (tree_digest V m))]), fs1))))"

section \<open>Reading the log\<close>

text \<open>
  The scan of the log in pages of 500 events that \<open>bound_worktree\<close>, \<open>baseline_manifest\<close> and
  \<open>run_touched\<close> share, up to the first event for which \<open>f\<close> has an answer; the fuel is the number of
  events.
\<close>

fun scan_pages :: "event_store \<Rightarrow> nat \<Rightarrow> int \<Rightarrow> (replayed_event \<Rightarrow> 'a option) \<Rightarrow> 'a option" where
  "scan_pages s 0 cursor f = None"
| "scan_pages s (Suc n) cursor f =
     (if cursor < int (event_count s)
      then (case replay_events s cursor 500 of
              (events, nxt) \<Rightarrow>
                if nxt \<le> cursor then None
                else (case List.map_filter f events of a # _ \<Rightarrow> Some a | [] \<Rightarrow> scan_pages s n nxt f))
      else None)"

definition scan_events :: "event_store \<Rightarrow> (replayed_event \<Rightarrow> 'a option) \<Rightarrow> 'a option" where
  "scan_events s f = scan_pages s (event_count s) 0 f"

definition payload_of :: "run_env \<Rightarrow> string \<Rightarrow> replayed_event \<Rightarrow> json option" where
  "payload_of V event_type ev = (if rv_event_type ev = event_type then env_parse (re_store V) (rv_payload_json ev) else None)"

definition bound_worktree :: "run_env \<Rightarrow> event_store \<Rightarrow> string \<Rightarrow> string + string" where
  "bound_worktree V s run_id =
     (case scan_events s (\<lambda>ev. Option.bind (payload_of V ''run.binding_recorded'' ev) (\<lambda>payload.
             if get_str payload ''run_id'' = Some run_id
             then Some (case get_str payload ''worktree'' of Some w \<Rightarrow> Ok w | None \<Rightarrow> Err ''binding_missing_worktree'')
             else None)) of
        Some r \<Rightarrow> r
      | None \<Rightarrow> Err ''unknown_run'')"

text \<open>A manifest is a JSON object, whatever its values.\<close>

fun json_manifest :: "run_env \<Rightarrow> json \<Rightarrow> string + manifest" where
  "json_manifest V (JObj entries) = Ok (foldl (\<lambda>m f. bt_insert (fst f) (snd f) m) [] entries)"
| "json_manifest V _ = Err (''json:'' @ re_io V)"

definition baseline_manifest :: "run_env \<Rightarrow> event_store \<Rightarrow> string \<Rightarrow> string + manifest" where
  "baseline_manifest V s run_id =
     (case scan_events s (\<lambda>ev. Option.bind (payload_of V ''run.baseline_snapshot'' ev) (\<lambda>payload.
             if get_str payload ''run_id'' = Some run_id
             then Some (case json_get payload ''manifest'' of Some m \<Rightarrow> json_manifest V m | None \<Rightarrow> Err ''baseline_missing_manifest'')
             else None)) of
        Some r \<Rightarrow> r
      | None \<Rightarrow> Err ''baseline_missing'')"

definition run_touched :: "run_env \<Rightarrow> event_store \<Rightarrow> string \<Rightarrow> string \<Rightarrow> bool" where
  "run_touched V s run_id relative =
     (scan_events s (\<lambda>ev. Option.bind (payload_of V ''run.waiting_approval'' ev) (\<lambda>payload.
        Option.bind (json_get payload ''card'') (\<lambda>crd.
          if get_str crd ''run_id'' = Some run_id \<and> get_str crd ''resource'' = Some relative then Some () else None))) \<noteq> None)"

section \<open>Operations\<close>

definition canonical_root :: "run_env \<Rightarrow> string \<Rightarrow> fs \<Rightarrow> string + string list" where
  "canonical_root V worktree fs =
     (case fs_canonicalize fs (re_cwd V) (path_components worktree) of
        None \<Rightarrow> Err (''worktree_unavailable:'' @ re_io V)
      | Some root \<Rightarrow> Ok root)"

definition sha256_of :: "json \<Rightarrow> json option" where
  "sha256_of entry = json_get entry ''sha256''"

text \<open>The changed and added files of the current tree, with the external edits among them.\<close>

fun diff_current ::
  "run_env \<Rightarrow> event_store \<Rightarrow> fs \<Rightarrow> path_component list \<Rightarrow> string \<Rightarrow> manifest \<Rightarrow> (string \<times> json) list
   \<Rightarrow> string + json list \<times> string list" where
  "diff_current V st fs root run_id baseline [] = Ok ([], [])"
| "diff_current V st fs root run_id baseline ((relative, entry) # rest) =
     (case fs_read fs (path_join root relative) of
        None \<Rightarrow> Err (''read_failed:'' @ re_io V)
      | Some bytes \<Rightarrow>
          (let base = bt_get baseline relative;
               change = (case base of
                   None \<Rightarrow> ''added''
                 | Some b \<Rightarrow> if sha256_of b \<noteq> sha256_of entry then ''modified'' else ''unchanged'') in
           if change = ''unchanged'' then diff_current V st fs root run_id baseline rest
           else
             (let record = JObj [(''baseline'', or_else base JNull), (''change'', JStr change),
                    (''classification'', JStr (classify relative bytes True)), (''current'', entry), (''path'', JStr relative)];
                  external = (if change = ''modified'' \<and> \<not> run_touched V st run_id relative then [relative] else [])
              in case diff_current V st fs root run_id baseline rest of
                   Err e \<Rightarrow> Err e
                 | Ok (files, external_edits) \<Rightarrow> Ok (record # files, external @ external_edits))))"

definition diff_deleted :: "manifest \<Rightarrow> manifest \<Rightarrow> json list" where
  "diff_deleted baseline current =
     map (\<lambda>(relative, entry). JObj [(''baseline'', entry), (''change'', JStr ''deleted''), (''classification'', JStr ''deleted''),
            (''current'', JNull), (''path'', JStr relative)])
       (filter (\<lambda>e. bt_get current (fst e) = None) baseline)"

definition prepare_changeset :: "run_env \<Rightarrow> string \<Rightarrow> json \<Rightarrow> u64 \<Rightarrow> json step" where
  "prepare_changeset V workspace params now =
     then_do (of_result (require params ''run_id'')) (\<lambda>run_id.
     then_do (of_result (require params ''idempotency_key'')) (\<lambda>key.
     then_do get_sys (\<lambda>s.
     then_do (of_result (bound_worktree V (sy_store s) run_id)) (\<lambda>worktree.
     then_do (of_result (baseline_manifest V (sy_store s) run_id)) (\<lambda>baseline.
     then_do (of_result (canonical_root V worktree (sy_fs s))) (\<lambda>root.
     then_do (of_result (inventory V (sy_fs s) root)) (\<lambda>current.
     then_do (of_result (diff_current V (sy_store s) (sy_fs s) (absolute_path root) run_id baseline current)) (\<lambda>(files, external_edits).
     (let changeset = JObj [(''baseline_tree_digest'', JStr (tree_digest V baseline)),
            (''changeset_id'', JStr (''cs-'' @ run_id @ ''-'' @ show_ms now)),
            (''external_edits'', JArr (map JStr external_edits)), (''files'', JArr (files @ diff_deleted baseline current)),
            (''prepared_at_ms'', JNum (uint now)), (''run_id'', JStr run_id), (''tree_digest'', JStr (tree_digest V current)),
            (''worktree'', JStr worktree)]
      in then_do (core_event V (''cs_prepared_'' @ run_id @ ''_'' @ show_ms now) workspace ''changeset.prepared'' now changeset key) (\<lambda>_.
         ret changeset))))))))))"

definition apply_changeset :: "run_env \<Rightarrow> string \<Rightarrow> json \<Rightarrow> u64 \<Rightarrow> json step" where
  "apply_changeset V workspace params now =
     then_do (of_result (require params ''run_id'')) (\<lambda>run_id.
     then_do (of_result (require params ''idempotency_key'')) (\<lambda>key.
     then_do (of_result (require params ''expected_tree_digest'')) (\<lambda>expected.
     then_do get_sys (\<lambda>s.
     then_do (of_result (bound_worktree V (sy_store s) run_id)) (\<lambda>worktree.
     then_do (of_result (canonical_root V worktree (sy_fs s))) (\<lambda>root.
     then_do (of_result (inventory V (sy_fs s) root)) (\<lambda>current.
     (let actual = tree_digest V current in
      if actual \<noteq> expected then fail (''stale_apply_blocked:'' @ actual)
      else
        (let outcome = JObj [(''accepted_paths'', JArr (or_else (get_arr params ''accepted_paths'') [])),
               (''applied_at_ms'', JNum (uint now)), (''applied_tree_digest'', JStr actual), (''run_id'', JStr run_id)]
         in then_do (core_event V (''cs_applied_'' @ run_id @ ''_'' @ show_ms now) workspace ''changeset.applied'' now outcome key) (\<lambda>_.
            ret outcome))))))))))"

text \<open>Removing the files that the baseline does not have.\<close>

fun remove_added :: "run_env \<Rightarrow> path_component list \<Rightarrow> manifest \<Rightarrow> string list \<Rightarrow> fs \<Rightarrow> (string + unit) \<times> fs" where
  "remove_added V root baseline [] fs = (Ok (), fs)"
| "remove_added V root baseline (relative # rest) fs =
     (if bt_get baseline relative \<noteq> None then remove_added V root baseline rest fs
      else (case fs_remove fs (path_join root relative) of
              None \<Rightarrow> (Err (''remove_failed:'' @ re_io V), fs)
            | Some fs1 \<Rightarrow> remove_added V root baseline rest fs1))"

definition restore_baseline :: "run_env \<Rightarrow> string list \<Rightarrow> string \<Rightarrow> manifest \<Rightarrow> fs \<Rightarrow> (string + manifest) \<times> fs" where
  "restore_baseline V root run_id baseline fs =
     (case copy_files V ''restore_mkdir_failed:'' ''restore_failed:'' (snapshot_dir (re_store_dir V) run_id) (absolute_path root)
             (bt_keys baseline) fs of
        (Err e, fs1) \<Rightarrow> (Err e, fs1)
      | (Ok _, fs1) \<Rightarrow>
          (case inventory V fs1 root of
             Err e \<Rightarrow> (Err e, fs1)
           | Ok current \<Rightarrow>
               (case remove_added V (absolute_path root) baseline (bt_keys current) fs1 of
                  (Err e, fs2) \<Rightarrow> (Err e, fs2)
                | (Ok _, fs2) \<Rightarrow> (inventory V fs2 root, fs2))))"

definition manifest_mismatches :: "manifest \<Rightarrow> manifest \<Rightarrow> string list" where
  "manifest_mismatches baseline after =
     map fst (filter (\<lambda>e. bt_get after (fst e) \<noteq> Some (snd e)) baseline)
     @ map (\<lambda>relative. relative @ '':unexpected'') (filter (\<lambda>relative. bt_get baseline relative = None) (bt_keys after))"

definition rollback_changeset :: "run_env \<Rightarrow> string \<Rightarrow> json \<Rightarrow> u64 \<Rightarrow> json step" where
  "rollback_changeset V workspace params now =
     then_do (of_result (require params ''run_id'')) (\<lambda>run_id.
     then_do (of_result (require params ''idempotency_key'')) (\<lambda>key.
     then_do get_sys (\<lambda>s.
     then_do (of_result (bound_worktree V (sy_store s) run_id)) (\<lambda>worktree.
     then_do (of_result (baseline_manifest V (sy_store s) run_id)) (\<lambda>baseline.
     then_do (of_result (canonical_root V worktree (sy_fs s))) (\<lambda>root.
     then_do (on_files (restore_baseline V root run_id baseline)) (\<lambda>after.
     (let mismatches = manifest_mismatches baseline after; restored = (mismatches = []);
          proof_record = JObj [(''baseline_file_count'', JNum (int (length baseline))), (''mismatches'', JArr (map JStr mismatches)),
            (''restored'', JBool restored), (''restored_file_count'', JNum (int (length after))),
            (''restored_tree_digest'', JStr (tree_digest V after)), (''rolled_back_at_ms'', JNum (uint now)), (''run_id'', JStr run_id)]
      in then_do (core_event V (''cs_rolled_back_'' @ run_id @ ''_'' @ show_ms now) workspace ''changeset.rolled_back'' now proof_record key) (\<lambda>_.
         if \<not> restored then fail ''rollback_proof_failed'' else ret proof_record)))))))))"

definition run_git :: "run_env \<Rightarrow> string list \<Rightarrow> string list \<Rightarrow> fs \<Rightarrow> (string + unit) \<times> fs" where
  "run_git V root args fs =
     (case re_git V fs args root of
        (None, fs1) \<Rightarrow> (Err (''git_spawn_failed:'' @ re_io V), fs1)
      | (Some (code, stdout, stderr), fs1) \<Rightarrow>
          if code \<noteq> Some 0 then (Err (''git_failed:'' @ concat (take 200 (utf8_chars stderr))), fs1) else (Ok (), fs1))"

definition git_head :: "run_env \<Rightarrow> string list \<Rightarrow> fs \<Rightarrow> (string + string) \<times> fs" where
  "git_head V root fs =
     (case re_git V fs [''rev-parse'', ''HEAD''] root of
        (None, fs1) \<Rightarrow> (Err (''git_spawn_failed:'' @ re_io V), fs1)
      | (Some (code, stdout, stderr), fs1) \<Rightarrow> (Ok (str_trim stdout), fs1))"

definition fs_exists :: "fs \<Rightarrow> path_component list \<Rightarrow> bool" where
  "fs_exists fs p \<longleftrightarrow> fs_walk MAX_LINKS fs [] p \<noteq> None"

definition commit_changeset :: "run_env \<Rightarrow> string \<Rightarrow> json \<Rightarrow> u64 \<Rightarrow> json step" where
  "commit_changeset V workspace params now =
     then_do (of_result (require params ''run_id'')) (\<lambda>run_id.
     then_do (of_result (require params ''idempotency_key'')) (\<lambda>key.
     then_do (of_result (require params ''message'')) (\<lambda>message.
     then_do get_sys (\<lambda>s.
     (let disclosure = or_else (get_str params ''authorship_disclosure'') ''agent-assisted'' in
     then_do (of_result (bound_worktree V (sy_store s) run_id)) (\<lambda>worktree.
     then_do (of_result (canonical_root V worktree (sy_fs s))) (\<lambda>root.
     if \<not> fs_exists (sy_fs s) (absolute_path root @ [Normal ''.git'']) then fail ''worktree_not_a_git_repository''
     else
     then_do (of_result (inventory V (sy_fs s) root)) (\<lambda>current.
     then_do (core_event V (''cs_commit_disclosed_'' @ run_id @ ''_'' @ show_ms now) workspace ''changeset.commit_disclosed'' now
       (JObj [(''authorship_disclosure'', JStr disclosure), (''message'', JStr message), (''run_id'', JStr run_id),
              (''signing'', JStr (or_else (get_str params ''signing'') ''none'')), (''tree_digest'', JStr (tree_digest V current))])
       (key @ ''-disclosure'')) (\<lambda>_.
     then_do (on_files (run_git V root [''add'', ''-A''])) (\<lambda>_.
     then_do (on_files (run_git V root [''commit'', ''-m'', message @ [CHR 0x0A, CHR 0x0A] @ ''Authorship: '' @ disclosure @ [CHR 0x0A] @ ''Run: '' @ run_id])) (\<lambda>_.
     then_do (on_files (git_head V root)) (\<lambda>sha.
     (let outcome = JObj [(''authorship_disclosure'', JStr disclosure), (''commit'', JStr sha), (''message'', JStr message), (''run_id'', JStr run_id)]
      in then_do (core_event V (''cs_committed_'' @ run_id @ ''_'' @ show_ms now) workspace ''changeset.committed'' now outcome key) (\<lambda>_.
         ret outcome))))))))))))))"

datatype changeset_method = ChangesetPrepare | ChangesetApply | ChangesetRollback | ChangesetCommit

text \<open>The change-set methods of \<open>dispatch_run_method\<close>.\<close>

fun dispatch_changeset :: "run_env \<Rightarrow> string \<Rightarrow> changeset_method \<Rightarrow> json \<Rightarrow> u64 \<Rightarrow> json step" where
  "dispatch_changeset V workspace ChangesetPrepare params now = prepare_changeset V workspace params now"
| "dispatch_changeset V workspace ChangesetApply params now = apply_changeset V workspace params now"
| "dispatch_changeset V workspace ChangesetRollback params now = rollback_changeset V workspace params now"
| "dispatch_changeset V workspace ChangesetCommit params now = commit_changeset V workspace params now"

section \<open>What the operations guarantee\<close>

lemma bt_inv_foldl: "bt_inv m \<Longrightarrow> bt_inv (foldl (\<lambda>m f. bt_insert (fst f) (snd f) m) m entries)"
  by (induction entries arbitrary: m) (simp_all add: bt_inv_insert)

lemma manifest_mismatches_Nil: "manifest_mismatches baseline after = [] \<longleftrightarrow> bt_get after = bt_get baseline" if "bt_inv baseline"
proof
  assume m: "manifest_mismatches baseline after = []"
  show "bt_get after = bt_get baseline"
  proof
    fix k
    show "bt_get after k = bt_get baseline k"
    proof (cases "bt_get baseline k")
      case None
      with m have "k \<notin> set (bt_keys after)" by (auto simp: manifest_mismatches_def filter_empty_conv)
      then have "bt_get after k = None" using dom_bt_get [of after] by (auto simp: bt_keys_def domIff)
      with None show ?thesis by simp
    next
      case (Some v)
      then have "(k, v) \<in> set baseline" by (rule bt_get_mem)
      with m Some show ?thesis by (auto simp: manifest_mismatches_def filter_empty_conv)
    qed
  qed
next
  assume same: "bt_get after = bt_get baseline"
  have "bt_get baseline (fst e) = Some (snd e)" if "e \<in> set baseline" for e
    using bt_mem_get [OF \<open>bt_inv baseline\<close>, of "fst e" "snd e"] that by simp
  moreover have "bt_get baseline k \<noteq> None" if "k \<in> set (bt_keys after)" for k
    using that dom_bt_get [of after] same by (auto simp: bt_keys_def domIff)
  ultimately show "manifest_mismatches baseline after = []"
    by (simp add: manifest_mismatches_def filter_empty_conv same)
qed

lemma map_filter_Cons_Some: "List.map_filter f xs = a # as \<Longrightarrow> \<exists>x \<in> set xs. f x = Some a"
  by (induction xs) (auto simp: map_filter_simps split: option.splits)

lemma scan_pages_Some: "scan_pages s n cursor f = Some a \<Longrightarrow> \<exists>ev. f ev = Some a"
  by (induction n arbitrary: cursor) (auto split: if_splits prod.splits list.splits dest: map_filter_Cons_Some)

lemma baseline_manifest_inv: "baseline_manifest V s run_id = Ok m \<Longrightarrow> bt_inv m"
proof -
  have manifest: "json_manifest V v = Ok m \<Longrightarrow> bt_inv m" for v
    by (cases v) (auto simp: bt_inv_foldl)
  assume "baseline_manifest V s run_id = Ok m"
  then obtain r where "scan_events s (\<lambda>ev. Option.bind (payload_of V ''run.baseline_snapshot'' ev) (\<lambda>payload.
             if get_str payload ''run_id'' = Some run_id
             then Some (case json_get payload ''manifest'' of Some m \<Rightarrow> json_manifest V m | None \<Rightarrow> Err ''baseline_missing_manifest'')
             else None)) = Some r" "r = Ok m"
    by (auto simp: baseline_manifest_def split: option.splits)
  from scan_pages_Some [OF this(1) [unfolded scan_events_def]] this(2) show "bt_inv m"
    by (auto simp: bind_eq_Some_conv split: if_splits option.splits intro: manifest)
qed

lemma restore_baseline_inventory: "restore_baseline V root run_id baseline fs = (Ok after, fs') \<Longrightarrow> inventory V fs' root = Ok after"
  by (auto simp: restore_baseline_def split: prod.splits sum.splits)

lemma core_event_files: "core_event V e w t now p k s = (r, s') \<Longrightarrow> sy_fs s' = sy_fs s"
  by (auto simp: core_event_def on_store_def split: prod.splits sum.splits)

text \<open>What a snapshot records is read back as the inventory it was made from.\<close>

lemma bt_insert_append: "(\<And>e. e \<in> set m \<Longrightarrow> fst e < k) \<Longrightarrow> bt_insert k v m = m @ [(k, v)]"
  by (induction k v m rule: bt_insert.induct) (force simp: less_le_not_le)+

lemma rebuild_sorted_map: "bt_inv (m @ entries) \<Longrightarrow> foldl (\<lambda>m f. bt_insert (fst f) (snd f) m) m entries = m @ entries"
proof (induction entries arbitrary: m)
  case (Cons e entries)
  then have "bt_insert (fst e) (snd e) m = m @ [e]"
    by (subst bt_insert_append) (auto simp: bt_inv_def sorted_wrt_append)
  with Cons show ?case by simp
qed simp

lemma inventory_entries_inv: "inventory_entries V fs root dir names subdirs m = Ok (subdirs', m') \<Longrightarrow> bt_inv m \<Longrightarrow> bt_inv m'"
  by (induction names arbitrary: subdirs m) (auto simp: Let_def bt_inv_insert split: if_splits option.splits)

lemma inventory_dirs_inv: "inventory_dirs V fs root n dirs m = Some (Ok m') \<Longrightarrow> bt_inv m \<Longrightarrow> bt_inv m'"
proof (induction V fs root n dirs m arbitrary: m' rule: inventory_dirs.induct)
  case (3 V fs root n dir dirs m)
  from "3.prems"(1) obtain names subdirs m1 m2 where step: "child_names fs (root @ dir) = Some names"
    "inventory_entries V fs root dir names [] m = Ok (subdirs, m1)" "inventory_dirs V fs root n (rev subdirs) m1 = Some (Ok m2)"
    "inventory_dirs V fs root (Suc n) dirs m2 = Some (Ok m')"
    by (auto split: option.splits sum.splits)
  have "bt_inv m1" using inventory_entries_inv step(2) "3.prems"(2) by blast
  from "3.IH"(1) [OF step(1,2) refl step(3) this] have "bt_inv m2" .
  from "3.IH"(2) [OF step(1,2) refl step(3) refl step(4) this] show ?case .
qed simp_all

lemma inventory_inv: "inventory V fs root = Ok m \<Longrightarrow> bt_inv m"
  unfolding inventory_def
  by (rule inventory_dirs_inv [of V fs root "Suc (depth_fuel fs)" "[[]]" "[]"]) (simp_all del: inventory_dirs.simps split: option.splits)

lemma snapshot_recorded:
  assumes "snapshot_baseline V fs store_dir run_id worktree = (Ok payload, fs')"
  shows "\<exists>root m. fs_canonicalize fs (re_cwd V) (path_components worktree) = Some root \<and> inventory V fs root = Ok m
    \<and> get_str payload ''run_id'' = Some run_id \<and> map_option (json_manifest V) (json_get payload ''manifest'') = Some (Ok m)"
  using assms
  by (auto simp: snapshot_baseline_def get_str_def rebuild_sorted_map [of "[]", simplified] inventory_inv split: option.splits sum.splits prod.splits)

section \<open>A link in the worktree\<close>

text \<open>
  The walk follows links to directories, so a rollback removes the files it finds behind a link that was
  made in the worktree, wherever they are.
\<close>

definition sample_linked_worktree :: fs where
  "sample_linked_worktree = foldl (\<lambda>m e. bt_insert (fst e) (snd e) m) []
    [([''w''], FsDir), ([''h''], FsDir), ([''h'', ''a''], FsFile ''x''), ([''w'', ''o''], FsLink [RootDir, Normal ''h''])]"

definition sample_no_baseline :: manifest where
  "sample_no_baseline = []"

lemma rollback_leaves_worktree:
  "fst (restore_baseline sample_run_env [''w''] ''r'' sample_no_baseline sample_linked_worktree) = Ok []
   \<and> fs_get (snd (restore_baseline sample_run_env [''w''] ''r'' sample_no_baseline sample_linked_worktree)) [''h'', ''a''] = None"
  by code_simp

text \<open>The classification never says that a file is tracked.\<close>

lemma classify_untracked: "take 9 (classify relative bytes True) = ''untracked''"
  by (simp add: classify_def)

lemma classification_untracked:
  "diff_current V st fs root run_id baseline current = Ok (files, external) \<Longrightarrow> record \<in> set files \<Longrightarrow>
     map_option (take 9) (get_str record ''classification'') = Some ''untracked''"
  by (induction current arbitrary: files external)
    (auto simp: Let_def get_str_def classify_untracked split: prod.splits option.splits sum.splits if_splits)

section \<open>A sample rollback\<close>

definition sample_logged :: "string \<Rightarrow> json \<Rightarrow> int \<Rightarrow> event_row" where
  "sample_logged event_type payload n = \<lparr>ev_sequence = n, ev_event_id = show_dec (nat n), ev_workspace_id = ''ws'', ev_event_type = event_type,
     ev_occurred_at_ms = 1, ev_payload_json = sample_json_print payload, ev_previous_hash = replicate 32 (CHR ''p''),
     ev_event_hash = replicate 32 (CHR ''h'')\<rparr>"

definition sample_rollback_sys :: sys where
  "sample_rollback_sys = \<lparr>sy_store = (fresh_store ''ws'')\<lparr>es_events :=
       [sample_logged ''run.binding_recorded'' (JObj [(''run_id'', JStr ''r''), (''worktree'', JStr ''/w'')]) 1,
        sample_logged ''run.baseline_snapshot'' (JObj [(''manifest'', JObj []), (''run_id'', JStr ''r'')]) 2]\<rparr>,
     sy_engine = engine_default, sy_fs = [([''w''], FsDir), ([''w'', ''x''], FsFile ''new'')]\<rparr>"

definition sample_rollback_params :: json where
  "sample_rollback_params = JObj [(''idempotency_key'', JStr ''k''), (''run_id'', JStr ''r'')]"

lemma sample_rollback: "\<not> isl (fst (rollback_changeset sample_run_env ''ws'' sample_rollback_params 9 sample_rollback_sys))"
  by code_simp

text \<open>
  C37: Rollback is proved by hashes. When a rollback answers, the inventory of the worktree is the
  baseline manifest that the log holds for the run: every file of the baseline is there with its hash and
  size, and there is no other file.
\<close>

theorem rollback_restores_baseline:
  assumes "rollback_changeset V workspace params now s = (Ok proof_record, s')"
  shows "\<exists>run_id worktree root baseline after.
     get_str params ''run_id'' = Some run_id
     \<and> bound_worktree V (sy_store s) run_id = Ok worktree \<and> baseline_manifest V (sy_store s) run_id = Ok baseline
     \<and> fs_canonicalize (sy_fs s) (re_cwd V) (path_components worktree) = Some root
     \<and> inventory V (sy_fs s') root = Ok after \<and> bt_get after = bt_get baseline"
proof -
  from assms obtain run_id worktree root baseline after fs2 where ok: "require params ''run_id'' = Ok run_id"
    "bound_worktree V (sy_store s) run_id = Ok worktree" "baseline_manifest V (sy_store s) run_id = Ok baseline"
    "canonical_root V worktree (sy_fs s) = Ok root" "restore_baseline V root run_id baseline (sy_fs s) = (Ok after, fs2)"
    "manifest_mismatches baseline after = []" "sy_fs s' = fs2"
    by (auto simp: rollback_changeset_def Let_def then_Ok step_Ok dest!: core_event_files split: if_splits)
  with restore_baseline_inventory [OF ok(5)] manifest_mismatches_Nil [OF baseline_manifest_inv [OF ok(3)]]
  show ?thesis by (auto simp: canonical_root_def require_def split: option.splits if_splits)
qed

theorem rollback_restores_baseline_witness:
  "\<exists>after. inventory sample_run_env (sy_fs (snd (rollback_changeset sample_run_env ''ws'' sample_rollback_params 9 sample_rollback_sys)))
       [''w''] = Ok after \<and> bt_get after = bt_get []"
proof -
  obtain r s' where run: "rollback_changeset sample_run_env ''ws'' sample_rollback_params 9 sample_rollback_sys = (r, s')" by force
  with sample_rollback obtain v where "r = Ok v" by (cases r) simp_all
  from rollback_restores_baseline [OF run [unfolded this]] obtain worktree root baseline after where w:
    "bound_worktree sample_run_env (sy_store sample_rollback_sys) ''r'' = Ok worktree"
    "baseline_manifest sample_run_env (sy_store sample_rollback_sys) ''r'' = Ok baseline"
    "fs_canonicalize (sy_fs sample_rollback_sys) (re_cwd sample_run_env) (path_components worktree) = Some root"
    "inventory sample_run_env (sy_fs s') root = Ok after" "bt_get after = bt_get baseline"
    by (auto simp: sample_rollback_params_def get_str_def)
  have "bound_worktree sample_run_env (sy_store sample_rollback_sys) ''r'' = Ok ''/w''"
       "baseline_manifest sample_run_env (sy_store sample_rollback_sys) ''r'' = Ok []"
       "fs_canonicalize (sy_fs sample_rollback_sys) (re_cwd sample_run_env) (path_components ''/w'') = Some [''w'']"
    by code_simp+
  with w show ?thesis by (auto simp: run)
qed

end
