(* ===== verification/MultiAgent.thy ===== *)
theory MultiAgent
  imports ChangeSet
begin

text \<open>
  Delegation to child agents and their worktrees (\<open>crates/saber-core/src/multi_agent.rs\<close>): creating a
  worktree, delegating a task within the scope of the parent, integrating worktrees, quarantine. Git is
  \<open>re_git\<close>; files are the tree of \<open>HostFiles\<close>; a path that the code keeps as text is a string.
\<close>

section \<open>More of the file tree\<close>

definition join_str :: "string \<Rightarrow> string \<Rightarrow> string" where
  "join_str base relative =
     (if path_is_absolute relative then relative
      else base @ (if base \<noteq> [] \<and> last base = CHR ''/'' then [] else ''/'') @ relative)"

text \<open>\<open>remove_dir_all\<close>: links are removed, not followed.\<close>

definition fs_remove_tree :: "fs \<Rightarrow> path_component list \<Rightarrow> fs" where
  "fs_remove_tree fs p =
     (if p = [] then fs
      else (case last p of
        Normal n \<Rightarrow> (case fs_walk MAX_LINKS fs [] (butlast p) of
           None \<Rightarrow> fs | Some d \<Rightarrow> filter (\<lambda>e. \<not> prefix (d @ [n]) (fst e)) fs)
      | _ \<Rightarrow> fs))"

text \<open>\<open>rename\<close> of an entry to a name that is free, or taken by an empty directory when a directory moves.\<close>

definition fs_move :: "fs \<Rightarrow> string list \<Rightarrow> string list \<Rightarrow> fs" where
  "fs_move fs source target =
     foldl (\<lambda>m e. bt_insert (if prefix source (fst e) then target @ drop (length source) (fst e) else fst e) (snd e) m) [] fs"

definition fs_rename :: "fs \<Rightarrow> string list \<Rightarrow> path_component list \<Rightarrow> string \<Rightarrow> fs option" where
  "fs_rename fs source target_parent name =
     (case fs_walk MAX_LINKS fs [] target_parent of
        None \<Rightarrow> None
      | Some d \<Rightarrow>
          (let target = d @ [name] in
           if source = [] \<or> prefix source target then None
           else (case (fs_get fs source, fs_get fs target) of
                   (None, _) \<Rightarrow> None
                 | (Some FsDir, Some FsDir) \<Rightarrow> if fs_children fs target = [] then Some (fs_move fs source target) else None
                 | (Some FsDir, Some _) \<Rightarrow> None
                 | (Some _, Some FsDir) \<Rightarrow> None
                 | (Some _, _) \<Rightarrow> Some (fs_move fs source target))))"

section \<open>Walking and copying trees\<close>

fun walk_entries :: "fs \<Rightarrow> string list \<Rightarrow> string list \<Rightarrow> string list \<Rightarrow> string list list \<times> string list list" where
  "walk_entries fs root dir [] = ([], [])"
| "walk_entries fs root dir (name # names) =
     (case walk_entries fs root dir names of
        (subdirs, files) \<Rightarrow>
          if fs_is_dir fs (absolute_path (root @ dir @ [name]))
          then ((if name = ''.git'' \<or> name = ''node_modules'' then subdirs else (dir @ [name]) # subdirs), files)
          else (subdirs, (dir @ [name]) # files))"

text \<open>As \<open>inventory_dirs\<close>: the directories on the stack, the last one pushed first; the fuel bounds the depth.\<close>

fun walk_dirs :: "run_env \<Rightarrow> fs \<Rightarrow> string list \<Rightarrow> nat \<Rightarrow> string list list \<Rightarrow> (string + string list list) option" where
  "walk_dirs V fs root n [] = Some (Ok [])"
| "walk_dirs V fs root 0 (dir # dirs) = None"
| "walk_dirs V fs root (Suc n) (dir # dirs) =
     (case child_names fs (root @ dir) of
        None \<Rightarrow> Some (Err (''walk_failed:'' @ re_io V))
      | Some names \<Rightarrow>
          (case walk_entries fs root dir names of
             (subdirs, files) \<Rightarrow>
               (case walk_dirs V fs root n (rev subdirs) of
                  Some (Ok below) \<Rightarrow> map_option (map_sum id (\<lambda>rest. files @ below @ rest)) (walk_dirs V fs root (Suc n) dirs)
                | r \<Rightarrow> r)))"

definition walk_files :: "run_env \<Rightarrow> fs \<Rightarrow> string list \<Rightarrow> string + string list list" where
  "walk_files V fs root = (case walk_dirs V fs root (Suc (depth_fuel fs)) [[]] of Some r \<Rightarrow> r | None \<Rightarrow> Err ''unreachable'')"

lemma walk_entries_subdirs:
  "sub \<in> set (fst (walk_entries fs root dir names)) \<Longrightarrow> length sub = Suc (length dir) \<and> fs_is_dir fs (absolute_path (root @ sub))"
  by (induction names) (auto split: prod.splits if_splits)

lemma walk_dirs_return:
  assumes "\<And>dir. dir \<in> set dirs \<Longrightarrow> fs_is_dir fs (absolute_path (root @ dir)) \<and> depth_fuel fs \<le> length dir + n"
  shows "walk_dirs V fs root n dirs \<noteq> None"
  using assms
proof (induction V fs root n dirs rule: walk_dirs.induct)
  case (2 V fs root dir dirs)
  with is_dir_length [of fs "root @ dir"] show ?case by force
next
  case (3 V fs root n dir dirs)
  show ?case
  proof (cases "child_names fs (root @ dir)")
    case (Some names)
    obtain subdirs files where w: "walk_entries fs root dir names = (subdirs, files)" by force
    have "walk_dirs V fs root n (rev subdirs) \<noteq> None"
      using 3(1) [OF Some w [symmetric]] walk_entries_subdirs [of _ fs root dir names] w 3(3) by force
    then show ?thesis
      using Some w 3(2) [OF Some w [symmetric]] 3(3) by (auto split: option.splits sum.splits)
  qed simp
qed simp

lemma walk_returns: "walk_dirs V fs root (Suc (depth_fuel fs)) [[]] \<noteq> None"
proof (cases "child_names fs root")
  case (Some names)
  obtain subdirs files where w: "walk_entries fs root [] names = (subdirs, files)" by force
  have "walk_dirs V fs root (depth_fuel fs) (rev subdirs) \<noteq> None"
    by (rule walk_dirs_return) (use walk_entries_subdirs [of _ fs root "[]" names] w in force)
  then show ?thesis using Some w by (auto split: option.splits sum.splits)
qed simp

text \<open>Copying the files below one directory into another.\<close>

fun copy_walked :: "run_env \<Rightarrow> string list \<Rightarrow> path_component list \<Rightarrow> string list list \<Rightarrow> fs \<Rightarrow> (string + unit) \<times> fs" where
  "copy_walked V source target [] fs = (Ok (), fs)"
| "copy_walked V source target (relative # rest) fs =
     (case make_parent fs (target @ map Normal relative) of
        (False, fs1) \<Rightarrow> (Err (''mkdir_failed:'' @ re_io V), fs1)
      | (True, fs1) \<Rightarrow>
          (case fs_copy fs1 (absolute_path (source @ relative)) (target @ map Normal relative) of
             None \<Rightarrow> (Err (''copy_failed:'' @ re_io V), fs1)
           | Some fs2 \<Rightarrow> copy_walked V source target rest fs2))"

definition copy_tree :: "run_env \<Rightarrow> string list \<Rightarrow> path_component list \<Rightarrow> fs \<Rightarrow> (string + unit) \<times> fs" where
  "copy_tree V source target fs =
     (case fs_mkdirs fs [] target of
        (False, fs1) \<Rightarrow> (Err (''mkdir_failed:'' @ re_io V), fs1)
      | (True, fs1) \<Rightarrow>
          (case walk_files V fs1 source of
             Err e \<Rightarrow> (Err e, fs1)
           | Ok files \<Rightarrow> copy_walked V source target files fs1))"

section \<open>Creating a worktree\<close>

definition META_FILE :: string where
  "META_FILE = ''.saber-worktree.json''"

definition source_root :: "run_env \<Rightarrow> string \<Rightarrow> string \<Rightarrow> fs \<Rightarrow> string + string list" where
  "source_root V message path fs =
     (case fs_canonicalize fs (re_cwd V) (path_components path) of
        None \<Rightarrow> Err (message @ re_io V)
      | Some root \<Rightarrow> Ok root)"

text \<open>Whether \<open>git status\<close> reports changes; a git that fails counts as clean.\<close>

definition git_dirty :: "run_env \<Rightarrow> string list \<Rightarrow> string list \<Rightarrow> fs \<Rightarrow> (string + bool) \<times> fs" where
  "git_dirty V args root fs =
     (case re_git V fs args root of
        (Some (Some code, stdout, stderr), fs1) \<Rightarrow> (Ok (code = 0 \<and> str_trim stdout \<noteq> []), fs1)
      | (_, fs1) \<Rightarrow> (Ok False, fs1))"

definition worktree_seed :: "string \<Rightarrow> string \<Rightarrow> string list \<Rightarrow> string \<Rightarrow> string" where
  "worktree_seed task_id owner root base_commit = task_id @ ''-'' @ owner @ ''-'' @ path_string root @ ''-'' @ base_commit"

definition worktree_location :: "run_env \<Rightarrow> string list \<Rightarrow> string \<Rightarrow> string \<Rightarrow> string" where
  "worktree_location V root task_id seed =
     join_str (join_str (path_string root) ''.saber-worktrees'')
       (task_id @ ''-'' @ take 8 (hex_digest (env_hash (re_store V)) [seed]))"

definition add_git_worktree :: "run_env \<Rightarrow> string list \<Rightarrow> string \<Rightarrow> string \<Rightarrow> fs \<Rightarrow> (string + unit) \<times> fs" where
  "add_git_worktree V root path base_commit fs =
     (case fs_mkdirs fs [] (butlast (path_components path)) of
        (False, fs1) \<Rightarrow> (Err (''mkdir_failed:'' @ re_io V), fs1)
      | (True, fs1) \<Rightarrow>
          (case re_git V fs1 [''worktree'', ''add'', ''--detach'', path, base_commit] root of
             (None, fs2) \<Rightarrow> (Err (''git_spawn_failed:'' @ re_io V), fs2)
           | (Some (code, stdout, stderr), fs2) \<Rightarrow>
               if code \<noteq> Some 0
               then (Err (''git_worktree_failed:'' @ concat (take 200 (utf8_chars stderr))), fs_remove_tree fs2 (path_components path))
               else (Ok (), fs2)))"

definition write_metadata :: "run_env \<Rightarrow> string \<Rightarrow> json \<Rightarrow> fs \<Rightarrow> (string + unit) \<times> fs" where
  "write_metadata V path metadata fs =
     (case fs_write fs (path_components (join_str path META_FILE)) (env_print (re_store V) metadata) of
        None \<Rightarrow> (Err (''meta_write_failed:'' @ re_io V), fs)
      | Some fs1 \<Rightarrow> (Ok (), fs1))"

definition create_worktree :: "run_env \<Rightarrow> string \<Rightarrow> json \<Rightarrow> u64 \<Rightarrow> json step" where
  "create_worktree V workspace params now =
     then_do (of_result (require params ''task_id'')) (\<lambda>task_id.
     then_do (of_result (require params ''owner'')) (\<lambda>owner.
     then_do (of_result (require params ''source_worktree'')) (\<lambda>source.
     (let base_commit = or_else (get_str params ''base_commit'') ''HEAD'' in
     then_do (of_result (require params ''idempotency_key'')) (\<lambda>key.
     then_do get_sys (\<lambda>s.
     then_do (of_result (source_root V ''source_unavailable:'' source (sy_fs s))) (\<lambda>root.
     then_do (on_files (git_dirty V [''status'', ''--porcelain'', ''--'', ''.'', '':(exclude).saber-worktrees''] root)) (\<lambda>dirty.
     (let seed = worktree_seed task_id owner root base_commit;
          tag = hex_digest (env_hash (re_store V)) [seed];
          path = worktree_location V root task_id seed;
          metadata = JObj [(''base_commit'', JStr base_commit), (''dirty_base'', JBool dirty), (''owner'', JStr owner),
            (''path'', JStr path), (''realm'', JStr (or_else (get_str params ''realm'') ''local'')),
            (''source_worktree'', JStr (path_string root)), (''task_id'', JStr task_id),
            (''worktree_id'', JStr (''wt-'' @ task_id @ ''-'' @ take 8 tag))]
      in then_do get_sys (\<lambda>s1.
         (let is_git = fs_exists (sy_fs s1) (absolute_path root @ [Normal ''.git'']) in
         then_do (core_event V (''wt_created_'' @ task_id @ ''_'' @ take 12 tag) workspace ''worktree.created'' now metadata key) (\<lambda>outcome.
         then_do get_sys (\<lambda>s2.
         (let present = fs_exists (sy_fs s2) (path_components path) in
          case outcome of
            Replayed _ \<Rightarrow> if \<not> present then fail ''worktree_missing_after_replay'' else ret metadata
          | Committed _ \<Rightarrow>
              if present then fail ''worktree_path_collision''
              else
              then_do (on_files (if is_git then add_git_worktree V root path base_commit else copy_tree V root (path_components path))) (\<lambda>_.
              then_do (on_files (write_metadata V path metadata)) (\<lambda>_.
              ret metadata))))))))))))))))"

section \<open>Delegation\<close>

definition platform_scope :: json where
  "platform_scope =
     JObj [(''budgets'', JObj [(''moneyUsd'', JNum 20), (''tokens'', JNum 200000), (''toolCalls'', JNum 500), (''wallClockMinutes'', JNum 120)]),
           (''capabilities'', JArr (map JStr [''read.browse'', ''read.search'', ''write.edit'', ''write.create'', ''exec.sandboxed'']))]"

definition scope_event :: "run_env \<Rightarrow> string \<Rightarrow> replayed_event \<Rightarrow> json option" where
  "scope_event V parent_run ev =
     (case env_parse (re_store V) (rv_payload_json ev) of
        None \<Rightarrow> None
      | Some payload \<Rightarrow>
          if rv_event_type ev = ''run.binding_recorded'' \<and> get_str payload ''run_id'' = Some parent_run then Some platform_scope
          else if rv_event_type ev = ''task.delegated'' \<and> str_contains (or_else (get_str payload ''delegation_id'') []) parent_run then Some payload
          else None)"

definition parent_scope :: "run_env \<Rightarrow> event_store \<Rightarrow> string \<Rightarrow> string + json" where
  "parent_scope V s parent_run =
     (case scan_events s (scope_event V parent_run) of Some scope \<Rightarrow> Ok scope | None \<Rightarrow> Err ''unknown_parent_run'')"

definition scope_capabilities :: "json \<Rightarrow> string list" where
  "scope_capabilities scope = json_strings (or_else (get_arr scope ''capabilities'') [])"

definition budget_of :: "json \<Rightarrow> string \<Rightarrow> int option" where
  "budget_of scope dimension = Option.bind (json_get scope ''budgets'') (\<lambda>b. get_i64 b dimension)"

definition clamp_budget :: "json \<Rightarrow> json \<Rightarrow> string \<Rightarrow> int" where
  "clamp_budget scope params dimension =
     (let parent_value = or_else (budget_of scope dimension) (2 ^ 63 - 1);
          requested_value = or_else (budget_of params dimension) parent_value
      in min requested_value parent_value)"

definition delegation_record :: "json \<Rightarrow> json \<Rightarrow> string \<Rightarrow> string \<Rightarrow> string \<Rightarrow> u64 \<Rightarrow> json" where
  "delegation_record scope params goal_id parent_run worktree_id now =
     JObj [(''budgets'', JObj (map (\<lambda>d. (d, JNum (clamp_budget scope params d))) [''moneyUsd'', ''tokens'', ''toolCalls'', ''wallClockMinutes''])),
           (''capabilities'', JArr (map JStr (scope_capabilities params))), (''delegated_at_ms'', JNum (uint now)),
           (''delegation_id'', JStr (''deleg-'' @ parent_run @ ''-'' @ show_ms now)), (''goal_id'', JStr goal_id),
           (''model_route'', JStr (or_else (get_str params ''model_route'') FIXTURE_MODEL_ROUTE)), (''parent_run_id'', JStr parent_run),
           (''realm'', JStr (or_else (get_str params ''realm'') ''local'')), (''task'', or_else (json_get params ''task'') (JObj [])),
           (''worktree_id'', JStr worktree_id)]"

definition delegate_child :: "run_env \<Rightarrow> string \<Rightarrow> json \<Rightarrow> u64 \<Rightarrow> json step" where
  "delegate_child V workspace params now =
     then_do (of_result (require params ''goal_id'')) (\<lambda>goal_id.
     then_do (of_result (require params ''parent_run_id'')) (\<lambda>parent_run.
     then_do (of_result (require params ''worktree_id'')) (\<lambda>worktree_id.
     then_do (of_result (require params ''idempotency_key'')) (\<lambda>key.
     then_do get_sys (\<lambda>s.
     then_do (of_result (parent_scope V (sy_store s) parent_run)) (\<lambda>scope.
     (let widened = filter (\<lambda>c. c \<notin> set (scope_capabilities scope)) (scope_capabilities params);
          delegation = delegation_record scope params goal_id parent_run worktree_id now
      in if widened \<noteq> [] then fail (''child_scope_widened:'' @ join_with '','' widened)
         else then_do (core_event V (''delegated_'' @ parent_run @ ''_'' @ show_ms now) workspace ''task.delegated'' now delegation key) (\<lambda>_.
              ret delegation))))))))"

section \<open>Integration and quarantine\<close>

text \<open>One source on top of the review worktree: what was applied and what overlaps.\<close>

fun integrate_files ::
  "run_env \<Rightarrow> string list \<Rightarrow> path_component list \<Rightarrow> string list list \<Rightarrow> fs \<Rightarrow> (string + string list \<times> string list) \<times> fs" where
  "integrate_files V source review [] fs = (Ok ([], []), fs)"
| "integrate_files V source review (relative # rest) fs =
     (let name = join_with ''/'' relative; target = review @ map Normal relative in
      if name = META_FILE \<or> starts_with name ''.git'' then integrate_files V source review rest fs
      else if fs_exists fs target then
        (case integrate_files V source review rest fs of
           (Ok (applied, overlapping), fs1) \<Rightarrow> (Ok (applied, name # overlapping), fs1)
         | r \<Rightarrow> r)
      else (case make_parent fs target of
              (False, fs1) \<Rightarrow> (Err (''mkdir_failed:'' @ re_io V), fs1)
            | (True, fs1) \<Rightarrow>
                (case fs_copy fs1 (absolute_path (source @ relative)) target of
                   None \<Rightarrow> (Err (''copy_failed:'' @ re_io V), fs1)
                 | Some fs2 \<Rightarrow>
                     (case integrate_files V source review rest fs2 of
                        (Ok (applied, overlapping), fs3) \<Rightarrow> (Ok (name # applied, overlapping), fs3)
                      | r \<Rightarrow> r))))"

fun integrate_sources ::
  "run_env \<Rightarrow> path_component list \<Rightarrow> string list \<Rightarrow> fs \<Rightarrow> (string + string list \<times> string list) \<times> fs" where
  "integrate_sources V review [] fs = (Ok ([], []), fs)"
| "integrate_sources V review (source # sources) fs =
     (case source_root V ''source_unavailable:'' source fs of
        Err e \<Rightarrow> (Err e, fs)
      | Ok root \<Rightarrow>
          (case walk_files V fs root of
             Err e \<Rightarrow> (Err e, fs)
           | Ok files \<Rightarrow>
               (case integrate_files V root review files fs of
                  (Err e, fs1) \<Rightarrow> (Err e, fs1)
                | (Ok (applied, overlapping), fs1) \<Rightarrow>
                    (case integrate_sources V review sources fs1 of
                       (Ok (applied', overlapping'), fs2) \<Rightarrow> (Ok (applied @ applied', overlapping @ overlapping'), fs2)
                     | r \<Rightarrow> r))))"

definition integrate_worktrees :: "run_env \<Rightarrow> string \<Rightarrow> json \<Rightarrow> u64 \<Rightarrow> json step" where
  "integrate_worktrees V workspace params now =
     then_do (of_result (require params ''goal_id'')) (\<lambda>goal_id.
     then_do (of_result (require params ''idempotency_key'')) (\<lambda>key.
     then_do (of_option ''missing_param:worktrees'' (map_option json_strings (get_arr params ''worktrees''))) (\<lambda>sources.
     if length sources < 2 then fail ''integration_needs_two_worktrees''
     else
     then_do get_sys (\<lambda>s.
     then_do (of_result (source_root V ''source_unavailable:'' (hd sources) (sy_fs s))) (\<lambda>first.
     if length first < 2 then fail ''invalid_path''
     else
     (let names = butlast (butlast first) @ [''integration-review-'' @ show_ms now]; review = absolute_path names in
      if fs_exists (sy_fs s) review then fail ''integration_path_collision''
      else
      then_do (on_files (copy_tree V first review)) (\<lambda>_.
      then_do (on_files (integrate_sources V review (tl sources))) (\<lambda>(applied, overlapping).
      (let outcome = JObj [(''applied_files'', JArr (map JStr applied)), (''conflicts_detected'', JBool (overlapping \<noteq> [])),
             (''goal_id'', JStr goal_id), (''integrated_at_ms'', JNum (uint now)),
             (''overlapping_files'', JArr (map JStr overlapping)), (''review_worktree'', JStr (path_string names))]
       in then_do (core_event V (''integrated_'' @ goal_id @ ''_'' @ show_ms now) workspace ''worktree.integrated'' now outcome key) (\<lambda>_.
          ret outcome))))))))))"

definition move_to_quarantine :: "run_env \<Rightarrow> string list \<Rightarrow> string list \<Rightarrow> string \<Rightarrow> fs \<Rightarrow> (string + unit) \<times> fs" where
  "move_to_quarantine V root dir name fs =
     (case fs_mkdirs fs [] (absolute_path dir) of
        (False, fs1) \<Rightarrow> (Err (''mkdir_failed:'' @ re_io V), fs1)
      | (True, fs1) \<Rightarrow>
          (case fs_rename fs1 root (absolute_path dir) name of
             None \<Rightarrow> (Err (''quarantine_failed:'' @ re_io V), fs1)
           | Some fs2 \<Rightarrow> (Ok (), fs2)))"

definition quarantine_worktree :: "run_env \<Rightarrow> string \<Rightarrow> json \<Rightarrow> u64 \<Rightarrow> json step" where
  "quarantine_worktree V workspace params now =
     then_do (of_result (require params ''worktree'')) (\<lambda>worktree.
     then_do (of_result (require params ''idempotency_key'')) (\<lambda>key.
     then_do get_sys (\<lambda>s.
     then_do (of_result (source_root V ''worktree_unavailable:'' worktree (sy_fs s))) (\<lambda>root.
     then_do (on_files (git_dirty V [''status'', ''--porcelain''] root)) (\<lambda>dirty.
     if dirty then fail ''cleanup_blocked_unreviewed_changes''
     else if length root < 2 then fail ''invalid_path''
     else
     (let dir = butlast (butlast root) @ [''.saber-quarantine''] in
      then_do (on_files (move_to_quarantine V root dir (last root))) (\<lambda>_.
      (let outcome = JObj [(''quarantined_at_ms'', JNum (uint now)), (''quarantined_to'', JStr (path_string (dir @ [last root]))),
             (''recovery'', JStr ''move the directory back or review its change set before deletion''),
             (''worktree'', JStr (path_string root))]
       in then_do (core_event V (''quarantined_'' @ show_ms now) workspace ''worktree.quarantined'' now outcome key) (\<lambda>_.
          ret outcome)))))))))"

section \<open>What delegation guarantees\<close>

lemma json_strings_JStr [simp]: "json_strings (map JStr xs) = xs"
  by (induction xs) (simp_all add: json_strings_def map_filter_simps)

lemma delegation_record_caps: "scope_capabilities (delegation_record scope params g p w now) = scope_capabilities params"
  by (simp add: delegation_record_def scope_capabilities_def [of "JObj _"] get_arr_def)

text \<open>
  A delegation that is recorded stays within the scope the log gives for its parent: its capabilities are
  among the parent's, and no budget exceeds the parent's.
\<close>

lemma delegation_within_scope:
  assumes "delegate_child V workspace params now s = (Ok delegation, s')"
  shows "\<exists>parent_run scope. get_str params ''parent_run_id'' = Some parent_run \<and> parent_scope V (sy_store s) parent_run = Ok scope
    \<and> set (scope_capabilities delegation) \<subseteq> set (scope_capabilities scope)
    \<and> (\<forall>d \<in> {''moneyUsd'', ''tokens'', ''toolCalls'', ''wallClockMinutes''}. \<forall>b. budget_of scope d = Some b \<longrightarrow>
         (\<exists>a. json_get (or_else (json_get delegation ''budgets'') JNull) d = Some (JNum a) \<and> a \<le> b))"
proof -
  from assms obtain goal_id parent_run worktree_id scope where d: "require params ''parent_run_id'' = Ok parent_run"
    "parent_scope V (sy_store s) parent_run = Ok scope" "delegation = delegation_record scope params goal_id parent_run worktree_id now"
    "filter (\<lambda>c. c \<notin> set (scope_capabilities scope)) (scope_capabilities params) = []"
    by (auto simp: delegate_child_def Let_def then_Ok step_Ok split: if_splits)
  have "set (scope_capabilities delegation) \<subseteq> set (scope_capabilities scope)"
    using d(4) by (auto simp: d(3) delegation_record_caps filter_empty_conv)
  moreover have "\<exists>a. json_get (or_else (json_get delegation ''budgets'') JNull) x = Some (JNum a) \<and> a \<le> b"
    if "x \<in> {''moneyUsd'', ''tokens'', ''toolCalls'', ''wallClockMinutes''}" "budget_of scope x = Some b" for x b
  proof (intro exI conjI)
    show "json_get (or_else (json_get delegation ''budgets'') JNull) x = Some (JNum (clamp_budget scope params x))"
      using that(1) unfolding d(3) delegation_record_def by (elim insertE emptyE) simp_all
    show "clamp_budget scope params x \<le> b" using that(2) by (simp add: clamp_budget_def Let_def)
  qed
  moreover have "get_str params ''parent_run_id'' = Some parent_run"
    using d(1) by (auto simp: require_def split: option.splits if_splits)
  ultimately show ?thesis using d(2) by blast
qed

text \<open>
  The scope of a run that has a binding is the platform baseline, also when the run works on a narrower
  delegation; and the delegation found for a name may be any whose identifier contains it.
\<close>

definition sample_delegated :: "string \<Rightarrow> json" where
  "sample_delegated i = JObj [(''capabilities'', JArr []), (''delegation_id'', JStr i)]"

definition sample_binding :: "string \<Rightarrow> json" where
  "sample_binding r = JObj [(''run_id'', JStr r)]"

lemma child_scope_is_platform:
  "parent_scope sample_run_env ((fresh_store ''ws'')\<lparr>es_events :=
     [sample_logged ''run.binding_recorded'' (sample_binding ''p'') 1, sample_logged ''task.delegated'' (sample_delegated ''deleg-p-5'') 2,
      sample_logged ''run.binding_recorded'' (sample_binding ''c'') 3]\<rparr>) ''c'' = Ok platform_scope"
  "parent_scope sample_run_env ((fresh_store ''ws'')\<lparr>es_events :=
     [sample_logged ''task.delegated'' (sample_delegated ''deleg-p-5'') 1, sample_logged ''run.binding_recorded'' (sample_binding ''d'') 2]\<rparr>) ''d''
     = Ok (sample_delegated ''deleg-p-5'')"
  by code_simp+

text \<open>Files whose name begins with \<open>.git\<close> are left out of an integration without being reported.\<close>

lemma integration_drops_git_names:
  "starts_with (join_with ''/'' relative) ''.git'' \<Longrightarrow> integrate_files V source review [relative] fs = (Ok ([], []), fs)"
  by (simp add: Let_def)

end
