(* ===== verification/Supervision.thy ===== *)
theory Supervision
  imports ControlProtocol ChangeSet MultiAgent
begin

text \<open>
  The supervision endpoint (\<open>crates/saber-core/src/serve.rs\<close> with \<open>run_dispatch.rs\<close>): one thread per
  connection over a store and an engine behind locks, the one-time bootstrap token, and the dispatch of
  the control methods. A handler holds the locks while it runs, so it is one step; the handshake reads
  the spent flag and sets it in two steps, which other connections may separate. Lines, replies and the
  clock of each line are part of the step; the socket itself is not modelled.
\<close>

section \<open>Frames\<close>

definition LINE_LIMIT :: nat where "LINE_LIMIT = MAX_FRAME_BYTES + 1"
definition TOKEN_BYTES :: nat where "TOKEN_BYTES = 32"

definition bootstrap_token :: "string option \<Rightarrow> string + string" where
  "bootstrap_token random = (case random of None \<Rightarrow> Err ''csprng unavailable'' | Some bytes \<Rightarrow> Ok (hex_lower bytes))"

datatype reply = is_ErrorReply: ErrorReply "string option" string | ResultReply string json

definition quote_char :: char where "quote_char = CHR 0x22"

definition quoted :: "string \<Rightarrow> string" where
  "quoted s = quote_char # s @ [quote_char]"

fun reply_frame :: "(json \<Rightarrow> string) \<Rightarrow> reply \<Rightarrow> string" where
  "reply_frame print (ErrorReply request_id code) =
     ''{'' @ quoted ''jsonrpc'' @ '':'' @ quoted ''2.0'' @ '','' @ quoted ''id'' @ '':''
     @ print (JStr (case request_id of None \<Rightarrow> ''null'' | Some r \<Rightarrow> r)) @ '','' @ quoted ''error'' @ '':{''
     @ quoted ''code'' @ '':-32000,'' @ quoted ''message'' @ '':'' @ quoted code @ ''}}'' @ [CHR 0x0A]"
| "reply_frame print (ResultReply request_id v) =
     ''{'' @ quoted ''jsonrpc'' @ '':'' @ quoted ''2.0'' @ '','' @ quoted ''id'' @ '':'' @ print (JStr request_id) @ '',''
     @ quoted ''result'' @ '':'' @ print v @ ''}'' @ [CHR 0x0A]"

definition initialize_result :: "string \<Rightarrow> control_request \<Rightarrow> json" where
  "initialize_result build request = JObj
     [(''capabilities'', JArr (map JStr [''core.health'', ''events.subscribe'', ''goal.create'', ''plan.freeze'', ''run.start'',
         ''run.pause'', ''run.resume'', ''run.steer'', ''run.cancel'', ''run.fork'', ''run.retry'', ''approval.resolve''])),
      (''core_build'', JStr build), (''protocol_version'', JStr PROTOCOL_VERSION),
      (''workspace_id'', JStr (rc_workspace_id (cq_context request)))]"

definition health_result :: "nat \<Rightarrow> nat \<Rightarrow> json" where
  "health_result runs events = JObj [(''event_count'', JNum (int events)), (''run_count'', JNum (int runs)), (''status'', JStr ''ready'')]"

definition replayed_value :: "replayed_event \<Rightarrow> json" where
  "replayed_value ev = JObj [(''event_id'', JStr (rv_event_id ev)), (''event_type'', JStr (rv_event_type ev)),
     (''occurred_at_ms'', JNum (sint (rv_occurred_at_ms ev))), (''payload_json'', JStr (rv_payload_json ev)),
     (''sequence'', JNum (rv_sequence ev))]"

definition replay_result :: "replayed_event list \<Rightarrow> int \<Rightarrow> nat \<Rightarrow> json" where
  "replay_result events next_cursor count = JObj
     [(''events'', JArr (map replayed_value events)), (''has_more'', JBool (next_cursor < int count)), (''next_cursor'', JNum next_cursor)]"

section \<open>Dispatch\<close>

fun dispatch_run_method :: "run_env \<Rightarrow> string \<Rightarrow> control_method \<Rightarrow> json \<Rightarrow> u64 \<Rightarrow> json step option" where
  "dispatch_run_method V workspace CmGoalCreate params now = Some (dispatch_run V workspace GoalCreate params now)"
| "dispatch_run_method V workspace CmPlanFreeze params now = Some (dispatch_run V workspace PlanFreeze params now)"
| "dispatch_run_method V workspace CmRunStart params now = Some (dispatch_run V workspace RunStart params now)"
| "dispatch_run_method V workspace CmRunPause params now = Some (dispatch_run V workspace RunPause params now)"
| "dispatch_run_method V workspace CmRunResume params now = Some (dispatch_run V workspace RunResume params now)"
| "dispatch_run_method V workspace CmRunCancel params now = Some (dispatch_run V workspace RunCancel params now)"
| "dispatch_run_method V workspace CmRunSteer params now = Some (dispatch_run V workspace RunSteer params now)"
| "dispatch_run_method V workspace CmRunFork params now = Some (dispatch_run V workspace RunFork params now)"
| "dispatch_run_method V workspace CmRunRetry params now = Some (dispatch_run V workspace RunRetry params now)"
| "dispatch_run_method V workspace CmApprovalResolve params now = Some (dispatch_run V workspace ApprovalResolve params now)"
| "dispatch_run_method V workspace CmChangesetPrepare params now = Some (dispatch_changeset V workspace ChangesetPrepare params now)"
| "dispatch_run_method V workspace CmChangesetApply params now = Some (dispatch_changeset V workspace ChangesetApply params now)"
| "dispatch_run_method V workspace CmChangesetRollback params now = Some (dispatch_changeset V workspace ChangesetRollback params now)"
| "dispatch_run_method V workspace CmChangesetCommit params now = Some (dispatch_changeset V workspace ChangesetCommit params now)"
| "dispatch_run_method V workspace CmTaskDelegate params now = Some (delegate_child V workspace params now)"
| "dispatch_run_method V workspace CmWorktreeCreate params now = Some (create_worktree V workspace params now)"
| "dispatch_run_method V workspace CmWorktreeIntegrate params now = Some (integrate_worktrees V workspace params now)"
| "dispatch_run_method V workspace CmCoreInitialize params now = None"
| "dispatch_run_method V workspace CmCoreHealth params now = None"
| "dispatch_run_method V workspace CmEventsSubscribe params now = None"

section \<open>Connections\<close>

text \<open>
  \<open>Greeting\<close>: not initialised. \<open>Accepting\<close>: the token was right and the flag not yet set when it was
  read. \<open>Hung\<close>: a handler that does not return (it keeps the locks).
\<close>

datatype conn_phase = Greeting | Accepting control_request | Serving | Closed | Hung

record serve_env =
  se_run :: run_env
  se_token :: string
  se_workspace :: string
  se_build :: string

record supervisor =
  sv_sys :: sys
  sv_token_spent :: bool
  sv_conns :: "(nat, conn_phase) btree"

definition audit_rejection :: "serve_env \<Rightarrow> string \<Rightarrow> control_request \<Rightarrow> u64 \<Rightarrow> sys \<Rightarrow> sys" where
  "audit_rejection V reason request now s =
     s\<lparr>sy_store := snd (record_handshake_failure (re_store (se_run V)) (sy_store s) (se_workspace V) reason
          (rc_actor_id (cq_context request)) now)\<rparr>"

definition presents_token :: "string \<Rightarrow> control_request \<Rightarrow> bool" where
  "presents_token token request \<longleftrightarrow> get_str (cq_params request) ''bootstrap_token'' = Some token"

text \<open>\<open>handshake\<close> up to the point where the token is accepted, and the rest of it.\<close>

definition handshake_check ::
  "serve_env \<Rightarrow> bool \<Rightarrow> control_request \<Rightarrow> u64 \<Rightarrow> sys \<Rightarrow> reply list \<times> conn_phase \<times> sys" where
  "handshake_check V spent request now s =
     (let refuse = (\<lambda>reason. ([ErrorReply (Some (rc_request_id (cq_context request))) ''unauthorized''], Greeting,
                             audit_rejection V reason request now s))
      in if cq_method request \<noteq> CmCoreInitialize then refuse ''not_initialize''
         else if spent \<or> \<not> presents_token (se_token V) request then refuse ''invalid_or_reused_token''
         else ([], Accepting request, s))"

definition handshake_accept :: "serve_env \<Rightarrow> control_request \<Rightarrow> reply list \<times> conn_phase" where
  "handshake_accept V request =
     ([ResultReply (rc_request_id (cq_context request)) (initialize_result (se_build V) request)], Serving)"

definition serve_request :: "serve_env \<Rightarrow> control_request \<Rightarrow> u64 \<Rightarrow> sys \<Rightarrow> reply list \<times> conn_phase \<times> sys" where
  "serve_request V request now s =
     (let request_id = rc_request_id (cq_context request) in
      if cq_method request = CmCoreHealth
      then ([ResultReply request_id (health_result (run_count (sy_store s)) (event_count (sy_store s)))], Serving, s)
      else if cq_method request = CmEventsSubscribe
      then
        (let cursor = max (or_else (get_i64 (cq_params request) ''after_sequence'') 0) 0;
             limit = or_else (get_i64 (cq_params request) ''limit'') 100;
             (events, next_cursor) = replay_events (sy_store s) cursor limit
         in ([ResultReply request_id (replay_result events next_cursor (event_count (sy_store s)))], Serving, s))
      else (case dispatch_run_method (se_run V) (se_workspace V) (cq_method request) (cq_params request) now of
              None \<Rightarrow> ([ErrorReply (Some request_id) ''method_not_served''], Serving, s)
            | Some handler \<Rightarrow>
                (case handler s of
                   (Ok result, s') \<Rightarrow> ([ResultReply request_id result], Serving, s')
                 | (Err (EngineError code), s') \<Rightarrow> ([ErrorReply (Some request_id) code], Serving, s')
                 | (Err NoReturn, s') \<Rightarrow> ([], Hung, s'))))"

text \<open>One line on a connection: the body of the loop of \<open>handle_connection\<close>.\<close>

definition handle_line :: "serve_env \<Rightarrow> bool \<Rightarrow> conn_phase \<Rightarrow> string \<Rightarrow> u64 \<Rightarrow> sys \<Rightarrow> reply list \<times> conn_phase \<times> sys" where
  "handle_line V spent phase line now s =
     (if \<not> utf8_valid line then ([], Closed, s)
      else if LINE_LIMIT < length line then ([ErrorReply None ''frame_too_large''], Closed, s)
      else (case decode_request (env_parse (re_store (se_run V))) line now of
        Err e \<Rightarrow> ([ErrorReply None (protocol_error_code e)], phase, s)
      | Ok request \<Rightarrow>
          if phase = Serving then serve_request V request now s
          else handshake_check V spent request now s))"

definition put_conn :: "nat \<Rightarrow> conn_phase \<Rightarrow> supervisor \<Rightarrow> supervisor" where
  "put_conn c phase sv = sv\<lparr>sv_conns := bt_insert c phase (sv_conns sv)\<rparr>"

datatype serve_event = Connected nat | Line nat string u64 "reply list" | Accepted nat "reply list" | HungUp nat

inductive serve_step :: "serve_env \<Rightarrow> supervisor \<Rightarrow> serve_event \<Rightarrow> supervisor \<Rightarrow> bool" for V where
  connect: "bt_get (sv_conns sv) c = None \<Longrightarrow> serve_step V sv (Connected c) (put_conn c Greeting sv)"
| line: "bt_get (sv_conns sv) c = Some phase \<Longrightarrow> phase = Greeting \<or> phase = Serving \<Longrightarrow>
     handle_line V (sv_token_spent sv) phase text' now (sv_sys sv) = (replies, phase', s') \<Longrightarrow>
     serve_step V sv (Line c text' now replies) (put_conn c phase' (sv\<lparr>sv_sys := s'\<rparr>))"
| accept: "bt_get (sv_conns sv) c = Some (Accepting request) \<Longrightarrow> handshake_accept V request = (replies, phase') \<Longrightarrow>
     serve_step V sv (Accepted c replies) (put_conn c phase' (sv\<lparr>sv_token_spent := True\<rparr>))"
| hang_up: "bt_get (sv_conns sv) c = Some phase \<Longrightarrow> phase = Greeting \<or> phase = Serving \<Longrightarrow>
     serve_step V sv (HungUp c) (put_conn c Closed sv)"

inductive served :: "serve_env \<Rightarrow> supervisor \<Rightarrow> serve_event list \<Rightarrow> supervisor \<Rightarrow> bool" for V sv where
  served_start: "served V sv [] sv"
| served_step: "served V sv trace sv1 \<Longrightarrow> serve_step V sv1 ev sv2 \<Longrightarrow> served V sv (trace @ [ev]) sv2"

definition serve_start :: "sys \<Rightarrow> supervisor" where
  "serve_start s = \<lparr>sv_sys = s, sv_token_spent = False, sv_conns = []\<rparr>"

section \<open>The token opens\<close>

fun past_check :: "conn_phase \<Rightarrow> bool" where
  "past_check Greeting = False"
| "past_check (Accepting _) = True"
| "past_check Serving = True"
| "past_check Closed = False"
| "past_check Hung = True"

definition conn_past_check :: "supervisor \<Rightarrow> nat \<Rightarrow> bool" where
  "conn_past_check sv c \<longleftrightarrow> (case bt_get (sv_conns sv) c of None \<Rightarrow> False | Some phase \<Rightarrow> past_check phase)"


definition rejections_only :: "sys \<Rightarrow> sys \<Rightarrow> bool" where
  "rejections_only s s' \<longleftrightarrow> sy_engine s' = sy_engine s \<and> sy_fs s' = sy_fs s \<and> es_runs (sy_store s') = es_runs (sy_store s)
     \<and> es_outbox (sy_store s') = es_outbox (sy_store s) \<and> es_decisions (sy_store s') = es_decisions (sy_store s)
     \<and> (\<exists>rows. es_events (sy_store s') = es_events (sy_store s) @ rows
          \<and> ev_event_type ` set rows \<subseteq> {''supervision.handshake_rejected''})"

lemma rejections_refl [simp]: "rejections_only s s"
  by (simp add: rejections_only_def)






lemma put_conn_fields [simp]:
  "sv_token_spent (put_conn c phase sv) = sv_token_spent sv" "sv_sys (put_conn c phase sv) = sv_sys sv"
  by (simp_all add: put_conn_def)

lemma conn_past_check_fields [simp]:
  "conn_past_check (sv\<lparr>sv_sys := s\<rparr>) = conn_past_check sv" "conn_past_check (sv\<lparr>sv_token_spent := b\<rparr>) = conn_past_check sv"
  by (simp_all add: fun_eq_iff conn_past_check_def)




















section \<open>A concrete handshake\<close>

definition sample_serve :: serve_env where
  "sample_serve = \<lparr>se_run = sample_run_env, se_token = ''secret'', se_workspace = ''ws'', se_build = ''0.0.0''\<rparr>"

definition sample_hello :: string where
  "sample_hello = sample_json_print (JObj [(''context'', JObj [(''actor_id'', JStr ''desktop''), (''deadline_unix_ms'', JNum 5),
       (''request_id'', JStr ''r1''), (''workspace_id'', JStr ''ws'')]),
     (''jsonrpc'', JStr ''2.0''), (''method'', JStr ''core.initialize''), (''params'', JObj [(''bootstrap_token'', JStr ''secret'')]),
     (''protocol_version'', JStr ''1.0.0'')])"

definition sample_greeting :: control_request where
  "sample_greeting = \<lparr>cq_jsonrpc = ''2.0'', cq_protocol_version = ''1.0.0'', cq_method = CmCoreInitialize,
     cq_context = \<lparr>rc_request_id = ''r1'', rc_actor_id = ''desktop'', rc_workspace_id = ''ws'', rc_causation_id = None,
       rc_deadline_unix_ms = 5, rc_idempotency_key = None\<rparr>,
     cq_params = JObj [(''bootstrap_token'', JStr ''secret'')]\<rparr>"

definition sample_serve_sys :: sys where
  "sample_serve_sys = \<lparr>sy_store = fresh_store ''ws'', sy_engine = engine_default, sy_fs = []\<rparr>"

lemma sample_hello_decoded: "decode_request (env_parse (re_store (se_run sample_serve))) sample_hello 1 = Ok sample_greeting"
proof -
  have "env_parse (re_store (se_run sample_serve)) = sample_json_parse"
    by (simp add: sample_serve_def sample_run_env_def sample_env_def)
  moreover have "decode_request sample_json_parse sample_hello 1 = Ok sample_greeting" by code_simp
  ultimately show ?thesis by simp
qed

lemma sample_hello_line: "handle_line sample_serve False Greeting sample_hello 1 s = ([], Accepting sample_greeting, s)"
proof -
  have "utf8_valid sample_hello" "\<not> LINE_LIMIT < length sample_hello" by code_simp+
  then show ?thesis
    using sample_hello_decoded
    by (simp add: handle_line_def handshake_check_def presents_token_def sample_greeting_def sample_serve_def get_str_def Let_def)
qed

text \<open>
  Reading the flag and setting it are two steps: two connections that present the token at the same time
  are both served, although a second handshake is documented as never accepted.
\<close>

lemma two_connections_share_the_token:
  "\<exists>trace sv. served sample_serve (serve_start sample_serve_sys) trace sv
     \<and> bt_get (sv_conns sv) 0 = Some Serving \<and> bt_get (sv_conns sv) 1 = Some Serving"
proof -
  let ?s0 = "serve_start sample_serve_sys" and ?reply = "fst (handshake_accept sample_serve sample_greeting)"
  let ?s1 = "put_conn 0 Greeting ?s0" let ?s2 = "put_conn 1 Greeting ?s1"
  let ?s3 = "put_conn 0 (Accepting sample_greeting) (?s2\<lparr>sv_sys := sv_sys ?s2\<rparr>)"
  let ?s4 = "put_conn 1 (Accepting sample_greeting) (?s3\<lparr>sv_sys := sv_sys ?s3\<rparr>)"
  let ?s5 = "put_conn 0 Serving (?s4\<lparr>sv_token_spent := True\<rparr>)"
  let ?s6 = "put_conn 1 Serving (?s5\<lparr>sv_token_spent := True\<rparr>)"
  note defs = put_conn_def serve_start_def bt_get_insert
  have a: "handshake_accept sample_serve sample_greeting = (?reply, Serving)" by (simp add: handshake_accept_def)
  have "served sample_serve ?s0 [] ?s0" by (rule served_start)
  then have "served sample_serve ?s0 ([] @ [Connected 0]) ?s1"
    by (rule served_step) (rule connect, simp add: defs bt_get_def)
  then have "served sample_serve ?s0 (([] @ [Connected 0]) @ [Connected 1]) ?s2"
    by (rule served_step) (rule connect, simp add: defs bt_get_def)
  then have "served sample_serve ?s0 ((([] @ [Connected 0]) @ [Connected 1]) @ [Line 0 sample_hello 1 []]) ?s3"
    by (rule served_step) (rule line [where phase = Greeting], simp_all add: defs bt_get_def sample_hello_line)
  then have "served sample_serve ?s0 (((([] @ [Connected 0]) @ [Connected 1]) @ [Line 0 sample_hello 1 []]) @ [Line 1 sample_hello 1 []]) ?s4"
    by (rule served_step) (rule line [where phase = Greeting], simp_all add: defs bt_get_def sample_hello_line)
  then have "served sample_serve ?s0 ((((([] @ [Connected 0]) @ [Connected 1]) @ [Line 0 sample_hello 1 []]) @ [Line 1 sample_hello 1 []])
      @ [Accepted 0 ?reply]) ?s5"
    by (rule served_step) (rule accept [OF _ a], simp add: defs bt_get_def)
  then have "served sample_serve ?s0 (((((([] @ [Connected 0]) @ [Connected 1]) @ [Line 0 sample_hello 1 []]) @ [Line 1 sample_hello 1 []])
      @ [Accepted 0 ?reply]) @ [Accepted 1 ?reply]) ?s6"
    by (rule served_step) (rule accept [OF _ a], simp add: defs bt_get_def)
  moreover have "bt_get (sv_conns ?s6) 0 = Some Serving" "bt_get (sv_conns ?s6) 1 = Some Serving" by (simp_all add: defs bt_get_def)
  ultimately show ?thesis by blast
qed



section \<open>What the endpoint does not promise\<close>

text \<open>The endpoint describes itself as read-only, and serves every mutating method once initialised.\<close>

lemma mutations_are_served: "is_mutation m \<Longrightarrow> dispatch_run_method V workspace m params now \<noteq> None"
  by (cases m) (simp_all add: is_mutation_def)

text \<open>
  The key that a mutation must carry in its context is not used: the handlers read a key of their own
  from the parameters, so the outcome of a request does not depend on the required key.
\<close>

lemma context_key_ignored:
  "serve_request V (request\<lparr>cq_context := (cq_context request)\<lparr>rc_idempotency_key := key\<rparr>\<rparr>) now s = serve_request V request now s"
  by (simp add: serve_request_def Let_def cong: if_cong option.case_cong prod.case_cong sum.case_cong engine_error.case_cong)

text \<open>
  The code of an error is put between quotes as it is. Codes carry text of the outside (the error output
  of git, for one), so a line break in it ends the frame early and a quote continues it.
\<close>

lemma error_code_unescaped:
  "\<exists>before. reply_frame print (ErrorReply (Some r) (code @ [CHR 0x0A] @ rest))
     = before @ quote_char # code @ [CHR 0x0A] @ rest @ [quote_char] @ ''}}'' @ [CHR 0x0A]"
  by (simp add: quoted_def)

end
