(* ===== verification/MemoryAuthority.thy ===== *)
theory MemoryAuthority
  imports PolicyEngine
begin

text \<open>
  The single-writer memory authority of a workspace (\<open>crates/memory-authority/src/entry.rs\<close> and
  \<open>authority.rs\<close>): proposals become candidates, an explicit review promotes them, a promotion
  supersedes the promoted revision of its key, and queries see promoted entries only. Counters
  wrap as in a release build.
\<close>

section \<open>Entries\<close>

datatype memory_kind = MemFact | MemPreference | MemRule | MemProcedure
datatype trust_level = Trusted | Imported | Untrusted
datatype memory_state = MemCandidate | MemPromoted | MemStale | MemRevoked

record memory_provenance =
  mp_origin :: string
  mp_trust :: trust_level
  mp_proposed_at_ms :: u64

record memory_freshness =
  mf_promoted_at_ms :: u64
  mf_expires_at_ms :: "u64 option"

datatype review_authority = HumanReview string | ExplicitPolicy string

record memory_entry =
  me_entry_id :: string
  me_key :: string
  me_kind :: memory_kind
  me_value :: string
  me_tenant :: string
  me_workspace :: string
  me_sensitivity :: data_class
  me_provenance :: memory_provenance
  me_freshness :: memory_freshness
  me_state :: memory_state
  me_revision :: u32

record revision_entry =
  re_entry :: memory_entry
  re_superseded_at_ms :: "u64 option"
  re_conflicted_with :: "string list"

definition entry_id_for :: "(string \<Rightarrow> string) \<Rightarrow> string \<Rightarrow> string \<Rightarrow> string \<Rightarrow> string" where
  "entry_id_for H key val origin = sha256_label H [''saber-memory-v1'' @ [CHR 0x00], key, val, origin]"

section \<open>The authority\<close>

datatype admission_error = Unclassified | CrossWorkspace | Malformed | DuplicateCandidate

fun admission_error_str :: "admission_error \<Rightarrow> string" where
  "admission_error_str Unclassified = ''unclassified''"
| "admission_error_str CrossWorkspace = ''cross_workspace''"
| "admission_error_str Malformed = ''malformed''"
| "admission_error_str DuplicateCandidate = ''duplicate_candidate''"

datatype promote_error = UnknownCandidate | NotCandidate | InvalidState

fun promote_error_str :: "promote_error \<Rightarrow> string" where
  "promote_error_str UnknownCandidate = ''unknown_candidate''"
| "promote_error_str NotCandidate = ''not_candidate''"
| "promote_error_str InvalidState = ''invalid_state''"

record memory_proposal =
  pp_key :: string
  pp_kind :: memory_kind
  pp_value :: string
  pp_tenant :: string
  pp_workspace :: string
  pp_sensitivity :: data_class
  pp_provenance :: memory_provenance
  pp_expires_at_ms :: "u64 option"

record memory_query =
  mq_sensitivity_ceiling :: data_class
  mq_now_ms :: u64
  mq_key :: "string option"

record memory_event =
  mv_name :: string
  mv_entry_id :: "string option"

record memory_authority =
  ma_tenant :: string
  ma_workspace :: string
  ma_records :: "(string, revision_entry list) btree"
  ma_write_sequence :: u64
  ma_events :: "memory_event list"

definition memory_authority_new :: "string \<Rightarrow> string \<Rightarrow> memory_authority" where
  "memory_authority_new tenant workspace =
     \<lparr>ma_tenant = tenant, ma_workspace = workspace, ma_records = [], ma_write_sequence = 0, ma_events = []\<rparr>"

definition memory_emit :: "string \<Rightarrow> string option \<Rightarrow> memory_authority \<Rightarrow> memory_authority" where
  "memory_emit name i self = self\<lparr>ma_events := ma_events self @ [\<lparr>mv_name = name, mv_entry_id = i\<rparr>]\<rparr>"

definition memory_history :: "memory_authority \<Rightarrow> string \<Rightarrow> revision_entry list" where
  "memory_history self key = (case bt_get (ma_records self) key of None \<Rightarrow> [] | Some revisions \<Rightarrow> revisions)"

abbreviation slot_id :: "revision_entry \<Rightarrow> string" where
  "slot_id slot \<equiv> me_entry_id (re_entry slot)"

abbreviation slot_state :: "revision_entry \<Rightarrow> memory_state" where
  "slot_state slot \<equiv> me_state (re_entry slot)"

definition unclassified_proposal :: "memory_proposal \<Rightarrow> bool" where
  "unclassified_proposal p \<longleftrightarrow>
     pp_sensitivity p = Public \<and> mp_origin (pp_provenance p) = []
     \<or> mp_origin (pp_provenance p) = [] \<or> pp_key p = [] \<or> pp_value p = []
     \<or> \<not> list_all (\<lambda>c. is_alnum_byte c \<or> c \<in> set '':_-'') (pp_key p)"

text \<open>The revision number: the length of the history as a 32-bit number, saturated, plus one.\<close>

definition next_revision :: "nat \<Rightarrow> u32" where
  "next_revision n = of_nat (min n (2 ^ 32 - 1)) + 1"

definition candidate_entry :: "(string \<Rightarrow> string) \<Rightarrow> string \<Rightarrow> string \<Rightarrow> memory_proposal \<Rightarrow> u32 \<Rightarrow> memory_entry" where
  "candidate_entry H tenant workspace p revision =
     \<lparr>me_entry_id = entry_id_for H (pp_key p) (pp_value p) (mp_origin (pp_provenance p)), me_key = pp_key p,
      me_kind = pp_kind p, me_value = pp_value p, me_tenant = tenant, me_workspace = workspace,
      me_sensitivity = pp_sensitivity p, me_provenance = pp_provenance p,
      me_freshness = \<lparr>mf_promoted_at_ms = 0, mf_expires_at_ms = pp_expires_at_ms p\<rparr>,
      me_state = MemCandidate, me_revision = revision\<rparr>"

definition memory_propose ::
  "(string \<Rightarrow> string) \<Rightarrow> memory_authority \<Rightarrow> memory_proposal \<Rightarrow> (admission_error + string) \<times> memory_authority" where
  "memory_propose H self p =
     (let self = self\<lparr>ma_write_sequence := ma_write_sequence self + 1\<rparr> in
      if pp_tenant p \<noteq> ma_tenant self \<or> pp_workspace p \<noteq> ma_workspace self then (Err CrossWorkspace, self)
      else if unclassified_proposal p then (Err Unclassified, self)
      else if pp_key p = [] \<or> length (pp_value p) > 16384 then (Err Malformed, self)
      else
        (let revisions = memory_history self (pp_key p);
             entry_id = entry_id_for H (pp_key p) (pp_value p) (mp_origin (pp_provenance p)) in
         if list_ex (\<lambda>slot. slot_id slot = entry_id) revisions then (Err DuplicateCandidate, self)
         else
           (let entry = candidate_entry H (ma_tenant self) (ma_workspace self) p (next_revision (length revisions));
                slot = \<lparr>re_entry = entry, re_superseded_at_ms = None, re_conflicted_with = []\<rparr>
            in (Ok entry_id,
                memory_emit ''memory.proposed'' (Some entry_id)
                  (self\<lparr>ma_records := bt_insert (pp_key p) (revisions @ [slot]) (ma_records self)\<rparr>)))))"

text \<open>Changing the first element that satisfies a test.\<close>

fun update_first :: "('a \<Rightarrow> bool) \<Rightarrow> ('a \<Rightarrow> 'a) \<Rightarrow> 'a list \<Rightarrow> 'a list" where
  "update_first p f [] = []"
| "update_first p f (x # xs) = (if p x then f x # xs else x # update_first p f xs)"

definition set_slot_state :: "memory_state \<Rightarrow> revision_entry \<Rightarrow> revision_entry" where
  "set_slot_state st slot = slot\<lparr>re_entry := (re_entry slot)\<lparr>me_state := st\<rparr>\<rparr>"

definition promote_slot :: "u64 \<Rightarrow> revision_entry \<Rightarrow> revision_entry" where
  "promote_slot now slot =
     (let e = re_entry slot in
      slot\<lparr>re_entry := e\<lparr>me_state := MemPromoted, me_freshness := (me_freshness e)\<lparr>mf_promoted_at_ms := now\<rparr>\<rparr>\<rparr>)"

definition superseded_by :: "string \<Rightarrow> revision_entry \<Rightarrow> bool" where
  "superseded_by entry_id other \<longleftrightarrow>
     slot_id other \<noteq> entry_id \<and> slot_state other = MemPromoted \<and> re_superseded_at_ms other = None"

definition supersede :: "string \<Rightarrow> u64 \<Rightarrow> revision_entry \<Rightarrow> revision_entry" where
  "supersede entry_id now other =
     (if superseded_by entry_id other then (set_slot_state MemStale other)\<lparr>re_superseded_at_ms := Some now\<rparr> else other)"

definition promoted_revisions :: "string \<Rightarrow> u64 \<Rightarrow> revision_entry list \<Rightarrow> revision_entry list" where
  "promoted_revisions entry_id now revisions =
     (let marked = update_first (\<lambda>slot. slot_id slot = entry_id) (promote_slot now) revisions;
          conflicts = map slot_id (filter (superseded_by entry_id) marked)
      in update_first (\<lambda>slot. slot_id slot = entry_id) (\<lambda>slot. slot\<lparr>re_conflicted_with := conflicts\<rparr>)
           (map (supersede entry_id now) marked))"

definition memory_promote ::
  "memory_authority \<Rightarrow> string \<Rightarrow> review_authority \<Rightarrow> u64 \<Rightarrow> (promote_error + unit) \<times> memory_authority" where
  "memory_promote self entry_id authority now =
     (let self = self\<lparr>ma_write_sequence := ma_write_sequence self + 1\<rparr> in
      case find (\<lambda>(key, revisions). list_ex (\<lambda>slot. slot_id slot = entry_id) revisions) (ma_records self) of
        None \<Rightarrow> (Err UnknownCandidate, self)
      | Some (key, revisions) \<Rightarrow>
          (case find (\<lambda>slot. slot_id slot = entry_id) revisions of
             None \<Rightarrow> (Err UnknownCandidate, self)
           | Some slot \<Rightarrow>
               if slot_state slot \<noteq> MemCandidate then (Err NotCandidate, self)
               else (Ok (), memory_emit ''memory.promoted'' (Some entry_id)
                       (self\<lparr>ma_records := bt_insert key (promoted_revisions entry_id now revisions) (ma_records self)\<rparr>))))"

definition memory_revoke :: "memory_authority \<Rightarrow> string \<Rightarrow> memory_authority" where
  "memory_revoke self entry_id =
     memory_emit ''memory.revoked'' (Some entry_id)
       (self\<lparr>ma_write_sequence := ma_write_sequence self + 1,
             ma_records := map (\<lambda>(key, revisions).
               (key, map (\<lambda>slot. if slot_id slot = entry_id then set_slot_state MemRevoked slot else slot) revisions)) (ma_records self)\<rparr>)"

text \<open>The first pass of a query over one slot: hidden, expired or visible.\<close>

definition slot_candidate :: "memory_query \<Rightarrow> revision_entry \<Rightarrow> bool" where
  "slot_candidate q slot \<longleftrightarrow> slot_state slot = MemPromoted \<and> \<not> me_sensitivity (re_entry slot) > mq_sensitivity_ceiling q"

definition slot_expired :: "memory_query \<Rightarrow> revision_entry \<Rightarrow> bool" where
  "slot_expired q slot \<longleftrightarrow>
     (case mf_expires_at_ms (me_freshness (re_entry slot)) of None \<Rightarrow> False | Some expires \<Rightarrow> expires \<le> mq_now_ms q)"

definition queried_records :: "memory_query \<Rightarrow> memory_authority \<Rightarrow> (string \<times> revision_entry list) list" where
  "queried_records q self =
     filter (\<lambda>(key, _). case mq_key q of None \<Rightarrow> True | Some wanted \<Rightarrow> key = wanted) (ma_records self)"

definition stale_slot :: "string \<Rightarrow> string \<Rightarrow> memory_authority \<Rightarrow> memory_authority" where
  "stale_slot key entry_id self =
     (case bt_get (ma_records self) key of
        None \<Rightarrow> self
      | Some revisions \<Rightarrow>
          if list_ex (\<lambda>slot. slot_id slot = entry_id) revisions
          then memory_emit ''memory.stale'' (Some entry_id)
                 (self\<lparr>ma_records := bt_insert key (update_first (\<lambda>slot. slot_id slot = entry_id) (set_slot_state MemStale) revisions)
                         (ma_records self)\<rparr>)
          else self)"

definition memory_views :: "memory_authority \<Rightarrow> memory_query \<Rightarrow> memory_entry list" where
  "memory_views self q =
     concat (map (\<lambda>(key, revisions). map re_entry (filter (\<lambda>slot. slot_candidate q slot \<and> \<not> slot_expired q slot) revisions))
       (queried_records q self))"

definition memory_expired :: "memory_authority \<Rightarrow> memory_query \<Rightarrow> (string \<times> string) list" where
  "memory_expired self q =
     concat (map (\<lambda>(key, revisions). map (\<lambda>slot. (key, slot_id slot)) (filter (\<lambda>slot. slot_candidate q slot \<and> slot_expired q slot) revisions))
       (queried_records q self))"

definition memory_query_views :: "memory_authority \<Rightarrow> memory_query \<Rightarrow> memory_entry list \<times> memory_authority" where
  "memory_query_views self q =
     (memory_views self q,
      memory_emit ''memory.queried'' None (fold (\<lambda>(key, entry_id). stale_slot key entry_id) (memory_expired self q) self))"

definition memory_take_events :: "memory_authority \<Rightarrow> memory_event list \<times> memory_authority" where
  "memory_take_events self = (ma_events self, self\<lparr>ma_events := []\<rparr>)"

section \<open>Histories\<close>

datatype memory_op =
    OpPropose memory_proposal
  | OpPromote string review_authority u64
  | OpRevoke string
  | OpQuery memory_query
  | OpTakeEvents

fun memory_step :: "(string \<Rightarrow> string) \<Rightarrow> memory_op \<Rightarrow> memory_authority \<Rightarrow> memory_authority" where
  "memory_step H (OpPropose p) self = snd (memory_propose H self p)"
| "memory_step H (OpPromote entry_id authority now) self = snd (memory_promote self entry_id authority now)"
| "memory_step H (OpRevoke entry_id) self = memory_revoke self entry_id"
| "memory_step H (OpQuery q) self = snd (memory_query_views self q)"
| "memory_step H OpTakeEvents self = snd (memory_take_events self)"

definition memory_after :: "(string \<Rightarrow> string) \<Rightarrow> string \<Rightarrow> string \<Rightarrow> memory_op list \<Rightarrow> memory_authority" where
  "memory_after H tenant workspace ops = fold (memory_step H) ops (memory_authority_new tenant workspace)"

text \<open>An entry without its state: the candidate it once was.\<close>

definition entry_content :: "memory_entry \<Rightarrow> memory_entry" where
  "entry_content e = e\<lparr>me_state := MemCandidate, me_freshness := (me_freshness e)\<lparr>mf_promoted_at_ms := 0\<rparr>\<rparr>"

definition proposed_in :: "(string \<Rightarrow> string) \<Rightarrow> string \<Rightarrow> string \<Rightarrow> memory_op list \<Rightarrow> memory_entry \<Rightarrow> bool" where
  "proposed_in H t w ops e \<longleftrightarrow> (\<exists>p n. OpPropose p \<in> set ops \<and> pp_tenant p = t \<and> pp_workspace p = w
     \<and> entry_content e = candidate_entry H t w p n)"

definition reviewed_in :: "(string \<Rightarrow> string) \<Rightarrow> string \<Rightarrow> string \<Rightarrow> memory_op list \<Rightarrow> memory_entry \<Rightarrow> bool" where
  "reviewed_in H t w ops e \<longleftrightarrow> (\<exists>earlier authority later.
     ops = earlier @ OpPromote (me_entry_id e) authority (mf_promoted_at_ms (me_freshness e)) # later
     \<and> proposed_in H t w earlier e \<and> OpRevoke (me_entry_id e) \<notin> set later)"

definition slot_ok :: "(string \<Rightarrow> string) \<Rightarrow> string \<Rightarrow> string \<Rightarrow> memory_op list \<Rightarrow> string \<Rightarrow> revision_entry \<Rightarrow> bool" where
  "slot_ok H t w ops key slot \<longleftrightarrow> me_key (re_entry slot) = key \<and> proposed_in H t w ops (re_entry slot)
     \<and> (slot_state slot = MemPromoted \<longrightarrow> reviewed_in H t w ops (re_entry slot))"

text \<open>
  The revisions of a key: distinct identifiers, one promoted revision at most, and no candidate or
  promoted revision that was superseded. The change of a list by a function is treated once, over any type.
\<close>

definition tidy :: "('a \<Rightarrow> 'i) \<Rightarrow> ('a \<Rightarrow> bool) \<Rightarrow> ('a \<Rightarrow> bool) \<Rightarrow> 'a list \<Rightarrow> bool" where
  "tidy ident sound chosen xs \<longleftrightarrow> distinct (map ident xs) \<and> (\<forall>x \<in> set xs. sound x)
     \<and> (\<forall>x \<in> set xs. \<forall>y \<in> set xs. chosen x \<longrightarrow> chosen y \<longrightarrow> ident x = ident y)"

lemma tidy_map:
  assumes "tidy ident sound chosen xs" "\<And>x. ident (f x) = ident x" "\<And>x. x \<in> set xs \<Longrightarrow> sound (f x)"
    "\<And>x y. x \<in> set xs \<Longrightarrow> y \<in> set xs \<Longrightarrow> chosen (f x) \<Longrightarrow> chosen (f y) \<Longrightarrow> ident x = ident y"
  shows "tidy ident sound chosen (map f xs)"
  unfolding tidy_def
proof (intro conjI ballI impI)
  have "map ident (map f xs) = map ident xs" using assms(2) by simp
  then show "distinct (map ident (map f xs))" using assms(1) by (simp only: tidy_def)
next
  fix x assume "x \<in> set (map f xs)"
  then show "sound x" using assms(3) by auto
next
  fix x y assume "x \<in> set (map f xs)" "y \<in> set (map f xs)" "chosen x" "chosen y"
  then obtain a b where ab: "x = f a" "y = f b" "a \<in> set xs" "b \<in> set xs" "chosen (f a)" "chosen (f b)" by auto
  have "ident a = ident b" by (rule assms(4) [OF ab(3-6)])
  then show "ident x = ident y" unfolding ab(1,2) assms(2) .
qed

lemma tidy_snoc:
  assumes "tidy ident sound chosen xs" "ident x \<notin> ident ` set xs" "sound x" "\<not> chosen x"
  shows "tidy ident sound chosen (xs @ [x])"
  unfolding tidy_def
proof (intro conjI ballI impI)
  show "distinct (map ident (xs @ [x]))" using assms(1,2) by (simp add: tidy_def)
  show "sound y" if "y \<in> set (xs @ [x])" for y
  proof -
    from that have "y \<in> set xs \<or> y = x" by auto
    with assms(1,3) show ?thesis unfolding tidy_def by blast
  qed
  show "ident a = ident b" if "a \<in> set (xs @ [x])" "b \<in> set (xs @ [x])" "chosen a" "chosen b" for a b
  proof -
    from that assms(4) have "a \<in> set xs" "b \<in> set xs" by auto
    with that assms(1) show ?thesis unfolding tidy_def by blast
  qed
qed

lemma tidy_single: "tidy ident sound chosen xs \<Longrightarrow> x \<in> set xs \<Longrightarrow> y \<in> set xs \<Longrightarrow> ident x = ident y \<Longrightarrow> x = y"
  by (auto simp: tidy_def distinct_map inj_on_def)

definition slot_sound :: "revision_entry \<Rightarrow> bool" where
  "slot_sound slot \<longleftrightarrow> (slot_state slot \<in> {MemCandidate, MemPromoted} \<longrightarrow> re_superseded_at_ms slot = None)"

definition history_ok :: "revision_entry list \<Rightarrow> bool" where
  "history_ok revisions \<longleftrightarrow> tidy slot_id slot_sound (\<lambda>slot. slot_state slot = MemPromoted) revisions"

definition records_ok :: "(string \<Rightarrow> string) \<Rightarrow> string \<Rightarrow> string \<Rightarrow> memory_op list \<Rightarrow> memory_authority \<Rightarrow> bool" where
  "records_ok H t w ops self \<longleftrightarrow> ma_tenant self = t \<and> ma_workspace self = w \<and> bt_inv (ma_records self)
     \<and> (\<forall>(key, revisions) \<in> set (ma_records self). history_ok revisions \<and> (\<forall>slot \<in> set revisions. slot_ok H t w ops key slot))"

lemma update_first_unique:
  "distinct (map g xs) \<Longrightarrow> update_first (\<lambda>x. g x = i) f xs = map (\<lambda>x. if g x = i then f x else x) xs"
proof (induction xs)
  case (Cons x xs)
  show ?case
  proof (cases "g x = i")
    case True
    then have "map (\<lambda>y. if g y = i then f y else y) xs = xs"
      using Cons.prems by (intro map_idI) (auto simp: image_iff)
    with True show ?thesis by simp
  qed (use Cons in simp)
qed simp

lemma entry_content_state [simp]:
  "entry_content (e\<lparr>me_state := st\<rparr>) = entry_content e"
  "entry_content (e\<lparr>me_state := st, me_freshness := (me_freshness e)\<lparr>mf_promoted_at_ms := now\<rparr>\<rparr>) = entry_content e"
  by (simp_all add: entry_content_def)

lemma content_fields:
  "me_key (entry_content e) = me_key e" "me_value (entry_content e) = me_value e" "me_kind (entry_content e) = me_kind e"
  "me_tenant (entry_content e) = me_tenant e" "me_workspace (entry_content e) = me_workspace e"
  "me_sensitivity (entry_content e) = me_sensitivity e" "me_provenance (entry_content e) = me_provenance e"
  "mf_expires_at_ms (me_freshness (entry_content e)) = mf_expires_at_ms (me_freshness e)"
  "me_entry_id (entry_content e) = me_entry_id e"
  by (simp_all add: entry_content_def)

lemma content_of_candidate:
  assumes "entry_content e = candidate_entry H t w p n"
  shows "me_key e = pp_key p" "me_value e = pp_value p" "me_kind e = pp_kind p" "me_tenant e = t" "me_workspace e = w"
    "me_sensitivity e = pp_sensitivity p" "me_provenance e = pp_provenance p"
    "mf_expires_at_ms (me_freshness e) = pp_expires_at_ms p"
    "me_entry_id e = entry_id_for H (pp_key p) (pp_value p) (mp_origin (pp_provenance p))"
  using content_fields [of e] by (simp_all add: assms candidate_entry_def)

lemma proposed_content: "entry_content e = entry_content e' \<Longrightarrow> proposed_in H t w ops e = proposed_in H t w ops e'"
  by (simp add: proposed_in_def)

lemma proposed_mono: "proposed_in H t w ops e \<Longrightarrow> proposed_in H t w (ops @ [op]) e"
  by (auto simp: proposed_in_def)

lemma reviewed_mono:
  assumes "reviewed_in H t w ops e" "op \<noteq> OpRevoke (me_entry_id e)"
  shows "reviewed_in H t w (ops @ [op]) e"
proof -
  from assms(1) obtain b a c where "ops = b @ OpPromote (me_entry_id e) a (mf_promoted_at_ms (me_freshness e)) # c"
    "proposed_in H t w b e" "OpRevoke (me_entry_id e) \<notin> set c"
    by (auto simp: reviewed_in_def)
  then show ?thesis
    unfolding reviewed_in_def using assms(2)
    by (intro exI [of _ b] exI [of _ a] exI [of _ "c @ [op]"]) auto
qed

lemma slot_ok_mono:
  "slot_ok H t w ops key slot \<Longrightarrow> op \<noteq> OpRevoke (slot_id slot) \<Longrightarrow> slot_ok H t w (ops @ [op]) key slot"
  by (auto simp: slot_ok_def intro: proposed_mono reviewed_mono)

text \<open>A change of slots that keeps their content and promotes none.\<close>

definition demoting :: "(revision_entry \<Rightarrow> revision_entry) \<Rightarrow> bool" where
  "demoting f \<longleftrightarrow> (\<forall>slot. entry_content (re_entry (f slot)) = entry_content (re_entry slot)
     \<and> (slot_state (f slot) \<in> {MemCandidate, MemPromoted} \<longrightarrow> f slot = slot))"

lemma content_id_key: "entry_content e = entry_content e' \<Longrightarrow> me_entry_id e = me_entry_id e' \<and> me_key e = me_key e'"
  by (metis content_fields(1,9))

lemma demoting_history:
  assumes f: "demoting f" and h: "history_ok revisions"
  shows "history_ok (map f revisions)"
  unfolding history_ok_def
proof (rule tidy_map [OF h [unfolded history_ok_def]])
  show "slot_id (f x) = slot_id x" for x
    using f content_id_key [of "re_entry (f x)" "re_entry x"] unfolding demoting_def by blast
  show "slot_sound (f x)" if "x \<in> set revisions" for x
  proof -
    have "slot_sound x" using h that unfolding history_ok_def tidy_def by blast
    then show ?thesis using f unfolding demoting_def slot_sound_def by metis
  qed
  show "slot_id x = slot_id y"
    if "x \<in> set revisions" "y \<in> set revisions" "slot_state (f x) = MemPromoted" "slot_state (f y) = MemPromoted" for x y
  proof -
    have "f x = x" "f y = y" using f that(3,4) unfolding demoting_def by blast+
    with that h show ?thesis unfolding history_ok_def tidy_def by metis
  qed
qed

lemma demoting_slot:
  assumes "demoting f" "slot_ok H t w ops key slot"
  shows "slot_ok H t w ops key (f slot)"
proof -
  have c: "entry_content (re_entry (f slot)) = entry_content (re_entry slot)"
    and k: "slot_state (f slot) = MemPromoted \<Longrightarrow> f slot = slot"
    using assms(1) unfolding demoting_def by blast+
  show ?thesis
    using assms(2) k content_id_key [OF c] proposed_content [OF c] unfolding slot_ok_def by metis
qed

lemma state_demotes: "demoting (\<lambda>slot. if slot_id slot = i then set_slot_state st slot else slot)" if "st \<in> {MemStale, MemRevoked}"
  using that by (auto simp: demoting_def set_slot_state_def)

text \<open>A promotion is a change of slots too: the candidate becomes the only promoted revision.\<close>

definition promoting :: "string \<Rightarrow> u64 \<Rightarrow> string list \<Rightarrow> revision_entry \<Rightarrow> revision_entry" where
  "promoting i now conflicts slot =
     (if slot_id slot = i then (promote_slot now slot)\<lparr>re_conflicted_with := conflicts\<rparr> else supersede i now slot)"

lemma promoting_content [simp]: "entry_content (re_entry (promoting i now conflicts slot)) = entry_content (re_entry slot)"
  by (simp add: promoting_def promote_slot_def supersede_def set_slot_state_def Let_def)

lemma promoting_id [simp]: "slot_id (promoting i now conflicts slot) = slot_id slot"
  by (simp add: promoting_def promote_slot_def supersede_def set_slot_state_def Let_def)

lemma promoted_revisions_map:
  assumes "distinct (map slot_id revisions)"
  obtains conflicts where "promoted_revisions i now revisions = map (promoting i now conflicts) revisions"
proof -
  let ?mark = "\<lambda>slot. if slot_id slot = i then promote_slot now slot else slot"
  have ids: "slot_id (?mark slot) = slot_id slot" "slot_id (supersede i now slot) = slot_id slot" for slot
    by (simp_all add: promote_slot_def supersede_def set_slot_state_def Let_def)
  let ?marked = "map ?mark revisions"
  let ?conflicts = "map slot_id (filter (superseded_by i) ?marked)"
  have "map slot_id (map (supersede i now) ?marked) = map slot_id revisions"
    by (simp only: map_map comp_def ids)
  with assms have "distinct (map slot_id (map (supersede i now) ?marked))" by (simp only:)
  then have "promoted_revisions i now revisions
      = map (\<lambda>slot. if slot_id slot = i then slot\<lparr>re_conflicted_with := ?conflicts\<rparr> else slot) (map (supersede i now) ?marked)"
    by (simp add: promoted_revisions_def Let_def update_first_unique [OF assms] update_first_unique)
  also have "\<dots> = map (promoting i now ?conflicts) revisions"
    by (simp add: promoting_def promote_slot_def supersede_def superseded_by_def set_slot_state_def Let_def)
  finally show thesis by (rule that)
qed

lemma promoting_promoted:
  assumes "slot_sound slot" "slot_state (promoting i now conflicts slot) = MemPromoted"
  shows "slot_id slot = i"
  using assms by (simp add: promoting_def supersede_def superseded_by_def set_slot_state_def slot_sound_def split: if_splits)

lemma promoting_sound:
  assumes "slot_sound slot" "slot_id slot = i \<Longrightarrow> slot_state slot = MemCandidate"
  shows "slot_sound (promoting i now conflicts slot)"
  using assms
  by (simp add: promoting_def promote_slot_def supersede_def superseded_by_def set_slot_state_def slot_sound_def Let_def
      split: if_splits)

lemma history_sound: "history_ok revisions \<Longrightarrow> slot \<in> set revisions \<Longrightarrow> slot_sound slot"
  unfolding history_ok_def tidy_def by blast

lemma promoting_history:
  assumes h: "history_ok revisions" and c: "\<And>slot. slot \<in> set revisions \<Longrightarrow> slot_id slot = i \<Longrightarrow> slot_state slot = MemCandidate"
  shows "history_ok (map (promoting i now conflicts) revisions)"
  unfolding history_ok_def
proof (rule tidy_map [OF h [unfolded history_ok_def]])
  show "slot_sound (promoting i now conflicts x)" if "x \<in> set revisions" for x
    using promoting_sound [OF history_sound [OF h that]] c [OF that] by blast
  show "slot_id x = slot_id y"
    if "x \<in> set revisions" "y \<in> set revisions" "slot_state (promoting i now conflicts x) = MemPromoted"
      "slot_state (promoting i now conflicts y) = MemPromoted" for x y
    using promoting_promoted [OF history_sound [OF h that(1)] that(3)] promoting_promoted [OF history_sound [OF h that(2)] that(4)]
    by simp
qed (rule promoting_id)

lemma promoting_slot:
  assumes "history_ok revisions" "slot \<in> set revisions" "slot_ok H t w ops key slot"
  shows "slot_ok H t w (ops @ [OpPromote i authority now]) key (promoting i now conflicts slot)"
proof -
  let ?slot = "promoting i now conflicts slot"
  have old: "proposed_in H t w ops (re_entry ?slot)" "me_key (re_entry ?slot) = key"
    using assms(3) proposed_content [of "re_entry ?slot" "re_entry slot"] content_id_key [of "re_entry ?slot" "re_entry slot"]
    by (simp_all add: slot_ok_def)
  have "reviewed_in H t w (ops @ [OpPromote i authority now]) (re_entry ?slot)" if "slot_state ?slot = MemPromoted"
  proof -
    from promoting_promoted [OF history_sound [OF assms(1,2)] that] have i: "slot_id slot = i" .
    then have "me_entry_id (re_entry ?slot) = i" "mf_promoted_at_ms (me_freshness (re_entry ?slot)) = now"
      by (simp_all add: promoting_def promote_slot_def Let_def)
    with old(1) show ?thesis unfolding reviewed_in_def by fastforce
  qed
  with old show ?thesis by (simp add: slot_ok_def proposed_mono)
qed

section \<open>The invariant\<close>

lemma records_put:
  assumes "records_ok H t w ops self" "history_ok revisions" "\<forall>slot \<in> set revisions. slot_ok H t w (ops @ [op]) key slot"
    "\<forall>i. op \<noteq> OpRevoke i" "ma_tenant self' = t" "ma_workspace self' = w"
    "ma_records self' = bt_insert key revisions (ma_records self)"
  shows "records_ok H t w (ops @ [op]) self'"
  unfolding records_ok_def
proof (intro conjI ballI)
  show "bt_inv (ma_records self')" using assms(1,7) by (simp add: records_ok_def bt_inv_insert)
  fix kr assume "kr \<in> set (ma_records self')"
  then have "kr = (key, revisions) \<or> kr \<in> set (ma_records self)" using assms(7) by (auto dest: mem_bt_insert)
  then show "case kr of (key, revisions) \<Rightarrow> history_ok revisions \<and> (\<forall>slot \<in> set revisions. slot_ok H t w (ops @ [op]) key slot)"
    using assms(1-4) by (auto simp: records_ok_def intro!: slot_ok_mono)
qed (use assms in simp_all)

lemma records_keep:
  assumes "records_ok H t w ops self" "\<forall>i. op \<noteq> OpRevoke i" "ma_tenant self' = ma_tenant self"
    "ma_workspace self' = ma_workspace self" "ma_records self' = ma_records self"
  shows "records_ok H t w (ops @ [op]) self'"
  using assms by (auto simp: records_ok_def intro!: slot_ok_mono)

lemma history_of:
  assumes "records_ok H t w ops self"
  shows "history_ok (memory_history self key)" "\<forall>slot \<in> set (memory_history self key). slot_ok H t w ops key slot"
proof -
  have "history_ok []" by (simp add: history_ok_def tidy_def)
  moreover have "history_ok revs" "\<forall>slot \<in> set revs. slot_ok H t w ops key slot" if "bt_get (ma_records self) key = Some revs" for revs
  proof -
    have "(key, revs) \<in> set (ma_records self)" using that by (simp add: bt_get_def map_of_SomeD)
    with assms show "history_ok revs" "\<forall>slot \<in> set revs. slot_ok H t w ops key slot"
      unfolding records_ok_def by blast+
  qed
  ultimately show "history_ok (memory_history self key)" "\<forall>slot \<in> set (memory_history self key). slot_ok H t w ops key slot"
    by (cases "bt_get (ma_records self) key"; simp add: memory_history_def)+
qed

lemma memory_emit_fields [simp]:
  "ma_tenant (memory_emit n i self) = ma_tenant self" "ma_workspace (memory_emit n i self) = ma_workspace self"
  "ma_records (memory_emit n i self) = ma_records self"
  by (simp_all add: memory_emit_def)

lemma candidate_id: "me_entry_id (candidate_entry H t w p n) = entry_id_for H (pp_key p) (pp_value p) (mp_origin (pp_provenance p))"
  by (simp add: candidate_entry_def)

lemma propose_ok:
  assumes "records_ok H t w ops self"
  shows "records_ok H t w (ops @ [OpPropose p]) (snd (memory_propose H self p))"
proof (cases "fst (memory_propose H self p)")
  case (Inl e)
  then show ?thesis
    by (intro records_keep [OF assms]) (auto simp: memory_propose_def Let_def split: if_splits)
next
  case (Inr i)
  let ?revs = "memory_history self (pp_key p)"
  let ?entry = "candidate_entry H t w p (next_revision (length ?revs))"
  let ?slot = "\<lparr>re_entry = ?entry, re_superseded_at_ms = None, re_conflicted_with = []\<rparr>"
  from assms have scope: "ma_tenant self = t" "ma_workspace self = w" by (simp_all add: records_ok_def)
  have hist: "memory_history (self\<lparr>ma_write_sequence := n\<rparr>) k = memory_history self k" for n k
    by (simp add: memory_history_def)
  from Inr have new: "\<not> list_ex (\<lambda>slot. slot_id slot = me_entry_id ?entry) ?revs" "pp_tenant p = t" "pp_workspace p = w"
    and rec: "ma_records (snd (memory_propose H self p)) = bt_insert (pp_key p) (?revs @ [?slot]) (ma_records self)"
    "ma_tenant (snd (memory_propose H self p)) = t" "ma_workspace (snd (memory_propose H self p)) = w"
    by (simp_all add: memory_propose_def Let_def hist scope candidate_id split: if_splits)
  have "slot_ok H t w (ops @ [OpPropose p]) (pp_key p) ?slot"
    using new(2,3) by (auto simp: slot_ok_def proposed_in_def candidate_entry_def entry_content_def)
  moreover have "history_ok (?revs @ [?slot])"
    using history_of(1) [OF assms, of "pp_key p"] new(1) unfolding history_ok_def
    by (intro tidy_snoc) (auto simp: slot_sound_def list_ex_iff candidate_entry_def)
  ultimately show ?thesis
    using history_of(2) [OF assms, of "pp_key p"] rec
    by (intro records_put [OF assms]) (auto intro: slot_ok_mono)
qed

lemma find_key_first:
  "find (\<lambda>(key, revisions). P revisions) m = Some (key, revisions) \<Longrightarrow> (key, revisions) \<in> set m \<and> P revisions"
  by (induction m) (auto split: if_splits prod.splits)

lemma promote_ok:
  assumes "records_ok H t w ops self"
  shows "records_ok H t w (ops @ [OpPromote i authority now]) (snd (memory_promote self i authority now))"
proof (cases "fst (memory_promote self i authority now)")
  case (Inl e)
  then show ?thesis
    by (intro records_keep [OF assms]) (auto simp: memory_promote_def Let_def split: if_splits option.splits)
next
  case (Inr u)
  then obtain key revisions slot where
    key: "find (\<lambda>(key, revisions). list_ex (\<lambda>slot. slot_id slot = i) revisions) (ma_records self) = Some (key, revisions)"
    and slot: "find (\<lambda>slot. slot_id slot = i) revisions = Some slot" "slot_state slot = MemCandidate"
    and rec: "ma_records (snd (memory_promote self i authority now))
      = bt_insert key (promoted_revisions i now revisions) (ma_records self)"
    "ma_tenant (snd (memory_promote self i authority now)) = ma_tenant self"
    "ma_workspace (snd (memory_promote self i authority now)) = ma_workspace self"
    by (auto simp: memory_promote_def Let_def split: if_splits option.splits prod.splits)
  from find_key_first [OF key] have m: "(key, revisions) \<in> set (ma_records self)" by blast
  with assms have h: "history_ok revisions" and ok: "\<forall>slot \<in> set revisions. slot_ok H t w ops key slot"
    unfolding records_ok_def by blast+
  have d: "distinct (map slot_id revisions)" using h by (simp add: history_ok_def tidy_def)
  obtain conflicts where c: "promoted_revisions i now revisions = map (promoting i now conflicts) revisions"
    by (rule promoted_revisions_map [OF d])
  have sl: "slot \<in> set revisions" "slot_id slot = i" using slot(1) by (auto simp: find_Some_iff)
  have "slot_state x = MemCandidate" if "x \<in> set revisions" "slot_id x = i" for x
    using tidy_single [OF h [unfolded history_ok_def] that(1) sl(1)] that(2) sl(2) slot(2) by simp
  then have "history_ok (map (promoting i now conflicts) revisions)" by (rule promoting_history [OF h])
  moreover have "\<forall>x \<in> set (map (promoting i now conflicts) revisions). slot_ok H t w (ops @ [OpPromote i authority now]) key x"
    using promoting_slot [OF h] ok by auto
  moreover have "ma_tenant self = t" "ma_workspace self = w" using assms by (simp_all add: records_ok_def)
  ultimately show ?thesis
    using rec c by (intro records_put [OF assms]) simp_all
qed

lemma revoke_ok:
  assumes "records_ok H t w ops self"
  shows "records_ok H t w (ops @ [OpRevoke i]) (memory_revoke self i)"
proof -
  define f where "f = (\<lambda>slot. if slot_id slot = i then set_slot_state MemRevoked slot else slot)"
  have f: "demoting f" unfolding f_def by (rule state_demotes) simp
  have recs: "ma_records (memory_revoke self i) = map (\<lambda>(key, revisions). (key, map f revisions)) (ma_records self)"
    "ma_tenant (memory_revoke self i) = t" "ma_workspace (memory_revoke self i) = w"
    using assms by (simp_all add: memory_revoke_def records_ok_def f_def)
  have slot: "slot_ok H t w (ops @ [OpRevoke i]) key (f slot)" if "slot_ok H t w ops key slot" for key slot
  proof (cases "slot_id slot = i")
    case True
    then have "slot_state (f slot) \<noteq> MemPromoted" by (simp add: f_def set_slot_state_def)
    with demoting_slot [OF f that] show ?thesis by (simp add: slot_ok_def proposed_mono)
  next
    case False
    then show ?thesis using slot_ok_mono [OF that, of "OpRevoke i"] by (simp add: f_def)
  qed
  show ?thesis
    unfolding records_ok_def recs
  proof (intro conjI ballI refl)
    show "bt_inv (map (\<lambda>(key, revisions). (key, map f revisions)) (ma_records self))"
      using assms by (simp add: records_ok_def bt_inv_def comp_def case_prod_beta)
    fix kr assume "kr \<in> set (map (\<lambda>(key, revisions). (key, map f revisions)) (ma_records self))"
    then obtain key revisions where kr: "kr = (key, map f revisions)" "(key, revisions) \<in> set (ma_records self)" by auto
    with assms have "history_ok revisions" "\<forall>slot \<in> set revisions. slot_ok H t w ops key slot"
      unfolding records_ok_def by blast+
    then show "case kr of (key, revisions) \<Rightarrow> history_ok revisions \<and> (\<forall>slot \<in> set revisions. slot_ok H t w (ops @ [OpRevoke i]) key slot)"
      using kr(1) demoting_history [OF f] slot by simp
  qed
qed

lemma stale_slot_ok:
  assumes "records_ok H t w ops self"
  shows "records_ok H t w ops (stale_slot key i self)"
proof (cases "bt_get (ma_records self) key")
  case None
  with assms show ?thesis by (simp add: stale_slot_def)
next
  case (Some revisions)
  then have m: "(key, revisions) \<in> set (ma_records self)" by (simp add: bt_get_def map_of_SomeD)
  with assms have h: "history_ok revisions" and ok: "\<forall>slot \<in> set revisions. slot_ok H t w ops key slot"
    unfolding records_ok_def by blast+
  define f where "f = (\<lambda>slot. if slot_id slot = i then set_slot_state MemStale slot else slot)"
  have f: "demoting f" unfolding f_def by (rule state_demotes) simp
  have u: "update_first (\<lambda>slot. slot_id slot = i) (set_slot_state MemStale) revisions = map f revisions"
    unfolding f_def by (rule update_first_unique) (use h in \<open>simp add: history_ok_def tidy_def\<close>)
  show ?thesis
  proof (cases "list_ex (\<lambda>slot. slot_id slot = i) revisions")
    case False
    with assms Some show ?thesis by (simp add: stale_slot_def)
  next
    case True
    have "ma_records (stale_slot key i self) = bt_insert key (map f revisions) (ma_records self)"
      "ma_tenant (stale_slot key i self) = ma_tenant self" "ma_workspace (stale_slot key i self) = ma_workspace self"
      using Some True by (simp_all add: stale_slot_def u)
    moreover have "history_ok (map f revisions)" "\<forall>slot \<in> set (map f revisions). slot_ok H t w ops key slot"
      using demoting_history [OF f h] demoting_slot [OF f] ok by auto
    ultimately show ?thesis
      using assms unfolding records_ok_def by (auto simp: bt_inv_insert dest!: mem_bt_insert)
  qed
qed

lemma query_ok:
  assumes "records_ok H t w ops self"
  shows "records_ok H t w (ops @ [OpQuery q]) (snd (memory_query_views self q))"
proof -
  have "records_ok H t w ops (fold (\<lambda>(key, entry_id). stale_slot key entry_id) es self)" for es
    using assms by (induction es arbitrary: self) (auto intro: stale_slot_ok)
  then show ?thesis by (rule records_keep) (simp_all add: memory_query_views_def)
qed

lemma memory_after_snoc: "memory_after H t w (ops @ [op]) = memory_step H op (memory_after H t w ops)"
  by (simp add: memory_after_def)

lemma memory_after_ok: "records_ok H t w ops (memory_after H t w ops)"
proof (induction ops rule: rev_induct)
  case Nil
  show ?case by (simp add: memory_after_def memory_authority_new_def records_ok_def bt_inv_def)
next
  case (snoc op ops)
  show ?case
  proof (cases op)
    case (OpPropose p)
    with propose_ok [OF snoc] show ?thesis by (simp add: memory_after_snoc)
  next
    case (OpPromote i a now)
    with promote_ok [OF snoc] show ?thesis by (simp add: memory_after_snoc)
  next
    case (OpRevoke i)
    with revoke_ok [OF snoc] show ?thesis by (simp add: memory_after_snoc)
  next
    case (OpQuery q)
    with query_ok [OF snoc] show ?thesis by (simp add: memory_after_snoc)
  next
    case OpTakeEvents
    then show ?thesis
      unfolding memory_after_snoc by (intro records_keep [OF snoc]) (simp_all add: memory_take_events_def)
  qed
qed

text \<open>What a query returns comes from the promoted slots of the records.\<close>

lemma memory_views_mem:
  assumes "e \<in> set (memory_views self q)"
  obtains key revisions slot where "(key, revisions) \<in> set (ma_records self)" "slot \<in> set revisions" "e = re_entry slot"
    "slot_candidate q slot" "\<not> slot_expired q slot" "\<And>wanted. mq_key q = Some wanted \<Longrightarrow> key = wanted"
  using assms by (auto simp: memory_views_def queried_records_def split: option.splits)

lemma records_unique: "bt_inv m \<Longrightarrow> (k, v) \<in> set m \<Longrightarrow> (k, v') \<in> set m \<Longrightarrow> v = v'"
  by (auto simp: bt_inv_def strict_sorted_iff intro: eq_key_imp_eq_value)

lemma one_truth_per_key:
  assumes "records_ok H t w ops self" "e \<in> set (memory_views self q)" "e' \<in> set (memory_views self q)" "me_key e' = me_key e"
  shows "e' = e"
proof -
  obtain k r x where x: "(k, r) \<in> set (ma_records self)" "x \<in> set r" "e = re_entry x" "slot_candidate q x"
    by (rule memory_views_mem [OF assms(2)])
  obtain k' r' y where y: "(k', r') \<in> set (ma_records self)" "y \<in> set r'" "e' = re_entry y" "slot_candidate q y"
    by (rule memory_views_mem [OF assms(3)])
  have ok: "history_ok r" "slot_ok H t w ops k x" "slot_ok H t w ops k' y" "bt_inv (ma_records self)"
    using assms(1) x(1,2) y(1,2) unfolding records_ok_def by blast+
  then have "k' = k" using assms(4) x(3) y(3) by (simp add: slot_ok_def)
  with records_unique [OF ok(4) x(1)] y(1) have r: "r' = r" by blast
  have "slot_id y = slot_id x"
    using ok(1) x(2,4) y(2,4) r unfolding history_ok_def tidy_def slot_candidate_def by blast
  then have "y = x" using tidy_single [OF ok(1) [unfolded history_ok_def]] x(2) y(2) r by blast
  with x(3) y(3) show ?thesis by simp
qed

section \<open>Only reviewed memory is served\<close>

text \<open>
  C6: after any sequence of operations, an entry a query returns was proposed for this tenant and
  workspace with these very key, value, kind, provenance, classification and expiry, under the identifier
  that the proposal's key, value and origin hash to; it was then promoted under this identifier by a review
  at the time it carries, and not revoked since; it is within the ceiling of the asker, the expiry of its
  proposal has not passed, and it is the only entry returned for its key.
\<close>

theorem only_reviewed_memory_is_served:
  assumes "e \<in> set (fst (memory_query_views (memory_after H t w ops) q))"
  shows "(\<exists>earlier p authority later.
      ops = earlier @ OpPromote (me_entry_id e) authority (mf_promoted_at_ms (me_freshness e)) # later
      \<and> OpPropose p \<in> set earlier \<and> OpRevoke (me_entry_id e) \<notin> set later
      \<and> pp_tenant p = t \<and> pp_workspace p = w \<and> me_tenant e = t \<and> me_workspace e = w
      \<and> me_key e = pp_key p \<and> me_value e = pp_value p \<and> me_kind e = pp_kind p
      \<and> me_sensitivity e = pp_sensitivity p \<and> me_provenance e = pp_provenance p
      \<and> mf_expires_at_ms (me_freshness e) = pp_expires_at_ms p
      \<and> me_entry_id e = entry_id_for H (pp_key p) (pp_value p) (mp_origin (pp_provenance p)))
    \<and> me_sensitivity e \<le> mq_sensitivity_ceiling q
    \<and> (\<forall>expires. mf_expires_at_ms (me_freshness e) = Some expires \<longrightarrow> mq_now_ms q < expires)
    \<and> (\<forall>e' \<in> set (fst (memory_query_views (memory_after H t w ops) q)). me_key e' = me_key e \<longrightarrow> e' = e)"
proof -
  let ?self = "memory_after H t w ops"
  have m: "e \<in> set (memory_views ?self q)" using assms by (simp add: memory_query_views_def)
  obtain k r x where x: "(k, r) \<in> set (ma_records ?self)" "x \<in> set r" "e = re_entry x" "slot_candidate q x" "\<not> slot_expired q x"
    by (rule memory_views_mem [OF m])
  have "slot_ok H t w ops k x" using memory_after_ok [of H t w ops] x(1,2) unfolding records_ok_def by blast
  with x(3,4) have "reviewed_in H t w ops e" by (simp add: slot_ok_def slot_candidate_def)
  then obtain earlier authority later where r:
    "ops = earlier @ OpPromote (me_entry_id e) authority (mf_promoted_at_ms (me_freshness e)) # later"
    "proposed_in H t w earlier e" "OpRevoke (me_entry_id e) \<notin> set later"
    unfolding reviewed_in_def by blast
  from r(2) obtain p n where p: "OpPropose p \<in> set earlier" "pp_tenant p = t" "pp_workspace p = w"
    "entry_content e = candidate_entry H t w p n"
    unfolding proposed_in_def by blast
  show ?thesis
  proof (intro conjI)
    from r(1,3) p(1-3) content_of_candidate [OF p(4)] show "\<exists>earlier p authority later.
      ops = earlier @ OpPromote (me_entry_id e) authority (mf_promoted_at_ms (me_freshness e)) # later
      \<and> OpPropose p \<in> set earlier \<and> OpRevoke (me_entry_id e) \<notin> set later
      \<and> pp_tenant p = t \<and> pp_workspace p = w \<and> me_tenant e = t \<and> me_workspace e = w
      \<and> me_key e = pp_key p \<and> me_value e = pp_value p \<and> me_kind e = pp_kind p
      \<and> me_sensitivity e = pp_sensitivity p \<and> me_provenance e = pp_provenance p
      \<and> mf_expires_at_ms (me_freshness e) = pp_expires_at_ms p
      \<and> me_entry_id e = entry_id_for H (pp_key p) (pp_value p) (mp_origin (pp_provenance p))"
    by blast
    show "me_sensitivity e \<le> mq_sensitivity_ceiling q"
      using x(3,4) by (simp add: slot_candidate_def not_less)
    show "\<forall>expires. mf_expires_at_ms (me_freshness e) = Some expires \<longrightarrow> mq_now_ms q < expires"
      using x(3,5) by (auto simp: slot_expired_def not_le)
    show "\<forall>e' \<in> set (fst (memory_query_views ?self q)). me_key e' = me_key e \<longrightarrow> e' = e"
      using one_truth_per_key [OF memory_after_ok m] by (simp add: memory_query_views_def)
  qed
qed

definition last_byte :: "string \<Rightarrow> string" where "last_byte x = [last x]"

definition sample_proposal :: "string \<Rightarrow> memory_proposal" where
  "sample_proposal val = \<lparr>pp_key = ''k'', pp_kind = MemFact, pp_value = val, pp_tenant = ''t'', pp_workspace = ''w'',
     pp_sensitivity = Internal, pp_provenance = \<lparr>mp_origin = val, mp_trust = Untrusted, mp_proposed_at_ms = 1\<rparr>,
     pp_expires_at_ms = Some 9\<rparr>"

definition sample_entry_id :: "string \<Rightarrow> string" where
  "sample_entry_id val = entry_id_for last_byte ''k'' val val"

definition sample_review :: review_authority where "sample_review = HumanReview ''r''"

definition sample_memory_ops :: "memory_op list" where
  "sample_memory_ops = [OpPropose (sample_proposal ''a''), OpPropose (sample_proposal ''b''),
     OpPromote (sample_entry_id ''a'') sample_review 2, OpPromote (sample_entry_id ''b'') sample_review 3]"

definition sample_memory_query :: memory_query where
  "sample_memory_query = \<lparr>mq_sensitivity_ceiling = Confidential, mq_now_ms = 4, mq_key = None\<rparr>"

definition sample_view :: memory_entry where
  "sample_view = (candidate_entry last_byte ''t'' ''w'' (sample_proposal ''b'') 2)
     \<lparr>me_state := MemPromoted, me_freshness := \<lparr>mf_promoted_at_ms = 3, mf_expires_at_ms = Some 9\<rparr>\<rparr>"

lemma sample_memory_views:
  "fst (memory_query_views (memory_after last_byte ''t'' ''w'' sample_memory_ops) sample_memory_query) = [sample_view]"
  by code_simp

theorem only_reviewed_memory_is_served_witness:
  "me_sensitivity sample_view \<le> mq_sensitivity_ceiling sample_memory_query \<and> me_value sample_view = ''b''"
proof -
  have "sample_view \<in> set (fst (memory_query_views (memory_after last_byte ''t'' ''w'' sample_memory_ops) sample_memory_query))"
    by (simp add: sample_memory_views)
  then have "me_sensitivity sample_view \<le> mq_sensitivity_ceiling sample_memory_query"
    by (rule only_reviewed_memory_is_served [THEN conjunct2, THEN conjunct1])
  then show ?thesis by (simp add: sample_view_def candidate_entry_def sample_proposal_def)
qed

section \<open>What the authority does not do\<close>

text \<open>The reviewer is not recorded: the state and the event are the same whoever promotes.\<close>

lemma reviewer_is_not_recorded: "memory_promote self i authority now = memory_promote self i authority' now"
  by (simp add: memory_promote_def)

text \<open>A value once revoked or stale cannot be proposed again: it counts as a pending duplicate.\<close>

lemma revoked_value_is_duplicate:
  "fst (memory_propose last_byte
     (memory_after last_byte ''t'' ''w'' [OpPropose (sample_proposal ''a''), OpRevoke (sample_entry_id ''a'')]) (sample_proposal ''a''))
   = Err DuplicateCandidate"
  by code_simp

text \<open>Promoting again is an error, not a no-op.\<close>

lemma promoting_again_fails:
  "fst (memory_promote (memory_after last_byte ''t'' ''w'' sample_memory_ops) (sample_entry_id ''b'') sample_review 5) = Err NotCandidate"
  by code_simp

text \<open>Promoting an expired candidate takes the valid truth of its key away.\<close>

lemma expired_promotion_hides_truth:
  "fst (memory_query_views (memory_after last_byte ''t'' ''w''
     [OpPropose ((sample_proposal ''a'')\<lparr>pp_expires_at_ms := None\<rparr>), OpPropose ((sample_proposal ''b'')\<lparr>pp_expires_at_ms := Some 1\<rparr>),
      OpPromote (sample_entry_id ''a'') sample_review 2, OpPromote (sample_entry_id ''b'') sample_review 3]) sample_memory_query) = []"
  by code_simp

end
