(* ===== verification/Evolution.thy ===== *)
theory Evolution
  imports MemoryAuthority
begin

text \<open>
  The evolution workshop (\<open>crates/evolution/src/candidate.rs\<close> and \<open>workshop.rs\<close>): candidates pass
  proposal, quarantine, evaluation and an explicit review before they are active, each transition
  guarded by a check of the payload against its digest.
\<close>

section \<open>Candidates\<close>

datatype evolution_kind = EkSkill | EkMemory | EkRule | EkWorkflow | EkCode

fun kind_label :: "evolution_kind \<Rightarrow> string" where
  "kind_label EkSkill = ''skill''"
| "kind_label EkMemory = ''memory''"
| "kind_label EkRule = ''rule''"
| "kind_label EkWorkflow = ''workflow''"
| "kind_label EkCode = ''code''"

datatype candidate_state =
    CsProposed | CsQuarantined | CsEvaluated bool | CsPromoted | CsRejected string | CsRevoked

record candidate_provenance =
  cv_source_event_id :: string
  cv_origin :: string
  cv_trust :: trust_level

record evolution_candidate =
  ec_candidate_id :: string
  ec_kind :: evolution_kind
  ec_payload :: string
  ec_payload_digest :: string
  ec_provenance :: candidate_provenance
  ec_state :: candidate_state

datatype workshop_error = IllegalTransition | TamperedPayload | EvaluationFailed | UnknownOrTerminal | WsMalformed

fun workshop_error_str :: "workshop_error \<Rightarrow> string" where
  "workshop_error_str IllegalTransition = ''illegal_transition''"
| "workshop_error_str TamperedPayload = ''tampered_payload''"
| "workshop_error_str EvaluationFailed = ''evaluation_failed''"
| "workshop_error_str UnknownOrTerminal = ''unknown_or_terminal''"
| "workshop_error_str WsMalformed = ''malformed''"

record evaluation_record =
  vr_candidate_id :: string
  vr_inputs_digest :: string
  vr_outputs_digest :: string
  vr_passed :: bool
  vr_evaluated_at_ms :: u64

record promotion_record =
  pm_candidate_id :: string
  pm_payload_digest :: string
  pm_authority :: review_authority
  pm_provenance :: candidate_provenance
  pm_promoted_at_ms :: u64
  pm_promotion_digest :: string

definition payload_digest_of :: "(string \<Rightarrow> string) \<Rightarrow> string \<Rightarrow> string" where
  "payload_digest_of H payload = sha256_label H [''saber-evolution-payload-v1'' @ [CHR 0x00], payload]"

definition candidate_id_of :: "(string \<Rightarrow> string) \<Rightarrow> evolution_kind \<Rightarrow> string \<Rightarrow> string" where
  "candidate_id_of H kind payload_digest =
     sha256_label H [''saber-evolution-id-v1'' @ [CHR 0x00], kind_label kind, payload_digest]"

fun authority_label :: "review_authority \<Rightarrow> string" where
  "authority_label (HumanReview reviewer_id) = ''human:'' @ reviewer_id"
| "authority_label (ExplicitPolicy rule_id) = ''policy:'' @ rule_id"

fun trust_debug :: "trust_level \<Rightarrow> string" where
  "trust_debug Trusted = ''Trusted''"
| "trust_debug Imported = ''Imported''"
| "trust_debug Untrusted = ''Untrusted''"

definition promotion_digest_of :: "(string \<Rightarrow> string) \<Rightarrow> promotion_record \<Rightarrow> string" where
  "promotion_digest_of H r = sha256_label H
     [''saber-evolution-promotion-v1'' @ [CHR 0x00], pm_candidate_id r, pm_payload_digest r, authority_label (pm_authority r),
      cv_source_event_id (pm_provenance r), cv_origin (pm_provenance r), trust_debug (cv_trust (pm_provenance r)),
      le_bytes 8 (unat (pm_promoted_at_ms r))]"

section \<open>The workshop\<close>

record workshop =
  ew_candidates :: "(string, evolution_candidate) btree"
  ew_evaluations :: "(string, evaluation_record) btree"
  ew_promotions :: "(string, promotion_record) btree"
  ew_revoked :: "string list"

definition workshop_new :: workshop where
  "workshop_new = \<lparr>ew_candidates = [], ew_evaluations = [], ew_promotions = [], ew_revoked = []\<rparr>"

definition ws_propose ::
  "(string \<Rightarrow> string) \<Rightarrow> workshop \<Rightarrow> evolution_kind \<Rightarrow> string \<Rightarrow> candidate_provenance \<Rightarrow> (workshop_error + string) \<times> workshop" where
  "ws_propose H self kind payload provenance =
     (if payload = [] \<or> cv_source_event_id provenance = [] \<or> cv_origin provenance = [] then (Err WsMalformed, self)
      else
        (let payload_digest = payload_digest_of H payload;
             candidate_id = candidate_id_of H kind payload_digest
         in (Ok candidate_id,
             self\<lparr>ew_candidates := bt_insert candidate_id
               \<lparr>ec_candidate_id = candidate_id, ec_kind = kind, ec_payload = payload, ec_payload_digest = payload_digest,
                ec_provenance = provenance, ec_state = CsProposed\<rparr> (ew_candidates self)\<rparr>)))"

text \<open>\<open>guard\<close>, with the candidate it found.\<close>

definition ws_guard :: "(string \<Rightarrow> string) \<Rightarrow> workshop \<Rightarrow> string \<Rightarrow> workshop_error + evolution_candidate" where
  "ws_guard H self candidate_id =
     (case bt_get (ew_candidates self) candidate_id of
        None \<Rightarrow> Err UnknownOrTerminal
      | Some candidate \<Rightarrow>
          if ec_state candidate \<noteq> CsProposed \<and> payload_digest_of H (ec_payload candidate) \<noteq> ec_payload_digest candidate
          then Err TamperedPayload else Ok candidate)"

definition ws_set_state :: "workshop \<Rightarrow> string \<Rightarrow> candidate_state \<Rightarrow> workshop" where
  "ws_set_state self candidate_id st =
     (case bt_get (ew_candidates self) candidate_id of
        None \<Rightarrow> self
      | Some candidate \<Rightarrow> self\<lparr>ew_candidates := bt_insert candidate_id (candidate\<lparr>ec_state := st\<rparr>) (ew_candidates self)\<rparr>)"

definition ws_quarantine :: "(string \<Rightarrow> string) \<Rightarrow> workshop \<Rightarrow> string \<Rightarrow> (workshop_error + unit) \<times> workshop" where
  "ws_quarantine H self candidate_id =
     (case ws_guard H self candidate_id of
        Err e \<Rightarrow> (Err e, self)
      | Ok candidate \<Rightarrow>
          if ec_state candidate \<noteq> CsProposed then (Err IllegalTransition, self)
          else (Ok (), ws_set_state self candidate_id CsQuarantined))"

definition ws_evaluate :: "(string \<Rightarrow> string) \<Rightarrow> workshop \<Rightarrow> evaluation_record \<Rightarrow> (workshop_error + unit) \<times> workshop" where
  "ws_evaluate H self r =
     (case ws_guard H self (vr_candidate_id r) of
        Err e \<Rightarrow> (Err e, self)
      | Ok candidate \<Rightarrow>
          if ec_state candidate \<noteq> CsQuarantined then (Err IllegalTransition, self)
          else (Ok (), ws_set_state (self\<lparr>ew_evaluations := bt_insert (vr_candidate_id r) r (ew_evaluations self)\<rparr>)
                         (vr_candidate_id r) (CsEvaluated (vr_passed r))))"

definition promotion_of :: "(string \<Rightarrow> string) \<Rightarrow> evolution_candidate \<Rightarrow> review_authority \<Rightarrow> u64 \<Rightarrow> promotion_record" where
  "promotion_of H candidate authority now =
     (let r = \<lparr>pm_candidate_id = ec_candidate_id candidate, pm_payload_digest = ec_payload_digest candidate,
               pm_authority = authority, pm_provenance = ec_provenance candidate, pm_promoted_at_ms = now,
               pm_promotion_digest = []\<rparr>
      in r\<lparr>pm_promotion_digest := promotion_digest_of H r\<rparr>)"

definition ws_promote ::
  "(string \<Rightarrow> string) \<Rightarrow> workshop \<Rightarrow> string \<Rightarrow> review_authority \<Rightarrow> u64 \<Rightarrow> (workshop_error + promotion_record) \<times> workshop" where
  "ws_promote H self candidate_id authority now =
     (case ws_guard H self candidate_id of
        Err e \<Rightarrow> (Err e, self)
      | Ok candidate \<Rightarrow>
          (case ec_state candidate of
             CsEvaluated passed \<Rightarrow>
               if \<not> passed then (Err EvaluationFailed, self)
               else
                 (let r = promotion_of H candidate authority now;
                      self = ws_set_state self candidate_id CsPromoted
                  in (Ok r, self\<lparr>ew_promotions := bt_insert (pm_candidate_id r) r (ew_promotions self)\<rparr>))
           | _ \<Rightarrow> (Err IllegalTransition, self)))"

definition ws_reject :: "(string \<Rightarrow> string) \<Rightarrow> workshop \<Rightarrow> string \<Rightarrow> string \<Rightarrow> (workshop_error + unit) \<times> workshop" where
  "ws_reject H self candidate_id reason =
     (case ws_guard H self candidate_id of
        Err e \<Rightarrow> (Err e, self)
      | Ok candidate \<Rightarrow>
          (case ec_state candidate of
             CsRejected _ \<Rightarrow> (Err IllegalTransition, self)
           | CsRevoked \<Rightarrow> (Err IllegalTransition, self)
           | _ \<Rightarrow> (Ok (), ws_set_state self candidate_id (CsRejected reason))))"

definition ws_revoke :: "(string \<Rightarrow> string) \<Rightarrow> workshop \<Rightarrow> string \<Rightarrow> (workshop_error + unit) \<times> workshop" where
  "ws_revoke H self candidate_id =
     (case ws_guard H self candidate_id of
        Err e \<Rightarrow> (Err e, self)
      | Ok candidate \<Rightarrow>
          if ec_state candidate \<noteq> CsPromoted then (Err IllegalTransition, self)
          else
            (let self = ws_set_state self candidate_id CsRevoked
             in (Ok (), self\<lparr>ew_promotions := bt_remove candidate_id (ew_promotions self),
                              ew_revoked := ew_revoked self @ [candidate_id]\<rparr>)))"

definition ws_active :: "workshop \<Rightarrow> promotion_record list" where
  "ws_active self = map snd (ew_promotions self)"

lemma promotion_fields:
  "pm_candidate_id (promotion_of H c authority now) = ec_candidate_id c"
  "pm_payload_digest (promotion_of H c authority now) = ec_payload_digest c"
  "pm_provenance (promotion_of H c authority now) = ec_provenance c"
  "pm_promotion_digest (promotion_of H c authority now) = promotion_digest_of H (promotion_of H c authority now)"
  by (simp_all add: promotion_of_def promotion_digest_of_def Let_def)

section \<open>Histories\<close>

datatype workshop_op =
    WoPropose evolution_kind string candidate_provenance
  | WoQuarantine string
  | WoEvaluate evaluation_record
  | WoPromote string review_authority u64
  | WoReject string string
  | WoRevoke string

fun workshop_step :: "(string \<Rightarrow> string) \<Rightarrow> workshop_op \<Rightarrow> workshop \<Rightarrow> workshop" where
  "workshop_step H (WoPropose kind payload provenance) self = snd (ws_propose H self kind payload provenance)"
| "workshop_step H (WoQuarantine i) self = snd (ws_quarantine H self i)"
| "workshop_step H (WoEvaluate r) self = snd (ws_evaluate H self r)"
| "workshop_step H (WoPromote i authority now) self = snd (ws_promote H self i authority now)"
| "workshop_step H (WoReject i reason) self = snd (ws_reject H self i reason)"
| "workshop_step H (WoRevoke i) self = snd (ws_revoke H self i)"

definition workshop_after :: "(string \<Rightarrow> string) \<Rightarrow> workshop_op list \<Rightarrow> workshop" where
  "workshop_after H ops = fold (workshop_step H) ops workshop_new"

text \<open>Which operation names a candidate, and the operation that proposes it.\<close>

definition proposes :: "(string \<Rightarrow> string) \<Rightarrow> string \<Rightarrow> evolution_kind \<Rightarrow> string \<Rightarrow> candidate_provenance \<Rightarrow> bool" where
  "proposes H i kind payload provenance \<longleftrightarrow> payload \<noteq> [] \<and> cv_source_event_id provenance \<noteq> [] \<and> cv_origin provenance \<noteq> []
     \<and> i = candidate_id_of H kind (payload_digest_of H payload)"

fun reproposes :: "(string \<Rightarrow> string) \<Rightarrow> string \<Rightarrow> workshop_op \<Rightarrow> bool" where
  "reproposes H i (WoPropose kind payload provenance) = proposes H i kind payload provenance"
| "reproposes H i _ = False"

text \<open>
  The last call \<open>op\<close> about a candidate: what came before it satisfies \<open>P\<close>, and no proposal of the
  candidate came after it. The stages of a candidate build on each other.
\<close>

definition since :: "(string \<Rightarrow> string) \<Rightarrow> string \<Rightarrow> (workshop_op list \<Rightarrow> bool) \<Rightarrow> workshop_op \<Rightarrow> workshop_op list \<Rightarrow> bool" where
  "since H i P op ops \<longleftrightarrow> (\<exists>earlier later. ops = earlier @ op # later \<and> P earlier \<and> \<not> list_ex (reproposes H i) later)"

definition proposed_since :: "(string \<Rightarrow> string) \<Rightarrow> workshop_op list \<Rightarrow> evolution_candidate \<Rightarrow> bool" where
  "proposed_since H ops c \<longleftrightarrow> proposes H (ec_candidate_id c) (ec_kind c) (ec_payload c) (ec_provenance c)
     \<and> since H (ec_candidate_id c) (\<lambda>_. True) (WoPropose (ec_kind c) (ec_payload c) (ec_provenance c)) ops"

definition quarantined_since :: "(string \<Rightarrow> string) \<Rightarrow> workshop_op list \<Rightarrow> evolution_candidate \<Rightarrow> bool" where
  "quarantined_since H ops c \<longleftrightarrow>
     since H (ec_candidate_id c) (\<lambda>earlier. proposed_since H earlier c) (WoQuarantine (ec_candidate_id c)) ops"

definition evaluated_since :: "(string \<Rightarrow> string) \<Rightarrow> workshop_op list \<Rightarrow> evolution_candidate \<Rightarrow> bool \<Rightarrow> bool" where
  "evaluated_since H ops c passed \<longleftrightarrow> (\<exists>r. vr_candidate_id r = ec_candidate_id c \<and> vr_passed r = passed
     \<and> since H (ec_candidate_id c) (\<lambda>earlier. quarantined_since H earlier c) (WoEvaluate r) ops)"

definition reviewed_promotion :: "(string \<Rightarrow> string) \<Rightarrow> workshop_op list \<Rightarrow> promotion_record \<Rightarrow> bool" where
  "reviewed_promotion H ops r \<longleftrightarrow> (\<exists>earlier later c.
     ops = earlier @ WoPromote (pm_candidate_id r) (pm_authority r) (pm_promoted_at_ms r) # later
     \<and> evaluated_since H earlier c True \<and> ec_payload_digest c = payload_digest_of H (ec_payload c)
     \<and> r = promotion_of H c (pm_authority r) (pm_promoted_at_ms r))"

fun stage_ok :: "(string \<Rightarrow> string) \<Rightarrow> workshop_op list \<Rightarrow> evolution_candidate \<Rightarrow> candidate_state \<Rightarrow> bool" where
  "stage_ok H ops c CsProposed = proposed_since H ops c"
| "stage_ok H ops c CsQuarantined = quarantined_since H ops c"
| "stage_ok H ops c (CsEvaluated passed) = evaluated_since H ops c passed"
| "stage_ok H ops c _ = True"

definition candidate_ok :: "(string \<Rightarrow> string) \<Rightarrow> workshop_op list \<Rightarrow> string \<Rightarrow> evolution_candidate \<Rightarrow> bool" where
  "candidate_ok H ops i c \<longleftrightarrow> ec_candidate_id c = i \<and> ec_payload_digest c = payload_digest_of H (ec_payload c)
     \<and> stage_ok H ops c (ec_state c)"

definition workshop_ok :: "(string \<Rightarrow> string) \<Rightarrow> workshop_op list \<Rightarrow> workshop \<Rightarrow> bool" where
  "workshop_ok H ops self \<longleftrightarrow> (\<forall>i c. bt_get (ew_candidates self) i = Some c \<longrightarrow> candidate_ok H ops i c)
     \<and> (\<forall>kr \<in> set (ew_promotions self). reviewed_promotion H ops (snd kr))"

lemma since_more: "since H i P op ops \<Longrightarrow> \<not> reproposes H i op' \<Longrightarrow> since H i P op (ops @ [op'])"
  unfolding since_def by force

lemma since_now: "P ops \<Longrightarrow> since H i P op (ops @ [op])"
  unfolding since_def by (intro exI [of _ ops] exI [of _ "[]"]) simp

lemma stage_more: "stage_ok H ops c st \<Longrightarrow> \<not> reproposes H (ec_candidate_id c) op \<Longrightarrow> stage_ok H (ops @ [op]) c st"
  by (cases st) (auto simp: proposed_since_def quarantined_since_def evaluated_since_def intro: since_more)

lemma reviewed_more: "reviewed_promotion H ops r \<Longrightarrow> reviewed_promotion H (ops @ [op]) r"
  unfolding reviewed_promotion_def by (metis append.assoc append_Cons)

lemma since_state [simp]:
  "proposed_since H ops (c\<lparr>ec_state := st\<rparr>) = proposed_since H ops c"
  "quarantined_since H ops (c\<lparr>ec_state := st\<rparr>) = quarantined_since H ops c"
  "evaluated_since H ops (c\<lparr>ec_state := st\<rparr>) passed = evaluated_since H ops c passed"
  by (simp_all add: proposed_since_def quarantined_since_def evaluated_since_def)

lemma stage_state [simp]: "stage_ok H ops (c\<lparr>ec_state := st'\<rparr>) st = stage_ok H ops c st"
  by (cases st) simp_all

text \<open>The guard passes exactly for the candidates there are: nothing tampers with a payload.\<close>

lemma guard_exact:
  assumes "workshop_ok H ops self"
  shows "ws_guard H self i = (case bt_get (ew_candidates self) i of None \<Rightarrow> Err UnknownOrTerminal | Some c \<Rightarrow> Ok c)"
  using assms by (auto simp: ws_guard_def workshop_ok_def candidate_ok_def split: option.split)

lemma set_state_fields [simp]:
  "ew_promotions (ws_set_state self i st) = ew_promotions self"
  "ew_evaluations (ws_set_state self i st) = ew_evaluations self"
  by (simp_all add: ws_set_state_def split: option.split)

lemma set_state_get:
  "bt_get (ew_candidates (ws_set_state self i st)) j
     = (if j = i then map_option (\<lambda>c. c\<lparr>ec_state := st\<rparr>) (bt_get (ew_candidates self) i) else bt_get (ew_candidates self) j)"
  by (auto simp: ws_set_state_def bt_get_insert split: option.split)

text \<open>An operation that is no proposal keeps the invariant when the candidates it leaves are staged.\<close>

lemma workshop_keep:
  assumes "workshop_ok H ops self" "\<And>i. \<not> reproposes H i op"
    "\<And>i c. bt_get (ew_candidates self') i = Some c \<Longrightarrow>
       bt_get (ew_candidates self) i = Some c \<or> candidate_ok H (ops @ [op]) i c"
    "\<And>kr. kr \<in> set (ew_promotions self') \<Longrightarrow> kr \<in> set (ew_promotions self) \<or> reviewed_promotion H (ops @ [op]) (snd kr)"
  shows "workshop_ok H (ops @ [op]) self'"
  unfolding workshop_ok_def
proof (intro conjI allI impI ballI)
  fix i c assume "bt_get (ew_candidates self') i = Some c"
  from assms(3) [OF this] show "candidate_ok H (ops @ [op]) i c"
  proof
    assume "bt_get (ew_candidates self) i = Some c"
    with assms(1) have "candidate_ok H ops i c" unfolding workshop_ok_def by blast
    with assms(2) show ?thesis by (simp add: candidate_ok_def stage_more)
  qed
next
  fix kr assume "kr \<in> set (ew_promotions self')"
  from assms(4) [OF this] assms(1) show "reviewed_promotion H (ops @ [op]) (snd kr)"
    unfolding workshop_ok_def by (blast intro: reviewed_more)
qed

lemma set_state_keep:
  assumes "workshop_ok H ops self" "\<And>i. \<not> reproposes H i op" "bt_get (ew_candidates self) i = Some c"
    "stage_ok H (ops @ [op]) c st" "ew_candidates self' = ew_candidates (ws_set_state self i st)"
    "\<And>kr. kr \<in> set (ew_promotions self') \<Longrightarrow> kr \<in> set (ew_promotions self) \<or> reviewed_promotion H (ops @ [op]) (snd kr)"
  shows "workshop_ok H (ops @ [op]) self'"
proof (rule workshop_keep [OF assms(1,2) _ assms(6)])
  fix j d assume d: "bt_get (ew_candidates self') j = Some d"
  have c: "candidate_ok H ops i c" using assms(1,3) unfolding workshop_ok_def by blast
  show "bt_get (ew_candidates self) j = Some d \<or> candidate_ok H (ops @ [op]) j d"
  proof (cases "j = i")
    case True
    with d assms(3,5) have "d = c\<lparr>ec_state := st\<rparr>" by (simp add: set_state_get)
    with c assms(4) True show ?thesis by (simp add: candidate_ok_def)
  next
    case False
    with d assms(5) show ?thesis by (simp add: set_state_get)
  qed
qed

lemma propose_keeps:
  assumes "workshop_ok H ops self"
  shows "workshop_ok H (ops @ [WoPropose kind payload provenance]) (snd (ws_propose H self kind payload provenance))"
proof -
  let ?op = "WoPropose kind payload provenance"
  let ?i = "candidate_id_of H kind (payload_digest_of H payload)"
  have old: "candidate_ok H (ops @ [?op]) j c"
    if "bt_get (ew_candidates self) j = Some c" "\<not> proposes H j kind payload provenance" for j c
  proof -
    have "candidate_ok H ops j c" using assms that(1) unfolding workshop_ok_def by blast
    with that(2) show ?thesis by (simp add: candidate_ok_def stage_more)
  qed
  have proms: "reviewed_promotion H (ops @ [?op]) (snd kr)" if "kr \<in> set (ew_promotions self)" for kr
    using assms that unfolding workshop_ok_def by (blast intro: reviewed_more)
  show ?thesis
  proof (cases "proposes H ?i kind payload provenance")
    case False
    then have bad: "payload = [] \<or> cv_source_event_id provenance = [] \<or> cv_origin provenance = []" by (auto simp: proposes_def)
    then have "\<not> proposes H j kind payload provenance" for j by (auto simp: proposes_def)
    with bad old proms show ?thesis by (auto simp: workshop_ok_def ws_propose_def)
  next
    case True
    let ?c = "\<lparr>ec_candidate_id = ?i, ec_kind = kind, ec_payload = payload, ec_payload_digest = payload_digest_of H payload,
        ec_provenance = provenance, ec_state = CsProposed\<rparr>"
    have new: "candidate_ok H (ops @ [?op]) ?i ?c"
      using True by (simp add: candidate_ok_def proposed_since_def since_now)
    have others: "\<not> proposes H j kind payload provenance" if "j \<noteq> ?i" for j using that by (auto simp: proposes_def)
    from True have "snd (ws_propose H self kind payload provenance) = self\<lparr>ew_candidates := bt_insert ?i ?c (ew_candidates self)\<rparr>"
      by (auto simp: proposes_def ws_propose_def Let_def)
    then show ?thesis using new old others proms by (simp add: workshop_ok_def bt_get_insert)
  qed
qed

lemma quarantine_keeps:
  assumes ok: "workshop_ok H ops self"
  shows "workshop_ok H (ops @ [WoQuarantine i]) (snd (ws_quarantine H self i))"
proof (cases "fst (ws_quarantine H self i)")
  case (Inl e)
  then have "snd (ws_quarantine H self i) = self"
    by (auto simp: ws_quarantine_def split: sum.splits if_splits)
  then show ?thesis by (simp add: workshop_keep [OF ok])
next
  case (Inr u)
  then obtain c where c: "bt_get (ew_candidates self) i = Some c" "ec_state c = CsProposed"
    "snd (ws_quarantine H self i) = ws_set_state self i CsQuarantined"
    by (auto simp: ws_quarantine_def guard_exact [OF ok] split: option.splits if_splits)
  then have k: "candidate_ok H ops i c" using ok unfolding workshop_ok_def by blast
  show ?thesis
    by (rule set_state_keep [OF ok _ c(1), where st = CsQuarantined])
      (use k c(2,3) in \<open>auto simp: candidate_ok_def quarantined_since_def intro: since_now\<close>)
qed

lemma evaluate_keeps:
  assumes ok: "workshop_ok H ops self"
  shows "workshop_ok H (ops @ [WoEvaluate r]) (snd (ws_evaluate H self r))"
proof (cases "fst (ws_evaluate H self r)")
  case (Inl e)
  then have "snd (ws_evaluate H self r) = self"
    by (auto simp: ws_evaluate_def split: sum.splits if_splits)
  then show ?thesis by (simp add: workshop_keep [OF ok])
next
  case (Inr u)
  let ?self = "self\<lparr>ew_evaluations := bt_insert (vr_candidate_id r) r (ew_evaluations self)\<rparr>"
  from Inr obtain c where c: "bt_get (ew_candidates self) (vr_candidate_id r) = Some c" "ec_state c = CsQuarantined"
    "snd (ws_evaluate H self r) = ws_set_state ?self (vr_candidate_id r) (CsEvaluated (vr_passed r))"
    by (auto simp: ws_evaluate_def guard_exact [OF ok] split: option.splits if_splits)
  then have k: "candidate_ok H ops (vr_candidate_id r) c" using ok unfolding workshop_ok_def by blast
  have "stage_ok H (ops @ [WoEvaluate r]) c (CsEvaluated (vr_passed r))"
    using k c(2) by (auto simp: candidate_ok_def evaluated_since_def intro!: exI [of _ r] since_now)
  have st: "stage_ok H (ops @ [WoEvaluate r]) c (CsEvaluated (vr_passed r))" by fact
  show ?thesis
    by (rule set_state_keep [OF ok _ c(1) st]) (simp_all add: c(1,3) ws_set_state_def)
qed

lemma promote_keeps:
  assumes ok: "workshop_ok H ops self"
  shows "workshop_ok H (ops @ [WoPromote i authority now]) (snd (ws_promote H self i authority now))"
proof (cases "fst (ws_promote H self i authority now)")
  case (Inl e)
  then have "snd (ws_promote H self i authority now) = self"
    by (auto simp: ws_promote_def Let_def split: sum.splits if_splits candidate_state.splits)
  then show ?thesis by (simp add: workshop_keep [OF ok])
next
  case (Inr r)
  let ?op = "WoPromote i authority now"
  from Inr obtain c where c: "bt_get (ew_candidates self) i = Some c" "ec_state c = CsEvaluated True" "r = promotion_of H c authority now"
    "ew_candidates (snd (ws_promote H self i authority now)) = ew_candidates (ws_set_state self i CsPromoted)"
    "ew_promotions (snd (ws_promote H self i authority now)) = bt_insert (pm_candidate_id r) r (ew_promotions self)"
    by (auto simp: ws_promote_def Let_def guard_exact [OF ok] split: option.splits if_splits candidate_state.splits)
  then have k: "candidate_ok H ops i c" using ok unfolding workshop_ok_def by blast
  have "reviewed_promotion H (ops @ [?op]) r"
    unfolding reviewed_promotion_def
    by (intro exI [of _ ops] exI [of _ "[]"] exI [of _ c])
      (use k c(2,3) in \<open>simp add: candidate_ok_def promotion_of_def Let_def\<close>)
  then show ?thesis
    by (intro set_state_keep [OF ok _ c(1), where st = CsPromoted]) (auto simp: c(4,5) dest!: mem_bt_insert)
qed

lemma reject_keeps:
  assumes ok: "workshop_ok H ops self"
  shows "workshop_ok H (ops @ [WoReject i reason]) (snd (ws_reject H self i reason))"
proof (cases "snd (ws_reject H self i reason) = self")
  case True
  then show ?thesis by (simp add: workshop_keep [OF ok])
next
  case False
  then obtain c where c: "bt_get (ew_candidates self) i = Some c"
    "snd (ws_reject H self i reason) = ws_set_state self i (CsRejected reason)"
    by (auto simp: ws_reject_def guard_exact [OF ok] split: option.splits candidate_state.splits)
  show ?thesis
    by (rule set_state_keep [OF ok _ c(1), where st = "CsRejected reason"]) (simp_all add: c(2))
qed

lemma mem_bt_remove: "kr \<in> set (bt_remove k m) \<Longrightarrow> kr \<in> set m"
  by (simp add: bt_remove_def)

lemma revoke_keeps:
  assumes ok: "workshop_ok H ops self"
  shows "workshop_ok H (ops @ [WoRevoke i]) (snd (ws_revoke H self i))"
proof (cases "fst (ws_revoke H self i)")
  case (Inl e)
  then have "snd (ws_revoke H self i) = self"
    by (auto simp: ws_revoke_def Let_def split: sum.splits if_splits)
  then show ?thesis by (simp add: workshop_keep [OF ok])
next
  case (Inr u)
  then obtain c where c: "bt_get (ew_candidates self) i = Some c"
    "ew_candidates (snd (ws_revoke H self i)) = ew_candidates (ws_set_state self i CsRevoked)"
    "ew_promotions (snd (ws_revoke H self i)) = bt_remove i (ew_promotions self)"
    by (auto simp: ws_revoke_def Let_def guard_exact [OF ok] split: option.splits if_splits)
  show ?thesis
    by (rule set_state_keep [OF ok _ c(1), where st = CsRevoked]) (auto simp: c(2,3) dest: mem_bt_remove)
qed

lemma workshop_after_snoc: "workshop_after H (ops @ [op]) = workshop_step H op (workshop_after H ops)"
  by (simp add: workshop_after_def)

lemma workshop_after_ok: "workshop_ok H ops (workshop_after H ops)"
proof (induction ops rule: rev_induct)
  case Nil
  show ?case by (simp add: workshop_after_def workshop_new_def workshop_ok_def)
next
  case (snoc op ops)
  then show ?case
    by (cases op) (simp_all add: workshop_after_snoc propose_keeps quarantine_keeps evaluate_keeps promote_keeps reject_keeps revoke_keeps)
qed

section \<open>Only reviewed candidates are active\<close>

text \<open>
  after any sequence of operations, an active promotion is that of a candidate which was proposed,
  quarantined and evaluated with success, in this order and without being proposed anew in between, and
  which was then promoted under the authority and at the time the record names; the record binds its
  digest of the payload to the identifier and carries the digest of itself.
\<close>

theorem active_was_evaluated_and_reviewed:
  assumes "r \<in> set (ws_active (workshop_after H ops))"
  shows "\<exists>earlier later c. ops = earlier @ WoPromote (pm_candidate_id r) (pm_authority r) (pm_promoted_at_ms r) # later
     \<and> evaluated_since H earlier c True \<and> ec_candidate_id c = pm_candidate_id r \<and> ec_provenance c = pm_provenance r
     \<and> pm_payload_digest r = payload_digest_of H (ec_payload c) \<and> pm_promotion_digest r = promotion_digest_of H r"
proof -
  from assms obtain k where "(k, r) \<in> set (ew_promotions (workshop_after H ops))" by (auto simp: ws_active_def)
  with workshop_after_ok [of H ops] have "reviewed_promotion H ops (snd (k, r))" unfolding workshop_ok_def by blast
  then obtain earlier later c where e: "ops = earlier @ WoPromote (pm_candidate_id r) (pm_authority r) (pm_promoted_at_ms r) # later"
    "evaluated_since H earlier c True" "ec_payload_digest c = payload_digest_of H (ec_payload c)"
    "r = promotion_of H c (pm_authority r) (pm_promoted_at_ms r)"
    unfolding reviewed_promotion_def by auto
  note f = promotion_fields [of H c "pm_authority r" "pm_promoted_at_ms r", folded e(4)]
  show ?thesis
    by (intro exI [of _ earlier] exI [of _ later] exI [of _ c] conjI) (use e(1-3) f in simp_all)
qed

definition sample_provenance :: candidate_provenance where
  "sample_provenance = \<lparr>cv_source_event_id = ''ev'', cv_origin = ''run'', cv_trust = Untrusted\<rparr>"

definition sample_skill :: string where
  "sample_skill = candidate_id_of (\<lambda>x. []) EkSkill (payload_digest_of (\<lambda>x. []) ''p'')"

definition sample_evaluation :: evaluation_record where
  "sample_evaluation = \<lparr>vr_candidate_id = sample_skill, vr_inputs_digest = ''i'', vr_outputs_digest = ''o'', vr_passed = True,
     vr_evaluated_at_ms = 2\<rparr>"

definition sample_workshop_ops :: "workshop_op list" where
  "sample_workshop_ops = [WoPropose EkSkill ''p'' sample_provenance, WoQuarantine sample_skill, WoEvaluate sample_evaluation,
     WoPromote sample_skill sample_review 3]"

definition sample_promotion :: promotion_record where
  "sample_promotion = promotion_of (\<lambda>x. [])
     \<lparr>ec_candidate_id = sample_skill, ec_kind = EkSkill, ec_payload = ''p'', ec_payload_digest = payload_digest_of (\<lambda>x. []) ''p'',
      ec_provenance = sample_provenance, ec_state = CsPromoted\<rparr> sample_review 3"

lemma sample_promotion_active: "ws_active (workshop_after (\<lambda>x. []) sample_workshop_ops) = [sample_promotion]"
  by code_simp

theorem active_was_evaluated_and_reviewed_witness:
  "\<exists>earlier later. sample_workshop_ops = earlier @ WoPromote (pm_candidate_id sample_promotion) sample_review 3 # later
     \<and> (\<exists>c. evaluated_since (\<lambda>x. []) earlier c True)"
proof -
  have "sample_promotion \<in> set (ws_active (workshop_after (\<lambda>x. []) sample_workshop_ops))" by (simp add: sample_promotion_active)
  from active_was_evaluated_and_reviewed [OF this] have "\<exists>earlier later c.
     sample_workshop_ops = earlier @ WoPromote (pm_candidate_id sample_promotion) (pm_authority sample_promotion)
       (pm_promoted_at_ms sample_promotion) # later \<and> evaluated_since (\<lambda>x. []) earlier c True" by blast
  moreover have "pm_authority sample_promotion = sample_review" "pm_promoted_at_ms sample_promotion = 3"
    by (simp_all add: sample_promotion_def promotion_of_def Let_def)
  ultimately show ?thesis by auto
qed

section \<open>What leaves a promotion active\<close>

text \<open>
  Rejecting a promoted candidate, or proposing it again, changes its state but not the active promotion;
  revoking is then refused, as it needs the promoted state.
\<close>

lemma rejected_promotion_stays_active:
  "ws_active (workshop_after (\<lambda>x. []) (sample_workshop_ops @ [WoReject sample_skill ''unsafe'', WoRevoke sample_skill])) = [sample_promotion]"
  "fst (ws_revoke (\<lambda>x. []) (workshop_after (\<lambda>x. []) (sample_workshop_ops @ [WoReject sample_skill ''unsafe''])) sample_skill)
     = Err IllegalTransition"
  by code_simp+

lemma reproposed_promotion_stays_active:
  "ws_active (workshop_after (\<lambda>x. []) (sample_workshop_ops @ [WoPropose EkSkill ''p'' sample_provenance, WoRevoke sample_skill]))
     = [sample_promotion]"
  by code_simp

text \<open>A terminal state does not last: proposing the same payload starts its candidate again.\<close>

lemma revoked_candidate_starts_again:
  "map_option ec_state (bt_get (ew_candidates (workshop_after (\<lambda>x. []) (sample_workshop_ops @ [WoRevoke sample_skill]))) sample_skill)
     = Some CsRevoked"
  "map_option ec_state (bt_get (ew_candidates (workshop_after (\<lambda>x. [])
     (sample_workshop_ops @ [WoRevoke sample_skill, WoPropose EkSkill ''p'' sample_provenance]))) sample_skill) = Some CsProposed"
  by code_simp+

end
