(* ===== verification/GoalDag.thy ===== *)
theory GoalDag
  imports Prelude "HOL-Library.While_Combinator"
begin

text \<open>
  The typed goal graph (\<open>crates/orchestrator/src/dag.rs\<close>): construction with total validation, the
  depth-first search for cycles, the ready tasks and the descendants of a task. The recursion of
  \<open>visit\<close> is a \<^theory_text>\<open>partial_function\<close> and the worklist of \<open>descendants\<close> a \<open>while_option\<close>, so that not
  returning is \<open>None\<close>; both are shown to return.
\<close>

datatype evidence_kind = ArtifactDigest string | CommandSucceeded string

record evidence_spec =
  es_label :: string
  es_kind :: evidence_kind

record task_node =
  tn_id :: string
  tn_dependencies :: "string list"
  tn_evidence :: "evidence_spec list"

datatype dag_error = DagUnknownDependency | DagCycle | DagMalformed

fun dag_error_str :: "dag_error \<Rightarrow> string" where
  "dag_error_str DagUnknownDependency = ''unknown_dependency''"
| "dag_error_str DagCycle = ''cycle''"
| "dag_error_str DagMalformed = ''malformed''"

record goal_dag =
  dag_goal_id :: string
  dag_tasks :: "(string, task_node) btree"

datatype task_state = TaskPending | TaskDelegated | TaskCompleted | TaskFailed | TaskCancelled

text \<open>The loop of \<open>GoalDag::new\<close> over the tasks.\<close>

fun collect_tasks :: "task_node list \<Rightarrow> (string, task_node) btree \<Rightarrow> dag_error + (string, task_node) btree" where
  "collect_tasks [] m = Ok m"
| "collect_tasks (t # ts) m =
     (if tn_id t = [] \<or> bt_get m (tn_id t) \<noteq> None then Err DagMalformed
      else collect_tasks ts (bt_insert (tn_id t) t m))"

text \<open>
  The search with its two marks. \<open>visit_each\<close> is the loop that calls \<open>visit\<close> on a list of tasks:
  the dependencies of a task inside \<open>visit\<close>, all tasks in \<open>validate\<close>.
\<close>

partial_function (option) visit_each ::
    "goal_dag \<Rightarrow> string list \<Rightarrow> string set \<Rightarrow> string set \<Rightarrow> (dag_error + string set \<times> string set) option" where
  "visit_each dag ids visiting finished =
     (case ids of
        [] \<Rightarrow> Some (Ok (visiting, finished))
      | i # rest \<Rightarrow>
          (if i \<in> finished then visit_each dag rest visiting finished
           else if i \<in> visiting then Some (Err DagCycle)
           else Option.bind
             (visit_each dag (case bt_get (dag_tasks dag) i of None \<Rightarrow> [] | Some t \<Rightarrow> tn_dependencies t)
               (insert i visiting) finished)
             (\<lambda>r. case r of
                Err e \<Rightarrow> Some (Err e)
              | Ok (v, d) \<Rightarrow> visit_each dag rest (v - {i}) (insert i d))))"

declare visit_each.simps [code]

definition visit :: "goal_dag \<Rightarrow> string \<Rightarrow> string set \<Rightarrow> string set \<Rightarrow> (dag_error + string set \<times> string set) option" where
  "visit dag i visiting finished = visit_each dag [i] visiting finished"

definition validate_dag :: "goal_dag \<Rightarrow> (dag_error + unit) option" where
  "validate_dag dag =
     (if \<exists>(_, t) \<in> set (dag_tasks dag). \<exists>d \<in> set (tn_dependencies t). bt_get (dag_tasks dag) d = None
      then Some (Err DagUnknownDependency)
      else map_option (\<lambda>r. case r of Err e \<Rightarrow> Err e | Ok _ \<Rightarrow> Ok ())
             (visit_each dag (bt_keys (dag_tasks dag)) {} {}))"

definition goal_dag_new :: "string \<Rightarrow> task_node list \<Rightarrow> (dag_error + goal_dag) option" where
  "goal_dag_new gid ts =
     (if gid = [] then Some (Err DagMalformed)
      else (case collect_tasks ts [] of
              Err e \<Rightarrow> Some (Err e)
            | Ok m \<Rightarrow>
                (let dag = \<lparr>dag_goal_id = gid, dag_tasks = m\<rparr> in
                 map_option (\<lambda>r. case r of Err e \<Rightarrow> Err e | Ok _ \<Rightarrow> Ok dag) (validate_dag dag))))"

definition dag_task :: "goal_dag \<Rightarrow> string \<Rightarrow> task_node option" where
  "dag_task dag i = bt_get (dag_tasks dag) i"

definition task_ids :: "goal_dag \<Rightarrow> string list" where
  "task_ids dag = bt_keys (dag_tasks dag)"

definition ready_tasks :: "goal_dag \<Rightarrow> string set \<Rightarrow> task_node list" where
  "ready_tasks dag completed =
     sort_key tn_id (filter (\<lambda>t. list_all (\<lambda>d. d \<in> completed) (tn_dependencies t)) (map snd (dag_tasks dag)))"

text \<open>One turn of the worklist of \<open>descendants\<close>: the last entry is popped, its new dependents are pushed.\<close>

definition push_dependent :: "string \<Rightarrow> string set \<times> string list \<Rightarrow> task_node \<Rightarrow> string set \<times> string list" where
  "push_dependent current s t =
     (if current \<in> set (tn_dependencies t) \<and> tn_id t \<notin> fst s
      then (insert (tn_id t) (fst s), snd s @ [tn_id t]) else s)"

definition descend :: "goal_dag \<Rightarrow> string set \<times> string list \<Rightarrow> string set \<times> string list" where
  "descend dag s = foldl (push_dependent (last (snd s))) (fst s, butlast (snd s)) (map snd (dag_tasks dag))"

definition descendants :: "goal_dag \<Rightarrow> string \<Rightarrow> string set option" where
  "descendants dag i = map_option fst (while_option (\<lambda>s. snd s \<noteq> []) (descend dag) ({}, [i]))"

section \<open>The search\<close>

text \<open>The graph of a task index: a task points to its dependencies.\<close>

definition depends :: "goal_dag \<Rightarrow> (string \<times> string) set" where
  "depends dag = {(i, d). \<exists>t. bt_get (dag_tasks dag) i = Some t \<and> d \<in> set (tn_dependencies t)}"

text \<open>Finished tasks: closed under dependencies and on no cycle.\<close>

definition settled :: "goal_dag \<Rightarrow> string set \<Rightarrow> bool" where
  "settled dag d \<longleftrightarrow> (\<forall>x y. x \<in> d \<longrightarrow> (x, y) \<in> depends dag \<longrightarrow> y \<in> d) \<and> (\<forall>x. x \<in> d \<longrightarrow> (x, x) \<notin> (depends dag)\<^sup>+)"

lemma settled_reach: "(x, y) \<in> (depends dag)\<^sup>+ \<Longrightarrow> settled dag d \<Longrightarrow> x \<in> d \<Longrightarrow> y \<in> d"
  by (induction rule: trancl_induct) (auto simp: settled_def)

lemma settled_insert:
  assumes "settled dag d" "\<And>y. (i, y) \<in> depends dag \<Longrightarrow> y \<in> d" "i \<notin> d"
  shows "settled dag (insert i d)"
proof -
  have "(i, i) \<notin> (depends dag)\<^sup>+"
  proof
    assume "(i, i) \<in> (depends dag)\<^sup>+"
    then obtain y where "(i, y) \<in> depends dag" "y = i \<or> (y, i) \<in> (depends dag)\<^sup>+"
      by (metis converse_tranclE)
    with assms settled_reach [of y i dag d] show False by blast
  qed
  with assms show ?thesis by (auto simp: settled_def)
qed

lemma visit_each_Nil [simp]: "visit_each dag [] v d = Some (Ok (v, d))"
  by (subst visit_each.simps) simp

lemma visit_each_finished [simp]: "i \<in> d \<Longrightarrow> visit_each dag (i # rest) v d = visit_each dag rest v d"
  by (subst visit_each.simps) simp

lemma visit_each_visiting [simp]: "i \<notin> d \<Longrightarrow> i \<in> v \<Longrightarrow> visit_each dag (i # rest) v d = Some (Err DagCycle)"
  by (subst visit_each.simps) simp

lemma visit_each_fresh:
  "i \<notin> d \<Longrightarrow> i \<notin> v \<Longrightarrow> visit_each dag (i # rest) v d =
     Option.bind (visit_each dag (case bt_get (dag_tasks dag) i of None \<Rightarrow> [] | Some t \<Rightarrow> tn_dependencies t) (insert i v) d)
       (\<lambda>r. case r of Err e \<Rightarrow> Some (Err e) | Ok (v', d') \<Rightarrow> visit_each dag rest (v' - {i}) (insert i d'))"
  by (subst visit_each.simps) simp

lemma visit_each_spec:
  "v \<inter> d = {} \<Longrightarrow> settled dag d \<Longrightarrow> (\<And>x i. x \<in> v \<Longrightarrow> i \<in> set ids \<Longrightarrow> (x, i) \<in> (depends dag)\<^sup>+) \<Longrightarrow>
     (\<exists>d'. visit_each dag ids v d = Some (Ok (v, d')) \<and> d \<union> set ids \<subseteq> d' \<and> v \<inter> d' = {} \<and> settled dag d')
   \<or> (visit_each dag ids v d = Some (Err DagCycle) \<and> (\<exists>x. (x, x) \<in> (depends dag)\<^sup>+))"
proof (induction "card (fst ` set (dag_tasks dag) - v)" arbitrary: v d ids rule: less_induct)
  case less
  from less.prems show ?case
  proof (induction ids arbitrary: d)
    case Nil
    then show ?case by simp
  next
    case (Cons i rest)
    show ?case
    proof (cases "i \<in> d \<or> i \<in> v")
      case True
      show ?thesis
      proof (cases "i \<in> d")
        case True
        with Cons.IH [OF Cons.prems(1,2)] Cons.prems(3) show ?thesis by auto
      next
        case False
        with True Cons.prems(3) [of i i] show ?thesis by auto
      qed
    next
      case fresh: False
      let ?deps = "case bt_get (dag_tasks dag) i of None \<Rightarrow> [] | Some t \<Rightarrow> tn_dependencies t"
      have edge: "(i, y) \<in> depends dag \<longleftrightarrow> y \<in> set ?deps" for y
        by (cases "bt_get (dag_tasks dag) i") (auto simp: depends_def)
      have inner: "(\<exists>d'. visit_each dag ?deps (insert i v) d = Some (Ok (insert i v, d')) \<and> d \<union> set ?deps \<subseteq> d'
            \<and> insert i v \<inter> d' = {} \<and> settled dag d')
          \<or> (visit_each dag ?deps (insert i v) d = Some (Err DagCycle) \<and> (\<exists>x. (x, x) \<in> (depends dag)\<^sup>+))"
      proof (cases "bt_get (dag_tasks dag) i")
        case None
        then have "visit_each dag ?deps (insert i v) d = Some (Ok (insert i v, d))" by simp
        then show ?thesis using None fresh Cons.prems by simp
      next
        case (Some t)
        then have "i \<in> fst ` set (dag_tasks dag)" by (force dest: bt_get_mem)
        then have "fst ` set (dag_tasks dag) - insert i v \<subset> fst ` set (dag_tasks dag) - v" using fresh by blast
        then have "card (fst ` set (dag_tasks dag) - insert i v) < card (fst ` set (dag_tasks dag) - v)"
          by (intro psubset_card_mono) simp_all
        then show ?thesis
        proof (rule less.hyps)
          show "insert i v \<inter> d = {}" using fresh Cons.prems(1) by blast
          show "(x, y) \<in> (depends dag)\<^sup>+" if "x \<in> insert i v" "y \<in> set ?deps" for x y
            using that Cons.prems(3) [of x i] edge [of y] by (cases "x = i") (auto intro: trancl_into_trancl)
        qed (rule Cons.prems)
      qed
      show ?thesis
      proof (cases "visit_each dag ?deps (insert i v) d = Some (Err DagCycle)")
        case True
        with fresh inner show ?thesis by (auto simp: visit_each_fresh)
      next
        case False
        with inner obtain d' where d': "visit_each dag ?deps (insert i v) d = Some (Ok (insert i v, d'))"
            "d \<union> set ?deps \<subseteq> d'" "insert i v \<inter> d' = {}" "settled dag d'" by blast
        have "visit_each dag (i # rest) v d = visit_each dag rest v (insert i d')"
          using fresh d'(1) by (simp add: visit_each_fresh)
        moreover have "settled dag (insert i d')"
          using d' edge by (intro settled_insert) auto
        ultimately show ?thesis
          using Cons.IH [of "insert i d'"] Cons.prems d'(2,3) fresh by auto
      qed
    qed
  qed
qed

section \<open>Construction\<close>

text \<open>What \<open>GoalDag::new\<close> is to check, on the task list it is given.\<close>

definition malformed_tasks :: "string \<Rightarrow> task_node list \<Rightarrow> bool" where
  "malformed_tasks gid ts \<longleftrightarrow> gid = [] \<or> [] \<in> set (map tn_id ts) \<or> \<not> distinct (map tn_id ts)"

definition dependency_graph :: "task_node list \<Rightarrow> (string \<times> string) set" where
  "dependency_graph ts = {(tn_id t, d) | t d. t \<in> set ts \<and> d \<in> set (tn_dependencies t)}"

definition dangling :: "task_node list \<Rightarrow> bool" where
  "dangling ts \<longleftrightarrow> \<not> Range (dependency_graph ts) \<subseteq> set (map tn_id ts)"

definition task_index :: "task_node list \<Rightarrow> (string, task_node) btree" where
  "task_index ts = map (\<lambda>t. (tn_id t, t)) (sort_key tn_id ts)"

lemma set_bt_insert_fresh: "k \<notin> fst ` set m \<Longrightarrow> set (bt_insert k v m) = insert (k, v) (set m)"
  by (induction k v m rule: bt_insert.induct) auto

lemma collect_tasks_Ok:
  "collect_tasks ts m = Ok m' \<Longrightarrow> bt_inv m \<Longrightarrow>
     bt_inv m' \<and> set m' = set m \<union> (\<lambda>t. (tn_id t, t)) ` set ts"
proof (induction ts arbitrary: m)
  case (Cons t ts)
  then have "tn_id t \<notin> dom (bt_get m)" by (auto split: if_splits)
  then have "set (bt_insert (tn_id t) t m) = insert (tn_id t, t) (set m)"
    by (simp add: dom_bt_get set_bt_insert_fresh)
  moreover have "bt_inv m' \<and> set m' = set (bt_insert (tn_id t) t m) \<union> (\<lambda>t. (tn_id t, t)) ` set ts"
    using Cons.prems by (intro Cons.IH) (auto simp: bt_inv_insert split: if_splits)
  ultimately show ?case by auto
qed simp

lemma collect_tasks_total:
  "(\<exists>m'. collect_tasks ts m = Ok m') \<longleftrightarrow>
     [] \<notin> set (map tn_id ts) \<and> distinct (map tn_id ts) \<and> dom (bt_get m) \<inter> set (map tn_id ts) = {}"
proof (induction ts arbitrary: m)
  case (Cons t ts)
  show ?case
  proof (cases "tn_id t = [] \<or> bt_get m (tn_id t) \<noteq> None")
    case False
    have "dom (bt_get (bt_insert (tn_id t) t m)) = insert (tn_id t) (dom (bt_get m))" by (simp add: store_simps)
    with False Cons.IH [of "bt_insert (tn_id t) t m"] show ?thesis by (auto simp: domIff)
  qed auto
qed simp

lemma collect_tasks_Err: "collect_tasks ts m = Err e \<Longrightarrow> e = DagMalformed"
  by (induction ts arbitrary: m) (auto split: if_splits)

lemma sorted_keys_unique:
  assumes "bt_inv m" "bt_inv m'" "set m = set m'"
  shows "m = (m' :: ('k::linorder, 'v) btree)"
proof (rule map_sorted_distinct_set_unique [where f = fst])
  show "inj_on fst (set m \<union> set m')"
    using assms by (auto simp: inj_on_def bt_inv_def strict_sorted_iff eq_key_imp_eq_value)
qed (use assms in \<open>simp_all add: bt_inv_def strict_sorted_iff\<close>)

lemma collect_tasks_eq:
  "collect_tasks ts [] = (if [] \<in> set (map tn_id ts) \<or> \<not> distinct (map tn_id ts) then Err DagMalformed else Ok (task_index ts))"
proof (cases "collect_tasks ts []")
  case (Inl e)
  with collect_tasks_total [of ts "[]"] collect_tasks_Err [OF Inl] show ?thesis by auto
next
  case (Inr m)
  with collect_tasks_total [of ts "[]"] have ok: "[] \<notin> set (map tn_id ts)" "distinct (map tn_id ts)" by auto
  have "distinct (map tn_id (sort_key tn_id ts))"
    using ok(2) by (simp add: distinct_map)
  then have "bt_inv (task_index ts)"
    by (simp add: bt_inv_def task_index_def strict_sorted_iff comp_def)
  then have "m = task_index ts"
    using collect_tasks_Ok [OF Inr] by (intro sorted_keys_unique) (auto simp: task_index_def)
  with Inr ok show ?thesis by simp
qed

lemma task_index_get:
  assumes "distinct (map tn_id ts)"
  shows "bt_get (task_index ts) i = Some t \<longleftrightarrow> t \<in> set ts \<and> tn_id t = i"
proof -
  have "distinct (map fst (task_index ts))"
    using assms by (simp add: task_index_def comp_def distinct_map)
  then have "bt_get (task_index ts) i = Some t \<longleftrightarrow> (i, t) \<in> set (task_index ts)"
    by (simp add: bt_get_def)
  then show ?thesis by (auto simp: task_index_def)
qed

lemma depends_task_index:
  "distinct (map tn_id ts) \<Longrightarrow> depends \<lparr>dag_goal_id = gid, dag_tasks = task_index ts\<rparr> = dependency_graph ts"
  by (auto simp: depends_def dependency_graph_def task_index_get)

lemma dangling_task_index:
  assumes "distinct (map tn_id ts)"
  shows "dangling ts \<longleftrightarrow> (\<exists>(_, t) \<in> set (task_index ts). \<exists>d \<in> set (tn_dependencies t). bt_get (task_index ts) d = None)"
proof -
  have "bt_get (task_index ts) d = None \<longleftrightarrow> d \<notin> set (map tn_id ts)" for d
  proof (cases "bt_get (task_index ts) d")
    case (Some t)
    with task_index_get [OF assms, of d t] show ?thesis by auto
  qed (use task_index_get [OF assms, of d] in auto)
  moreover have "dangling ts \<longleftrightarrow> (\<exists>t \<in> set ts. \<exists>d \<in> set (tn_dependencies t). d \<notin> set (map tn_id ts))"
    by (auto simp: dangling_def dependency_graph_def subset_iff Range_iff)
  moreover have "(\<exists>(_, t) \<in> set (task_index ts). P t) \<longleftrightarrow> (\<exists>t \<in> set ts. P t)" for P
    by (simp add: task_index_def)
  ultimately show ?thesis by (simp only:)
qed

lemma visit_all_spec:
  "(\<exists>d. visit_each dag ids {} {} = Some (Ok ({}, d)) \<and> set ids \<subseteq> d \<and> settled dag d)
   \<or> (visit_each dag ids {} {} = Some (Err DagCycle) \<and> (\<exists>x. (x, x) \<in> (depends dag)\<^sup>+))"
  using visit_each_spec [of "{}" "{}" dag ids] by (simp add: settled_def)

lemma acyclic_of_visit:
  assumes "visit_each dag (bt_keys (dag_tasks dag)) {} {} = Some r"
  shows "acyclic (depends dag) \<longleftrightarrow> (\<exists>s. r = Ok s)" "r = Err e \<Longrightarrow> e = DagCycle"
proof -
  consider d where "r = Ok ({}, d)" "set (bt_keys (dag_tasks dag)) \<subseteq> d" "settled dag d"
    | "r = Err DagCycle" "\<exists>x. (x, x) \<in> (depends dag)\<^sup>+"
    using visit_all_spec [of dag "bt_keys (dag_tasks dag)"] assms by auto
  then have "(acyclic (depends dag) \<longleftrightarrow> (\<exists>s. r = Ok s)) \<and> (r = Err e \<longrightarrow> e = DagCycle)"
  proof cases
    case 1
    have "x \<in> d" if "(x, x) \<in> (depends dag)\<^sup>+" for x
    proof -
      from that obtain y where "(x, y) \<in> depends dag" by (meson converse_tranclE)
      then obtain t where "(x, t) \<in> set (dag_tasks dag)" by (auto simp: depends_def intro: bt_get_mem)
      then have "x \<in> set (bt_keys (dag_tasks dag))" unfolding bt_keys_def set_map by (rule rev_image_eqI) simp
      with 1(2) show ?thesis by blast
    qed
    with 1(3) have "acyclic (depends dag)" unfolding acyclic_def settled_def by blast
    with 1(1) show ?thesis by simp
  qed (auto simp: acyclic_def)
  then show "acyclic (depends dag) \<longleftrightarrow> (\<exists>s. r = Ok s)" "r = Err e \<Longrightarrow> e = DagCycle" by auto
qed

lemma visit_each_returns: "\<exists>r. visit_each dag (bt_keys (dag_tasks dag)) {} {} = Some r"
  using visit_all_spec [of dag "bt_keys (dag_tasks dag)"] by blast

lemma goal_dag_new_exact_eq:
  "goal_dag_new gid ts = Some
     (if malformed_tasks gid ts then Err DagMalformed
      else if dangling ts then Err DagUnknownDependency
      else if acyclic (dependency_graph ts) then Ok \<lparr>dag_goal_id = gid, dag_tasks = task_index ts\<rparr>
      else Err DagCycle)"
proof (cases "malformed_tasks gid ts")
  case True
  then show ?thesis by (auto simp: goal_dag_new_def malformed_tasks_def collect_tasks_eq)
next
  case False
  define dag where "dag = \<lparr>dag_goal_id = gid, dag_tasks = task_index ts\<rparr>"
  from False have distinct: "distinct (map tn_id ts)" by (auto simp: malformed_tasks_def)
  have new: "goal_dag_new gid ts = map_option (\<lambda>r. case r of Err e \<Rightarrow> Err e | Ok _ \<Rightarrow> Ok dag) (validate_dag dag)"
    unfolding dag_def using False by (simp add: goal_dag_new_def malformed_tasks_def collect_tasks_eq Let_def)
  obtain r where r: "visit_each dag (bt_keys (dag_tasks dag)) {} {} = Some r" using visit_each_returns by blast
  have "validate_dag dag = Some (if dangling ts then Err DagUnknownDependency
      else if acyclic (dependency_graph ts) then Ok () else Err DagCycle)"
    using acyclic_of_visit [OF r] dangling_task_index [OF distinct] r depends_task_index [OF distinct, of gid]
    by (cases r) (auto simp: validate_dag_def dag_def)
  with new False show ?thesis by (simp add: dag_def)
qed

text \<open>
  C30: Construction of a goal graph always returns, and is exact: the search with its two marks
  answers \<open>cycle\<close> just when the dependency relation has one. Empty or repeated identifiers are
  \<open>malformed\<close>, a dependency on no task of the list is \<open>unknown_dependency\<close>, in this order of
  precedence; otherwise the graph holds exactly the given tasks, by identifier.
\<close>

theorem goal_dag_new_exact:
  "goal_dag_new gid ts = Some
     (if malformed_tasks gid ts then Err DagMalformed
      else if dangling ts then Err DagUnknownDependency
      else if acyclic (dependency_graph ts) then Ok \<lparr>dag_goal_id = gid, dag_tasks = task_index ts\<rparr>
      else Err DagCycle)"
  by (rule goal_dag_new_exact_eq)

section \<open>The worklist of dependents\<close>

definition indexed :: "goal_dag \<Rightarrow> bool" where
  "indexed dag \<longleftrightarrow> bt_inv (dag_tasks dag) \<and> (\<forall>i t. (i, t) \<in> set (dag_tasks dag) \<longrightarrow> tn_id t = i)"

lemma indexed_new: "goal_dag_new gid ts = Some (Ok dag) \<Longrightarrow> indexed dag \<and> depends dag = dependency_graph ts"
proof -
  assume a: "goal_dag_new gid ts = Some (Ok dag)"
  then have dag: "dag = \<lparr>dag_goal_id = gid, dag_tasks = task_index ts\<rparr>" "\<not> malformed_tasks gid ts"
    by (auto simp: goal_dag_new_exact_eq split: if_splits)
  then have "distinct (map tn_id ts)" by (simp add: malformed_tasks_def)
  moreover from this have "bt_inv (task_index ts)"
    by (simp add: bt_inv_def task_index_def strict_sorted_iff comp_def distinct_map)
  ultimately show ?thesis
    using dag(1) by (simp add: indexed_def depends_task_index) (auto simp: task_index_def)
qed

lemma known_dependencies:
  assumes "goal_dag_new gid ts = Some (Ok dag)" "bt_get (dag_tasks dag) i = Some t" "d \<in> set (tn_dependencies t)"
  shows "\<exists>u. bt_get (dag_tasks dag) d = Some u"
proof -
  have ok: "\<not> malformed_tasks gid ts" "\<not> dangling ts" "dag_tasks dag = task_index ts"
    using assms(1) by (auto simp: goal_dag_new_exact_eq split: if_splits)
  then have distinct: "distinct (map tn_id ts)" by (simp add: malformed_tasks_def)
  have "(i, d) \<in> dependency_graph ts"
    using assms(2,3) task_index_get [OF distinct] ok(3) by (auto simp: dependency_graph_def)
  then have "d \<in> set (map tn_id ts)" using ok(2) by (auto simp: dangling_def)
  with task_index_get [OF distinct, of d] ok(3) show ?thesis by auto
qed

lemma descend_fold:
  "\<exists>new. foldl (push_dependent c) (F, fr) ts = (F \<union> set new, fr @ new) \<and> distinct new
     \<and> set new = {tn_id t | t. t \<in> set ts \<and> c \<in> set (tn_dependencies t)} - F"
proof (induction ts arbitrary: F fr)
  case (Cons t ts)
  show ?case
  proof (cases "c \<in> set (tn_dependencies t) \<and> tn_id t \<notin> F")
    case True
    obtain new where
      "foldl (push_dependent c) (insert (tn_id t) F, fr @ [tn_id t]) ts = (insert (tn_id t) F \<union> set new, (fr @ [tn_id t]) @ new)"
      "distinct new" and new: "set new = {tn_id t | t. t \<in> set ts \<and> c \<in> set (tn_dependencies t)} - insert (tn_id t) F"
      using Cons.IH by blast
    moreover have "push_dependent c (F, fr) t = (insert (tn_id t) F, fr @ [tn_id t])"
      using True by (simp add: push_dependent_def)
    ultimately have "foldl (push_dependent c) (F, fr) (t # ts) = (F \<union> set (tn_id t # new), fr @ tn_id t # new)"
      "distinct (tn_id t # new)" by auto
    moreover have "set (tn_id t # new) = {tn_id u | u. u \<in> set (t # ts) \<and> c \<in> set (tn_dependencies u)} - F"
      using True new by auto
    ultimately show ?thesis by blast
  next
    case False
    then have "{tn_id u | u. u \<in> set (t # ts) \<and> c \<in> set (tn_dependencies u)} - F
        = {tn_id t | t. t \<in> set ts \<and> c \<in> set (tn_dependencies t)} - F" by auto
    moreover have "foldl (push_dependent c) (F, fr) (t # ts) = foldl (push_dependent c) (F, fr) ts"
      using False by (auto simp: push_dependent_def)
    ultimately show ?thesis using Cons.IH [of F fr] by simp
  qed
qed simp

lemma descend_step:
  assumes "indexed dag"
  shows "\<exists>new. descend dag (F, fr) = (F \<union> set new, butlast fr @ new) \<and> distinct new
     \<and> set new = {j. (j, last fr) \<in> depends dag} - F"
proof -
  have "{tn_id t | t. t \<in> set (map snd (dag_tasks dag)) \<and> c \<in> set (tn_dependencies t)} = {j. (j, c) \<in> depends dag}" for c
    using assms by (force simp: depends_def indexed_def dest: bt_get_mem bt_mem_get)
  with descend_fold [of "last fr" F "butlast fr" "map snd (dag_tasks dag)"] show ?thesis
    by (simp add: descend_def)
qed

text \<open>What the worklist keeps: the found tasks descend from the start, and whoever is not waiting has all its dependents found.\<close>

definition worklist_ok :: "goal_dag \<Rightarrow> string \<Rightarrow> string set \<times> string list \<Rightarrow> bool" where
  "worklist_ok dag i s \<longleftrightarrow> fst s \<subseteq> {j. (j, i) \<in> (depends dag)\<^sup>+} \<and> set (snd s) \<subseteq> insert i (fst s)
     \<and> (\<forall>x. x \<in> insert i (fst s) \<longrightarrow> x \<in> set (snd s) \<or> {j. (j, x) \<in> depends dag} \<subseteq> fst s)"

definition worklist_measure :: "goal_dag \<Rightarrow> string set \<times> string list \<Rightarrow> nat" where
  "worklist_measure dag s = 2 * card (Domain (depends dag) - fst s) + length (snd s)"

lemma finite_Domain_depends: "finite (Domain (depends dag))"
  by (rule finite_subset [of _ "dom (bt_get (dag_tasks dag))"]) (auto simp: depends_def bt_get_def finite_dom_map_of)

lemma descend_ok:
  assumes "indexed dag" "worklist_ok dag i s" "snd s \<noteq> []"
  shows "worklist_ok dag i (descend dag s)"
proof -
  obtain F fr where s: "s = (F, fr)" by (cases s)
  obtain new where new: "descend dag (F, fr) = (F \<union> set new, butlast fr @ new)" "distinct new"
      "set new = {j. (j, last fr) \<in> depends dag} - F" using descend_step [OF assms(1)] by blast
  have fr: "set fr = insert (last fr) (set (butlast fr))"
    using assms(3) s append_butlast_last_id [of fr] by (metis list.set(1,2) set_append snd_conv sup_bot_right Un_insert_right)
  have "last fr = i \<or> (last fr, i) \<in> (depends dag)\<^sup>+"
    using assms(2) fr by (auto simp: worklist_ok_def s)
  then have "set new \<subseteq> {j. (j, i) \<in> (depends dag)\<^sup>+}"
    using new(3) by (auto intro: trancl_into_trancl2)
  moreover have "x \<in> set (butlast fr @ new) \<or> {j. (j, x) \<in> depends dag} \<subseteq> F \<union> set new"
    if "x \<in> insert i (F \<union> set new)" for x
    using that assms(2) fr new(3) by (cases "x = last fr") (auto simp: worklist_ok_def s)
  ultimately show ?thesis
    using assms(2) fr unfolding worklist_ok_def s new(1) fst_conv snd_conv by auto
qed

lemma descend_decreases:
  assumes "indexed dag" "snd s \<noteq> []"
  shows "worklist_measure dag (descend dag s) < worklist_measure dag s"
proof -
  obtain F fr where s: "s = (F, fr)" by (cases s)
  obtain new where new: "descend dag (F, fr) = (F \<union> set new, butlast fr @ new)" "distinct new"
      "set new = {j. (j, last fr) \<in> depends dag} - F" using descend_step [OF assms(1)] by blast
  have "Domain (depends dag) - F = set new \<union> (Domain (depends dag) - (F \<union> set new))" using new(3) by auto
  moreover have "card (set new \<union> (Domain (depends dag) - (F \<union> set new))) = length new + card (Domain (depends dag) - (F \<union> set new))"
    using finite_Domain_depends [of dag] by (subst card_Un_disjoint) (auto simp: distinct_card [OF new(2)])
  ultimately have "card (Domain (depends dag) - F) = length new + card (Domain (depends dag) - (F \<union> set new))" by simp
  moreover have "length fr - Suc 0 < length fr" using assms(2) s by simp
  ultimately show ?thesis by (simp add: worklist_measure_def s new(1))
qed

lemma descendants_indexed:
  assumes "indexed dag"
  shows "descendants dag i = Some {j. (j, i) \<in> (depends dag)\<^sup>+}"
proof -
  have start: "worklist_ok dag i ({}, [i])" by (simp add: worklist_ok_def)
  obtain s where s: "while_option (\<lambda>s. snd s \<noteq> []) (descend dag) ({}, [i]) = Some s"
    using measure_while_option_Some [of "worklist_ok dag i" "\<lambda>s. snd s \<noteq> []" "descend dag" "worklist_measure dag", OF _ start]
      descend_ok [OF assms] descend_decreases [OF assms] by blast
  have ok: "worklist_ok dag i s"
    using while_option_rule [of "worklist_ok dag i", OF _ s start] descend_ok [OF assms] by blast
  have "snd s = []" using while_option_stop [OF s] by simp
  with ok have closed: "(j, x) \<in> depends dag \<Longrightarrow> x \<in> insert i (fst s) \<Longrightarrow> j \<in> fst s" for j x
    by (auto simp: worklist_ok_def)
  have "j \<in> fst s" if "(j, i) \<in> (depends dag)\<^sup>+" for j
    using that by (induction rule: converse_trancl_induct) (auto intro: closed)
  with ok have "fst s = {j. (j, i) \<in> (depends dag)\<^sup>+}" by (auto simp: worklist_ok_def)
  with s show ?thesis by (simp add: descendants_def)
qed

text \<open>The loop of \<open>descendants\<close> ends with exactly the tasks that depend on the given one, directly or through others.\<close>

lemma descendants_exact:
  assumes "goal_dag_new gid ts = Some (Ok dag)"
  shows "descendants dag i = Some {j. (j, i) \<in> (dependency_graph ts)\<^sup>+}
    \<and> (i, i) \<notin> (dependency_graph ts)\<^sup>+"
proof -
  have "acyclic (dependency_graph ts)" using assms by (auto simp: goal_dag_new_exact_eq split: if_splits)
  then show ?thesis using indexed_new [OF assms] descendants_indexed [of dag i] by (simp add: acyclic_def)
qed

definition sample_tasks :: "task_node list" where
  "sample_tasks =
    [\<lparr>tn_id = ''test'', tn_dependencies = [''build''], tn_evidence = [\<lparr>es_label = ''report'', es_kind = CommandSucceeded ''cargo test''\<rparr>]\<rparr>,
     \<lparr>tn_id = ''build'', tn_dependencies = [], tn_evidence = [\<lparr>es_label = ''bin'', es_kind = CommandSucceeded ''cargo build''\<rparr>]\<rparr>,
     \<lparr>tn_id = ''ship'', tn_dependencies = [''test'', ''build''], tn_evidence = []\<rparr>]"

definition sample_dag :: goal_dag where
  "sample_dag = \<lparr>dag_goal_id = ''goal'', dag_tasks = task_index sample_tasks\<rparr>"

lemma sample_dag_new: "goal_dag_new ''goal'' sample_tasks = Some (Ok sample_dag)"
  by code_simp

text \<open>The tasks that may start: exactly those whose dependencies are all completed, each once, in order.\<close>

lemma ready_tasks_exact:
  assumes "indexed dag"
  shows "sorted_wrt (<) (map tn_id (ready_tasks dag completed))
    \<and> set (ready_tasks dag completed) = {t. \<exists>i. bt_get (dag_tasks dag) i = Some t \<and> set (tn_dependencies t) \<subseteq> completed}"
proof -
  have ids: "map tn_id (map snd (dag_tasks dag)) = bt_keys (dag_tasks dag)"
    using assms by (auto simp: indexed_def bt_keys_def)
  have "distinct (map tn_id (map snd (dag_tasks dag)))"
    using assms unfolding ids by (simp add: indexed_def bt_inv_def bt_keys_def strict_sorted_iff)
  then have "distinct (map tn_id (ready_tasks dag completed))"
    unfolding ready_tasks_def distinct_map [of _ "sort_key _ _"] distinct_sort set_sort
    by (drule_tac distinct_map_filter) (simp only: distinct_map)
  moreover have "set (ready_tasks dag completed) = {t. \<exists>i. bt_get (dag_tasks dag) i = Some t \<and> set (tn_dependencies t) \<subseteq> completed}"
    using assms by (force simp: ready_tasks_def list_all_iff indexed_def dest: bt_get_mem bt_mem_get)
  ultimately show ?thesis by (simp add: strict_sorted_iff ready_tasks_def)
qed

end
