(* ===== verification/Orchestrator.thy ===== *)
theory Orchestrator
  imports GoalDag PolicyVocabulary
begin

text \<open>
  The orchestrator of a goal (\<open>crates/orchestrator/src/delegation.rs\<close>, \<open>judgment.rs\<close> and
  \<open>lib.rs\<close>): attenuated delegation, the judgment of reports, and the task states with retries,
  budget exhaustion and cancellation. SHA-256 is the parameter \<open>H\<close>. The rejection counter is a
  \<open>u32\<close>.
\<close>

section \<open>Delegation\<close>

datatype selector = SelExact string | SelPrefix string

definition falls_within :: "string \<Rightarrow> string \<Rightarrow> bool" where
  "falls_within child parent \<longleftrightarrow> child = parent \<or> starts_with child (parent @ ''/'')"

fun selector_within :: "selector \<Rightarrow> selector \<Rightarrow> bool" where
  "selector_within (SelExact child) (SelPrefix parent) = falls_within child parent"
| "selector_within (SelPrefix child) (SelPrefix parent) = falls_within child parent"
| "selector_within (SelExact child) (SelExact parent) = (child = parent)"
| "selector_within (SelPrefix _) (SelExact _) = False"

fun selector_covers :: "selector \<Rightarrow> string \<Rightarrow> bool" where
  "selector_covers (SelExact exact) resource = (exact = resource)"
| "selector_covers (SelPrefix parent) resource = falls_within resource parent"

record grant =
  gr_action :: action
  gr_selector :: selector

definition grant_within :: "grant \<Rightarrow> grant \<Rightarrow> bool" where
  "grant_within g parent \<longleftrightarrow> gr_action g = gr_action parent \<and> selector_within (gr_selector g) (gr_selector parent)"

definition grant_covers :: "grant \<Rightarrow> action \<Rightarrow> string \<Rightarrow> bool" where
  "grant_covers g a resource \<longleftrightarrow> gr_action g = a \<and> selector_covers (gr_selector g) resource"

datatype delegation_error = DelegationEscalation | DelegationMalformed

fun delegation_error_str :: "delegation_error \<Rightarrow> string" where
  "delegation_error_str DelegationEscalation = ''escalation''"
| "delegation_error_str DelegationMalformed = ''malformed''"

record delegation =
  dn_delegation_id :: string
  dn_task_id :: string
  dn_subagent_id :: string
  dn_grants :: "grant list"
  dn_budget_tokens :: u64
  dn_retries_remaining :: u32

definition MAX_RETRIES :: u32 where
  "MAX_RETRIES = 3"

definition delegate ::
    "(string \<Rightarrow> string) \<Rightarrow> grant list \<Rightarrow> string \<Rightarrow> string \<Rightarrow> grant list \<Rightarrow> u64 \<Rightarrow> u32 \<Rightarrow> delegation_error + delegation" where
  "delegate H parent_grants task_id subagent_id requested budget_tokens retries_remaining =
     (if task_id = [] \<or> subagent_id = [] \<or> budget_tokens = 0 then Err DelegationMalformed
      else if \<exists>g \<in> set requested. \<not> list_ex (grant_within g) parent_grants then Err DelegationEscalation
      else Ok \<lparr>dn_delegation_id = sha256_label H [''saber-delegation-v1'' @ [char_of (0 :: nat)], task_id, subagent_id],
               dn_task_id = task_id, dn_subagent_id = subagent_id, dn_grants = requested,
               dn_budget_tokens = budget_tokens, dn_retries_remaining = retries_remaining\<rparr>)"

section \<open>Judgment\<close>

datatype observation = ObsArtifact string | ObsCommand string "32 word"

record reported_evidence =
  re_label :: string
  re_observation :: observation

record subagent_report =
  sr_delegation_id :: string
  sr_subagent_id :: string
  sr_task_id :: string
  sr_evidence :: "reported_evidence list"

datatype rejection_reason = WrongDelegation | ForgedIdentity | MissingEvidence | UndeclaredEvidence | EvidenceMismatch | NotDelegated

fun rejection_str :: "rejection_reason \<Rightarrow> string" where
  "rejection_str WrongDelegation = ''wrong_delegation''"
| "rejection_str ForgedIdentity = ''forged_identity''"
| "rejection_str MissingEvidence = ''missing_evidence''"
| "rejection_str UndeclaredEvidence = ''undeclared_evidence''"
| "rejection_str EvidenceMismatch = ''evidence_mismatch''"
| "rejection_str NotDelegated = ''not_delegated''"

datatype report_judgment = Verified | Rejected rejection_reason

definition artifact_digest :: "(string \<Rightarrow> string) \<Rightarrow> string \<Rightarrow> string" where
  "artifact_digest H bytes = sha256_label H [''saber-orchestrator-artifact-v1'' @ [char_of (0 :: nat)], bytes]"

fun observation_verifies :: "(string \<Rightarrow> string) \<Rightarrow> evidence_kind \<Rightarrow> observation \<Rightarrow> bool" where
  "observation_verifies H (ArtifactDigest digest) (ObsArtifact bytes) = (artifact_digest H bytes = digest)"
| "observation_verifies H (CommandSucceeded argv) (ObsCommand reported exit_code) = (argv = reported \<and> exit_code = 0)"
| "observation_verifies H _ _ = False"

text \<open>The loop over the declared evidence; it collects the matched labels.\<close>

fun judge_specs ::
    "(string \<Rightarrow> string) \<Rightarrow> reported_evidence list \<Rightarrow> evidence_spec list \<Rightarrow> string set \<Rightarrow> rejection_reason + string set" where
  "judge_specs H items [] matched = Ok matched"
| "judge_specs H items (spec # specs) matched =
     (case find (\<lambda>item. re_label item = es_label spec) items of
        None \<Rightarrow> Err MissingEvidence
      | Some observed \<Rightarrow>
          (if \<not> observation_verifies H (es_kind spec) (re_observation observed) then Err EvidenceMismatch
           else judge_specs H items specs (insert (es_label spec) matched)))"

definition judge_report ::
    "(string \<Rightarrow> string) \<Rightarrow> subagent_report \<Rightarrow> string \<Rightarrow> string \<Rightarrow> evidence_spec list \<Rightarrow> report_judgment" where
  "judge_report H report expected_delegation_id expected_subagent_id declared =
     (if sr_delegation_id report \<noteq> expected_delegation_id then Rejected WrongDelegation
      else if sr_subagent_id report \<noteq> expected_subagent_id then Rejected ForgedIdentity
      else (case judge_specs H (sr_evidence report) declared {} of
              Err reason \<Rightarrow> Rejected reason
            | Ok matched \<Rightarrow>
                (if list_ex (\<lambda>item. re_label item \<notin> matched) (sr_evidence report) then Rejected UndeclaredEvidence
                 else Verified)))"

section \<open>The orchestrator\<close>

datatype orchestrator_error = OrNotReady | OrEscalation | OrTerminal | OrUnknownTask

fun orchestrator_error_str :: "orchestrator_error \<Rightarrow> string" where
  "orchestrator_error_str OrNotReady = ''not_ready''"
| "orchestrator_error_str OrEscalation = ''escalation''"
| "orchestrator_error_str OrTerminal = ''terminal''"
| "orchestrator_error_str OrUnknownTask = ''unknown_task''"

record goal_orchestrator =
  or_dag :: goal_dag
  or_parent_grants :: "grant list"
  or_states :: "(string, task_state) btree"
  or_delegations :: "(string, delegation) btree"
  or_completed :: "string set"
  or_cancelled :: "string set"
  or_rejected_counts :: "(string, u32) btree"
  or_exhausted :: "string set"

definition orchestrator_new :: "goal_dag \<Rightarrow> grant list \<Rightarrow> goal_orchestrator" where
  "orchestrator_new dag parent_grants =
     \<lparr>or_dag = dag, or_parent_grants = parent_grants,
      or_states = foldl (\<lambda>m i. bt_insert i TaskPending m) [] (task_ids dag),
      or_delegations = [], or_completed = {}, or_cancelled = {}, or_rejected_counts = [], or_exhausted = {}\<rparr>"

definition orchestrator_state :: "goal_orchestrator \<Rightarrow> string \<Rightarrow> task_state option" where
  "orchestrator_state s i = bt_get (or_states s) i"

definition ready_ids :: "goal_orchestrator \<Rightarrow> string list" where
  "ready_ids s =
     filter (\<lambda>i. bt_get (or_states s) i = Some TaskPending \<and> i \<notin> or_cancelled s)
       (map tn_id (ready_tasks (or_dag s) (or_completed s)))"

definition delegate_task ::
    "(string \<Rightarrow> string) \<Rightarrow> goal_orchestrator \<Rightarrow> string \<Rightarrow> string \<Rightarrow> grant list \<Rightarrow> u64
       \<Rightarrow> (orchestrator_error + delegation) \<times> goal_orchestrator" where
  "delegate_task H s i subagent_id requested budget_tokens =
     (case bt_get (or_states s) i of
        None \<Rightarrow> (Err OrUnknownTask, s)
      | Some state \<Rightarrow>
          (if state \<in> {TaskFailed, TaskCancelled} then (Err OrTerminal, s)
           else if i \<notin> set (ready_ids s) then (Err OrNotReady, s)
           else
             (let retries = (case bt_get (or_rejected_counts s) i of
                               None \<Rightarrow> MAX_RETRIES | Some used \<Rightarrow> sat_sub MAX_RETRIES used) in
              if retries = 0 \<or> i \<in> or_exhausted s
              then (Err OrTerminal, s\<lparr>or_states := bt_insert i TaskFailed (or_states s)\<rparr>)
              else (case delegate H (or_parent_grants s) i subagent_id requested budget_tokens retries of
                      Err DelegationEscalation \<Rightarrow> (Err OrEscalation, s)
                    | Err DelegationMalformed \<Rightarrow> (Err OrNotReady, s)
                    | Ok d \<Rightarrow>
                        (Ok d, s\<lparr>or_states := bt_insert i TaskDelegated (or_states s),
                                 or_delegations := bt_insert i d (or_delegations s)\<rparr>)))))"

definition submit_report ::
    "(string \<Rightarrow> string) \<Rightarrow> goal_orchestrator \<Rightarrow> subagent_report \<Rightarrow> (orchestrator_error + report_judgment) \<times> goal_orchestrator" where
  "submit_report H s report =
     (let i = sr_task_id report in
      case bt_get (or_delegations s) i of
        None \<Rightarrow> (Err OrNotReady, s)
      | Some d \<Rightarrow>
          (if bt_get (or_states s) i \<noteq> Some TaskDelegated then (Err OrNotReady, s)
           else
             (let declared = (case dag_task (or_dag s) i of None \<Rightarrow> [] | Some t \<Rightarrow> tn_evidence t) in
              case judge_report H report (dn_delegation_id d) (dn_subagent_id d) declared of
                Verified \<Rightarrow>
                  (Ok Verified, s\<lparr>or_states := bt_insert i TaskCompleted (or_states s),
                                  or_completed := insert i (or_completed s),
                                  or_delegations := bt_remove i (or_delegations s)\<rparr>)
              | Rejected reason \<Rightarrow>
                  (let used = (case bt_get (or_rejected_counts s) i of None \<Rightarrow> 0 | Some n \<Rightarrow> n) + 1;
                       counts = bt_insert i used (or_rejected_counts s) in
                   if MAX_RETRIES \<le> used
                   then (Err OrTerminal, s\<lparr>or_rejected_counts := counts,
                                           or_states := bt_insert i TaskFailed (or_states s),
                                           or_delegations := bt_remove i (or_delegations s)\<rparr>)
                   else (Ok (Rejected reason), s\<lparr>or_rejected_counts := counts,
                                                 or_delegations := bt_remove i (or_delegations s),
                                                 or_states := bt_insert i TaskPending (or_states s)\<rparr>)))))"

definition exhaust_budget :: "goal_orchestrator \<Rightarrow> string \<Rightarrow> goal_orchestrator" where
  "exhaust_budget s i =
     (if bt_get (or_states s) i \<noteq> None
      then s\<lparr>or_exhausted := insert i (or_exhausted s),
             or_states := bt_insert i TaskFailed (or_states s),
             or_delegations := bt_remove i (or_delegations s)\<rparr>
      else s)"

definition cancel_one :: "goal_orchestrator \<Rightarrow> string \<Rightarrow> goal_orchestrator" where
  "cancel_one s i =
     (if bt_get (or_states s) i \<noteq> None
      then s\<lparr>or_states := bt_insert i TaskCancelled (or_states s),
             or_cancelled := insert i (or_cancelled s),
             or_delegations := bt_remove i (or_delegations s)\<rparr>
      else s)"

definition cancel_task :: "goal_orchestrator \<Rightarrow> string \<Rightarrow> (string set \<times> goal_orchestrator) option" where
  "cancel_task s i =
     map_option (\<lambda>found. (insert i found, foldl cancel_one s (sorted_list_of_set (insert i found))))
       (descendants (or_dag s) i)"

datatype or_op =
    OpDelegate string string "grant list" u64
  | OpReport subagent_report
  | OpExhaust string
  | OpCancel string

fun or_step :: "(string \<Rightarrow> string) \<Rightarrow> goal_orchestrator \<Rightarrow> or_op \<Rightarrow> goal_orchestrator" where
  "or_step H s (OpDelegate i subagent requested budget) = snd (delegate_task H s i subagent requested budget)"
| "or_step H s (OpReport report) = snd (submit_report H s report)"
| "or_step H s (OpExhaust i) = exhaust_budget s i"
| "or_step H s (OpCancel i) = (case cancel_task s i of None \<Rightarrow> s | Some (_, s') \<Rightarrow> s')"

section \<open>Attenuation and judgment\<close>

lemma falls_within_trans: "falls_within c b \<Longrightarrow> falls_within b a \<Longrightarrow> falls_within c a"
  by (auto simp: falls_within_def starts_with_def prefix_def)

lemma grant_within_covers: "grant_within g p \<Longrightarrow> grant_covers g a r \<Longrightarrow> grant_covers p a r"
  by (cases "gr_selector g"; cases "gr_selector p")
    (auto simp: grant_within_def grant_covers_def intro: falls_within_trans)

text \<open>An attenuated delegation: whatever its grants cover, a grant of the parent covers.\<close>

definition attenuated :: "grant list \<Rightarrow> delegation \<Rightarrow> bool" where
  "attenuated parents d \<longleftrightarrow> (\<forall>a resource. list_ex (\<lambda>g. grant_covers g a resource) (dn_grants d)
      \<longrightarrow> list_ex (\<lambda>g. grant_covers g a resource) parents)"

lemma delegate_Ok:
  assumes "delegate H parents i subagent requested budget retries = Ok d"
  shows "attenuated parents d \<and> dn_task_id d = i \<and> dn_subagent_id d = subagent \<and> dn_retries_remaining d = retries"
proof -
  have "\<forall>g \<in> set requested. \<exists>p \<in> set parents. grant_within g p" "d = d\<lparr>dn_grants := requested, dn_task_id := i, dn_subagent_id := subagent, dn_retries_remaining := retries\<rparr>"
    using assms by (auto simp: delegate_def list_ex_iff split: if_splits)
  moreover from this(2) have "dn_grants d = requested" "dn_task_id d = i" "dn_subagent_id d = subagent" "dn_retries_remaining d = retries"
    by (cases d; simp)+
  ultimately show ?thesis by (auto simp: attenuated_def list_ex_iff dest: grant_within_covers)
qed

text \<open>What a verified report shows: its identities, an item for every declared label, nothing undeclared.\<close>

definition evidence_complete :: "(string \<Rightarrow> string) \<Rightarrow> evidence_spec list \<Rightarrow> reported_evidence list \<Rightarrow> bool" where
  "evidence_complete H declared items \<longleftrightarrow>
     (\<forall>spec \<in> set declared. \<exists>item \<in> set items. re_label item = es_label spec \<and> observation_verifies H (es_kind spec) (re_observation item))
     \<and> re_label ` set items \<subseteq> es_label ` set declared"

lemma judge_specs_Ok:
  "judge_specs H items specs matched = Ok m \<Longrightarrow> m = matched \<union> es_label ` set specs
     \<and> (\<forall>spec \<in> set specs. \<exists>item \<in> set items. re_label item = es_label spec \<and> observation_verifies H (es_kind spec) (re_observation item))"
proof (induction specs arbitrary: matched)
  case (Cons spec specs)
  then obtain observed where o: "find (\<lambda>item. re_label item = es_label spec) items = Some observed"
      "observation_verifies H (es_kind spec) (re_observation observed)"
      "judge_specs H items specs (insert (es_label spec) matched) = Ok m"
    by (auto split: option.splits if_splits)
  then have "observed \<in> set items \<and> re_label observed = es_label spec" by (auto simp: find_Some_iff)
  with o(2) Cons.IH [OF o(3)] show ?case by auto
qed simp

lemma judge_Verified:
  assumes "judge_report H report did sub declared = Verified"
  shows "sr_delegation_id report = did \<and> sr_subagent_id report = sub \<and> evidence_complete H declared (sr_evidence report)"
proof -
  obtain m where m: "judge_specs H (sr_evidence report) declared {} = Ok m" "\<not> list_ex (\<lambda>item. re_label item \<notin> m) (sr_evidence report)"
    and ids: "sr_delegation_id report = did" "sr_subagent_id report = sub"
    using assms by (auto simp: judge_report_def split: if_splits sum.splits)
  from m(2) judge_specs_Ok [OF m(1)] ids show ?thesis by (auto simp: evidence_complete_def list_ex_iff)
qed

section \<open>Invariants\<close>

definition rejections :: "goal_orchestrator \<Rightarrow> string \<Rightarrow> nat" where
  "rejections s i = (case bt_get (or_rejected_counts s) i of None \<Rightarrow> 0 | Some n \<Rightarrow> unat n)"

definition or_ok :: "goal_dag \<Rightarrow> grant list \<Rightarrow> goal_orchestrator \<Rightarrow> bool" where
  "or_ok dag gs s \<longleftrightarrow> or_dag s = dag \<and> or_parent_grants s = gs \<and> dom (bt_get (or_states s)) = dom (bt_get (dag_tasks dag))
     \<and> (\<forall>i. bt_get (or_states s) i = Some TaskDelegated \<longrightarrow>
          (\<exists>d t. bt_get (or_delegations s) i = Some d \<and> attenuated gs d \<and> dn_task_id d = i
             \<and> bt_get (dag_tasks dag) i = Some t \<and> set (tn_dependencies t) \<subseteq> or_completed s))
     \<and> (\<forall>i d. bt_get (or_delegations s) i = Some d \<longrightarrow> bt_get (or_states s) i = Some TaskDelegated)
     \<and> (\<forall>i. i \<in> or_cancelled s \<longrightarrow> bt_get (or_states s) i \<in> {Some TaskCancelled, Some TaskFailed})"

lemma ready_ids_mem:
  assumes "indexed (or_dag s)" "i \<in> set (ready_ids s)"
  shows "bt_get (or_states s) i = Some TaskPending \<and> i \<notin> or_cancelled s
    \<and> (\<exists>t. bt_get (dag_tasks (or_dag s)) i = Some t \<and> set (tn_dependencies t) \<subseteq> or_completed s)"
proof -
  obtain t where t: "t \<in> set (ready_tasks (or_dag s) (or_completed s))" "tn_id t = i"
      "bt_get (or_states s) i = Some TaskPending" "i \<notin> or_cancelled s"
    using assms(2) by (auto simp: ready_ids_def)
  moreover from this ready_tasks_exact [OF assms(1), of "or_completed s"] obtain j where
      "bt_get (dag_tasks (or_dag s)) j = Some t" "set (tn_dependencies t) \<subseteq> or_completed s" by auto
  moreover from this have "tn_id t = j" using assms(1) by (auto simp: indexed_def dest: bt_get_mem)
  ultimately show ?thesis by auto
qed

text \<open>The three outcomes of a delegation request.\<close>

lemma delegate_task_cases:
  obtains (same) e where "delegate_task H s i sub req budget = (Err e, s)"
  | (failed) "delegate_task H s i sub req budget = (Err OrTerminal, s\<lparr>or_states := bt_insert i TaskFailed (or_states s)\<rparr>)"
      "i \<in> set (ready_ids s)"
  | (delegated) d retries where "delegate_task H s i sub req budget =
        (Ok d, s\<lparr>or_states := bt_insert i TaskDelegated (or_states s), or_delegations := bt_insert i d (or_delegations s)\<rparr>)"
      "i \<in> set (ready_ids s)" "delegate H (or_parent_grants s) i sub req budget retries = Ok d"
      "unat retries = 3 - rejections s i" "retries \<noteq> 0"
proof (cases "bt_get (or_states s) i")
  case (Some state)
  define retries where "retries = (case bt_get (or_rejected_counts s) i of None \<Rightarrow> MAX_RETRIES | Some used \<Rightarrow> sat_sub MAX_RETRIES used)"
  have unat: "unat retries = 3 - rejections s i"
    by (auto simp: retries_def rejections_def unat_sat_sub MAX_RETRIES_def split: option.splits)
  show ?thesis
  proof (cases "state \<in> {TaskFailed, TaskCancelled} \<or> i \<notin> set (ready_ids s)")
    case True
    with Some show ?thesis
      by (cases "state \<in> {TaskFailed, TaskCancelled}") (auto intro!: same simp: delegate_task_def)
  next
    case False
    show ?thesis
    proof (cases "retries = 0 \<or> i \<in> or_exhausted s")
      case True
      with Some False show ?thesis by (intro failed) (auto simp: delegate_task_def retries_def)
    next
      case go: False
      show ?thesis
      proof (cases "delegate H (or_parent_grants s) i sub req budget retries")
        case (Inl e)
        with Some False go show ?thesis
          by (cases e) (auto intro!: same simp: delegate_task_def retries_def [symmetric])
      next
        case (Inr d)
        with Some False go unat show ?thesis
          by (intro delegated [of d retries]) (auto simp: delegate_task_def retries_def [symmetric])
      qed
    qed
  qed
qed (auto intro!: same simp: delegate_task_def)

text \<open>The outcomes of a report.\<close>

lemma submit_report_cases:
  obtains (same) e where "submit_report H s r = (Err e, s)"
  | (verified) d where "bt_get (or_delegations s) (sr_task_id r) = Some d" "bt_get (or_states s) (sr_task_id r) = Some TaskDelegated"
      "judge_report H r (dn_delegation_id d) (dn_subagent_id d)
         (case dag_task (or_dag s) (sr_task_id r) of None \<Rightarrow> [] | Some t \<Rightarrow> tn_evidence t) = Verified"
      "submit_report H s r = (Ok Verified, s\<lparr>or_states := bt_insert (sr_task_id r) TaskCompleted (or_states s),
         or_completed := insert (sr_task_id r) (or_completed s), or_delegations := bt_remove (sr_task_id r) (or_delegations s)\<rparr>)"
  | (rejected) used where "bt_get (or_states s) (sr_task_id r) = Some TaskDelegated"
      "used = (case bt_get (or_rejected_counts s) (sr_task_id r) of None \<Rightarrow> 0 | Some n \<Rightarrow> n) + 1"
      "snd (submit_report H s r) = s\<lparr>or_rejected_counts := bt_insert (sr_task_id r) used (or_rejected_counts s),
         or_states := bt_insert (sr_task_id r) (if MAX_RETRIES \<le> used then TaskFailed else TaskPending) (or_states s),
         or_delegations := bt_remove (sr_task_id r) (or_delegations s)\<rparr>"
proof (cases "bt_get (or_delegations s) (sr_task_id r)")
  case None
  then show ?thesis by (auto intro!: same simp: submit_report_def)
next
  case (Some d)
  show ?thesis
  proof (cases "bt_get (or_states s) (sr_task_id r) = Some TaskDelegated")
    case False
    with Some show ?thesis by (auto intro!: same simp: submit_report_def)
  next
    case True
    show ?thesis
    proof (cases "judge_report H r (dn_delegation_id d) (dn_subagent_id d)
         (case dag_task (or_dag s) (sr_task_id r) of None \<Rightarrow> [] | Some t \<Rightarrow> tn_evidence t)")
      case Verified
      with Some True show ?thesis by (intro verified [of d]) (auto simp: submit_report_def Let_def)
    next
      case (Rejected reason)
      with Some True show ?thesis
        by (intro rejected [OF True refl]) (simp add: submit_report_def Let_def)
    qed
  qed
qed

text \<open>Cancelling a set of tasks.\<close>

lemma cancel_each:
  "let s' = foldl cancel_one s ids in
     or_dag s' = or_dag s \<and> or_parent_grants s' = or_parent_grants s \<and> or_completed s' = or_completed s
     \<and> or_rejected_counts s' = or_rejected_counts s \<and> or_exhausted s' = or_exhausted s
     \<and> bt_get (or_states s') = (\<lambda>i. if i \<in> set ids \<and> bt_get (or_states s) i \<noteq> None then Some TaskCancelled else bt_get (or_states s) i)
     \<and> bt_get (or_delegations s') = (\<lambda>i. if i \<in> set ids \<and> bt_get (or_states s) i \<noteq> None then None else bt_get (or_delegations s) i)
     \<and> or_cancelled s' = or_cancelled s \<union> {i \<in> set ids. bt_get (or_states s) i \<noteq> None}"
proof (induction ids arbitrary: s)
  case (Cons i ids)
  from Cons.IH [of "cancel_one s i"] show ?case
    by (auto simp: Let_def cancel_one_def store_simps fun_eq_iff)
qed simp

lemma cancel_task_Some:
  assumes "indexed (or_dag s)"
  shows "cancel_task s i = Some (insert i {j. (j, i) \<in> (depends (or_dag s))\<^sup>+},
    foldl cancel_one s (sorted_list_of_set (insert i {j. (j, i) \<in> (depends (or_dag s))\<^sup>+})))
    \<and> set (sorted_list_of_set (insert i {j. (j, i) \<in> (depends (or_dag s))\<^sup>+})) = insert i {j. (j, i) \<in> (depends (or_dag s))\<^sup>+}"
proof -
  have "{j. (j, i) \<in> (depends (or_dag s))\<^sup>+} \<subseteq> Domain (depends (or_dag s))"
    by (auto dest: tranclD)
  then have "finite {j. (j, i) \<in> (depends (or_dag s))\<^sup>+}"
    using finite_Domain_depends finite_subset by blast
  then have "finite (insert i {j. (j, i) \<in> (depends (or_dag s))\<^sup>+})" by simp
  from set_sorted_list_of_set [OF this] show ?thesis
    unfolding cancel_task_def descendants_indexed [OF assms] by simp
qed

text \<open>Every operation keeps the invariant, never un-completes a task for its dependents and never gives a cancelled task back.\<close>

lemma or_step_ok:
  assumes dag: "indexed dag" and ok: "or_ok dag gs s"
  shows "or_ok dag gs (or_step H s x) \<and> or_completed s \<subseteq> or_completed (or_step H s x)
    \<and> or_cancelled s \<subseteq> or_cancelled (or_step H s x)"
proof (cases x)
  case (OpDelegate i sub req budget)
  have ready: "i \<in> set (ready_ids s) \<Longrightarrow> bt_get (or_states s) i = Some TaskPending \<and> i \<notin> or_cancelled s
    \<and> (\<exists>t. bt_get (dag_tasks dag) i = Some t \<and> set (tn_dependencies t) \<subseteq> or_completed s)"
    using ready_ids_mem [of s i] ok dag by (simp add: or_ok_def)
  show ?thesis
  proof (cases rule: delegate_task_cases [of H s i sub req budget])
    case (same e)
    with OpDelegate ok show ?thesis by simp
  next
    case failed
    with OpDelegate ok ready show ?thesis by (auto simp: or_ok_def store_simps)
  next
    case (delegated d retries)
    with ok have "attenuated gs d \<and> dn_task_id d = i" by (auto simp: or_ok_def dest: delegate_Ok)
    with delegated OpDelegate ok ready show ?thesis by (auto simp: or_ok_def store_simps)
  qed
next
  case (OpReport r)
  show ?thesis
  proof (cases rule: submit_report_cases [of H s r])
    case (same e)
    with OpReport ok show ?thesis by simp
  next
    case (verified d)
    with OpReport ok show ?thesis by (fastforce simp: or_ok_def store_simps)
  next
    case (rejected used)
    with OpReport ok show ?thesis by (auto simp: or_ok_def store_simps)
  qed
next
  case (OpExhaust i)
  with ok show ?thesis by (auto simp: exhaust_budget_def or_ok_def store_simps)
next
  case (OpCancel i)
  define ids where "ids = sorted_list_of_set (insert i {j. (j, i) \<in> (depends (or_dag s))\<^sup>+})"
  have "or_step H s x = foldl cancel_one s ids"
    using cancel_task_Some [of s i] ok dag OpCancel by (simp add: or_ok_def ids_def)
  then show ?thesis
    using cancel_each [of s ids] ok by (auto simp: Let_def or_ok_def dom_def) 
qed

lemma or_new_ok: "or_ok dag gs (orchestrator_new dag gs)"
proof -
  have "bt_get (foldl (\<lambda>m i. bt_insert i TaskPending m) m ids) = (\<lambda>i. if i \<in> set ids then Some TaskPending else bt_get m i)" for ids :: "string list" and m
    by (induction ids arbitrary: m) (auto simp: store_simps fun_eq_iff)
  then have "bt_get (or_states (orchestrator_new dag gs)) = (\<lambda>i. if i \<in> dom (bt_get (dag_tasks dag)) then Some TaskPending else None)"
    by (simp add: orchestrator_new_def task_ids_def bt_keys_def dom_bt_get fun_eq_iff)
  then show ?thesis by (auto simp: or_ok_def orchestrator_new_def dom_def split: if_splits)
qed

lemma or_ok_cancelled:
  assumes "or_ok dag gs s" "i \<in> or_cancelled s"
  shows "orchestrator_state s i \<in> {Some TaskCancelled, Some TaskFailed} \<and> bt_get (or_delegations s) i = None"
proof -
  from assms have "bt_get (or_states s) i \<in> {Some TaskCancelled, Some TaskFailed}"
    "bt_get (or_delegations s) i = Some d \<Longrightarrow> bt_get (or_states s) i = Some TaskDelegated" for d
    by (simp_all add: or_ok_def)
  then show ?thesis by (cases "bt_get (or_delegations s) i") (auto simp: orchestrator_state_def)
qed

interpretation orchestrator: stepper "or_step H" "\<lambda>s. indexed dag \<and> or_ok dag gs s"
  by unfold_locales (use or_step_ok in blast)

interpretation cancelled_tasks: permanent_marks "or_step H" "\<lambda>s i. \<exists>dag gs. indexed dag \<and> or_ok dag gs s \<and> i \<in> or_cancelled s"
  by unfold_locales (use or_step_ok in blast)

lemma or_run_ok: "indexed dag \<Longrightarrow> or_ok dag gs (foldl (or_step H) (orchestrator_new dag gs) ops)"
  using orchestrator.run_inv or_new_ok by blast

text \<open>A task is completed only by a report in the history that shows its whole declared evidence.\<close>

lemma completed_step:
  assumes "j \<in> or_completed (or_step H s x)" "j \<notin> or_completed s" "indexed (or_dag s)"
  shows "\<exists>r d. x = OpReport r \<and> sr_task_id r = j \<and> bt_get (or_delegations s) j = Some d
    \<and> sr_delegation_id r = dn_delegation_id d \<and> sr_subagent_id r = dn_subagent_id d
    \<and> evidence_complete H (case dag_task (or_dag s) j of None \<Rightarrow> [] | Some t \<Rightarrow> tn_evidence t) (sr_evidence r)"
proof (cases x)
  case (OpDelegate i sub req budget)
  with assms show ?thesis by (cases rule: delegate_task_cases [of H s i sub req budget]) auto
next
  case (OpReport r)
  with assms show ?thesis
    by (cases rule: submit_report_cases [of H s r]) (auto dest: judge_Verified)
next
  case (OpExhaust i)
  with assms show ?thesis by (auto simp: exhaust_budget_def split: if_splits)
next
  case (OpCancel i)
  with assms cancel_task_Some [of s i] cancel_each show ?thesis by (auto simp: Let_def)
qed

lemma completed_by_evidence:
  assumes "indexed dag"
  shows "j \<in> or_completed (foldl (or_step H) (orchestrator_new dag gs) ops) \<Longrightarrow>
    \<exists>r. OpReport r \<in> set ops \<and> sr_task_id r = j
      \<and> evidence_complete H (case dag_task dag j of None \<Rightarrow> [] | Some t \<Rightarrow> tn_evidence t) (sr_evidence r)"
proof (induction ops rule: rev_induct)
  case Nil
  then show ?case by (simp add: orchestrator_new_def)
next
  case (snoc x ops)
  let ?s = "foldl (or_step H) (orchestrator_new dag gs) ops"
  have "or_dag ?s = dag" using or_run_ok [OF assms] by (simp add: or_ok_def)
  then show ?case
    using snoc completed_step [of j H ?s x] assms by (cases "j \<in> or_completed ?s") auto
qed

section \<open>Properties\<close>

text \<open>
  C31: In every state the orchestrator reaches on a constructed graph, a delegated task has a live
  delegation for it whose grants cover nothing that the parent's grants do not cover, and every
  task it depends on was completed by a report of the history that shows exactly the evidence that
  task declares: each declared label with a matching digest or a successful command, and no other.
\<close>

theorem delegated_within_authority_and_order:
  assumes "goal_dag_new gid ts = Some (Ok dag)"
    and "orchestrator_state (foldl (or_step H) (orchestrator_new dag gs) ops) i = Some TaskDelegated"
  shows "\<exists>d t. bt_get (or_delegations (foldl (or_step H) (orchestrator_new dag gs) ops)) i = Some d
      \<and> dn_task_id d = i \<and> attenuated gs d \<and> dag_task dag i = Some t
      \<and> (\<forall>j \<in> set (tn_dependencies t). \<exists>r u. OpReport r \<in> set ops \<and> sr_task_id r = j
           \<and> dag_task dag j = Some u \<and> evidence_complete H (tn_evidence u) (sr_evidence r))"
proof -
  let ?s = "foldl (or_step H) (orchestrator_new dag gs) ops"
  have dag: "indexed dag" using indexed_new [OF assms(1)] by simp
  from or_run_ok [OF dag, of gs H ops] assms(2) obtain d t where
    d: "bt_get (or_delegations ?s) i = Some d" "attenuated gs d" "dn_task_id d = i"
      "bt_get (dag_tasks dag) i = Some t" "set (tn_dependencies t) \<subseteq> or_completed ?s"
    unfolding or_ok_def orchestrator_state_def by blast
  have "\<exists>r u. OpReport r \<in> set ops \<and> sr_task_id r = j \<and> dag_task dag j = Some u \<and> evidence_complete H (tn_evidence u) (sr_evidence r)"
    if j: "j \<in> set (tn_dependencies t)" for j
  proof -
    obtain u where u: "dag_task dag j = Some u" using known_dependencies [OF assms(1) d(4) j] by (auto simp: dag_task_def)
    with completed_by_evidence [OF dag, of j H gs ops] d(5) j show ?thesis by auto
  qed
  with d show ?thesis by (auto simp: dag_task_def)
qed

definition sample_grants :: "grant list" where
  "sample_grants = [\<lparr>gr_action = FsRead, gr_selector = SelPrefix ''workspace://ws_01/repo''\<rparr>]"

definition sample_run :: "or_op list" where
  "sample_run =
    [OpDelegate ''build'' ''sub_b'' [\<lparr>gr_action = FsRead, gr_selector = SelExact ''workspace://ws_01/repo/src''\<rparr>] 1000,
     OpReport \<lparr>sr_delegation_id = sha256_label (\<lambda>s. s) [''saber-delegation-v1'' @ [char_of (0 :: nat)], ''build'', ''sub_b''],
       sr_subagent_id = ''sub_b'', sr_task_id = ''build'',
       sr_evidence = [\<lparr>re_label = ''bin'', re_observation = ObsCommand ''cargo build'' 0\<rparr>]\<rparr>,
     OpDelegate ''test'' ''sub_t'' sample_grants 1000]"

lemma sample_run_delegates:
  "orchestrator_state (foldl (or_step (\<lambda>s. s)) (orchestrator_new sample_dag sample_grants) sample_run) ''test'' = Some TaskDelegated"
  by code_simp

theorem delegated_within_authority_and_order_witness:
  "\<exists>d t. bt_get (or_delegations (foldl (or_step (\<lambda>s. s)) (orchestrator_new sample_dag sample_grants) sample_run)) ''test'' = Some d
      \<and> dn_task_id d = ''test'' \<and> attenuated sample_grants d \<and> dag_task sample_dag ''test'' = Some t
      \<and> (\<forall>j \<in> set (tn_dependencies t). \<exists>r u. OpReport r \<in> set sample_run \<and> sr_task_id r = j
           \<and> dag_task sample_dag j = Some u \<and> evidence_complete (\<lambda>s. s) (tn_evidence u) (sr_evidence r))"
  by (rule delegated_within_authority_and_order [OF sample_dag_new sample_run_delegates])

text \<open>
  C32: Cancelling a task always returns, and it hits exactly the task and all tasks that depend on it,
  directly or not: these are the identifiers returned, each of them that the graph has is cancelled at once,
  and for every other task the state and the delegation are what they were, as are the completed tasks, the
  rejection counts, the exhausted tasks and the grants. It is final: whatever happens later, none of the
  tasks it hit is pending, delegated or completed again, and none has a delegation.
\<close>

theorem cancellation_exact_and_final:
  assumes "goal_dag_new gid ts = Some (Ok dag)"
  shows "\<exists>s. cancel_task (foldl (or_step H) (orchestrator_new dag gs) ops) i
        = Some (insert i {j. (j, i) \<in> (dependency_graph ts)\<^sup>+}, s)
      \<and> (\<forall>j. j \<in> insert i {j. (j, i) \<in> (dependency_graph ts)\<^sup>+} \<longrightarrow> dag_task dag j \<noteq> None \<longrightarrow>
           orchestrator_state s j = Some TaskCancelled)
      \<and> (\<forall>j. j \<notin> insert i {j. (j, i) \<in> (dependency_graph ts)\<^sup>+} \<longrightarrow>
           orchestrator_state s j = orchestrator_state (foldl (or_step H) (orchestrator_new dag gs) ops) j
         \<and> bt_get (or_delegations s) j = bt_get (or_delegations (foldl (or_step H) (orchestrator_new dag gs) ops)) j)
      \<and> or_completed s = or_completed (foldl (or_step H) (orchestrator_new dag gs) ops)
      \<and> or_rejected_counts s = or_rejected_counts (foldl (or_step H) (orchestrator_new dag gs) ops)
      \<and> or_exhausted s = or_exhausted (foldl (or_step H) (orchestrator_new dag gs) ops)
      \<and> or_parent_grants s = gs \<and> or_dag s = dag
      \<and> or_cancelled s - or_cancelled (foldl (or_step H) (orchestrator_new dag gs) ops)
          \<subseteq> insert i {j. (j, i) \<in> (dependency_graph ts)\<^sup>+}
      \<and> (\<forall>later j. j \<in> insert i {j. (j, i) \<in> (dependency_graph ts)\<^sup>+} \<longrightarrow> dag_task dag j \<noteq> None \<longrightarrow>
           orchestrator_state (foldl (or_step H) s later) j \<in> {Some TaskCancelled, Some TaskFailed}
           \<and> bt_get (or_delegations (foldl (or_step H) s later)) j = None)"
proof -
  let ?s = "foldl (or_step H) (orchestrator_new dag gs) ops"
  let ?radius = "insert i {j. (j, i) \<in> (dependency_graph ts)\<^sup>+}"
  have dag: "indexed dag" "depends dag = dependency_graph ts" using indexed_new [OF assms] by auto
  have ok: "or_ok dag gs ?s" by (rule or_run_ok [OF dag(1)])
  then have same: "or_dag ?s = dag" by (simp add: or_ok_def)
  define s where "s = foldl cancel_one ?s (sorted_list_of_set ?radius)"
  have cancel: "cancel_task ?s i = Some (?radius, s)" "set (sorted_list_of_set ?radius) = ?radius"
    using cancel_task_Some [of ?s i] dag same by (simp_all add: s_def)
  have "or_ok dag gs s" using or_step_ok [OF dag(1) ok, of H "OpCancel i"] cancel by simp
  moreover have "j \<in> or_cancelled s" if "j \<in> ?radius" "dag_task dag j \<noteq> None" for j
    using cancel_each [of ?s "sorted_list_of_set ?radius"] cancel(2) that ok
    by (auto simp: Let_def s_def or_ok_def dag_task_def dom_def)
  ultimately have runs: "or_ok dag gs (foldl (or_step H) s later) \<and> j \<in> or_cancelled (foldl (or_step H) s later)"
    if "j \<in> ?radius" "dag_task dag j \<noteq> None" for j later
    using that orchestrator.run_inv [of dag gs s H later] cancelled_tasks.run_mark_stays [of s j H later] dag(1) by blast
  have final: "orchestrator_state (foldl (or_step H) s later) j \<in> {Some TaskCancelled, Some TaskFailed}
      \<and> bt_get (or_delegations (foldl (or_step H) s later)) j = None"
    if "j \<in> ?radius" "dag_task dag j \<noteq> None" for j later
    using runs [OF that, of later] by (intro or_ok_cancelled [of dag gs]) simp_all
  note each = cancel_each [of ?s "sorted_list_of_set ?radius", unfolded Let_def cancel(2), folded s_def]
  have known: "bt_get (or_states ?s) j \<noteq> None" if "dag_task dag j \<noteq> None" for j
    using ok that by (auto simp: or_ok_def dag_task_def dom_def)
  show ?thesis
  proof (intro exI [of _ s] conjI allI impI)
    show "cancel_task ?s i = Some (?radius, s)" by (rule cancel(1))
    show "orchestrator_state s j = Some TaskCancelled" if "j \<in> ?radius" "dag_task dag j \<noteq> None" for j
      using each that(1) known [OF that(2)] by (simp add: orchestrator_state_def)
    show "orchestrator_state s j = orchestrator_state ?s j" "bt_get (or_delegations s) j = bt_get (or_delegations ?s) j"
      if "j \<notin> ?radius" for j
      using each that by (simp_all add: orchestrator_state_def)
    show "or_completed s = or_completed ?s" "or_rejected_counts s = or_rejected_counts ?s" "or_exhausted s = or_exhausted ?s"
      "or_parent_grants s = gs" "or_dag s = dag"
      using each ok by (simp_all add: or_ok_def)
    show "or_cancelled s - or_cancelled ?s \<subseteq> ?radius" using each by blast
    fix later j
    assume "j \<in> ?radius" "dag_task dag j \<noteq> None"
    from final [OF this]
    show "orchestrator_state (foldl (or_step H) s later) j \<in> {Some TaskCancelled, Some TaskFailed}"
      "bt_get (or_delegations (foldl (or_step H) s later)) j = None" by simp_all
  qed
qed

theorem cancellation_exact_and_final_witness:
  "\<exists>s. cancel_task (foldl (or_step (\<lambda>s. s)) (orchestrator_new sample_dag sample_grants) sample_run) ''build''
        = Some (insert ''build'' {j. (j, ''build'') \<in> (dependency_graph sample_tasks)\<^sup>+}, s)
      \<and> orchestrator_state s ''build'' = Some TaskCancelled
      \<and> or_completed s = or_completed (foldl (or_step (\<lambda>s. s)) (orchestrator_new sample_dag sample_grants) sample_run)
      \<and> (\<forall>j. j \<notin> insert ''build'' {j. (j, ''build'') \<in> (dependency_graph sample_tasks)\<^sup>+} \<longrightarrow>
           orchestrator_state s j = orchestrator_state (foldl (or_step (\<lambda>s. s)) (orchestrator_new sample_dag sample_grants) sample_run) j)
      \<and> (\<forall>later j. j \<in> insert ''build'' {j. (j, ''build'') \<in> (dependency_graph sample_tasks)\<^sup>+} \<longrightarrow> dag_task sample_dag j \<noteq> None \<longrightarrow>
           orchestrator_state (foldl (or_step (\<lambda>s. s)) s later) j \<in> {Some TaskCancelled, Some TaskFailed}
           \<and> bt_get (or_delegations (foldl (or_step (\<lambda>s. s)) s later)) j = None)"
proof -
  have known: "dag_task sample_dag ''build'' \<noteq> None" by code_simp
  have parts: "\<exists>s. cancel s \<and> hit s i \<and> compl s \<and> frame s \<and> final s"
    if "\<exists>s. cancel s \<and> (\<forall>j. j \<in> insert i D \<longrightarrow> known j \<longrightarrow> hit s j) \<and> (\<forall>j. j \<notin> insert i D \<longrightarrow> fr s j \<and> del s j)
         \<and> compl s \<and> counts s \<and> exh s \<and> par s \<and> dag s \<and> can s \<and> final s" "known i"
      "\<And>s. (\<forall>j. j \<notin> insert i D \<longrightarrow> fr s j) \<Longrightarrow> frame s" for cancel hit compl frame final fr del counts exh par dag can known D and i :: string
    using that by blast
  show ?thesis
    by (rule parts [OF cancellation_exact_and_final [OF sample_dag_new] known]) assumption
qed

text \<open>The delegations granted for one task in the course of a run.\<close>

fun delegations_granted :: "(string \<Rightarrow> string) \<Rightarrow> goal_orchestrator \<Rightarrow> or_op list \<Rightarrow> string \<Rightarrow> nat" where
  "delegations_granted H s [] i = 0"
| "delegations_granted H s (x # xs) i =
     (case x of
        OpDelegate j subagent requested budget \<Rightarrow>
          if j = i \<and> \<not> isl (fst (delegate_task H s j subagent requested budget)) then 1 else 0
      | _ \<Rightarrow> 0) + delegations_granted H (or_step H s x) xs i"

text \<open>What is left of the limit: one attempt per rejection still possible, less the one in flight.\<close>

fun attempts_for :: "task_state option \<Rightarrow> nat \<Rightarrow> nat" where
  "attempts_for (Some TaskPending) n = 3 - n"
| "attempts_for (Some TaskDelegated) n = 2 - n"
| "attempts_for _ n = 0"

definition attempts_left :: "goal_orchestrator \<Rightarrow> string \<Rightarrow> nat" where
  "attempts_left s i = attempts_for (bt_get (or_states s) i) (rejections s i)"

definition attempts_ok :: "goal_orchestrator \<Rightarrow> string \<Rightarrow> bool" where
  "attempts_ok s i \<longleftrightarrow> (bt_get (or_states s) i \<in> {Some TaskPending, Some TaskDelegated} \<longrightarrow> rejections s i < 3)"

lemma attempts_left_le: "attempts_left s i \<le> 3"
  by (cases "(bt_get (or_states s) i, rejections s i)" rule: attempts_for.cases) (auto simp: attempts_left_def)

lemma rejections_update [simp]:
  "rejections (s\<lparr>or_states := x\<rparr>) i = rejections s i"
  "rejections (s\<lparr>or_delegations := y\<rparr>) i = rejections s i"
  "rejections (s\<lparr>or_completed := z\<rparr>) i = rejections s i"
  "rejections (s\<lparr>or_exhausted := z\<rparr>) i = rejections s i"
  "rejections (s\<lparr>or_cancelled := z\<rparr>) i = rejections s i"
  "rejections (s\<lparr>or_rejected_counts := bt_insert j n (or_rejected_counts s)\<rparr>) i = (if i = j then unat n else rejections s i)"
  by (simp_all add: rejections_def store_simps)

lemma attempts_step:
  assumes "attempts_ok s i"
  shows "attempts_ok (or_step H s x) i
      \<and> (case x of OpDelegate j sub req b \<Rightarrow> if j = i \<and> \<not> isl (fst (delegate_task H s j sub req b)) then 1 else 0 | _ \<Rightarrow> 0)
        + attempts_left (or_step H s x) i \<le> attempts_left s i"
proof (cases x)
  case (OpDelegate j sub req budget)
  show ?thesis
  proof (cases rule: delegate_task_cases [of H s j sub req budget])
    case (same e)
    with OpDelegate assms show ?thesis by simp
  next
    case failed
    with OpDelegate assms show ?thesis
      by (auto simp: attempts_left_def attempts_ok_def store_simps)
  next
    case (delegated d retries)
    then have "bt_get (or_states s) j = Some TaskPending" by (auto simp: ready_ids_def)
    moreover have "rejections s j < 3" using delegated(4,5) by (cases "rejections s j < 3") (auto simp: unat_eq_0)
    ultimately show ?thesis using delegated(1) OpDelegate assms
      by (auto simp: attempts_left_def attempts_ok_def store_simps)
  qed
next
  case (OpReport r)
  show ?thesis
  proof (cases rule: submit_report_cases [of H s r])
    case (same e)
    with OpReport assms show ?thesis by simp
  next
    case (verified d)
    with OpReport assms show ?thesis
      by (auto simp: attempts_left_def attempts_ok_def store_simps)
  next
    case (rejected used)
    have "rejections s (sr_task_id r) < 3 \<Longrightarrow> unat used = Suc (rejections s (sr_task_id r))"
      unfolding rejected(2) rejections_def by (auto simp: unat_word_ariths split: option.splits)
    with rejected OpReport assms show ?thesis
      by (auto simp: attempts_left_def attempts_ok_def store_simps MAX_RETRIES_def word_le_nat_alt)
  qed
next
  case (OpExhaust j)
  with assms show ?thesis by (auto simp: exhaust_budget_def attempts_left_def attempts_ok_def store_simps)
next
  case (OpCancel j)
  show ?thesis
  proof (cases "cancel_task s j")
    case (Some c)
    then obtain ids where "or_step H s x = foldl cancel_one s ids" using OpCancel by (auto simp: cancel_task_def)
    with cancel_each [of s ids] assms OpCancel show ?thesis
      by (auto simp: Let_def attempts_left_def attempts_ok_def rejections_def)
  qed (use assms OpCancel in \<open>simp add: attempts_ok_def\<close>)
qed

lemma delegations_bounded:
  "attempts_ok s i \<Longrightarrow> delegations_granted H s ops i \<le> attempts_left s i"
proof (induction ops arbitrary: s)
  case (Cons x ops)
  have "attempts_ok (or_step H s x) i
      \<and> (case x of OpDelegate j sub req b \<Rightarrow> if j = i \<and> \<not> isl (fst (delegate_task H s j sub req b)) then 1 else 0 | _ \<Rightarrow> 0)
        + attempts_left (or_step H s x) i \<le> attempts_left s i"
    by (rule attempts_step) (rule Cons.prems)
  with Cons.IH [of "or_step H s x"] show ?case by simp
qed simp

text \<open>
  C33: No task is delegated more often than the retry limit: in any run over any graph, whatever the
  reports, budgets and cancellations, at most three delegations are granted for a task.
\<close>

theorem retries_bounded: "delegations_granted H (orchestrator_new dag gs) ops i \<le> unat MAX_RETRIES"
  using delegations_bounded [of "orchestrator_new dag gs" i H ops] attempts_left_le [of "orchestrator_new dag gs" i]
  by (simp add: MAX_RETRIES_def orchestrator_new_def rejections_def attempts_ok_def)

section \<open>What the code does not keep\<close>

text \<open>
  A completed task is not terminal: exhausting its budget makes it failed, and it stays in the set
  of completed tasks, so its dependents still start.
\<close>

lemma completed_task_can_fail:
  assumes "orchestrator_state s i = Some TaskCompleted" "i \<in> or_completed s"
  shows "orchestrator_state (exhaust_budget s i) i = Some TaskFailed \<and> i \<in> or_completed (exhaust_budget s i)"
  using assms by (simp add: orchestrator_state_def exhaust_budget_def store_simps)

text \<open>
  The identifier of a delegation is a function of task and subagent alone: a report that answers an
  earlier, rejected delegation answers the next one to the same subagent as well.
\<close>

lemma delegation_id_repeats:
  assumes "delegate H gs i subagent requested budget retries = Ok d" "delegate H gs' i subagent requested' budget' retries' = Ok d'"
  shows "dn_delegation_id d = dn_delegation_id d'"
  using assms by (auto simp: delegate_def split: if_splits)

end
