(* ===== verification/CodeCapsule.thy ===== *)
theory CodeCapsule
  imports Evolution Orchestrator SandboxPlan
begin

text \<open>
  Code capsules (\<open>crates/code-capsule/src/capsule.rs\<close> and \<open>registry.rs\<close>): digest-bound envelopes of
  generated code with pinned dependencies and declared grants, admitted through the evolution workshop
  and eligible to run only once promoted by a review.
\<close>

section \<open>The envelope\<close>

definition CAPSULE_SCHEMA_VERSION :: string where "CAPSULE_SCHEMA_VERSION = ''1.0.0''"

record dependency_lock =
  dl_name :: string
  dl_digest :: string

record code_capsule =
  cc_capsule_id :: string
  cc_schema_version :: string
  cc_name :: string
  cc_version :: u32
  cc_source_digest :: string
  cc_dependencies :: "dependency_lock list"
  cc_grants :: "grant list"
  cc_realm :: realm
  cc_budget :: budget_spec
  cc_capsule_digest :: string

datatype capsule_error =
    CcDigestMismatch | CcMalformed | CcUnknownVersion | CcEscalation | CcUnknown | CcNotPromoted | CcUndeclaredGrant
  | CcUndeclaredDependency | CcBudgetExhausted

fun capsule_error_str :: "capsule_error \<Rightarrow> string" where
  "capsule_error_str CcDigestMismatch = ''digest_mismatch''"
| "capsule_error_str CcMalformed = ''malformed''"
| "capsule_error_str CcUnknownVersion = ''unknown_version''"
| "capsule_error_str CcEscalation = ''escalation''"
| "capsule_error_str CcUnknown = ''unknown''"
| "capsule_error_str CcNotPromoted = ''not_promoted''"
| "capsule_error_str CcUndeclaredGrant = ''undeclared_grant''"
| "capsule_error_str CcUndeclaredDependency = ''undeclared_dependency''"
| "capsule_error_str CcBudgetExhausted = ''budget_exhausted''"

text \<open>The derived debug name of an action.\<close>

fun action_debug :: "action \<Rightarrow> string" where
  "action_debug FsRead = ''FsRead''"
| "action_debug FsWrite = ''FsWrite''"
| "action_debug FsDelete = ''FsDelete''"
| "action_debug ProcessSpawn = ''ProcessSpawn''"
| "action_debug ProcessSignal = ''ProcessSignal''"
| "action_debug NetworkHttp = ''NetworkHttp''"
| "action_debug NetworkRaw = ''NetworkRaw''"
| "action_debug NetworkListen = ''NetworkListen''"
| "action_debug SecretUse = ''SecretUse''"
| "action_debug BrowserControl = ''BrowserControl''"
| "action_debug GitCommit = ''GitCommit''"
| "action_debug GitPush = ''GitPush''"
| "action_debug GitForce = ''GitForce''"
| "action_debug CloudDeploy = ''CloudDeploy''"
| "action_debug ExternalRead = ''ExternalRead''"
| "action_debug ExternalWrite = ''ExternalWrite''"
| "action_debug PluginInstall = ''PluginInstall''"
| "action_debug CapabilityPublish = ''CapabilityPublish''"
| "action_debug SelfProposeChange = ''SelfProposeChange''"

fun selector_text :: "selector \<Rightarrow> string" where
  "selector_text (SelExact r) = ''exact:'' @ r"
| "selector_text (SelPrefix r) = ''prefix:'' @ r"

definition nul_ended :: "string list \<Rightarrow> string" where
  "nul_ended parts = concat (map (\<lambda>p. p @ [CHR 0x00]) parts)"

definition source_digest_of :: "(string \<Rightarrow> string) \<Rightarrow> string \<Rightarrow> string" where
  "source_digest_of H bytes = sha256_label H [''saber-capsule-src-v1'' @ [CHR 0x00], bytes]"

definition capsule_body :: "code_capsule \<Rightarrow> string" where
  "capsule_body c = ''saber-code-capsule-body-v1'' @ [CHR 0x00]
     @ nul_ended ([cc_schema_version c, cc_name c, le_bytes 4 (unat (cc_version c)), cc_source_digest c]
         @ concat (map (\<lambda>d. [dl_name d, dl_digest d]) (cc_dependencies c))
         @ concat (map (\<lambda>g. [action_debug (gr_action g), selector_text (gr_selector g)]) (cc_grants c))
         @ [realm_as_str (cc_realm c)])
     @ le_bytes 8 (unat (bu_wall_clock_ms (cc_budget c))) @ le_bytes 8 (unat (bu_max_output_bytes (cc_budget c)))"

definition capsule_digest_of :: "(string \<Rightarrow> string) \<Rightarrow> code_capsule \<Rightarrow> string" where
  "capsule_digest_of H c = sha256_label H [capsule_body c]"

definition capsule_id_of :: "(string \<Rightarrow> string) \<Rightarrow> string \<Rightarrow> string \<Rightarrow> string" where
  "capsule_id_of H name digest = sha256_label H [''saber-code-capsule-id-v1'' @ [CHR 0x00], name, digest]"

definition capsule_validate :: "(string \<Rightarrow> string) \<Rightarrow> code_capsule \<Rightarrow> capsule_error + unit" where
  "capsule_validate H c =
     (if cc_schema_version c \<noteq> CAPSULE_SCHEMA_VERSION then Err CcUnknownVersion
      else if cc_name c = [] \<or> cc_version c = 0 \<or> length (cc_source_digest c) \<noteq> 71 then Err CcMalformed
      else if list_ex (\<lambda>d. dl_name d = [] \<or> length (dl_digest d) \<noteq> 71) (cc_dependencies c) then Err CcMalformed
      else if capsule_digest_of H c \<noteq> cc_capsule_digest c then Err CcDigestMismatch
      else if cc_capsule_id c \<noteq> capsule_id_of H (cc_name c) (cc_capsule_digest c) then Err CcDigestMismatch
      else Ok ())"

definition grants_within :: "grant list \<Rightarrow> grant list \<Rightarrow> bool" where
  "grants_within grants parents \<longleftrightarrow> list_all (\<lambda>g. list_ex (grant_within g) parents) grants"

section \<open>The registry\<close>

record admitted_capsule =
  ad_capsule :: code_capsule
  ad_candidate_id :: string
  ad_budget_remaining_ms :: u64

record capsule_registry =
  cr_workshop :: workshop
  cr_capsules :: "(string, admitted_capsule) btree"
  cr_history :: "(string, string list) btree"
  cr_active :: "(string, string) btree"

definition capsule_registry_new :: capsule_registry where
  "capsule_registry_new = \<lparr>cr_workshop = workshop_new, cr_capsules = [], cr_history = [], cr_active = []\<rparr>"

fun map_workshop :: "workshop_error \<Rightarrow> capsule_error" where
  "map_workshop IllegalTransition = CcNotPromoted"
| "map_workshop EvaluationFailed = CcNotPromoted"
| "map_workshop TamperedPayload = CcDigestMismatch"
| "map_workshop UnknownOrTerminal = CcUnknown"
| "map_workshop WsMalformed = CcMalformed"

definition candidate_of :: "capsule_registry \<Rightarrow> string \<Rightarrow> capsule_error + string" where
  "candidate_of self capsule_id =
     (case bt_get (cr_capsules self) capsule_id of None \<Rightarrow> Err CcUnknown | Some entry \<Rightarrow> Ok (ad_candidate_id entry))"

text \<open>The capsule of the last promoted version of a name, if it is still there.\<close>

definition previous_version :: "capsule_registry \<Rightarrow> string \<Rightarrow> code_capsule option" where
  "previous_version self name =
     (case bt_get (cr_history self) name of
        None \<Rightarrow> None
      | Some versions \<Rightarrow>
          if versions = [] then None else map_option ad_capsule (bt_get (cr_capsules self) (last versions)))"

definition capsule_provenance :: "code_capsule \<Rightarrow> candidate_provenance" where
  "capsule_provenance c =
     \<lparr>cv_source_event_id = ''capsule://'' @ cc_capsule_id c,
      cv_origin = ''capsule:'' @ cc_name c @ ''#'' @ show_dec (unat (cc_version c)), cv_trust = Imported\<rparr>"

definition capsule_admit ::
  "(string \<Rightarrow> string) \<Rightarrow> capsule_registry \<Rightarrow> code_capsule \<Rightarrow> string \<Rightarrow> (capsule_error + string) \<times> capsule_registry" where
  "capsule_admit H self c source_bytes =
     (case capsule_validate H c of
        Err e \<Rightarrow> (Err e, self)
      | Ok _ \<Rightarrow>
          if source_digest_of H source_bytes \<noteq> cc_source_digest c then (Err CcDigestMismatch, self)
          else if (case previous_version self (cc_name c) of
                     None \<Rightarrow> False | Some previous \<Rightarrow> \<not> grants_within (cc_grants c) (cc_grants previous))
          then (Err CcEscalation, self)
          else
            (case ws_propose H (cr_workshop self) EkCode (cc_capsule_id c) (capsule_provenance c) of
               (Err _, w) \<Rightarrow> (Err CcMalformed, self\<lparr>cr_workshop := w\<rparr>)
             | (Ok candidate_id, w) \<Rightarrow>
                 (Ok candidate_id,
                  self\<lparr>cr_workshop := w,
                       cr_capsules := bt_insert (cc_capsule_id c)
                         \<lparr>ad_capsule = c, ad_candidate_id = candidate_id, ad_budget_remaining_ms = - 1\<rparr> (cr_capsules self)\<rparr>)))"

definition capsule_evaluation :: "string \<Rightarrow> bool \<Rightarrow> evaluation_record" where
  "capsule_evaluation candidate_id passed =
     \<lparr>vr_candidate_id = candidate_id, vr_inputs_digest = ''sha256:'' @ replicate 64 (CHR ''0''),
      vr_outputs_digest = ''sha256:'' @ replicate 64 (CHR ''1''), vr_passed = passed, vr_evaluated_at_ms = 1\<rparr>"

definition capsule_evaluate ::
  "(string \<Rightarrow> string) \<Rightarrow> capsule_registry \<Rightarrow> string \<Rightarrow> bool \<Rightarrow> (capsule_error + unit) \<times> capsule_registry" where
  "capsule_evaluate H self capsule_id passed =
     (case candidate_of self capsule_id of
        Err e \<Rightarrow> (Err e, self)
      | Ok candidate_id \<Rightarrow>
          (case ws_quarantine H (cr_workshop self) candidate_id of
             (Err e, w) \<Rightarrow> (Err (map_workshop e), self\<lparr>cr_workshop := w\<rparr>)
           | (Ok _, w) \<Rightarrow>
               (case ws_evaluate H w (capsule_evaluation candidate_id passed) of
                  (Err e, w') \<Rightarrow> (Err (map_workshop e), self\<lparr>cr_workshop := w'\<rparr>)
                | (Ok _, w') \<Rightarrow> (Ok (), self\<lparr>cr_workshop := w'\<rparr>))))"

definition history_of_name :: "capsule_registry \<Rightarrow> string \<Rightarrow> string list" where
  "history_of_name self name = (case bt_get (cr_history self) name of None \<Rightarrow> [] | Some versions \<Rightarrow> versions)"

definition capsule_promote ::
  "(string \<Rightarrow> string) \<Rightarrow> capsule_registry \<Rightarrow> string \<Rightarrow> review_authority \<Rightarrow> u64 \<Rightarrow> (capsule_error + unit) \<times> capsule_registry" where
  "capsule_promote H self capsule_id authority now =
     (case candidate_of self capsule_id of
        Err e \<Rightarrow> (Err e, self)
      | Ok candidate_id \<Rightarrow>
          (case ws_promote H (cr_workshop self) candidate_id authority now of
             (Err e, w) \<Rightarrow> (Err (map_workshop e), self\<lparr>cr_workshop := w\<rparr>)
           | (Ok _, w) \<Rightarrow>
               (let self = self\<lparr>cr_workshop := w\<rparr> in
                case bt_get (cr_capsules self) capsule_id of
                  None \<Rightarrow> (Ok (), self)
                | Some entry \<Rightarrow>
                    (let name = cc_name (ad_capsule entry)
                     in (Ok (), self\<lparr>cr_history := bt_insert name (history_of_name self name @ [capsule_id]) (cr_history self),
                                      cr_active := bt_insert name capsule_id (cr_active self)\<rparr>)))))"

record execution_authorization =
  xa_capsule_id :: string
  xa_realm :: realm
  xa_grants :: "grant list"
  xa_budget_wall_clock_ms :: u64

definition capsule_promoted :: "capsule_registry \<Rightarrow> string \<Rightarrow> bool" where
  "capsule_promoted self candidate_id \<longleftrightarrow>
     (case bt_get (ew_candidates (cr_workshop self)) candidate_id of None \<Rightarrow> False | Some c \<Rightarrow> ec_state c = CsPromoted)"

definition authorize_execution ::
  "capsule_registry \<Rightarrow> string \<Rightarrow> grant list \<Rightarrow> string list \<Rightarrow> capsule_error + execution_authorization" where
  "authorize_execution self capsule_id requested dependency_names =
     (case candidate_of self capsule_id of
        Err e \<Rightarrow> Err e
      | Ok candidate_id \<Rightarrow>
          if \<not> capsule_promoted self candidate_id then Err CcNotPromoted
          else (case bt_get (cr_capsules self) capsule_id of
             None \<Rightarrow> Err CcUnknown
           | Some entry \<Rightarrow>
               (let c = ad_capsule entry in
                if \<not> grants_within requested (cc_grants c) then Err CcUndeclaredGrant
                else if \<not> list_all (\<lambda>name. list_ex (\<lambda>d. dl_name d = name) (cc_dependencies c)) dependency_names
                then Err CcUndeclaredDependency
                else if ad_budget_remaining_ms entry = 0 then Err CcBudgetExhausted
                else Ok \<lparr>xa_capsule_id = capsule_id, xa_realm = cc_realm c, xa_grants = requested,
                         xa_budget_wall_clock_ms = min (ad_budget_remaining_ms entry) (bu_wall_clock_ms (cc_budget c))\<rparr>)))"

definition consume_budget :: "capsule_registry \<Rightarrow> string \<Rightarrow> u64 \<Rightarrow> capsule_registry" where
  "consume_budget self capsule_id consumed_ms =
     (case bt_get (cr_capsules self) capsule_id of
        None \<Rightarrow> self
      | Some entry \<Rightarrow>
          self\<lparr>cr_capsules := bt_insert capsule_id
                 (entry\<lparr>ad_budget_remaining_ms := sat_sub (ad_budget_remaining_ms entry) consumed_ms\<rparr>) (cr_capsules self)\<rparr>)"

definition capsule_rollback :: "capsule_registry \<Rightarrow> string \<Rightarrow> string \<Rightarrow> (capsule_error + unit) \<times> capsule_registry" where
  "capsule_rollback self name to_capsule_id =
     (case bt_get (cr_history self) name of
        None \<Rightarrow> (Err CcUnknown, self)
      | Some versions \<Rightarrow>
          if to_capsule_id \<notin> set versions then (Err CcUnknown, self)
          else (Ok (), self\<lparr>cr_active := bt_insert name to_capsule_id (cr_active self)\<rparr>))"

definition active_version :: "capsule_registry \<Rightarrow> string \<Rightarrow> string option" where
  "active_version self name = bt_get (cr_active self) name"

text \<open>\<open>temp_dir\<close> is the host's directory for temporary files.\<close>

definition plan_for_authorization :: "string \<Rightarrow> execution_authorization \<Rightarrow> string \<Rightarrow> sandbox_plan" where
  "plan_for_authorization temp_dir authorization overlay_root =
     \<lparr>sp_version = 1, sp_workspace_id = ''capsule:'' @ xa_capsule_id authorization, sp_realm = xa_realm authorization,
      sp_mounts =
        [\<lparr>mo_target = ''workspace'', mo_source = OverlayMount overlay_root, mo_writable = True, mo_executable = False\<rparr>,
         \<lparr>mo_target = ''tools'', mo_source = SystemTools temp_dir, mo_writable = False, mo_executable = True\<rparr>],
      sp_env = \<lparr>es_allow = [], es_lease_channels = []\<rparr>,
      sp_budget = default_budget\<lparr>bu_wall_clock_ms := xa_budget_wall_clock_ms authorization\<rparr>,
      sp_network = NetworkDenied, sp_command = None\<rparr>"

section \<open>Histories\<close>

datatype capsule_op =
    CoAdmit code_capsule string
  | CoEvaluate string bool
  | CoPromote string review_authority u64
  | CoConsume string u64
  | CoRollback string string

fun capsule_step :: "(string \<Rightarrow> string) \<Rightarrow> capsule_op \<Rightarrow> capsule_registry \<Rightarrow> capsule_registry" where
  "capsule_step H (CoAdmit c source_bytes) self = snd (capsule_admit H self c source_bytes)"
| "capsule_step H (CoEvaluate i passed) self = snd (capsule_evaluate H self i passed)"
| "capsule_step H (CoPromote i authority now) self = snd (capsule_promote H self i authority now)"
| "capsule_step H (CoConsume i consumed_ms) self = consume_budget self i consumed_ms"
| "capsule_step H (CoRollback name i) self = snd (capsule_rollback self name i)"

definition registry_after :: "(string \<Rightarrow> string) \<Rightarrow> capsule_op list \<Rightarrow> capsule_registry" where
  "registry_after H ops = fold (capsule_step H) ops capsule_registry_new"

text \<open>The candidate of a capsule, and the steps that lead to its promotion, each after the one before.\<close>

definition capsule_candidate :: "(string \<Rightarrow> string) \<Rightarrow> string \<Rightarrow> string" where
  "capsule_candidate H i = candidate_id_of H EkCode (payload_digest_of H i)"

definition capsule_admitted :: "(string \<Rightarrow> string) \<Rightarrow> capsule_op list \<Rightarrow> code_capsule \<Rightarrow> bool" where
  "capsule_admitted H ops c \<longleftrightarrow> (\<exists>earlier source_bytes later. ops = earlier @ CoAdmit c source_bytes # later
     \<and> capsule_validate H c = Ok () \<and> source_digest_of H source_bytes = cc_source_digest c)"

definition capsule_evaluated :: "(string \<Rightarrow> string) \<Rightarrow> capsule_op list \<Rightarrow> code_capsule \<Rightarrow> bool" where
  "capsule_evaluated H ops c \<longleftrightarrow> (\<exists>earlier i later. ops = earlier @ CoEvaluate i True # later
     \<and> capsule_admitted H earlier c \<and> capsule_candidate H i = capsule_candidate H (cc_capsule_id c))"

definition capsule_reviewed :: "(string \<Rightarrow> string) \<Rightarrow> capsule_op list \<Rightarrow> code_capsule \<Rightarrow> bool" where
  "capsule_reviewed H ops c \<longleftrightarrow> (\<exists>earlier i authority now later. ops = earlier @ CoPromote i authority now # later
     \<and> capsule_evaluated H earlier c \<and> capsule_candidate H i = capsule_candidate H (cc_capsule_id c))"

fun capsule_stage :: "(string \<Rightarrow> string) \<Rightarrow> capsule_op list \<Rightarrow> code_capsule \<Rightarrow> candidate_state \<Rightarrow> bool" where
  "capsule_stage H ops c (CsEvaluated True) = capsule_evaluated H ops c"
| "capsule_stage H ops c CsPromoted = capsule_reviewed H ops c"
| "capsule_stage H ops c _ = True"

definition ws_state :: "capsule_registry \<Rightarrow> string \<Rightarrow> candidate_state option" where
  "ws_state self i = map_option ec_state (bt_get (ew_candidates (cr_workshop self)) i)"

definition entry_ok :: "(string \<Rightarrow> string) \<Rightarrow> capsule_op list \<Rightarrow> (string \<Rightarrow> candidate_state option) \<Rightarrow> string \<Rightarrow> admitted_capsule \<Rightarrow> bool" where
  "entry_ok H ops states i entry \<longleftrightarrow> cc_capsule_id (ad_capsule entry) = i \<and> ad_candidate_id entry = capsule_candidate H i
     \<and> capsule_admitted H ops (ad_capsule entry)
     \<and> (\<forall>st. states (capsule_candidate H i) = Some st \<longrightarrow> capsule_stage H ops (ad_capsule entry) st)"

definition registry_ok :: "(string \<Rightarrow> string) \<Rightarrow> capsule_op list \<Rightarrow> capsule_registry \<Rightarrow> bool" where
  "registry_ok H ops self \<longleftrightarrow> (\<forall>i entry. bt_get (cr_capsules self) i = Some entry \<longrightarrow> entry_ok H ops (ws_state self) i entry)"

lemma admitted_more: "capsule_admitted H ops c \<Longrightarrow> capsule_admitted H (ops @ [op]) c"
  unfolding capsule_admitted_def by (metis append.assoc append_Cons)

lemma evaluated_more: "capsule_evaluated H ops c \<Longrightarrow> capsule_evaluated H (ops @ [op]) c"
  unfolding capsule_evaluated_def by (metis append.assoc append_Cons)

lemma reviewed_more': "capsule_reviewed H ops c \<Longrightarrow> capsule_reviewed H (ops @ [op]) c"
  unfolding capsule_reviewed_def by (metis append.assoc append_Cons)

lemma capsule_stage_more: "capsule_stage H ops c st \<Longrightarrow> capsule_stage H (ops @ [op]) c st"
  by (cases "(H, ops, c, st)" rule: capsule_stage.cases) (auto intro: evaluated_more reviewed_more')

lemma entry_more: "entry_ok H ops states i entry \<Longrightarrow> entry_ok H (ops @ [op]) states i entry"
  by (auto simp: entry_ok_def intro: admitted_more capsule_stage_more)

text \<open>One candidate moves to a state that its capsules have reached.\<close>

lemma registry_moves:
  assumes "registry_ok H ops self" "cr_capsules self' = cr_capsules self" "ws_state self' = (ws_state self)(k \<mapsto> st)"
    "\<And>i entry. bt_get (cr_capsules self) i = Some entry \<Longrightarrow> capsule_candidate H i = k \<Longrightarrow> entry_ok H ops (ws_state self) i entry \<Longrightarrow>
       capsule_stage H (ops @ [op]) (ad_capsule entry) st"
  shows "registry_ok H (ops @ [op]) self'"
  unfolding registry_ok_def
proof (intro allI impI)
  fix i entry assume "bt_get (cr_capsules self') i = Some entry"
  with assms(2) have e: "bt_get (cr_capsules self) i = Some entry" by simp
  with assms(1) have ok: "entry_ok H ops (ws_state self) i entry" unfolding registry_ok_def by blast
  from entry_more [OF ok] assms(4) [OF e _ ok] show "entry_ok H (ops @ [op]) (ws_state self') i entry"
    by (auto simp: entry_ok_def assms(3) split: if_splits)
qed

lemma registry_keeps:
  assumes "registry_ok H ops self" "ws_state self' = ws_state self"
    "\<And>i entry'. bt_get (cr_capsules self') i = Some entry' \<Longrightarrow>
       \<exists>entry. bt_get (cr_capsules self) i = Some entry \<and> ad_capsule entry' = ad_capsule entry \<and> ad_candidate_id entry' = ad_candidate_id entry"
  shows "registry_ok H (ops @ [op]) self'"
  unfolding registry_ok_def
proof (intro allI impI)
  fix i entry' assume "bt_get (cr_capsules self') i = Some entry'"
  from assms(3) [OF this] obtain entry where e: "bt_get (cr_capsules self) i = Some entry" "ad_capsule entry' = ad_capsule entry"
    "ad_candidate_id entry' = ad_candidate_id entry" by blast
  with assms(1) have "entry_ok H ops (ws_state self) i entry" unfolding registry_ok_def by blast
  from entry_more [OF this] show "entry_ok H (ops @ [op]) (ws_state self') i entry'"
    by (simp add: entry_ok_def e(2,3) assms(2))
qed

text \<open>What the calls of the workshop do to the states of its candidates.\<close>

abbreviation states_of :: "workshop \<Rightarrow> string \<Rightarrow> candidate_state option" where
  "states_of w \<equiv> \<lambda>i. map_option ec_state (bt_get (ew_candidates w) i)"

lemma guard_found: "ws_guard H w i = Ok c \<Longrightarrow> bt_get (ew_candidates w) i = Some c"
  by (auto simp: ws_guard_def split: option.splits if_splits)

lemma states_set: "bt_get (ew_candidates w) i = Some c \<Longrightarrow> states_of (ws_set_state w i st) = (states_of w)(i \<mapsto> st)"
  by (auto simp: set_state_get)

lemma states_quarantine:
  "ws_quarantine H w i = (r, w') \<Longrightarrow> (isl r \<and> w' = w) \<or> states_of w' = (states_of w)(i \<mapsto> CsQuarantined)"
  by (auto simp: ws_quarantine_def dest!: guard_found states_set split: sum.splits if_splits)

lemma states_evaluate:
  "ws_evaluate H w e = (r, w') \<Longrightarrow> (isl r \<and> w' = w) \<or> states_of w' = (states_of w)(vr_candidate_id e \<mapsto> CsEvaluated (vr_passed e))"
  by (auto simp: ws_evaluate_def set_state_get fun_eq_iff dest!: guard_found split: sum.splits if_splits)

lemma states_promote:
  "ws_promote H w i authority now = (r, w') \<Longrightarrow> (isl r \<and> w' = w)
     \<or> (states_of w i = Some (CsEvaluated True) \<and> states_of w' = (states_of w)(i \<mapsto> CsPromoted))"
  by (auto simp: ws_promote_def Let_def set_state_get fun_eq_iff dest!: guard_found split: sum.splits if_splits candidate_state.splits)

lemma candidate_of_Ok: "candidate_of self i = Ok k \<longleftrightarrow> (\<exists>entry. bt_get (cr_capsules self) i = Some entry \<and> k = ad_candidate_id entry)"
  by (auto simp: candidate_of_def split: option.splits)

text \<open>A capsule of the candidate that was evaluated with success, or promoted, has reached that stage.\<close>

lemma stage_evaluated:
  assumes "entry_ok H ops states i entry" "capsule_candidate H j = capsule_candidate H i"
  shows "capsule_stage H (ops @ [CoEvaluate j passed]) (ad_capsule entry) (CsEvaluated passed)"
proof (cases passed)
  case True
  have "capsule_evaluated H (ops @ [CoEvaluate j True]) (ad_capsule entry)"
    unfolding capsule_evaluated_def using assms
    by (intro exI [of _ ops] exI [of _ j] exI [of _ "[]"]) (simp add: entry_ok_def)
  with True show ?thesis by simp
qed simp

lemma stage_promoted:
  assumes "entry_ok H ops states i entry" "capsule_candidate H j = capsule_candidate H i"
    "states (capsule_candidate H i) = Some (CsEvaluated True)"
  shows "capsule_stage H (ops @ [CoPromote j authority now]) (ad_capsule entry) CsPromoted"
proof -
  have "capsule_evaluated H ops (ad_capsule entry)" using assms(1,3) by (auto simp: entry_ok_def)
  with assms(1,2) have "capsule_reviewed H (ops @ [CoPromote j authority now]) (ad_capsule entry)"
    unfolding capsule_reviewed_def
    by (intro exI [of _ ops] exI [of _ j] exI [of _ authority] exI [of _ now] exI [of _ "[]"]) (simp add: entry_ok_def)
  then show ?thesis by simp
qed

lemma admit_keeps:
  assumes ok: "registry_ok H ops self"
  shows "registry_ok H (ops @ [CoAdmit c source_bytes]) (snd (capsule_admit H self c source_bytes))"
proof -
  let ?k = "capsule_candidate H (cc_capsule_id c)"
  obtain r w where w: "ws_propose H (cr_workshop self) EkCode (cc_capsule_id c) (capsule_provenance c) = (r, w)" by (metis surj_pair)
  have err: "w = cr_workshop self" if "r = Err e" for e
    using w that by (auto simp: ws_propose_def Let_def split: if_splits)
  show ?thesis
  proof (cases "\<exists>k. fst (capsule_admit H self c source_bytes) = Ok k")
    case False
    then have "snd (capsule_admit H self c source_bytes) = self"
      using w err by (auto simp: capsule_admit_def split: sum.splits if_splits)
    then show ?thesis by (simp add: registry_keeps [OF ok])
  next
    case True
    then have a: "capsule_validate H c = Ok ()" "source_digest_of H source_bytes = cc_source_digest c" and "\<exists>k. r = Ok k"
      using w by (auto simp: capsule_admit_def split: sum.splits if_splits)
    then have r: "r = Ok ?k" and w': "states_of w = (states_of (cr_workshop self))(?k \<mapsto> CsProposed)"
      using w by (auto simp: ws_propose_def Let_def capsule_candidate_def bt_get_insert split: if_splits)
    let ?self = "snd (capsule_admit H self c source_bytes)"
    let ?entry = "\<lparr>ad_capsule = c, ad_candidate_id = ?k, ad_budget_remaining_ms = - 1\<rparr>"
    have self': "cr_capsules ?self = bt_insert (cc_capsule_id c) ?entry (cr_capsules self)" "cr_workshop ?self = w"
      using True w r a by (auto simp: capsule_admit_def split: sum.splits if_splits)
    then have st: "ws_state ?self = (ws_state self)(?k \<mapsto> CsProposed)"
      using w' by (simp add: ws_state_def fun_eq_iff)
    have new: "capsule_admitted H (ops @ [CoAdmit c source_bytes]) c"
      unfolding capsule_admitted_def using a by blast
    show ?thesis
      unfolding registry_ok_def
    proof (intro allI impI)
      fix i entry assume e: "bt_get (cr_capsules ?self) i = Some entry"
      show "entry_ok H (ops @ [CoAdmit c source_bytes]) (ws_state ?self) i entry"
      proof (cases "i = cc_capsule_id c")
        case True
        with e self'(1) have "entry = ?entry" by (simp add: bt_get_insert)
        with True new show ?thesis by (simp add: entry_ok_def st)
      next
        case False
        with e self'(1) have "bt_get (cr_capsules self) i = Some entry" by (simp add: bt_get_insert)
        with ok have "entry_ok H ops (ws_state self) i entry" unfolding registry_ok_def by blast
        from entry_more [OF this] show ?thesis by (auto simp: entry_ok_def st split: if_splits)
      qed
    qed
  qed
qed

lemma ws_state_workshop: "ws_state (self\<lparr>cr_workshop := w\<rparr>) = states_of w" "ws_state self = states_of (cr_workshop self)"
  by (simp_all add: ws_state_def fun_eq_iff)

lemma evaluate_registry_keeps:
  assumes ok: "registry_ok H ops self"
  shows "registry_ok H (ops @ [CoEvaluate i passed]) (snd (capsule_evaluate H self i passed))"
proof (cases "bt_get (cr_capsules self) i")
  case None
  then show ?thesis by (simp add: capsule_evaluate_def candidate_of_def registry_keeps [OF ok])
next
  case (Some entry)
  let ?k = "capsule_candidate H i"
  have k: "candidate_of self i = Ok ?k"
    using ok Some unfolding registry_ok_def by (auto simp: candidate_of_def entry_ok_def)
  obtain r w where w: "ws_quarantine H (cr_workshop self) ?k = (r, w)" by (metis surj_pair)
  obtain r' w' where w': "ws_evaluate H w (capsule_evaluation ?k passed) = (r', w')" by (metis surj_pair)
  let ?self = "snd (capsule_evaluate H self i passed)"
  have caps: "cr_capsules ?self = cr_capsules self"
    using k w w' by (auto simp: capsule_evaluate_def split: sum.splits)
  have final: "states_of (cr_workshop ?self) \<in> {states_of (cr_workshop self), (states_of (cr_workshop self))(?k \<mapsto> CsQuarantined),
      (states_of (cr_workshop self))(?k \<mapsto> CsEvaluated passed)}"
    using k w w' states_quarantine [OF w] states_evaluate [OF w']
    by (auto simp: capsule_evaluate_def capsule_evaluation_def split: sum.splits)
  then consider "ws_state ?self = ws_state self" | "ws_state ?self = (ws_state self)(?k \<mapsto> CsQuarantined)"
    | "ws_state ?self = (ws_state self)(?k \<mapsto> CsEvaluated passed)"
    unfolding ws_state_workshop(2) by blast
  then show ?thesis
  proof cases
    case 1
    show ?thesis by (rule registry_keeps [OF ok 1]) (simp add: caps)
  next
    case 2
    show ?thesis by (rule registry_moves [OF ok caps 2]) simp
  next
    case 3
    show ?thesis by (rule registry_moves [OF ok caps 3]) (rule stage_evaluated, assumption, simp)
  qed
qed

lemma promote_registry_keeps:
  assumes ok: "registry_ok H ops self"
  shows "registry_ok H (ops @ [CoPromote i authority now]) (snd (capsule_promote H self i authority now))"
proof (cases "bt_get (cr_capsules self) i")
  case None
  then show ?thesis by (simp add: capsule_promote_def candidate_of_def registry_keeps [OF ok])
next
  case (Some entry)
  let ?k = "capsule_candidate H i"
  have k: "candidate_of self i = Ok ?k"
    using ok Some unfolding registry_ok_def by (auto simp: candidate_of_def entry_ok_def)
  obtain r w where w: "ws_promote H (cr_workshop self) ?k authority now = (r, w)" by (metis surj_pair)
  let ?self = "snd (capsule_promote H self i authority now)"
  have caps: "cr_capsules ?self = cr_capsules self" and w': "cr_workshop ?self = w"
    using k w Some by (auto simp: capsule_promote_def Let_def split: sum.splits)
  from states_promote [OF w] consider "ws_state ?self = ws_state self"
    | "ws_state self ?k = Some (CsEvaluated True)" "ws_state ?self = (ws_state self)(?k \<mapsto> CsPromoted)"
    unfolding ws_state_workshop(2) w' by blast
  then show ?thesis
  proof cases
    case 1
    show ?thesis by (rule registry_keeps [OF ok 1]) (simp add: caps)
  next
    case 2
    show ?thesis by (rule registry_moves [OF ok caps 2(2)]) (rule stage_promoted, assumption, simp, use 2(1) in simp)
  qed
qed

lemma consume_keeps:
  assumes "registry_ok H ops self"
  shows "registry_ok H (ops @ [CoConsume i consumed_ms]) (consume_budget self i consumed_ms)"
  by (rule registry_keeps [OF assms])
    (auto simp: consume_budget_def ws_state_def bt_get_insert split: option.splits if_splits)

lemma rollback_keeps:
  assumes "registry_ok H ops self"
  shows "registry_ok H (ops @ [CoRollback name i]) (snd (capsule_rollback self name i))"
  by (rule registry_keeps [OF assms]) (auto simp: capsule_rollback_def ws_state_def fun_eq_iff split: option.splits if_splits)

lemma registry_after_snoc: "registry_after H (ops @ [op]) = capsule_step H op (registry_after H ops)"
  by (simp add: registry_after_def)

lemma registry_after_ok: "registry_ok H ops (registry_after H ops)"
proof (induction ops rule: rev_induct)
  case Nil
  show ?case by (simp add: registry_after_def capsule_registry_new_def registry_ok_def)
next
  case (snoc op ops)
  then show ?case
    by (cases op)
      (simp_all add: registry_after_snoc admit_keeps evaluate_registry_keeps promote_registry_keeps consume_keeps rollback_keeps)
qed

section \<open>Only reviewed capsules run, within their declaration\<close>

text \<open>
  C7: after any sequence of operations, an authorisation is for a capsule that was admitted with valid
  digests for the envelope and the source, evaluated with success after that and promoted by a review
  after that (of the same candidate, which is the same capsule barring a SHA-256 collision); its realm is
  that of the envelope, whatever the authorised grants cover a declared grant covers, the dependencies
  are pinned ones, and the time budget is at most the declared one.
\<close>

theorem authorised_capsule_was_reviewed:
  assumes "authorize_execution (registry_after H ops) i requested names = Ok x"
  shows "\<exists>c. capsule_reviewed H ops c \<and> cc_capsule_id c = i \<and> xa_capsule_id x = i \<and> xa_realm x = cc_realm c
     \<and> (\<forall>g \<in> set (xa_grants x). \<forall>a resource. grant_covers g a resource \<longrightarrow> (\<exists>p \<in> set (cc_grants c). grant_covers p a resource))
     \<and> (\<forall>name \<in> set names. \<exists>d \<in> set (cc_dependencies c). dl_name d = name \<and> length (dl_digest d) = 71)
     \<and> xa_budget_wall_clock_ms x \<le> bu_wall_clock_ms (cc_budget c)"
proof -
  let ?self = "registry_after H ops"
  from assms obtain entry where e: "bt_get (cr_capsules ?self) i = Some entry"
    and p: "capsule_promoted ?self (ad_candidate_id entry)"
    and g: "grants_within requested (cc_grants (ad_capsule entry))"
    and n: "list_all (\<lambda>name. list_ex (\<lambda>d. dl_name d = name) (cc_dependencies (ad_capsule entry))) names"
    and x: "x = \<lparr>xa_capsule_id = i, xa_realm = cc_realm (ad_capsule entry), xa_grants = requested,
       xa_budget_wall_clock_ms = min (ad_budget_remaining_ms entry) (bu_wall_clock_ms (cc_budget (ad_capsule entry)))\<rparr>"
    by (auto simp: authorize_execution_def candidate_of_def Let_def split: option.splits if_splits)
  have ok: "entry_ok H ops (ws_state ?self) i entry"
    using registry_after_ok [of H ops] e unfolding registry_ok_def by blast
  then have k: "ad_candidate_id entry = capsule_candidate H i" "cc_capsule_id (ad_capsule entry) = i"
    "capsule_admitted H ops (ad_capsule entry)" by (simp_all add: entry_ok_def)
  have "ws_state ?self (capsule_candidate H i) = Some CsPromoted"
    using p k(1) by (auto simp: capsule_promoted_def ws_state_def split: option.splits)
  with ok have r: "capsule_reviewed H ops (ad_capsule entry)" by (auto simp: entry_ok_def)
  have pinned: "\<forall>d \<in> set (cc_dependencies (ad_capsule entry)). length (dl_digest d) = 71"
    using k(3) by (auto simp: capsule_admitted_def capsule_validate_def list_ex_iff split: if_splits)
  show ?thesis
  proof (intro exI [of _ "ad_capsule entry"] conjI)
    show "\<forall>g \<in> set (xa_grants x). \<forall>a resource. grant_covers g a resource \<longrightarrow> (\<exists>p \<in> set (cc_grants (ad_capsule entry)). grant_covers p a resource)"
      using g by (fastforce simp: x grants_within_def list_all_iff list_ex_iff dest: grant_within_covers)
    show "\<forall>name \<in> set names. \<exists>d \<in> set (cc_dependencies (ad_capsule entry)). dl_name d = name \<and> length (dl_digest d) = 71"
      using n pinned by (fastforce simp: list_all_iff list_ex_iff)
  qed (use r k(2) in \<open>simp_all add: x\<close>)
qed

definition sample_capsule_hash :: "string \<Rightarrow> string" where "sample_capsule_hash x = replicate 32 (CHR ''a'')"

definition sample_capsule :: code_capsule where
  "sample_capsule = \<lparr>cc_capsule_id = sha256_label sample_capsule_hash [], cc_schema_version = ''1.0.0'', cc_name = ''c'', cc_version = 1,
     cc_source_digest = sha256_label sample_capsule_hash [], cc_dependencies = [], cc_grants = [\<lparr>gr_action = FsRead, gr_selector = SelPrefix ''w''\<rparr>],
     cc_realm = S3IsolatedOverlay, cc_budget = \<lparr>bu_wall_clock_ms = 5, bu_max_output_bytes = 5, bu_max_stdin_bytes = 5\<rparr>,
     cc_capsule_digest = sha256_label sample_capsule_hash []\<rparr>"

definition sample_capsule_ops :: "capsule_op list" where
  "sample_capsule_ops = [CoAdmit sample_capsule ''s'', CoEvaluate (cc_capsule_id sample_capsule) True,
     CoPromote (cc_capsule_id sample_capsule) sample_review 3, CoConsume (cc_capsule_id sample_capsule) 2]"

definition sample_requested :: "grant list" where
  "sample_requested = [\<lparr>gr_action = FsRead, gr_selector = SelExact ''w/f''\<rparr>]"

definition sample_authorization :: execution_authorization where
  "sample_authorization = \<lparr>xa_capsule_id = cc_capsule_id sample_capsule, xa_realm = S3IsolatedOverlay, xa_grants = sample_requested,
     xa_budget_wall_clock_ms = 5\<rparr>"

lemma sample_capsule_authorized:
  "authorize_execution (registry_after sample_capsule_hash sample_capsule_ops) (cc_capsule_id sample_capsule) sample_requested []
     = Ok sample_authorization"
  by code_simp

theorem authorised_capsule_was_reviewed_witness: "\<exists>c. capsule_reviewed sample_capsule_hash sample_capsule_ops c \<and> xa_realm sample_authorization = cc_realm c"
  using authorised_capsule_was_reviewed [OF sample_capsule_authorized] by blast

section \<open>What the registry does not separate\<close>

text \<open>
  The body of the digest runs dependencies into grants: a dependency named like an action, with a
  digest like a selector, gives the same digest and identifier as that grant. A dependency needs only a
  name and 71 characters of digest to be valid.
\<close>

lemma dependency_digests_as_grant:
  assumes "g = \<lparr>gr_action = a, gr_selector = s\<rparr>"
  shows "capsule_digest_of H (c\<lparr>cc_dependencies := ds @ [\<lparr>dl_name = action_debug a, dl_digest = selector_text s\<rparr>], cc_grants := gs\<rparr>)
     = capsule_digest_of H (c\<lparr>cc_dependencies := ds, cc_grants := g # gs\<rparr>)"
  by (simp add: assms capsule_digest_of_def capsule_body_def)

text \<open>The stdin limit of the budget is not bound by the digest.\<close>

lemma stdin_budget_not_digested:
  "capsule_digest_of H (c\<lparr>cc_budget := (cc_budget c)\<lparr>bu_max_stdin_bytes := n\<rparr>\<rparr>) = capsule_digest_of H c"
  by (simp add: capsule_digest_of_def capsule_body_def)

text \<open>
  A version is compared with the last promoted one when it is admitted, not when it is promoted: while
  no version is promoted, versions with any grants are admitted side by side.
\<close>

lemma unpromoted_version_not_compared:
  "bt_get (cr_history self) (cc_name c) = None \<Longrightarrow> fst (capsule_admit H self c source_bytes) \<noteq> Err CcEscalation"
  by (auto simp: capsule_admit_def previous_version_def capsule_validate_def split: sum.splits prod.splits if_splits)

text \<open>The active version plays no part in the authorisation: after a rollback the newer version still runs.\<close>

lemma authorize_ignores_active: "authorize_execution (self\<lparr>cr_active := active\<rparr>) i requested names = authorize_execution self i requested names"
  by (simp add: authorize_execution_def candidate_of_def capsule_promoted_def Let_def cong: option.case_cong sum.case_cong if_cong)

text \<open>The budget of a capsule starts at the largest number of milliseconds, and anew whenever it is admitted again.\<close>

lemma admission_refills_budget:
  "fst (capsule_admit H self c source_bytes) = Ok k \<Longrightarrow>
     map_option ad_budget_remaining_ms (bt_get (cr_capsules (snd (capsule_admit H self c source_bytes))) (cc_capsule_id c)) = Some (- 1)"
  by (auto simp: capsule_admit_def bt_get_insert split: sum.splits prod.splits if_splits)

end
