(* ===== verification/PathGuard.thy ===== *)
theory PathGuard
  imports HostFiles
begin

text \<open>
  The canonical path guard of the sandbox (\<open>crates/sandbox/src/path.rs\<close>) over the file tree: which
  candidates resolve, and to what, and what opening them does.
\<close>

datatype path_error = PathAbsolute | PathTraversal | PathMalformed | PathSymlink | PathEscape | PathRace | PathIo

fun path_error_str :: "path_error \<Rightarrow> string" where
  "path_error_str PathAbsolute = ''absolute''"
| "path_error_str PathTraversal = ''traversal''"
| "path_error_str PathMalformed = ''malformed''"
| "path_error_str PathSymlink = ''symlink_component''"
| "path_error_str PathEscape = ''escape''"
| "path_error_str PathRace = ''race_detected''"
| "path_error_str PathIo = ''io''"

text \<open>\<open>symlink_metadata\<close>: the last component is not followed.\<close>

definition fs_lstat :: "fs \<Rightarrow> string list \<Rightarrow> fs_node option" where
  "fs_lstat fs names =
     (if names = [] then Some FsDir
      else (case fs_walk MAX_LINKS fs [] (absolute_path (butlast names)) of
              None \<Rightarrow> None
            | Some d \<Rightarrow> fs_get fs (d @ [last names])))"

fun is_link :: "fs_node \<Rightarrow> bool" where
  "is_link (FsLink _) = True"
| "is_link _ = False"

text \<open>\<open>new\<close>: the root is a directory stored in canonical form.\<close>

definition guard_new :: "fs \<Rightarrow> string list \<Rightarrow> path_error + string list" where
  "guard_new fs root =
     (if fs_lstat fs root \<noteq> Some FsDir then Err PathIo
      else if fs_walk MAX_LINKS fs [] (absolute_path root) \<noteq> Some root then Err PathIo
      else Ok root)"

fun normal_segments :: "path_component list \<Rightarrow> path_error + string list" where
  "normal_segments [] = Ok []"
| "normal_segments (Normal n # rest) =
     (if CHR 0x00 \<in> set n \<or> n = ''.'' then Err PathMalformed
      else (case normal_segments rest of Err e \<Rightarrow> Err e | Ok ns \<Rightarrow> Ok (n # ns)))"
| "normal_segments (CurDir # rest) = normal_segments rest"
| "normal_segments (ParentDir # rest) = Err PathTraversal"
| "normal_segments (RootDir # rest) = Err PathAbsolute"

definition guard_normalize :: "string \<Rightarrow> path_error + string list" where
  "guard_normalize candidate =
     (if candidate = [] \<or> CHR 0x00 \<in> set candidate then Err PathMalformed
      else if starts_with candidate ''/'' \<or> CHR 0x5C \<in> set candidate then Err PathAbsolute
      else normal_segments (path_components candidate))"

fun check_segments :: "fs \<Rightarrow> string list \<Rightarrow> string list \<Rightarrow> path_error + string list" where
  "check_segments fs current [] = Ok current"
| "check_segments fs current (n # ns) =
     (case fs_lstat fs (current @ [n]) of
        None \<Rightarrow> Err PathIo
      | Some node \<Rightarrow> if is_link node then Err PathSymlink else check_segments fs (current @ [n]) ns)"

definition guard_resolve :: "fs \<Rightarrow> string list \<Rightarrow> string \<Rightarrow> path_error + string list" where
  "guard_resolve fs root candidate =
     (case guard_normalize candidate of Err e \<Rightarrow> Err e | Ok segments \<Rightarrow>
      case check_segments fs root segments of Err e \<Rightarrow> Err e | Ok current \<Rightarrow>
      case fs_walk MAX_LINKS fs [] (absolute_path current) of
        None \<Rightarrow> Err PathIo
      | Some canonical \<Rightarrow> if \<not> prefix root canonical then Err PathEscape else Ok canonical)"

fun check_parents :: "fs \<Rightarrow> string list \<Rightarrow> string list \<Rightarrow> path_error + string list" where
  "check_parents fs parent [] = Ok parent"
| "check_parents fs parent (n # ns) =
     (case fs_lstat fs (parent @ [n]) of
        None \<Rightarrow> Err PathIo
      | Some node \<Rightarrow> if node \<noteq> FsDir then Err PathSymlink else check_parents fs (parent @ [n]) ns)"

definition guard_resolve_for_create :: "fs \<Rightarrow> string list \<Rightarrow> string \<Rightarrow> path_error + string list" where
  "guard_resolve_for_create fs root candidate =
     (case guard_normalize candidate of Err e \<Rightarrow> Err e | Ok segments \<Rightarrow>
      if segments = [] then Err PathMalformed
      else if last segments \<in> {[], ''.'', ''..''} then Err PathTraversal
      else case check_parents fs root (butlast segments) of Err e \<Rightarrow> Err e | Ok parent \<Rightarrow>
      (let target = parent @ [last segments] in if \<not> prefix root target then Err PathEscape else Ok target))"

text \<open>A guard over any path: only an absolute one of plain names can be canonical.\<close>

fun plain_names :: "path_component list \<Rightarrow> string list option" where
  "plain_names [] = Some []"
| "plain_names (Normal n # rest) = map_option ((#) n) (plain_names rest)"
| "plain_names (_ # rest) = None"

definition guard_at :: "fs \<Rightarrow> path_component list \<Rightarrow> path_error + string list" where
  "guard_at fs p =
     (case p of
        RootDir # rest \<Rightarrow> (case plain_names rest of None \<Rightarrow> Err PathIo | Some names \<Rightarrow> guard_new fs names)
      | _ \<Rightarrow> Err PathIo)"

subsection \<open>Opening\<close>

text \<open>
  An open file is the place of its entry in the tree, which stands for the device and the inode:
  the tree has no hard links. The check after opening compares it with the entry the path names,
  not following a last link.
\<close>

definition fs_lplace :: "fs \<Rightarrow> string list \<Rightarrow> string list option" where
  "fs_lplace fs names =
     (if names = [] then Some []
      else (case fs_walk MAX_LINKS fs [] (absolute_path (butlast names)) of
              None \<Rightarrow> None
            | Some d \<Rightarrow> if fs_get fs (d @ [last names]) = None then None else Some (d @ [last names])))"

definition verify_identity :: "fs \<Rightarrow> string list \<Rightarrow> string list \<Rightarrow> path_error + unit" where
  "verify_identity fs file resolved =
     (case fs_lplace fs resolved of
        None \<Rightarrow> Err PathIo
      | Some place \<Rightarrow>
          if file \<noteq> place then Err PathRace
          else (case fs_walk MAX_LINKS fs [] (absolute_path resolved) of
                  None \<Rightarrow> Err PathIo
                | Some reopened \<Rightarrow> if reopened \<noteq> resolved then Err PathRace else Ok ()))"

definition open_resolved_read :: "fs \<Rightarrow> string list \<Rightarrow> string list \<Rightarrow> path_error + string list" where
  "open_resolved_read fs root resolved =
     (if \<not> prefix root resolved then Err PathEscape
      else (case fs_walk MAX_LINKS fs [] (absolute_path resolved) of
              None \<Rightarrow> Err PathIo
            | Some file \<Rightarrow> (case verify_identity fs file resolved of Err e \<Rightarrow> Err e | Ok _ \<Rightarrow> Ok file)))"

definition open_read :: "fs \<Rightarrow> string list \<Rightarrow> string \<Rightarrow> path_error + string list \<times> string list" where
  "open_read fs root candidate =
     (case guard_resolve fs root candidate of Err e \<Rightarrow> Err e | Ok resolved \<Rightarrow>
      case open_resolved_read fs root resolved of Err e \<Rightarrow> Err e | Ok file \<Rightarrow> Ok (file, resolved))"

text \<open>Opening for writing truncates when it creates, before the identity is looked at.\<close>

definition open_resolved_write :: "fs \<Rightarrow> string list \<Rightarrow> string list \<Rightarrow> bool \<Rightarrow> (path_error + string list) \<times> fs" where
  "open_resolved_write fs root resolved create =
     (if \<not> prefix root resolved then (Err PathEscape, fs)
      else (case (if create then fs_open MAX_LINKS fs [] (absolute_path resolved)
                  else if fs_read fs (absolute_path resolved) = None then None
                  else fs_walk MAX_LINKS fs [] (absolute_path resolved)) of
              None \<Rightarrow> (Err PathIo, fs)
            | Some file \<Rightarrow>
                (let fs1 = (if create then bt_insert file (FsFile []) fs else fs) in
                 ((case verify_identity fs1 file resolved of Err e \<Rightarrow> Err e | Ok _ \<Rightarrow> Ok file), fs1))))"

definition open_write :: "fs \<Rightarrow> string list \<Rightarrow> string \<Rightarrow> bool \<Rightarrow> (path_error + string list \<times> string list) \<times> fs" where
  "open_write fs root candidate create =
     (case (if create then guard_resolve_for_create fs root candidate else guard_resolve fs root candidate) of
        Err e \<Rightarrow> (Err e, fs)
      | Ok resolved \<Rightarrow>
          (let (r, fs1) = open_resolved_write fs root resolved create
           in (case r of Err e \<Rightarrow> Err e | Ok file \<Rightarrow> Ok (file, resolved), fs1)))"

section \<open>No link is passed\<close>

text \<open>Real directories all the way: no component of the path is a link.\<close>

definition link_free :: "fs \<Rightarrow> string list \<Rightarrow> bool" where
  "link_free fs names \<longleftrightarrow> (\<forall>i \<le> length names. \<forall>t. fs_get fs (take i names) \<noteq> Some (FsLink t))"

lemma link_free_snoc: "link_free fs (names @ [n]) \<longleftrightarrow> link_free fs names \<and> (\<forall>t. fs_get fs (names @ [n]) \<noteq> Some (FsLink t))"
  by (fastforce simp: link_free_def le_Suc_eq)

lemma walk_link_free:
  "\<forall>i \<le> length ns. \<forall>t. fs_get fs (cur @ take i ns) \<noteq> Some (FsLink t) \<Longrightarrow> fs_walk k fs cur (map Normal ns) = Some q \<Longrightarrow> q = cur @ ns"
proof (induction ns arbitrary: cur)
  case (Cons n ns)
  have nl: "fs_get fs (cur @ [n]) \<noteq> Some (FsLink t)" for t
    using Cons.prems(1) by (auto dest: spec [of _ "Suc 0"])
  have "q = (cur @ [n]) @ ns" if "fs_walk k fs (cur @ [n]) (map Normal ns) = Some q"
    using that Cons.prems(1) by (intro Cons.IH) (auto dest: spec [of _ "Suc _"])
  with Cons.prems(2) nl show ?case
    by (auto split: option.splits fs_node.splits if_splits)
qed simp

lemma lstat_link_free:
  assumes "link_free fs names" "fs_lstat fs (names @ [n]) = Some node"
  shows "fs_get fs (names @ [n]) = Some node"
proof -
  obtain d where "fs_walk MAX_LINKS fs [] (map Normal names) = Some d" "fs_get fs (d @ [n]) = Some node"
    using assms(2) by (auto simp: fs_lstat_def absolute_path_def split: option.splits)
  with assms(1) walk_link_free [of names fs "[]"] show ?thesis by (auto simp: link_free_def)
qed

lemma check_segments_link_free:
  "check_segments fs current ns = Ok q \<Longrightarrow> link_free fs current \<Longrightarrow> q = current @ ns \<and> link_free fs q"
proof (induction ns arbitrary: current)
  case (Cons n ns)
  then obtain node where node: "fs_lstat fs (current @ [n]) = Some node" "\<not> is_link node"
      "check_segments fs (current @ [n]) ns = Ok q"
    by (auto split: option.splits if_splits)
  then have "link_free fs (current @ [n])"
    using Cons.prems(2) lstat_link_free [OF Cons.prems(2) node(1)] by (auto simp: link_free_snoc)
  with Cons.IH [OF node(3)] show ?case by auto
qed simp

lemma check_parents_link_free:
  "check_parents fs parent ns = Ok q \<Longrightarrow> link_free fs parent \<Longrightarrow> q = parent @ ns \<and> link_free fs q"
proof (induction ns arbitrary: parent)
  case (Cons n ns)
  then have node: "fs_lstat fs (parent @ [n]) = Some FsDir" "check_parents fs (parent @ [n]) ns = Ok q"
    by (auto split: option.splits if_splits)
  then have "link_free fs (parent @ [n])"
    using Cons.prems(2) lstat_link_free [OF Cons.prems(2) node(1)] by (auto simp: link_free_snoc)
  with Cons.IH [OF node(2)] show ?case by auto
qed simp

text \<open>
  What the guard resolves: under a root without links on its way, the result is the root followed
  by the candidate's own segments, none of them a parent step, and no entry on the way, the last
  one included, is a link; so reading it reads that very entry.
\<close>

lemma guard_resolve_plain:
  assumes "link_free fs root" "guard_resolve fs root candidate = Ok q"
  shows "\<exists>segments. guard_normalize candidate = Ok segments \<and> q = root @ segments \<and> link_free fs q \<and> fs_walk MAX_LINKS fs [] (absolute_path q) = Some q"
proof -
  obtain segments current where s: "guard_normalize candidate = Ok segments" "check_segments fs root segments = Ok current"
      "fs_walk MAX_LINKS fs [] (absolute_path current) = Some q"
    using assms(2) by (auto simp: guard_resolve_def split: sum.splits option.splits if_splits)
  then have c: "current = root @ segments" "link_free fs current"
    using check_segments_link_free [OF s(2) assms(1)] by auto
  then have "q = current" using walk_link_free [of current fs "[]"] s(3) by (auto simp: link_free_def absolute_path_def)
  with s c show ?thesis by auto
qed

lemma guard_create_plain:
  assumes "link_free fs root" "guard_resolve_for_create fs root candidate = Ok q"
  shows "\<exists>segments. guard_normalize candidate = Ok segments \<and> q = root @ segments \<and> link_free fs (butlast q)"
proof -
  obtain segments parent where s: "guard_normalize candidate = Ok segments" "segments \<noteq> []"
      "check_parents fs root (butlast segments) = Ok parent" "q = parent @ [last segments]"
    using assms(2) by (auto simp: guard_resolve_for_create_def Let_def split: sum.splits if_splits)
  with check_parents_link_free [OF s(3) assms(1)] show ?thesis by (auto simp: butlast_append)
qed

text \<open>Resolved paths open as themselves: on a tree nobody changes meanwhile the identity check passes.\<close>

lemma lplace_walk:
  "link_free fs q \<Longrightarrow> fs_walk MAX_LINKS fs [] (absolute_path q) = Some q \<Longrightarrow> fs_lplace fs q = Some q"
proof (cases q rule: rev_cases)
  case (snoc ns n)
  assume q: "link_free fs q" "fs_walk MAX_LINKS fs [] (absolute_path q) = Some q"
  have ns: "fs_walk k fs cur (map Normal (ns @ [n])) = Some q' \<Longrightarrow> \<forall>i \<le> length (ns @ [n]). \<forall>t. fs_get fs (cur @ take i (ns @ [n])) \<noteq> Some (FsLink t)
      \<Longrightarrow> fs_walk k fs cur (map Normal ns) = Some (cur @ ns) \<and> fs_get fs (cur @ ns @ [n]) \<noteq> None" for k cur q'
  proof (induction ns arbitrary: cur)
    case Nil
    then show ?case by (auto split: option.splits)
  next
    case (Cons m ns)
    have nl: "fs_get fs (cur @ [m]) \<noteq> Some (FsLink t)" for t
      using Cons.prems(2) by (auto dest: spec [of _ "Suc 0"])
    have rec: "fs_walk k fs (cur @ [m]) (map Normal ns) = Some ((cur @ [m]) @ ns) \<and> fs_get fs ((cur @ [m]) @ ns @ [n]) \<noteq> None"
      if "fs_walk k fs (cur @ [m]) (map Normal (ns @ [n])) = Some q'"
      using that Cons.prems(2) by (intro Cons.IH) (auto dest: spec [of _ "Suc _"])
    with Cons.prems(1) nl show ?case by (auto split: option.splits fs_node.splits if_splits)
  qed
  have "fs_walk MAX_LINKS fs [] (map Normal ns) = Some ns \<and> fs_get fs (ns @ [n]) \<noteq> None"
    using ns [of MAX_LINKS "[]" q] q snoc by (auto simp: absolute_path_def link_free_def)
  then show ?thesis using snoc by (auto simp: fs_lplace_def absolute_path_def)
qed (simp add: fs_lplace_def)

lemma open_read_resolved:
  assumes "link_free fs root"
  shows "open_read fs root candidate = map_sum id (\<lambda>q. (q, q)) (guard_resolve fs root candidate)"
proof (cases "guard_resolve fs root candidate")
  case (Inr q)
  have "prefix root q" using guard_resolve_plain [OF assms Inr] by auto
  moreover have "link_free fs q" "fs_walk MAX_LINKS fs [] (absolute_path q) = Some q" using guard_resolve_plain [OF assms Inr] by auto
  ultimately show ?thesis using lplace_walk Inr by (simp add: open_read_def open_resolved_read_def verify_identity_def)
qed (simp add: open_read_def)

text \<open>
  A candidate that creation accepts may still name a link that exists: the last component is not
  looked at, and the file outside the root is emptied before the race is reported.
\<close>

lemma create_follows_existing_link:
  "guard_resolve_for_create sample_linked_tree [''wt''] ''out'' = Ok [''wt'', ''out'']"
  by code_simp

definition sample_file_link :: fs where
  "sample_file_link = bt_insert [''wt'', ''out''] (FsLink [RootDir, Normal ''etc'', Normal ''hosts'']) sample_linked_tree"

lemma create_truncates_outside:
  "fst (open_write sample_file_link [''wt''] ''out'' True) = Err PathRace"
  "fs_read sample_file_link (absolute_path [''etc'', ''hosts'']) = Some ''x''"
  "fs_read (snd (open_write sample_file_link [''wt''] ''out'' True)) (absolute_path [''etc'', ''hosts'']) = Some []"
  by code_simp+

end
