(* ===== verification/ToolBroker.thy ===== *)
theory ToolBroker
  imports EffectBroker PathGuard FakeBackend "HOL-Library.Product_Lexorder"
begin

text \<open>
  The tool lifecycle (\<open>crates/tool-broker/src/lib.rs\<close>) with its overlay checkpoints and locks
  (\<open>worktree.rs\<close>) over the effect broker and the host's file tree: describe, authorize, prepare,
  execute, verify and compensate. What the commands of a realm, and anyone else, do to the tree
  while an effect executes is the parameter \<open>th_commands\<close>, and git is \<open>th_git\<close>.
\<close>

section \<open>Overlays\<close>

datatype worktree_error = WtInvalidRoot | WtIo | WtRestoreIncomplete

fun worktree_error_str :: "worktree_error \<Rightarrow> string" where
  "worktree_error_str WtInvalidRoot = ''invalid_root''"
| "worktree_error_str WtIo = ''io''"
| "worktree_error_str WtRestoreIncomplete = ''restore_incomplete''"

record ('s, 'b) tool_host =
  th_hash :: "string \<Rightarrow> string"
  th_cwd :: "string list"
  th_temp_dir :: string
  th_git :: "fs \<Rightarrow> path_component list \<Rightarrow> (bool \<times> string) option"
  th_commands :: "('s, 'b) effect_broker \<Rightarrow> ('s, 'b) effect_broker \<Rightarrow> fs \<Rightarrow> fs"

definition content_hash_of :: "(string \<Rightarrow> string) \<Rightarrow> string \<Rightarrow> string" where
  "content_hash_of H bytes = ''sha256:'' @ hex_upper (H bytes)"

text \<open>
  \<open>visit_files\<close>: the files below a directory. A link anywhere is an error, and so is a directory
  that cannot be read; \<open>.git\<close> directories are passed over. The fuel bounds the depth.
\<close>

type_synonym visited = "(worktree_error + (string \<times> string) list) option"

definition then_visited :: "(string \<times> string) list \<Rightarrow> visited \<Rightarrow> visited" where
  "then_visited found rest = map_option (map_sum id (\<lambda>more. found @ more)) rest"

fun visit_entries :: "(string list \<Rightarrow> visited) \<Rightarrow> fs \<Rightarrow> string list \<Rightarrow> string list \<Rightarrow> string list \<Rightarrow> visited" where
  "visit_entries sub fs base dir [] = Some (Ok [])"
| "visit_entries sub fs base dir (n # ns) =
     (case fs_get fs (base @ dir @ [n]) of
        None \<Rightarrow> Some (Err WtIo)
      | Some (FsLink _) \<Rightarrow> Some (Err WtIo)
      | Some FsDir \<Rightarrow>
          if n = ''.git'' then visit_entries sub fs base dir ns
          else (case sub (dir @ [n]) of
                  None \<Rightarrow> None
                | Some (Err e) \<Rightarrow> Some (Err e)
                | Some (Ok found) \<Rightarrow> then_visited found (visit_entries sub fs base dir ns))
      | Some (FsFile bytes) \<Rightarrow>
          then_visited [(join_with ''/'' (dir @ [n]), bytes)] (visit_entries sub fs base dir ns))"

fun visit_files :: "fs \<Rightarrow> nat \<Rightarrow> string list \<Rightarrow> string list \<Rightarrow> visited" where
  "visit_files fs 0 base dir = None"
| "visit_files fs (Suc k) base dir =
     visit_entries (\<lambda>sub. visit_files fs k base sub) fs base dir (fs_children fs (base @ dir))"

definition visit_root :: "fs \<Rightarrow> string list \<Rightarrow> path_component list \<Rightarrow> worktree_error + (string \<times> string) list" where
  "visit_root fs cwd root =
     (case (if root = [] then None else fs_walk MAX_LINKS fs cwd root) of
        None \<Rightarrow> Err WtIo
      | Some base \<Rightarrow>
          if fs_get fs base \<noteq> Some FsDir then Err WtIo
          else (case visit_files fs (Suc (tree_height fs)) base [] of Some r \<Rightarrow> r | None \<Rightarrow> Err WtIo))"

text \<open>The fuel is enough.\<close>

lemma visit_entries_return:
  assumes "\<And>n. n \<in> set ns \<Longrightarrow> fs_get fs (base @ dir @ [n]) = Some FsDir \<Longrightarrow> sub (dir @ [n]) \<noteq> None"
  shows "visit_entries sub fs base dir ns \<noteq> None"
  using assms
proof (induction ns)
  case (Cons n ns)
  then have "visit_entries sub fs base dir ns \<noteq> None" "fs_get fs (base @ dir @ [n]) = Some FsDir \<Longrightarrow> sub (dir @ [n]) \<noteq> None"
    by simp_all
  then show ?case by (auto simp: then_visited_def split: option.splits fs_node.splits sum.splits)
qed simp

lemma visit_files_return:
  "fs_get fs (base @ dir) = Some FsDir \<Longrightarrow> tree_height fs < length (base @ dir) + k \<Longrightarrow> visit_files fs k base dir \<noteq> None"
proof (induction k arbitrary: dir)
  case 0
  then show ?case using fs_get_height by fastforce
next
  case (Suc k)
  then show ?case unfolding visit_files.simps by (intro visit_entries_return Suc.IH) auto
qed

lemma visit_root_returns: "fs_get fs base = Some FsDir \<Longrightarrow> visit_files fs (Suc (tree_height fs)) base [] \<noteq> None"
  by (rule visit_files_return) auto

definition git_status_digest :: "('s, 'b) tool_host \<Rightarrow> fs \<Rightarrow> path_component list \<Rightarrow> string" where
  "git_status_digest T fs root =
     content_hash_of (th_hash T) (case th_git T fs root of Some (True, out) \<Rightarrow> utf8_lossy out | _ \<Rightarrow> [])"

definition overlay_inventory :: "('s, 'b) tool_host \<Rightarrow> fs \<Rightarrow> path_component list \<Rightarrow> (string \<times> string) list" where
  "overlay_inventory T fs root =
     (case visit_root fs (th_cwd T) root of
        Err _ \<Rightarrow> []
      | Ok entries \<Rightarrow> map (\<lambda>(path, content). (path, content_hash_of (th_hash T) content)) (sort_key fst entries))"

definition overlay_fingerprint :: "('s, 'b) tool_host \<Rightarrow> fs \<Rightarrow> path_component list \<Rightarrow> string" where
  "overlay_fingerprint T fs root =
     content_hash_of (th_hash T)
       (concat (map (\<lambda>(path, hash). path @ [CHR 0x00] @ hash @ [CHR 0x00]) (overlay_inventory T fs root)) @ git_status_digest T fs root)"

text \<open>The paths and hashes of walked files, in the order of the inventory; a walk that fails has none.\<close>

definition hashed :: "('s, 'b) tool_host \<Rightarrow> (string \<times> string) list \<Rightarrow> (string \<times> string) list" where
  "hashed T files = map (\<lambda>(path, content). (path, content_hash_of (th_hash T) content)) (sort_key fst files)"

lemma overlay_inventory_walk:
  "overlay_inventory T fs root = (case visit_root fs (th_cwd T) root of Err _ \<Rightarrow> [] | Ok files \<Rightarrow> hashed T files)"
  by (simp add: overlay_inventory_def hashed_def split: sum.split)

lemma fst_hashed [simp]: "fst ` set (hashed T files) = fst ` set files"
  by (force simp: hashed_def)

lemma hashed_Nil [simp]: "hashed T files = [] \<longleftrightarrow> files = []"
  by (simp add: hashed_def) (metis length_0_conv length_sort)

record checkpoint =
  ck_entries :: "(string \<times> string) list"
  ck_git_digest :: string

definition checkpoint_capture :: "('s, 'b) tool_host \<Rightarrow> fs \<Rightarrow> path_component list \<Rightarrow> worktree_error + checkpoint" where
  "checkpoint_capture T fs root =
     (case fs_canonicalize fs (th_cwd T) root of
        None \<Rightarrow> Err WtInvalidRoot
      | Some canonical \<Rightarrow>
          if absolute_path canonical \<noteq> root then Err WtInvalidRoot
          else (case visit_root fs (th_cwd T) root of
                  Err e \<Rightarrow> Err e
                | Ok entries \<Rightarrow> Ok \<lparr>ck_entries = sort_key fst entries, ck_git_digest = git_status_digest T fs root\<rparr>))"

definition inventory_hashes :: "('s, 'b) tool_host \<Rightarrow> checkpoint \<Rightarrow> (string \<times> string) list" where
  "inventory_hashes T ck = map (\<lambda>(path, content). (path, content_hash_of (th_hash T) content)) (ck_entries ck)"

fun remove_uncaptured :: "path_component list \<Rightarrow> string list \<Rightarrow> string list \<Rightarrow> fs \<Rightarrow> (worktree_error + unit) \<times> fs" where
  "remove_uncaptured root captured [] fs = (Ok (), fs)"
| "remove_uncaptured root captured (path # paths) fs =
     (if path \<in> set captured then remove_uncaptured root captured paths fs
      else (case fs_remove fs (HostFiles.path_join root path) of
              None \<Rightarrow> (Err WtIo, fs)
            | Some fs1 \<Rightarrow> remove_uncaptured root captured paths fs1))"

fun rewrite_captured :: "path_component list \<Rightarrow> (string \<times> string) list \<Rightarrow> fs \<Rightarrow> (worktree_error + unit) \<times> fs" where
  "rewrite_captured root [] fs = (Ok (), fs)"
| "rewrite_captured root ((path, content) # rest) fs =
     (case make_parent fs (HostFiles.path_join root path) of
        (False, fs1) \<Rightarrow> (Err WtIo, fs1)
      | (True, fs1) \<Rightarrow>
          (case fs_write fs1 (HostFiles.path_join root path) content of
             None \<Rightarrow> (Err WtIo, fs1)
           | Some fs2 \<Rightarrow> rewrite_captured root rest fs2))"

definition checkpoint_restore ::
  "('s, 'b) tool_host \<Rightarrow> checkpoint \<Rightarrow> path_component list \<Rightarrow> fs \<Rightarrow> (worktree_error + unit) \<times> fs" where
  "checkpoint_restore T self root fs =
     (case fs_canonicalize fs (th_cwd T) root of
        None \<Rightarrow> (Err WtInvalidRoot, fs)
      | Some names \<Rightarrow>
          (let canonical = absolute_path names in
           case remove_uncaptured canonical (map fst (ck_entries self)) (map fst (overlay_inventory T fs canonical)) fs of
             (Err e, fs1) \<Rightarrow> (Err e, fs1)
           | (Ok _, fs1) \<Rightarrow>
               (case rewrite_captured canonical (ck_entries self) fs1 of
                  (Err e, fs2) \<Rightarrow> (Err e, fs2)
                | (Ok _, fs2) \<Rightarrow>
                    if overlay_inventory T fs2 canonical \<noteq> inventory_hashes T self then (Err WtRestoreIncomplete, fs2)
                    else (Ok (), fs2))))"

subsection \<open>Mutation locks\<close>

record worktree_manager =
  wm_held :: "(string list, u64) btree"
  wm_generation :: u64

definition worktree_manager_new :: worktree_manager where
  "worktree_manager_new = \<lparr>wm_held = [], wm_generation = 0\<rparr>"

definition try_lock :: "('s, 'b) tool_host \<Rightarrow> worktree_manager \<Rightarrow> fs \<Rightarrow> path_component list \<Rightarrow> bool \<times> worktree_manager" where
  "try_lock T self fs root =
     (case fs_canonicalize fs (th_cwd T) root of
        None \<Rightarrow> (False, self)
      | Some canonical \<Rightarrow>
          if bt_get (wm_held self) canonical \<noteq> None then (False, self)
          else (let generation = wm_generation self + 1
                in (True, \<lparr>wm_held = bt_insert canonical generation (wm_held self), wm_generation = generation\<rparr>)))"

definition release_lock :: "('s, 'b) tool_host \<Rightarrow> worktree_manager \<Rightarrow> fs \<Rightarrow> path_component list \<Rightarrow> worktree_manager" where
  "release_lock T self fs root =
     (case fs_canonicalize fs (th_cwd T) root of
        None \<Rightarrow> self
      | Some canonical \<Rightarrow> self\<lparr>wm_held := bt_remove canonical (wm_held self)\<rparr>)"

definition is_locked :: "('s, 'b) tool_host \<Rightarrow> worktree_manager \<Rightarrow> fs \<Rightarrow> path_component list \<Rightarrow> bool" where
  "is_locked T self fs root \<longleftrightarrow>
     (case fs_canonicalize fs (th_cwd T) root of None \<Rightarrow> False | Some canonical \<Rightarrow> bt_get (wm_held self) canonical \<noteq> None)"

section \<open>Tools\<close>

datatype tool_name = ToolRead | ToolStat | ToolHash | ToolGitStatus | ToolGitDiff | ToolPatch | ToolShell | ToolTest

fun tool_name_str :: "tool_name \<Rightarrow> string" where
  "tool_name_str ToolRead = ''read''"
| "tool_name_str ToolStat = ''stat''"
| "tool_name_str ToolHash = ''hash''"
| "tool_name_str ToolGitStatus = ''git_status''"
| "tool_name_str ToolGitDiff = ''git_diff''"
| "tool_name_str ToolPatch = ''patch''"
| "tool_name_str ToolShell = ''shell''"
| "tool_name_str ToolTest = ''test''"

record tool_descriptor =
  td_name :: tool_name
  td_action :: action
  td_mutating :: bool

fun describe :: "tool_name \<Rightarrow> tool_descriptor" where
  "describe ToolRead = \<lparr>td_name = ToolRead, td_action = FsRead, td_mutating = False\<rparr>"
| "describe ToolStat = \<lparr>td_name = ToolStat, td_action = FsRead, td_mutating = False\<rparr>"
| "describe ToolHash = \<lparr>td_name = ToolHash, td_action = FsRead, td_mutating = False\<rparr>"
| "describe ToolGitStatus = \<lparr>td_name = ToolGitStatus, td_action = ProcessSpawn, td_mutating = False\<rparr>"
| "describe ToolGitDiff = \<lparr>td_name = ToolGitDiff, td_action = ProcessSpawn, td_mutating = False\<rparr>"
| "describe ToolShell = \<lparr>td_name = ToolShell, td_action = ProcessSpawn, td_mutating = True\<rparr>"
| "describe ToolTest = \<lparr>td_name = ToolTest, td_action = ProcessSpawn, td_mutating = True\<rparr>"
| "describe ToolPatch = \<lparr>td_name = ToolPatch, td_action = FsWrite, td_mutating = True\<rparr>"

datatype tool_args =
    ArgRead string
  | ArgStat string
  | ArgHash string
  | ArgGitStatus
  | ArgGitDiff
  | is_ArgPatch: ArgPatch (arg_path: string) (arg_expected_before_hash: string) (arg_new_content: string)
  | ArgShell "string list" bool
  | ArgTest "string list" bool

fun args_tool :: "tool_args \<Rightarrow> tool_name" where
  "args_tool (ArgRead _) = ToolRead"
| "args_tool (ArgStat _) = ToolStat"
| "args_tool (ArgHash _) = ToolHash"
| "args_tool ArgGitStatus = ToolGitStatus"
| "args_tool ArgGitDiff = ToolGitDiff"
| "args_tool (ArgPatch _ _ _) = ToolPatch"
| "args_tool (ArgShell _ _) = ToolShell"
| "args_tool (ArgTest _ _) = ToolTest"

fun declared_paths :: "tool_args \<Rightarrow> string list" where
  "declared_paths (ArgPatch path _ _) = [path]"
| "declared_paths (ArgShell declared _) = declared"
| "declared_paths (ArgTest declared _) = declared"
| "declared_paths _ = []"

record tool_invocation =
  ti_request :: capability_request
  ti_plan :: sandbox_plan
  ti_args :: tool_args
  ti_overlay_root :: "string option"

datatype evidence =
    EvContentHash string string "string option"
  | EvStat string bool "u64 option"
  | EvInventoryDelta (ev_changed: "string list") (ev_undeclared: "string list") (ev_missing: "string list") (ev_git_drift: bool)
  | EvExitStatus "int option" bool

datatype failure_kind = Retriable | NonRetriable | NeedsReconcile

record tool_outcome =
  to_verified :: bool
  to_evidence :: evidence
  to_stdout :: string
  to_stderr :: string
  to_exit_code :: "int option"
  to_compensated :: bool

datatype tool_error =
  ArgumentMismatch | OverlayRequired | OverlayNotDeclared | OverlayNotCanonical | ToolInvalidPlan plan_error

fun tool_error_str :: "tool_error \<Rightarrow> string" where
  "tool_error_str ArgumentMismatch = ''argument_mismatch''"
| "tool_error_str OverlayRequired = ''overlay_required''"
| "tool_error_str OverlayNotDeclared = ''overlay_not_declared''"
| "tool_error_str OverlayNotCanonical = ''overlay_not_canonical''"
| "tool_error_str (ToolInvalidPlan _) = ''invalid_plan''"

datatype ('ae, 'je) tool_failure =
    FailContract tool_error
  | FailPrepare failure_kind
  | FailBroker "('ae, 'je) broker_failure"
  | FailWorktreeBusy
  | is_FailVerify: FailVerify evidence failure_kind bool

record ('s, 'b) tool_broker =
  tb_broker :: "('s, 'b) effect_broker"
  tb_worktrees :: worktree_manager

definition tool_broker_new :: "('s, 'b) effect_broker \<Rightarrow> ('s, 'b) tool_broker" where
  "tool_broker_new broker = \<lparr>tb_broker = broker, tb_worktrees = worktree_manager_new\<rparr>"

definition tool_effect :: "tool_invocation \<Rightarrow> isolated_effect" where
  "tool_effect invocation = \<lparr>ie_request = ti_request invocation, ie_plan = ti_plan invocation, ie_leases = [], ie_egress = None\<rparr>"

definition prepare_invocation ::
  "(string \<Rightarrow> string) \<Rightarrow> (sandbox_plan \<Rightarrow> string option) \<Rightarrow> tool_invocation \<Rightarrow> tool_error + capability_request" where
  "prepare_invocation H enc invocation = map_sum ToolInvalidPlan id (prepare H enc (tool_effect invocation))"

section \<open>Verification\<close>

datatype verification_outcome = Passed evidence | Failed evidence failure_kind

text \<open>What reading an open entry to its end gives; the error of reading a directory is ignored.\<close>

definition read_all :: "fs \<Rightarrow> string list \<Rightarrow> string" where
  "read_all fs file = (case fs_get fs file of Some (FsFile bytes) \<Rightarrow> bytes | _ \<Rightarrow> [])"

definition verify_hash ::
  "('s, 'b) tool_host \<Rightarrow> fs \<Rightarrow> path_component list \<Rightarrow> string \<Rightarrow> string option \<Rightarrow> verification_outcome" where
  "verify_hash T fs root path declared =
     (case (case guard_at fs root of Err e \<Rightarrow> Err e | Ok guard \<Rightarrow> open_read fs guard path) of
        Ok (file, _) \<Rightarrow>
          (let observed = content_hash_of (th_hash T) (read_all fs file) in
           if (case declared of None \<Rightarrow> True | Some d \<Rightarrow> d = observed)
           then Passed (EvContentHash path observed declared)
           else Failed (EvContentHash path observed declared) NonRetriable)
      | Err _ \<Rightarrow> Failed (EvContentHash path [] declared) NonRetriable)"

definition verify_stat :: "fs \<Rightarrow> path_component list \<Rightarrow> string \<Rightarrow> verification_outcome" where
  "verify_stat fs root path =
     (case (case guard_at fs root of
              Err _ \<Rightarrow> None
            | Ok guard \<Rightarrow> (case guard_resolve fs guard path of Err _ \<Rightarrow> None | Ok resolved \<Rightarrow> fs_lstat fs resolved)) of
        Some (FsFile bytes) \<Rightarrow> Passed (EvStat path True (Some (of_nat (length bytes))))
      | Some _ \<Rightarrow> Failed (EvStat path True None) NonRetriable
      | None \<Rightarrow> Failed (EvStat path False None) NonRetriable)"

text \<open>A \<open>BTreeSet\<close> collected from a list, and the symmetric difference of two in its order.\<close>

definition tree_set :: "'a::linorder list \<Rightarrow> 'a list" where
  "tree_set xs = sort (remdups xs)"

definition symmetric_difference :: "'a::linorder list \<Rightarrow> 'a list \<Rightarrow> 'a list" where
  "symmetric_difference xs ys =
     sort (filter (\<lambda>x. x \<notin> set ys) xs @ filter (\<lambda>y. y \<notin> set xs) ys)"

definition verify_delta ::
  "('s, 'b) tool_host \<Rightarrow> fs \<Rightarrow> tool_args \<Rightarrow> path_component list \<Rightarrow> checkpoint option \<Rightarrow> verification_outcome" where
  "verify_delta T fs args root checkpoint =
     (case checkpoint of
        None \<Rightarrow> Failed (EvInventoryDelta [] [] [] False) NonRetriable
      | Some ck \<Rightarrow>
          (let earlier = tree_set (inventory_hashes T ck);
               later = tree_set (overlay_inventory T fs root);
               changed = map fst (symmetric_difference earlier later);
               declared = tree_set (declared_paths args);
               undeclared = filter (\<lambda>path. path \<notin> set declared) changed;
               git_drift = (earlier = later \<and> ck_git_digest ck \<noteq> git_status_digest T fs root);
               missing = filter (\<lambda>path. path \<notin> set (map fst later)) declared;
               evidence = EvInventoryDelta changed undeclared missing git_drift
           in if missing \<noteq> [] then Failed evidence NonRetriable
              else if undeclared \<noteq> [] \<or> git_drift then Failed evidence NeedsReconcile
              else Passed evidence))"

fun expects_success :: "tool_args \<Rightarrow> bool" where
  "expects_success (ArgShell _ expect) = expect"
| "expects_success (ArgTest _ expect) = expect"
| "expects_success _ = True"

definition verify_process ::
  "('s, 'b) tool_host \<Rightarrow> fs \<Rightarrow> tool_args \<Rightarrow> int option \<Rightarrow> path_component list \<Rightarrow> checkpoint option \<Rightarrow> verification_outcome" where
  "verify_process T fs args code root checkpoint =
     (let evidence = EvExitStatus code (expects_success args) in
      if \<not> (\<not> expects_success args \<or> code = Some 0) then Failed evidence NonRetriable
      else if checkpoint \<noteq> None then verify_delta T fs args root checkpoint
      else Passed evidence)"

definition stale_target :: "('s, 'b) tool_host \<Rightarrow> checkpoint option \<Rightarrow> string \<Rightarrow> string \<Rightarrow> bool" where
  "stale_target T checkpoint path expected_before \<longleftrightarrow>
     (case checkpoint of
        None \<Rightarrow> False
      | Some ck \<Rightarrow> (\<exists>(captured, hash) \<in> set (inventory_hashes T ck). captured = path \<and> hash \<noteq> expected_before))"

fun verify ::
  "('s, 'b) tool_host \<Rightarrow> fs \<Rightarrow> tool_args \<Rightarrow> int option \<Rightarrow> path_component list \<Rightarrow> checkpoint option \<Rightarrow> verification_outcome" where
  "verify T fs (ArgRead path) code root checkpoint = verify_hash T fs root path None"
| "verify T fs (ArgHash path) code root checkpoint = verify_hash T fs root path None"
| "verify T fs (ArgStat path) code root checkpoint = verify_stat fs root path"
| "verify T fs (ArgPatch path expected_before new_content) code root checkpoint =
     (if stale_target T checkpoint path expected_before
      then Failed (EvContentHash path expected_before (Some expected_before)) NonRetriable
      else (case verify_hash T fs root path (Some (content_hash_of (th_hash T) new_content)) of
              Passed _ \<Rightarrow> verify_delta T fs (ArgPatch path expected_before new_content) root checkpoint
            | Failed evidence kind \<Rightarrow> Failed evidence kind))"
| "verify T fs args code root checkpoint = verify_process T fs args code root checkpoint"

section \<open>The lifecycle\<close>

text \<open>Phase 2: the overlay declaration and the lock; the root is absolute for a mutating tool.\<close>

definition declares_overlay :: "validated_plan \<Rightarrow> string list \<Rightarrow> bool" where
  "declares_overlay validated canonical \<longleftrightarrow>
     list_ex (\<lambda>mount. (case mo_source mount of
                 OverlayMount host_path \<Rightarrow> path_components host_path = absolute_path canonical
               | _ \<Rightarrow> False) \<and> mo_writable mount)
       (sp_mounts (vp_plan validated))"

definition overlay_gate ::
  "('s, 'b) tool_host \<Rightarrow> ('s, 'b) tool_broker \<Rightarrow> validated_plan \<Rightarrow> tool_invocation \<Rightarrow> bool \<Rightarrow> fs
   \<Rightarrow> ('ae, 'je) tool_failure + path_component list \<times> ('s, 'b) tool_broker" where
  "overlay_gate T self validated invocation mutating fs =
     (if mutating
      then (case ti_overlay_root invocation of
              None \<Rightarrow> Err (FailContract OverlayRequired)
            | Some root \<Rightarrow>
                (case fs_canonicalize fs (th_cwd T) (path_components root) of
                   None \<Rightarrow> Err (FailContract OverlayNotCanonical)
                 | Some canonical \<Rightarrow>
                     if absolute_path canonical \<noteq> path_components root then Err (FailContract OverlayNotCanonical)
                     else if \<not> declares_overlay validated canonical then Err (FailContract OverlayNotDeclared)
                     else (let (locked, worktrees) = try_lock T (tb_worktrees self) fs (absolute_path canonical) in
                           if \<not> locked then Err FailWorktreeBusy
                           else Ok (absolute_path canonical, self\<lparr>tb_worktrees := worktrees\<rparr>))))
      else (case ti_overlay_root invocation of
              Some root \<Rightarrow> Ok (path_components root, self)
            | None \<Rightarrow> Ok ([], self)))"

definition release_overlay :: "('s, 'b) tool_host \<Rightarrow> fs \<Rightarrow> path_component list \<Rightarrow> ('s, 'b) tool_broker \<Rightarrow> ('s, 'b) tool_broker" where
  "release_overlay T fs root self = self\<lparr>tb_worktrees := release_lock T (tb_worktrees self) fs root\<rparr>"

definition rollback ::
  "('s, 'b) tool_host \<Rightarrow> path_component list \<Rightarrow> bool \<Rightarrow> checkpoint option \<Rightarrow> ('s, 'b) tool_broker \<Rightarrow> fs
   \<Rightarrow> bool \<times> ('s, 'b) tool_broker \<times> fs" where
  "rollback T root mutating checkpoint self fs =
     (if \<not> mutating then (False, self, fs)
      else (let (restored, fs1) = (case checkpoint of
                   None \<Rightarrow> (False, fs)
                 | Some ck \<Rightarrow> (let (r, fs1) = checkpoint_restore T ck root fs in (r = Ok (), fs1)))
            in (restored, release_overlay T fs1 root self, fs1)))"

definition verify_intent_of ::
  "tool_invocation \<Rightarrow> validated_plan \<Rightarrow> string \<Rightarrow> u64 \<Rightarrow> journal_intent" where
  "verify_intent_of invocation validated digest now =
     \<lparr>ji_event_id = ''event-verify-'' @ digest, ji_workspace_id = cr_workspace_id (ti_request invocation),
      ji_intent_id = ''intent-verify-'' @ digest, ji_effect_kind = ''tool.verify'',
      ji_action = action_as_str (cr_action (ti_request invocation)), ji_resource = cr_resource (ti_request invocation),
      ji_plan_digest = vp_digest validated, ji_egress_purpose = None, ji_occurred_at_ms = now,
      ji_idempotency_key = ''idem-verify-'' @ digest\<rparr>"

fun verification_detail :: "verification_outcome \<Rightarrow> string" where
  "verification_detail (Passed _) = ''verified''"
| "verification_detail (Failed _ NonRetriable) = ''verification_failed_non_retriable''"
| "verification_detail (Failed _ NeedsReconcile) = ''verification_failed_needs_reconcile''"
| "verification_detail (Failed _ Retriable) = ''verification_failed_retriable''"

fun passed :: "verification_outcome \<Rightarrow> bool" where
  "passed (Passed _) = True"
| "passed (Failed _ _) = False"

definition verify_result_of ::
  "tool_invocation \<Rightarrow> string \<Rightarrow> verification_outcome \<Rightarrow> u64 \<Rightarrow> journal_result" where
  "verify_result_of invocation digest verification now =
     \<lparr>jr_event_id = ''event-verify-result-'' @ digest, jr_workspace_id = cr_workspace_id (ti_request invocation),
      jr_intent_id = ''intent-verify-'' @ digest, jr_completed = passed verification,
      jr_detail = Some (verification_detail verification), jr_occurred_at_ms = now,
      jr_idempotency_key = ''idem-verify-result-'' @ digest\<rparr>"

text \<open>Ending with an error: the overlay is restored and the lock released.\<close>

definition give_up ::
  "('s, 'b) tool_host \<Rightarrow> path_component list \<Rightarrow> bool \<Rightarrow> checkpoint option \<Rightarrow> ('s, 'b) tool_broker \<Rightarrow> fs \<Rightarrow> 'j
   \<Rightarrow> (bool \<Rightarrow> ('ae, 'je) tool_failure)
   \<Rightarrow> (('ae, 'je) tool_failure + tool_outcome) \<times> ('s, 'b) tool_broker \<times> 'j \<times> fs" where
  "give_up T root mutating checkpoint self fs journal failure =
     (let (compensated, self1, fs1) = rollback T root mutating checkpoint self fs in (Err (failure compensated), self1, journal, fs1))"

text \<open>Phase 5 and 6, after the effect has executed.\<close>

definition tool_conclude ::
  "('j, 'je) record_intent_op \<Rightarrow> ('j, 'je) record_result_op \<Rightarrow> ('s, 'b) tool_host \<Rightarrow> ('s, 'b) tool_broker \<Rightarrow> tool_invocation
   \<Rightarrow> validated_plan \<Rightarrow> string \<Rightarrow> effect_outcome \<Rightarrow> path_component list \<Rightarrow> bool \<Rightarrow> checkpoint option \<Rightarrow> 'j \<Rightarrow> u64 \<Rightarrow> fs
   \<Rightarrow> (('ae, 'je) tool_failure + tool_outcome) \<times> ('s, 'b) tool_broker \<times> 'j \<times> fs" where
  "tool_conclude record_intent record_result T self invocation validated digest execution root mutating checkpoint journal now fs =
     (case record_intent journal (verify_intent_of invocation validated digest now) of
        (Err e, j1) \<Rightarrow> give_up T root mutating checkpoint self fs j1 (\<lambda>_. FailBroker (FailJournal e))
      | (Ok _, j1) \<Rightarrow>
          (let verification = verify T fs (ti_args invocation) (eo_exit_code execution) root checkpoint in
           case record_result j1 (verify_result_of invocation digest verification now) of
             (Err e, j2) \<Rightarrow> give_up T root mutating checkpoint self fs j2 (\<lambda>_. FailBroker (FailJournalAfter e))
           | (Ok _, j2) \<Rightarrow>
               (case verification of
                  Passed evidence \<Rightarrow>
                    (Ok \<lparr>to_verified = True, to_evidence = evidence, to_stdout = eo_stdout execution,
                         to_stderr = eo_stderr execution, to_exit_code = eo_exit_code execution, to_compensated = False\<rparr>,
                     (if mutating then release_overlay T fs root self else self), j2, fs)
                | Failed evidence kind \<Rightarrow>
                    give_up T root mutating checkpoint self fs j2 (\<lambda>compensated. FailVerify evidence kind compensated))))"

definition take_checkpoint ::
  "('s, 'b) tool_host \<Rightarrow> bool \<Rightarrow> fs \<Rightarrow> path_component list \<Rightarrow> worktree_error + checkpoint option" where
  "take_checkpoint T mutating fs root = (if mutating then map_sum id Some (checkpoint_capture T fs root) else Ok None)"

text \<open>Phase 3 and 4, with the overlay held.\<close>

definition tool_execute ::
  "(sandbox_plan \<Rightarrow> string option) \<Rightarrow> 'b backend_ops
   \<Rightarrow> ('s, 'ae) record_decision_op \<Rightarrow> ('s, 'ae) record_enforcement_op
   \<Rightarrow> ('j, 'je) record_intent_op \<Rightarrow> ('j, 'je) record_result_op
   \<Rightarrow> ('s, 'b) tool_host \<Rightarrow> ('s, 'b) tool_broker \<Rightarrow> tool_invocation \<Rightarrow> approval_grant option \<Rightarrow> 'j \<Rightarrow> u64
   \<Rightarrow> validated_plan \<Rightarrow> path_component list \<Rightarrow> bool \<Rightarrow> checkpoint option \<Rightarrow> fs
   \<Rightarrow> (('ae, 'je) tool_failure + tool_outcome) \<times> ('s, 'b) tool_broker \<times> 'j \<times> fs" where
  "tool_execute enc ops rd re record_intent record_result T self invocation approval journal now validated root mutating checkpoint fs =
     (case prepare (th_hash T) enc (tool_effect invocation) of
        Err e \<Rightarrow> give_up T root mutating None self fs journal (\<lambda>_. FailContract (ToolInvalidPlan e))
      | Ok prepared \<Rightarrow>
          (let (res, broker, j1) = effect_execute (th_hash T) enc ops rd re record_intent record_result (tb_broker self)
                 (tool_effect invocation) approval journal now;
               self1 = self\<lparr>tb_broker := broker\<rparr>;
               fs1 = th_commands T (tb_broker self) broker fs
           in case res of
                Err e \<Rightarrow> give_up T root mutating checkpoint self1 fs1 j1 (\<lambda>_. FailBroker e)
              | Ok execution \<Rightarrow>
                  tool_conclude record_intent record_result T self1 invocation validated (request_digest (th_hash T) prepared)
                    execution root mutating checkpoint j1 now fs1))"

definition tool_run ::
  "(sandbox_plan \<Rightarrow> string option) \<Rightarrow> 'b backend_ops
   \<Rightarrow> ('s, 'ae) record_decision_op \<Rightarrow> ('s, 'ae) record_enforcement_op
   \<Rightarrow> ('j, 'je) record_intent_op \<Rightarrow> ('j, 'je) record_result_op
   \<Rightarrow> ('s, 'b) tool_host \<Rightarrow> ('s, 'b) tool_broker \<Rightarrow> tool_invocation \<Rightarrow> approval_grant option \<Rightarrow> 'j \<Rightarrow> u64 \<Rightarrow> fs
   \<Rightarrow> (('ae, 'je) tool_failure + tool_outcome) \<times> ('s, 'b) tool_broker \<times> 'j \<times> fs" where
  "tool_run enc ops rd re record_intent record_result T self invocation approval journal now fs =
     (let contract = describe (args_tool (ti_args invocation)); mutating = td_mutating contract in
      if cr_action (ti_request invocation) \<noteq> td_action contract then (Err (FailContract ArgumentMismatch), self, journal, fs)
      else (case plan_validate (th_hash T) enc (ti_plan invocation) of
        Err e \<Rightarrow> (Err (FailContract (ToolInvalidPlan e)), self, journal, fs)
      | Ok validated \<Rightarrow>
          (case overlay_gate T self validated invocation mutating fs of
             Err f \<Rightarrow> (Err f, self, journal, fs)
           | Ok (root, self1) \<Rightarrow>
               (case take_checkpoint T mutating fs root of
                  Err _ \<Rightarrow> (Err (FailPrepare Retriable), release_overlay T fs root self1, journal, fs)
                | Ok checkpoint \<Rightarrow>
                    tool_execute enc ops rd re record_intent record_result T self1 invocation approval journal now validated
                      root mutating checkpoint fs))))"

section \<open>Plans and requests of tools\<close>

definition readonly_plan :: "string \<Rightarrow> string \<Rightarrow> sandbox_plan" where
  "readonly_plan workspace_id overlay_root =
     \<lparr>sp_version = 1, sp_workspace_id = workspace_id, sp_realm = S1GuardedRead,
      sp_mounts = [\<lparr>mo_target = ''workspace'', mo_source = WorkspaceMount overlay_root, mo_writable = False, mo_executable = False\<rparr>],
      sp_env = \<lparr>es_allow = [], es_lease_channels = []\<rparr>, sp_budget = default_budget, sp_network = NetworkDenied, sp_command = None\<rparr>"

definition mutation_plan ::
  "('s, 'b) tool_host \<Rightarrow> string \<Rightarrow> string \<Rightarrow> string list \<Rightarrow> string option \<Rightarrow> sandbox_plan" where
  "mutation_plan T workspace_id overlay_root argv stdin =
     \<lparr>sp_version = 1, sp_workspace_id = workspace_id, sp_realm = S3IsolatedOverlay,
      sp_mounts = [\<lparr>mo_target = ''workspace'', mo_source = OverlayMount overlay_root, mo_writable = True, mo_executable = False\<rparr>,
                   \<lparr>mo_target = ''tools'', mo_source = SystemTools (th_temp_dir T), mo_writable = False, mo_executable = True\<rparr>],
      sp_env = \<lparr>es_allow = [], es_lease_channels = []\<rparr>, sp_budget = default_budget, sp_network = NetworkDenied,
      sp_command = Some \<lparr>co_argv = argv, co_cwd = ''/workspace'', co_stdin = stdin\<rparr>\<rparr>"

definition tool_request ::
  "(string \<Rightarrow> string) \<Rightarrow> string \<Rightarrow> string \<Rightarrow> string \<Rightarrow> action \<Rightarrow> string \<Rightarrow> data_class \<Rightarrow> u64 \<Rightarrow> policy_error + capability_request" where
  "tool_request H request_id workspace_id task_id a res dc now =
     (case resource_new a res of
        Err e \<Rightarrow> Err e
      | Ok r \<Rightarrow>
          request_new request_id \<lparr>pr_id = ''tool_broker_01'', pr_kind = AgentRuntime, pr_on_behalf_of = Some ''human_01''\<rparr>
            workspace_id task_id a r (sha256_label H [request_id @ '':'' @ res]) None False dc now)"

section \<open>Stages\<close>

text \<open>How a mutating invocation goes: refused with nothing touched, or with the overlay held.\<close>

definition held_by :: "('s, 'b) tool_host \<Rightarrow> ('s, 'b) tool_broker \<Rightarrow> fs \<Rightarrow> string list \<Rightarrow> ('s, 'b) tool_broker" where
  "held_by T self fs canonical = self\<lparr>tb_worktrees := snd (try_lock T (tb_worktrees self) fs (absolute_path canonical))\<rparr>"

lemma overlay_gate_Ok:
  assumes "overlay_gate T self validated invocation True fs = Ok (root, self1)"
  obtains r canonical where "ti_overlay_root invocation = Some r" "path_components r = absolute_path canonical" "root = absolute_path canonical"
    "fs_canonicalize fs (th_cwd T) root = Some canonical" "bt_get (wm_held (tb_worktrees self)) canonical = None"
    "self1 = held_by T self fs canonical" "declares_overlay validated canonical"
proof -
  obtain r canonical where r: "ti_overlay_root invocation = Some r" "fs_canonicalize fs (th_cwd T) (path_components r) = Some canonical"
      "path_components r = absolute_path canonical" "declares_overlay validated canonical"
      "fst (try_lock T (tb_worktrees self) fs root)" "root = absolute_path canonical" "self1 = held_by T self fs canonical"
    using assms by (auto simp: overlay_gate_def held_by_def split: option.splits if_splits prod.splits)
  then have "bt_get (wm_held (tb_worktrees self)) canonical = None" by (auto simp: try_lock_def Let_def split: if_splits)
  with r that show thesis by simp
qed

lemma overlay_gate_Err: "overlay_gate T self validated invocation mutating fs = Err f \<Longrightarrow> \<not> is_FailVerify f"
  by (auto simp: overlay_gate_def split: option.splits if_splits prod.splits)

lemma tool_run_stages:
  assumes "tool_run enc ops rd re ri rr T self invocation approval journal now fs = (res, self', j', fs')"
    and "td_mutating (describe (args_tool (ti_args invocation)))"
  obtains (refused) f where "res = Err f" "\<not> is_FailVerify f" "self' = self" "j' = journal" "fs' = fs"
  | (uncaptured) r canonical where "ti_overlay_root invocation = Some r" "path_components r = absolute_path canonical"
      "fs_canonicalize fs (th_cwd T) (absolute_path canonical) = Some canonical" "bt_get (wm_held (tb_worktrees self)) canonical = None"
      "res = Err (FailPrepare Retriable)" "self' = release_overlay T fs (absolute_path canonical) (held_by T self fs canonical)" "j' = journal" "fs' = fs"
  | (executed) r canonical validated ck where "ti_overlay_root invocation = Some r" "path_components r = absolute_path canonical"
      "fs_canonicalize fs (th_cwd T) (absolute_path canonical) = Some canonical" "bt_get (wm_held (tb_worktrees self)) canonical = None"
      "checkpoint_capture T fs (absolute_path canonical) = Ok ck" "declares_overlay validated canonical"
      "tool_execute enc ops rd re ri rr T (held_by T self fs canonical) invocation approval journal now validated (absolute_path canonical) True (Some ck) fs
         = (res, self', j', fs')"
proof (cases "plan_validate (th_hash T) enc (ti_plan invocation)")
  case (Inl e)
  with assms(1) have "\<exists>f. res = Err f \<and> \<not> is_FailVerify f \<and> self' = self \<and> j' = journal \<and> fs' = fs"
    by (auto simp: tool_run_def Let_def split: if_splits)
  with refused show thesis by blast
next
  case v: (Inr validated)
  show thesis
  proof (cases "cr_action (ti_request invocation) = td_action (describe (args_tool (ti_args invocation)))")
    case False
    with assms(1) have "res = Err (FailContract ArgumentMismatch) \<and> self' = self \<and> j' = journal \<and> fs' = fs"
      by (auto simp: tool_run_def Let_def)
    with refused [of "FailContract ArgumentMismatch"] show thesis by simp
  next
    case a: True
    show thesis
    proof (cases "overlay_gate T self validated invocation True fs :: ('a, 'b) tool_failure + _")
      case (Inl f)
      with assms v a have "res = Err f \<and> self' = self \<and> j' = journal \<and> fs' = fs" by (auto simp: tool_run_def Let_def)
      moreover have "\<not> is_FailVerify f" by (rule overlay_gate_Err [OF Inl])
      ultimately show thesis using refused by blast
    next
      case (Inr p)
      obtain root self1 where p: "p = (root, self1)" by force
      note g = Inr [unfolded p]
      obtain r canonical where h: "ti_overlay_root invocation = Some r" "path_components r = absolute_path canonical" "root = absolute_path canonical"
          "fs_canonicalize fs (th_cwd T) root = Some canonical" "bt_get (wm_held (tb_worktrees self)) canonical = None"
          "self1 = held_by T self fs canonical" "declares_overlay validated canonical"
        using overlay_gate_Ok [OF g] by metis
      show thesis
      proof (cases "checkpoint_capture T fs root")
        case (Inl e)
        with assms v a g h show thesis by (intro uncaptured [of r canonical]) (auto simp: tool_run_def Let_def take_checkpoint_def)
      next
        case (Inr ck)
        with assms v a g h show thesis by (intro executed [of r canonical ck validated]) (auto simp: tool_run_def Let_def take_checkpoint_def)
      qed
    qed
  qed
qed

lemma rollback_releases:
  "rollback T root True checkpoint self fs = (b, self', fs') \<Longrightarrow> tb_worktrees self' = release_lock T (tb_worktrees self) fs' root"
  by (auto simp: rollback_def release_overlay_def Let_def split: option.splits prod.splits)

lemma give_up_releases:
  assumes "give_up T root True checkpoint self fs j failure = (res, self', j', fs')"
  shows "tb_worktrees self' = release_lock T (tb_worktrees self) fs' root \<and> j' = j \<and> (\<exists>b. res = Err (failure b))"
  using assms by (auto simp: give_up_def dest: rollback_releases split: prod.splits)

lemma tool_conclude_releases:
  assumes "tool_conclude ri rr T self invocation validated digest execution root True checkpoint j now fs = (res, self', j', fs')"
  shows "tb_worktrees self' = release_lock T (tb_worktrees self) fs' root"
  using assms
  by (auto simp: tool_conclude_def Let_def release_overlay_def dest!: give_up_releases
      split: prod.splits sum.splits verification_outcome.splits)

lemma tool_execute_releases:
  assumes "tool_execute enc ops rd re ri rr T self invocation approval j now validated root True checkpoint fs = (res, self', j', fs')"
  shows "tb_worktrees self' = release_lock T (tb_worktrees self) fs' root"
  using assms
  by (auto simp: tool_execute_def Let_def dest!: give_up_releases tool_conclude_releases split: prod.splits sum.splits)

lemma held_then_released:
  assumes "bt_get (wm_held (tb_worktrees self)) canonical = None" "fs_canonicalize fs (th_cwd T) (absolute_path canonical) = Some canonical"
    and "fs_canonicalize fs' (th_cwd T) (absolute_path canonical) = Some canonical"
  shows "wm_held (release_lock T (tb_worktrees (held_by T self fs canonical)) fs' (absolute_path canonical)) = wm_held (tb_worktrees self)"
proof -
  have "bt_remove k (bt_insert k v m) = m" if "bt_get m k = None" for k :: "string list" and v :: u64 and m
    using that by (induction m) (auto simp: bt_remove_def bt_get_def filter_id_conv map_of_eq_None_iff intro: rev_image_eqI split: if_splits)
  with assms show ?thesis by (simp add: release_lock_def held_by_def try_lock_def Let_def)
qed

section \<open>What verification establishes\<close>

lemma set_tree_set [simp]: "set (tree_set xs) = set xs"
  by (simp add: tree_set_def)

lemma set_symmetric_difference [simp]: "set (symmetric_difference xs ys) = (set xs - set ys) \<union> (set ys - set xs)"
  by (auto simp: symmetric_difference_def)

definition undeclared_part :: "tool_args \<Rightarrow> (string \<times> string) list \<Rightarrow> (string \<times> string) set" where
  "undeclared_part args entries = {e \<in> set entries. fst e \<notin> set (declared_paths args)}"

lemma verify_delta_Passed:
  assumes "verify_delta T fs args root checkpoint = Passed evidence"
  shows "\<exists>ck. checkpoint = Some ck \<and> set (declared_paths args) \<subseteq> fst ` set (overlay_inventory T fs root)
    \<and> undeclared_part args (overlay_inventory T fs root) = undeclared_part args (inventory_hashes T ck)"
proof -
  obtain ck where ck: "checkpoint = Some ck" using assms by (auto simp: verify_delta_def split: option.splits)
  let ?before = "set (inventory_hashes T ck)" and ?after = "set (overlay_inventory T fs root)" and ?D = "set (declared_paths args)"
  have "?D \<subseteq> fst ` ?after" and drift: "\<forall>e \<in> (?before - ?after) \<union> (?after - ?before). fst e \<in> ?D"
    using assms ck by (auto simp: verify_delta_def Let_def filter_empty_conv split: if_splits)
  moreover have "undeclared_part args (overlay_inventory T fs root) = undeclared_part args (inventory_hashes T ck)"
    using drift unfolding undeclared_part_def by blast
  ultimately show ?thesis using ck by simp
qed

lemma verify_hash_Passed:
  assumes "verify_hash T fs root path (Some declared) = Passed evidence"
  shows "\<exists>guard file resolved. guard_at fs root = Ok guard \<and> open_read fs guard path = Ok (file, resolved)
    \<and> content_hash_of (th_hash T) (read_all fs file) = declared"
  using assms by (auto simp: verify_hash_def Let_def split: sum.splits if_splits)

lemma content_hash_of_inj: "content_hash_of H a = content_hash_of H b \<longleftrightarrow> H a = H b"
  by (auto simp: content_hash_of_def dest: hex_upper_inj)

text \<open>A patched file: the target reads as the new content, and if it existed it had the expected hash.\<close>

definition patched :: "('s, 'b) tool_host \<Rightarrow> fs \<Rightarrow> path_component list \<Rightarrow> (string \<times> string) list \<Rightarrow> tool_args \<Rightarrow> bool" where
  "patched T fs root earlier args \<longleftrightarrow>
     (\<exists>guard file resolved. guard_at fs root = Ok guard \<and> open_read fs guard (arg_path args) = Ok (file, resolved)
        \<and> th_hash T (read_all fs file) = th_hash T (arg_new_content args))
     \<and> (\<forall>h. (arg_path args, h) \<in> set earlier \<longrightarrow> h = arg_expected_before_hash args)"

lemma verify_mutating:
  assumes "verify T fs args code root (Some ck) = Passed evidence" "td_mutating (describe (args_tool args))"
  shows "verify_delta T fs args root (Some ck) = Passed evidence \<and> (is_ArgPatch args \<longrightarrow> patched T fs root (inventory_hashes T ck) args)"
proof (cases args)
  case (ArgPatch path expected content)
  then have "\<not> stale_target T (Some ck) path expected"
    and h: "\<exists>ev. verify_hash T fs root path (Some (content_hash_of (th_hash T) content)) = Passed ev"
    and "verify_delta T fs args root (Some ck) = Passed evidence"
    using assms(1) by (auto split: if_splits verification_outcome.splits)
  moreover have "\<exists>guard file resolved. guard_at fs root = Ok guard \<and> open_read fs guard path = Ok (file, resolved)
      \<and> th_hash T (read_all fs file) = th_hash T content"
    using h by (auto dest: verify_hash_Passed simp: content_hash_of_inj)
  ultimately show ?thesis using ArgPatch by (auto simp: patched_def stale_target_def)
qed (use assms in \<open>auto simp: verify_process_def Let_def split: if_splits\<close>)

text \<open>A successful conclusion went through the journal on both sides of a verification that passed.\<close>

definition journaled ::
  "('j, 'je) record_intent_op \<Rightarrow> ('j, 'je) record_result_op \<Rightarrow> tool_invocation \<Rightarrow> evidence \<Rightarrow> u64 \<Rightarrow> 'j \<Rightarrow> 'j \<Rightarrow> bool" where
  "journaled ri rr invocation evidence now j1 j' \<longleftrightarrow>
     (\<exists>validated digest j2. ri j1 (verify_intent_of invocation validated digest now) = (Ok (), j2)
        \<and> rr j2 (verify_result_of invocation digest (Passed evidence) now) = (Ok (), j'))"

lemma tool_conclude_Ok:
  assumes "tool_conclude ri rr T self invocation validated digest execution root mutating checkpoint j now fs = (Ok outcome, self', j', fs')"
  shows "verify T fs (ti_args invocation) (eo_exit_code execution) root checkpoint = Passed (to_evidence outcome) \<and> fs' = fs
    \<and> journaled ri rr invocation (to_evidence outcome) now j j' \<and> to_verified outcome"
  using assms
  by (auto simp: tool_conclude_def journaled_def Let_def give_up_def split: prod.splits sum.splits verification_outcome.splits) blast

lemma tool_execute_Ok:
  assumes "tool_execute enc ops rd re ri rr T self invocation approval j now validated root mutating checkpoint fs = (Ok outcome, self', j', fs')"
  shows "\<exists>execution broker j1. effect_execute (th_hash T) enc ops rd re ri rr (tb_broker self) (tool_effect invocation) approval j now = (Ok execution, broker, j1)
    \<and> fs' = th_commands T (tb_broker self) broker fs
    \<and> verify T fs' (ti_args invocation) (eo_exit_code execution) root checkpoint = Passed (to_evidence outcome)
    \<and> journaled ri rr invocation (to_evidence outcome) now j1 j'"
  using assms
  by (auto simp: tool_execute_def give_up_def Let_def dest!: tool_conclude_Ok split: prod.splits sum.splits)

section \<open>Properties\<close>

lemma undeclared_hashed_Nil:
  assumes "declared_paths args = []" "undeclared_part args (hashed T files) = {}"
  shows "files = []"
proof -
  have "set (hashed T files) = {}" using assms by (auto simp: undeclared_part_def)
  then show ?thesis by simp
qed

lemma capture_walk:
  "checkpoint_capture T fs root = Ok ck \<Longrightarrow>
     \<exists>files. visit_root fs (th_cwd T) root = Ok files \<and> inventory_hashes T ck = hashed T files"
  by (auto simp: checkpoint_capture_def inventory_hashes_def hashed_def split: option.splits sum.splits if_splits)

text \<open>
  C38: a mutation that succeeds changed what it declared and nothing else. The effect broker
  executed it, and its verification was journaled on both sides. The overlay could be walked before, and
  when it can be walked afterwards, every declared path is a file of it, and its files outside the declared
  paths are, with their hashes, those it had before. It can only fail to be walked afterwards, as it does
  when a link was put into it, when nothing was declared and the overlay held no files before; then files
  may have appeared unseen (lemma \<open>link_hides_undeclared_outputs\<close>). A patched file has the hash of the
  new content, and if it existed before, its hash was the expected one; nothing is asked of a file that did
  not exist (lemma \<open>new_target_is_never_stale\<close>).
\<close>

theorem verified_change_is_declared:
  assumes "tool_run enc ops rd re ri rr T self invocation approval journal now fs = (Ok outcome, self', j', fs')"
    and "td_mutating (describe (args_tool (ti_args invocation)))"
  shows "(\<exists>execution broker j1. effect_execute (th_hash T) enc ops rd re ri rr (tb_broker self) (tool_effect invocation) approval journal now
              = (Ok execution, broker, j1) \<and> journaled ri rr invocation (to_evidence outcome) now j1 j')
    \<and> (\<exists>root files. map_option path_components (ti_overlay_root invocation) = Some root
          \<and> visit_root fs (th_cwd T) root = Ok files
          \<and> (case visit_root fs' (th_cwd T) root of
               Ok files' \<Rightarrow> set (declared_paths (ti_args invocation)) \<subseteq> fst ` set files'
                 \<and> undeclared_part (ti_args invocation) (hashed T files') = undeclared_part (ti_args invocation) (hashed T files)
             | Err _ \<Rightarrow> declared_paths (ti_args invocation) = [] \<and> files = [])
          \<and> (is_ArgPatch (ti_args invocation) \<longrightarrow> patched T fs' root (hashed T files) (ti_args invocation)))"
  using assms
proof (cases rule: tool_run_stages)
  case (executed r canonical validated ck)
  let ?root = "absolute_path canonical" and ?args = "ti_args invocation"
  note ok = tool_execute_Ok [OF executed(7)]
  then obtain code where v: "verify T fs' ?args code ?root (Some ck) = Passed (to_evidence outcome)" by blast
  obtain files where files: "visit_root fs (th_cwd T) ?root = Ok files" "inventory_hashes T ck = hashed T files"
    using capture_walk [OF executed(5)] by blast
  from verify_mutating [OF v assms(2)] verify_delta_Passed
  have d: "set (declared_paths ?args) \<subseteq> fst ` set (overlay_inventory T fs' ?root)"
      "undeclared_part ?args (overlay_inventory T fs' ?root) = undeclared_part ?args (hashed T files)"
      "is_ArgPatch ?args \<longrightarrow> patched T fs' ?root (hashed T files) ?args"
    by (fastforce simp: files(2))+
  have "case visit_root fs' (th_cwd T) ?root of
      Ok files' \<Rightarrow> set (declared_paths ?args) \<subseteq> fst ` set files' \<and> undeclared_part ?args (hashed T files') = undeclared_part ?args (hashed T files)
    | Err _ \<Rightarrow> declared_paths ?args = [] \<and> files = []"
    using d(1,2) undeclared_hashed_Nil [of ?args T files]
    by (cases "visit_root fs' (th_cwd T) ?root") (simp_all add: overlay_inventory_walk undeclared_part_def)
  moreover have "tb_broker (held_by T self fs canonical) = tb_broker self" by (simp add: held_by_def)
  ultimately show ?thesis using ok executed(1,2) files(1) d(3) by (intro conjI) fastforce+
qed simp_all

text \<open>A compensated rollback gave the tree the inventory of the checkpoint.\<close>

lemma rollback_restored:
  assumes "rollback T root mutating checkpoint self fs = (True, self', fs')"
  shows "\<exists>ck canonical. checkpoint = Some ck \<and> fs_canonicalize fs (th_cwd T) root = Some canonical
    \<and> overlay_inventory T fs' (absolute_path canonical) = inventory_hashes T ck"
  using assms
  by (auto simp: rollback_def checkpoint_restore_def Let_def split: if_splits option.splits prod.splits sum.splits)

lemma tool_conclude_compensated:
  assumes "tool_conclude ri rr T self invocation validated digest execution root mutating checkpoint j now fs = (Err (FailVerify evidence kind True), self', j', fs')"
  shows "\<exists>ck canonical. checkpoint = Some ck \<and> fs_canonicalize fs (th_cwd T) root = Some canonical
    \<and> overlay_inventory T fs' (absolute_path canonical) = inventory_hashes T ck"
  using assms
  by (auto simp: tool_conclude_def give_up_def Let_def dest: rollback_restored split: prod.splits sum.splits verification_outcome.splits)

lemma tool_execute_compensated:
  assumes "tool_execute enc ops rd re ri rr T self invocation approval j now validated root mutating checkpoint fs = (Err (FailVerify evidence kind True), self', j', fs')"
  shows "\<exists>execution broker j1 ck canonical.
      effect_execute (th_hash T) enc ops rd re ri rr (tb_broker self) (tool_effect invocation) approval j now = (Ok execution, broker, j1)
    \<and> checkpoint = Some ck \<and> fs_canonicalize (th_commands T (tb_broker self) broker fs) (th_cwd T) root = Some canonical
    \<and> overlay_inventory T fs' (absolute_path canonical) = inventory_hashes T ck"
  using assms
  by (auto simp: tool_execute_def give_up_def Let_def dest!: tool_conclude_compensated split: prod.splits sum.splits)

text \<open>
  C39: compensation restores the overlay. When a verification failure reports that it was compensated, the
  overlay could be walked before the call, and the directory that its root names after the execution now
  holds, when it can be walked, exactly the files with the hashes that the overlay held before. It can only
  fail to be walked, as it does when a link was put into it, when the overlay held no files before; then
  files that appeared may be left (lemma \<open>link_hides_undeclared_outputs\<close>).
\<close>

theorem compensation_restores_overlay:
  assumes "tool_run enc ops rd re ri rr T self invocation approval journal now fs = (Err (FailVerify evidence kind True), self', j', fs')"
    and "td_mutating (describe (args_tool (ti_args invocation)))"
  shows "\<exists>root files execution broker j1 canonical. map_option path_components (ti_overlay_root invocation) = Some root
    \<and> visit_root fs (th_cwd T) root = Ok files
    \<and> effect_execute (th_hash T) enc ops rd re ri rr (tb_broker self) (tool_effect invocation) approval journal now = (Ok execution, broker, j1)
    \<and> fs_canonicalize (th_commands T (tb_broker self) broker fs) (th_cwd T) root = Some canonical
    \<and> (case visit_root fs' (th_cwd T) (absolute_path canonical) of
         Ok files' \<Rightarrow> hashed T files' = hashed T files
       | Err _ \<Rightarrow> files = [])"
  using assms
proof (cases rule: tool_run_stages)
  case (executed r named validated ck)
  have self: "tb_broker (held_by T self fs named) = tb_broker self" by (simp add: held_by_def)
  obtain files where files: "visit_root fs (th_cwd T) (absolute_path named) = Ok files" "inventory_hashes T ck = hashed T files"
    using capture_walk [OF executed(5)] by blast
  obtain execution broker j1 canonical where x: "effect_execute (th_hash T) enc ops rd re ri rr (tb_broker self) (tool_effect invocation) approval journal now
        = (Ok execution, broker, j1)"
      "fs_canonicalize (th_commands T (tb_broker self) broker fs) (th_cwd T) (absolute_path named) = Some canonical"
      "overlay_inventory T fs' (absolute_path canonical) = hashed T files"
    using tool_execute_compensated [OF executed(7)] by (auto simp: self files(2))
  have "case visit_root fs' (th_cwd T) (absolute_path canonical) of Ok files' \<Rightarrow> hashed T files' = hashed T files | Err _ \<Rightarrow> files = []"
    using x(3) hashed_Nil [of T files]
    by (cases "visit_root fs' (th_cwd T) (absolute_path canonical)") (simp_all add: overlay_inventory_walk)
  with executed(1,2) files(1) x(1,2) show ?thesis by fastforce
qed simp_all

text \<open>A tool that only reads neither takes nor releases a lock.\<close>

lemma tool_execute_reading:
  assumes "tool_execute enc ops rd re ri rr T self invocation approval j now validated root False checkpoint fs = (res, self', j', fs')"
  shows "tb_worktrees self' = tb_worktrees self"
  using assms
  by (auto simp: tool_execute_def tool_conclude_def give_up_def rollback_def Let_def
      split: prod.splits sum.splits verification_outcome.splits)

lemma tool_run_reading:
  assumes "tool_run enc ops rd re ri rr T self invocation approval journal now fs = (res, self', j', fs')"
    "\<not> td_mutating (describe (args_tool (ti_args invocation)))"
  shows "tb_worktrees self' = tb_worktrees self"
  using assms
  by (auto simp: tool_run_def take_checkpoint_def overlay_gate_def Let_def
      dest: tool_execute_reading split: if_splits sum.splits option.splits prod.splits)

text \<open>
  C40: one mutation at a time. A call of a mutating tool on a locked overlay is refused without touching
  the broker, the journal or the files; whatever a call of a mutating tool does, when the overlay root
  still names the same directory afterwards, the locks held are those held before; and a call of a tool that
  only reads, which asks for no lock and runs on a locked overlay too, leaves the locks as they are.
\<close>

theorem overlay_lock_exclusive_and_released:
  assumes "tool_run enc ops rd re ri rr T self invocation approval journal now fs = (res, self', j', fs')"
    and "ti_overlay_root invocation = Some root"
  shows "(td_mutating (describe (args_tool (ti_args invocation))) \<and> is_locked T (tb_worktrees self) fs (path_components root) \<longrightarrow>
         (\<exists>f. res = Err f) \<and> self' = self \<and> j' = journal \<and> fs' = fs)
    \<and> (td_mutating (describe (args_tool (ti_args invocation)))
         \<and> fs_canonicalize fs' (th_cwd T) (path_components root) = fs_canonicalize fs (th_cwd T) (path_components root) \<longrightarrow>
         wm_held (tb_worktrees self') = wm_held (tb_worktrees self))
    \<and> (\<not> td_mutating (describe (args_tool (ti_args invocation))) \<longrightarrow> tb_worktrees self' = tb_worktrees self)"
proof (cases "td_mutating (describe (args_tool (ti_args invocation)))")
  case False
  with tool_run_reading [OF assms(1)] show ?thesis by simp
next
  case True
  from assms(1) True show ?thesis
  proof (cases rule: tool_run_stages)
    case (uncaptured r canonical)
    with assms(2) True held_then_released show ?thesis by (auto simp: is_locked_def release_overlay_def)
  next
    case (executed r canonical validated ck)
    with assms(2) True held_then_released tool_execute_releases [OF executed(7)] show ?thesis by (auto simp: is_locked_def)
  qed simp
qed

section \<open>Sample runs\<close>

definition sample_overlay :: fs where
  "sample_overlay = [([''wt''], FsDir), ([''wt'', ''a.rs''], FsFile ''old'')]"

definition sample_host :: "(memory_audit_sink, fake_backend) tool_host" where
  "sample_host = \<lparr>th_hash = (\<lambda>b. take 4 (rev b)), th_cwd = [], th_temp_dir = ''/tmp/tools'', th_git = (\<lambda>_ _. Some (True, [])),
     th_commands = (\<lambda>_ after _. fb_files (hd (br_backends (ef_registry after))))\<rparr>"

definition sample_patch :: tool_invocation where
  "sample_patch = \<lparr>ti_request = sample_request FsWrite, ti_plan = mutation_plan sample_host ''ws'' ''/wt'' [''/tools/patch''] None,
     ti_args = ArgPatch ''a.rs'' (content_hash_of (th_hash sample_host) ''old'') ''new'', ti_overlay_root = Some ''/wt''\<rparr>"

definition sample_tool_broker :: "(string \<times> string) list \<Rightarrow> (memory_audit_sink, fake_backend) tool_broker" where
  "sample_tool_broker writes = tool_broker_new (effect_broker_new (sample_engine [sample_rule ''p'' Permit FsWrite])
     \<lparr>ms_decisions = [], ms_enforcement = [], ms_unavailable = False\<rparr>
     \<lparr>br_backends = [fake_new Linux (fake_config_default\<lparr>fc_simulate_writes := writes\<rparr>) sample_overlay], br_testing = True\<rparr>
     sample_secrets sample_egress)"

definition sample_run where
  "sample_run writes = tool_run (\<lambda>_. Some []) (fake_ops (th_hash sample_host)) memory_record_decision memory_record_enforcement
     list_journal list_results sample_host (sample_tool_broker writes) sample_patch None [] 1500 sample_overlay"

definition patch_validated :: validated_plan where
  "patch_validated = \<lparr>vp_plan = ti_plan sample_patch,
     vp_digest = plan_digest (th_hash sample_host) (\<lambda>_. Some []) (ti_plan sample_patch), vp_requirements = requirements S3IsolatedOverlay\<rparr>"

definition patch_fake :: "(string \<times> string) list \<Rightarrow> fake_backend" where
  "patch_fake writes = fake_new Linux (fake_config_default\<lparr>fc_simulate_writes := writes\<rparr>) sample_overlay"

definition patch_handle :: realm_handle where
  "patch_handle = \<lparr>rh_realm_id = ''realm-00000001'', rh_plan_digest = vp_digest patch_validated\<rparr>"

definition patch_created :: "(string \<times> string) list \<Rightarrow> fake_backend" where
  "patch_created writes = fake_record (RecCreated ''realm-00000001'' (vp_digest patch_validated))
     ((patch_fake writes)\<lparr>fb_counter := 1, fb_realms := [(''realm-00000001'', patch_validated)]\<rparr>)"

abbreviation "patch_registry b \<equiv> \<lparr>br_backends = [b], br_testing = True\<rparr>"

text \<open>The parts of the sample as literals, so that evaluation never meets the budget of its plan.\<close>

lemma patch_parts:
  "sp_mounts (ti_plan sample_patch) = [\<lparr>mo_target = ''workspace'', mo_source = OverlayMount ''/wt'', mo_writable = True, mo_executable = False\<rparr>,
     \<lparr>mo_target = ''tools'', mo_source = SystemTools ''/tmp/tools'', mo_writable = False, mo_executable = True\<rparr>]"
  "sp_command (ti_plan sample_patch) = Some \<lparr>co_argv = [''/tools/patch''], co_cwd = ''/workspace'', co_stdin = None\<rparr>"
  "sp_env (ti_plan sample_patch) = \<lparr>es_allow = [], es_lease_channels = []\<rparr>" "sp_realm (ti_plan sample_patch) = S3IsolatedOverlay"
  by (simp_all add: sample_patch_def mutation_plan_def sample_host_def)

lemma patch_args: "ti_args sample_patch = ArgPatch ''a.rs'' ''sha256:646C6F'' ''new''"
proof -
  have "content_hash_of (th_hash sample_host) ''old'' = ''sha256:646C6F''" by code_simp
  then show ?thesis by (simp add: sample_patch_def)
qed

lemma patch_validates: "plan_validate (th_hash sample_host) (\<lambda>_. Some []) (ti_plan sample_patch) = Ok patch_validated"
proof -
  let ?p = "ti_plan sample_patch"
  note defs = sample_patch_def mutation_plan_def bad_plan_header_def validate_environment_def validate_budget_def validate_network_def
    byte_class_defs byte_def default_budget_def Let_def
  have "\<not> bad_plan_header ?p" "validate_environment ?p = Ok ()" "validate_budget ?p = Ok ()"
    "validate_network ?p (requirements (sp_realm ?p)) = Ok ()" by (simp_all add: defs)
  moreover have "validate_mount_loop [] 0 (sp_mounts ?p) = Ok 1" unfolding patch_parts by code_simp
  then have "validate_mounts ?p (requirements (sp_realm ?p)) = Ok ()" by (simp add: validate_mounts_def patch_parts)
  moreover have "path_within_executable_mount ''/tools/patch'' (sp_mounts ?p)" unfolding patch_parts by code_simp
  moreover have "starts_with ''/tools/patch'' ''/'' \<and> starts_with ''/workspace'' ''/'' \<and> \<not> str_contains ''/workspace'' ''..''" by code_simp
  moreover have "NUL \<notin> set (''/tools/patch'' @ ''/workspace'')" by code_simp
  ultimately show ?thesis by (simp add: plan_validate_Ok patch_validated_def patch_parts validate_command_def)
qed

lemma patch_prepared: "prepare (th_hash sample_host) (\<lambda>_. Some []) (tool_effect sample_patch) = Ok (sample_request FsWrite)"
proof -
  have "request_new (cr_request_id r) (cr_principal r) (cr_workspace_id r) (cr_task_id r) (cr_action r)
      (cr_resource r) (cr_operation_hash r) (cr_credential_ref r) True (cr_data_class r) (cr_occurred_at_ms r) =
    Ok (sample_request FsWrite)" if "r = sample_request FsWrite" for r
    using sample_request_valid [of FsWrite] unfolding that by (simp add: request_new_def sample_request_def)
  moreover have "ie_plan (tool_effect sample_patch) = ti_plan sample_patch" "ie_request (tool_effect sample_patch) = sample_request FsWrite"
    by (simp_all add: tool_effect_def sample_patch_def)
  ultimately show ?thesis by (simp add: prepare_def patch_validates)
qed

lemma patch_gate: "egress_gate (th_hash sample_host) egress (tool_effect sample_patch) patch_validated = Ok None"
proof -
  have "\<not> requires_network (descriptor FsWrite)" by code_simp
  then show ?thesis by (simp add: egress_gate_def tool_effect_def sample_patch_def)
qed

lemma patch_selected:
  "select_for (fake_ops (th_hash sample_host)) (patch_registry (patch_fake writes)) patch_validated =
     (Ok \<lparr>se_index = 0, se_descriptor = fake_descriptor Linux\<rparr>, patch_registry (patch_fake writes))"
proof -
  have "caps_cover (bd_enforced (fake_descriptor Linux)) (requirements S3IsolatedOverlay)" "\<not> S3IsolatedOverlay > S4EgressMediated" by code_simp+
  then have "admissible True patch_validated (fake_descriptor Linux)"
    by (simp add: admissible_def patch_validated_def patch_parts fake_descriptor_def)
  then show ?thesis
    by (simp add: select_for_def fake_ops_def patch_fake_def fake_new_def fake_health_def fake_config_default_def healthy_report_def Let_def)
qed

lemma patch_creates: "fake_create (patch_fake writes) patch_validated = (Ok patch_handle, patch_created writes)"
proof -
  have "''realm'' @ ''-'' @ pad_zeros 8 (show_dec (unat (1 :: u64))) = ''realm-00000001''" by code_simp
  then show ?thesis
    by (simp add: fake_create_def patch_fake_def fake_new_def fake_config_default_def fake_next_id_def patch_handle_def patch_created_def Let_def)
qed

lemma patch_plan: "fb_realms b = [(''realm-00000001'', patch_validated)] \<Longrightarrow> fake_plan_of b patch_handle = Some patch_validated"
  by (simp add: fake_plan_of_def patch_handle_def bt_get_def)

lemma patch_closure:
  assumes "simulate_writes writes sample_overlay = (Ok (), files)"
  shows "\<exists>b. effect_closure (fake_ops (th_hash sample_host)) 0 patch_handle patch_validated [] digest now reason
      (patch_registry (patch_created writes), sample_secrets, None)
    = ((patch_registry b, sample_secrets, Some (capture_outcome sample_secrets reason default_outcome)), Ok ()) \<and> fb_files b = files"
proof -
  have "build_environment (sp_env (ti_plan sample_patch)) (sp_mounts (ti_plan sample_patch)) [] = Ok []"
    unfolding patch_parts by code_simp
  then have env: "build_environment (sp_env (vp_plan patch_validated)) (sp_mounts (vp_plan patch_validated)) [] = Ok []"
    by (simp add: patch_validated_def)
  note defs = fake_record_def patch_created_def patch_fake_def fake_new_def fake_config_default_def
  show ?thesis
    using assms env
    by (simp add: effect_closure_def backend_mut_def put_backend_def run_in_realm_def fake_ops_def fake_mount_def fake_network_def fake_exec_def
        fake_pop_result_def patch_plan defs patch_validated_def sample_patch_def mutation_plan_def Let_def)
qed

lemma patch_effect:
  assumes "simulate_writes writes sample_overlay = (Ok (), files)"
  shows "\<exists>broker j1. effect_execute (th_hash sample_host) (\<lambda>_. Some []) (fake_ops (th_hash sample_host)) memory_record_decision memory_record_enforcement
      list_journal list_results (tb_broker (sample_tool_broker writes)) (tool_effect sample_patch) None [] 1500
    = (Ok (capture_outcome sample_secrets None default_outcome), broker, j1) \<and> th_commands sample_host b0 broker fs0 = files"
proof -
  let ?ops = "fake_ops (th_hash sample_host)" and ?eb = "tb_broker (sample_tool_broker writes)"
  let ?digest = "request_digest (th_hash sample_host) (sample_request FsWrite)"
  let ?closure = "effect_closure ?ops 0 patch_handle patch_validated [] ?digest 1500 None"
  obtain b where b: "?closure (patch_registry (patch_created writes), sample_secrets, None)
      = ((patch_registry b, sample_secrets, Some (capture_outcome sample_secrets None default_outcome)), Ok ())" "fb_files b = files"
    using patch_closure [OF assms] by blast
  have o: "pd_outcome (decide (th_hash sample_host) (sample_engine [sample_rule ''p'' Permit FsWrite]) (sample_request FsWrite) False) = OutcomeAllow"
    by code_simp
  have parts: "ef_registry ?eb = patch_registry (patch_fake writes)" "ef_secrets ?eb = sample_secrets"
      "en_engine (ef_enforcer ?eb) = sample_engine [sample_rule ''p'' Permit FsWrite]"
      "en_sink (ef_enforcer ?eb) = \<lparr>ms_decisions = [], ms_enforcement = [], ms_unavailable = False\<rparr>"
      "ie_plan (tool_effect sample_patch) = ti_plan sample_patch" "ie_leases (tool_effect sample_patch) = []"
    by (simp_all add: sample_tool_broker_def tool_broker_new_def effect_broker_new_def enforcer_new_def patch_fake_def tool_effect_def)
  obtain en where x: "execute (th_hash sample_host) memory_record_decision memory_record_enforcement (ef_enforcer ?eb) (sample_request FsWrite) None 1500
      ?closure (patch_registry (patch_created writes), sample_secrets, None)
    = (en, (patch_registry b, sample_secrets, Some (capture_outcome sample_secrets None default_outcome)), Ok ())"
    using b(1) o parts(3,4) by (fastforce simp: execute_def execute_decided_def persist_def memory_record_decision_def memory_record_enforcement_def Let_def)
  have d: "fb_files (snd (fake_destroy b patch_handle)) = files"
    using b(2) by (simp add: fake_destroy_def fake_record_def)
  have "bo_create ?ops (patch_fake writes) patch_validated = (Ok patch_handle, patch_created writes)"
    using patch_creates by (simp add: fake_ops_def)
  with x have e: "\<exists>broker j1. effect_execute (th_hash sample_host) (\<lambda>_. Some []) ?ops memory_record_decision memory_record_enforcement
      list_journal list_results ?eb (tool_effect sample_patch) None [] 1500
    = (Ok (capture_outcome sample_secrets None default_outcome), broker, j1) \<and> ef_registry broker = destroy_realm ?ops 0 patch_handle (patch_registry b)"
    by (simp add: effect_execute_def parts patch_validates patch_gate patch_selected backend_mut_def put_backend_def execute_in_realm_def
        patch_prepared list_journal_def list_results_def conclude_def)
  have "br_backends (destroy_realm ?ops 0 patch_handle (patch_registry b)) = [snd (fake_destroy b patch_handle)]"
    by (simp add: destroy_realm_def backend_mut_def put_backend_def fake_ops_def)
  with e d show ?thesis by (force simp: sample_host_def)
qed

definition sample_checkpoint :: checkpoint where
  "sample_checkpoint = \<lparr>ck_entries = [(''a.rs'', ''old'')], ck_git_digest = content_hash_of (th_hash sample_host) []\<rparr>"

lemma sample_run_concludes:
  assumes "simulate_writes writes sample_overlay = (Ok (), files)"
  shows "\<exists>self1 j1. sample_run writes = tool_conclude list_journal list_results sample_host self1 sample_patch patch_validated
      (request_digest (th_hash sample_host) (sample_request FsWrite)) (capture_outcome sample_secrets None default_outcome)
      [RootDir, Normal ''wt''] True (Some sample_checkpoint) j1 1500 files"
proof -
  have gate: "overlay_gate sample_host (sample_tool_broker writes) patch_validated sample_patch True sample_overlay
      = Ok ([RootDir, Normal ''wt''], held_by sample_host (sample_tool_broker writes) sample_overlay [''wt''])"
  proof -
    have "fs_canonicalize sample_overlay (th_cwd sample_host) (path_components ''/wt'') = Some [''wt'']"
      "path_components ''/wt'' = absolute_path [''wt'']" by code_simp+
    moreover from this(2) have "declares_overlay patch_validated [''wt'']" by (simp add: declares_overlay_def patch_validated_def patch_parts)
    ultimately show ?thesis
      by (simp add: overlay_gate_def sample_patch_def held_by_def try_lock_def sample_tool_broker_def tool_broker_new_def
          worktree_manager_new_def bt_get_def Let_def absolute_path_def)
  qed
  have ck: "checkpoint_capture sample_host sample_overlay [RootDir, Normal ''wt''] = Ok sample_checkpoint" by code_simp
  have a: "cr_action (ti_request sample_patch) = FsWrite" "args_tool (ti_args sample_patch) = ToolPatch"
    by (simp_all add: sample_patch_def sample_request_def)
  let ?held = "held_by sample_host (sample_tool_broker writes) sample_overlay [''wt'']"
  have h: "tb_broker ?held = tb_broker (sample_tool_broker writes)" by (simp add: held_by_def)
  from patch_effect [OF assms, of "tb_broker (sample_tool_broker writes)" sample_overlay] obtain broker j1 where
    "effect_execute (th_hash sample_host) (\<lambda>_. Some []) (fake_ops (th_hash sample_host)) memory_record_decision memory_record_enforcement
      list_journal list_results (tb_broker (sample_tool_broker writes)) (tool_effect sample_patch) None [] 1500
    = (Ok (capture_outcome sample_secrets None default_outcome), broker, j1)"
    "th_commands sample_host (tb_broker (sample_tool_broker writes)) broker sample_overlay = files" by blast
  then have "tool_execute (\<lambda>_. Some []) (fake_ops (th_hash sample_host)) memory_record_decision memory_record_enforcement list_journal list_results
      sample_host ?held sample_patch None [] 1500 patch_validated [RootDir, Normal ''wt''] True (Some sample_checkpoint) sample_overlay
    = tool_conclude list_journal list_results sample_host (?held\<lparr>tb_broker := broker\<rparr>) sample_patch patch_validated
      (request_digest (th_hash sample_host) (sample_request FsWrite)) (capture_outcome sample_secrets None default_outcome)
      [RootDir, Normal ''wt''] True (Some sample_checkpoint) j1 1500 files"
    by (simp only: tool_execute_def patch_prepared h Let_def sum.case prod.case)
  then have "sample_run writes = tool_conclude list_journal list_results sample_host (?held\<lparr>tb_broker := broker\<rparr>) sample_patch patch_validated
      (request_digest (th_hash sample_host) (sample_request FsWrite)) (capture_outcome sample_secrets None default_outcome)
      [RootDir, Normal ''wt''] True (Some sample_checkpoint) j1 1500 files"
    unfolding sample_run_def tool_run_def take_checkpoint_def
    by (simp only: a describe.simps tool_descriptor.select_convs patch_validates gate ck Let_def sum.case prod.case map_sum.simps if_True not_True_eq_False simp_thms if_False)
  then show ?thesis by blast
qed

lemma sample_run_patch:
  "\<exists>self' j'. sample_run [(''/wt/a.rs'', ''new'')] =
     (Ok \<lparr>to_verified = True, to_evidence = EvInventoryDelta [''a.rs'', ''a.rs''] [] [] False, to_stdout = [], to_stderr = [],
          to_exit_code = Some 0, to_compensated = False\<rparr>, self', j', bt_insert [''wt'', ''a.rs''] (FsFile ''new'') sample_overlay)"
proof -
  let ?files = "bt_insert [''wt'', ''a.rs''] (FsFile ''new'') sample_overlay"
  have w: "simulate_writes [(''/wt/a.rs'', ''new'')] sample_overlay = (Ok (), ?files)" by code_simp
  have v: "verify sample_host ?files (ti_args sample_patch) (Some 0) [RootDir, Normal ''wt''] (Some sample_checkpoint)
      = Passed (EvInventoryDelta [''a.rs'', ''a.rs''] [] [] False)"
    unfolding patch_args by code_simp
  have c: "capture_outcome sample_secrets None default_outcome = \<lparr>eo_stdout = [], eo_stderr = [], eo_exit_code = Some 0, eo_duration_ms = 0,
     eo_truncated = False, eo_killed = False, eo_redactions = 0, eo_egress_reason = None\<rparr>" by code_simp
  show ?thesis
    using sample_run_concludes [OF w] v by (auto simp: tool_conclude_def list_journal_def list_results_def c Let_def)
qed

lemma sample_run_drift:
  "\<exists>self' j' fs'. sample_run [(''/wt/a.rs'', ''new''), (''/wt/b.rs'', ''x'')] =
     (Err (FailVerify (EvInventoryDelta [''a.rs'', ''a.rs'', ''b.rs''] [''b.rs''] [] False) NeedsReconcile True), self', j', fs')"
proof -
  let ?files = "bt_insert [''wt'', ''b.rs''] (FsFile ''x'') (bt_insert [''wt'', ''a.rs''] (FsFile ''new'') sample_overlay)"
  have w: "simulate_writes [(''/wt/a.rs'', ''new''), (''/wt/b.rs'', ''x'')] sample_overlay = (Ok (), ?files)" by code_simp
  have v: "verify sample_host ?files (ti_args sample_patch) (Some 0) [RootDir, Normal ''wt''] (Some sample_checkpoint)
      = Failed (EvInventoryDelta [''a.rs'', ''a.rs'', ''b.rs''] [''b.rs''] [] False) NeedsReconcile"
    unfolding patch_args by code_simp
  have r: "fst (checkpoint_restore sample_host sample_checkpoint [RootDir, Normal ''wt''] ?files) = Ok ()" by code_simp
  have c: "eo_exit_code (capture_outcome sample_secrets None default_outcome) = Some 0" by code_simp
  show ?thesis
    using sample_run_concludes [OF w] v r
    by (auto simp: tool_conclude_def give_up_def rollback_def list_journal_def list_results_def c Let_def split: prod.splits)
qed

lemma sample_walk: "visit_root sample_overlay (th_cwd sample_host) [RootDir, Normal ''wt''] = Ok [(''a.rs'', ''old'')]"
  by code_simp

lemma sample_root: "path_components ''/wt'' = [RootDir, Normal ''wt'']"
  by code_simp

theorem verified_change_is_declared_witness:
  "patched sample_host (bt_insert [''wt'', ''a.rs''] (FsFile ''new'') sample_overlay) [RootDir, Normal ''wt'']
     (hashed sample_host [(''a.rs'', ''old'')]) (ti_args sample_patch)"
proof -
  obtain self' j' where r: "sample_run [(''/wt/a.rs'', ''new'')] =
     (Ok \<lparr>to_verified = True, to_evidence = EvInventoryDelta [''a.rs'', ''a.rs''] [] [] False, to_stdout = [], to_stderr = [],
          to_exit_code = Some 0, to_compensated = False\<rparr>, self', j', bt_insert [''wt'', ''a.rs''] (FsFile ''new'') sample_overlay)"
    using sample_run_patch by blast
  have m: "td_mutating (describe (args_tool (ti_args sample_patch)))" by (simp add: sample_patch_def)
  have "ti_overlay_root sample_patch = Some ''/wt''" "is_ArgPatch (ti_args sample_patch)" by (simp_all add: sample_patch_def)
  then show ?thesis
    using verified_change_is_declared [OF r [unfolded sample_run_def] m] by (auto simp: sample_root sample_walk)
qed

theorem compensation_restores_overlay_witness:
  "\<exists>fs' canonical. (case visit_root fs' (th_cwd sample_host) (absolute_path canonical) of
      Ok files' \<Rightarrow> hashed sample_host files' = hashed sample_host [(''a.rs'', ''old'')] | Err _ \<Rightarrow> False)"
proof -
  obtain self' j' fs' where r: "sample_run [(''/wt/a.rs'', ''new''), (''/wt/b.rs'', ''x'')] =
     (Err (FailVerify (EvInventoryDelta [''a.rs'', ''a.rs'', ''b.rs''] [''b.rs''] [] False) NeedsReconcile True), self', j', fs')"
    using sample_run_drift by blast
  have m: "td_mutating (describe (args_tool (ti_args sample_patch)))" by (simp add: sample_patch_def)
  from compensation_restores_overlay [OF r [unfolded sample_run_def] m] obtain root files canonical where
    c: "map_option path_components (ti_overlay_root sample_patch) = Some root" "visit_root sample_overlay (th_cwd sample_host) root = Ok files"
      "case visit_root fs' (th_cwd sample_host) (absolute_path canonical) of
         Ok files' \<Rightarrow> hashed sample_host files' = hashed sample_host files | Err _ \<Rightarrow> files = []" by blast
  have "root = [RootDir, Normal ''wt'']" using c(1) by (simp add: sample_patch_def sample_root)
  then have "files = [(''a.rs'', ''old'')]" using c(2) by (simp add: sample_walk)
  with c(3) show ?thesis
    by (intro exI [of _ fs'] exI [of _ canonical]) (cases "visit_root fs' (th_cwd sample_host) (absolute_path canonical)"; simp)
qed

theorem overlay_lock_exclusive_and_released_witness:
  "wm_held (tb_worktrees (fst (snd (sample_run [(''/wt/a.rs'', ''new'')])))) = []"
proof -
  obtain self' j' where r: "sample_run [(''/wt/a.rs'', ''new'')] =
     (Ok \<lparr>to_verified = True, to_evidence = EvInventoryDelta [''a.rs'', ''a.rs''] [] [] False, to_stdout = [], to_stderr = [],
          to_exit_code = Some 0, to_compensated = False\<rparr>, self', j', bt_insert [''wt'', ''a.rs''] (FsFile ''new'') sample_overlay)"
    using sample_run_patch by blast
  have m: "ti_overlay_root sample_patch = Some ''/wt''" and w: "td_mutating (describe (args_tool (ti_args sample_patch)))"
    by (simp_all add: sample_patch_def)
  have "fs_canonicalize (bt_insert [''wt'', ''a.rs''] (FsFile ''new'') sample_overlay) (th_cwd sample_host) (path_components ''/wt'')
      = fs_canonicalize sample_overlay (th_cwd sample_host) (path_components ''/wt'')" by code_simp
  moreover have "wm_held (tb_worktrees (sample_tool_broker [(''/wt/a.rs'', ''new'')])) = []"
    by (simp add: sample_tool_broker_def tool_broker_new_def worktree_manager_new_def)
  ultimately show ?thesis using overlay_lock_exclusive_and_released [OF r [unfolded sample_run_def] m] w by (simp add: r)
qed

section \<open>What the code does not promise\<close>

text \<open>
  The evidence of the stale-target guard names the expected hash as the observed one; the guard
  runs after the write, and a target that did not exist passes with any expectation.
\<close>

lemma stale_evidence_is_the_expectation:
  "stale_target T checkpoint path expected \<Longrightarrow>
     verify T fs (ArgPatch path expected content) code root checkpoint = Failed (EvContentHash path expected (Some expected)) NonRetriable"
  by simp

lemma new_target_is_never_stale: "path \<notin> fst ` set (inventory_hashes T ck) \<Longrightarrow> \<not> stale_target T (Some ck) path expected"
  by (force simp: stale_target_def)

text \<open>
  A link in the overlay makes its inventory read as empty, so that in an overlay without files at
  the start undeclared outputs pass verification, and a restore reports success over them.
\<close>

definition hidden_outputs :: fs where
  "hidden_outputs = [([''wt''], FsDir), ([''wt'', ''dropped''], FsFile ''x''), ([''wt'', ''l''], FsLink [RootDir])]"

lemma link_hides_undeclared_outputs:
  "verify_delta sample_host hidden_outputs (ArgShell [] True) [RootDir, Normal ''wt''] (Some \<lparr>ck_entries = [], ck_git_digest = content_hash_of (th_hash sample_host) []\<rparr>)
     = Passed (EvInventoryDelta [] [] [] False)"
  "checkpoint_restore sample_host \<lparr>ck_entries = [], ck_git_digest = []\<rparr> [RootDir, Normal ''wt''] hidden_outputs = (Ok (), hidden_outputs)"
  by code_simp+

text \<open>A lock is released under the path the root then resolves to: a root that is gone keeps its lock.\<close>

lemma lock_survives_a_missing_root:
  "fs_canonicalize fs (th_cwd T) root = None \<Longrightarrow> release_lock T self fs root = self"
  by (simp add: release_lock_def)

end
