(* ===== verification/StoreJournal.thy ===== *)
theory StoreJournal
  imports EffectBroker StoreEffects
begin

text \<open>
  The event store as the effect broker's durable journal (\<open>crates/effect-broker/src/journal.rs\<close>):
  how intents and results become store commands, and what repeating an effect does.
\<close>

definition intent_command :: "journal_intent \<Rightarrow> effect_intent" where
  "intent_command i = \<lparr>ei_event_id = ji_event_id i, ei_workspace_id = ji_workspace_id i, ei_intent_id = ji_intent_id i,
     ei_effect_kind = ji_effect_kind i,
     ei_payload = JObj [(''action'', JStr (ji_action i)),
        (''egress_purpose'', case ji_egress_purpose i of None \<Rightarrow> JNull | Some p \<Rightarrow> JStr p),
        (''plan_digest'', JStr (ji_plan_digest i)), (''resource'', JStr (ji_resource i))],
     ei_occurred_at_ms = ji_occurred_at_ms i, ei_idempotency_key = ji_idempotency_key i\<rparr>"

definition store_record_intent :: "store_env \<Rightarrow> (event_store, store_error) record_intent_op" where
  "store_record_intent E s i =
     (case record_effect_intent E s (intent_command i) of (Err e, s') \<Rightarrow> (Err e, s') | (Ok _, s') \<Rightarrow> (Ok (), s'))"

definition result_command :: "journal_result \<Rightarrow> effect_result" where
  "result_command r = \<lparr>eb_event_id = jr_event_id r, eb_workspace_id = jr_workspace_id r, eb_intent_id = jr_intent_id r,
     eb_result = JObj [(''completed'', JBool (jr_completed r)),
        (''detail'', case jr_detail r of None \<Rightarrow> JNull | Some d \<Rightarrow> JStr d)],
     eb_disposition = (if jr_completed r then DispCompleted else DispAbandoned),
     eb_occurred_at_ms = jr_occurred_at_ms r, eb_idempotency_key = jr_idempotency_key r\<rparr>"

definition store_record_result :: "store_env \<Rightarrow> (event_store, store_error) record_result_op" where
  "store_record_result E s r =
     (case record_effect_result E s (result_command r) of (Err e, s') \<Rightarrow> (Err e, s') | (Ok _, s') \<Rightarrow> (Ok (), s'))"

lemma intent_payload_canonical: "json_canonical (ei_payload (intent_command i))"
  by (simp add: intent_command_def split: option.splits)

lemma result_payload_canonical: "json_canonical (eb_result (result_command r))"
  by (simp add: result_command_def split: option.splits)

text \<open>A journal write is one operation of the store, so every invariant of the store survives it.\<close>

lemma journal_steps:
  "snd (store_record_intent E s i) = store_step E s (RecordIntent (intent_command i))"
  "snd (store_record_result E s r) = store_step E s (RecordResult (result_command r))"
  by (auto simp: store_record_intent_def store_record_result_def split: prod.splits sum.splits)

text \<open>
  An intent that was committed before is accepted again, and nothing is written: the journal does
  not tell the broker that this effect was already recorded (and perhaps already done), so a
  repeated request passes this gate and its effect runs a second time under one outbox row.
\<close>

lemma repeated_intent_accepted:
  assumes "log_ok E s" "record_effect_intent E s (intent_command i) = (Ok (Committed e), s1)" "t = foldl (store_step E) s1 later"
  shows "store_record_intent E t i = (Ok (), t)"
  using effect_intent_committed(1) [OF assms] by (simp add: store_record_intent_def)

end
