(* ===== verification/StoreProjection.thy ===== *)
theory StoreProjection
  imports EventStore
begin

text \<open>
  The run projection of the event store: that the run table is at every moment the replay of
  the log, that recovery restores it from the log, and that runs follow their state machine.
\<close>

section \<open>The projection is the replay of the log\<close>

fun op_wf :: "store_op \<Rightarrow> bool" where
  "op_wf (CreateRun ev ws run task at key) \<longleftrightarrow> run \<noteq> [] \<and> task \<noteq> []"
| "op_wf (TransitionRun c) \<longleftrightarrow> [] \<notin> set (rt_acceptance_evidence c)"
| "op_wf (RecordIntent c) \<longleftrightarrow> json_canonical (ei_payload c)"
| "op_wf (RecordResult c) \<longleftrightarrow> json_canonical (eb_result c)"
| "op_wf (AppendCore ev ws ty at payload key) \<longleftrightarrow>
     ty \<noteq> ''run.queued'' \<and> ty \<noteq> ''run.state_changed'' \<and> json_canonical payload"
| "op_wf _ \<longleftrightarrow> True"

definition projected :: "store_env \<Rightarrow> event_store \<Rightarrow> bool" where
  "projected E s \<longleftrightarrow> log_ok E s
     \<and> (\<exists>n. replayed_runs E (es_workspace_id s) (es_events s) = Ok (es_runs s, n))
     \<and> bt_get (es_runs s) [] = None
     \<and> (\<forall>a row. (a, row) \<in> set (es_artifacts s) \<longrightarrow> bt_get (es_runs s) (ar_run_id row) \<noteq> None)
     \<and> (\<forall>row \<in> set (es_outbox s). env_parse E (ob_payload_json row) \<noteq> None)"

definition replay_payload :: "store_env \<Rightarrow> string \<Rightarrow> json \<Rightarrow> int \<Rightarrow> runs_table \<Rightarrow> store_error + runs_table" where
  "replay_payload E ty payload sequence runs =
     (if ty = ''run.queued'' then replay_queued payload sequence runs
      else if ty = ''run.state_changed'' then replay_state_changed E payload sequence runs
      else Ok runs)"

lemma replayed_after_append:
  assumes "append_to E s ev ws ty at payload = Ok (s1, sequence)" "ws = es_workspace_id s"
    and "json_codec (env_print E) (env_parse E)" "json_canonical payload"
    and "replayed_runs E (es_workspace_id s) (es_events s) = Ok (runs, n)"
    and "replay_payload E ty payload sequence runs = Ok runs'"
  shows "replayed_runs E (es_workspace_id s1) (es_events s1) = Ok (runs', sequence)"
  using assms by (auto simp: append_to_Ok append_event_Ok replayed_runs_snoc replay_event_def replay_payload_def json_codecD)

text \<open>Appending an event that is none of a run leaves the projection right.\<close>

lemma append_to_projected:
  assumes "append_to E s ev ws ty at payload = Ok (s1, sequence)" "ws = es_workspace_id s"
    and "json_codec (env_print E) (env_parse E)" "json_canonical payload"
    and "ty \<noteq> ''run.queued''" "ty \<noteq> ''run.state_changed''" "projected E s"
  shows "projected E s1"
proof -
  from assms(7) obtain n where n: "replayed_runs E (es_workspace_id s) (es_events s) = Ok (es_runs s, n)"
    by (auto simp: projected_def)
  have "replay_payload E ty payload sequence (es_runs s) = Ok (es_runs s)" using assms(5,6) by (simp add: replay_payload_def)
  from replayed_after_append [OF assms(1-4) n this] append_to_tables [OF assms(1)] append_to_log_ok(1) [OF assms(1) _ assms(2)] assms(7)
  show ?thesis by (auto simp: projected_def)
qed

lemma create_run_projected:
  assumes "create_run_body E ev ws run task at s = Ok s1" "ws = es_workspace_id s"
    and "json_codec (env_print E) (env_parse E)" "run \<noteq> []" "task \<noteq> []" "projected E s"
  shows "projected E s1"
proof -
  let ?payload = "JObj [(''run_id'', JStr run), (''state'', JStr ''queued''), (''task_id'', JStr task)]"
  from assms(6) obtain n where n: "replayed_runs E (es_workspace_id s) (es_events s) = Ok (es_runs s, n)"
    by (auto simp: projected_def)
  from assms(1) obtain t sequence where a: "append_to E s ev ws ''run.queued'' at ?payload = Ok (t, sequence)"
    and fresh: "bt_get (es_runs t) run = None"
    and s1: "s1 = update_run_checkpoint (t\<lparr>es_runs := bt_insert run \<lparr>rp_task_id = task, rp_state = ''queued'',
        rp_evidence_json = ''[]'', rp_updated_sequence = sequence\<rparr> (es_runs t)\<rparr>) sequence"
    by (auto simp: create_run_body_def split: sum.splits prod.splits if_splits)
  have "replay_payload E ''run.queued'' ?payload sequence (es_runs s) = Ok (es_runs s1)"
    using fresh assms(4,5) append_to_tables [OF a]
    by (simp add: replay_payload_def replay_queued_def required_string_def s1 update_run_checkpoint_def)
  from replayed_after_append [OF a assms(2,3) _ n this] append_to_tables [OF a] append_to_log_ok(1) [OF a _ assms(2)] assms(4,6)
  show ?thesis
    by (auto simp: projected_def s1 update_run_checkpoint_def store_simps)
qed

lemma transition_projected:
  assumes "transition_body E c s = Ok s1" "rt_workspace_id c = es_workspace_id s"
    and "json_codec (env_print E) (env_parse E)" "[] \<notin> set (rt_acceptance_evidence c)" "projected E s"
  shows "projected E s1"
proof -
  from assms(5) obtain n where n: "replayed_runs E (es_workspace_id s) (es_events s) = Ok (es_runs s, n)"
    by (auto simp: projected_def)
  from assms(1) obtain p current t sequence where p: "bt_get (es_runs s) (rt_run_id c) = Some p"
    and current: "rp_state p = state_name current" "valid_transition current (rt_target c)"
    and evidence: "rt_target c = RunSucceeded \<longrightarrow> rt_acceptance_evidence c \<noteq> []"
    and a: "append_to E s (rt_event_id c) (rt_workspace_id c) ''run.state_changed'' (rt_occurred_at_ms c)
             (JObj [(''acceptance_evidence'', JArr (map JStr (rt_acceptance_evidence c))),
                    (''from'', JStr (rp_state p)), (''run_id'', JStr (rt_run_id c)),
                    (''to'', JStr (state_name (rt_target c)))]) = Ok (t, sequence)"
    and s1: "s1 = update_run_checkpoint
            (t\<lparr>es_runs := bt_insert (rt_run_id c)
                 (p\<lparr>rp_state := state_name (rt_target c), rp_evidence_json := evidence_json E (rt_acceptance_evidence c),
                    rp_updated_sequence := sequence\<rparr>) (es_runs t)\<rparr>) sequence"
    by (auto simp: transition_body_def parse_state_Ok split: option.splits sum.splits prod.splits if_splits)
  let ?payload = "JObj [(''acceptance_evidence'', JArr (map JStr (rt_acceptance_evidence c))),
                    (''from'', JStr (rp_state p)), (''run_id'', JStr (rt_run_id c)), (''to'', JStr (state_name (rt_target c)))]"
  from assms(5) p have ne: "rt_run_id c \<noteq> []" by (auto simp: projected_def)
  have "required_string_array ?payload ''acceptance_evidence'' = Ok (rt_acceptance_evidence c)"
    using assms(4) by (simp add: required_string_array_def required_items_strings)
  moreover have "required_string ?payload ''run_id'' = Ok (rt_run_id c)" "required_string ?payload ''from'' = Ok (state_name current)"
    "required_string ?payload ''to'' = Ok (state_name (rt_target c))"
    using ne current by (simp_all add: required_string_Ok)
  ultimately have "replay_payload E ''run.state_changed'' ?payload sequence (es_runs s) = Ok (es_runs s1)"
    using append_to_tables [OF a] p current evidence
    by (simp add: replay_payload_def replay_state_changed_def s1 update_run_checkpoint_def)
  from replayed_after_append [OF a assms(2,3) _ n this] append_to_tables [OF a] append_to_log_ok(1) [OF a _ assms(2)] assms(5) ne
  show ?thesis
    by (auto simp: projected_def s1 update_run_checkpoint_def store_simps)
qed


lemma other_bodies_projected:
  assumes "json_codec (env_print E) (env_parse E)" "projected E s"
  shows "insert_artifact_fact E a blob s = Ok s1 \<Longrightarrow> ac_workspace_id a = es_workspace_id s \<Longrightarrow> projected E s1"
    and "effect_intent_body E i s = Ok s1 \<Longrightarrow> ei_workspace_id i = es_workspace_id s \<Longrightarrow> json_canonical (ei_payload i) \<Longrightarrow> projected E s1"
    and "effect_result_body E r s = Ok s1 \<Longrightarrow> eb_workspace_id r = es_workspace_id s \<Longrightarrow> json_canonical (eb_result r) \<Longrightarrow> projected E s1"
proof -
  note p = append_to_projected [OF _ _ assms(1) _ _ _ assms(2)]
  show "projected E s1" if "insert_artifact_fact E a blob s = Ok s1" "ac_workspace_id a = es_workspace_id s"
  proof -
    from that(1) obtain t n where a: "append_to E s (ac_event_id a) (ac_workspace_id a) ''artifact.committed'' (ac_occurred_at_ms a)
             (JObj [(''artifact_id'', JStr (ac_artifact_id a)), (''byte_length'', JNum (uint (bm_byte_length blob))),
                    (''classification'', JStr (ac_classification a)), (''content_hash'', JStr (bm_content_hash blob)),
                    (''media_type'', JStr (ac_media_type a)), (''run_id'', JStr (ac_run_id a))]) = Ok (t, n)"
      by (auto simp: insert_artifact_fact_def split: sum.splits prod.splits)
    have "projected E t" by (rule p [OF a that(2)]) simp_all
    with that a show ?thesis
      by (auto simp: insert_artifact_fact_def projected_def Let_def dest!: mem_bt_insert split: if_splits option.splits)
  qed
  show "projected E s1" if "effect_intent_body E i s = Ok s1" "ei_workspace_id i = es_workspace_id s" "json_canonical (ei_payload i)"
  proof -
    from that(1) obtain t n where a: "append_to E s (ei_event_id i) (ei_workspace_id i) ''tool.intent_recorded'' (ei_occurred_at_ms i)
             (JObj [(''effect_kind'', JStr (ei_effect_kind i)), (''intent_id'', JStr (ei_intent_id i)),
                    (''payload'', ei_payload i)]) = Ok (t, n)"
      by (auto simp: effect_intent_body_def split: sum.splits prod.splits)
    have "projected E t" by (rule p [OF a that(2)]) (simp_all add: that(3))
    with that a json_codecD [OF assms(1) that(3)] show ?thesis
      by (auto simp: effect_intent_body_def projected_def split: if_splits)
  qed
  show "projected E s1" if "effect_result_body E r s = Ok s1" "eb_workspace_id r = es_workspace_id s" "json_canonical (eb_result r)"
  proof -
    from that(1) obtain t n where a: "append_to E s (eb_event_id r) (eb_workspace_id r) ''tool.result_recorded'' (eb_occurred_at_ms r)
             (JObj [(''disposition'', JStr (disposition_name (eb_disposition r))), (''intent_id'', JStr (eb_intent_id r)),
                    (''result'', eb_result r)]) = Ok (t, n)"
      by (auto simp: effect_result_body_def split: sum.splits prod.splits)
    have "projected E t" by (rule p [OF a that(2)]) (simp_all add: that(3))
    with that a show ?thesis by (auto simp: effect_result_body_def projected_def split: if_splits)
  qed
qed

lemma idempotent_tx_projected:
  assumes "projected E s" "\<And>s1. body s = Ok s1 \<Longrightarrow> projected E s1"
  shows "projected E (snd (idempotent_tx s key h ev body))"
proof -
  obtain r s' where tx: "idempotent_tx s key h ev body = (r, s')" by (cases "idempotent_tx s key h ev body")
  from tx have "projected E s'"
  proof (cases rule: idempotent_tx_cases)
    case (committed s1)
    then have "projected E s1" using assms by simp
    with committed(3) show ?thesis by (auto simp: record_idempotency_def projected_def split: if_splits)
  qed (simp add: assms(1))
  with tx show ?thesis by simp
qed

section \<open>Rebuilding\<close>

lemma bt_ext:
  assumes "bt_inv a" "bt_inv b" "bt_get a = bt_get b"
  shows "a = b"
proof -
  have k: "distinct (map fst m) \<and> sorted (map fst m)" if "bt_inv m" for m :: "('a, 'b) btree"
    using that by (simp add: bt_inv_def strict_sorted_iff)
  have "set a = set b" using assms k map_of_inject_set [of a b] by (simp add: bt_get_def)
  then show ?thesis
    using assms(1,2) k by (intro map_sorted_distinct_set_unique [of fst]) (auto simp: distinct_map)
qed

definition bt_upsert_all :: "('k::linorder, 'v) btree \<Rightarrow> ('k, 'v) btree \<Rightarrow> ('k, 'v) btree" where
  "bt_upsert_all kept rows = foldl (\<lambda>m r. bt_insert (fst r) (snd r) m) kept rows"

lemma bt_upsert_all_get:
  "distinct (map fst rows) \<Longrightarrow> bt_get (bt_upsert_all kept rows) = bt_get kept ++ bt_get rows"
proof (induction rows arbitrary: kept)
  case (Cons r rows)
  then have none: "bt_get rows (fst r) = None" by (simp add: bt_get_def map_of_eq_None_iff)
  have "bt_get (r # rows) = (bt_get rows)(fst r \<mapsto> snd r)" by (cases r) (simp add: bt_get_def)
  moreover have "bt_get (bt_upsert_all kept (r # rows)) = (bt_get kept)(fst r \<mapsto> snd r) ++ bt_get rows"
    using Cons by (simp add: bt_upsert_all_def store_simps)
  ultimately show ?case using none by (auto simp: fun_eq_iff map_add_def split: option.splits)
qed (simp add: bt_upsert_all_def bt_get_def)

lemma bt_upsert_all_inv: "bt_inv kept \<Longrightarrow> bt_inv (bt_upsert_all kept rows)"
  by (induction rows arbitrary: kept) (auto simp: bt_upsert_all_def bt_inv_insert)

lemma rebuilt_rows:
  assumes "bt_inv expected" "bt_inv runs"
  shows "bt_upsert_all (filter (\<lambda>r. fst r \<in> fst ` set expected) runs) expected = expected"
proof (rule bt_ext)
  let ?kept = "filter (\<lambda>r. fst r \<in> fst ` set expected) runs"
  have kept: "bt_inv ?kept" using assms(2) by (auto simp: bt_inv_def sorted_wrt_map sorted_wrt_filter)
  show "bt_inv (bt_upsert_all ?kept expected)" using kept by (rule bt_upsert_all_inv)
  have "dom (bt_get ?kept) \<subseteq> dom (bt_get expected)" by (auto simp: dom_bt_get)
  moreover have "distinct (map fst expected)" using assms(1) by (simp add: bt_inv_def strict_sorted_iff)
  ultimately show "bt_get (bt_upsert_all ?kept expected) = bt_get expected"
    by (simp add: bt_upsert_all_get map_add_subsumed2 map_add_def fun_eq_iff split: option.splits) (metis domIff subsetD)
qed (rule assms(1))

text \<open>A damaged run table is put back, whatever the damage.\<close>

lemma rebuild_restores:
  assumes "projected E s" "bt_inv r"
  obtains n where "rebuild_run_projection E (s\<lparr>es_runs := r\<rparr>) = (Ok (), s\<lparr>es_checkpoint := Some n\<rparr>)"
proof -
  from assms(1) obtain n where n: "replayed_runs E (es_workspace_id s) (es_events s) = Ok (es_runs s, n)"
    and chain: "verify_hash_chain (env_hash E) (es_events s) = Ok ()"
    by (auto simp: projected_def log_ok_def)
  have "ar_run_id (snd a) \<in> fst ` set (es_runs s)" if "a \<in> set (es_artifacts s)" for a
    using that assms(1) unfolding projected_def dom_bt_get [symmetric] domIff by (metis prod.collapse)
  then have "rebuild_run_projection E (s\<lparr>es_runs := r\<rparr>) = (Ok (), s\<lparr>es_checkpoint := Some n\<rparr>)"
    using rebuilt_rows [OF replayed_runs_inv [OF n] assms(2)]
    by (auto simp: rebuild_run_projection_def n chain in_transaction_def Let_def bt_upsert_all_def update_run_checkpoint_def)
  then show thesis by (rule that)
qed

lemma parse_pending_ids:
  "\<forall>row \<in> set rows. env_parse E (ob_payload_json row) \<noteq> None \<Longrightarrow>
     \<exists>effects. parse_pending E rows = Ok effects \<and> map pe_intent_id effects = map ob_intent_id rows"
  by (induction rows) auto

lemma projected_verifies: "projected E s \<Longrightarrow> verify_run_projection E s = Ok ()"
  by (auto simp: projected_def verify_run_projection_def)

lemma projected_pending:
  assumes "projected E s"
  obtains effects where "pending_effects E s = Ok effects"
    "map pe_intent_id effects = map ob_intent_id (filter (\<lambda>row. ob_state row = ObPending) (es_outbox s))"
  using assms parse_pending_ids [of "filter (\<lambda>row. ob_state row = ObPending) (es_outbox s)" E]
  by (auto simp: projected_def pending_effects_def)

lemma recover_repairs:
  assumes "projected E s" "bt_inv r"
  shows "\<exists>report s'. recover E True (s\<lparr>es_runs := r\<rparr>) = (Ok report, s') \<and> es_runs s' = es_runs s \<and> es_events s' = es_events s
     \<and> (rr_projection_repaired report \<longleftrightarrow> r \<noteq> es_runs s)
     \<and> map pe_intent_id (rr_pending_effects report) = map ob_intent_id (filter (\<lambda>row. ob_state row = ObPending) (es_outbox s))"
proof -
  from assms(1) obtain n where n: "replayed_runs E (es_workspace_id s) (es_events s) = Ok (es_runs s, n)"
    and chain: "verify_hash_chain (env_hash E) (es_events s) = Ok ()"
    by (auto simp: projected_def log_ok_def)
  obtain effects where effects: "pending_effects E s = Ok effects"
    "map pe_intent_id effects = map ob_intent_id (filter (\<lambda>row. ob_state row = ObPending) (es_outbox s))"
    by (rule projected_pending [OF assms(1)])
  then have same: "pending_effects E (s\<lparr>es_runs := r\<rparr>) = Ok effects" "pending_effects E (s\<lparr>es_checkpoint := c\<rparr>) = Ok effects" for c
    by (simp_all add: pending_effects_def)
  show ?thesis
  proof (cases "r = es_runs s")
    case True
    with effects show ?thesis by (simp add: recover_def chain projected_verifies [OF assms(1)] Let_def)
  next
    case False
    obtain m where m: "rebuild_run_projection E (s\<lparr>es_runs := r\<rparr>) = (Ok (), s\<lparr>es_checkpoint := Some m\<rparr>)"
      by (rule rebuild_restores [OF assms])
    have "verify_run_projection E (s\<lparr>es_checkpoint := Some m\<rparr>) = Ok ()" "verify_run_projection E (s\<lparr>es_runs := r\<rparr>) = Err ProjectionMismatch"
      using False by (simp_all add: verify_run_projection_def n)
    with False effects same show ?thesis by (simp add: recover_def chain m Let_def)
  qed
qed

lemma rebuild_projected:
  "projected E s \<Longrightarrow> projected E (snd (rebuild_run_projection E s))"
proof -
  assume p: "projected E s"
  then obtain n where "replayed_runs E (es_workspace_id s) (es_events s) = Ok (es_runs s, n)" by (auto simp: projected_def)
  then have "bt_inv (es_runs s)" by (rule replayed_runs_inv)
  from rebuild_restores [OF p this] obtain m where
    "rebuild_run_projection E s = (Ok (), s\<lparr>es_checkpoint := Some m\<rparr>)" by auto
  with p show ?thesis by (simp add: projected_def)
qed

text \<open>A policy record is one event of its own type and its row, or nothing.\<close>

definition policy_step :: "store_env \<Rightarrow> event_store \<Rightarrow> event_store \<Rightarrow> bool" where
  "policy_step E s s' \<longleftrightarrow> s' = s \<or>
     (\<exists>t n x ev ws ty at payload. append_to E s ev ws ty at payload = Ok (t, n) \<and> s' = t\<lparr>es_decisions := x\<rparr>
        \<and> ty \<in> {''policy.decision_recorded'', ''policy.enforcement_recorded''} \<and> ws = es_workspace_id s
        \<and> json_canonical payload)"

lemma policy_stepI:
  "append_to E s ev ws ty at payload = Ok (t, n) \<Longrightarrow> ty \<in> {''policy.decision_recorded'', ''policy.enforcement_recorded''} \<Longrightarrow>
     ws = es_workspace_id s \<Longrightarrow> json_canonical payload \<Longrightarrow> policy_step E s (t\<lparr>es_decisions := x\<rparr>)"
  unfolding policy_step_def by blast

lemma policy_steps:
  assumes "log_ok E s"
  shows "policy_step E s (snd (persist_policy_decision E s a))" "policy_step E s (snd (persist_policy_enforcement E s d at r))"
proof -
  have same: "policy_step E s s" by (simp add: policy_step_def)
  have "json_canonical (audit_value a)" by (simp add: audit_value_def)
  then show "policy_step E s (snd (persist_policy_decision E s a))"
    by (auto simp: persist_policy_decision_def in_transaction_def same intro: policy_stepI
        split: sum.splits prod.splits option.splits if_splits)
  have ws: "dr_workspace_id row = es_workspace_id s" if "bt_get (es_decisions s) d = Some row" for row
    using assms bt_get_mem [OF that] by (force simp: log_ok_def)
  show "policy_step E s (snd (persist_policy_enforcement E s d at r))"
    by (auto simp: persist_policy_enforcement_def in_transaction_def same ws intro: policy_stepI
        split: sum.splits prod.splits option.splits if_splits)
qed

lemma policy_step_projected:
  assumes "json_codec (env_print E) (env_parse E)" "projected E s" "policy_step E s s'" "log_ok E s'"
  shows "projected E s'"
  using assms(3) unfolding policy_step_def
proof (elim disjE exE conjE)
  fix t n x ev ws ty at payload
  assume a: "append_to E s ev ws ty at payload = Ok (t, n)" "ws = es_workspace_id s" "json_canonical payload"
    and ty: "ty \<in> {''policy.decision_recorded'', ''policy.enforcement_recorded''}" and s': "s' = t\<lparr>es_decisions := x\<rparr>"
  have "projected E t" by (rule append_to_projected [OF a(1,2) assms(1) a(3) _ _ assms(2)]) (use ty in auto)
  with assms(4) show ?thesis by (simp add: projected_def s')
qed (simp add: assms(2))

lemma policy_projected:
  assumes "json_codec (env_print E) (env_parse E)" "projected E s"
  shows "projected E (snd (persist_policy_decision E s a))"
    and "projected E (snd (persist_policy_enforcement E s d at r))"
proof -
  have log: "log_ok E s" using assms(2) by (simp add: projected_def)
  show "projected E (snd (persist_policy_decision E s a))"
    using policy_step_projected [OF assms policy_steps(1) [OF log]] policy_keeps_log(1) [OF log] by blast
  show "projected E (snd (persist_policy_enforcement E s d at r))"
    using policy_step_projected [OF assms policy_steps(2) [OF log]] policy_keeps_log(2) [OF log] by blast
qed

lemma step_projected:
  assumes "json_codec (env_print E) (env_parse E)" "projected E s" "op_wf x"
  shows "projected E (store_step E s x)"
proof (cases x)
  case (CreateRun ev ws run task at key)
  have "projected E s1" if "create_run_body E ev ws run task at s = Ok s1" "ws = es_workspace_id s" for s1
    using create_run_projected [OF that assms(1) _ _ assms(2)] assms(3) CreateRun by simp
  with CreateRun assms(2) show ?thesis by (simp add: create_run_def idempotent_tx_projected)
next
  case (TransitionRun c)
  have "projected E s1" if "transition_body E c s = Ok s1" "rt_workspace_id c = es_workspace_id s" for s1
    using transition_projected [OF that assms(1) _ assms(2)] assms(3) TransitionRun by simp
  with TransitionRun assms(2) show ?thesis by (simp add: transition_run_def idempotent_tx_projected)
next
  case (CommitArtifact c blob)
  with other_bodies_projected(1) [OF assms(1,2)] assms(2) show ?thesis
    by (simp add: commit_artifact_fact_def idempotent_tx_projected)
next
  case (RecordIntent c)
  with other_bodies_projected(2) [OF assms(1,2)] assms(2,3) show ?thesis
    by (simp add: record_effect_intent_def idempotent_tx_projected)
next
  case (RecordResult c)
  with other_bodies_projected(3) [OF assms(1,2)] assms(2,3) show ?thesis
    by (simp add: record_effect_result_def idempotent_tx_projected)
next
  case (AppendCore ev ws ty at payload key)
  have "projected E s1" if "(case append_to E s ev ws ty at payload of Err e \<Rightarrow> Err e | Ok (s1, _) \<Rightarrow> Ok s1) = Ok s1"
    "ws = es_workspace_id s" for s1
    using that append_to_projected [OF _ that(2) assms(1) _ _ _ assms(2)] assms(3) AppendCore
    by (auto split: sum.splits prod.splits)
  with AppendCore assms(2) show ?thesis by (simp add: append_core_event_def idempotent_tx_projected)
next
  case (HandshakeFailure ws reason actor now)
  have "projected E t" if "append_to E s ev ws ''supervision.handshake_rejected'' now
      (JObj [(''actor_id'', JStr actor), (''reason'', JStr reason), (''transport'', JStr ''supervision'')]) = Ok (t, n)"
    "ws = es_workspace_id s" for ev t n
    by (rule append_to_projected [OF that assms(1) _ _ _ assms(2)]) simp_all
  with HandshakeFailure assms(2) show ?thesis
    by (auto simp: record_handshake_failure_def in_transaction_def Let_def split: sum.splits prod.splits)
next
  case (Recover intact)
  with recover_state [of E intact s] rebuild_projected [OF assms(2)] assms(2) show ?thesis by (metis store_step.simps(11))
qed (simp_all add: policy_projected [OF assms(1,2)] rebuild_projected [OF assms(2)])

lemma run_projected:
  "json_codec (env_print E) (env_parse E) \<Longrightarrow> \<forall>x \<in> set ops. op_wf x \<Longrightarrow> projected E s \<Longrightarrow> projected E (foldl (store_step E) s ops)"
  by (induction ops arbitrary: s) (simp_all add: step_projected)

lemma fresh_projected [simp]: "projected E (fresh_store ws)"
  by (simp add: projected_def) (simp add: fresh_store_def replayed_runs_def)

section \<open>Property: recovery\<close>

text \<open>
  C24: the run table is the replay of the log, and recovery puts it back. After any well-formed
  operations the projection verifies; and whatever run table (with unique keys) a crash or a
  tampering leaves in its place, recovery restores exactly the table it had, says so precisely
  when something was wrong, keeps every event, and reports exactly the unresolved effects.
\<close>

theorem recovery_restores_projection:
  assumes "json_codec (env_print E) (env_parse E)" "\<forall>x \<in> set ops. op_wf x"
    and "s = foldl (store_step E) (fresh_store ws) ops" "bt_inv damaged"
  shows "verify_run_projection E s = Ok ()
    \<and> (\<exists>report s'. recover E True (s\<lparr>es_runs := damaged\<rparr>) = (Ok report, s') \<and> es_runs s' = es_runs s \<and> es_events s' = es_events s
     \<and> (rr_projection_repaired report \<longleftrightarrow> damaged \<noteq> es_runs s)
     \<and> map pe_intent_id (rr_pending_effects report) = map ob_intent_id (filter (\<lambda>row. ob_state row = ObPending) (es_outbox s)))"
proof -
  have p: "projected E s" unfolding assms(3) by (rule run_projected [OF assms(1,2)]) simp
  from projected_verifies [OF p] recover_repairs [OF p assms(4)] show ?thesis by blast
qed


lemma sample_ops_wf: "\<forall>x \<in> set sample_ops. op_wf x"
  by (simp add: sample_ops_def sample_transition_def sample_intent_def)

theorem recovery_restores_projection_witness:
  "\<exists>report s'. recover sample_env True (sample_store\<lparr>es_runs := []\<rparr>) = (Ok report, s')
     \<and> rr_projection_repaired report \<and> run_state s' ''r1'' = Ok (Some RunSucceeded)"
proof -
  have "es_runs sample_store \<noteq> []" by code_simp
  with recovery_restores_projection [OF sample_env_codec sample_ops_wf refl bt_inv_empty, where ws = "''ws''"] obtain report s' where
    "recover sample_env True (sample_store\<lparr>es_runs := []\<rparr>) = (Ok report, s')" "es_runs s' = es_runs sample_store"
    "rr_projection_repaired report" by metis
  with sample_ops_results(1) show ?thesis by (auto simp: run_state_def)
qed

text \<open>
  Well-formedness matters: the store accepts an empty evidence reference, which replay refuses,
  and from then on recovery fails; the same happens for a run with an empty task identifier.
\<close>

lemma empty_reference_blocks_recovery:
  "fst (transition_run sample_env (foldl (store_step sample_env) (fresh_store ''ws'') (take 2 sample_ops))
      (sample_transition ''e3'' RunSucceeded [''''])) = Ok (Committed ''e3'')"
  "fst (recover sample_env True (foldl (store_step sample_env) (fresh_store ''ws'')
      (take 2 sample_ops @ [TransitionRun (sample_transition ''e3'' RunSucceeded [''''])]))) = Err ProjectionMismatch"
  "fst (create_run sample_env (fresh_store ''ws'') ''e1'' ''ws'' ''r1'' '''' 1 ''k1'') = Ok (Committed ''e1'')"
  "fst (recover sample_env True (foldl (store_step sample_env) (fresh_store ''ws'')
      [CreateRun ''e1'' ''ws'' ''r1'' '''' 1 ''k1''])) = Err ProjectionMismatch"
  by code_simp+

section \<open>Runs follow their state machine\<close>

text \<open>How a well-formed step may change the run table.\<close>

inductive runs_change :: "store_env \<Rightarrow> runs_table \<Rightarrow> runs_table \<Rightarrow> bool" for E where
  unchanged: "runs_change E runs runs"
| queued: "bt_get runs run = None \<Longrightarrow> rp_state p = state_name Queued \<Longrightarrow> runs_change E runs (bt_insert run p runs)"
| moved: "bt_get runs run = Some p \<Longrightarrow> rp_state p = state_name current \<Longrightarrow> valid_transition current target \<Longrightarrow>
    rp_state q = state_name target \<Longrightarrow> rp_evidence_json q = evidence_json E evidence \<Longrightarrow>
    (target = RunSucceeded \<longrightarrow> evidence \<noteq> []) \<Longrightarrow> runs_change E runs (bt_insert run q runs)"

lemma create_run_change: "create_run_body E ev ws run task at s = Ok s1 \<Longrightarrow> runs_change E (es_runs s) (es_runs s1)"
  by (auto simp: create_run_body_def update_run_checkpoint_def dest!: append_to_tables intro!: runs_change.queued
      split: sum.splits prod.splits if_splits)

lemma transition_change: "transition_body E c s = Ok s1 \<Longrightarrow> runs_change E (es_runs s) (es_runs s1)"
  by (auto simp: transition_body_def update_run_checkpoint_def parse_state_Ok dest!: append_to_tables
      intro!: runs_change.moved split: sum.splits prod.splits if_splits option.splits)

lemma idempotent_tx_change:
  assumes "\<And>s1. body s = Ok s1 \<Longrightarrow> runs_change E (es_runs s) (es_runs s1)"
  shows "runs_change E (es_runs s) (es_runs (snd (idempotent_tx s key h ev body)))"
proof -
  obtain r s' where tx: "idempotent_tx s key h ev body = (r, s')" by (cases "idempotent_tx s key h ev body")
  from tx have "runs_change E (es_runs s) (es_runs s')"
    by (cases rule: idempotent_tx_cases) (auto simp: record_idempotency_def runs_change.unchanged dest!: assms split: if_splits)
  with tx show ?thesis by simp
qed

lemma other_bodies_runs:
  "insert_artifact_fact E a blob s = Ok s1 \<Longrightarrow> es_runs s1 = es_runs s"
  "effect_intent_body E i s = Ok s1 \<Longrightarrow> es_runs s1 = es_runs s"
  "effect_result_body E r s = Ok s1 \<Longrightarrow> es_runs s1 = es_runs s"
  "(case append_to E s ev ws ty at payload of Err e \<Rightarrow> Err e | Ok (s1, _) \<Rightarrow> Ok s1) = Ok s1 \<Longrightarrow> es_runs s1 = es_runs s"
  by (auto simp: insert_artifact_fact_def effect_intent_body_def effect_result_body_def Let_def dest!: append_to_tables
      split: sum.splits prod.splits if_splits option.splits)

lemma other_steps_runs:
  "es_runs (snd (record_handshake_failure E s ws reason actor now)) = es_runs s"
  "es_runs (snd (persist_policy_decision E s a)) = es_runs s"
  "es_runs (snd (persist_policy_enforcement E s d at r)) = es_runs s"
proof -
  show "es_runs (snd (persist_policy_decision E s a)) = es_runs s"
    by (auto simp: persist_policy_decision_def in_transaction_def dest!: append_to_tables
        split: sum.splits prod.splits option.splits if_splits)
  show "es_runs (snd (persist_policy_enforcement E s d at r)) = es_runs s"
    by (auto simp: persist_policy_enforcement_def in_transaction_def dest!: append_to_tables
        split: sum.splits prod.splits option.splits if_splits)
  show "es_runs (snd (record_handshake_failure E s ws reason actor now)) = es_runs s"
    by (auto simp: record_handshake_failure_def in_transaction_def Let_def dest!: append_to_tables split: sum.splits prod.splits)
qed

lemma rebuild_keeps_runs: "projected E s \<Longrightarrow> es_runs (snd (rebuild_run_projection E s)) = es_runs s"
proof -
  assume p: "projected E s"
  then obtain n where "replayed_runs E (es_workspace_id s) (es_events s) = Ok (es_runs s, n)" by (auto simp: projected_def)
  then have "bt_inv (es_runs s)" by (rule replayed_runs_inv)
  from rebuild_restores [OF p this] obtain m where
    "rebuild_run_projection E s = (Ok (), s\<lparr>es_checkpoint := Some m\<rparr>)" by auto
  then show ?thesis by simp
qed

lemma step_runs_change: "projected E s \<Longrightarrow> runs_change E (es_runs s) (es_runs (store_step E s x))"
proof (cases x)
  case (Recover intact)
  then show "projected E s \<Longrightarrow> ?thesis"
    using recover_state [of E intact s] rebuild_keeps_runs [of E s] by (auto simp: runs_change.unchanged)
qed (simp_all add: create_run_def transition_run_def commit_artifact_fact_def record_effect_intent_def record_effect_result_def
      append_core_event_def idempotent_tx_change create_run_change transition_change other_bodies_runs other_steps_runs
      rebuild_keeps_runs runs_change.unchanged)

text \<open>Every run's state is one of the six, and a success carries evidence.\<close>

definition legal_runs :: "store_env \<Rightarrow> event_store \<Rightarrow> bool" where
  "legal_runs E s \<longleftrightarrow> (\<forall>run p. bt_get (es_runs s) run = Some p \<longrightarrow>
     (\<exists>st. rp_state p = state_name st
        \<and> (st = RunSucceeded \<longrightarrow> (\<exists>evidence. evidence \<noteq> [] \<and> rp_evidence_json p = evidence_json E evidence))))"

lemma runs_change_legal:
  "runs_change E (es_runs s) (es_runs s') \<Longrightarrow> legal_runs E s \<Longrightarrow> legal_runs E s'"
  unfolding legal_runs_def
  by (erule runs_change.cases) (auto simp: store_simps state_name_inj simp del: state_name.simps split: if_splits)

definition run_final :: "run_state \<Rightarrow> bool" where
  "run_final st \<longleftrightarrow> st \<in> {RunSucceeded, RunFailed, RunCancelled}"

lemma final_stays: "run_final st \<Longrightarrow> \<not> valid_transition st target"
  by (auto simp: run_final_def)

lemma runs_change_final:
  assumes "runs_change E runs runs'" "bt_get runs run = Some p" "rp_state p = state_name st" "run_final st"
  shows "bt_get runs' run = Some p"
  using assms by (cases rule: runs_change.cases) (auto simp: store_simps state_name_inj dest: final_stays)

lemma run_legal:
  "json_codec (env_print E) (env_parse E) \<Longrightarrow> \<forall>x \<in> set ops. op_wf x \<Longrightarrow> projected E s \<Longrightarrow> legal_runs E s \<Longrightarrow>
     legal_runs E (foldl (store_step E) s ops)"
proof (induction ops arbitrary: s)
  case (Cons x ops)
  then show ?case using step_projected [of E s x] runs_change_legal [OF step_runs_change] by simp
qed simp

lemma run_final_stays:
  "json_codec (env_print E) (env_parse E) \<Longrightarrow> \<forall>x \<in> set ops. op_wf x \<Longrightarrow> projected E s \<Longrightarrow>
     bt_get (es_runs s) run = Some p \<Longrightarrow> rp_state p = state_name st \<Longrightarrow> run_final st \<Longrightarrow>
     bt_get (es_runs (foldl (store_step E) s ops)) run = Some p"
proof (induction ops arbitrary: s)
  case (Cons x ops)
  then show ?case using step_projected [of E s x] runs_change_final [OF step_runs_change] by simp
qed simp

text \<open>
  C25: runs follow their state machine. In every store reached by well-formed operations the
  state of a run is known or the run is absent, never a value that does not parse; a run that
  succeeded carries acceptance evidence; and a run that succeeded, failed or was cancelled stays
  so, whatever operations come later.
\<close>

theorem runs_follow_state_machine:
  assumes "json_codec (env_print E) (env_parse E)" "\<forall>x \<in> set (ops @ later). op_wf x"
    and "s = foldl (store_step E) (fresh_store ws) ops" "s' = foldl (store_step E) s later"
  shows "(\<exists>st. run_state s run = Ok st)
    \<and> (run_state s run = Ok (Some RunSucceeded) \<longrightarrow>
        (\<exists>p evidence. bt_get (es_runs s) run = Some p \<and> evidence \<noteq> [] \<and> rp_evidence_json p = evidence_json E evidence))
    \<and> (run_state s run = Ok (Some st) \<and> run_final st \<longrightarrow> run_state s' run = Ok (Some st))"
proof -
  have p: "projected E s" unfolding assms(3) by (rule run_projected [OF assms(1)]) (use assms(2) in auto)
  have "legal_runs E (fresh_store ws)" by (simp add: legal_runs_def fresh_store_def)
  then have legal: "legal_runs E s"
    using assms(2) run_legal [OF assms(1) _ fresh_projected] by (simp add: assms(3))
  have st: "bt_get (es_runs s) run = Some q \<Longrightarrow> rp_state q = state_name u \<Longrightarrow> run_state s run = Ok (Some u)" for q u
    by (simp add: run_state_def)
  have later: "\<forall>x \<in> set later. op_wf x" using assms(2) by simp
  show ?thesis
  proof (cases "bt_get (es_runs s) run")
    case None
    then show ?thesis by (simp add: run_state_def)
  next
    case (Some q)
    with legal obtain u where u: "rp_state q = state_name u"
      "u = RunSucceeded \<longrightarrow> (\<exists>evidence. evidence \<noteq> [] \<and> rp_evidence_json q = evidence_json E evidence)"
      unfolding legal_runs_def by blast
    have "run_state s' run = Ok (Some u)" if "run_final u"
      using run_final_stays [OF assms(1) later p Some u(1) that] u(1) by (simp add: assms(4) run_state_def)
    with Some u st show ?thesis by auto
  qed
qed

theorem runs_follow_state_machine_witness:
  "run_state (foldl (store_step sample_env) sample_store [TransitionRun (sample_transition ''e9'' RunFailed [])]) ''r1''
     = Ok (Some RunSucceeded)"
proof -
  let ?later = "[TransitionRun (sample_transition ''e9'' RunFailed [])]"
  have "\<forall>x \<in> set (sample_ops @ ?later). op_wf x" using sample_ops_wf by (simp add: sample_transition_def)
  from runs_follow_state_machine [OF sample_env_codec this refl refl, where ws = "''ws''" and run = "''r1''" and st = RunSucceeded]
    sample_ops_results(1)
  show ?thesis by (simp add: run_final_def)
qed

end
