(* ===== verification/BlobStore.thy ===== *)
theory BlobStore
  imports StoreEffects
begin

text \<open>
  Content-addressed encrypted blobs (\<open>crates/event-store/src/encrypted_blob.rs\<close>) and the two
  artifact operations of the store that use them. The cipher (XChaCha20-Poly1305) is a parameter
  with its documented law; the blob directory is a partial map from relative paths to file
  contents; the nonce, whether the file system accepts a write, and what a concurrent writer puts
  at the target between the existence test and the publication are arguments.
\<close>

section \<open>Blobs\<close>

record cipher =
  cp_encrypt :: "string \<Rightarrow> string \<Rightarrow> string \<Rightarrow> string \<Rightarrow> string option"
  cp_decrypt :: "string \<Rightarrow> string \<Rightarrow> string \<Rightarrow> string \<Rightarrow> string option"

text \<open>Key, nonce, message, associated data: decryption inverts encryption, and the tag has 16 bytes.\<close>

definition cipher_law :: "cipher \<Rightarrow> bool" where
  "cipher_law A \<longleftrightarrow> (\<forall>key nonce msg aad c. cp_encrypt A key nonce msg aad = Some c \<longrightarrow>
     cp_decrypt A key nonce c aad = Some msg \<and> length c = length msg + 16)"

definition BLOB_MAGIC :: string where
  "BLOB_MAGIC = ''SABLOB01''"

definition NONCE_LENGTH :: nat where
  "NONCE_LENGTH = 24"

type_synonym blob_files = "string \<Rightarrow> string option"

definition content_hash :: "(string \<Rightarrow> string) \<Rightarrow> string \<Rightarrow> string" where
  "content_hash H plaintext = hex_lower (H plaintext)"

definition blob_aad :: "string \<Rightarrow> string \<Rightarrow> string \<Rightarrow> string \<Rightarrow> u64 \<Rightarrow> string" where
  "blob_aad workspace_id media_type classification expected_hash byte_length =
     framed [workspace_id, media_type, classification, expected_hash, be_bytes 8 (unat byte_length)]"

definition blob_decrypt ::
  "cipher \<Rightarrow> string \<Rightarrow> string \<Rightarrow> string \<Rightarrow> string \<Rightarrow> string \<Rightarrow> string \<Rightarrow> u64 \<Rightarrow> store_error + string" where
  "blob_decrypt A encoded workspace_id key media_type classification expected_hash byte_length =
     (if length encoded < length BLOB_MAGIC + NONCE_LENGTH + 16 \<or> \<not> starts_with encoded BLOB_MAGIC then Err BlobCorrupt
      else
        (let nonce = take NONCE_LENGTH (drop (length BLOB_MAGIC) encoded);
             body = drop (length BLOB_MAGIC + NONCE_LENGTH) encoded
         in case cp_decrypt A key nonce body (blob_aad workspace_id media_type classification expected_hash byte_length) of
              None \<Rightarrow> Err BlobCorrupt
            | Some plaintext \<Rightarrow>
                if length plaintext \<noteq> unat byte_length then Err BlobCorrupt else Ok plaintext))"

definition blob_path :: "string \<Rightarrow> string" where
  "blob_path expected_hash = take 2 expected_hash @ ''/'' @ expected_hash @ ''.saberblob''"

definition blob_write ::
  "(string \<Rightarrow> string) \<Rightarrow> cipher \<Rightarrow> string \<Rightarrow> string \<Rightarrow> bool \<Rightarrow> string option \<Rightarrow> string \<Rightarrow> string \<Rightarrow> string \<Rightarrow> string
   \<Rightarrow> blob_files \<Rightarrow> (store_error + blob_metadata) \<times> blob_files" where
  "blob_write H A key nonce writable racing workspace_id media_type classification plaintext files =
     (let hash = content_hash H plaintext; path = blob_path hash; byte_length = word_of_nat (length plaintext);
          meta = (\<lambda>encoded. \<lparr>bm_content_hash = hash, bm_ciphertext_hash = hex_lower (H encoded),
                            bm_relative_path = path, bm_byte_length = byte_length\<rparr>);
          check = (\<lambda>encoded. case blob_decrypt A encoded workspace_id key media_type classification hash byte_length of
                     Err e \<Rightarrow> Err e
                   | Ok decoded \<Rightarrow> if decoded \<noteq> plaintext then Err BlobCorrupt else Ok ())
      in case files path of
           Some encoded \<Rightarrow> (case check encoded of Err e \<Rightarrow> (Err e, files) | Ok _ \<Rightarrow> (Ok (meta encoded), files))
         | None \<Rightarrow>
             (case cp_encrypt A key nonce plaintext (blob_aad workspace_id media_type classification hash byte_length) of
                None \<Rightarrow> (Err CryptographyError, files)
              | Some ciphertext \<Rightarrow>
                  (let encoded = BLOB_MAGIC @ nonce @ ciphertext in
                   if \<not> writable then (Err IoError, files)
                   else case racing of
                     None \<Rightarrow> (Ok (meta encoded), files(path \<mapsto> encoded))
                   | Some existing \<Rightarrow>
                       (case check existing of
                          Err e \<Rightarrow> (Err e, files(path \<mapsto> existing))
                        | Ok _ \<Rightarrow> (Ok (meta encoded), files(path \<mapsto> existing))))))"

record read_request =
  rq_relative_path :: string
  rq_workspace_id :: string
  rq_key :: string
  rq_media_type :: string
  rq_classification :: string
  rq_expected_content_hash :: string
  rq_expected_ciphertext_hash :: string
  rq_byte_length :: u64

text \<open>
  Only normal path components: a leading separator, a leading \<open>.\<close> and any \<open>..\<close> are refused
  (separators doubled and inner \<open>.\<close> are not components).
\<close>

definition normal_relative :: "string \<Rightarrow> bool" where
  "normal_relative path \<longleftrightarrow> \<not> starts_with path ''/'' \<and> ''..'' \<notin> set (split_on (CHR ''/'') path)
     \<and> hd (split_on (CHR ''/'') path) \<noteq> ''.''"

definition blob_read :: "(string \<Rightarrow> string) \<Rightarrow> cipher \<Rightarrow> blob_files \<Rightarrow> read_request \<Rightarrow> store_error + string" where
  "blob_read H A files q =
     (if \<not> normal_relative (rq_relative_path q) then Err BlobCorrupt
      else case files (rq_relative_path q) of
        None \<Rightarrow> Err IoError
      | Some encoded \<Rightarrow>
          if hex_lower (H encoded) \<noteq> rq_expected_ciphertext_hash q then Err BlobCorrupt
          else (case blob_decrypt A encoded (rq_workspace_id q) (rq_key q) (rq_media_type q) (rq_classification q)
                       (rq_expected_content_hash q) (rq_byte_length q) of
                  Err e \<Rightarrow> Err e
                | Ok plaintext \<Rightarrow>
                    if content_hash H plaintext \<noteq> rq_expected_content_hash q then Err BlobCorrupt else Ok plaintext))"

section \<open>Artifacts\<close>

record artifact_outcome =
  ao_commit :: commit_outcome
  ao_content_hash :: string

definition commit_artifact ::
  "store_env \<Rightarrow> cipher \<Rightarrow> string \<Rightarrow> string \<Rightarrow> bool \<Rightarrow> string option \<Rightarrow> event_store \<Rightarrow> blob_files \<Rightarrow> artifact_commit \<Rightarrow> string
   \<Rightarrow> (store_error + artifact_outcome) \<times> event_store \<times> blob_files" where
  "commit_artifact E A key nonce writable racing s files c plaintext =
     (if ac_workspace_id c \<noteq> es_workspace_id s then (Err WorkspaceMismatch, s, files)
      else if ac_media_type c = [] \<or> ac_classification c = [] then (Err BlobCorrupt, s, files)
      else case blob_write (env_hash E) A key nonce writable racing (es_workspace_id s) (ac_media_type c) (ac_classification c)
                  plaintext files of
        (Err e, files') \<Rightarrow> (Err e, s, files')
      | (Ok blob, files') \<Rightarrow>
          (case commit_artifact_fact E s c blob of
             (Err e, s') \<Rightarrow> (Err e, s', files')
           | (Ok commit, s') \<Rightarrow> (Ok \<lparr>ao_commit = commit, ao_content_hash = bm_content_hash blob\<rparr>, s', files')))"

definition read_artifact ::
  "store_env \<Rightarrow> cipher \<Rightarrow> string \<Rightarrow> event_store \<Rightarrow> blob_files \<Rightarrow> string \<Rightarrow> store_error + string" where
  "read_artifact E A key s files artifact_id =
     (case bt_get (es_artifacts s) artifact_id of None \<Rightarrow> Err DatabaseError | Some artifact \<Rightarrow>
      case bt_get (es_blobs s) (ar_content_hash artifact) of None \<Rightarrow> Err DatabaseError | Some blob \<Rightarrow>
      blob_read (env_hash E) A files
        \<lparr>rq_relative_path = bl_encrypted_path blob, rq_workspace_id = es_workspace_id s, rq_key = key,
         rq_media_type = bl_media_type blob, rq_classification = bl_classification blob,
         rq_expected_content_hash = ar_content_hash artifact, rq_expected_ciphertext_hash = bl_ciphertext_hash blob,
         rq_byte_length = bl_byte_length blob\<rparr>)"

section \<open>Rows stay\<close>

definition row_stays :: "event_store \<Rightarrow> (string \<times> artifact_row) + (string \<times> blob_row) \<Rightarrow> bool" where
  "row_stays s m = (case m of Inl (k, v) \<Rightarrow> bt_get (es_artifacts s) k = Some v | Inr (k, v) \<Rightarrow> bt_get (es_blobs s) k = Some v)"

lemma bodies_keep_rows:
  "create_run_body E ev ws run task at s = Ok s1 \<Longrightarrow> es_artifacts s1 = es_artifacts s \<and> es_blobs s1 = es_blobs s"
  "transition_body E c s = Ok s1 \<Longrightarrow> es_artifacts s1 = es_artifacts s \<and> es_blobs s1 = es_blobs s"
  "effect_intent_body E i s = Ok s1 \<Longrightarrow> es_artifacts s1 = es_artifacts s \<and> es_blobs s1 = es_blobs s"
  "effect_result_body E r s = Ok s1 \<Longrightarrow> es_artifacts s1 = es_artifacts s \<and> es_blobs s1 = es_blobs s"
  "(case append_to E s ev ws ty at payload of Err e \<Rightarrow> Err e | Ok (s1, _) \<Rightarrow> Ok s1) = Ok s1 \<Longrightarrow>
     es_artifacts s1 = es_artifacts s \<and> es_blobs s1 = es_blobs s"
  by (auto simp: create_run_body_def transition_body_def effect_intent_body_def effect_result_body_def
      update_run_checkpoint_def dest!: append_to_tables split: sum.splits prod.splits if_splits option.splits)

lemma artifact_body_keeps_rows: "insert_artifact_fact E a blob s = Ok s1 \<Longrightarrow> row_stays s m \<Longrightarrow> row_stays s1 m"
  by (auto simp: insert_artifact_fact_def row_stays_def Let_def store_simps dest!: append_to_tables
      split: sum.splits prod.splits if_splits option.splits)

lemma idempotent_tx_keeps_rows:
  assumes "row_stays s m" "\<And>s1. body s = Ok s1 \<Longrightarrow> row_stays s1 m"
  shows "row_stays (snd (idempotent_tx s key h ev body)) m"
proof -
  obtain r s' where tx: "idempotent_tx s key h ev body = (r, s')" by (cases "idempotent_tx s key h ev body")
  from tx have "row_stays s' m"
  proof (cases rule: idempotent_tx_cases)
    case (committed s1)
    then have "row_stays s1 m" using assms(2) by simp
    with committed(3) show ?thesis by (auto simp: record_idempotency_def row_stays_def split: if_splits sum.splits)
  qed (simp add: assms(1))
  with tx show ?thesis by simp
qed

lemma rows_same: "es_artifacts s1 = es_artifacts s \<and> es_blobs s1 = es_blobs s \<Longrightarrow> row_stays s m \<Longrightarrow> row_stays s1 m"
  by (cases m) (auto simp: row_stays_def)

lemma other_steps_keep_rows:
  "row_stays s m \<Longrightarrow> row_stays (snd (record_handshake_failure E s ws reason actor now)) m"
  "row_stays s m \<Longrightarrow> row_stays (snd (persist_policy_decision E s a)) m"
  "row_stays s m \<Longrightarrow> row_stays (snd (persist_policy_enforcement E s d at r)) m"
  "row_stays s m \<Longrightarrow> row_stays (snd (rebuild_run_projection E s)) m"
  by (auto simp: persist_policy_decision_def persist_policy_enforcement_def record_handshake_failure_def
      rebuild_run_projection_def in_transaction_def update_run_checkpoint_def Let_def dest!: append_to_tables
      intro!: rows_same [of _ s] split: sum.splits prod.splits option.splits if_splits)

lemma step_keeps_rows: "row_stays s m \<Longrightarrow> row_stays (store_step E s x) m"
proof (cases x)
  case (Recover intact)
  then show "row_stays s m \<Longrightarrow> ?thesis"
    using recover_state [of E intact s] other_steps_keep_rows(4) [of s m E] by auto
next
  case (CommitArtifact c blob)
  then show "row_stays s m \<Longrightarrow> ?thesis"
    using artifact_body_keeps_rows by (simp add: commit_artifact_fact_def idempotent_tx_keeps_rows)
next
  case (AppendCore ev ws ty at payload key)
  then show "row_stays s m \<Longrightarrow> ?thesis"
    using rows_same [OF bodies_keep_rows(5)] by (simp add: append_core_event_def idempotent_tx_keeps_rows)
qed (simp_all add: create_run_def transition_run_def record_effect_intent_def record_effect_result_def
      idempotent_tx_keeps_rows rows_same [OF bodies_keep_rows(1)] rows_same [OF bodies_keep_rows(2)]
      rows_same [OF bodies_keep_rows(3)] rows_same [OF bodies_keep_rows(4)] other_steps_keep_rows)

interpretation stored_rows: permanent_marks "store_step E" row_stays
  by unfold_locales (rule step_keeps_rows)

section \<open>Property: artifacts round trip\<close>

lemma hex_lower_chars: "c \<in> set (hex_lower s) \<Longrightarrow> c \<noteq> CHR ''/'' \<and> c \<noteq> CHR ''.''"
proof -
  have "hex_digit_lower d \<noteq> CHR ''/'' \<and> hex_digit_lower d \<noteq> CHR ''.''" if "d < 16" for d
  proof -
    have "byte (hex_digit_lower d) = (if d < 10 then 48 + d else 87 + d)"
      using that by (simp add: hex_digit_lower_def byte_def)
    then have "byte (hex_digit_lower d) \<noteq> byte (CHR ''/'') \<and> byte (hex_digit_lower d) \<noteq> byte (CHR ''.'')"
      by (simp add: byte_def)
    then show ?thesis by metis
  qed
  then show "c \<in> set (hex_lower s) \<Longrightarrow> ?thesis" by (auto simp: hex_lower_def)
qed

lemma normal_blob_path:
  assumes "H plaintext \<noteq> []"
  shows "normal_relative (blob_path (content_hash H plaintext))"
proof -
  let ?h = "content_hash H plaintext"
  have h: "CHR ''/'' \<notin> set ?h" "CHR ''.'' \<notin> set ?h" using hex_lower_chars by (auto simp: content_hash_def)
  have "length ?h \<ge> 2" using assms by (cases "H plaintext") (simp_all add: content_hash_def)
  then obtain a b r where abr: "?h = a # b # r" by (cases ?h rule: list.exhaust; cases "tl ?h") auto
  have "CHR ''/'' \<notin> set (take 2 ?h)" using h(1) by (meson in_set_takeD)
  then have "split_on (CHR ''/'') (blob_path ?h) = [take 2 ?h, ?h @ ''.saberblob'']"
    using h(1) by (simp add: blob_path_def split_on_append split_on_no_sep)
  then show ?thesis
    using h abr by (auto simp: normal_relative_def starts_with_def blob_path_def)
qed

lemma blob_decrypt_new:
  assumes "cipher_law A" "length nonce = NONCE_LENGTH" "length plaintext < 2 ^ 64"
    and "cp_encrypt A key nonce plaintext (blob_aad ws media class hash (word_of_nat (length plaintext))) = Some c"
  shows "blob_decrypt A (BLOB_MAGIC @ nonce @ c) ws key media class hash (word_of_nat (length plaintext)) = Ok plaintext"
proof -
  have "cp_decrypt A key nonce c (blob_aad ws media class hash (word_of_nat (length plaintext))) = Some plaintext"
    "length c = length plaintext + 16"
    using assms(1,4) by (auto simp: cipher_law_def)
  moreover have "unat (word_of_nat (length plaintext) :: u64) = length plaintext"
    using assms(3) by (simp add: unat_of_nat)
  ultimately show ?thesis
    using assms(2) by (simp add: blob_decrypt_def starts_with_def BLOB_MAGIC_def NONCE_LENGTH_def Let_def)
qed

text \<open>What a write leaves behind when no other writer interferes: a file that decrypts to the plaintext.\<close>

lemma blob_write_Ok:
  assumes "blob_write H A key nonce writable None ws media class plaintext files = (Ok blob, files')"
    and "cipher_law A" "length nonce = NONCE_LENGTH" "length plaintext < 2 ^ 64"
  obtains encoded where "files' (bm_relative_path blob) = Some encoded"
    "bm_ciphertext_hash blob = hex_lower (H encoded)" "bm_content_hash blob = content_hash H plaintext"
    "bm_relative_path blob = blob_path (content_hash H plaintext)" "bm_byte_length blob = word_of_nat (length plaintext)"
    "blob_decrypt A encoded ws key media class (content_hash H plaintext) (word_of_nat (length plaintext)) = Ok plaintext"
proof -
  let ?hash = "content_hash H plaintext"
  show thesis
  proof (cases "files (blob_path ?hash)")
    case (Some encoded)
    then show thesis
      using assms(1) that [of encoded] by (auto simp: blob_write_def Let_def split: sum.splits if_splits)
  next
    case None
    then obtain c where c: "cp_encrypt A key nonce plaintext (blob_aad ws media class ?hash (word_of_nat (length plaintext))) = Some c"
      using assms(1) by (auto simp: blob_write_def Let_def split: option.splits)
    from blob_decrypt_new [OF assms(2-4) c] None c assms(1) show thesis
      using that [of "BLOB_MAGIC @ nonce @ c"] by (auto simp: blob_write_def Let_def split: if_splits)
  qed
qed

text \<open>No write replaces a file.\<close>

lemma blob_write_keeps_files: "files \<subseteq>\<^sub>m snd (blob_write H A key nonce writable racing ws media class plaintext files)"
  by (auto simp: blob_write_def Let_def map_le_def split: option.splits sum.splits)

lemma artifact_fact_committed:
  assumes "commit_artifact_fact E s c blob = (Ok (Committed e), s1)"
  shows "\<exists>artifact row. row_stays s1 (Inl (ac_artifact_id c, artifact)) \<and> row_stays s1 (Inr (bm_content_hash blob, row))
     \<and> ar_content_hash artifact = bm_content_hash blob \<and> bl_encrypted_path row = bm_relative_path blob
     \<and> bl_byte_length row = bm_byte_length blob \<and> bl_media_type row = ac_media_type c
     \<and> bl_classification row = ac_classification c \<and> bl_ciphertext_hash row = bm_ciphertext_hash blob
     \<and> es_workspace_id s1 = es_workspace_id s"
proof -
  have "idempotent_tx s (ac_idempotency_key c)
       (store_digest (env_hash E) [''artifact'', ac_artifact_id c, ac_run_id c, ac_media_type c, ac_classification c,
          bm_content_hash blob]) (ac_event_id c) (insert_artifact_fact E c blob) = (Ok (Committed e), s1)"
    using assms by (auto simp: commit_artifact_fact_def split: if_splits)
  then obtain s2 where b: "insert_artifact_fact E c blob s = Ok s2"
    and same: "es_artifacts s1 = es_artifacts s2" "es_blobs s1 = es_blobs s2" "es_workspace_id s1 = es_workspace_id s2"
    by (cases rule: idempotent_tx_cases) (auto simp: record_idempotency_def split: if_splits)
  from b show ?thesis
    unfolding row_stays_def same
    by (auto simp: insert_artifact_fact_def Let_def store_simps dest!: append_to_tables
        split: sum.splits prod.splits if_splits option.splits)
qed

text \<open>
  C28: what was committed is what is read. When an artifact was committed (no other process
  publishing the same content in the same moment), reading it returns exactly the committed bytes,
  after any later operations of the store and with whatever further files in the blob directory:
  the encryption, the two hashes and the authenticated metadata agree on both sides.
\<close>

theorem artifact_roundtrip:
  assumes "cipher_law A" "length nonce = NONCE_LENGTH" "length plaintext < 2 ^ 64" "env_hash E plaintext \<noteq> []"
    and "s = foldl (store_step E) (fresh_store ws) earlier"
    and "commit_artifact E A key nonce writable None s files c plaintext = (Ok outcome, s1, files1)"
    and "ao_commit outcome = Committed e" "files1 \<subseteq>\<^sub>m files2"
  shows "read_artifact E A key (foldl (store_step E) s1 later) files2 (ac_artifact_id c) = Ok plaintext"
proof -
  let ?t = "foldl (store_step E) s1 later"
  obtain blob where w: "blob_write (env_hash E) A key nonce writable None (es_workspace_id s) (ac_media_type c) (ac_classification c)
      plaintext files = (Ok blob, files1)" and fact: "commit_artifact_fact E s c blob = (Ok (Committed e), s1)"
    using assms(6,7) by (auto simp: commit_artifact_def split: prod.splits sum.splits if_splits)
  from blob_write_Ok [OF w assms(1-3)] obtain encoded where present: "files1 (bm_relative_path blob) = Some encoded"
    and meta: "bm_ciphertext_hash blob = hex_lower (env_hash E encoded)" "bm_content_hash blob = content_hash (env_hash E) plaintext"
      "bm_relative_path blob = blob_path (content_hash (env_hash E) plaintext)" "bm_byte_length blob = word_of_nat (length plaintext)"
    and dec: "blob_decrypt A encoded (es_workspace_id s) key (ac_media_type c) (ac_classification c)
        (content_hash (env_hash E) plaintext) (word_of_nat (length plaintext)) = Ok plaintext" .
  from artifact_fact_committed [OF fact] obtain artifact row where
    rows: "row_stays s1 (Inl (ac_artifact_id c, artifact))" "row_stays s1 (Inr (bm_content_hash blob, row))"
    and eqs: "ar_content_hash artifact = bm_content_hash blob" "bl_encrypted_path row = bm_relative_path blob"
      "bl_byte_length row = bm_byte_length blob" "bl_media_type row = ac_media_type c"
      "bl_classification row = ac_classification c" "bl_ciphertext_hash row = bm_ciphertext_hash blob"
      "es_workspace_id s1 = es_workspace_id s" by blast
  have "log_ok E s" unfolding assms(5) by (rule log.run_inv) simp
  then have "log_ok E s1" using step_keeps_log [of E s "CommitArtifact c blob"] fact by simp
  then have ws: "es_workspace_id ?t = es_workspace_id s" using step_keeps_workspace eqs(7) by simp
  have "files2 (bm_relative_path blob) = Some encoded"
    using present assms(8) by (metis domI map_le_def)
  moreover have "row_stays ?t (Inl (ac_artifact_id c, artifact))" "row_stays ?t (Inr (bm_content_hash blob, row))"
    using rows by (simp_all add: stored_rows.run_mark_stays)
  moreover have "normal_relative (bm_relative_path blob)"
    unfolding meta(3) using assms(4) by (rule normal_blob_path)
  ultimately show ?thesis
    using dec eqs meta ws by (simp add: read_artifact_def row_stays_def blob_read_def)
qed

definition sample_cipher :: cipher where
  "sample_cipher = \<lparr>cp_encrypt = (\<lambda>key nonce msg aad. Some (msg @ replicate 16 (CHR ''t''))),
     cp_decrypt = (\<lambda>key nonce c aad. if length c < 16 then None else Some (take (length c - 16) c))\<rparr>"

lemma sample_cipher_law: "cipher_law sample_cipher"
  by (auto simp: cipher_law_def sample_cipher_def)

definition sample_artifact :: artifact_commit where
  "sample_artifact = \<lparr>ac_event_id = ''e7'', ac_workspace_id = ''ws'', ac_artifact_id = ''a1'', ac_run_id = ''r1'',
     ac_media_type = ''text/plain'', ac_classification = ''internal'', ac_occurred_at_ms = 7, ac_idempotency_key = ''k7''\<rparr>"

abbreviation sample_nonce :: string where
  "sample_nonce \<equiv> replicate 24 (CHR ''n'')"

lemma sample_artifact_commits:
  "map_option ao_commit (case fst (commit_artifact sample_env sample_cipher ''key'' sample_nonce True None sample_store
      (\<lambda>_. None) sample_artifact ''report'') of Ok x \<Rightarrow> Some x | Err _ \<Rightarrow> None) = Some (Committed ''e7'')"
  by code_simp

theorem artifact_roundtrip_witness:
  "read_artifact sample_env sample_cipher ''key''
     (fst (snd (commit_artifact sample_env sample_cipher ''key'' sample_nonce True None sample_store (\<lambda>_. None) sample_artifact ''report'')))
     (snd (snd (commit_artifact sample_env sample_cipher ''key'' sample_nonce True None sample_store (\<lambda>_. None) sample_artifact ''report'')))
     ''a1'' = Ok ''report''"
proof -
  let ?c = "commit_artifact sample_env sample_cipher ''key'' sample_nonce True None sample_store (\<lambda>_. None) sample_artifact ''report''"
  obtain outcome where o: "?c = (Ok outcome, fst (snd ?c), snd (snd ?c))" "ao_commit outcome = Committed ''e7''"
    using sample_artifact_commits by (cases "fst ?c") (auto simp: prod_eq_iff)
  have n: "length sample_nonce = NONCE_LENGTH" by (simp add: NONCE_LENGTH_def)
  have h: "env_hash sample_env ''report'' \<noteq> []" by (simp add: sample_env_def sample_hash_def)
  have l: "length ''report'' < 2 ^ 64" by simp
  from artifact_roundtrip [OF sample_cipher_law n l h refl o map_le_refl, where later = "[]"]
  show ?thesis by (simp add: sample_artifact_def)
qed

text \<open>
  The exception is real: when another process publishes the same content first (with its own nonce),
  the write accepts that file but reports the hash of its own ciphertext; the artifact row it
  commits then refers to bytes that are not in the file, and the artifact cannot be read.
\<close>

lemma racing_write_unreadable:
  assumes "blob_write H A key nonce True (Some existing) ws media class plaintext files = (Ok blob, files')"
    and "files (blob_path (content_hash H plaintext)) = None"
    and "cp_encrypt A key nonce plaintext (blob_aad ws media class (content_hash H plaintext) (word_of_nat (length plaintext))) = Some c"
    and "H existing \<noteq> H (BLOB_MAGIC @ nonce @ c)" "H plaintext \<noteq> []"
  shows "blob_read H A files' \<lparr>rq_relative_path = bm_relative_path blob, rq_workspace_id = ws, rq_key = key,
      rq_media_type = media, rq_classification = class, rq_expected_content_hash = bm_content_hash blob,
      rq_expected_ciphertext_hash = bm_ciphertext_hash blob, rq_byte_length = bm_byte_length blob\<rparr> = Err BlobCorrupt"
proof -
  have "bm_relative_path blob = blob_path (content_hash H plaintext)" "files' (blob_path (content_hash H plaintext)) = Some existing"
    "bm_ciphertext_hash blob = hex_lower (H (BLOB_MAGIC @ nonce @ c))"
    using assms(1-3) by (auto simp: blob_write_def Let_def split: sum.splits if_splits)
  moreover have "hex_lower (H existing) \<noteq> hex_lower (H (BLOB_MAGIC @ nonce @ c))" using assms(4) hex_lower_inj by blast
  moreover have "normal_relative (blob_path (content_hash H plaintext))" using assms(5) by (rule normal_blob_path)
  ultimately show ?thesis by (simp add: blob_read_def)
qed

end
