(* ===== verification/KeyCustody.thy ===== *)
theory KeyCustody
  imports EventStore
begin

text \<open>
  Custody of the database key (\<open>crates/event-store/src/key_custody.rs\<close> with \<open>open\<close> and
  \<open>rotate_database_key\<close> of \<open>lib.rs\<close>): the credential record with its primary and staged key, and
  the rotation in its durable steps. The native credential store is a map from workspaces to
  records, each access may fail; the database file is the key its pages are encrypted with, and
  every statement of the rotation may fail or be the last before the process stops: what is
  durable at that moment is the state returned with the error.
\<close>

section \<open>Credential records\<close>

type_synonym keyring = "string \<Rightarrow> string option"

definition RECORD_MAGIC :: string where
  "RECORD_MAGIC = ''SABERK01''"

definition KEY_LENGTH :: nat where
  "KEY_LENGTH = 32"

definition encode_record :: "string \<Rightarrow> string option \<Rightarrow> string" where
  "encode_record primary fallback =
     RECORD_MAGIC @ primary @ [char_of (if fallback \<noteq> None then 1 else (0 :: nat))]
     @ (case fallback of Some key \<Rightarrow> key | None \<Rightarrow> [])"

definition decode_record :: "string \<Rightarrow> store_error + string list" where
  "decode_record rec =
     (if length rec = KEY_LENGTH then Ok [rec]
      else if starts_with rec RECORD_MAGIC \<and> length rec \<in> {41, 73} \<and> byte (rec ! 40) \<in> {0, 1}
              \<and> (byte (rec ! 40) = 0 \<longleftrightarrow> length rec = 41)
        then Ok (take 32 (drop 8 rec) # (if byte (rec ! 40) = 1 then [take 32 (drop 41 rec)] else []))
      else Err KeyCustodyError)"

definition write_record ::
  "bool \<Rightarrow> keyring \<Rightarrow> string \<Rightarrow> string \<Rightarrow> string option \<Rightarrow> (store_error + unit) \<times> keyring" where
  "write_record writable kr workspace_id primary fallback =
     (if workspace_id = [] \<or> \<not> writable then (Err KeyCustodyError, kr)
      else (Ok (), kr(workspace_id \<mapsto> encode_record primary fallback)))"

definition load_candidates :: "bool \<Rightarrow> keyring \<Rightarrow> string \<Rightarrow> store_error + string list" where
  "load_candidates readable kr workspace_id =
     (if workspace_id = [] \<or> \<not> readable then Err KeyCustodyError
      else case kr workspace_id of None \<Rightarrow> Err KeyCustodyError | Some rec \<Rightarrow> decode_record rec)"

definition load_key :: "bool \<Rightarrow> keyring \<Rightarrow> string \<Rightarrow> store_error + string" where
  "load_key readable kr workspace_id =
     (case load_candidates readable kr workspace_id of
        Err e \<Rightarrow> Err e
      | Ok [] \<Rightarrow> Err KeyCustodyError
      | Ok (key # _) \<Rightarrow> Ok key)"

text \<open>\<open>fresh\<close> is the key the random generator yields, if it does.\<close>

definition provision :: "bool \<Rightarrow> bool \<Rightarrow> string option \<Rightarrow> keyring \<Rightarrow> string \<Rightarrow> (store_error + unit) \<times> keyring" where
  "provision readable writable fresh kr workspace_id =
     (if workspace_id = [] \<or> \<not> readable then (Err KeyCustodyError, kr)
      else case kr workspace_id of
        Some rec \<Rightarrow> (case decode_record rec of Err e \<Rightarrow> (Err e, kr) | Ok _ \<Rightarrow> (Ok (), kr))
      | None \<Rightarrow>
          (case fresh of None \<Rightarrow> (Err KeyCustodyError, kr) | Some key \<Rightarrow> write_record writable kr workspace_id key None))"

definition stage_rotation ::
  "bool \<Rightarrow> string option \<Rightarrow> keyring \<Rightarrow> string \<Rightarrow> string \<Rightarrow> (store_error + string) \<times> keyring" where
  "stage_rotation writable fresh kr workspace_id current =
     (case fresh of
        None \<Rightarrow> (Err KeyCustodyError, kr)
      | Some key \<Rightarrow>
          (case write_record writable kr workspace_id current (Some key) of
             (Err e, kr') \<Rightarrow> (Err e, kr')
           | (Ok _, kr') \<Rightarrow> (Ok key, kr')))"

definition commit_rotation :: "bool \<Rightarrow> keyring \<Rightarrow> string \<Rightarrow> string \<Rightarrow> (store_error + unit) \<times> keyring" where
  "commit_rotation writable kr workspace_id current = write_record writable kr workspace_id current None"

section \<open>Opening and rotating\<close>

text \<open>The first candidate with which the database can be configured, or the last error.\<close>

fun open_with :: "(string \<Rightarrow> store_error + unit) \<Rightarrow> store_error option \<Rightarrow> string list \<Rightarrow> store_error + string" where
  "open_with configure last_error [] = Err (case last_error of None \<Rightarrow> KeyCustodyError | Some e \<Rightarrow> e)"
| "open_with configure last_error (key # keys) =
     (case configure key of Ok _ \<Rightarrow> Ok key | Err e \<Rightarrow> open_with configure (Some e) keys)"

record custody =
  cu_keyring :: keyring
  cu_file_key :: string
  cu_store_key :: string

text \<open>A page encrypted under another key cannot be read.\<close>

definition configure_with :: "custody \<Rightarrow> string \<Rightarrow> store_error + unit" where
  "configure_with st key = (if key = cu_file_key st then Ok () else Err DatabaseError)"

definition open_store :: "string \<Rightarrow> custody \<Rightarrow> store_error + string" where
  "open_store workspace_id st =
     (case load_candidates True (cu_keyring st) workspace_id of
        Err e \<Rightarrow> Err e
      | Ok keys \<Rightarrow> if keys = [] then Err KeyCustodyError else open_with (configure_with st) None keys)"

text \<open>Which of the statements of a rotation succeed.\<close>

record rotation_faults =
  rf_fresh :: "string option"
  rf_stage :: bool
  rf_checkpoint :: bool
  rf_rekey :: bool
  rf_wal :: bool
  rf_integrity :: bool
  rf_commit :: bool

definition rotate_database_key :: "string \<Rightarrow> rotation_faults \<Rightarrow> custody \<Rightarrow> (store_error + unit) \<times> custody" where
  "rotate_database_key workspace_id f st =
     (case stage_rotation (rf_stage f) (rf_fresh f) (cu_keyring st) workspace_id (cu_store_key st) of
        (Err e, kr) \<Rightarrow> (Err e, st\<lparr>cu_keyring := kr\<rparr>)
      | (Ok key, kr) \<Rightarrow>
          (let st1 = st\<lparr>cu_keyring := kr\<rparr> in
           if \<not> rf_checkpoint f then (Err WalUnavailable, st1)
           else if \<not> rf_rekey f then (Err DatabaseError, st1)
           else
             (let st2 = st1\<lparr>cu_file_key := key\<rparr> in
              if \<not> rf_wal f then (Err WalUnavailable, st2)
              else if \<not> rf_integrity f then (Err IntegrityCheckFailed, st2)
              else (case commit_rotation (rf_commit f) kr workspace_id key of
                      (Err e, kr') \<Rightarrow> (Err e, st2\<lparr>cu_keyring := kr'\<rparr>)
                    | (Ok _, kr') \<Rightarrow> (Ok (), st2\<lparr>cu_keyring := kr', cu_store_key := key\<rparr>)))))"

text \<open>A process that stopped, or gave up on an error, opens the store again.\<close>

definition reopen :: "string \<Rightarrow> custody \<Rightarrow> custody" where
  "reopen workspace_id st = (case open_store workspace_id st of Err _ \<Rightarrow> st | Ok key \<Rightarrow> st\<lparr>cu_store_key := key\<rparr>)"

text \<open>
  What happens to the key of a store over time: rotations that its process asks for, and openings by a
  process that starts. A rotation that fails after the file was encrypted again leaves a process that
  holds the old key.
\<close>

datatype custody_event = Rotate rotation_faults | Reopen

fun custody_step :: "string \<Rightarrow> custody \<Rightarrow> custody_event \<Rightarrow> custody" where
  "custody_step workspace_id st (Rotate f) = snd (rotate_database_key workspace_id f st)"
| "custody_step workspace_id st Reopen = reopen workspace_id st"

definition rekeyed :: "rotation_faults \<Rightarrow> bool" where
  "rekeyed f \<longleftrightarrow> rf_fresh f \<noteq> None \<and> rf_stage f \<and> rf_checkpoint f \<and> rf_rekey f"

definition left_midway :: "string \<Rightarrow> custody \<Rightarrow> rotation_faults \<Rightarrow> bool" where
  "left_midway workspace_id st f \<longleftrightarrow> rekeyed f \<and> fst (rotate_database_key workspace_id f st) \<noteq> Ok ()"

text \<open>A rotation that was left midway is not followed by another one before the store is opened again.\<close>

definition orderly :: "string \<Rightarrow> custody \<Rightarrow> custody_event list \<Rightarrow> bool" where
  "orderly workspace_id st history \<longleftrightarrow>
     (\<forall>earlier f g later. history = earlier @ Rotate f # Rotate g # later
        \<longrightarrow> \<not> left_midway workspace_id (foldl (custody_step workspace_id) st earlier) f)"

section \<open>Record round trip\<close>

lemma decode_encode_record:
  assumes "length primary = KEY_LENGTH" "\<forall>key. fallback = Some key \<longrightarrow> length key = KEY_LENGTH"
  shows "decode_record (encode_record primary fallback) =
    Ok (primary # (case fallback of None \<Rightarrow> [] | Some key \<Rightarrow> [key]))"
proof -
  have flag: "(RECORD_MAGIC @ primary @ c # r) ! 40 = c" for c r
    using assms(1) by (simp add: RECORD_MAGIC_def KEY_LENGTH_def nth_append)
  have parts: "take 32 (drop 8 (RECORD_MAGIC @ primary @ r)) = primary" "drop 41 (RECORD_MAGIC @ primary @ c # r) = r" for c r
    using assms(1) by (simp_all add: RECORD_MAGIC_def KEY_LENGTH_def)
  have byte: "byte (char_of (0 :: nat)) = 0" "byte (char_of (Suc 0)) = 1" by (simp_all add: byte_def)
  show ?thesis
    using assms by (cases fallback)
      (simp_all add: decode_record_def encode_record_def flag parts byte starts_with_def, simp_all add: RECORD_MAGIC_def KEY_LENGTH_def)
qed

section \<open>Property: rotation\<close>

definition custody_ok :: "string \<Rightarrow> custody \<Rightarrow> bool" where
  "custody_ok workspace_id st \<longleftrightarrow> workspace_id \<noteq> [] \<and> cu_store_key st = cu_file_key st \<and> length (cu_file_key st) = KEY_LENGTH
     \<and> (\<exists>keys. load_candidates True (cu_keyring st) workspace_id = Ok keys \<and> cu_file_key st \<in> set keys)"

lemma open_with_file_key:
  "cu_file_key st \<in> set keys \<Longrightarrow> open_with (configure_with st) last_error keys = Ok (cu_file_key st)"
  by (induction keys arbitrary: last_error) (auto simp: configure_with_def)

lemma open_store_file_key:
  "load_candidates True (cu_keyring st) workspace_id = Ok keys \<Longrightarrow> cu_file_key st \<in> set keys \<Longrightarrow>
     open_store workspace_id st = Ok (cu_file_key st)"
  by (auto simp: open_store_def open_with_file_key)

text \<open>After every stop the file's key is among the candidates.\<close>

lemma rotation_keeps_candidate:
  assumes "custody_ok workspace_id st" "\<forall>key. rf_fresh f = Some key \<longrightarrow> length key = KEY_LENGTH"
    and "rotate_database_key workspace_id f st = (r, st')"
  shows "length (cu_file_key st') = KEY_LENGTH
    \<and> (\<exists>keys. load_candidates True (cu_keyring st') workspace_id = Ok keys \<and> cu_file_key st' \<in> set keys)"
proof (cases "rf_stage f \<and> rf_fresh f \<noteq> None")
  case False
  with assms show ?thesis
    by (auto simp: rotate_database_key_def stage_rotation_def write_record_def custody_ok_def split: option.splits)
next
  case True
  then obtain key where key: "rf_fresh f = Some key" "length key = KEY_LENGTH" using assms(2) by auto
  let ?kr = "(cu_keyring st)(workspace_id \<mapsto> encode_record (cu_store_key st) (Some key))"
  have staged: "load_candidates True ?kr workspace_id = Ok [cu_store_key st, key]"
    using assms(1) key(2) decode_encode_record [of "cu_store_key st" "Some key"]
    by (auto simp: load_candidates_def custody_ok_def)
  have finished: "load_candidates True (?kr(workspace_id \<mapsto> encode_record key None)) workspace_id = Ok [key]"
    using assms(1) key(2) decode_encode_record [of key None] by (simp add: load_candidates_def custody_ok_def)
  from assms True key staged finished show ?thesis
    by (auto simp: rotate_database_key_def stage_rotation_def commit_rotation_def write_record_def custody_ok_def Let_def
        split: if_splits)
qed

lemma rotation_own_key:
  assumes "cu_store_key st = cu_file_key st" "rotate_database_key workspace_id f st = (r, st')" "\<not> left_midway workspace_id st f"
  shows "cu_store_key st' = cu_file_key st'"
  using assms
  by (auto simp: rotate_database_key_def stage_rotation_def commit_rotation_def write_record_def left_midway_def rekeyed_def Let_def
      split: option.splits if_splits)

lemma rotation_file_key:
  assumes "rotate_database_key workspace_id f st = (r, st')" "workspace_id \<noteq> []" "length (cu_store_key st) = KEY_LENGTH"
    "\<forall>key. rf_fresh f = Some key \<longrightarrow> length key = KEY_LENGTH"
  shows "cu_file_key st' = (if rekeyed f then the (rf_fresh f) else cu_file_key st)"
    and "r = Ok () \<Longrightarrow> load_candidates True (cu_keyring st') workspace_id = Ok [the (rf_fresh f)]"
  using assms
  by (auto simp: rotate_database_key_def stage_rotation_def commit_rotation_def write_record_def rekeyed_def Let_def
      load_candidates_def decode_encode_record split: option.splits if_splits)

definition recoverable :: "string \<Rightarrow> custody \<Rightarrow> bool" where
  "recoverable workspace_id st \<longleftrightarrow> workspace_id \<noteq> [] \<and> length (cu_file_key st) = KEY_LENGTH
     \<and> (\<exists>keys. load_candidates True (cu_keyring st) workspace_id = Ok keys \<and> cu_file_key st \<in> set keys)"

lemma custody_ok_recoverable: "custody_ok workspace_id st \<longleftrightarrow> recoverable workspace_id st \<and> cu_store_key st = cu_file_key st"
  by (auto simp: custody_ok_def recoverable_def)

lemma recoverable_reopens: "recoverable workspace_id st \<Longrightarrow> open_store workspace_id st = Ok (cu_file_key st)"
  by (auto simp: recoverable_def intro: open_store_file_key)

lemma reopen_ok: "recoverable workspace_id st \<Longrightarrow> custody_ok workspace_id (reopen workspace_id st)"
  using recoverable_reopens by (auto simp: reopen_def custody_ok_recoverable recoverable_def)

lemma rotation_recoverable_step:
  assumes "custody_ok workspace_id st" "\<forall>key. rf_fresh f = Some key \<longrightarrow> length key = KEY_LENGTH"
  shows "recoverable workspace_id (custody_step workspace_id st (Rotate f))"
  using rotation_keeps_candidate [OF assms surjective_pairing] assms(1) by (simp add: recoverable_def custody_ok_def)

text \<open>A history leaves the process with the key of the file, or it ends with the rotation that was left midway.\<close>

lemma orderly_history:
  assumes "custody_ok workspace_id st"
  shows "orderly workspace_id st history
      \<Longrightarrow> \<forall>f. Rotate f \<in> set history \<longrightarrow> (\<forall>key. rf_fresh f = Some key \<longrightarrow> length key = KEY_LENGTH)
      \<Longrightarrow> recoverable workspace_id (foldl (custody_step workspace_id) st history)
        \<and> (custody_ok workspace_id (foldl (custody_step workspace_id) st history)
           \<or> (\<exists>earlier f. history = earlier @ [Rotate f] \<and> left_midway workspace_id (foldl (custody_step workspace_id) st earlier) f))"
proof (induction history rule: rev_induct)
  case Nil
  with assms show ?case by (simp add: custody_ok_recoverable)
next
  case (snoc x history)
  let ?st = "foldl (custody_step workspace_id) st history"
  have "orderly workspace_id st history" using snoc.prems(1) by (fastforce simp: orderly_def)
  then have IH: "recoverable workspace_id ?st" "custody_ok workspace_id ?st
      \<or> (\<exists>earlier f. history = earlier @ [Rotate f] \<and> left_midway workspace_id (foldl (custody_step workspace_id) st earlier) f)"
    using snoc.IH snoc.prems(2) by simp_all
  show ?case
  proof (cases x)
    case (Rotate f)
    have ok: "custody_ok workspace_id ?st" using IH(2) snoc.prems(1) Rotate by (fastforce simp: orderly_def)
    moreover have l: "\<forall>key. rf_fresh f = Some key \<longrightarrow> length key = KEY_LENGTH" using snoc.prems(2) Rotate by simp
    ultimately have "recoverable workspace_id (custody_step workspace_id ?st (Rotate f))" by (rule rotation_recoverable_step)
    moreover have "cu_store_key (custody_step workspace_id ?st (Rotate f)) = cu_file_key (custody_step workspace_id ?st (Rotate f))"
      if "\<not> left_midway workspace_id ?st f"
      using rotation_own_key [OF _ surjective_pairing that] ok by (simp add: custody_ok_def)
    ultimately show ?thesis using Rotate by (cases "left_midway workspace_id ?st f") (auto simp: custody_ok_recoverable)
  next
    case Reopen
    with reopen_ok [OF IH(1)] show ?thesis by (simp add: custody_ok_recoverable)
  qed
qed

text \<open>
  C29: key rotation never locks the store out. Take any history of rotations and openings, with whichever
  statement of each rotation failing or being the last before the process stops, in which a process whose
  rotation failed after the file was encrypted again opens the store before it rotates once more. Then the
  next opening succeeds, with exactly the key the database file is encrypted with: the one the last rotation
  drew when it got to the encryption, else the one before it. When the rotation succeeded, that key is the
  only candidate left. A rotation in the same process right after one left midway is not covered, and the
  lemma \<open>retry_without_reopen_loses_key\<close> shows that it can lock the store out.
\<close>

theorem rotation_recoverable:
  assumes "custody_ok workspace_id st" "orderly workspace_id st history"
    and "\<forall>f. Rotate f \<in> set history \<longrightarrow> (\<forall>key. rf_fresh f = Some key \<longrightarrow> length key = KEY_LENGTH)"
    and "st' = foldl (custody_step workspace_id) st history"
  shows "open_store workspace_id st' = Ok (cu_file_key st')
    \<and> (\<forall>earlier f. history = earlier @ [Rotate f] \<longrightarrow>
         cu_file_key st' = (if rekeyed f then the (rf_fresh f) else cu_file_key (foldl (custody_step workspace_id) st earlier))
         \<and> (fst (rotate_database_key workspace_id f (foldl (custody_step workspace_id) st earlier)) = Ok () \<longrightarrow>
              load_candidates True (cu_keyring st') workspace_id = Ok [the (rf_fresh f)]))"
proof (intro conjI allI impI)
  have h: "recoverable workspace_id st'" using orderly_history [OF assms(1-3)] assms(4) by simp
  then show "open_store workspace_id st' = Ok (cu_file_key st')" by (rule recoverable_reopens)
  fix earlier f
  assume e: "history = earlier @ [Rotate f]"
  let ?st = "foldl (custody_step workspace_id) st earlier"
  have "orderly workspace_id st earlier" using assms(2) e by (fastforce simp: orderly_def)
  then have "custody_ok workspace_id ?st"
    using orderly_history [OF assms(1), of earlier] assms(2,3) e by (fastforce simp: orderly_def)
  then have "workspace_id \<noteq> []" "length (cu_store_key ?st) = KEY_LENGTH" by (simp_all add: custody_ok_def)
  moreover have "\<forall>key. rf_fresh f = Some key \<longrightarrow> length key = KEY_LENGTH" using assms(3) e by simp
  ultimately have r: "cu_file_key (snd (rotate_database_key workspace_id f ?st)) = (if rekeyed f then the (rf_fresh f) else cu_file_key ?st)"
    "fst (rotate_database_key workspace_id f ?st) = Ok () \<Longrightarrow>
       load_candidates True (cu_keyring (snd (rotate_database_key workspace_id f ?st))) workspace_id = Ok [the (rf_fresh f)]"
    using rotation_file_key [OF surjective_pairing] by blast+
  have st': "st' = snd (rotate_database_key workspace_id f ?st)" by (simp add: assms(4) e)
  show "cu_file_key st' = (if rekeyed f then the (rf_fresh f) else cu_file_key ?st)" unfolding st' by (rule r(1))
  show "load_candidates True (cu_keyring st') workspace_id = Ok [the (rf_fresh f)]"
    if "fst (rotate_database_key workspace_id f ?st) = Ok ()"
    unfolding st' by (rule r(2) [OF that])
qed

definition sample_custody :: custody where
  "sample_custody = \<lparr>cu_keyring = (\<lambda>_. Some (replicate 32 (CHR ''k''))), cu_file_key = replicate 32 (CHR ''k''),
     cu_store_key = replicate 32 (CHR ''k'')\<rparr>"

definition sample_faults :: "char \<Rightarrow> bool \<Rightarrow> bool \<Rightarrow> rotation_faults" where
  "sample_faults c rekey commit = \<lparr>rf_fresh = Some (replicate 32 c), rf_stage = True, rf_checkpoint = True, rf_rekey = rekey,
     rf_wal = True, rf_integrity = True, rf_commit = commit\<rparr>"

lemma sample_custody_ok: "custody_ok ''ws'' sample_custody"
  by (simp add: custody_ok_def sample_custody_def load_candidates_def decode_record_def KEY_LENGTH_def)

theorem rotation_recoverable_witness:
  "open_store ''ws'' (foldl (custody_step ''ws'') sample_custody
      [Rotate (sample_faults (CHR ''a'') True False), Reopen, Rotate (sample_faults (CHR ''b'') True True)]) = Ok (replicate 32 (CHR ''b''))"
proof -
  let ?f = "sample_faults (CHR ''b'') True True" and ?g = "sample_faults (CHR ''a'') True False"
  have k: "\<forall>f. Rotate f \<in> set [Rotate ?g, Reopen, Rotate ?f] \<longrightarrow> (\<forall>key. rf_fresh f = Some key \<longrightarrow> length key = KEY_LENGTH)"
    by (simp add: sample_faults_def KEY_LENGTH_def)
  have o: "orderly ''ws'' sample_custody [Rotate ?g, Reopen, Rotate ?f]"
    by (auto simp: orderly_def Cons_eq_append_conv)
  have r: "rekeyed ?f" "the (rf_fresh ?f) = replicate 32 (CHR ''b'')" by (simp_all add: rekeyed_def sample_faults_def)
  have e: "[Rotate ?g, Reopen, Rotate ?f] = [Rotate ?g, Reopen] @ [Rotate ?f]" by simp
  from rotation_recoverable [OF sample_custody_ok o k refl] e r show ?thesis by metis
qed

text \<open>
  Opening again in between is needed: a store that keeps running after a rotation whose commit
  failed holds the old key, and its next attempt stages that one as primary, dropping the key
  the file has. If this attempt stops before it has rekeyed the file, no candidate opens it.
\<close>

lemma retry_without_reopen_loses_key:
  "open_store ''ws'' (snd (rotate_database_key ''ws'' (sample_faults (CHR ''b'') False False)
      (snd (rotate_database_key ''ws'' (sample_faults (CHR ''a'') True False) sample_custody)))) = Err DatabaseError"
  by code_simp

end
