(* ===== verification/PluginHost.thy ===== *)
theory PluginHost
  imports SandboxPlan PolicyVocabulary
begin

text \<open>
  Admission and fault containment of plugins and generated code
  (\<open>crates/effect-broker/src/plugin_host.rs\<close>): the manifest checks, the circuit breaker and the
  quarantine switch. SHA-256 is a parameter. The failure counter is a \<open>u32\<close> that wraps.
\<close>

definition CIRCUIT_FAILURE_THRESHOLD :: u32 where
  "CIRCUIT_FAILURE_THRESHOLD = 3"

datatype host_error = InvalidManifest | DigestMismatch | HostUnknownAction | RealmTooHigh | HostQuarantined | CircuitIsOpen

fun host_error_str :: "host_error \<Rightarrow> string" where
  "host_error_str InvalidManifest = ''invalid_manifest''"
| "host_error_str DigestMismatch = ''digest_mismatch''"
| "host_error_str HostUnknownAction = ''unknown_action''"
| "host_error_str RealmTooHigh = ''realm_too_high''"
| "host_error_str HostQuarantined = ''quarantined''"
| "host_error_str CircuitIsOpen = ''circuit_open''"

record declared_action =
  dl_action :: action
  dl_pattern :: string

record plugin_manifest =
  pm_plugin_id :: string
  pm_version :: string
  pm_content_digest :: string
  pm_declared :: "declared_action list"
  pm_realm :: realm
  pm_wall_clock_ms :: u64
  pm_max_output_bytes :: nat

datatype circuit_state = CircuitClosed | CircuitOpen | CircuitQuarantined

record plugin_entry =
  pn_manifest :: plugin_manifest
  pn_consecutive_failures :: u32
  pn_circuit :: circuit_state

type_synonym plugin_host = "(string, plugin_entry) btree"

definition is_ascii_hexdigit :: "char \<Rightarrow> bool" where
  "is_ascii_hexdigit c \<longleftrightarrow> is_digit_byte c \<or> 65 \<le> byte c \<and> byte c \<le> 70 \<or> 97 \<le> byte c \<and> byte c \<le> 102"

text \<open>The comparison accumulates the differences of all bytes before it answers.\<close>

definition constant_time_eq :: "string \<Rightarrow> string \<Rightarrow> bool" where
  "constant_time_eq left right =
     (if length left \<noteq> length right then False
      else foldl (\<lambda>d (a, b). Bit_Operations.or d (Bit_Operations.xor (word_of_nat (byte a)) (word_of_nat (byte b)))) (0 :: u8)
             (zip left right) = 0)"

definition declared_ok :: "declared_action \<Rightarrow> bool" where
  "declared_ok d \<longleftrightarrow> \<not> (isl (pattern_prefix (dl_action d) (dl_pattern d)) \<and> isl (pattern_exact (dl_action d) (dl_pattern d)))"

definition admit :: "(string \<Rightarrow> string) \<Rightarrow> plugin_host \<Rightarrow> plugin_manifest \<Rightarrow> string \<Rightarrow> (host_error + unit) \<times> plugin_host" where
  "admit H host m code =
     (if pm_plugin_id m = [] \<or> pm_version m = [] \<or> pm_declared m = [] \<or> pm_wall_clock_ms m = 0 \<or> pm_max_output_bytes m = 0
      then (Err InvalidManifest, host)
      else if \<not> starts_with (pm_content_digest m) ''sha256:'' \<or> length (pm_content_digest m) \<noteq> 71
              \<or> (\<exists>c \<in> set (drop 7 (pm_content_digest m)). \<not> is_ascii_hexdigit c)
      then (Err InvalidManifest, host)
      else if pm_realm m > S3IsolatedOverlay then (Err RealmTooHigh, host)
      else if \<exists>d \<in> set (pm_declared m). \<not> declared_ok d then (Err HostUnknownAction, host)
      else if \<not> constant_time_eq (''sha256:'' @ hex_upper (H code)) (pm_content_digest m) then (Err DigestMismatch, host)
      else (Ok (), bt_insert (pm_plugin_id m)
             \<lparr>pn_manifest = m, pn_consecutive_failures = 0, pn_circuit = CircuitClosed\<rparr> host))"

definition authorize_exec :: "plugin_host \<Rightarrow> string \<Rightarrow> host_error + plugin_manifest" where
  "authorize_exec host plugin_id =
     (case bt_get host plugin_id of
        None \<Rightarrow> Err InvalidManifest
      | Some entry \<Rightarrow>
          (case pn_circuit entry of
             CircuitQuarantined \<Rightarrow> Err HostQuarantined
           | CircuitOpen \<Rightarrow> Err CircuitIsOpen
           | CircuitClosed \<Rightarrow> Ok (pn_manifest entry)))"

definition note_result :: "plugin_host \<Rightarrow> string \<Rightarrow> bool \<Rightarrow> plugin_host" where
  "note_result host plugin_id ok =
     (case bt_get host plugin_id of
        None \<Rightarrow> host
      | Some entry \<Rightarrow>
          bt_insert plugin_id
            (if ok then entry\<lparr>pn_consecutive_failures := 0,
                              pn_circuit := (if pn_circuit entry = CircuitOpen then CircuitClosed else pn_circuit entry)\<rparr>
             else
               (let n = pn_consecutive_failures entry + 1 in
                entry\<lparr>pn_consecutive_failures := n,
                      pn_circuit := (if CIRCUIT_FAILURE_THRESHOLD \<le> n then CircuitOpen else pn_circuit entry)\<rparr>)) host)"

definition quarantine :: "plugin_host \<Rightarrow> string \<Rightarrow> plugin_host" where
  "quarantine host plugin_id =
     (case bt_get host plugin_id of
        None \<Rightarrow> host
      | Some entry \<Rightarrow> bt_insert plugin_id (entry\<lparr>pn_circuit := CircuitQuarantined\<rparr>) host)"

definition is_executable :: "plugin_host \<Rightarrow> string \<Rightarrow> bool" where
  "is_executable host plugin_id \<longleftrightarrow> \<not> isl (authorize_exec host plugin_id)"

definition host_manifest :: "plugin_host \<Rightarrow> string \<Rightarrow> host_error + plugin_manifest" where
  "host_manifest host plugin_id =
     (case bt_get host plugin_id of None \<Rightarrow> Err InvalidManifest | Some entry \<Rightarrow> Ok (pn_manifest entry))"

section \<open>The comparison\<close>

lemma or_xor_zero:
  "foldl (\<lambda>d (a, b). Bit_Operations.or d (Bit_Operations.xor (word_of_nat (byte a)) (word_of_nat (byte b)))) (d :: u8) ps = 0
     \<longleftrightarrow> d = 0 \<and> (\<forall>(a, b) \<in> set ps. a = b)"
proof (induction ps arbitrary: d)
  case (Cons p ps)
  obtain a b where p: "p = (a, b)" by (cases p)
  have x: "Bit_Operations.xor v w = 0 \<longleftrightarrow> v = w" for v w :: u8
    by (auto simp: bit_eq_iff bit_xor_iff)
  have "(word_of_nat (byte a) :: u8) = word_of_nat (byte b) \<longleftrightarrow> a = b"
    using byte_less [of a] byte_less [of b]
    by (auto simp: byte_eq_iff [symmetric] word_of_nat_eq_iff take_bit_nat_eq_self)
  with x have "(Bit_Operations.xor (word_of_nat (byte a)) (word_of_nat (byte b)) :: u8) = 0 \<longleftrightarrow> a = b" by simp
  with Cons show ?case by (auto simp: p or_eq_0_iff)
qed simp

lemma constant_time_eq_iff: "constant_time_eq s t \<longleftrightarrow> s = t"
  by (auto simp: constant_time_eq_def or_xor_zero set_zip list_eq_iff_nth_eq)

section \<open>Containment\<close>

datatype host_op = Admit plugin_manifest string | NoteResult string bool | Quarantine string

fun host_step :: "(string \<Rightarrow> string) \<Rightarrow> plugin_host \<Rightarrow> host_op \<Rightarrow> plugin_host" where
  "host_step H host (Admit m code) = snd (admit H host m code)"
| "host_step H host (NoteResult i ok) = note_result host i ok"
| "host_step H host (Quarantine i) = quarantine host i"

text \<open>An admitted manifest: its code hashes to its digest, its realm is at most S3, its actions are known.\<close>

definition admitted :: "(string \<Rightarrow> string) \<Rightarrow> plugin_manifest \<Rightarrow> bool" where
  "admitted H m \<longleftrightarrow> (\<exists>code. pm_content_digest m = ''sha256:'' @ hex_upper (H code)) \<and> pm_realm m \<le> S3IsolatedOverlay
     \<and> pm_declared m \<noteq> [] \<and> (\<forall>d \<in> set (pm_declared m). declared_ok d) \<and> pm_wall_clock_ms m \<noteq> 0"

definition host_ok :: "(string \<Rightarrow> string) \<Rightarrow> plugin_host \<Rightarrow> bool" where
  "host_ok H host \<longleftrightarrow> (\<forall>i entry. bt_get host i = Some entry \<longrightarrow> admitted H (pn_manifest entry) \<and> pm_plugin_id (pn_manifest entry) = i
     \<and> (pn_circuit entry = CircuitClosed \<longrightarrow> pn_consecutive_failures entry < CIRCUIT_FAILURE_THRESHOLD))"

lemma host_step_ok: "host_ok H host \<Longrightarrow> host_ok H (host_step H host x)"
proof (cases x)
  case (Admit m code)
  then show "host_ok H host \<Longrightarrow> ?thesis"
    by (auto simp: admit_def host_ok_def admitted_def store_simps constant_time_eq_iff CIRCUIT_FAILURE_THRESHOLD_def
        split: if_splits) metis+
next
  case (NoteResult i ok)
  then show "host_ok H host \<Longrightarrow> ?thesis"
    by (auto simp: note_result_def host_ok_def store_simps CIRCUIT_FAILURE_THRESHOLD_def Let_def split: option.splits if_splits)
next
  case (Quarantine i)
  then show "host_ok H host \<Longrightarrow> ?thesis"
    by (auto simp: quarantine_def host_ok_def store_simps split: option.splits if_splits)
qed

interpretation plugin_host: stepper "host_step H" "host_ok H"
  by unfold_locales (rule host_step_ok)

text \<open>
  What may execute, in every state the host can reach: a plugin whose admitted code has the
  declared digest, whose realm is at most S3, whose actions are in the vocabulary, and whose last
  failures were fewer than three.
\<close>

lemma executable_plugin_contained:
  assumes "authorize_exec (foldl (host_step H) [] ops) i = Ok m"
  shows "admitted H m \<and> pm_plugin_id m = i
    \<and> (\<exists>entry. bt_get (foldl (host_step H) [] ops) i = Some entry \<and> pn_consecutive_failures entry < CIRCUIT_FAILURE_THRESHOLD)"
proof -
  have "host_ok H (foldl (host_step H) [] ops)" by (rule plugin_host.run_inv) (simp add: host_ok_def)
  with assms show ?thesis
    by (auto simp: authorize_exec_def host_ok_def split: option.splits circuit_state.splits)
qed

text \<open>
  Quarantine is not terminal: three results that fail and one that succeeds (of executions still in
  flight) make the plugin executable again, and so does admitting it once more.
\<close>

lemma quarantine_undone_by_results:
  assumes "bt_get host i = Some entry" "pn_consecutive_failures entry = 0"
  shows "is_executable (foldl (host_step H) host
    [Quarantine i, NoteResult i False, NoteResult i False, NoteResult i False, NoteResult i True]) i"
  using assms
  by (simp add: quarantine_def note_result_def store_simps is_executable_def authorize_exec_def
      CIRCUIT_FAILURE_THRESHOLD_def Let_def)

lemma quarantine_undone_by_admission:
  assumes "admit H (quarantine host (pm_plugin_id m)) m code = (Ok (), host')"
  shows "is_executable host' (pm_plugin_id m)"
  using assms by (auto simp: admit_def is_executable_def authorize_exec_def store_simps split: if_splits)

text \<open>A digest in lower case (the form every other component produces) passes the format check and never matches.\<close>

lemma lowercase_digest_refused:
  assumes "\<exists>c \<in> set (drop 7 (pm_content_digest m)). 97 \<le> byte c"
  shows "fst (admit H host m code) \<noteq> Ok ()"
proof -
  have "byte (hex_digit_upper d) < 97" if "d < 16" for d
    using that by (simp add: hex_digit_upper_def byte_def)
  then have d: "byte (hex_digit_upper (byte b div 16)) < 97" "byte (hex_digit_upper (byte b mod 16)) < 97" for b
    by (simp_all only: byte_nibbles)
  then have "byte c < 97" if "c \<in> set (hex_upper (H code))" for c
    using that by (auto simp: hex_upper_def)
  moreover obtain c where c: "c \<in> set (drop 7 (pm_content_digest m))" "97 \<le> byte c"
    using assms by blast
  ultimately have "drop 7 (pm_content_digest m) \<noteq> hex_upper (H code)"
    using not_less by metis
  then have "pm_content_digest m \<noteq> ''sha256:'' @ hex_upper (H code)" by auto
  then show ?thesis by (auto simp: admit_def constant_time_eq_iff Let_def split: if_splits)
qed

end
