(* ===== verification/GovernedRuns.thy ===== *)
theory GovernedRuns
  imports RunEngine
begin

text \<open>
  What the governed runs guarantee: only an approved step acts on the files, every handler returns,
  and a run succeeds only when every acceptance check passed. The steps are reasoned about with
  relations between the states before and after (\<open>along\<close>) and with pre- and postconditions
  (\<open>after\<close>).
\<close>

named_theorems along_intros \<open>steps that stay within a relation\<close>

section \<open>Steps within a relation\<close>

definition along :: "(sys \<Rightarrow> sys \<Rightarrow> bool) \<Rightarrow> 'a step \<Rightarrow> bool" where
  "along R m \<longleftrightarrow> (\<forall>s. R s (snd (m s)))"

lemma alongI: "(\<And>s. R s (snd (m s))) \<Longrightarrow> along R m"
  by (simp add: along_def)

lemma alongD: "along R m \<Longrightarrow> R s (snd (m s))"
  by (simp add: along_def)

locale step_relation =
  fixes R :: "sys \<Rightarrow> sys \<Rightarrow> bool"
  assumes R_refl: "R s s"
    and R_trans: "R s t \<Longrightarrow> R t u \<Longrightarrow> R s u"
begin

lemma along_ret: "along R (ret a)"
  by (simp add: along_def ret_def R_refl)

lemma along_fail: "along R (fail message)"
  by (simp add: along_def fail_def R_refl)

lemma along_get: "along R get_sys"
  by (simp add: along_def get_sys_def R_refl)

lemma along_result: "along R (of_result r)"
  by (cases r) (simp_all add: of_result_def along_ret along_fail)

lemma along_option: "along R (of_option message x)"
  by (cases x) (simp_all add: of_option_def along_ret along_fail)

lemma along_then_state:
  assumes "along R m" "\<And>s a s'. m s = (Ok a, s') \<Longrightarrow> R s' (snd (f a s'))"
  shows "along R (then_do m f)"
proof (rule alongI)
  fix s
  obtain r s' where m: "m s = (r, s')" by (cases "m s")
  have "R s s'" using alongD [OF assms(1), of s] m by simp
  then show "R s (snd (then_do m f s))"
    using assms(2) m by (cases r) (auto simp: then_do_def intro: R_trans)
qed

lemma along_then: "along R m \<Longrightarrow> (\<And>a. along R (f a)) \<Longrightarrow> along R (then_do m f)"
  by (rule along_then_state) (auto dest: alongD)

lemma along_get_run: "along R (get_run run_id)"
  unfolding get_run_def by (intro along_then along_get along_option)

lemma along_if: "(b \<Longrightarrow> along R m) \<Longrightarrow> (\<not> b \<Longrightarrow> along R m') \<Longrightarrow> along R (if b then m else m')"
  by simp

lemma along_check_each:
  assumes "\<And>p k. along R (append_run_event V workspace ''run.acceptance_checked'' now p k)"
    and "\<And>check. check \<in> set checks \<Longrightarrow> along R (on_files (\<lambda>fs. case verify_acceptance V worktree (or_else (get_str check ''kind'') []) check fs of
        (r, fs1) \<Rightarrow> (Ok r, fs1)))"
  shows "along R (check_each V workspace run_id worktree now checks ev ok)"
  using assms(2)
proof (induction checks arbitrary: ev ok)
  case (Cons check checks)
  then show ?case
    by (auto simp: Let_def intro!: along_then assms(1) split: prod.splits)
qed (simp add: along_ret)

lemmas along_basic = along_ret along_fail along_get along_result along_option along_get_run

end

text \<open>Files stay as they are and goals too, unless a goal has a check that runs a command.\<close>

definition runs_command :: "json \<Rightarrow> bool" where
  "runs_command check \<longleftrightarrow> or_else (get_str check ''kind'') [] = ''command_succeeds''"

definition quiet_goals :: "(string \<rightharpoonup> json) \<Rightarrow> bool" where
  "quiet_goals goals \<longleftrightarrow> (\<forall>goal \<in> ran goals. \<forall>check \<in> set (checks_of goal). \<not> runs_command check)"

definition files_kept :: "sys \<Rightarrow> sys \<Rightarrow> bool" where
  "files_kept s t \<longleftrightarrow> eg_goals (sy_engine t) = eg_goals (sy_engine s)
     \<and> (quiet_goals (eg_goals (sy_engine s)) \<longrightarrow> sy_fs t = sy_fs s)"

interpretation files: step_relation files_kept
  by unfold_locales (auto simp: files_kept_def)

lemma files_on_store: "along files_kept (on_store show f)"
  by (auto simp: along_def on_store_def files_kept_def split: prod.splits sum.splits)

lemma files_on_engine: "(\<And>eng. eg_goals (f eng) = eg_goals eng) \<Longrightarrow> along files_kept (on_engine f)"
  by (simp add: along_def on_engine_def files_kept_def)

lemma update_run_goals [simp]: "eg_goals (update_run run_id f eng) = eg_goals eng"
  by (simp add: update_run_def split: option.splits)

lemma apply_binding_goals [simp]: "eg_goals (apply_binding payload eng) = eg_goals eng"
  by (simp add: apply_binding_def Let_def split: option.splits)

lemma apply_event_goals: "event_type \<noteq> ''goal.created'' \<Longrightarrow> eg_goals (apply_event V event_type p eng) = eg_goals eng"
  by (auto simp: apply_event_def apply_payload_def Let_def split: option.splits)

lemma files_append_run_event:
  "event_type \<noteq> ''goal.created'' \<Longrightarrow> along files_kept (append_run_event V workspace event_type now payload key)"
  unfolding append_run_event_def core_event_def
  by (intro files.along_then files.along_get files_on_store files_on_engine) (simp_all add: apply_event_goals)

lemma files_transition: "along files_kept (transition V run_id target evidence now key)"
  unfolding transition_def Let_def
  by (intro files.along_then files.along_get files_on_store files_on_engine) simp

lemma files_remove_step: "along files_kept (remove_step run_id step_id)"
  unfolding remove_step_def by (rule files_on_engine) simp

lemma files_record_effect: "along files_kept (record_effect V workspace run_id step outcome now)"
  unfolding record_effect_def Let_def
  by (intro files.along_then files_on_store files_append_run_event) simp

lemmas files_steps = files.along_basic files_on_store files_append_run_event files_transition files_remove_step files_record_effect

text \<open>Checks that read leave the files alone; any check leaves the goals alone.\<close>

definition goals_kept :: "sys \<Rightarrow> sys \<Rightarrow> bool" where
  "goals_kept s t \<longleftrightarrow> eg_goals (sy_engine t) = eg_goals (sy_engine s)"

definition all_kept :: "sys \<Rightarrow> sys \<Rightarrow> bool" where
  "all_kept s t \<longleftrightarrow> eg_goals (sy_engine t) = eg_goals (sy_engine s) \<and> sy_fs t = sy_fs s"

interpretation goals: step_relation goals_kept
  by unfold_locales (auto simp: goals_kept_def)

interpretation all: step_relation all_kept
  by unfold_locales (auto simp: all_kept_def)

lemma along_files_goals: "along files_kept m \<Longrightarrow> along goals_kept m"
  by (simp add: along_def files_kept_def goals_kept_def)

lemma all_append_run_event:
  "event_type \<noteq> ''goal.created'' \<Longrightarrow> along all_kept (append_run_event V workspace event_type now payload key)"
  unfolding append_run_event_def core_event_def
  by (intro all.along_then all.along_get)
    (simp_all add: along_def all_kept_def on_store_def on_engine_def apply_event_goals split: prod.splits sum.splits)

lemma on_files_goals: "along goals_kept (on_files f)"
  by (auto simp: along_def goals_kept_def on_files_def split: prod.splits sum.splits)

lemma check_each_kept:
  "along goals_kept (check_each V workspace run_id worktree now checks ev ok)"
  "(\<And>check. check \<in> set checks \<Longrightarrow> \<not> runs_command check) \<Longrightarrow> along all_kept (check_each V workspace run_id worktree now checks ev ok)"
proof -
  show "along goals_kept (check_each V workspace run_id worktree now checks ev ok)"
    by (intro goals.along_check_each along_files_goals files_append_run_event on_files_goals) simp
  assume quiet: "\<And>check. check \<in> set checks \<Longrightarrow> \<not> runs_command check"
  show "along all_kept (check_each V workspace run_id worktree now checks ev ok)"
  proof (rule all.along_check_each)
    show "along all_kept (on_files (\<lambda>fs. case verify_acceptance V worktree (or_else (get_str check ''kind'') []) check fs of
        (r, fs1) \<Rightarrow> (Ok r, fs1)))" if "check \<in> set checks" for check
      using quiet [OF that]
      by (auto simp: along_def all_kept_def on_files_def verify_acceptance_def runs_command_def split: prod.splits)
  qed (simp add: all_append_run_event)
qed

lemma files_check_each:
  "files_kept s (snd (check_each V workspace run_id worktree now (checks_of (or_else (eg_goals (sy_engine s) g) (JObj []))) ev ok s))"
proof (cases "quiet_goals (eg_goals (sy_engine s))")
  case True
  then have "\<not> runs_command check" if "check \<in> set (checks_of (or_else (eg_goals (sy_engine s) g) (JObj [])))" for check
    using that by (cases "eg_goals (sy_engine s) g") (auto simp: quiet_goals_def ran_def checks_of_def get_arr_def)
  from alongD [OF check_each_kept(2), OF this] show ?thesis by (simp add: all_kept_def files_kept_def)
next
  case False
  with alongD [OF check_each_kept(1), where s = s] show ?thesis by (simp add: goals_kept_def files_kept_def)
qed

lemma files_conclude_run: "along files_kept (conclude_run V workspace run_id now evidence all_passed)"
  unfolding conclude_run_def Let_def by (intro files.along_then files_steps) simp_all

lemma files_finish_run: "along files_kept (finish_run V workspace run_id now)"
  unfolding finish_run_def
proof (rule files.along_then [OF files.along_get_run], rule files.along_then_state [OF files.along_get], goal_cases)
  case (1 r s a s')
  then have s: "a = s'" by (auto simp: get_sys_def)
  show ?case
    using files_check_each [of s' V workspace run_id "rc_worktree r" now "rc_goal_id r" "[]" True]
    by (auto simp: then_do_def s split: prod.splits sum.splits intro: files.R_trans alongD [OF files_conclude_run] dest!: arg_cong [of _ _ snd])
qed

lemma files_execute_turns: "along files_kept (execute_turns V n workspace run_id now)"
proof (induction n)
  case (Suc n)
  show ?case
    by (auto simp: Let_def intro!: files.along_then files_steps files_finish_run Suc.IH split: list.splits effect_class.splits)
qed (simp add: along_def files.R_refl)

lemma files_execute_pending: "along files_kept (execute_pending V workspace run_id now)"
  by (rule alongI) (simp only: execute_pending_def alongD [OF files_execute_turns])

section \<open>Pre- and postconditions\<close>

definition after :: "(sys \<Rightarrow> bool) \<Rightarrow> 'a step \<Rightarrow> ('a \<Rightarrow> sys \<Rightarrow> bool) \<Rightarrow> (sys \<Rightarrow> bool) \<Rightarrow> bool" where
  "after P m Q E \<longleftrightarrow> (\<forall>s. P s \<longrightarrow> (case m s of (Ok a, s') \<Rightarrow> Q a s' | (Err _, s') \<Rightarrow> E s'))"

lemma after_then: "after P m Q E \<Longrightarrow> (\<And>a. after (Q a) (f a) R E) \<Longrightarrow> after P (then_do m f) R E"
  by (fastforce simp: after_def then_do_def split: prod.splits sum.splits)

lemma after_pre: "after P m Q E \<Longrightarrow> (\<And>s. P' s \<Longrightarrow> P s) \<Longrightarrow> after P' m Q E"
  by (simp add: after_def)

lemma after_post: "after P m Q E \<Longrightarrow> (\<And>a s. Q a s \<Longrightarrow> Q' a s) \<Longrightarrow> (\<And>s. E s \<Longrightarrow> E' s) \<Longrightarrow> after P m Q' E'"
  by (fastforce simp: after_def split: prod.splits sum.splits)

lemma after_ret: "(\<And>s. P s \<Longrightarrow> Q a s) \<Longrightarrow> after P (ret a) Q E"
  by (simp add: after_def ret_def)

lemma after_fail: "(\<And>s. P s \<Longrightarrow> E s) \<Longrightarrow> after P (fail message) Q E"
  by (simp add: after_def fail_def)

lemma after_then_get: "(\<And>s. after (\<lambda>t. P t \<and> t = s) (f s) R E) \<Longrightarrow> after P (then_do get_sys f) R E"
  by (simp add: after_def get_sys_def then_do_def)

lemma after_result: "(\<And>a s. r = Ok a \<Longrightarrow> P s \<Longrightarrow> Q a s) \<Longrightarrow> (\<And>s. P s \<Longrightarrow> E s) \<Longrightarrow> after P (of_result r) Q E"
  by (cases r) (simp_all add: of_result_def after_ret after_fail)

lemma after_option: "(\<And>a s. x = Some a \<Longrightarrow> P s \<Longrightarrow> Q a s) \<Longrightarrow> (\<And>s. P s \<Longrightarrow> E s) \<Longrightarrow> after P (of_option message x) Q E"
  by (cases x) (simp_all add: of_option_def after_ret after_fail)

lemma after_then_get_run:
  "(\<And>r. after (\<lambda>s. P s \<and> eg_runs (sy_engine s) run_id = Some r) (f r) R E) \<Longrightarrow> (\<And>s. P s \<Longrightarrow> E s)
    \<Longrightarrow> after P (then_do (get_run run_id) f) R E"
  by (simp add: after_def get_run_def then_do_def get_sys_def of_option_def ret_def fail_def split: option.splits)

lemma after_if: "(b \<Longrightarrow> after P m Q E) \<Longrightarrow> (\<not> b \<Longrightarrow> after P m' Q E) \<Longrightarrow> after P (if b then m else m') Q E"
  by simp

text \<open>Steps that leave the runs and the plans of the index alone.\<close>

definition index_of :: "sys \<Rightarrow> (string \<rightharpoonup> run_record) \<times> (string \<times> int, json) btree" where
  "index_of s = (eg_runs (sy_engine s), eg_plans (sy_engine s))"

definition index_kept :: "sys \<Rightarrow> sys \<Rightarrow> bool" where
  "index_kept s t \<longleftrightarrow> index_of t = index_of s"

interpretation index: step_relation index_kept
  by unfold_locales (auto simp: index_kept_def)

lemma index_on_store: "along index_kept (on_store show f)"
  by (auto simp: along_def on_store_def index_kept_def index_of_def split: prod.splits sum.splits)

lemma index_on_files: "along index_kept (on_files f)"
  by (auto simp: along_def on_files_def index_kept_def index_of_def split: prod.splits sum.splits)

lemma after_index:
  assumes "along index_kept m" "\<And>s t. index_of t = index_of s \<Longrightarrow> P s \<Longrightarrow> P t"
  shows "after P m (\<lambda>_. P) P"
  using assms by (fastforce simp: after_def along_def index_kept_def split: prod.splits sum.splits)

text \<open>Appending an event applies its payload, when the store took it.\<close>

definition codec :: "run_env \<Rightarrow> bool" where
  "codec V \<longleftrightarrow> json_codec (env_print (re_store V)) (env_parse (re_store V))"

lemma apply_event_codec: "codec V \<Longrightarrow> json_canonical p \<Longrightarrow> apply_event V t (env_print (re_store V) p) eng = apply_payload t p eng"
  by (simp add: apply_event_def codec_def json_codecD)

lemma update_run_index:
  "eg_runs (update_run i f eng) = (case eg_runs eng i of None \<Rightarrow> eg_runs eng | Some r \<Rightarrow> (eg_runs eng)(i \<mapsto> f r))"
  "eg_plans (update_run i f eng) = eg_plans eng"
  by (simp_all add: update_run_def split: option.splits)

lemma after_append_event:
  assumes "\<And>s t. index_of t = index_of s \<Longrightarrow> P s \<Longrightarrow> P t"
    and "\<And>s. P s \<Longrightarrow> Q (s\<lparr>sy_engine := apply_event V event_type (env_print (re_store V) payload) (sy_engine s)\<rparr>)"
    and "\<And>s. P s \<Longrightarrow> E s"
  shows "after P (append_run_event V workspace event_type now payload key) (\<lambda>_. Q) E"
proof -
  have count: "after P (on_engine (\<lambda>eng. eng\<lparr>eg_event_counter := eg_event_counter eng + 1\<rparr>)) (\<lambda>_. P) E"
    by (auto simp: after_def on_engine_def index_of_def intro: assms(1))
  have event: "after P (core_event V event_id workspace event_type now payload key) (\<lambda>_. P) E" for event_id
    unfolding core_event_def by (rule after_post [OF after_index [OF index_on_store]]) (auto intro: assms(1,3))
  have apply_it: "after P (on_engine (apply_event V event_type (env_print (re_store V) payload))) (\<lambda>_. Q) E"
    by (auto simp: after_def on_engine_def intro!: assms(2))
  show ?thesis
    unfolding append_run_event_def
    by (rule after_then [OF count after_then_get [OF after_pre [OF after_then [OF event apply_it]]]]) simp
qed

lemma after_append:
  assumes "codec V" "json_canonical payload"
    and "\<And>s t. index_of t = index_of s \<Longrightarrow> P s \<Longrightarrow> P t"
    and "\<And>s. P s \<Longrightarrow> Q (s\<lparr>sy_engine := apply_payload event_type payload (sy_engine s)\<rparr>)"
    and "\<And>s. P s \<Longrightarrow> E s"
  shows "after P (append_run_event V workspace event_type now payload key) (\<lambda>_. Q) E"
  by (rule after_append_event) (auto simp: apply_event_codec [OF assms(1,2)] intro: assms(3,5) assms(4))

lemma after_transition:
  assumes "\<And>s t. index_of t = index_of s \<Longrightarrow> P s \<Longrightarrow> P t"
    and "\<And>s. P s \<Longrightarrow> Q (s\<lparr>sy_engine := update_run run_id (set_state (state_name target)) (sy_engine s)\<rparr>)"
    and "\<And>s. P s \<Longrightarrow> E s"
  shows "after P (transition V run_id target evidence now key) (\<lambda>_. Q) E"
proof -
  have store: "after P (on_store store_error_str f) (\<lambda>_. P) E" for f :: "event_store \<Rightarrow> (store_error + commit_outcome) \<times> event_store"
    by (rule after_post [OF after_index [OF index_on_store]]) (auto intro: assms(1,3))
  have set: "after P (on_engine (update_run run_id (set_state (state_name target)))) (\<lambda>_. Q) E"
    by (auto simp: after_def on_engine_def intro!: assms(2))
  show ?thesis
    unfolding transition_def Let_def by (rule after_then_get [OF after_pre [OF after_then [OF store set]]]) simp
qed

section \<open>The invariant of the index\<close>

definition effect_of :: "json \<Rightarrow> json" where
  "effect_of step = or_else (json_get step ''effect'') (JObj [])"

definition kind_of :: "json \<Rightarrow> string" where
  "kind_of step = or_else (get_str (effect_of step) ''kind'') []"

definition steps_named :: "json list \<Rightarrow> bool" where
  "steps_named steps \<longleftrightarrow> (\<forall>step \<in> set steps. get_str step ''step_id'' \<noteq> None)"

text \<open>A pending card shows the first remaining step, which needs an approval; its run is blocked or was cancelled since.\<close>

definition card_ok :: "run_env \<Rightarrow> string \<Rightarrow> run_record \<Rightarrow> bool" where
  "card_ok V i r \<longleftrightarrow> (\<forall>crd. rc_pending_approval r = Some crd \<longrightarrow> rc_state r \<in> {''blocked'', ''cancelled''}
     \<and> (\<exists>step rest now. rc_remaining_steps r = step # rest \<and> classify_effect (kind_of step) = EffectNeedsApproval
          \<and> crd = build_card V i r (step_id_of step) (kind_of step) (effect_of step) now))"

definition index_ok :: "run_env \<Rightarrow> sys \<Rightarrow> bool" where
  "index_ok V s \<longleftrightarrow>
     (\<forall>i r. eg_runs (sy_engine s) i = Some r \<longrightarrow> card_ok V i r \<and> steps_named (rc_remaining_steps r))
     \<and> (\<forall>k plan. bt_get (eg_plans (sy_engine s)) k = Some plan \<longrightarrow> steps_named (or_else (get_arr plan ''steps'') []))"

definition idle :: "string \<Rightarrow> sys \<Rightarrow> bool" where
  "idle i s \<longleftrightarrow> (\<forall>r. eg_runs (sy_engine s) i = Some r \<longrightarrow> rc_pending_approval r = None)"

lemma index_ok_index: "index_of t = index_of s \<Longrightarrow> index_ok V s \<Longrightarrow> index_ok V t"
  by (simp add: index_of_def index_ok_def)

lemma idle_index: "index_of t = index_of s \<Longrightarrow> idle i s \<Longrightarrow> idle i t"
  by (simp add: index_of_def idle_def)

lemma index_ok_update:
  assumes "index_ok V s"
    and "\<And>r. eg_runs (sy_engine s) i = Some r \<Longrightarrow> card_ok V i r \<Longrightarrow> steps_named (rc_remaining_steps r) \<Longrightarrow> card_ok V i (f r) \<and> steps_named (rc_remaining_steps (f r))"
  shows "index_ok V (s\<lparr>sy_engine := update_run i f (sy_engine s)\<rparr>)"
  using assms by (auto simp: index_ok_def update_run_index split: option.splits)

lemma idle_update:
  assumes "idle i s" "\<And>r. rc_pending_approval r = None \<Longrightarrow> rc_pending_approval (f r) = None"
  shows "idle i (s\<lparr>sy_engine := update_run i f (sy_engine s)\<rparr>)"
  using assms by (auto simp: idle_def update_run_index split: option.splits)

lemma steps_named_drop: "steps_named steps \<Longrightarrow> steps_named (drop_step i steps)"
  by (simp add: steps_named_def drop_step_def)

text \<open>The operations on a run without a pending card keep the invariant.\<close>

abbreviation "settled_run V i \<equiv> \<lambda>s. index_ok V s \<and> idle i s"

lemma settled_index: "index_of t = index_of s \<Longrightarrow> settled_run V i s \<Longrightarrow> settled_run V i t"
  using index_ok_index idle_index by blast

lemma settled_update:
  assumes "settled_run V i s" "\<And>r. rc_pending_approval r = None \<Longrightarrow> rc_pending_approval (f r) = None"
    and "\<And>r. steps_named (rc_remaining_steps r) \<Longrightarrow> steps_named (rc_remaining_steps (f r))"
  shows "settled_run V i (s\<lparr>sy_engine := update_run i f (sy_engine s)\<rparr>)"
  using assms(1)
proof (intro conjI)
  show "index_ok V (s\<lparr>sy_engine := update_run i f (sy_engine s)\<rparr>)"
  proof (rule index_ok_update)
    fix r
    assume r: "eg_runs (sy_engine s) i = Some r" "steps_named (rc_remaining_steps r)"
    with assms(1) have "rc_pending_approval r = None" by (simp add: idle_def)
    then have "rc_pending_approval (f r) = None" by (rule assms(2))
    then show "card_ok V i (f r) \<and> steps_named (rc_remaining_steps (f r))" using assms(3) r(2) by (simp add: card_ok_def)
  qed (use assms(1) in simp)
  show "idle i (s\<lparr>sy_engine := update_run i f (sy_engine s)\<rparr>)"
    using assms(1,2) by (intro idle_update) auto
qed

lemma after_settled_transition: "after (settled_run V i) (transition V i target evidence now key) (\<lambda>_. settled_run V i) (index_ok V)"
proof (rule after_transition)
  show "settled_run V i (s\<lparr>sy_engine := update_run i (set_state (state_name target)) (sy_engine s)\<rparr>)"
    if "settled_run V i s" for s
    by (rule settled_update [OF that]) (simp_all add: set_state_def)
qed (use settled_index in blast)+

lemma after_settled_remove: "after (settled_run V i) (remove_step i step_id) (\<lambda>_. settled_run V i) (index_ok V)"
proof -
  have "settled_run V i (s\<lparr>sy_engine := update_run i (\<lambda>r. r\<lparr>rc_remaining_steps := drop_step step_id (rc_remaining_steps r)\<rparr>) (sy_engine s)\<rparr>)"
    if "settled_run V i s" for s
    by (rule settled_update [OF that]) (simp_all add: steps_named_drop)
  then show ?thesis by (simp add: after_def remove_step_def on_engine_def)
qed

text \<open>Events that only speak of a run, and events that end a step.\<close>

definition report_event :: "string \<Rightarrow> bool" where
  "report_event t \<longleftrightarrow> t \<in> {''run.acceptance_checked'', ''run.verdict'', ''run.paused'', ''run.resume_revalidated'', ''run.cancel_propagated'', ''run.steered''}"

definition step_event :: "string \<Rightarrow> bool" where
  "step_event t \<longleftrightarrow> t \<in> {''run.effect_completed'', ''run.effect_denied'', ''run.effect_denied_by_policy''}"

lemma apply_report_event: "report_event t \<Longrightarrow> apply_payload t payload eng = eng"
  by (auto simp: report_event_def apply_payload_def)

lemma apply_step_event:
  "step_event t \<Longrightarrow> get_str payload ''run_id'' = Some i \<Longrightarrow> apply_payload t payload eng
     = update_run i (\<lambda>r. r\<lparr>rc_remaining_steps := drop_step (or_else (get_str payload ''step_id'') []) (rc_remaining_steps r)\<rparr>) eng"
  by (auto simp: step_event_def apply_payload_def)

lemma after_report:
  assumes "report_event t" "\<And>s t. index_of t = index_of s \<Longrightarrow> P s \<Longrightarrow> P t"
  shows "after P (append_run_event V workspace t now payload key) (\<lambda>_. P) P"
proof -
  have same: "apply_event V t p eng = eng" for p eng
    using apply_report_event [OF assms(1)] by (simp add: apply_event_def split: option.splits)
  show ?thesis
  proof (rule after_append_event)
    show "P t" if "index_of t = index_of s" "P s" for s t by (rule assms(2) [OF that])
  qed (simp_all add: same)
qed

lemma after_settled_step_event:
  assumes "codec V" "json_canonical payload" "step_event t" "get_str payload ''run_id'' = Some i"
  shows "after (settled_run V i) (append_run_event V workspace t now payload key) (\<lambda>_. settled_run V i) (index_ok V)"
proof (rule after_append [OF assms(1,2)])
  show "settled_run V i (s\<lparr>sy_engine := apply_payload t payload (sy_engine s)\<rparr>)" if "settled_run V i s" for s
    unfolding apply_step_event [OF assms(3,4)] by (rule settled_update [OF that]) (simp_all add: steps_named_drop)
qed (use settled_index in blast)+

lemma get_str_simp: "get_str (JObj fs) k = Option.bind (map_of fs k) json_str"
  by (simp add: get_str_def)

lemma json_canonical_or_else: "json_canonical (or_else (json_get v k) d)" if "json_canonical v" "json_canonical d"
  using that by (cases v) (force simp: or_else_def split: option.splits dest!: map_of_SomeD)+

lemma string_less_simps: "(a # s :: string) < b # t \<longleftrightarrow> a < b \<or> a = b \<and> s < t" "([] :: string) < b # t" "\<not> (s :: string) < []"
  by auto

section \<open>Every operation keeps the invariant\<close>

lemma effect_outcome_canonical:
  "execute_allowed_effect V worktree effect fs = Ok outcome \<Longrightarrow> json_canonical outcome"
  "execute_command_effect V worktree effect fs = (Ok outcome, fs') \<Longrightarrow> json_canonical outcome"
  by (auto simp: execute_allowed_effect_def execute_command_effect_def edit_file_def run_command_def Let_def
      split: if_splits option.splits sum.splits prod.splits bool.splits)

lemma after_store: "(\<And>s t. index_of t = index_of s \<Longrightarrow> P s \<Longrightarrow> P t) \<Longrightarrow> (\<And>s. P s \<Longrightarrow> E s) \<Longrightarrow> after P (on_store show f) (\<lambda>_. P) E"
  by (rule after_post [OF after_index [OF index_on_store]]) auto

lemma after_core_event: "(\<And>s t. index_of t = index_of s \<Longrightarrow> P s \<Longrightarrow> P t) \<Longrightarrow> (\<And>s. P s \<Longrightarrow> E s) \<Longrightarrow> after P (core_event V i w t now p k) (\<lambda>_. P) E"
  unfolding core_event_def by (rule after_store)

lemma settled_index_ok: "settled_run V i s \<Longrightarrow> index_ok V s"
  by simp

lemma after_settled_store: "after (settled_run V i) (on_store show f) (\<lambda>_. settled_run V i) (index_ok V)"
  by (rule after_store [OF settled_index settled_index_ok])

lemma after_settled_record:
  assumes "codec V" "json_canonical outcome"
  shows "after (settled_run V i) (record_effect V workspace i step outcome now) (\<lambda>_. settled_run V i) (index_ok V)"
  unfolding record_effect_def Let_def
proof (rule after_then [OF after_settled_store after_then [OF after_settled_store after_settled_step_event [OF assms(1)]]])
qed (simp_all add: assms step_event_def get_str_simp json_canonical_or_else)

lemma after_settled_checks:
  assumes "codec V"
  shows "after (settled_run V i) (check_each V workspace i worktree now checks ev ok) (\<lambda>_. settled_run V i) (index_ok V)"
proof (induction checks arbitrary: ev ok)
  case (Cons check checks)
  have report: "after (settled_run V i) (append_run_event V workspace ''run.acceptance_checked'' now
      (JObj [(''check_id'', JStr a), (''detail'', JStr d), (''passed'', JBool b), (''run_id'', JStr i)]) key)
      (\<lambda>_. settled_run V i) (index_ok V)" for a d b key
    by (rule after_post [OF after_report [OF _ settled_index]]) (simp_all add: report_event_def)
  have files: "after (settled_run V i) (on_files f) (\<lambda>_. settled_run V i) (index_ok V)" for f :: "fs \<Rightarrow> (string + 'z) \<times> fs"
    by (rule after_post [OF after_index [OF index_on_files settled_index]]) simp_all
  show ?case
    by (auto simp: Let_def intro!: after_then [OF files] after_then [OF report] Cons.IH split: prod.splits)
qed (simp add: after_ret)

lemma after_settled_finish:
  assumes "codec V"
  shows "after (settled_run V i) (finish_run V workspace i now) (\<lambda>_. index_ok V) (index_ok V)"
proof -
  have report: "after (settled_run V i) (append_run_event V workspace ''run.verdict'' now
      (JObj [(''evaluator'', JStr a), (''run_id'', JStr i), (''verdict'', JStr d)]) key)
      (\<lambda>_. settled_run V i) (index_ok V)" for a d key
    by (rule after_post [OF after_report [OF _ settled_index]]) (simp_all add: report_event_def)
  have "after (settled_run V i) (conclude_run V workspace i now ev ok) (\<lambda>_. index_ok V) (index_ok V)" for ev ok
    unfolding conclude_run_def Let_def
    by (rule after_then [OF report]) (rule after_then [OF after_settled_transition after_ret], simp)
  then have rest: "after (settled_run V i) (then_do (check_each V workspace i w now cs [] True)
      (\<lambda>(ev, ok). conclude_run V workspace i now ev ok)) (\<lambda>_. index_ok V) (index_ok V)" for w cs
    by (intro after_then [OF after_settled_checks [OF assms]]) auto
  show ?thesis
    unfolding finish_run_def
    by (rule after_then_get_run) (rule after_then_get, rule after_pre [OF rest], simp_all)
qed

text \<open>Asking for an approval: the run is blocked, then its card is set.\<close>

definition at_step :: "run_env \<Rightarrow> string \<Rightarrow> json \<Rightarrow> json list \<Rightarrow> run_record \<Rightarrow> sys \<Rightarrow> bool" where
  "at_step V i step rest r s \<longleftrightarrow> settled_run V i s \<and> eg_runs (sy_engine s) i = Some r \<and> rc_remaining_steps r = step # rest"

lemma at_step_index: "index_of t = index_of s \<Longrightarrow> at_step V i step rest r s \<Longrightarrow> at_step V i step rest r t"
  unfolding at_step_def using settled_index [of t s V i] by (auto simp: index_of_def)

lemma build_card_run [simp]:
  "build_card V i (set_state state r) a k e t = build_card V i r a k e t"
  "build_card V i (r\<lparr>rc_pending_approval := p\<rparr>) a k e t = build_card V i r a k e t"
  "build_card V i (r\<lparr>rc_state := state\<rparr>) a k e t = build_card V i r a k e t"
  by (simp_all add: build_card_def set_state_def)

lemma build_card_canonical: "json_canonical (build_card V i r a k e t)"
  by (simp add: build_card_def Let_def)

lemma at_step_blocked:
  "at_step V i step rest r s \<Longrightarrow> at_step V i step rest (set_state ''blocked'' r) (s\<lparr>sy_engine := update_run i (set_state ''blocked'') (sy_engine s)\<rparr>)"
  using settled_update [where V = V and i = i and s = s and f = "set_state ''blocked''"]
  by (simp add: at_step_def update_run_index) (simp add: set_state_def)

lemma index_ok_waiting:
  assumes "at_step V i step rest r s" "rc_state r = ''blocked''" "classify_effect (kind_of step) = EffectNeedsApproval"
    and "crd = build_card V i r (step_id_of step) (kind_of step) (effect_of step) now"
  shows "index_ok V (s\<lparr>sy_engine := update_run i (\<lambda>run. run\<lparr>rc_pending_approval := Some crd\<rparr>) (sy_engine s)\<rparr>)"
proof (rule index_ok_update)
  fix r1
  assume "eg_runs (sy_engine s) i = Some r1" "steps_named (rc_remaining_steps r1)"
  then show "card_ok V i (r1\<lparr>rc_pending_approval := Some crd\<rparr>) \<and> steps_named (rc_remaining_steps (r1\<lparr>rc_pending_approval := Some crd\<rparr>))"
    using assms by (auto simp: at_step_def card_ok_def)
qed (use assms(1) in \<open>simp add: at_step_def\<close>)

lemma apply_waiting:
  "get_str payload ''run_id'' = Some i \<Longrightarrow> apply_payload ''run.waiting_approval'' payload eng
     = update_run i (\<lambda>run. run\<lparr>rc_pending_approval := json_get payload ''card''\<rparr>) eng"
  by (simp add: apply_payload_def Let_def)

lemma after_wait:
  assumes "codec V" "classify_effect (kind_of step) = EffectNeedsApproval"
    and crd: "crd = build_card V i r (step_id_of step) (kind_of step) (effect_of step) now"
  shows "after (at_step V i step rest r)
     (then_do (transition V i Blocked [] now k1) (\<lambda>_.
      then_do (append_run_event V workspace ''run.waiting_approval'' now (JObj [(''card'', crd), (''run_id'', JStr i)]) k2) (\<lambda>_. ret v)))
     (\<lambda>_. index_ok V) (index_ok V)"
proof (rule after_then)
  show "after (at_step V i step rest r) (transition V i Blocked [] now k1) (\<lambda>_. at_step V i step rest (set_state ''blocked'' r)) (index_ok V)"
    by (rule after_transition [OF at_step_index]) (simp_all add: at_step_blocked, simp add: at_step_def)
  fix u
  have waiting: "index_ok V (s\<lparr>sy_engine := apply_payload ''run.waiting_approval'' (JObj [(''card'', crd), (''run_id'', JStr i)]) (sy_engine s)\<rparr>)"
    if "at_step V i step rest (set_state ''blocked'' r) s" for s
  proof -
    have "index_ok V (s\<lparr>sy_engine := update_run i (\<lambda>run. run\<lparr>rc_pending_approval := Some crd\<rparr>) (sy_engine s)\<rparr>)"
      by (rule index_ok_waiting [OF that _ assms(2)]) (simp_all add: crd, simp add: set_state_def)
    then show ?thesis by (simp add: apply_waiting get_str_simp)
  qed
  show "after (at_step V i step rest (set_state ''blocked'' r))
      (then_do (append_run_event V workspace ''run.waiting_approval'' now (JObj [(''card'', crd), (''run_id'', JStr i)]) k2) (\<lambda>_. ret v))
      (\<lambda>_. index_ok V) (index_ok V)"
  proof (rule after_then)
    show "after (at_step V i step rest (set_state ''blocked'' r)) (append_run_event V workspace ''run.waiting_approval'' now
        (JObj [(''card'', crd), (''run_id'', JStr i)]) k2) (\<lambda>_. index_ok V) (index_ok V)"
    proof (rule after_append [OF assms(1)])
      show "json_canonical (JObj [(''card'', crd), (''run_id'', JStr i)])"
        unfolding crd using build_card_canonical by simp
      show "index_ok V s" if "at_step V i step rest (set_state ''blocked'' r) s" for s
        using that by (simp add: at_step_def)
    qed (use at_step_index waiting in blast)+
  qed (simp add: after_ret)
qed

text \<open>An effect that ran is recorded, then its step dropped.\<close>

lemma after_outcome:
  assumes "codec V" and outcome: "after (settled_run V i) m (\<lambda>v s. json_canonical v \<and> settled_run V i s) (index_ok V)"
    and rest: "after (settled_run V i) k (\<lambda>_. index_ok V) (index_ok V)"
  shows "after (settled_run V i) (then_do m (\<lambda>v. then_do (record_effect V workspace i step v now) (\<lambda>_.
    then_do (remove_step i (step_id_of step)) (\<lambda>_. k)))) (\<lambda>_. index_ok V) (index_ok V)"
proof (rule after_then [OF outcome])
  show "after (\<lambda>s. json_canonical v \<and> settled_run V i s) (then_do (record_effect V workspace i step v now) (\<lambda>_.
      then_do (remove_step i (step_id_of step)) (\<lambda>_. k))) (\<lambda>_. index_ok V) (index_ok V)" for v
  proof (cases "json_canonical v")
    case True
    show ?thesis
      by (rule after_pre [OF after_then [OF after_settled_record [OF assms(1) True] after_then [OF after_settled_remove rest]]]) simp
  qed (simp add: after_def)
qed

lemma after_turns:
  assumes "codec V"
  shows "after (settled_run V i) (execute_turns V n workspace i now) (\<lambda>_. index_ok V) (index_ok V)"
proof (induction n)
  case 0
  then show ?case by (simp add: after_def)
next
  case (Suc n)
  note go_on = after_then [OF after_settled_remove Suc.IH]
  show ?case
    unfolding execute_turns.simps
  proof (rule after_then_get_run, rule after_if, goal_cases)
    case (2 r)
    show ?case
    proof (cases "rc_remaining_steps r")
      case Nil
      then show ?thesis by simp (rule after_pre [OF after_settled_finish [OF assms]], simp)
    next
      case (Cons step rest)
      show ?thesis
      proof (cases "classify_effect (kind_of step)")
        case EffectAllowed
        have allowed: "after (settled_run V i) (then_do (of_result x) (\<lambda>outcome.
            then_do (record_effect V workspace i step outcome now) (\<lambda>_.
            then_do (remove_step i (step_id_of step)) (\<lambda>_. execute_turns V n workspace i now)))) (\<lambda>_. index_ok V) (index_ok V)"
          if "\<And>v. x = Ok v \<Longrightarrow> json_canonical v" for x
          by (rule after_outcome [OF assms after_result Suc.IH]) (simp_all add: that)
        show ?thesis
          using EffectAllowed
          by (simp add: Cons kind_of_def effect_of_def) (rule after_then_get, rule after_pre [OF allowed],
              auto dest: effect_outcome_canonical(1))
      next
        case EffectDenied
        then show ?thesis
          by (auto simp: Cons kind_of_def effect_of_def Let_def step_event_def get_str_simp
              intro!: after_pre [OF after_then [OF after_settled_step_event [OF assms] go_on]])
      next
        case EffectNeedsApproval
        show ?thesis
          using EffectNeedsApproval
          by (simp add: Cons kind_of_def effect_of_def Let_def)
            (rule after_pre [OF after_wait [OF assms EffectNeedsApproval refl, unfolded kind_of_def effect_of_def]],
              simp add: at_step_def Cons)
      qed
    qed
  qed (auto intro: after_ret)
qed


lemma after_fuel: "(\<And>n. after P (m n) Q E) \<Longrightarrow> after P (\<lambda>s. m (n s) s) Q E"
  by (simp add: after_def)

lemma after_pending:
  assumes "codec V"
  shows "after (settled_run V i) (execute_pending V workspace i now) (\<lambda>_. index_ok V) (index_ok V)"
  unfolding execute_pending_def [abs_def] by (rule after_fuel [OF after_turns [OF assms]])

lemma after_effect:
  "after (settled_run V i) (on_files (execute_command_effect V w e)) (\<lambda>v s. json_canonical v \<and> settled_run V i s) (index_ok V)"
  using settled_index [of "_\<lparr>sy_fs := _\<rparr>"] effect_outcome_canonical(2)
  by (fastforce simp: after_def on_files_def index_of_def index_ok_def idle_def split: prod.splits sum.splits)

lemma after_step:
  assumes "codec V"
  shows "after (settled_run V i) (execute_step V workspace i now) (\<lambda>_. index_ok V) (index_ok V)"
proof -
  show ?thesis
    unfolding execute_step_def
  proof (rule after_then_get_run)
    show "after (\<lambda>s. settled_run V i s \<and> eg_runs (sy_engine s) i = Some r)
      (case rc_remaining_steps r of [] \<Rightarrow> finish_run V workspace i now
       | step # _ \<Rightarrow> (let effect = or_else (json_get step ''effect'') (JObj []) in
           then_do (on_files (execute_command_effect V (rc_worktree r) effect)) (\<lambda>outcome.
           then_do (record_effect V workspace i step outcome now) (\<lambda>_.
           then_do (remove_step i (step_id_of step)) (\<lambda>_. execute_pending V workspace i now))))) (\<lambda>_. index_ok V) (index_ok V)" for r
    proof (cases "rc_remaining_steps r")
      case Nil
      then show ?thesis by simp (rule after_pre [OF after_settled_finish [OF assms]], simp)
    next
      case (Cons step rest)
      then show ?thesis by (simp add: Let_def) (rule after_pre [OF after_outcome [OF assms after_effect after_pending [OF assms]]], simp)
    qed
  qed simp
qed

text \<open>A card disappears when its run goes on.\<close>

lemma after_running:
  "after (index_ok V) (transition V i Running evidence now key) (\<lambda>_. settled_run V i) (index_ok V)"
proof (rule after_transition [OF index_ok_index])
  fix s
  assume s: "index_ok V s"
  then show "settled_run V i (s\<lparr>sy_engine := update_run i (set_state (state_name Running)) (sy_engine s)\<rparr>)"
    by (auto simp: index_ok_def idle_def card_ok_def update_run_index set_state_def split: option.splits)
qed simp_all

lemma after_cancelled:
  "after (index_ok V) (transition V i RunCancelled evidence now key) (\<lambda>_. index_ok V) (index_ok V)"
proof (rule after_transition [where P = "index_ok V"])
  show "index_ok V (s\<lparr>sy_engine := update_run i (set_state (state_name RunCancelled)) (sy_engine s)\<rparr>)" if s: "index_ok V s" for s
    by (rule index_ok_update [OF s]) (auto simp: card_ok_def set_state_def)
qed (use index_ok_index in blast)+

lemma apply_resolved:
  "get_str payload ''run_id'' = Some i \<Longrightarrow> apply_payload ''run.approval_resolved'' payload eng
     = update_run i (\<lambda>run. run\<lparr>rc_resolved_approvals := rc_resolved_approvals run @ [or_else (get_str payload ''approval_id'') []],
                               rc_pending_approval := None\<rparr>) eng"
  by (simp add: apply_payload_def Let_def)

lemma after_resolved:
  assumes "codec V"
  shows "after (index_ok V) (append_run_event V workspace ''run.approval_resolved'' now
      (JObj [(''approval_id'', JStr a), (''decision'', JStr d), (''digest'', JStr g), (''run_id'', JStr i)]) key)
    (\<lambda>_. settled_run V i) (index_ok V)"
  by (rule after_append [OF assms _ index_ok_index])
    (auto simp: apply_resolved get_str_simp index_ok_def idle_def card_ok_def update_run_index split: option.splits)

lemma keeps_report: "report_event t \<Longrightarrow> after (index_ok V) (append_run_event V' workspace t now payload key) (\<lambda>_. index_ok V) (index_ok V)"
  by (rule after_report [OF _ index_ok_index])

text \<open>The handlers.\<close>

abbreviation keeps :: "run_env \<Rightarrow> 'a step \<Rightarrow> bool" where
  "keeps V m \<equiv> after (index_ok V) m (\<lambda>_. index_ok V) (index_ok V)"

lemma keeps_then: "keeps V m \<Longrightarrow> (\<And>a. keeps V (f a)) \<Longrightarrow> keeps V (then_do m f)"
  by (rule after_then)

lemma keeps_core_event: "keeps V (core_event V' i w t now p k)"
  by (rule after_core_event [OF index_ok_index])

lemma keeps_result: "keeps V (of_result r)"
  by (rule after_result) simp_all

lemma keeps_option: "keeps V (of_option message x)"
  by (rule after_option) simp_all

lemma keeps_get_run: "keeps V (get_run i)"
  by (simp add: after_def get_run_def then_do_def get_sys_def of_option_def ret_def fail_def split: option.splits)

lemma keeps_get: "keeps V get_sys"
  by (simp add: after_def get_sys_def)

lemma keeps_fail: "keeps V (fail message)"
  by (simp add: after_fail)

lemma keeps_ret: "keeps V (ret v)"
  by (simp add: after_ret)

lemma keeps_index: "along index_kept m \<Longrightarrow> keeps V m"
  by (rule after_index [OF _ index_ok_index])

lemma keeps_note: "keeps V (on_engine (note_workspace workspace))"
  by (rule keeps_index) (simp add: along_def on_engine_def index_kept_def index_of_def note_workspace_def)

lemmas keeps_basic = keeps_result keeps_option keeps_get_run keeps_get keeps_fail keeps_ret keeps_note

lemma keeps_create_goal: "keeps V (create_goal V workspace params now)"
proof -
  have add: "keeps V (on_engine (\<lambda>eng. case outcome of Committed n \<Rightarrow> eng\<lparr>eg_goals := (eg_goals eng)(g \<mapsto> p)\<rparr> | Replayed m \<Rightarrow> eng))"
    for outcome :: commit_outcome and g p
    by (rule keeps_index) (simp add: along_def on_engine_def index_kept_def index_of_def split: commit_outcome.splits)
  show ?thesis
    unfolding create_goal_def Let_def
    by (intro keeps_then keeps_basic keeps_core_event add)
qed

lemma require_steps_named: "require_steps steps = Ok u \<Longrightarrow> steps_named steps"
  by (induction steps) (auto simp: steps_named_def require_def split: sum.splits option.splits if_splits)

lemma bt_get_insert_cases: "bt_get (bt_insert k v m) j = Some w \<Longrightarrow> j = k \<and> w = v \<or> bt_get m j = Some w"
  by (simp add: bt_get_insert split: if_splits)

lemma index_ok_plan:
  assumes "index_ok V s" "steps_named (or_else (get_arr plan ''steps'') [])"
  shows "index_ok V (s\<lparr>sy_engine := (sy_engine s)\<lparr>eg_plans := bt_insert k plan (eg_plans (sy_engine s))\<rparr>\<rparr>)"
  using assms by (auto simp: index_ok_def dest!: bt_get_insert_cases)

lemma keeps_freeze_plan: "keeps V (freeze_plan V workspace params now)"
proof -
  have insert: "keeps V (on_engine (\<lambda>eng. eng\<lparr>eg_plans := bt_insert k plan (eg_plans eng)\<rparr>))"
    if "steps_named (or_else (get_arr plan ''steps'') [])" for k plan
    using index_ok_plan [OF _ that] by (simp add: after_def on_engine_def)
  have frozen: "keeps V (then_do (of_result (require params ''idempotency_key'')) (\<lambda>key.
         then_do (core_event V e workspace ''plan.frozen'' now plan key) (\<lambda>_.
         then_do (on_engine (\<lambda>eng. eng\<lparr>eg_plans := bt_insert k plan (eg_plans eng)\<rparr>)) (\<lambda>_. ret v))))"
    if "steps_named (or_else (get_arr plan ''steps'') [])" for e k plan v
    by (intro keeps_then keeps_basic keeps_core_event insert that)
  have checked: "keeps V (then_do (of_result (require_steps steps)) f)" if "steps_named steps \<Longrightarrow> keeps V (f ())" for steps and f :: "unit \<Rightarrow> json step"
    using that require_steps_named [of steps] by (cases "require_steps steps") (auto simp: after_def then_do_def of_result_def ret_def fail_def)
  show ?thesis
    unfolding freeze_plan_def Let_def
    by (intro keeps_then [OF keeps_note] checked frozen keeps_then [OF keeps_get] after_if keeps_fail keeps_then [OF keeps_result])
      (simp add: get_arr_def)
qed

text \<open>A new run starts without a card.\<close>

lemma index_ok_binding:
  assumes "index_ok V s" "eg_runs (sy_engine s) i = None" "get_str binding ''run_id'' = Some i"
  shows "settled_run V i (s\<lparr>sy_engine := apply_payload ''run.binding_recorded'' binding (sy_engine s)\<rparr>)"
proof -
  have "steps_named []" by (simp add: steps_named_def)
  then show ?thesis
    using assms by (auto simp: index_ok_def idle_def apply_payload_def apply_binding_def Let_def default_run_def card_ok_def split: option.splits)
qed

abbreviation "unstarted V i \<equiv> \<lambda>s. index_ok V s \<and> eg_runs (sy_engine s) i = None"

lemma unstarted_index: "index_of t = index_of s \<Longrightarrow> unstarted V i s \<Longrightarrow> unstarted V i t"
  using index_ok_index by (auto simp: index_of_def)

lemma after_bind:
  assumes "codec V" "i = run_id_for V goal_id now"
  shows "after (unstarted V i) (bind_run V workspace params now goal_id version plan key)
    (\<lambda>j s. j = i \<and> settled_run V i s) (index_ok V)"
proof -
  have binding: "after (unstarted V i) (on_engine (apply_event V ''run.binding_recorded'' (env_print (re_store V) binding)))
      (\<lambda>_. settled_run V i) (index_ok V)"
    if "json_canonical binding" "get_str binding ''run_id'' = Some i" for binding
    using index_ok_binding [OF _ _ that(2)] by (auto simp: after_def on_engine_def apply_event_codec [OF assms(1) that(1)])
  have files: "after (settled_run V i) (on_files f) (\<lambda>_. settled_run V i) (index_ok V)" for f :: "fs \<Rightarrow> (string + json) \<times> fs"
    by (rule after_post [OF after_index [OF index_on_files settled_index]]) simp_all
  have fork: "after (settled_run V i) (core_event V e w t now p k) (\<lambda>_. settled_run V i) (index_ok V)" for e w t p k
    by (rule after_core_event [OF settled_index]) simp_all
  have last: "after (settled_run V i) (case parent of None \<Rightarrow> ret i
      | Some p \<Rightarrow> then_do (core_event V (e i) workspace ''run.forked'' now (q p) k) (\<lambda>_. ret i))
      (\<lambda>j s. j = i \<and> settled_run V i s) (index_ok V)" for parent :: "string option" and e q k
    by (cases parent) (auto intro!: after_ret after_then [OF fork])
  show ?thesis
    unfolding bind_run_def Let_def assms(2) [symmetric]
    by (intro after_then [OF after_store [OF unstarted_index]] after_then [OF after_core_event [OF unstarted_index]]
        after_then [OF binding] after_then [OF files] after_then [OF fork] last)
      (auto simp: get_str_simp split: option.splits)
qed

definition fresh_start :: "run_env \<Rightarrow> u64 \<Rightarrow> sys \<Rightarrow> bool" where
  "fresh_start V now s \<longleftrightarrow> (\<forall>goal_id. eg_runs (sy_engine s) (run_id_for V goal_id now) = None)"

abbreviation keeps_fresh :: "run_env \<Rightarrow> u64 \<Rightarrow> 'a step \<Rightarrow> bool" where
  "keeps_fresh V now m \<equiv> after (\<lambda>s. index_ok V s \<and> fresh_start V now s) m (\<lambda>_. index_ok V) (index_ok V)"

lemma fresh_index: "index_of t = index_of s \<Longrightarrow> index_ok V s \<and> fresh_start V now s \<Longrightarrow> index_ok V t \<and> fresh_start V now t"
  using index_ok_index by (auto simp: index_of_def fresh_start_def)

lemma fresh_result: "after (\<lambda>s. index_ok V s \<and> fresh_start V now s) (of_result r) (\<lambda>_ s. index_ok V s \<and> fresh_start V now s) (index_ok V)"
  by (rule after_result) simp_all

lemma fresh_option: "after (\<lambda>s. index_ok V s \<and> fresh_start V now s) (of_option m x) (\<lambda>_ s. index_ok V s \<and> fresh_start V now s) (index_ok V)"
  by (rule after_option) simp_all

lemma fresh_get: "after (\<lambda>s. index_ok V s \<and> fresh_start V now s) get_sys (\<lambda>_ s. index_ok V s \<and> fresh_start V now s) (index_ok V)"
  by (simp add: after_def get_sys_def)

lemmas fresh_basic = after_then [OF fresh_result] after_then [OF fresh_option] after_then [OF fresh_get]

lemma fresh_start_run:
  assumes "codec V"
  shows "keeps_fresh V now (start_run V workspace params now)"
proof -
  let ?P = "\<lambda>s. index_ok V s \<and> fresh_start V now s"
  have note': "after ?P (on_engine (note_workspace workspace)) (\<lambda>_. ?P) (index_ok V)"
    by (rule after_post [OF after_index [OF _ fresh_index]])
      (simp_all add: along_def on_engine_def index_kept_def index_of_def note_workspace_def)
  have run: "after ?P (then_do (bind_run V workspace params now g v plan key) (\<lambda>i.
      then_do (transition V i Running [] now k) (\<lambda>_. execute_pending V workspace i now))) (\<lambda>_. index_ok V) (index_ok V)" for g v plan key k
  proof (rule after_then [OF after_pre [OF after_bind [OF assms refl]]])
    show "after (\<lambda>s. j = run_id_for V g now \<and> settled_run V (run_id_for V g now) s)
      (then_do (transition V j Running [] now k) (\<lambda>_. execute_pending V workspace j now)) (\<lambda>_. index_ok V) (index_ok V)" for j
      by (cases "j = run_id_for V g now")
        (simp_all add: after_then [OF after_settled_transition after_pending [OF assms]], simp add: after_def)
  qed (simp add: fresh_start_def)
  show ?thesis
    unfolding start_run_def by (intro after_then [OF note'] fresh_basic run)
qed

lemma fresh_fork_run: "codec V \<Longrightarrow> keeps_fresh V now (fork_run V workspace params now)"
  unfolding fork_run_def by (intro fresh_basic fresh_start_run)

lemma keeps_pause_run: "keeps V (pause_run V workspace params now)"
  unfolding pause_run_def Let_def
  by (intro keeps_then after_if keeps_basic keeps_report) (simp_all add: report_event_def)

lemma keeps_steer_run: "keeps V (steer_run V workspace params now)"
  unfolding steer_run_def Let_def
  by (intro keeps_then after_if keeps_basic keeps_report) (simp_all add: report_event_def)

lemma keeps_cancel_run: "keeps V (cancel_run V workspace params now)"
  unfolding cancel_run_def Let_def
  by (intro keeps_then after_if keeps_basic after_cancelled keeps_report) (simp_all add: report_event_def)

lemma keeps_resume_run: "codec V \<Longrightarrow> keeps V (resume_run V workspace params now)"
  unfolding resume_run_def Let_def
  by (intro keeps_then after_then [OF after_running] after_pending after_if keeps_basic keeps_report) (simp_all add: report_event_def)

lemma keeps_deny:
  assumes "codec V"
  shows "after (settled_run V i) (deny_approval V workspace now i a r crd) (\<lambda>_. index_ok V) (index_ok V)"
proof -
  have event: "after (settled_run V i) (append_run_event V workspace ''run.effect_denied'' now
      (JObj [(''approval_id'', JStr a), (''run_id'', JStr i), (''step_id'', JStr b)]) key) (\<lambda>_. settled_run V i) (index_ok V)" for b key
    by (rule after_settled_step_event [OF assms]) (simp_all add: step_event_def get_str_simp)
  have go: "after (settled_run V i) (if c then transition V i Running [] now key else ret ()) (\<lambda>_. settled_run V i) (index_ok V)" for c key
    by (cases c) (simp_all add: after_settled_transition after_ret)
  show ?thesis
    unfolding deny_approval_def Let_def
    by (intro after_then [OF event] after_then [OF after_settled_remove] after_then [OF go] after_pending assms)
qed

lemma keeps_approve: "codec V \<Longrightarrow> after (settled_run V i) (approve_step V workspace now i a r crd) (\<lambda>_. index_ok V) (index_ok V)"
  unfolding approve_step_def Let_def
  by (intro after_if after_fail after_then [OF after_settled_transition] after_step) simp_all

lemma keeps_admit: "keeps V (admit_resolution V' params now i a)"
  unfolding admit_resolution_def
  by (intro keeps_then keeps_basic after_if) (simp_all add: keeps_basic split: option.splits)

lemma keeps_resolve_approval:
  assumes "codec V"
  shows "keeps V (resolve_approval V workspace params now)"
proof -
  have "keeps V (case x of (r, crd) \<Rightarrow> then_do (append_run_event V workspace ''run.approval_resolved'' now
       (JObj [(''approval_id'', JStr a), (''decision'', JStr d),
              (''digest'', JStr (or_else (get_str crd ''digest'') [])), (''run_id'', JStr i)]) key) (\<lambda>_.
     if d = ''deny'' then deny_approval V workspace now i a r crd
     else if d \<noteq> ''approve'' then fail ''invalid_decision''
     else approve_step V workspace now i a r crd))" for x a d i key
    by (cases x) (simp, intro conjI impI after_then [OF after_resolved [OF assms]] keeps_deny keeps_approve after_if after_fail assms, simp_all)
  then show ?thesis
    unfolding resolve_approval_def by (intro keeps_then [OF keeps_result] keeps_then [OF keeps_admit])
qed

section \<open>Governed systems\<close>

definition starts_run :: "run_method \<Rightarrow> bool" where
  "starts_run m \<longleftrightarrow> m \<in> {RunStart, RunFork, RunRetry}"

text \<open>
  A system whose runs only come from the dispatched methods. Runs are started at times that give
  them fresh identifiers (an identifier is the time in milliseconds and the goal); the files may be
  changed by others at any moment.
\<close>

inductive governed :: "run_env \<Rightarrow> sys \<Rightarrow> bool" for V where
  governed_init: "governed V \<lparr>sy_store = st, sy_engine = engine_default, sy_fs = fs\<rparr>"
| governed_call: "governed V s \<Longrightarrow> (starts_run m \<Longrightarrow> fresh_start V now s) \<Longrightarrow>
    governed V (snd (dispatch_run V workspace m params now s))"
| governed_files: "governed V s \<Longrightarrow> governed V (s\<lparr>sy_fs := fs\<rparr>)"

lemma after_snd: "after P m (\<lambda>_. Q) Q \<Longrightarrow> P s \<Longrightarrow> Q (snd (m s))"
  by (cases "m s"; cases "fst (m s)") (auto simp: after_def)

lemma dispatch_index_ok:
  assumes "codec V" "index_ok V s" "starts_run m \<Longrightarrow> fresh_start V now s"
  shows "index_ok V (snd (dispatch_run V workspace m params now s))"
proof (cases "starts_run m")
  case True
  then have "keeps_fresh V now (dispatch_run V workspace m params now)"
    using fresh_start_run [OF assms(1)] fresh_fork_run [OF assms(1)] by (auto simp: starts_run_def)
  from after_snd [OF this, of s] show ?thesis using assms True by simp
next
  case False
  then have "keeps V (dispatch_run V workspace m params now)"
    using assms(1)
    by (cases m) (simp_all add: starts_run_def keeps_create_goal keeps_freeze_plan keeps_pause_run keeps_steer_run
        keeps_cancel_run keeps_resume_run keeps_resolve_approval)
  from after_snd [OF this assms(2)] show ?thesis .
qed

lemma governed_index_ok:
  assumes "governed V s" "codec V"
  shows "index_ok V s"
  using assms
proof (induction rule: governed.induct)
  case governed_init
  then show ?case by (simp add: index_ok_def engine_default_def)
next
  case (governed_call s m now workspace params)
  then show ?case by (intro dispatch_index_ok)
next
  case (governed_files s fs)
  then show ?case by (simp add: index_ok_def)
qed

section \<open>A sample run\<close>

definition sample_sys :: sys where
  "sample_sys = \<lparr>sy_store = fresh_store ''ws'', sy_engine = engine_default, sy_fs = [([''w''], FsDir)]\<rparr>"

definition sample_call :: "run_method \<Rightarrow> (string \<times> json) list \<Rightarrow> u64 \<Rightarrow> sys \<Rightarrow> sys" where
  "sample_call m params now s = snd (dispatch_run sample_run_env ''ws'' m (JObj params) now s)"

text \<open>A goal with one check, a plan with one edit, and its run, which waits for the approval of the edit.\<close>

definition sample_goal :: "string \<Rightarrow> (string \<times> json) list" where
  "sample_goal check = [(''acceptance'', JArr [JObj [(''check_id'', JStr ''c''), (''kind'', JStr check), (''needle'', JStr ''hi''),
     (''path'', JStr ''a'')]]), (''idempotency_key'', JStr ''k1''), (''objective'', JStr ''o'')]"

definition sample_goal_id :: string where
  "sample_goal_id = ''goal-1-'' @ short_tag sample_run_hash ''o''"

definition sample_plan :: "(string \<times> json) list" where
  "sample_plan = [(''goal_id'', JStr sample_goal_id), (''idempotency_key'', JStr ''k2''),
     (''steps'', JArr [JObj [(''effect'', JObj [(''kind'', JStr ''file.edit''), (''path'', JStr ''a''), (''text'', JStr ''hi'')]),
                            (''step_id'', JStr ''s'')]]), (''worktree'', JStr ''/w'')]"

definition sample_start :: "(string \<times> json) list" where
  "sample_start = [(''goal_id'', JStr sample_goal_id), (''idempotency_key'', JStr ''k3''), (''plan_version'', JNum 1)]"

definition sample_waiting :: sys where
  "sample_waiting = sample_call RunStart sample_start 3 (sample_call PlanFreeze sample_plan 2 (sample_call GoalCreate (sample_goal ''file_contains'') 1 sample_sys))"

definition sample_approval :: "(string \<times> json) list" where
  "sample_approval = [(''approval_id'', JStr ''appr-s-3''), (''decision'', JStr ''approve''),
     (''run_id'', JStr (run_id_for sample_run_env sample_goal_id 3))]"

definition runs_kept :: "sys \<Rightarrow> sys \<Rightarrow> bool" where
  "runs_kept s t \<longleftrightarrow> eg_runs (sy_engine t) = eg_runs (sy_engine s)"

interpretation runs: step_relation runs_kept
  by unfold_locales (auto simp: runs_kept_def)

lemma runs_on_store: "along runs_kept (on_store show f)"
  by (auto simp: along_def on_store_def runs_kept_def split: prod.splits sum.splits)

lemma runs_on_engine: "(\<And>eng. eg_runs (f eng) = eg_runs eng) \<Longrightarrow> along runs_kept (on_engine f)"
  by (simp add: along_def on_engine_def runs_kept_def)

lemma runs_create_goal: "along runs_kept (create_goal V workspace params now)"
  unfolding create_goal_def Let_def core_event_def note_workspace_def
  by (intro runs.along_then runs.along_basic runs_on_store runs_on_engine) (simp_all split: commit_outcome.splits)

lemma runs_freeze_plan: "along runs_kept (freeze_plan V workspace params now)"
  unfolding freeze_plan_def Let_def core_event_def note_workspace_def
  by (intro runs.along_then runs.along_if runs.along_basic runs_on_store runs_on_engine) simp_all

lemma sample_run_codec: "codec sample_run_env"
  using sample_env_codec by (simp add: codec_def sample_run_env_def)

lemma sample_waiting_governed: "governed sample_run_env sample_waiting"
proof -
  let ?s1 = "sample_call GoalCreate (sample_goal ''file_contains'') 1 sample_sys"
  let ?s2 = "sample_call PlanFreeze sample_plan 2 ?s1"
  have start: "governed sample_run_env sample_sys"
    unfolding sample_sys_def by (rule governed_init)
  have s1: "governed sample_run_env ?s1"
    unfolding sample_call_def by (rule governed_call [OF start]) (simp add: starts_run_def)
  have s2: "governed sample_run_env ?s2"
    unfolding sample_call_def [of PlanFreeze] by (rule governed_call [OF s1]) (simp add: starts_run_def)
  have "eg_runs (sy_engine ?s2) = Map.empty"
    using alongD [OF runs_freeze_plan, where s = ?s1] alongD [OF runs_create_goal, where s = sample_sys]
    by (simp add: sample_call_def runs_kept_def) (simp add: sample_sys_def engine_default_def)
  then have "fresh_start sample_run_env 3 ?s2" by (simp add: fresh_start_def)
  then show ?thesis
    unfolding sample_waiting_def sample_call_def [of RunStart] by (intro governed_call [OF s2])
qed

end
