(* ===== verification/ApprovedEffects.thy ===== *)
theory ApprovedEffects
  imports GovernedRuns
begin

text \<open>
  Only an approved step changes the files of a governed system: the files of a run are touched by the
  baseline snapshot when it starts, and by the first remaining step when its pending card is approved.
\<close>

section \<open>Only an approved step acts on the files\<close>

text \<open>What a step leaves alone: the files and the plan of a run.\<close>

definition view_kept :: "string \<Rightarrow> sys \<Rightarrow> sys \<Rightarrow> bool" where
  "view_kept i s t \<longleftrightarrow> all_kept s t
     \<and> map_option (\<lambda>r. (rc_remaining_steps r, rc_worktree r)) (eg_runs (sy_engine t) i)
       = map_option (\<lambda>r. (rc_remaining_steps r, rc_worktree r)) (eg_runs (sy_engine s) i)"

interpretation view: step_relation "view_kept i" for i
  by unfold_locales (auto simp: view_kept_def all_kept_def)

lemma view_on_store: "along (view_kept i) (on_store show f)"
  by (auto simp: along_def on_store_def view_kept_def all_kept_def split: prod.splits sum.splits)

lemma view_transition: "along (view_kept i) (transition V i target evidence now key)"
proof -
  have "along (view_kept i) (on_engine (update_run i (set_state state)))" for state
    by (auto simp: along_def on_engine_def view_kept_def all_kept_def update_run_index set_state_def split: option.splits)
  then show ?thesis
    unfolding transition_def Let_def by (intro view.along_then view.along_get view_on_store)
qed

lemma view_resolved:
  assumes "codec V"
  shows "along (view_kept i) (append_run_event V workspace ''run.approval_resolved'' now
      (JObj [(''approval_id'', JStr a), (''decision'', JStr d), (''digest'', JStr g), (''run_id'', JStr i)]) key)"
proof -
  have "along (view_kept i) (on_engine (apply_event V ''run.approval_resolved'' (env_print (re_store V)
      (JObj [(''approval_id'', JStr a), (''decision'', JStr d), (''digest'', JStr g), (''run_id'', JStr i)]))))"
    by (auto simp: along_def on_engine_def view_kept_def all_kept_def apply_event_codec [OF assms] apply_resolved get_str_simp
        update_run_index split: option.splits)
  moreover have "along (view_kept i) (on_engine (\<lambda>eng. eng\<lparr>eg_event_counter := eg_event_counter eng + 1\<rparr>))"
    by (simp add: along_def on_engine_def view_kept_def all_kept_def)
  ultimately show ?thesis
    unfolding append_run_event_def core_event_def by (intro view.along_then view.along_get view_on_store)
qed

abbreviation quiet :: "sys \<Rightarrow> bool" where
  "quiet s \<equiv> quiet_goals (eg_goals (sy_engine s))"

text \<open>Steps that change the files only in one way, \<open>G\<close>.\<close>

definition acts :: "(fs \<Rightarrow> fs \<Rightarrow> bool) \<Rightarrow> 'a step \<Rightarrow> bool" where
  "acts G m \<longleftrightarrow> (\<forall>s. quiet s \<longrightarrow> quiet (snd (m s)) \<and> (sy_fs (snd (m s)) = sy_fs s \<or> G (sy_fs s) (sy_fs (snd (m s)))))"

lemma files_quiet: "along files_kept m \<Longrightarrow> m s = (r, t) \<Longrightarrow> quiet s \<Longrightarrow> quiet t \<and> sy_fs t = sy_fs s"
  by (drule alongD [where s = s]) (simp add: files_kept_def)

lemma acts_files: "along files_kept m \<Longrightarrow> acts G m"
  by (simp add: acts_def along_def files_kept_def)

lemma acts_before: "along files_kept m \<Longrightarrow> (\<And>a. acts G (f a)) \<Longrightarrow> acts G (then_do m f)"
  unfolding acts_def
proof (intro allI impI, goal_cases)
  case (1 s)
  obtain r t where m: "m s = (r, t)" by (cases "m s")
  with 1(3) files_quiet [OF 1(1) m] have t: "quiet t" "sy_fs t = sy_fs s" by auto
  show ?case
  proof (cases r)
    case (Inr a)
    with 1(2) [of a, THEN spec [where x = t], THEN mp, OF t(1)] t m show ?thesis by (simp add: then_do_def)
  qed (use t m in \<open>simp add: then_do_def\<close>)
qed

lemma acts_after: "acts G m \<Longrightarrow> (\<And>a. along files_kept (f a)) \<Longrightarrow> acts G (then_do m f)"
  unfolding acts_def
proof (intro allI impI, goal_cases)
  case (1 s)
  obtain r t where m: "m s = (r, t)" by (cases "m s")
  have t: "quiet t \<and> (sy_fs t = sy_fs s \<or> G (sy_fs s) (sy_fs t))" using 1(1,3) m by (metis snd_conv)
  show ?case
  proof (cases r)
    case (Inr a)
    obtain r' u where "f a t = (r', u)" by (cases "f a t")
    with files_quiet [OF 1(2) this] t m Inr show ?thesis by (simp add: then_do_def)
  qed (use t m in \<open>simp add: then_do_def\<close>)
qed

definition snapshot_change :: "run_env \<Rightarrow> fs \<Rightarrow> fs \<Rightarrow> bool" where
  "snapshot_change V fs fs' \<longleftrightarrow> (\<exists>run_id worktree. fs' = snd (re_snapshot V fs (re_store_dir V) run_id worktree))"

lemma files_core_event: "along files_kept (core_event V i w t now p k)"
  unfolding core_event_def by (rule files_on_store)

lemma files_note: "along files_kept (on_engine (note_workspace workspace))"
  by (rule files_on_engine) (simp add: note_workspace_def)

lemma acts_bind: "acts (snapshot_change V) (bind_run V workspace params now goal_id version plan key)"
proof -
  have snap: "acts (snapshot_change V) (on_files (\<lambda>fs. re_snapshot V fs (re_store_dir V) i w))" for i w
    by (auto simp: acts_def on_files_def snapshot_change_def split: prod.splits sum.splits) (metis snd_conv)+
  have last: "along files_kept (case parent of None \<Rightarrow> ret i
      | Some p \<Rightarrow> then_do (core_event V e workspace ''run.forked'' now (q p) k) (\<lambda>_. ret i))" for parent :: "string option" and e q k i
    by (cases parent) (auto intro!: files.along_then files_core_event files.along_ret)
  show ?thesis
    unfolding bind_run_def Let_def
    by (intro acts_before [OF files_on_store] acts_before [OF files_core_event] acts_before [OF files_on_engine] acts_after [OF snap]
        files.along_then [OF files_core_event] last) (simp add: apply_event_goals)
qed

lemmas acts_reads = acts_before [OF files.along_result] acts_before [OF files.along_option] acts_before [OF files.along_get]

lemma acts_start_run: "acts (snapshot_change V) (start_run V workspace params now)"
  unfolding start_run_def
  by (intro acts_before [OF files_note] acts_reads acts_after [OF acts_bind] files.along_then files_transition files_execute_pending)

lemma acts_fork_run: "acts (snapshot_change V) (fork_run V workspace params now)"
  unfolding fork_run_def by (intro acts_reads acts_start_run)

text \<open>The approved step, and only it, runs.\<close>

lemma step_files:
  assumes "quiet s" "eg_runs (sy_engine s) i = Some r" "rc_remaining_steps r = step # rest"
  shows "sy_fs (snd (execute_step V workspace i now s)) = snd (execute_command_effect V (rc_worktree r) (effect_of step) (sy_fs s))"
proof -
  have run: "execute_step V workspace i now s = then_do (on_files (execute_command_effect V (rc_worktree r) (effect_of step))) (\<lambda>outcome.
      then_do (record_effect V workspace i step outcome now) (\<lambda>_.
      then_do (remove_step i (step_id_of step)) (\<lambda>_. execute_pending V workspace i now))) s"
    using assms(2,3) by (simp add: execute_step_def get_run_def then_do_def get_sys_def of_option_def ret_def effect_of_def)
  have rest: "along files_kept (then_do (record_effect V workspace i step v now) (\<lambda>_.
      then_do (remove_step i (step_id_of step)) (\<lambda>_. execute_pending V workspace i now)))" for v
    by (intro files.along_then files_record_effect files_remove_step files_execute_pending)
  obtain x fs where x: "execute_command_effect V (rc_worktree r) (effect_of step) (sy_fs s) = (x, fs)" by force
  show ?thesis
  proof (cases x)
    case (Inr v)
    with x alongD [OF rest, of "s\<lparr>sy_fs := fs\<rparr>" v] assms(1) show ?thesis
      by (simp add: run then_do_def on_files_def files_kept_def)
  qed (simp add: run then_do_def on_files_def x)
qed

lemma admit_resolution_state: "snd (admit_resolution V params now i a s) = s"
  by (auto simp: admit_resolution_def then_do_def get_run_def get_sys_def of_option_def of_result_def ret_def fail_def
      split: option.splits sum.splits)

lemma admit_resolution_Ok:
  "admit_resolution V params now i a s = (Ok (r, crd), t) \<Longrightarrow> eg_runs (sy_engine s) i = Some r \<and> validate_approval r a now = Ok crd"
  by (auto simp: admit_resolution_def then_do_def get_run_def get_sys_def of_option_def of_result_def ret_def fail_def
      split: option.splits sum.splits if_splits)

lemma validate_approval_Ok:
  "validate_approval r a now = Ok crd \<longleftrightarrow> rc_pending_approval r = Some crd \<and> get_str crd ''approval_id'' = Some a
     \<and> a \<notin> set (rc_resolved_approvals r) \<and> sint now < or_else (get_i64 crd ''expires_at_ms'') 0
     \<and> rc_plan_version r = or_else (get_i64 crd ''plan_version'') (- 1)"
  by (auto simp: validate_approval_def split: option.splits if_splits)

lemma require_Ok: "require params k = Ok v \<Longrightarrow> get_str params k = Some v"
  by (auto simp: require_def split: option.splits if_splits)

lemma view_files: "along (view_kept i) m \<Longrightarrow> m s = (x, t) \<Longrightarrow> quiet s \<Longrightarrow> quiet t \<and> sy_fs t = sy_fs s"
  by (drule alongD [where s = s]) (simp add: view_kept_def all_kept_def)

lemma view_run:
  assumes "along (view_kept i) m" "m s = (x, t)" "eg_runs (sy_engine s) i = Some r"
  shows "\<exists>r'. eg_runs (sy_engine t) i = Some r' \<and> rc_remaining_steps r' = rc_remaining_steps r \<and> rc_worktree r' = rc_worktree r"
  using alongD [OF assms(1), of s] assms(2,3) by (auto simp: view_kept_def)

lemma approve_files:
  assumes "quiet s" "eg_runs (sy_engine s) i = Some r" "rc_remaining_steps r = step # rest"
    and "sy_fs (snd (approve_step V workspace now i a r0 crd s)) \<noteq> sy_fs s"
  shows "sy_fs (snd (approve_step V workspace now i a r0 crd s)) = snd (execute_command_effect V (rc_worktree r) (effect_of step) (sy_fs s))"
proof -
  let ?m = "transition V i Running [] now (a @ ''-continue-'' @ show_ms now)"
  obtain x t where m: "?m s = (x, t)" by force
  from view_files [OF view_transition [of i] m assms(1)] have t: "quiet t" "sy_fs t = sy_fs s" by auto
  from view_run [OF view_transition m assms(2)] obtain r' where
    "eg_runs (sy_engine t) i = Some r'" "rc_remaining_steps r' = step # rest" "rc_worktree r' = rc_worktree r"
    using assms(3) by auto
  from step_files [OF t(1) this(1,2), of V workspace now] this(3) t(2) m assms(4) show ?thesis
    by (cases x) (auto simp: approve_step_def Let_def then_do_def fail_def split: if_splits)
qed

lemma files_deny: "along files_kept (deny_approval V workspace now i a r crd)"
  unfolding deny_approval_def Let_def
  by (intro files.along_then files_append_run_event files_remove_step files.along_if files_transition files.along_ret files_execute_pending) simp

lemma resolve_files:
  assumes "codec V" "quiet s" "sy_fs (snd (resolve_approval V workspace params now s)) \<noteq> sy_fs s"
  obtains i r crd a where "eg_runs (sy_engine s) i = Some r" "validate_approval r a now = Ok crd"
    "get_str params ''run_id'' = Some i" "get_str params ''approval_id'' = Some a" "get_str params ''decision'' = Some ''approve''"
    "\<And>step rest. rc_remaining_steps r = step # rest \<Longrightarrow> sy_fs (snd (resolve_approval V workspace params now s))
        = snd (execute_command_effect V (rc_worktree r) (effect_of step) (sy_fs s))"
proof -
  have then_result: "then_do (of_result x) f s = (case x of Err e \<Rightarrow> (Err (EngineError e), s) | Ok v \<Rightarrow> f v s)" for x and f :: "'x \<Rightarrow> json step"
    by (cases x) (simp_all add: then_do_def of_result_def ret_def fail_def)
  from assms(3) obtain i a d where params: "require params ''run_id'' = Ok i" "require params ''approval_id'' = Ok a"
      "require params ''decision'' = Ok d"
    by (cases "require params ''run_id''"; cases "require params ''approval_id''"; cases "require params ''decision''")
      (simp_all add: resolve_approval_def then_result)
  obtain x where admit: "admit_resolution V params now i a s = (x, s)"
    using admit_resolution_state [of V params now i a s] by (cases "admit_resolution V params now i a s") simp
  from assms(3) params admit obtain r crd where x: "x = Ok (r, crd)"
    by (cases x) (auto simp: resolve_approval_def then_result then_do_def [of "admit_resolution _ _ _ _ _"])
  let ?m = "append_run_event V workspace ''run.approval_resolved'' now
       (JObj [(''approval_id'', JStr a), (''decision'', JStr d),
              (''digest'', JStr (or_else (get_str crd ''digest'') [])), (''run_id'', JStr i)])
       (a @ ''-resolved-'' @ show_ms now)"
  let ?k = "if d = ''deny'' then deny_approval V workspace now i a r crd
     else if d \<noteq> ''approve'' then fail ''invalid_decision''
     else approve_step V workspace now i a r crd"
  have eq: "resolve_approval V workspace params now s = then_do ?m (\<lambda>_. ?k) s"
    by (simp add: resolve_approval_def then_result params then_do_def [of "admit_resolution _ _ _ _ _"] admit x)
  obtain y t where m: "?m s = (y, t)" by force
  from view_files [OF view_resolved [OF assms(1)] m assms(2)] have t: "quiet t" "sy_fs t = sy_fs s" by auto
  have r: "eg_runs (sy_engine s) i = Some r" "validate_approval r a now = Ok crd"
    using admit_resolution_Ok [of V params now i a s r crd s] admit x by auto
  have fin: "snd (resolve_approval V workspace params now s) = snd (?k t)" and d: "d = ''approve''"
    using assms(3) eq m t alongD [OF files_deny, of t V workspace now i a r crd]
    by (cases y; auto simp: then_do_def fail_def files_kept_def split: if_splits)+
  show thesis
  proof (rule that [OF r])
    fix step rest
    assume "rc_remaining_steps r = step # rest"
    moreover from view_run [OF view_resolved [OF assms(1)] m r(1)] obtain r' where "eg_runs (sy_engine t) i = Some r'"
      "rc_remaining_steps r' = rc_remaining_steps r" "rc_worktree r' = rc_worktree r" by auto
    ultimately show "sy_fs (snd (resolve_approval V workspace params now s))
        = snd (execute_command_effect V (rc_worktree r) (effect_of step) (sy_fs s))"
      using approve_files [OF t(1), of i r' step rest V workspace now a r crd] fin d t(2) assms(3) by simp
  qed (use params require_Ok d in auto)
qed

definition all_fs :: "sys \<Rightarrow> sys \<Rightarrow> bool" where
  "all_fs s t \<longleftrightarrow> sy_fs t = sy_fs s"

interpretation tree: step_relation all_fs
  by unfold_locales (auto simp: all_fs_def)

lemma files_create_goal: "sy_fs (snd (create_goal V workspace params now s)) = sy_fs s"
proof -
  have store: "along all_fs (on_store sh f)" for sh and f :: "event_store \<Rightarrow> (store_error + 'z) \<times> event_store"
    by (auto simp: along_def on_store_def all_fs_def split: prod.splits sum.splits)
  have engine: "along all_fs (on_engine f)" for f
    by (simp add: along_def on_engine_def all_fs_def)
  have "along all_fs (create_goal V workspace params now)"
    unfolding create_goal_def Let_def core_event_def by (intro tree.along_then tree.along_basic store engine)
  from alongD [OF this, of s] show ?thesis by (simp add: all_fs_def)
qed

lemma files_other:
  "along files_kept (freeze_plan V workspace params now)" "along files_kept (pause_run V workspace params now)"
  "along files_kept (resume_run V workspace params now)" "along files_kept (cancel_run V workspace params now)"
  "along files_kept (steer_run V workspace params now)"
  unfolding freeze_plan_def pause_run_def resume_run_def cancel_run_def steer_run_def Let_def
  by (intro files.along_then files.along_if files.along_basic files_core_event files_note files_on_engine files_append_run_event files_transition
      files_execute_pending; simp)+

section \<open>The property\<close>

text \<open>A goal whose checks only read leaves the goals quiet.\<close>

lemma create_goal_quiet:
  assumes "quiet s" "\<And>check. check \<in> set (or_else (get_arr params ''acceptance'') []) \<Longrightarrow> \<not> runs_command check"
  shows "quiet (snd (create_goal V workspace params now s))"
proof -
  let ?Q = "\<lambda>s. quiet s"
  have note': "after ?Q (on_engine (note_workspace workspace)) (\<lambda>_. ?Q) ?Q"
    by (simp add: after_def on_engine_def note_workspace_def)
  have result: "after ?Q (of_result r) (\<lambda>_. ?Q) ?Q" for r :: "string + 'x"
    by (rule after_result) simp_all
  have acceptance: "after ?Q (of_result (nonempty_arr params ''acceptance'')) (\<lambda>acc s. ?Q s \<and> get_arr params ''acceptance'' = Some acc) ?Q"
    by (rule after_result) (auto simp: nonempty_arr_def split: option.splits if_splits)
  have event: "after P (core_event V i w t now p k) (\<lambda>_. P) P"
    if "\<And>s t. eg_goals (sy_engine t) = eg_goals (sy_engine s) \<Longrightarrow> P s \<Longrightarrow> P t" for P :: "sys \<Rightarrow> bool" and i w t p k
    using that by (fastforce simp: after_def core_event_def on_store_def split: prod.splits sum.splits)
  have body: "after (\<lambda>s. ?Q s \<and> get_arr params ''acceptance'' = Some acc)
     (then_do (of_result (require_each keys acc)) (\<lambda>_.
      then_do (of_result (require params ''idempotency_key'')) (\<lambda>key.
         then_do (core_event V i workspace ''goal.created'' now p key) (\<lambda>outcome.
         then_do (on_engine (\<lambda>eng. case outcome of
                    Committed _ \<Rightarrow> eng\<lparr>eg_goals := (eg_goals eng)(g \<mapsto> p)\<rparr> | Replayed _ \<Rightarrow> eng)) (\<lambda>_.
         ret v))))) (\<lambda>_. ?Q) ?Q" if p: "checks_of p = acc" for acc keys i p g v
  proof (cases "get_arr params ''acceptance'' = Some acc")
    case True
    have set: "after ?Q (on_engine (\<lambda>eng. case outcome of
                    Committed _ \<Rightarrow> eng\<lparr>eg_goals := (eg_goals eng)(g \<mapsto> p)\<rparr> | Replayed _ \<Rightarrow> eng)) (\<lambda>_. ?Q) ?Q" for outcome
      using assms(2) True p by (auto simp: after_def on_engine_def quiet_goals_def ran_def split: commit_outcome.splits if_splits)
    have core: "after ?Q (core_event V i workspace ''goal.created'' now p key) (\<lambda>_. ?Q) ?Q" for key
      by (rule event) simp
    have "after ?Q (then_do (of_result (require_each keys acc)) (\<lambda>_.
      then_do (of_result (require params ''idempotency_key'')) (\<lambda>key.
         then_do (core_event V i workspace ''goal.created'' now p key) (\<lambda>outcome.
         then_do (on_engine (\<lambda>eng. case outcome of
                    Committed _ \<Rightarrow> eng\<lparr>eg_goals := (eg_goals eng)(g \<mapsto> p)\<rparr> | Replayed _ \<Rightarrow> eng)) (\<lambda>_.
         ret v))))) (\<lambda>_. ?Q) ?Q"
      by (intro after_then [OF result] after_then [OF core] after_then [OF set] after_ret)
    then show ?thesis by (rule after_pre) simp
  qed (simp add: after_def)
  have "after ?Q (create_goal V workspace params now) (\<lambda>_. ?Q) ?Q"
    unfolding create_goal_def Let_def
    by (intro after_then [OF note'] after_then [OF result] after_then [OF acceptance] body) (simp add: checks_of_def get_arr_def)
  then show ?thesis using after_snd assms(1) by blast
qed

lemma sample_waiting_quiet: "quiet sample_waiting"
proof -
  have g: "along goals_kept (freeze_plan V workspace params now)" for V workspace params now
    unfolding freeze_plan_def Let_def core_event_def note_workspace_def
    by (intro goals.along_then goals.along_if goals.along_basic along_files_goals files_on_store files_on_engine) simp_all
  have "quiet (sample_call GoalCreate (sample_goal ''file_contains'') 1 sample_sys)"
    unfolding sample_call_def dispatch_run.simps
    by (rule create_goal_quiet) (auto simp: sample_sys_def engine_default_def quiet_goals_def sample_goal_def get_arr_def runs_command_def get_str_def)
  then have "quiet (sample_call PlanFreeze sample_plan 2 (sample_call GoalCreate (sample_goal ''file_contains'') 1 sample_sys))"
    using alongD [OF g] by (simp add: sample_call_def [of PlanFreeze] goals_kept_def)
  then show ?thesis
    using acts_start_run [of sample_run_env "''ws''" "JObj sample_start" 3] by (simp add: sample_waiting_def sample_call_def [of RunStart] acts_def)
qed

text \<open>
  C34: Only an approved step acts. In a governed system whose acceptance checks only read, a call of any
  run method leaves the files as they are, or it starts a run and makes the baseline snapshot, or it
  approves the pending card of a run: then the card is the one asked for and has not expired, it shows
  the first remaining step of the run by the digest of its effect, and exactly that effect was executed,
  once, on the files.
\<close>

theorem only_approved_steps_act:
  assumes "codec V" "governed V s" "quiet_goals (eg_goals (sy_engine s))"
  shows "let s' = snd (dispatch_run V workspace m params now s) in
    sy_fs s' = sy_fs s
    \<or> starts_run m \<and> (\<exists>run_id worktree. sy_fs s' = snd (re_snapshot V (sy_fs s) (re_store_dir V) run_id worktree))
    \<or> m = ApprovalResolve \<and> get_str params ''decision'' = Some ''approve''
      \<and> (\<exists>run_id r crd step rest. get_str params ''run_id'' = Some run_id \<and> eg_runs (sy_engine s) run_id = Some r
          \<and> rc_remaining_steps r = step # rest \<and> rc_pending_approval r = Some crd
          \<and> get_str crd ''approval_id'' = get_str params ''approval_id''
          \<and> sint now < or_else (get_i64 crd ''expires_at_ms'') 0
          \<and> get_str crd ''digest'' = Some (effect_digest V (kind_of step) (effect_of step))
          \<and> classify_effect (kind_of step) = EffectNeedsApproval
          \<and> sy_fs s' = snd (execute_command_effect V (rc_worktree r) (effect_of step) (sy_fs s)))"
proof (cases m)
  case ApprovalResolve
  let ?s' = "snd (resolve_approval V workspace params now s)"
  show ?thesis
  proof (cases "sy_fs ?s' = sy_fs s")
    case False
    obtain i r crd a where r: "eg_runs (sy_engine s) i = Some r"
      "validate_approval r a now = Ok crd" "get_str params ''run_id'' = Some i" "get_str params ''approval_id'' = Some a"
      "get_str params ''decision'' = Some ''approve''"
      "\<And>step rest. rc_remaining_steps r = step # rest \<Longrightarrow> sy_fs ?s' = snd (execute_command_effect V (rc_worktree r) (effect_of step) (sy_fs s))"
      by (rule resolve_files [OF assms(1,3) False]) blast
    have crd: "rc_pending_approval r = Some crd" using r(2) by (simp add: validate_approval_Ok)
    have "card_ok V i r" using governed_index_ok [OF assms(2,1)] r(1) by (simp add: index_ok_def)
    with crd have "\<exists>step rest t. rc_remaining_steps r = step # rest \<and> classify_effect (kind_of step) = EffectNeedsApproval
        \<and> crd = build_card V i r (step_id_of step) (kind_of step) (effect_of step) t" by (simp add: card_ok_def)
    then obtain step rest t where step: "rc_remaining_steps r = step # rest"
      "classify_effect (kind_of step) = EffectNeedsApproval" "crd = build_card V i r (step_id_of step) (kind_of step) (effect_of step) t"
      by blast
    have digest: "get_str crd ''digest'' = Some (effect_digest V (kind_of step) (effect_of step))"
      by (simp add: step(3) build_card_def Let_def get_str_simp)
    show ?thesis
      unfolding ApprovalResolve dispatch_run.simps Let_def
      using r step(1,2) crd digest by (auto simp: validate_approval_Ok)
  qed (simp add: ApprovalResolve)
next
  case RunStart
  with acts_start_run assms(3) show ?thesis by (simp add: acts_def snapshot_change_def starts_run_def)
next
  case RunFork
  with acts_fork_run assms(3) show ?thesis by (simp add: acts_def snapshot_change_def starts_run_def)
next
  case RunRetry
  with acts_fork_run assms(3) show ?thesis by (simp add: acts_def snapshot_change_def starts_run_def)
qed (use assms(3) files_other in \<open>auto simp: along_def files_kept_def files_create_goal\<close>)

theorem only_approved_steps_act_witness:
  "let s' = sample_call ApprovalResolve sample_approval 4 sample_waiting in
    sy_fs s' = sy_fs sample_waiting
    \<or> starts_run ApprovalResolve \<and> (\<exists>run_id worktree. sy_fs s' = snd (re_snapshot sample_run_env (sy_fs sample_waiting) (re_store_dir sample_run_env) run_id worktree))
    \<or> (\<exists>r step rest. eg_runs (sy_engine sample_waiting) (run_id_for sample_run_env sample_goal_id 3) = Some r
          \<and> rc_remaining_steps r = step # rest \<and> sy_fs s' = snd (execute_command_effect sample_run_env (rc_worktree r) (effect_of step) (sy_fs sample_waiting)))"
  using only_approved_steps_act [OF sample_run_codec sample_waiting_governed sample_waiting_quiet, where workspace = "''ws''" and m = ApprovalResolve
      and params = "JObj sample_approval" and now = 4]
  unfolding sample_call_def [of ApprovalResolve] Let_def by (auto simp: get_str_def sample_approval_def)

end
