(* ===== verification/RunOutcomes.thy ===== *)
theory RunOutcomes
  imports GovernedRuns
begin

text \<open>
  How the calls on runs end: each returns (the fuel of \<open>execute_turns\<close> is never used up), and a
  finished run succeeds exactly when all acceptance checks of its goal pass.
\<close>

section \<open>Every call returns\<close>

definition returns :: "(sys \<Rightarrow> bool) \<Rightarrow> 'a step \<Rightarrow> bool" where
  "returns P m \<longleftrightarrow> (\<forall>s. P s \<longrightarrow> fst (m s) \<noteq> Err NoReturn)"

lemma returns_then: "returns P m \<Longrightarrow> after P m Q E \<Longrightarrow> (\<And>a. returns (Q a) (f a)) \<Longrightarrow> returns P (then_do m f)"
  by (fastforce simp: returns_def after_def then_do_def split: prod.splits sum.splits)

lemma returns_pre: "returns P m \<Longrightarrow> (\<And>s. P' s \<Longrightarrow> P s) \<Longrightarrow> returns P' m"
  by (simp add: returns_def)

abbreviation always :: "'a step \<Rightarrow> bool" where
  "always m \<equiv> returns (\<lambda>_. True) m"

lemma always_returns: "always m \<Longrightarrow> returns P m"
  by (rule returns_pre) simp_all

lemma always_then: "always m \<Longrightarrow> (\<And>a. always (f a)) \<Longrightarrow> always (then_do m f)"
  by (rule returns_then [where Q = "\<lambda>_ _. True" and E = "\<lambda>_. True"]) (auto simp: after_def split: sum.splits)

lemma always_ret: "always (ret v)"
  by (simp add: returns_def ret_def)

lemma always_fail: "always (fail m)"
  by (simp add: returns_def fail_def)

lemma always_get: "always get_sys"
  by (simp add: returns_def get_sys_def)

lemma always_result: "always (of_result r)"
  by (cases r) (simp_all add: of_result_def always_ret always_fail)

lemma always_option: "always (of_option m x)"
  by (cases x) (simp_all add: of_option_def always_ret always_fail)

lemma always_store: "always (on_store show f)"
  by (simp add: returns_def on_store_def split: prod.splits sum.splits)

lemma always_files: "always (on_files f)"
  by (simp add: returns_def on_files_def split: prod.splits sum.splits)

lemma always_engine: "always (on_engine f)"
  by (simp add: returns_def on_engine_def)

lemma always_get_run: "always (get_run i)"
  unfolding get_run_def by (intro always_then always_get always_option)

lemmas always_basic = always_ret always_fail always_get always_result always_option always_store always_files always_engine always_get_run

lemma always_core_event: "always (core_event V e w t now p k)"
  unfolding core_event_def by (rule always_store)

lemma always_append: "always (append_run_event V w t now p k)"
  unfolding append_run_event_def by (intro always_then always_basic always_core_event)

lemma always_transition: "always (transition V i target evidence now key)"
  unfolding transition_def Let_def by (intro always_then always_basic)

lemma always_record: "always (record_effect V w i step outcome now)"
  unfolding record_effect_def Let_def by (intro always_then always_basic always_append)

lemma always_checks: "always (check_each V w i wt now checks ev ok)"
  by (induction checks arbitrary: ev ok) (auto simp: Let_def intro!: always_then always_basic always_append split: prod.splits)

lemma always_finish: "always (finish_run V w i now)"
  unfolding finish_run_def conclude_run_def Let_def
  by (intro always_then always_basic always_checks) (auto intro!: always_then always_basic always_append always_transition split: prod.splits)

lemmas always_steps = always_basic always_core_event always_append always_transition always_record always_finish

text \<open>Each turn drops the step it ran.\<close>

definition shorter :: "string \<Rightarrow> string \<Rightarrow> nat \<Rightarrow> sys \<Rightarrow> bool" where
  "shorter i step_id k s \<longleftrightarrow> (\<forall>r. eg_runs (sy_engine s) i = Some r \<longrightarrow>
     steps_named (rc_remaining_steps r) \<and> length (drop_step step_id (rc_remaining_steps r)) \<le> k)"

definition at_most :: "string \<Rightarrow> nat \<Rightarrow> sys \<Rightarrow> bool" where
  "at_most i k s \<longleftrightarrow> (\<forall>r. eg_runs (sy_engine s) i = Some r \<longrightarrow> steps_named (rc_remaining_steps r) \<and> length (rc_remaining_steps r) \<le> k)"

lemma shorter_index: "index_of t = index_of s \<Longrightarrow> shorter i a k s \<Longrightarrow> shorter i a k t"
  by (simp add: index_of_def shorter_def)

lemma drop_twice: "length (drop_step a (drop_step b steps)) \<le> length (drop_step a steps)"
  by (induction steps) (simp_all add: drop_step_def)

lemma after_shorter_event:
  assumes "codec V" "json_canonical payload" "step_event t" "get_str payload ''run_id'' = Some i"
  shows "after (shorter i a k) (append_run_event V workspace t now payload key) (\<lambda>_. shorter i a k) (\<lambda>_. True)"
proof (rule after_append [OF assms(1,2)])
  show "shorter i a k (s\<lparr>sy_engine := apply_payload t payload (sy_engine s)\<rparr>)" if "shorter i a k s" for s
    unfolding apply_step_event [OF assms(3,4)]
    using that order_trans [OF drop_twice] by (auto simp: shorter_def update_run_index steps_named_drop split: option.splits)
qed (use shorter_index in blast)+

lemma after_shorter_remove: "after (shorter i a k) (remove_step i a) (\<lambda>_. at_most i k) (\<lambda>_. True)"
  by (auto simp: after_def remove_step_def on_engine_def shorter_def at_most_def update_run_index steps_named_drop split: option.splits)

lemma after_shorter_store: "after (shorter i a k) (on_store sh f) (\<lambda>_. shorter i a k) (\<lambda>_. True)"
  by (rule after_store [OF shorter_index]) simp_all

lemma after_shorter_record:
  assumes "codec V" "json_canonical outcome"
  shows "after (shorter i a k) (record_effect V workspace i step outcome now) (\<lambda>_. shorter i a k) (\<lambda>_. True)"
  unfolding record_effect_def Let_def
proof (rule after_then [OF after_shorter_store after_then [OF after_shorter_store after_shorter_event [OF assms(1)]]])
qed (simp_all add: assms step_event_def get_str_simp json_canonical_or_else)

lemma at_most_shorter:
  assumes "at_most i (Suc k) s" "eg_runs (sy_engine s) i = Some r" "rc_remaining_steps r = step # rest"
  shows "shorter i (step_id_of step) k s"
proof -
  have "get_str step ''step_id'' = Some (step_id_of step)"
    using assms by (auto simp: at_most_def steps_named_def step_id_of_def)
  then have "length (drop_step (step_id_of step) (step # rest)) \<le> length rest"
    by (simp add: drop_step_def)
  then show ?thesis using assms by (auto simp: shorter_def at_most_def)
qed

lemma turns_return:
  assumes "codec V"
  shows "k < n \<Longrightarrow> returns (at_most i k) (execute_turns V n workspace i now)"
proof (induction n arbitrary: k)
  case (Suc n)
  have drop: "returns (shorter i a j) (then_do (remove_step i a) (\<lambda>_. execute_turns V n workspace i now))" if "Suc j = k" for a j
    using that Suc.prems unfolding remove_step_def
    by (intro returns_then [OF always_returns [OF always_engine] after_shorter_remove [unfolded remove_step_def]] Suc.IH) simp
  have recorded: "returns (shorter i (step_id_of step) j) (then_do (record_effect V workspace i step outcome now) (\<lambda>_.
      then_do (remove_step i (step_id_of step)) (\<lambda>_. execute_turns V n workspace i now)))"
    if "Suc j = k" "json_canonical outcome" for step outcome j
    by (rule returns_then [OF always_returns [OF always_record] after_shorter_record [OF assms that(2)] drop [OF that(1)]])
  have event: "returns (shorter i (step_id_of step) j) (then_do (append_run_event V workspace ''run.effect_denied_by_policy'' now
       (JObj [(''kind'', JStr a), (''reason'', JStr b), (''run_id'', JStr i), (''step_id'', JStr c)]) key) (\<lambda>_.
      then_do (remove_step i (step_id_of step)) (\<lambda>_. execute_turns V n workspace i now)))" if "Suc j = k" for step j a b c key
    by (rule returns_then [OF always_returns [OF always_append] after_shorter_event [OF assms] drop [OF that]])
      (simp_all add: step_event_def get_str_simp)
  show ?case
    unfolding returns_def
  proof (intro allI impI)
    fix s
    assume s: "at_most i k s"
    show "fst (execute_turns V (Suc n) workspace i now s) \<noteq> Err NoReturn"
    proof (cases "eg_runs (sy_engine s) i")
      case None
      then show ?thesis by (simp add: then_do_def get_run_def get_sys_def of_option_def fail_def)
    next
      case (Some r)
      note get = then_get_run [OF Some]
      show ?thesis
      proof (cases "rc_remaining_steps r")
        case Nil
        then show ?thesis
          using always_finish [of V workspace i now] by (simp add: get returns_def ret_def)
      next
        case (Cons step rest)
        with s Some obtain j where k: "k = Suc j" by (cases k) (auto simp: at_most_def)
        from at_most_shorter [OF s [unfolded k] Some Cons] have short: "shorter i (step_id_of step) j s" .
        show ?thesis
        proof (cases "classify_effect (kind_of step)")
          case EffectAllowed
          show ?thesis
            using EffectAllowed recorded [of j, OF k [symmetric] effect_outcome_canonical(1)] short
            by (cases "execute_allowed_effect V (rc_worktree r) (effect_of step) (sy_fs s)")
              (auto simp: get Cons kind_of_def effect_of_def returns_def then_simps of_result_def, simp_all add: ret_def)
        next
          case EffectDenied
          then show ?thesis
            using event [of j, OF k [symmetric]] short
            by (simp add: get Cons kind_of_def effect_of_def returns_def ret_def Let_def)
        next
          case EffectNeedsApproval
          have "always (then_do (transition V i Blocked [] now k1) (\<lambda>_. then_do (append_run_event V workspace t now p k2) (\<lambda>_. ret v)))"
            for k1 k2 t p and v :: json
            by (intro always_then always_steps)
          with EffectNeedsApproval show ?thesis
            by (simp add: get Cons kind_of_def effect_of_def returns_def ret_def Let_def)
        qed
      qed
    qed
  qed
qed simp

lemma pending_returns: "codec V \<Longrightarrow> returns (index_ok V) (execute_pending V workspace i now)"
  unfolding returns_def
proof (intro allI impI)
  fix s
  assume V: "codec V" and s: "index_ok V s"
  have "at_most i (case eg_runs (sy_engine s) i of None \<Rightarrow> 0 | Some r \<Rightarrow> length (rc_remaining_steps r)) s"
    using s by (auto simp: at_most_def index_ok_def)
  with turns_return [OF V lessI] show "fst (execute_pending V workspace i now s) \<noteq> Err NoReturn"
    by (simp add: execute_pending_def returns_def)
qed

lemma settled_pending_returns: "codec V \<Longrightarrow> returns (settled_run V i) (execute_pending V workspace i now)"
  by (rule returns_pre [OF pending_returns]) simp_all

text \<open>The handlers.\<close>

lemma index_returns_then:
  "always m \<Longrightarrow> keeps V m \<Longrightarrow> (\<And>a. returns (index_ok V) (f a)) \<Longrightarrow> returns (index_ok V) (then_do m f)"
  by (rule returns_then [OF always_returns])

lemma settled_returns_then:
  "always m \<Longrightarrow> after (settled_run V i) m (\<lambda>_. settled_run V i) (index_ok V) \<Longrightarrow> (\<And>a. returns (settled_run V i) (f a))
    \<Longrightarrow> returns (settled_run V i) (then_do m f)"
  by (rule returns_then [OF always_returns])

lemma deny_returns:
  assumes "codec V"
  shows "returns (settled_run V i) (deny_approval V workspace now i a r crd)"
proof -
  have event: "after (settled_run V i) (append_run_event V workspace ''run.effect_denied'' now
      (JObj [(''approval_id'', JStr a), (''run_id'', JStr i), (''step_id'', JStr b)]) key) (\<lambda>_. settled_run V i) (index_ok V)" for b key
    by (rule after_settled_step_event [OF assms]) (simp_all add: step_event_def get_str_simp)
  have go: "after (settled_run V i) (if c then transition V i Running [] now key else ret ()) (\<lambda>_. settled_run V i) (index_ok V)"
      "always (if c then transition V i Running [] now key else ret ())" for c key
    by (cases c; simp add: after_settled_transition after_ret always_steps)+
  have remove: "always (remove_step i b)" for b
    unfolding remove_step_def by (rule always_engine)
  show ?thesis
    unfolding deny_approval_def Let_def
    by (intro settled_returns_then [OF always_append event] settled_returns_then [OF remove after_settled_remove]
        settled_returns_then [OF go(2,1)] settled_pending_returns assms)
qed

lemma step_returns:
  assumes "codec V"
  shows "returns (settled_run V i) (execute_step V workspace i now)"
proof -
  have rest: "returns (\<lambda>s. json_canonical v \<and> settled_run V i s) (then_do (record_effect V workspace i step v now) (\<lambda>_.
      then_do (remove_step i (step_id_of step)) (\<lambda>_. execute_pending V workspace i now)))" for v step
  proof (cases "json_canonical v")
    case True
    have remove: "always (remove_step i b)" for b
      unfolding remove_step_def by (rule always_engine)
    show ?thesis
      by (rule returns_pre [OF settled_returns_then [OF always_record after_settled_record [OF assms True]
            settled_returns_then [OF remove after_settled_remove settled_pending_returns [OF assms]]]]) simp
  qed (simp add: returns_def)
  have act: "after (settled_run V i) (on_files (execute_command_effect V w e)) (\<lambda>v s. json_canonical v \<and> settled_run V i s) (index_ok V)" for w e
    by (rule after_effect)
  have "returns (settled_run V i) (case steps of [] \<Rightarrow> finish_run V workspace i now
     | step # _ \<Rightarrow> let effect = or_else (json_get step ''effect'') (JObj []) in
         then_do (on_files (execute_command_effect V w effect)) (\<lambda>outcome.
         then_do (record_effect V workspace i step outcome now) (\<lambda>_.
         then_do (remove_step i (step_id_of step)) (\<lambda>_. execute_pending V workspace i now))))" for steps w
    by (cases steps) (simp_all add: always_returns always_finish Let_def returns_then [OF always_returns [OF always_files] act rest])
  moreover have "after (settled_run V i) (get_run i) (\<lambda>_. settled_run V i) (index_ok V)"
    by (simp add: after_def get_run_def then_do_def get_sys_def of_option_def ret_def fail_def split: option.splits)
  ultimately show ?thesis
    unfolding execute_step_def by (intro settled_returns_then [OF always_get_run])
qed

lemma approve_returns: "codec V \<Longrightarrow> returns (settled_run V i) (approve_step V workspace now i a r crd)"
  unfolding approve_step_def Let_def
  by (auto intro!: settled_returns_then [OF always_transition after_settled_transition] step_returns always_returns [OF always_fail])

lemma resolve_returns:
  assumes "codec V"
  shows "returns (index_ok V) (resolve_approval V workspace params now)"
proof -
  have admit: "always (admit_resolution V params now i a)" for i a
    unfolding admit_resolution_def by (intro always_then always_steps) (auto intro!: always_then always_steps split: option.splits)
  have "returns (index_ok V) (case x of (r, crd) \<Rightarrow> then_do (append_run_event V workspace ''run.approval_resolved'' now
       (JObj [(''approval_id'', JStr a), (''decision'', JStr d),
              (''digest'', JStr (or_else (get_str crd ''digest'') [])), (''run_id'', JStr i)]) key) (\<lambda>_.
     if d = ''deny'' then deny_approval V workspace now i a r crd
     else if d \<noteq> ''approve'' then fail ''invalid_decision''
     else approve_step V workspace now i a r crd))" for x a d i key
    by (cases x) (auto intro!: returns_then [OF always_returns [OF always_append] after_resolved [OF assms]] deny_returns approve_returns
        always_returns [OF always_fail] assms)
  then show ?thesis
    unfolding resolve_approval_def
    by (intro index_returns_then [OF always_result keeps_result] index_returns_then [OF admit keeps_admit])
qed

lemma resume_returns: "codec V \<Longrightarrow> returns (index_ok V) (resume_run V workspace params now)"
  unfolding resume_run_def Let_def
  by (auto simp: report_event_def intro!: index_returns_then [OF always_result keeps_result] index_returns_then [OF always_get_run keeps_get_run]
      index_returns_then [OF always_get keeps_get] index_returns_then [OF always_append keeps_report]
      returns_then [OF always_returns [OF always_transition] after_running] settled_pending_returns always_returns [OF always_fail])

lemma start_returns:
  assumes "codec V"
  shows "returns (\<lambda>s. index_ok V s \<and> fresh_start V now s) (start_run V workspace params now)"
proof -
  let ?P = "\<lambda>s. index_ok V s \<and> fresh_start V now s"
  have bind: "always (bind_run V workspace params now g v plan key)" for g v plan key
    unfolding bind_run_def Let_def
    by (intro always_then always_steps) (auto intro!: always_then always_steps split: option.splits)
  have go: "returns (\<lambda>s. j = i \<and> settled_run V i s) (then_do (transition V j Running [] now k) (\<lambda>_. execute_pending V workspace j now))" for i j k
  proof (cases "j = i")
    case True
    show ?thesis
      unfolding True
      by (rule returns_pre [OF settled_returns_then [OF always_transition after_settled_transition settled_pending_returns [OF assms]]]) simp
  qed (simp add: returns_def)
  have run: "returns ?P (then_do (bind_run V workspace params now g v plan key) (\<lambda>i.
      then_do (transition V i Running [] now k) (\<lambda>_. execute_pending V workspace i now)))" for g v plan key k
    by (rule returns_then [OF always_returns [OF bind] after_pre [OF after_bind [OF assms refl]] go]) (simp add: fresh_start_def)
  have note': "after ?P (on_engine (note_workspace workspace)) (\<lambda>_. ?P) (index_ok V)"
    by (rule after_post [OF after_index [OF _ fresh_index]])
      (simp_all add: along_def on_engine_def index_kept_def index_of_def note_workspace_def)
  show ?thesis
    unfolding start_run_def
    by (intro returns_then [OF always_returns [OF always_engine] note'] returns_then [OF always_returns [OF always_result] fresh_result]
        returns_then [OF always_returns [OF always_option] fresh_option] returns_then [OF always_returns [OF always_get] fresh_get] run)
qed

lemma fork_returns: "codec V \<Longrightarrow> returns (\<lambda>s. index_ok V s \<and> fresh_start V now s) (fork_run V workspace params now)"
  unfolding fork_run_def
  by (intro returns_then [OF always_returns [OF always_result] fresh_result]
        returns_then [OF always_returns [OF always_option] fresh_option] returns_then [OF always_returns [OF always_get] fresh_get] start_returns)

lemma other_returns:
  "always (create_goal V workspace params now)" "always (freeze_plan V workspace params now)" "always (pause_run V workspace params now)"
  "always (cancel_run V workspace params now)" "always (steer_run V workspace params now)"
  unfolding create_goal_def freeze_plan_def pause_run_def cancel_run_def steer_run_def Let_def
  by (auto intro!: always_then always_steps)

lemma dispatch_returns:
  assumes "codec V" "index_ok V s" "starts_run m \<Longrightarrow> fresh_start V now s"
  shows "fst (dispatch_run V workspace m params now s) \<noteq> Err NoReturn"
  using assms other_returns [of V workspace params now] start_returns [OF assms(1)] fork_returns [OF assms(1)] resume_returns [OF assms(1)] resolve_returns [OF assms(1)]
  by (cases m) (auto simp: returns_def starts_run_def)

section \<open>Verdicts\<close>

text \<open>
  The reference: the checks of a goal are evaluated in order, each on the files that the ones before
  left; the result lists the checks that passed and says whether all did.
\<close>

fun evaluate_checks :: "run_env \<Rightarrow> string \<Rightarrow> json list \<Rightarrow> fs \<Rightarrow> json list \<times> bool" where
  "evaluate_checks V worktree [] fs = ([], True)"
| "evaluate_checks V worktree (check # checks) fs =
     (case verify_acceptance V worktree (or_else (get_str check ''kind'') []) check fs of
        ((passed, detail), fs1) \<Rightarrow>
          (case evaluate_checks V worktree checks fs1 of
             (passing, all_passed) \<Rightarrow> (if passed then check # passing else passing, passed \<and> all_passed)))"

definition evidence_of :: "json list \<Rightarrow> string list" where
  "evidence_of checks = map (\<lambda>check. ''evidence:'' @ or_else (get_str check ''check_id'') []) checks"

text \<open>Appending a report leaves files and index alone.\<close>

lemma report_Ok:
  assumes "report_event t" "append_run_event V workspace t now p k s = (Ok u, s')"
  shows "sy_fs s' = sy_fs s \<and> index_of s' = index_of s \<and> eg_goals (sy_engine s') = eg_goals (sy_engine s)"
proof -
  have "apply_event V t q eng = eng" for q eng
    using apply_report_event [OF assms(1)] by (simp add: apply_event_def split: option.splits)
  with assms(2) show ?thesis
    by (auto simp: append_run_event_def core_event_def then_do_def on_engine_def on_store_def get_sys_def index_of_def split: prod.splits sum.splits)
qed

lemma check_each_evaluates:
  "check_each V workspace i worktree now checks ev ok s = (Ok (ev', ok'), s') \<Longrightarrow>
     ev' = ev @ evidence_of (fst (evaluate_checks V worktree checks (sy_fs s)))
     \<and> ok' = (ok \<and> snd (evaluate_checks V worktree checks (sy_fs s))) \<and> index_of s' = index_of s"
proof (induction checks arbitrary: ev ok s)
  case Nil
  then show ?case by (simp add: ret_def evidence_of_def)
next
  case (Cons check checks)
  obtain passed detail fs1 where v: "verify_acceptance V worktree (or_else (get_str check ''kind'') []) check (sy_fs s) = ((passed, detail), fs1)"
    by (metis prod.collapse)
  let ?id = "or_else (get_str check ''check_id'') []"
  let ?m = "append_run_event V workspace ''run.acceptance_checked'' now
     (JObj [(''check_id'', JStr ?id), (''detail'', JStr detail), (''passed'', JBool passed), (''run_id'', JStr i)])
     (i @ ''-check-'' @ ?id @ ''-'' @ show_ms now)"
  have eq: "check_each V workspace i worktree now (check # checks) ev ok s =
      then_do ?m (\<lambda>_. check_each V workspace i worktree now checks (if passed then ev @ [''evidence:'' @ ?id] else ev) (ok \<and> passed)) (s\<lparr>sy_fs := fs1\<rparr>)"
    by (simp add: Let_def then_do_def [of "on_files _"] on_files_def v)
  obtain y t where m: "?m (s\<lparr>sy_fs := fs1\<rparr>) = (y, t)" by force
  with Cons.prems eq obtain u where y: "y = Ok u" by (cases y) (auto simp: then_do_def)
  have t: "sy_fs t = fs1 \<and> index_of t = index_of s"
    using report_Ok [OF _ m [unfolded y]] by (simp add: report_event_def index_of_def)
  have "check_each V workspace i worktree now checks (if passed then ev @ [''evidence:'' @ ?id] else ev) (ok \<and> passed) t = (Ok (ev', ok'), s')"
    using Cons.prems eq m y by (simp add: then_do_def)
  from Cons.IH [OF this] t show ?case
    by (auto simp: v evidence_of_def split: prod.splits)
qed

lemma finish_run_evaluates:
  assumes "finish_run V workspace i now s = (Ok v, s')" "eg_runs (sy_engine s) i = Some r"
    and "evaluate_checks V (rc_worktree r) (checks_of (or_else (eg_goals (sy_engine s) (rc_goal_id r)) (JObj []))) (sy_fs s) = (passing, all_passed)"
  shows "get_str v ''state'' = Some (if all_passed then ''succeeded'' else ''failed'')
    \<and> get_arr v ''evidence'' = Some (map JStr (evidence_of passing))
    \<and> map_option rc_state (eg_runs (sy_engine s') i) = Some (if all_passed then ''succeeded'' else ''failed'')"
proof -
  let ?checks = "check_each V workspace i (rc_worktree r) now (checks_of (or_else (eg_goals (sy_engine s) (rc_goal_id r)) (JObj []))) [] True"
  have eq: "finish_run V workspace i now s = then_do ?checks (\<lambda>(ev, ok). conclude_run V workspace i now ev ok) s"
    by (simp add: finish_run_def then_get_run [OF assms(2)] then_simps)
  from assms(1) eq obtain ev ok t where m: "?checks s = (Ok (ev, ok), t)" "conclude_run V workspace i now ev ok t = (Ok v, s')"
    by (auto simp: then_Ok)
  from check_each_evaluates [OF m(1)] assms(3) have t: "ev = evidence_of passing" "ok = all_passed" "index_of t = index_of s"
    by simp_all
  let ?p = "JObj [(''evaluator'', JStr ''independent-verifier''), (''run_id'', JStr i), (''verdict'', JStr (if ok then ''complete'' else ''revise''))]"
  let ?tr = "transition V i (if ok then RunSucceeded else RunFailed) ev now (i @ ''-terminal-'' @ show_ms now)"
  from m(2) obtain u w t1 where rep: "append_run_event V workspace ''run.verdict'' now ?p (i @ ''-verdict-'' @ show_ms now) t = (Ok u, t1)"
    and tr: "?tr t1 = (Ok w, s')"
    and v: "v = JObj [(''evidence'', JArr (map JStr ev)), (''run_id'', JStr i), (''state'', JStr (if ok then ''succeeded'' else ''failed'')),
      (''verdict'', JStr (if ok then ''complete'' else ''revise''))]"
    unfolding conclude_run_def Let_def then_Ok by (auto simp: ret_def)
  from report_Ok [OF _ rep] t(3) have t1: "index_of t1 = index_of s" by (simp add: report_event_def)
  have "map_option rc_state (eg_runs (sy_engine s') i) = Some (if ok then ''succeeded'' else ''failed'')"
    using tr t1 assms(2)
    by (auto simp: transition_def Let_def then_Ok get_sys_def on_store_def on_engine_def update_run_index set_state_def index_of_def
        split: prod.splits sum.splits if_splits)
  with v t show ?thesis by (simp add: get_str_simp get_arr_def)
qed

section \<open>The properties\<close>

text \<open>
  C36: Calls return. In a governed system every call of a run method ends: the loop that executes
  the pending steps never runs out of its turns, because each turn that goes on drops a step. (A start
  needs a moment at which its run identifier is new.)
\<close>

theorem run_calls_return:
  assumes "codec V" "governed V s" "starts_run m \<Longrightarrow> fresh_start V now s"
  shows "fst (dispatch_run V workspace m params now s) \<noteq> Err NoReturn"
  by (rule dispatch_returns [OF assms(1) governed_index_ok [OF assms(2,1)] assms(3)])

theorem run_calls_return_witness:
  "fst (dispatch_run sample_run_env ''ws'' ApprovalResolve (JObj sample_approval) 4 sample_waiting) \<noteq> Err NoReturn"
  by (rule run_calls_return [OF sample_run_codec sample_waiting_governed]) (simp add: starts_run_def)

text \<open>
  C35: A run succeeds by its checks alone. Finishing a run evaluates the acceptance checks of its goal
  in order; when it answers, the state of the answer and of the run is \<open>succeeded\<close> if all of them
  passed and \<open>failed\<close> otherwise, and the evidence lists exactly the checks that passed. Otherwise it
  is an error of the engine.
\<close>

theorem runs_succeed_by_their_checks:
  "case finish_run V workspace i now s of
     (Err e, _) \<Rightarrow> e \<noteq> NoReturn
   | (Ok v, s') \<Rightarrow>
       (\<exists>r. eg_runs (sy_engine s) i = Some r
         \<and> (case evaluate_checks V (rc_worktree r) (checks_of (or_else (eg_goals (sy_engine s) (rc_goal_id r)) (JObj []))) (sy_fs s) of
              (passing, all_passed) \<Rightarrow>
                get_str v ''state'' = Some (if all_passed then ''succeeded'' else ''failed'')
                \<and> get_arr v ''evidence'' = Some (map JStr (evidence_of passing))
                \<and> map_option rc_state (eg_runs (sy_engine s') i) = Some (if all_passed then ''succeeded'' else ''failed'')))"
proof (cases "finish_run V workspace i now s")
  case (Pair x s')
  show ?thesis
  proof (cases x)
    case (Inl e)
    with Pair always_finish [of V workspace i now] show ?thesis by (auto simp: returns_def dest: spec [of _ s])
  next
    case (Inr v)
    with Pair have fin: "finish_run V workspace i now s = (Ok v, s')" by simp
    then obtain r where r: "eg_runs (sy_engine s) i = Some r"
      by (cases "eg_runs (sy_engine s) i")
        (auto simp: finish_run_def get_run_def then_do_def get_sys_def of_option_def fail_def)
    obtain passing all_passed where e: "evaluate_checks V (rc_worktree r) (checks_of (or_else (eg_goals (sy_engine s) (rc_goal_id r)) (JObj []))) (sy_fs s)
        = (passing, all_passed)" by force
    from finish_run_evaluates [OF fin r e] r e show ?thesis by (simp add: fin)
  qed
qed

section \<open>What a restart loses, and what a check may do\<close>

text \<open>
  A rebuilt index has no workspace hint, so its runs have no workspace, and every transition of them
  is refused by the store: they cannot go on after a restart.
\<close>

definition homeless :: "run_engine \<Rightarrow> bool" where
  "homeless eng \<longleftrightarrow> eg_workspace_hint eng = None \<and> (\<forall>i r. eg_runs eng i = Some r \<longrightarrow> rc_workspace r = [])"

lemma homeless_update: "homeless eng \<Longrightarrow> (\<And>r. rc_workspace (f r) = rc_workspace r) \<Longrightarrow> homeless (update_run i f eng)"
  by (auto simp: homeless_def update_run_def split: option.splits if_splits)

lemma homeless_binding: "homeless eng \<Longrightarrow> homeless (apply_binding payload eng)"
  by (auto simp: homeless_def apply_binding_def Let_def split: option.splits if_splits)

lemma homeless_tables:
  "homeless (eng\<lparr>eg_goals := goals\<rparr>) = homeless eng" "homeless (eng\<lparr>eg_plans := plans\<rparr>) = homeless eng"
  by (simp_all add: homeless_def)

lemma homeless_event: "homeless eng \<Longrightarrow> homeless (apply_event V t p eng)"
proof -
  assume eng: "homeless eng"
  have "homeless (apply_payload t payload eng)" for payload
    unfolding apply_payload_def Let_def
    by (simp add: eng homeless_tables homeless_update homeless_binding set_state_def split: option.splits)
  then show ?thesis using eng by (simp add: apply_event_def split: option.splits)
qed

lemma homeless_rebuild: "homeless eng \<Longrightarrow> homeless (rebuild_from V st n cursor eng)"
proof (induction n arbitrary: cursor eng)
  case (Suc n)
  have "homeless (foldl (\<lambda>e ev. apply_event V (rv_event_type ev) (rv_payload_json ev) e) eng events)" for events
    using Suc.prems by (induction events arbitrary: eng) (simp_all add: homeless_event)
  then show ?case by (auto intro: Suc.IH Suc.prems split: prod.splits)
qed simp

lemma rebuilt_runs_are_refused:
  assumes "sy_engine s = rebuild V' st" "es_workspace_id (sy_store s) \<noteq> []"
  shows "fst (transition V i target evidence now key s) = Err (EngineError ''workspace_mismatch'')"
proof -
  have "homeless (sy_engine s)"
    unfolding assms(1) rebuild_def by (rule homeless_rebuild) (simp add: homeless_def engine_default_def)
  then have "(case eg_runs (sy_engine s) i of None \<Rightarrow> [] | Some r \<Rightarrow> rc_workspace r) = []"
    by (simp add: homeless_def split: option.splits)
  with assms(2) show ?thesis
    by (simp add: transition_def Let_def then_do_def get_sys_def on_store_def transition_run_def)
qed

text \<open>A check of kind \<open>command_succeeds\<close> runs its command as an approved step would, with no card.\<close>

lemma checks_run_commands:
  "snd (verify_acceptance V worktree ''command_succeeds'' check fs)
     = snd (execute_command_effect V worktree
         (JObj [(''argv'', or_else (json_get check ''argv'') (JArr [])), (''kind'', JStr ''command.run'')]) fs)"
  by (simp add: verify_acceptance_def Let_def split: prod.splits sum.splits)

end
