(* ===== verification/Spec2Isabelle.thy ===== *)
theory Spec2Isabelle
  imports CommandLine Supervision CodeCapsule ToolBroker StoreJournal StoreProjection BlobStore KeyCustody PluginHost PathGuard ApprovedEffects RunOutcomes
begin

text \<open>
  Saber: the trusted Rust core of a coding agent harness.

  The agent proposes actions; the core decides which take effect. A capability request is decided by
  policy (\<open>crates/policy\<close>); an authorised effect runs in a sandbox realm (\<open>crates/sandbox\<close>), with its
  secrets injected from leases (\<open>crates/secret-broker\<close>), its connections confined
  (\<open>crates/egress\<close>), and its intent and result in a hash-chained log (\<open>crates/event-store\<close>). The
  effect broker (\<open>crates/effect-broker\<close>) composes these for one effect, the tool broker
  (\<open>crates/tool-broker\<close>) wraps it into a verified tool call on an overlay, and the core
  (\<open>crates/saber-core\<close>) runs governed goals whose steps an operator approves one at a time. Every
  theory but the lemma collections models one source file, in the order of the list below.

  \<^item> \<open>Prelude\<close>: Rust results, words, UTF-8 strings, ordered maps (\<open>BTreeMap\<close>), length-prefixed digest
    framing, and the contracts (locales) shared by components. \<open>Json\<close>: \<open>serde_json\<close> values.
    \<open>HostFiles\<close>: a file tree with links, and what the code uses of \<open>std::fs\<close> and \<open>std::path\<close>.
  \<^item> \<open>PolicyVocabulary\<close>, \<open>PolicyEngine\<close>, \<open>PolicyEnforcer\<close> (\<open>policy/src\<close>: \<open>vocabulary.rs\<close>, \<open>lib.rs\<close>,
    \<open>approval.rs\<close>, \<open>audit.rs\<close>): the resource grammar, \<open>PolicyEngine::decide\<close> against a declarative
    specification, bundle updates, approvals, and the enforcement point around an arbitrary effect.
  \<^item> \<open>EgressAddress\<close>, \<open>Egress\<close> (\<open>egress/src/lib.rs\<close>): address classes and parsing, rules, pinned
    resolutions, redirects and connection checks.
  \<^item> \<open>SandboxPlan\<close>, \<open>SandboxBackends\<close>, \<open>SandboxPlatform\<close>, \<open>FakeBackend\<close>, \<open>PathGuard\<close> (\<open>sandbox/src\<close>:
    \<open>plan.rs\<close>, \<open>environment.rs\<close>, \<open>spi.rs\<close>, \<open>registry.rs\<close>, \<open>process.rs\<close>, \<open>platform.rs\<close>, \<open>fake.rs\<close>,
    \<open>path.rs\<close>): validated plans and child environments, the backend contract \<open>realm_backend\<close> with its
    three providers, and the canonical path guard.
  \<^item> \<open>SecretBroker\<close> (\<open>secret-broker/src/lib.rs\<close>): custody, single-use leases, redaction.
  \<^item> \<open>EventLog\<close>, \<open>EventStore\<close>, \<open>StoreProjection\<close>, \<open>StoreEffects\<close>, \<open>BlobStore\<close>, \<open>KeyCustody\<close>
    (\<open>event-store/src\<close>): rows and hash chain, tables and transactions as one state each, the run
    projection and its recovery, idempotency and effect intents, encrypted blobs, key rotation with
    a stop at any point.
  \<^item> \<open>EffectBroker\<close>, \<open>StoreJournal\<close>, \<open>PluginHost\<close> (\<open>effect-broker/src\<close>): the composition of one effect
    over any backend, sink and journal; the event store as that journal; plugin admission.
  \<^item> \<open>GoalDag\<close>, \<open>Orchestrator\<close> (\<open>orchestrator/src\<close>): goal graphs, delegation, judgment, task states.
  \<^item> \<open>RunEngine\<close>, \<open>GovernedRuns\<close>, \<open>ApprovedEffects\<close>, \<open>RunOutcomes\<close> (\<open>saber-core/src/run_engine.rs\<close>,
    \<open>run_dispatch.rs\<close>): the handlers of the governed run methods over store and files, and what they
    guarantee. \<open>ChangeSet\<close>, \<open>MultiAgent\<close> (\<open>change_set.rs\<close>, \<open>multi_agent.rs\<close>): baseline, rollback, commit;
    delegation to child agents.
  \<^item> \<open>AuditedRun\<close>, \<open>CommandLine\<close> (\<open>saber-core/src\<close>: \<open>lib.rs\<close>, \<open>main.rs\<close>): one audited command, composed of
    store, key file, policy, operator grant and sandbox, over any history of runs; the command line.
  \<^item> \<open>ControlProtocol\<close>, \<open>Supervision\<close> (\<open>core-protocol/src\<close>; \<open>serve.rs\<close>, \<open>run_dispatch.rs\<close>): decoding of
    control requests; the endpoint as a step relation over interleaved connections, whose handlers are
    those of \<open>RunEngine\<close>, \<open>ChangeSet\<close> and \<open>MultiAgent\<close>.
  \<^item> \<open>MemoryAuthority\<close>, \<open>Evolution\<close>, \<open>CodeCapsule\<close> (\<open>memory-authority/src\<close>, \<open>evolution/src\<close>,
    \<open>code-capsule/src\<close>): what an agent learns or generates takes effect only after a review: memory
    entries, the candidate lifecycle of the workshop, and the capsules whose execution it gates.
  \<^item> \<open>ToolBroker\<close> (\<open>tool-broker/src\<close>): preparation, execution through the effect broker, verification
    of the overlay, checkpoint, compensation and locks.

  State and errors. A struct is a record, an enum a datatype with the same constructors, a fallible
  function returns \<open>Ok\<close> or \<open>Err\<close>; every early return is a branch. Code that changes state returns the
  new state (the handlers of the run engine in the state and error monad of \<open>RunEngine\<close>). Integers of
  fixed width are words, with wrapping or saturating operations as the code writes them.
  A transaction that fails leaves the tables as they were.

  Lemma groups. Each theory states the invariants of its state and that every operation keeps them;
  the properties (marked C1, C2, ...) are the statements a user of the component relies on: authority
  (nothing acts without decision, approval and audit), confinement (realm, environment, network,
  paths), custody (leases, redaction, keys), durability (chain, projection, recovery, one resolution per
  intent), bounded progress (termination, retries), and restoration (rollback, compensation).

  Exceptions. Where the code itself breaks a promise in one situation, the property excludes exactly that
  situation and a lemma shows it: two connections inside the handshake window
  (\<open>two_connections_share_the_token\<close>), another process publishing the same blob (\<open>racing_write_unreadable\<close>),
  rotating again after a rotation left midway (\<open>retry_without_reopen_loses_key\<close>), and a link put into an
  overlay that held no files (\<open>link_hides_undeclared_outputs\<close>).

  Parameters. SHA-256, authenticated encryption, the text form of JSON, child processes, git, clock and
  random source are arguments of the definitions that use them; a property that needs more than their
  type (no collision, decryption inverts encryption) states it as a premise, with a witness.

  Bounds and fuel. \<open>execute_turns\<close> gets as fuel the remaining steps and one more, and \<open>RunOutcomes\<close>
  shows it is never used up. Walks over the file tree get its height, which every path in the tree
  is below; following links stops after 40 of them, as the kernel does. Scans of the log get the number of rows.

  Not modelled. The order of directory entries is fixed (the code sorts or collects into ordered maps);
  device and inode numbers are the place of an entry in the tree; Windows variants; sockets
  and their files (a connection is its sequence of lines); the polling loop
  and process groups of \<open>process.rs\<close> (a child run is one function of what it is given); the text
  of errors meant for humans; the state \<open>governed\<close> of the run engine is stated without the index
  rebuilt at start. The crates that no modelled component calls are listed as not modelled in
  the manifest, each with its reason.
\<close>

end
